(* ===== verification/Doorbell_Prelude.thy ===== *)
theory Doorbell_Prelude
  imports Main "HOL-Library.Word" "HOL-Library.Monad_Syntax"
begin

unbundle bit_operations_syntax

text \<open>
  Prelude of the BK7258 doorbell development: the machine integers of the C code, the
  error codes the SDK defines, bytes in memory, and the lemmas on lists and options that
  several components use.

  \<^item> Integers keep their width: \<open>u8\<close>, \<open>u16\<close>, \<open>u32\<close>, \<open>u64\<close> are words, so sums wrap.
  \<^item> \<open>bk_err_t\<close> names the error codes the code under \<^verbatim>\<open>src/\<close> distinguishes; any other
    code that an SDK call may return is \<open>BK_ERR_OTHER\<close>.
  \<^item> A buffer of the heap is a byte list of fixed length; \<open>mem_write\<close> is
    \<^verbatim>\<open>os_memcpy\<close> into it and is \<open>None\<close> when the write leaves the buffer.
\<close>

section \<open>Machine integers and error codes\<close>

type_synonym u8 = "8 word"
type_synonym u16 = "16 word"
type_synonym u32 = "32 word"
type_synonym u64 = "64 word"

datatype bk_err_t =
    BK_OK | BK_FAIL | BK_ERR_NO_MEM | BK_ERR_PARAM | AVDK_ERR_INVAL | AVDK_ERR_UNSUPPORTED | AVDK_ERR_GENERIC
  | BK_ERR_OTHER int

text \<open>The multimedia SDK's success code is the same zero.\<close>

abbreviation AVDK_ERR_OK :: bk_err_t where "AVDK_ERR_OK \<equiv> BK_OK"


named_theorems queue_simps \<open>what the operations of the frame queue compute\<close>
named_theorems frame_rules \<open>what an operation leaves alone\<close>

section \<open>Lists\<close>

text \<open>Searching a list for its first element with a property, through a map.\<close>

lemma extract_map:
  "List.extract P (map f xs) =
     map_option (\<lambda>(pre, x, post). (map f pre, f x, map f post)) (List.extract (P \<circ> f) xs)"
  by (induction xs) (auto simp: extract_Nil_code extract_Cons_code split: option.splits)

lemma find_extract: "List.find P xs = map_option (\<lambda>(pre, x, post). x) (List.extract P xs)"
  by (induction xs) (auto simp: extract_Nil_code extract_Cons_code split: option.splits)

lemma extract_SomeD:
  "List.extract P xs = Some (pre, x, post) \<Longrightarrow>
     xs = pre @ x # post \<and> P x \<and> (\<forall>y \<in> set pre. \<not> P y)"
  by (auto simp: extract_Some_iff)

lemma extract_NoneD: "List.extract P xs = None \<Longrightarrow> \<forall>y \<in> set xs. \<not> P y"
  by (auto simp: extract_None_iff)

lemma remove1_middle [simp]: "x \<notin> set pre \<Longrightarrow> remove1 x (pre @ x # post) = pre @ post"
  by (simp add: remove1_append)

section \<open>Bytes in memory\<close>

definition mem_write :: "'b list \<Rightarrow> nat \<Rightarrow> 'b list \<Rightarrow> 'b list option" where
  "mem_write buf off xs =
     (if off + length xs \<le> length buf
      then Some (take off buf @ xs @ drop (off + length xs) buf) else None)"

lemma mem_write_length: "mem_write buf off xs = Some buf' \<Longrightarrow> length buf' = length buf"
  by (auto simp: mem_write_def split: if_splits)

lemma mem_write_take:
  "mem_write buf off xs = Some buf' \<Longrightarrow>
     take (off + length xs) buf' = take off buf @ xs"
  by (auto simp: mem_write_def split: if_splits)

lemma mem_write_None [simp]: "mem_write buf off xs = None \<longleftrightarrow> length buf < off + length xs"
  by (auto simp: mem_write_def)

end
