(* ===== verification/Db_Pack.thy ===== *)
theory Db_Pack
  imports Doorbell_Prelude
begin

text \<open>
  The framing of the link between the two chips:
  \<^verbatim>\<open>projects/doorbell_lp/cp/db_pack/db_pack.c\<close>. \<open>db_pack_pack\<close> puts a 16-byte header before
  a payload; \<open>db_pack_unpack\<close> takes whatever bytes the link delivers, reassembles the packets
  in a cache buffer and hands each payload to a callback.

  The channel \<^verbatim>\<open>s_db_pack_chan\<close> is a record with its two buffers as byte lists of fixed length.
  A \<^verbatim>\<open>data\<close>, \<^verbatim>\<open>length\<close> pair of C is a byte list, \<open>None\<close> for a \<^verbatim>\<open>NULL\<close> pointer. A write
  beyond a buffer is undefined in C; here the whole operation is \<open>None\<close> then. The CRC
  function \<^verbatim>\<open>hnd_crc8\<close>, the clock and the allocator are the SDK's, and are parameters. What
  the callback is given is the list of \<open>Deliver\<close> events; a logged CRC mismatch is an event
  too.
\<close>

section \<open>The header\<close>

record db_pack_head =
  pk_magic :: u16
  pk_flags :: u16
  pk_timestamp :: u32
  pk_sequence :: u16
  pk_length :: u16
  pk_crc :: u8
  pk_reserved :: "u8 list"

definition DB_PACK_HEAD_MAGIC_CODE :: u16 where "DB_PACK_HEAD_MAGIC_CODE = 0xF0D5"
definition DB_PACK_HEAD_FLAGS_CRC :: u16 where "DB_PACK_HEAD_FLAGS_CRC = 1"
definition DB_PACK_CRC8_INIT_VALUE :: u8 where "DB_PACK_CRC8_INIT_VALUE = 0xFF"
definition DB_PACK_HEAD_SIZE_TOTAL :: nat where "DB_PACK_HEAD_SIZE_TOTAL = 16"

text \<open>The fields are little endian and packed, as on the target.\<close>

definition le16 :: "u16 \<Rightarrow> u8 list" where
  "le16 w = [ucast w, ucast (drop_bit 8 w)]"

definition le32 :: "u32 \<Rightarrow> u8 list" where
  "le32 w = [ucast w, ucast (drop_bit 8 w), ucast (drop_bit 16 w), ucast (drop_bit 24 w)]"

definition get16 :: "u8 list \<Rightarrow> nat \<Rightarrow> u16" where
  "get16 bs i = ucast (bs ! i) OR push_bit 8 (ucast (bs ! (i + 1)))"

definition get32 :: "u8 list \<Rightarrow> nat \<Rightarrow> u32" where
  "get32 bs i = ucast (bs ! i) OR push_bit 8 (ucast (bs ! (i + 1))) OR
     push_bit 16 (ucast (bs ! (i + 2))) OR push_bit 24 (ucast (bs ! (i + 3)))"

definition head_bytes :: "db_pack_head \<Rightarrow> u8 list" where
  "head_bytes h = le16 (pk_magic h) @ le16 (pk_flags h) @ le32 (pk_timestamp h) @
     le16 (pk_sequence h) @ le16 (pk_length h) @ [pk_crc h] @ pk_reserved h"

definition read_head :: "u8 list \<Rightarrow> db_pack_head" where
  "read_head bs = \<lparr>pk_magic = get16 bs 0, pk_flags = get16 bs 2, pk_timestamp = get32 bs 4,
     pk_sequence = get16 bs 8, pk_length = get16 bs 10, pk_crc = bs ! 12,
     pk_reserved = [bs ! 13, bs ! 14, bs ! 15]\<rparr>"

section \<open>The channel\<close>

record db_pack_chan =
  cbuf :: "u8 list"
  csize :: u16
  ccount :: u16
  tx_sequence :: u16
  tbuf :: "u8 list"
  tsize :: u16

datatype mem_event = Malloc_chan | Malloc_cbuf nat | Malloc_tbuf nat | Free_chan | Free_cbuf | Free_tbuf

record pack_state =
  s_db_pack_chan :: "db_pack_chan option"
  pk_mem :: "mem_event list"

datatype pack_event = Crc_mismatch u8 u8 | Deliver "u8 list"

definition db_pack_get_milliseconds :: "u64 \<Rightarrow> u32" where
  "db_pack_get_milliseconds ms = ucast (ms AND 0xFFFFFFFF)"

text \<open>
  Which of the three allocations of \<^verbatim>\<open>db_pack_init\<close> succeed, and what the fresh buffers
  contain.
\<close>

record pack_alloc =
  al_chan :: bool
  al_cbuf :: bool
  al_tbuf :: bool
  al_fill :: "nat \<Rightarrow> u8"

definition mem_log :: "mem_event list \<Rightarrow> pack_state \<Rightarrow> pack_state" where
  "mem_log es st = st\<lparr>pk_mem := pk_mem st @ es\<rparr>"

definition db_pack_init :: "pack_alloc \<Rightarrow> u16 \<Rightarrow> u16 \<Rightarrow> pack_state \<Rightarrow> bk_err_t \<times> pack_state" where
  "db_pack_init al max_rx_size max_tx_size st =
     (if s_db_pack_chan st \<noteq> None then (BK_OK, st)
      else if \<not> al_chan al then (BK_ERR_NO_MEM, st)
      else
        let st = mem_log [Malloc_chan] st;
            n = unat max_rx_size + DB_PACK_HEAD_SIZE_TOTAL;
            m = unat max_tx_size + DB_PACK_HEAD_SIZE_TOTAL in
        if \<not> al_cbuf al then (BK_ERR_NO_MEM, mem_log [Free_chan] st)
        else
          let st = mem_log [Malloc_cbuf n] st in
          if \<not> al_tbuf al then (BK_ERR_NO_MEM, mem_log [Free_cbuf, Free_chan] st)
          else
            let ch = \<lparr>cbuf = map (al_fill al) [0..<n], csize = of_nat n, ccount = 0,
                      tx_sequence = 0, tbuf = map (al_fill al) [0..<m], tsize = max_tx_size\<rparr>
            in (BK_OK, mem_log [Malloc_tbuf m] (st\<lparr>s_db_pack_chan := Some ch\<rparr>)))"

definition db_pack_deinit :: "pack_state \<Rightarrow> bk_err_t \<times> pack_state" where
  "db_pack_deinit st =
     (if s_db_pack_chan st = None then (BK_OK, st)
      else (BK_OK, mem_log [Free_cbuf, Free_tbuf, Free_chan] (st\<lparr>s_db_pack_chan := None\<rparr>)))"

section \<open>Packing\<close>

definition the_head :: "(u8 list \<Rightarrow> u8 \<Rightarrow> u8) \<Rightarrow> u64 \<Rightarrow> u16 \<Rightarrow> u8 list \<Rightarrow> db_pack_head" where
  "the_head crc8 ms seq data = \<lparr>pk_magic = DB_PACK_HEAD_MAGIC_CODE, pk_flags = DB_PACK_HEAD_FLAGS_CRC,
     pk_timestamp = db_pack_get_milliseconds ms, pk_sequence = seq, pk_length = of_nat (length data),
     pk_crc = crc8 data DB_PACK_CRC8_INIT_VALUE, pk_reserved = [0, 0, 0]\<rparr>"

text \<open>
  The result is the C return value and the packet the output pointers give (\<open>want\<close> is
  \<open>False\<close> when one of them is \<^verbatim>\<open>NULL\<close>).
\<close>

definition db_pack_pack ::
    "(u8 list \<Rightarrow> u8 \<Rightarrow> u8) \<Rightarrow> u64 \<Rightarrow> u8 list option \<Rightarrow> bool \<Rightarrow> pack_state \<Rightarrow>
      ((int \<times> u8 list option) \<times> pack_state) option" where
  "db_pack_pack crc8 ms data want st =
     (case s_db_pack_chan st of
        None \<Rightarrow> Some ((-1, None), st)
      | Some ch \<Rightarrow>
          (case data of
             None \<Rightarrow> Some ((-1, None), st)
           | Some bs \<Rightarrow>
               if \<not> want then Some ((-1, None), st)
               else if length bs > unat (tsize ch) then Some ((-1, None), st)
               else do {
                 let seq = tx_sequence ch + 1;
                 t \<leftarrow> mem_write (tbuf ch) 0 (head_bytes (the_head crc8 ms seq bs));
                 t \<leftarrow> mem_write t DB_PACK_HEAD_SIZE_TOTAL bs;
                 let n = DB_PACK_HEAD_SIZE_TOTAL + length bs;
                 Some ((int n, Some (take n t)),
                       st\<lparr>s_db_pack_chan := Some (ch\<lparr>tx_sequence := seq, tbuf := t\<rparr>)\<rparr>)
               }))"

section \<open>Unpacking\<close>

definition append_cache :: "u8 list \<Rightarrow> db_pack_chan \<Rightarrow> db_pack_chan option" where
  "append_cache p ch = do {
     c \<leftarrow> mem_write (cbuf ch) (unat (ccount ch)) p;
     Some (ch\<lparr>cbuf := c, ccount := ccount ch + of_nat (length p)\<rparr>)
   }"

text \<open>
  Filling the cache to \<open>target\<close> bytes: what is left of the input, and whether the target was
  reached.
\<close>

definition fill_to :: "nat \<Rightarrow> u8 list \<Rightarrow> db_pack_chan \<Rightarrow> (bool \<times> u8 list \<times> db_pack_chan) option" where
  "fill_to target p ch =
     (if unat (ccount ch) < target then
        let cp_len = target - unat (ccount ch) in
        if length p < cp_len then do { ch \<leftarrow> append_cache p ch; Some (False, [], ch) }
        else do { ch \<leftarrow> append_cache (take cp_len p) ch; Some (True, drop cp_len p, ch) }
      else Some (True, p, ch))"

lemma fill_to_length: "fill_to n p ch = Some (b, p', ch') \<Longrightarrow> length p' \<le> length p"
  by (auto simp: fill_to_def Let_def split: if_splits Option.bind_splits)

definition deliver ::
    "(u8 list \<Rightarrow> u8 \<Rightarrow> u8) \<Rightarrow> bool \<Rightarrow> db_pack_head \<Rightarrow> u8 list \<Rightarrow> pack_event list" where
  "deliver crc8 cb head payload =
     (if DB_PACK_HEAD_FLAGS_CRC AND pk_flags head \<noteq> 0 \<and>
         crc8 payload DB_PACK_CRC8_INIT_VALUE \<noteq> pk_crc head
      then [Crc_mismatch (pk_crc head) (crc8 payload DB_PACK_CRC8_INIT_VALUE)] else []) @
     (if cb then [Deliver payload] else [])"

text \<open>
  The loop. \<open>p\<close> holds the bytes not yet taken; the result is the value of \<^verbatim>\<open>left\<close> at its end, the
  channel and the events. The branches that cache input without a complete header or packet
  leave \<^verbatim>\<open>left\<close> as it is, the ones that add to a cached packet set it to 0.
\<close>

function unpack_loop ::
    "(u8 list \<Rightarrow> u8 \<Rightarrow> u8) \<Rightarrow> bool \<Rightarrow> u8 list \<Rightarrow> db_pack_chan \<Rightarrow> pack_event list \<Rightarrow>
      (nat \<times> db_pack_chan \<times> pack_event list) option" where
  "unpack_loop crc8 cb p ch out =
     (if p = [] then Some (0, ch, out)
      else if ccount ch = 0 then
        if length p < DB_PACK_HEAD_SIZE_TOTAL
        then map_option (\<lambda>ch. (length p, ch, out)) (append_cache p ch)
        else
          let head = read_head p; len = unat (pk_length head) in
          if pk_magic head \<noteq> DB_PACK_HEAD_MAGIC_CODE then Some (length p, ch, out)
          else if length p < len + DB_PACK_HEAD_SIZE_TOTAL
          then map_option (\<lambda>ch. (length p, ch, out)) (append_cache p ch)
          else unpack_loop crc8 cb (drop (DB_PACK_HEAD_SIZE_TOTAL + len) p) ch
                 (out @ deliver crc8 cb head (take len (drop DB_PACK_HEAD_SIZE_TOTAL p)))
      else
        case fill_to DB_PACK_HEAD_SIZE_TOTAL p ch of
          None \<Rightarrow> None
        | Some (False, p1, ch1) \<Rightarrow> Some (0, ch1, out)
        | Some (True, p1, ch1) \<Rightarrow>
            let head = read_head (cbuf ch1); len = unat (pk_length head) in
            if pk_magic head \<noteq> DB_PACK_HEAD_MAGIC_CODE
            then Some (length p1, ch1\<lparr>ccount := 0\<rparr>, out)
            else
              case fill_to (DB_PACK_HEAD_SIZE_TOTAL + len) p1 ch1 of
                None \<Rightarrow> None
              | Some (False, p2, ch2) \<Rightarrow> Some (0, ch2, out)
              | Some (True, p2, ch2) \<Rightarrow>
                  unpack_loop crc8 cb p2 (ch2\<lparr>ccount := 0\<rparr>)
                    (out @ deliver crc8 cb head (take len (drop DB_PACK_HEAD_SIZE_TOTAL (cbuf ch2)))))"
  by pat_completeness auto

termination
proof (relation "measure (\<lambda>(crc8, cb, p, ch, out). 2 * length p + (if ccount ch = 0 then 0 else 1))",
    goal_cases)
  case (2 crc8 cb p ch out head len)
  then show ?case by (simp add: DB_PACK_HEAD_SIZE_TOTAL_def)
next
  case (3 crc8 cb p ch out r1 b1 r1' p1 ch1 head len r2 b2 r2' p2 ch2)
  then show ?case by (auto dest!: fill_to_length)
qed auto

declare unpack_loop.simps [simp del]

definition db_pack_unpack ::
    "(u8 list \<Rightarrow> u8 \<Rightarrow> u8) \<Rightarrow> bool \<Rightarrow> u8 list option \<Rightarrow> pack_state \<Rightarrow>
      (int \<times> pack_event list \<times> pack_state) option" where
  "db_pack_unpack crc8 cb data st =
     (case s_db_pack_chan st of
        None \<Rightarrow> Some (-1, [], st)
      | Some ch \<Rightarrow>
          (case data of
             None \<Rightarrow> Some (-1, [], st)
           | Some bs \<Rightarrow>
               if bs = [] then Some (-1, [], st)
               else do {
                 (left, ch, out) \<leftarrow> unpack_loop crc8 cb bs ch [];
                 Some (int (length bs) - int left, out, st\<lparr>s_db_pack_chan := Some ch\<rparr>)
               }))"

definition db_pack_get_header_size :: int where
  "db_pack_get_header_size = int DB_PACK_HEAD_SIZE_TOTAL"

section \<open>Headers survive the wire\<close>

lemma join16: "ucast (ucast w :: u8) OR push_bit 8 (ucast (ucast (drop_bit 8 w) :: u8)) = (w :: u16)"
  by (rule bit_eqI) (auto simp: bit_simps)

lemma join32:
  "ucast (ucast w :: u8) OR push_bit 8 (ucast (ucast (drop_bit 8 w) :: u8)) OR
     push_bit 16 (ucast (ucast (drop_bit 16 w) :: u8)) OR
     push_bit 24 (ucast (ucast (drop_bit 24 w) :: u8)) = (w :: u32)" (is "?l = w")
proof (rule bit_word_eqI)
  fix n
  assume "n < LENGTH(32)"
  consider "n < 8" | "8 \<le> n" "n < 16" | "16 \<le> n" "n < 24" | "24 \<le> n" by linarith
  then show "bit ?l n = bit w n"
    using \<open>n < LENGTH(32)\<close> by cases (auto simp: bit_simps)
qed

lemma head_bytes_length [simp]: "length (head_bytes h) = 13 + length (pk_reserved h)"
  by (simp add: head_bytes_def le16_def le32_def)

lemma read_head_bytes:
  assumes "length (pk_reserved h) = 3"
  shows "read_head (head_bytes h @ rest) = h"
proof -
  obtain a b c where "pk_reserved h = [a, b, c]"
    using assms by (auto simp: length_Suc_conv eval_nat_numeral)
  then show ?thesis
    by (cases h) (simp add: head_bytes_def read_head_def le16_def le32_def get16_def get32_def join16 join32)
qed

lemma read_head_append: "16 \<le> length bs \<Longrightarrow> read_head (bs @ rest) = read_head bs"
  by (cases "bs = []") (simp_all add: read_head_def get16_def get32_def nth_append)

lemma read_head_take: "16 \<le> n \<Longrightarrow> 16 \<le> length bs \<Longrightarrow> read_head (take n bs) = read_head bs"
  by (simp add: read_head_def get16_def get32_def)

section \<open>The stream specification\<close>

text \<open>
  \<open>deframe bs\<close>: the payloads of the complete packets at the front of a byte stream, and the
  bytes of the packet not yet complete. \<open>good_stream mx bs\<close>: every header that is complete
  in the stream has the magic code and announces at most \<open>mx\<close> bytes.
\<close>

definition head_len :: "u8 list \<Rightarrow> nat" where
  "head_len bs = unat (pk_length (read_head bs))"

function deframe :: "u8 list \<Rightarrow> u8 list list \<times> u8 list" where
  "deframe bs =
     (if length bs < 16 \<or> length bs < 16 + head_len bs then ([], bs)
      else let (xs, r) = deframe (drop (16 + head_len bs) bs)
           in (take (head_len bs) (drop 16 bs) # xs, r))"
  by pat_completeness auto

termination by (relation "measure length") auto

declare deframe.simps [simp del]

function good_stream :: "nat \<Rightarrow> u8 list \<Rightarrow> bool" where
  "good_stream mx bs =
     (if length bs < 16 then True
      else pk_magic (read_head bs) = DB_PACK_HEAD_MAGIC_CODE \<and> head_len bs \<le> mx \<and>
        (length bs < 16 + head_len bs \<or> good_stream mx (drop (16 + head_len bs) bs)))"
  by pat_completeness auto

termination by (relation "measure (length \<circ> snd)") auto

declare good_stream.simps [simp del]

abbreviation partial_packet :: "u8 list \<Rightarrow> bool" where
  "partial_packet bs \<equiv> length bs < 16 \<or> length bs < 16 + head_len bs"

lemma deframe_partial: "partial_packet bs \<Longrightarrow> deframe bs = ([], bs)"
  by (subst deframe.simps) auto

lemma deframe_complete:
  "\<not> partial_packet bs \<Longrightarrow> deframe bs =
     (take (head_len bs) (drop 16 bs) # fst (deframe (drop (16 + head_len bs) bs)),
      snd (deframe (drop (16 + head_len bs) bs)))"
  by (subst deframe.simps) (simp add: split_beta Let_def)

lemma head_len_append: "16 \<le> length bs \<Longrightarrow> head_len (bs @ rest) = head_len bs"
  by (simp add: head_len_def read_head_append)

lemma deframe_rest_partial: "partial_packet (snd (deframe bs))"
proof (induction bs rule: deframe.induct)
  case (1 bs)
  then show ?case
    by (cases "partial_packet bs") (simp_all add: deframe_partial deframe_complete)
qed

lemma deframe_append:
  "deframe (bs @ cs) =
     (fst (deframe bs) @ fst (deframe (snd (deframe bs) @ cs)), snd (deframe (snd (deframe bs) @ cs)))"
proof (induction bs rule: deframe.induct)
  case (1 bs)
  show ?case
  proof (cases "partial_packet bs")
    case True
    then show ?thesis by (simp add: deframe_partial)
  next
    case False
    then have "\<not> partial_packet (bs @ cs)" and h: "head_len (bs @ cs) = head_len bs"
      by (simp_all add: head_len_append)
    with False 1 show ?thesis
      by (simp add: deframe_complete)
  qed
qed

lemma good_stream_append:
  "good_stream mx (bs @ cs) \<Longrightarrow> good_stream mx bs \<and> good_stream mx (snd (deframe bs) @ cs)"
proof (induction mx bs rule: good_stream.induct)
  case (1 mx bs)
  show ?case
  proof (cases "partial_packet bs")
    case True
    with 1(2) show ?thesis
      by (cases "length bs < 16")
        (auto simp: deframe_partial good_stream.simps [of mx bs] good_stream.simps [of mx "bs @ cs"]
          read_head_append head_len_append)
  next
    case False
    then have h: "head_len (bs @ cs) = head_len bs" "read_head (bs @ cs) = read_head bs"
      by (simp_all add: head_len_append read_head_append)
    from False 1(2) have head: "pk_magic (read_head bs) = DB_PACK_HEAD_MAGIC_CODE" "head_len bs \<le> mx"
      and rest: "good_stream mx (drop (16 + head_len bs) bs @ cs)"
      by (simp_all add: good_stream.simps [of mx "bs @ cs"] h)
    have "good_stream mx (drop (16 + head_len bs) bs) \<and>
        good_stream mx (snd (deframe (drop (16 + head_len bs) bs)) @ cs)"
      using False head rest by (intro 1(1)) auto
    with False head show ?thesis
      by (simp add: deframe_complete good_stream.simps [of mx bs])
  qed
qed

section \<open>Reassembly\<close>

text \<open>The bytes in the cache.\<close>

definition pending :: "db_pack_chan \<Rightarrow> u8 list" where
  "pending ch = take (unat (ccount ch)) (cbuf ch)"

text \<open>A channel whose cache holds part of a packet of at most \<open>mx\<close> bytes.\<close>

definition chan_ok :: "nat \<Rightarrow> db_pack_chan \<Rightarrow> bool" where
  "chan_ok mx ch \<longleftrightarrow> length (cbuf ch) = mx + 16 \<and> mx + 16 < 2 ^ 16 \<and>
     unat (ccount ch) \<le> length (cbuf ch) \<and> partial_packet (pending ch)"

fun payloads :: "pack_event list \<Rightarrow> u8 list list" where
  "payloads [] = []"
| "payloads (Deliver x # es) = x # payloads es"
| "payloads (_ # es) = payloads es"

lemma payloads_append [simp]: "payloads (xs @ ys) = payloads xs @ payloads ys"
  by (induction xs rule: payloads.induct) simp_all

lemma payloads_deliver [simp]: "payloads (deliver crc8 True h x) = [x]"
  by (simp add: deliver_def)

text \<open>Appending to the cache, when it fits.\<close>

lemma append_cache_ok:
  assumes "length (cbuf ch) < 2 ^ 16" and "unat (ccount ch) + length p \<le> length (cbuf ch)"
  shows "\<exists>ch'. append_cache p ch = Some ch' \<and> pending ch' = pending ch @ p \<and>
    unat (ccount ch') = unat (ccount ch) + length p \<and> length (cbuf ch') = length (cbuf ch)"
proof -
  obtain c where c: "mem_write (cbuf ch) (unat (ccount ch)) p = Some c"
    using assms(2) by (simp add: mem_write_def)
  have "unat (ccount ch + of_nat (length p)) = unat (ccount ch) + length p"
    using assms by (simp add: unat_word_ariths unat_of_nat take_bit_nat_eq_self)
  with c mem_write_length [OF c] mem_write_take [OF c] show ?thesis
    by (simp add: append_cache_def pending_def)
qed

lemma pending_length: "unat (ccount ch) \<le> length (cbuf ch) \<Longrightarrow> length (pending ch) = unat (ccount ch)"
  by (simp add: pending_def)

lemma fill_to_ok:
  assumes "length (cbuf ch) < 2 ^ 16" and "unat (ccount ch) \<le> length (cbuf ch)"
    and "target \<le> length (cbuf ch)" and "unat (ccount ch) \<le> target"
  shows "\<exists>p' ch'. fill_to target p ch = Some (target \<le> unat (ccount ch) + length p, p', ch') \<and>
    length (cbuf ch') = length (cbuf ch) \<and> unat (ccount ch') \<le> length (cbuf ch') \<and>
    pending ch' = take target (pending ch @ p) \<and> p' = drop (target - unat (ccount ch)) p"
proof (cases "unat (ccount ch) = target")
  case True
  with pending_length [OF assms(2)] assms(2) show ?thesis by (simp add: fill_to_def)
next
  case below: False
  show ?thesis
  proof (cases "unat (ccount ch) + length p < target")
    case True
    then obtain ch' where "append_cache p ch = Some ch'" "pending ch' = pending ch @ p"
      "unat (ccount ch') = unat (ccount ch) + length p" "length (cbuf ch') = length (cbuf ch)"
      using append_cache_ok [of ch p] assms by auto
    moreover have "length p < target - unat (ccount ch)" using True by simp
    ultimately show ?thesis
      using True below assms pending_length [OF assms(2)] by (simp add: fill_to_def Let_def)
  next
    case False
    let ?q = "take (target - unat (ccount ch)) p"
    have "length ?q = target - unat (ccount ch)" using False by simp
    then obtain ch' where "append_cache ?q ch = Some ch'" "pending ch' = pending ch @ ?q"
      "unat (ccount ch') = target" "length (cbuf ch') = length (cbuf ch)"
      using append_cache_ok [of ch ?q] assms below by auto
    moreover have "\<not> length p < target - unat (ccount ch)" using False by simp
    ultimately show ?thesis
      using False below assms pending_length [OF assms(2)] by (simp add: fill_to_def Let_def)
  qed
qed

lemma read_cache:
  "16 \<le> unat (ccount ch) \<Longrightarrow> unat (ccount ch) \<le> length (cbuf ch) \<Longrightarrow>
     read_head (cbuf ch) = read_head (pending ch)"
  by (simp add: pending_def read_head_take)

lemma fill_to_true:
  assumes "fill_to target p ch = Some (True, p', ch')" and "length (cbuf ch) < 2 ^ 16"
    and "unat (ccount ch) \<le> length (cbuf ch)" and "target \<le> length (cbuf ch)" and "unat (ccount ch) \<le> target"
  shows "pending ch' = take target (pending ch @ p)" "p' = drop target (pending ch @ p)"
    "length (cbuf ch') = length (cbuf ch)" "unat (ccount ch') = target"
proof -
  obtain p1 ch1 where f: "fill_to target p ch = Some (target \<le> unat (ccount ch) + length p, p1, ch1)"
    and f': "length (cbuf ch1) = length (cbuf ch)" "unat (ccount ch1) \<le> length (cbuf ch1)"
      "pending ch1 = take target (pending ch @ p)" "p1 = drop (target - unat (ccount ch)) p"
    using fill_to_ok [OF assms(2-5)] by blast
  with assms(1) have "p1 = p'" "ch1 = ch'" and long: "target \<le> unat (ccount ch) + length p" by auto
  with f' show "pending ch' = take target (pending ch @ p)" "length (cbuf ch') = length (cbuf ch)"
    "p' = drop target (pending ch @ p)"
    using pending_length [OF assms(3)] assms(5) by simp_all
  have "length (pending ch') = target"
    using f'(3) long pending_length [OF assms(3)] \<open>ch1 = ch'\<close> by simp
  with pending_length [of ch'] f'(2) \<open>ch1 = ch'\<close> show "unat (ccount ch') = target" by simp
qed

lemma pending_zero [simp]: "ccount ch = 0 \<Longrightarrow> pending ch = []"
  by (simp add: pending_def)

lemma good_headD:
  "good_stream mx bs \<Longrightarrow> 16 \<le> length bs \<Longrightarrow>
     pk_magic (read_head bs) = DB_PACK_HEAD_MAGIC_CODE \<and> head_len bs \<le> mx"
  "good_stream mx bs \<Longrightarrow> \<not> partial_packet bs \<Longrightarrow> good_stream mx (drop (16 + head_len bs) bs)"
  by (simp_all add: good_stream.simps [of mx bs])

text \<open>The header in the cache, once sixteen bytes of the packet are there.\<close>

lemma fill_head:
  assumes ok: "chan_ok mx ch" and "\<not> length (pending ch @ p) < 16"
  shows "\<exists>p1 ch1. fill_to 16 p ch = Some (True, p1, ch1) \<and> pending ch1 @ p1 = pending ch @ p \<and>
    16 \<le> unat (ccount ch1) \<and> unat (ccount ch1) \<le> 16 + head_len (pending ch @ p) \<and>
    unat (ccount ch1) \<le> length (cbuf ch1) \<and> length (cbuf ch1) = mx + 16 \<and> length p1 \<le> length p"
proof -
  have cb: "length (cbuf ch) < 2 ^ 16" "unat (ccount ch) \<le> length (cbuf ch)" "length (cbuf ch) = mx + 16"
    using ok by (auto simp: chan_ok_def)
  note len = pending_length [OF cb(2)]
  show ?thesis
  proof (cases "unat (ccount ch) \<le> 16")
    case True
    obtain p1 ch1 where f: "fill_to 16 p ch = Some (True, p1, ch1)"
      using fill_to_ok [OF cb(1,2) _ True, of p] assms(2) cb(3) len by auto
    from fill_to_true [OF f cb(1,2) _ True] cb(3) f fill_to_length [OF f] show ?thesis
      by simp
  next
    case False
    then have "fill_to 16 p ch = Some (True, p, ch)" by (simp add: fill_to_def)
    moreover have "unat (ccount ch) < 16 + head_len (pending ch)"
      using ok False len by (auto simp: chan_ok_def)
    ultimately show ?thesis
      using False cb len by (simp add: head_len_append)
  qed
qed

text \<open>
  What a run of the loop owes: the payloads of the complete packets in the cache and the input,
  and the bytes of the packet that is not complete kept in the cache.
\<close>

definition unpacked ::
    "nat \<Rightarrow> (u8 list \<Rightarrow> u8 \<Rightarrow> u8) \<Rightarrow> u8 list \<Rightarrow> db_pack_chan \<Rightarrow> pack_event list \<Rightarrow> bool" where
  "unpacked mx crc8 p ch out \<longleftrightarrow>
     (\<exists>left ch' es. unpack_loop crc8 True p ch out = Some (left, ch', out @ es) \<and>
        payloads es = fst (deframe (pending ch @ p)) \<and> pending ch' = snd (deframe (pending ch @ p)) \<and>
        chan_ok mx ch')"

lemma unpacked_partial:
  assumes "unpack_loop crc8 True p ch out = Some (left, ch', out)" and "chan_ok mx ch'"
    and "pending ch' = pending ch @ p" and "partial_packet (pending ch @ p)"
  shows "unpacked mx crc8 p ch out"
  unfolding unpacked_def using assms
  by (intro exI [of _ left] exI [of _ ch'] exI [of _ "[]"]) (auto simp: deframe_partial)

lemma unpacked_complete:
  assumes "\<not> partial_packet (pending ch @ p)"
    and "unpack_loop crc8 True p ch out = unpack_loop crc8 True
      (drop (16 + head_len (pending ch @ p)) (pending ch @ p)) ch1 (out @ deliver crc8 True h payload)"
    and "payload = take (head_len (pending ch @ p)) (drop 16 (pending ch @ p))"
    and "unpacked mx crc8 (drop (16 + head_len (pending ch @ p)) (pending ch @ p)) ch1
      (out @ deliver crc8 True h payload)"
    and "pending ch1 = []"
  shows "unpacked mx crc8 p ch out"
proof -
  from assms(4,5) obtain left ch' es where
    "unpack_loop crc8 True (drop (16 + head_len (pending ch @ p)) (pending ch @ p)) ch1
      (out @ deliver crc8 True h payload) = Some (left, ch', (out @ deliver crc8 True h payload) @ es)"
    "payloads es = fst (deframe (drop (16 + head_len (pending ch @ p)) (pending ch @ p)))"
    "pending ch' = snd (deframe (drop (16 + head_len (pending ch @ p)) (pending ch @ p)))"
    "chan_ok mx ch'"
    by (auto simp: unpacked_def)
  then show ?thesis
    using assms(1) unfolding unpacked_def assms(2)
    by (intro exI [of _ left] exI [of _ ch'] exI [of _ "deliver crc8 True h payload @ es"])
      (simp add: deframe_complete assms(3))
qed

text \<open>With an empty cache the input is read where it is.\<close>

lemma unpack_uncached_partial:
  assumes ok: "chan_ok mx ch" and good: "good_stream mx p" and empty: "ccount ch = 0"
    and "p \<noteq> []" and partial: "partial_packet p"
  shows "unpacked mx crc8 p ch out"
proof -
  have cb: "length (cbuf ch) < 2 ^ 16" "length (cbuf ch) = mx + 16" and mx: "mx + 16 < 2 ^ 16"
    using ok by (auto simp: chan_ok_def)
  have short: "length p \<le> mx + 16"
    using partial good_headD(1) [OF good] by (cases "length p < 16") auto
  then obtain ch' where c: "append_cache p ch = Some ch'" "pending ch' = p"
    "unat (ccount ch') = length p" "length (cbuf ch') = mx + 16"
    using append_cache_ok [of ch p] cb empty by auto
  have "unpack_loop crc8 True p ch out = Some (length p, ch', out)"
    using partial assms(4) empty c(1) good_headD(1) [OF good]
    by (auto simp: unpack_loop.simps [of crc8 True p ch out] DB_PACK_HEAD_SIZE_TOTAL_def head_len_def Let_def)
  moreover have "chan_ok mx ch'" using c partial mx short by (auto simp: chan_ok_def)
  ultimately show ?thesis
    by (rule unpacked_partial) (use c(2) empty partial in simp_all)
qed

lemma unpack_uncached_complete:
  assumes "good_stream mx p" and "ccount ch = 0" and "\<not> partial_packet p"
  shows "unpack_loop crc8 True p ch out = unpack_loop crc8 True (drop (16 + head_len p) p) ch
    (out @ deliver crc8 True (read_head p) (take (head_len p) (drop 16 p)))"
  using assms good_headD(1) [OF assms(1)]
  by (auto simp: unpack_loop.simps [of crc8 True p ch out] DB_PACK_HEAD_SIZE_TOTAL_def head_len_def Let_def)

text \<open>With bytes in the cache the packet is completed there: first its header, then its payload.\<close>

lemma unpack_cached_headless:
  assumes ok: "chan_ok mx ch" and "ccount ch \<noteq> 0" and "p \<noteq> []" and short: "length (pending ch @ p) < 16"
  shows "unpacked mx crc8 p ch out"
proof -
  have cb: "length (cbuf ch) < 2 ^ 16" "unat (ccount ch) \<le> length (cbuf ch)" "length (cbuf ch) = mx + 16"
    and mx: "mx + 16 < 2 ^ 16"
    using ok by (auto simp: chan_ok_def)
  note len = pending_length [OF cb(2)]
  have "unat (ccount ch) \<le> 16" using short len by simp
  then obtain p1 ch1 where f: "fill_to 16 p ch = Some (False, p1, ch1)"
    "length (cbuf ch1) = mx + 16" "unat (ccount ch1) \<le> length (cbuf ch1)" "pending ch1 = pending ch @ p"
    using fill_to_ok [OF cb(1,2), of 16 p] short len cb(3) by auto
  have "unpack_loop crc8 True p ch out = Some (0, ch1, out)"
    using assms(2,3) f(1) by (simp add: unpack_loop.simps [of crc8 True p ch out] DB_PACK_HEAD_SIZE_TOTAL_def)
  moreover have "chan_ok mx ch1" using f short mx by (simp add: chan_ok_def)
  ultimately show ?thesis
    by (rule unpacked_partial) (use f(4) short in simp_all)
qed

text \<open>The two fills, and the loop in terms of the second.\<close>

lemma unpack_cached_head:
  assumes ok: "chan_ok mx ch" and good: "good_stream mx (pending ch @ p)" and "ccount ch \<noteq> 0" and "p \<noteq> []"
    and head: "\<not> length (pending ch @ p) < 16" and bs: "bs = pending ch @ p"
  obtains p2 ch2 where "length (cbuf ch2) = mx + 16" and "unat (ccount ch2) \<le> length (cbuf ch2)"
    and "pending ch2 = take (16 + head_len bs) bs" and "length p2 \<le> length p"
    and "16 + head_len bs \<le> length bs \<Longrightarrow> p2 = drop (16 + head_len bs) bs"
    and "unpack_loop crc8 True p ch out =
      (if 16 + head_len bs \<le> length bs
       then unpack_loop crc8 True p2 (ch2\<lparr>ccount := 0\<rparr>) (out @ deliver crc8 True (read_head bs)
         (take (head_len bs) (drop 16 (cbuf ch2))))
       else Some (0, ch2, out))"
proof -
  obtain p1 ch1 where f: "fill_to 16 p ch = Some (True, p1, ch1)" and split: "pending ch1 @ p1 = bs"
    and cc: "16 \<le> unat (ccount ch1)" "unat (ccount ch1) \<le> 16 + head_len bs"
      "unat (ccount ch1) \<le> length (cbuf ch1)" "length (cbuf ch1) = mx + 16" "length p1 \<le> length p"
    using fill_head [OF ok head] bs by blast
  have hd: "read_head (cbuf ch1) = read_head bs"
    using read_cache [OF cc(1,3)] read_head_append [of "pending ch1" p1] cc pending_length [OF cc(3)]
    by (simp add: split)
  have magic: "pk_magic (read_head bs) = DB_PACK_HEAD_MAGIC_CODE" and small: "head_len bs \<le> mx"
    using good_headD(1) [OF good] head bs by auto
  have cb1: "length (cbuf ch1) < 2 ^ 16" "16 + head_len bs \<le> length (cbuf ch1)"
    using cc(4) ok small by (simp_all add: chan_ok_def)
  have total: "unat (ccount ch1) + length p1 = length bs"
    using arg_cong [OF split, of length] pending_length [OF cc(3)] by simp
  obtain p2 ch2 where f2: "fill_to (16 + head_len bs) p1 ch1 = Some (16 + head_len bs \<le> length bs, p2, ch2)"
    and f2': "length (cbuf ch2) = mx + 16" "unat (ccount ch2) \<le> length (cbuf ch2)"
      "pending ch2 = take (16 + head_len bs) bs"
    using fill_to_ok [OF cb1(1) cc(3) cb1(2) cc(2), of p1] unfolding total split cc(4) by blast
  have "p2 = drop (16 + head_len bs) bs" if "16 + head_len bs \<le> length bs"
    using fill_to_true(2) [of "16 + head_len bs" p1 ch1 p2 ch2] f2 that cb1 cc(2,3) split by simp
  moreover have "length p2 \<le> length p" using fill_to_length [OF f2] cc(5) by simp
  moreover have "unpack_loop crc8 True p ch out =
      (if 16 + head_len bs \<le> length bs
       then unpack_loop crc8 True p2 (ch2\<lparr>ccount := 0\<rparr>) (out @ deliver crc8 True (read_head bs)
         (take (head_len bs) (drop 16 (cbuf ch2))))
       else Some (0, ch2, out))"
    using assms(3,4) f2 by (simp add: unpack_loop.simps [of crc8 True p ch out] DB_PACK_HEAD_SIZE_TOTAL_def
        f hd magic Let_def head_len_def)
  ultimately show thesis using that f2' by blast
qed

lemma unpack_cached_partial:
  assumes ok: "chan_ok mx ch" and "good_stream mx (pending ch @ p)" and "ccount ch \<noteq> 0" and "p \<noteq> []"
    and head: "\<not> length (pending ch @ p) < 16" and partial: "partial_packet (pending ch @ p)"
  shows "unpacked mx crc8 p ch out"
proof (rule unpack_cached_head [OF assms(1-5) refl, of crc8 out])
  fix p2 ch2
  assume ch2: "length (cbuf ch2) = mx + 16" "unat (ccount ch2) \<le> length (cbuf ch2)"
    "pending ch2 = take (16 + head_len (pending ch @ p)) (pending ch @ p)"
    and loop: "unpack_loop crc8 True p ch out =
      (if 16 + head_len (pending ch @ p) \<le> length (pending ch @ p)
       then unpack_loop crc8 True p2 (ch2\<lparr>ccount := 0\<rparr>) (out @ deliver crc8 True (read_head (pending ch @ p))
         (take (head_len (pending ch @ p)) (drop 16 (cbuf ch2))))
       else Some (0, ch2, out))"
  have short: "\<not> 16 + head_len (pending ch @ p) \<le> length (pending ch @ p)"
    using partial head by auto
  with ch2(3) have bytes: "pending ch2 = pending ch @ p" by simp
  have "chan_ok mx ch2"
    using ch2(1,2) ok partial by (simp add: chan_ok_def bytes)
  with loop [unfolded if_not_P [OF short]] show ?thesis
    by (rule unpacked_partial) (use bytes partial in simp_all)
qed

lemma unpack_cached_complete:
  assumes ok: "chan_ok mx ch" and "good_stream mx (pending ch @ p)" and "ccount ch \<noteq> 0" and "p \<noteq> []"
    and head: "\<not> length (pending ch @ p) < 16" and complete: "\<not> partial_packet (pending ch @ p)"
    and bs: "bs = pending ch @ p"
  obtains ch1 where "chan_ok mx ch1" and "ccount ch1 = 0" and "length (drop (16 + head_len bs) bs) \<le> length p"
    and "unpack_loop crc8 True p ch out = unpack_loop crc8 True (drop (16 + head_len bs) bs) ch1
      (out @ deliver crc8 True (read_head bs) (take (head_len bs) (drop 16 bs)))"
proof (rule unpack_cached_head [OF assms(1-5) bs, of crc8 out])
  fix p2 ch2
  assume ch2: "length (cbuf ch2) = mx + 16" "unat (ccount ch2) \<le> length (cbuf ch2)"
    "pending ch2 = take (16 + head_len bs) bs"
    and p2: "length p2 \<le> length p" "16 + head_len bs \<le> length bs \<Longrightarrow> p2 = drop (16 + head_len bs) bs"
    and loop: "unpack_loop crc8 True p ch out =
      (if 16 + head_len bs \<le> length bs
       then unpack_loop crc8 True p2 (ch2\<lparr>ccount := 0\<rparr>) (out @ deliver crc8 True (read_head bs)
         (take (head_len bs) (drop 16 (cbuf ch2))))
       else Some (0, ch2, out))"
  have long: "16 + head_len bs \<le> length bs" using complete bs by auto
  then have "unat (ccount ch2) = 16 + head_len bs"
    using arg_cong [OF ch2(3), of length] pending_length [OF ch2(2)] by simp
  then have "take (head_len bs) (drop 16 (cbuf ch2)) = take (head_len bs) (drop 16 (pending ch2))"
    by (simp add: pending_def drop_take)
  also have "\<dots> = take (head_len bs) (drop 16 bs)"
    by (simp only: ch2(3) drop_take diff_add_inverse take_take min.idem)
  finally have "unpack_loop crc8 True p ch out = unpack_loop crc8 True (drop (16 + head_len bs) bs)
      (ch2\<lparr>ccount := 0\<rparr>) (out @ deliver crc8 True (read_head bs) (take (head_len bs) (drop 16 bs)))"
    using loop p2(2) [OF long] long by simp
  moreover have "chan_ok mx (ch2\<lparr>ccount := 0\<rparr>)" using ch2 ok by (simp add: chan_ok_def)
  ultimately show thesis
    using that [of "ch2\<lparr>ccount := 0\<rparr>"] p2 long by simp
qed

lemma unpack_loop_ok:
  assumes "chan_ok mx ch" and "good_stream mx (pending ch @ p)"
  shows "unpacked mx crc8 p ch out"
  using assms
proof (induction "2 * length p + (if ccount ch = 0 then 0 else 1 :: nat)" arbitrary: p ch out
    rule: less_induct)
  case (less p ch out)
  note ok = less.prems(1) and good = less.prems(2)
  let ?bs = "pending ch @ p"
  consider (nil) "p = []" | (empty) "p \<noteq> []" "ccount ch = 0" "partial_packet ?bs"
    | (packet) "p \<noteq> []" "ccount ch = 0" "\<not> partial_packet ?bs"
    | (headless) "p \<noteq> []" "ccount ch \<noteq> 0" "length ?bs < 16"
    | (kept) "p \<noteq> []" "ccount ch \<noteq> 0" "\<not> length ?bs < 16" "partial_packet ?bs"
    | (cached) "p \<noteq> []" "ccount ch \<noteq> 0" "\<not> length ?bs < 16" "\<not> partial_packet ?bs"
    by blast
  then show ?case
  proof cases
    case nil
    then have "unpack_loop crc8 True p ch out = Some (0, ch, out)"
      by (simp add: unpack_loop.simps [of crc8 True "[]" ch out])
    with nil ok show ?thesis
      by (intro unpacked_partial) (simp_all add: chan_ok_def)
  next
    case empty
    with good show ?thesis by (intro unpack_uncached_partial [OF ok]) simp_all
  next
    case packet
    then have p: "\<not> partial_packet p" "pending ch = []" "good_stream mx p" using good by simp_all
    from less.hyps [of "drop (16 + head_len p) p" ch] ok packet(2) good_headD(2) [OF p(3,1)] p(1,2)
    have "unpacked mx crc8 (drop (16 + head_len p) p) ch
        (out @ deliver crc8 True (read_head p) (take (head_len p) (drop 16 p)))"
      by fastforce
    then show ?thesis
      using unpack_uncached_complete [OF p(3) packet(2) p(1), of crc8 out] p(1,2)
      by (intro unpacked_complete [of ch p crc8 out ch "read_head p"]) simp_all
  next
    case headless
    then show ?thesis by (intro unpack_cached_headless [OF ok])
  next
    case kept
    then show ?thesis by (intro unpack_cached_partial [OF ok good])
  next
    case cached
    obtain ch1 where ch1: "chan_ok mx ch1" "ccount ch1 = 0" "length (drop (16 + head_len ?bs) ?bs) \<le> length p"
      and loop: "unpack_loop crc8 True p ch out = unpack_loop crc8 True (drop (16 + head_len ?bs) ?bs) ch1
        (out @ deliver crc8 True (read_head ?bs) (take (head_len ?bs) (drop 16 ?bs)))"
      by (rule unpack_cached_complete [OF ok good cached(2,1,3,4) refl, of crc8 out])
    have "unpacked mx crc8 (drop (16 + head_len ?bs) ?bs) ch1
        (out @ deliver crc8 True (read_head ?bs) (take (head_len ?bs) (drop 16 ?bs)))"
      by (rule less.hyps) (use ch1 cached(2) good_headD(2) [OF good cached(4)] in simp_all)
    then show ?thesis
      by (rule unpacked_complete [OF cached(4) loop refl]) (use ch1(2) in simp)
  qed
qed

section \<open>Properties\<close>

text \<open>Feeding chunks one call of \<open>db_pack_unpack\<close> at a time, and all the payloads delivered.\<close>

fun feed ::
    "(u8 list \<Rightarrow> u8 \<Rightarrow> u8) \<Rightarrow> u8 list list \<Rightarrow> pack_state \<Rightarrow> (u8 list list \<times> pack_state) option" where
  "feed crc8 [] st = Some ([], st)"
| "feed crc8 (c # cs) st = do {
     (_, es, st) \<leftarrow> db_pack_unpack crc8 True (Some c) st;
     (xs, st) \<leftarrow> feed crc8 cs st;
     Some (payloads es @ xs, st)
   }"

lemma feed_ok:
  assumes "s_db_pack_chan st = Some ch" and "chan_ok mx ch" and "good_stream mx (pending ch @ concat cs)"
    and "[] \<notin> set cs"
  shows "\<exists>st' ch'. feed crc8 cs st = Some (fst (deframe (pending ch @ concat cs)), st') \<and>
    s_db_pack_chan st' = Some ch' \<and> chan_ok mx ch' \<and> pending ch' = snd (deframe (pending ch @ concat cs))"
  using assms
proof (induction cs arbitrary: st ch)
  case Nil
  then show ?case by (auto simp: chan_ok_def deframe_partial)
next
  case (Cons c cs)
  have good: "good_stream mx (pending ch @ c)"
    and rest: "good_stream mx (snd (deframe (pending ch @ c)) @ concat cs)"
    using good_stream_append [of mx "pending ch @ c" "concat cs"] Cons.prems(3) by simp_all
  obtain left ch1 es where 1: "unpack_loop crc8 True c ch [] = Some (left, ch1, es)"
    "payloads es = fst (deframe (pending ch @ c))" "pending ch1 = snd (deframe (pending ch @ c))"
    "chan_ok mx ch1"
    using unpack_loop_ok [OF Cons.prems(2) good, of crc8 "[]"] by (auto simp: unpacked_def)
  let ?st = "st\<lparr>s_db_pack_chan := Some ch1\<rparr>"
  from Cons.IH [of ?st ch1] 1 rest Cons.prems(4) obtain st' ch' where
    "feed crc8 cs ?st = Some (fst (deframe (pending ch1 @ concat cs)), st')"
    "s_db_pack_chan st' = Some ch'" "chan_ok mx ch'" "pending ch' = snd (deframe (pending ch1 @ concat cs))"
    by auto
  with 1 Cons.prems(1,4) show ?case
    using deframe_append [of "pending ch @ c" "concat cs"]
    by (auto simp: db_pack_unpack_def)
qed

text \<open>A packet as it is on the wire.\<close>

definition packet :: "(u8 list \<Rightarrow> u8 \<Rightarrow> u8) \<Rightarrow> u64 \<Rightarrow> u16 \<Rightarrow> u8 list \<Rightarrow> u8 list" where
  "packet crc8 ms seq data = head_bytes (the_head crc8 ms seq data) @ data"

lemma packet_head:
  assumes "length data < 2 ^ 16"
  shows "read_head (packet crc8 ms seq data @ rest) = the_head crc8 ms seq data"
    and "head_len (packet crc8 ms seq data @ rest) = length data"
    and "length (packet crc8 ms seq data) = 16 + length data"
proof -
  show 1: "read_head (packet crc8 ms seq data @ rest) = the_head crc8 ms seq data"
    unfolding packet_def append_assoc by (rule read_head_bytes) (simp add: the_head_def)
  from assms show "head_len (packet crc8 ms seq data @ rest) = length data"
    by (simp add: head_len_def 1) (simp add: the_head_def unat_of_nat take_bit_nat_eq_self)
  show "length (packet crc8 ms seq data) = 16 + length data"
    by (simp add: packet_def the_head_def)
qed

lemma deframe_packet:
  assumes "length data < 2 ^ 16"
  shows "deframe (packet crc8 ms seq data @ rest) = (data # fst (deframe rest), snd (deframe rest))"
proof -
  note h = packet_head [OF assms, of crc8 ms seq]
  have "\<not> partial_packet (packet crc8 ms seq data @ rest)"
    by (simp add: h)
  moreover have "take (length data) (drop 16 (packet crc8 ms seq data @ rest)) = data"
    by (simp add: packet_def the_head_def)
  ultimately show ?thesis
    by (simp add: deframe_complete h)
qed

lemma good_packet:
  assumes "length data < 2 ^ 16" and "length data \<le> mx" and "good_stream mx rest"
  shows "good_stream mx (packet crc8 ms seq data @ rest)"
proof -
  note h = packet_head [OF assms(1), of crc8 ms seq]
  show ?thesis
    using assms(2,3)
    by (subst good_stream.simps) (simp add: h, simp add: the_head_def)
qed

lemma deframe_packets:
  "\<forall>(ms, seq, data) \<in> set ps. length data \<le> mx \<Longrightarrow> mx < 2 ^ 16 \<Longrightarrow>
     deframe (concat (map (\<lambda>(ms, seq, data). packet crc8 ms seq data) ps)) =
       (map (\<lambda>(ms, seq, data). data) ps, []) \<and>
     good_stream mx (concat (map (\<lambda>(ms, seq, data). packet crc8 ms seq data) ps))"
proof (induction ps)
  case Nil
  then show ?case by (simp add: deframe_partial good_stream.simps)
next
  case (Cons p ps)
  then show ?case
    by (cases p) (auto simp: deframe_packet intro!: good_packet)
qed

lemma init_chan:
  assumes "db_pack_init al mx tx \<lparr>s_db_pack_chan = None, pk_mem = []\<rparr> = (BK_OK, st)"
  shows "\<exists>ch. s_db_pack_chan st = Some ch \<and> pending ch = [] \<and> length (cbuf ch) = unat mx + 16 \<and>
    ccount ch = 0 \<and> length (tbuf ch) = unat tx + 16 \<and> tsize ch = tx"
  using assms
  by (auto simp: db_pack_init_def Let_def mem_log_def DB_PACK_HEAD_SIZE_TOTAL_def split: if_splits)

text \<open>
  C2. Reassembly: after \<open>db_pack_init\<close>, when the peer sends packets with payloads of at most
  \<open>max_rx_size\<close> bytes, the callback gets exactly those payloads in order, however the link
  cuts the byte stream into pieces (and never writes outside the cache buffer). The bound on
  \<open>max_rx_size\<close> keeps the 16-bit counter of cached bytes from wrapping.
\<close>
theorem stream_reassembled:
  assumes "db_pack_init al mx tx \<lparr>s_db_pack_chan = None, pk_mem = []\<rparr> = (BK_OK, st)"
    and "unat mx + 16 < 2 ^ 16"
    and "\<forall>(ms, seq, data) \<in> set ps. length data \<le> unat mx"
    and "concat chunks = concat (map (\<lambda>(ms, seq, data). packet crc8 ms seq data) ps)"
    and "[] \<notin> set chunks"
  shows "\<exists>st'. feed crc8 chunks st = Some (map (\<lambda>(ms, seq, data). data) ps, st')"
proof -
  obtain ch where ch: "s_db_pack_chan st = Some ch" "pending ch = []" "length (cbuf ch) = unat mx + 16"
    "ccount ch = 0"
    using init_chan [OF assms(1)] by blast
  then have "chan_ok (unat mx) ch"
    using assms(2) by (simp add: chan_ok_def)
  from feed_ok [OF ch(1) this, of chunks crc8] deframe_packets [OF assms(3), of crc8] assms(2,4,5) ch(2)
  show ?thesis by auto
qed

lemma take_drop_append: "take n xs @ drop n xs @ ys = xs @ ys"
  by (simp flip: append_assoc)

theorem stream_reassembled_witness:
  "\<exists>st st'. db_pack_init \<lparr>al_chan = True, al_cbuf = True, al_tbuf = True, al_fill = (\<lambda>_. 0)\<rparr> 4 4
       \<lparr>s_db_pack_chan = None, pk_mem = []\<rparr> = (BK_OK, st) \<and>
     feed (\<lambda>bs init. 0)
       [take 5 (packet (\<lambda>bs init. 0) 1 1 [7, 8]),
        drop 5 (packet (\<lambda>bs init. 0) 1 1 [7, 8]) @ take 17 (packet (\<lambda>bs init. 0) 2 2 [1, 2, 3]),
        drop 17 (packet (\<lambda>bs init. 0) 2 2 [1, 2, 3])] st = Some ([[7, 8], [1, 2, 3]], st')"
proof -
  let ?al = "\<lparr>al_chan = True, al_cbuf = True, al_tbuf = True, al_fill = (\<lambda>_. 0 :: u8)\<rparr>"
  let ?a = "packet (\<lambda>bs init. 0) 1 1 [7, 8]" and ?b = "packet (\<lambda>bs init. 0) 2 2 [1, 2, 3]"
  let ?cs = "[take 5 ?a, drop 5 ?a @ take 17 ?b, drop 17 ?b]"
  obtain st where init: "db_pack_init ?al 4 4 \<lparr>s_db_pack_chan = None, pk_mem = []\<rparr> = (BK_OK, st)"
    by (simp add: db_pack_init_def Let_def)
  have len: "length ?a = 18" "length ?b = 19"
    using packet_head(3) [of "[7, 8]"] packet_head(3) [of "[1, 2, 3]"] by simp_all
  then have "[] \<notin> set ?cs" by auto
  moreover have "concat ?cs = concat (map (\<lambda>(ms, seq, data). packet (\<lambda>bs init. 0) ms seq data)
      [(1, 1, [7, 8]), (2, 2, [1, 2, 3])])"
    by (simp add: take_drop_append)
  ultimately show ?thesis
    using init stream_reassembled [of ?al 4 4 st "[(1, 1, [7, 8]), (2, 2, [1, 2, 3])]" ?cs "\<lambda>bs init. 0"]
    by auto
qed


text \<open>Packing a list of payloads, one call of \<open>db_pack_pack\<close> each: what goes on the wire.\<close>

fun send ::
    "(u8 list \<Rightarrow> u8 \<Rightarrow> u8) \<Rightarrow> (u64 \<times> u8 list) list \<Rightarrow> pack_state \<Rightarrow> (u8 list list \<times> pack_state) option" where
  "send crc8 [] st = Some ([], st)"
| "send crc8 ((ms, d) # ds) st = do {
     ((r, w), st) \<leftarrow> db_pack_pack crc8 ms (Some d) True st;
     w \<leftarrow> w;
     (ws, st) \<leftarrow> send crc8 ds st;
     Some (w # ws, st)
   }"

definition tx_ok :: "db_pack_chan \<Rightarrow> bool" where
  "tx_ok ch \<longleftrightarrow> length (tbuf ch) = unat (tsize ch) + 16"

lemma db_pack_pack_ok:
  assumes "s_db_pack_chan st = Some ch" and "tx_ok ch" and "length d \<le> unat (tsize ch)"
  shows "\<exists>t. db_pack_pack crc8 ms (Some d) True st =
     Some ((int (16 + length d), Some (packet crc8 ms (tx_sequence ch + 1) d)),
       st\<lparr>s_db_pack_chan := Some (ch\<lparr>tx_sequence := tx_sequence ch + 1, tbuf := t\<rparr>)\<rparr>) \<and>
     tx_ok (ch\<lparr>tx_sequence := tx_sequence ch + 1, tbuf := t\<rparr>)"
  using assms
  by (auto simp: db_pack_pack_def Let_def mem_write_def tx_ok_def packet_def the_head_def
      DB_PACK_HEAD_SIZE_TOTAL_def)

lemma send_ok:
  assumes "s_db_pack_chan st = Some ch" and "tx_ok ch"
    and "\<forall>(ms, d) \<in> set ds. length d \<le> unat (tsize ch)"
  shows "\<exists>st'. send crc8 ds st =
    Some (map (\<lambda>(i, ms, d). packet crc8 ms (tx_sequence ch + of_nat i) d) (enumerate 1 ds), st')"
proof -
  have "\<exists>st'. send crc8 ds st =
      Some (map (\<lambda>(i, ms, d). packet crc8 ms (q + of_nat i) d) (enumerate n ds), st')"
    if "tx_sequence ch + 1 = q + of_nat n" for q n
    using assms that
  proof (induction ds arbitrary: st ch n)
    case Nil
    then show ?case by simp
  next
    case (Cons p ds)
    obtain ms d where p: "p = (ms, d)" by fastforce
    obtain t where 1: "db_pack_pack crc8 ms (Some d) True st =
       Some ((int (16 + length d), Some (packet crc8 ms (tx_sequence ch + 1) d)),
         st\<lparr>s_db_pack_chan := Some (ch\<lparr>tx_sequence := tx_sequence ch + 1, tbuf := t\<rparr>)\<rparr>)"
      and ok: "tx_ok (ch\<lparr>tx_sequence := tx_sequence ch + 1, tbuf := t\<rparr>)"
      using db_pack_pack_ok [OF Cons.prems(1,2), of d crc8 ms] Cons.prems(3) p by auto
    have next_seq: "tx_sequence ch + 1 + 1 = q + of_nat (Suc n)"
      by (simp add: Cons.prems(4))
    from Cons.IH [OF _ ok, of "st\<lparr>s_db_pack_chan := Some (ch\<lparr>tx_sequence := tx_sequence ch + 1, tbuf := t\<rparr>)\<rparr>" "Suc n"]
      Cons.prems(3) next_seq
    show ?case
      by (auto simp: p 1 Cons.prems(4))
  qed
  from this [of "tx_sequence ch" 1] show ?thesis by simp
qed

lemma enumerate_mem: "(i, x) \<in> set (enumerate n xs) \<Longrightarrow> x \<in> set xs"
  by (auto simp: enumerate_eq_zip dest: set_zip_rightD)

lemma enumerate_snd: "map (\<lambda>(i, x). f x) (enumerate n xs) = map f xs"
  by (induction xs arbitrary: n) simp_all

text \<open>
  C15. Round trip over the link: what one side packs with \<open>db_pack_pack\<close>, call after call, the
  other side's \<open>db_pack_unpack\<close> hands to its callback, payload for payload and in order,
  however the link cuts the bytes into pieces, when the payloads fit both the sender's
  \<open>max_tx_size\<close> and the receiver's \<open>max_rx_size\<close>. No CRC function can break it, and no call
  on either side fails.
\<close>
theorem link_roundtrip:
  assumes "db_pack_init al mx tx \<lparr>s_db_pack_chan = None, pk_mem = []\<rparr> = (BK_OK, rcv)"
    and "db_pack_init al' mx' tx' \<lparr>s_db_pack_chan = None, pk_mem = []\<rparr> = (BK_OK, sdr)"
    and "unat mx + 16 < 2 ^ 16"
    and "\<forall>(ms, d) \<in> set ds. length d \<le> unat mx \<and> length d \<le> unat tx'"
  shows "\<exists>wire sdr'. send crc8 ds sdr = Some (wire, sdr') \<and>
    (\<forall>chunks. concat chunks = concat wire \<and> [] \<notin> set chunks \<longrightarrow>
      (\<exists>rcv'. feed crc8 chunks rcv = Some (map (\<lambda>(ms, d). d) ds, rcv')))"
proof -
  obtain c where c: "s_db_pack_chan sdr = Some c" "tx_ok c" "tsize c = tx'"
    using init_chan [OF assms(2)] by (auto simp: tx_ok_def)
  obtain sdr' where s: "send crc8 ds sdr =
      Some (map (\<lambda>(i, ms, d). packet crc8 ms (tx_sequence c + of_nat i) d) (enumerate 1 ds), sdr')"
    using send_ok [OF c(1,2), of ds] assms(4) c(3) by fastforce
  let ?ps = "map (\<lambda>(i, ms, d). (ms, tx_sequence c + of_nat i, d)) (enumerate 1 ds)"
  have short: "\<forall>(ms, sq, d) \<in> set ?ps. length d \<le> unat mx"
    using assms(4) by (auto dest!: enumerate_mem)
  obtain ch where ch: "s_db_pack_chan rcv = Some ch" "pending ch = []" "length (cbuf ch) = unat mx + 16"
    "ccount ch = 0"
    using init_chan [OF assms(1)] by blast
  then have ok: "chan_ok (unat mx) ch"
    using assms(3) by (simp add: chan_ok_def)
  have wires: "map (\<lambda>(i, ms, d). packet crc8 ms (tx_sequence c + of_nat i) d) (enumerate 1 ds) =
      map (\<lambda>(ms, sq, d). packet crc8 ms sq d) ?ps"
    by (simp add: case_prod_unfold)
  have datas: "map (\<lambda>(ms, sq, d). d) ?ps = map (\<lambda>(ms, d). d) ds"
    using enumerate_snd [of "\<lambda>(ms, d). d" 1 ds] by (simp add: case_prod_unfold comp_def)
  let ?wire = "map (\<lambda>(ms, sq, d). packet crc8 ms sq d) ?ps"
  have d: "deframe (concat ?wire) = (map (\<lambda>(ms, d). d) ds, [])" "good_stream (unat mx) (concat ?wire)"
    using deframe_packets [OF short, of crc8] assms(3) unfolding datas by simp_all
  have "\<exists>rcv'. feed crc8 chunks rcv = Some (map (\<lambda>(ms, d). d) ds, rcv')"
    if "concat chunks = concat ?wire" "[] \<notin> set chunks" for chunks
    using feed_ok [OF ch(1) ok, of chunks crc8] that(2) d ch(2) by (auto simp: that(1))
  with s show ?thesis
    unfolding wires by blast
qed

lemma concat_single [simp]: "concat (map (\<lambda>x. [x]) xs) = xs"
  by (induction xs) simp_all

theorem link_roundtrip_witness:
  "\<exists>wire sdr' rcv'.
     send (\<lambda>bs init. 0) [(1, [7, 8]), (2, [])]
       (snd (db_pack_init \<lparr>al_chan = True, al_cbuf = True, al_tbuf = True, al_fill = (\<lambda>_. 0)\<rparr> 4 4
         \<lparr>s_db_pack_chan = None, pk_mem = []\<rparr>)) = Some (wire, sdr') \<and>
     feed (\<lambda>bs init. 0) (map (\<lambda>x. [x]) (concat wire))
       (snd (db_pack_init \<lparr>al_chan = True, al_cbuf = True, al_tbuf = True, al_fill = (\<lambda>_. 0)\<rparr> 4 4
         \<lparr>s_db_pack_chan = None, pk_mem = []\<rparr>)) = Some ([[7, 8], []], rcv')"
proof -
  let ?al = "\<lparr>al_chan = True, al_cbuf = True, al_tbuf = True, al_fill = (\<lambda>_. 0 :: u8)\<rparr>"
  let ?ds = "[(1, [7, 8]), (2, [])] :: (u64 \<times> u8 list) list"
  let ?st = "snd (db_pack_init ?al 4 4 \<lparr>s_db_pack_chan = None, pk_mem = []\<rparr>)"
  have init: "db_pack_init ?al 4 4 \<lparr>s_db_pack_chan = None, pk_mem = []\<rparr> = (BK_OK, ?st)"
    by (simp add: db_pack_init_def Let_def)
  obtain wire sdr' where send: "send (\<lambda>bs init. 0) ?ds ?st = Some (wire, sdr')"
    and all: "\<And>chunks. concat chunks = concat wire \<and> [] \<notin> set chunks \<Longrightarrow>
      \<exists>rcv'. feed (\<lambda>bs init. 0) chunks ?st = Some (map (\<lambda>(ms, d). d) ?ds, rcv')"
    using link_roundtrip [OF init init, of ?ds "\<lambda>bs init. 0"] by auto
  have "[] \<notin> set (map (\<lambda>x. [x]) (concat wire))" by (induction wire) auto
  with all [of "map (\<lambda>x. [x]) (concat wire)"] send show ?thesis by auto
qed

subsection \<open>Memory\<close>

datatype pack_block = Chan | Cbuf | Tbuf

text \<open>
  Following an event log: the blocks owned, \<open>None\<close> after a block was allocated while still
  owned (its pointer is lost) or freed while not owned.
\<close>

fun owned :: "mem_event list \<Rightarrow> pack_block set \<Rightarrow> pack_block set option" where
  "owned [] B = Some B"
| "owned (e # es) B =
     (let alloc = (\<lambda>b. if b \<in> B then None else owned es (insert b B));
          free = (\<lambda>b. if b \<in> B then owned es (B - {b}) else None) in
      case e of Malloc_chan \<Rightarrow> alloc Chan | Malloc_cbuf _ \<Rightarrow> alloc Cbuf | Malloc_tbuf _ \<Rightarrow> alloc Tbuf
      | Free_chan \<Rightarrow> free Chan | Free_cbuf \<Rightarrow> free Cbuf | Free_tbuf \<Rightarrow> free Tbuf)"

lemma owned_append: "owned (es @ fs) B = Option.bind (owned es B) (owned fs)"
  by (induction es arbitrary: B) (auto simp: Let_def split: mem_event.split)

datatype pack_call =
    Init_pack pack_alloc u16 u16
  | Deinit_pack
  | Pack u64 "u8 list option" bool
  | Unpack bool "u8 list option"

text \<open>One call, its return value dropped; \<open>None\<close> when it writes outside a buffer.\<close>

fun pack_exec :: "(u8 list \<Rightarrow> u8 \<Rightarrow> u8) \<Rightarrow> pack_call \<Rightarrow> pack_state \<Rightarrow> pack_state option" where
  "pack_exec crc8 (Init_pack al rx tx) st = Some (snd (db_pack_init al rx tx st))"
| "pack_exec crc8 Deinit_pack st = Some (snd (db_pack_deinit st))"
| "pack_exec crc8 (Pack ms d want) st = map_option snd (db_pack_pack crc8 ms d want st)"
| "pack_exec crc8 (Unpack cb d) st = map_option (\<lambda>(_, _, st). st) (db_pack_unpack crc8 cb d st)"

fun pack_run :: "(u8 list \<Rightarrow> u8 \<Rightarrow> u8) \<Rightarrow> pack_call list \<Rightarrow> pack_state \<Rightarrow> pack_state option" where
  "pack_run crc8 [] st = Some st"
| "pack_run crc8 (c # cs) st = Option.bind (pack_exec crc8 c st) (pack_run crc8 cs)"

definition owns_all :: "pack_state \<Rightarrow> bool" where
  "owns_all st \<longleftrightarrow> owned (pk_mem st) {} =
     Some (if s_db_pack_chan st = None then {} else {Chan, Cbuf, Tbuf})"

lemma pack_exec_owns:
  assumes "pack_exec crc8 c st = Some st'" and "owns_all st"
  shows "owns_all st'"
proof (cases c)
  case (Init_pack al rx tx)
  with assms show ?thesis
    by (auto simp: db_pack_init_def owns_all_def mem_log_def Let_def owned_append split: if_splits)
next
  case Deinit_pack
  with assms show ?thesis
    by (auto simp: db_pack_deinit_def owns_all_def mem_log_def owned_append split: if_splits)
next
  case (Pack ms d want)
  with assms show ?thesis
    by (auto simp: db_pack_pack_def owns_all_def Let_def split: option.splits if_splits Option.bind_splits)
next
  case (Unpack cb d)
  with assms show ?thesis
    by (auto simp: db_pack_unpack_def owns_all_def split: option.splits if_splits Option.bind_splits)
qed

text \<open>
  C33. No leak and no double free: after any sequence of calls of the packing layer, whatever
  allocations fail in \<open>db_pack_init\<close>, the layer owns its three blocks when the channel exists
  and nothing when it does not; no block was freed twice and no owned pointer overwritten.
\<close>
theorem pack_memory_balanced:
  assumes "pack_run crc8 calls \<lparr>s_db_pack_chan = None, pk_mem = []\<rparr> = Some st"
  shows "owned (pk_mem st) {} = Some (if s_db_pack_chan st = None then {} else {Chan, Cbuf, Tbuf})"
proof -
  have "owns_all st" if "pack_run crc8 calls st0 = Some st" "owns_all st0" for st0
    using that
  proof (induction calls arbitrary: st0)
    case (Cons c cs)
    then show ?case
      by (cases "pack_exec crc8 c st0") (auto intro: pack_exec_owns)
  qed simp
  from this [OF assms] show ?thesis by (simp add: owns_all_def)
qed

theorem pack_memory_balanced_witness:
  "\<exists>st. pack_run (\<lambda>bs init. 0)
      [Init_pack \<lparr>al_chan = True, al_cbuf = True, al_tbuf = False, al_fill = (\<lambda>_. 0)\<rparr> 4 4,
       Init_pack \<lparr>al_chan = True, al_cbuf = True, al_tbuf = True, al_fill = (\<lambda>_. 0)\<rparr> 4 4]
      \<lparr>s_db_pack_chan = None, pk_mem = []\<rparr> = Some st \<and> owned (pk_mem st) {} = Some {Chan, Cbuf, Tbuf}"
proof -
  let ?cs = "[Init_pack \<lparr>al_chan = True, al_cbuf = True, al_tbuf = False, al_fill = (\<lambda>_. 0 :: u8)\<rparr> 4 4,
     Init_pack \<lparr>al_chan = True, al_cbuf = True, al_tbuf = True, al_fill = (\<lambda>_. 0 :: u8)\<rparr> 4 4]"
  obtain st where "pack_run (\<lambda>bs init. 0) ?cs \<lparr>s_db_pack_chan = None, pk_mem = []\<rparr> = Some st"
    and "s_db_pack_chan st \<noteq> None"
    by (simp add: db_pack_init_def mem_log_def Let_def)
  with pack_memory_balanced [OF this(1)] show ?thesis by auto
qed

section \<open>What the code does with a hostile or damaged stream\<close>

text \<open>
  A header that announces more than the cache can hold, with more bytes of the packet in hand
  than the cache has room for: the bytes are copied past the end of the cache buffer. Nothing
  compares the announced length with \<^verbatim>\<open>csize\<close>.
\<close>

theorem oversized_packet_overflows:
  assumes "s_db_pack_chan st = Some ch" and "ccount ch = 0"
    and "16 \<le> length p" and "pk_magic (read_head p) = DB_PACK_HEAD_MAGIC_CODE"
    and "length p < 16 + head_len p" and "length (cbuf ch) < length p"
  shows "db_pack_unpack crc8 cb (Some p) st = None"
proof -
  have "append_cache p ch = None"
    using assms by (simp add: append_cache_def mem_write_def)
  then have "unpack_loop crc8 cb p ch [] = None"
    using assms by (subst unpack_loop.simps) (auto simp: DB_PACK_HEAD_SIZE_TOTAL_def head_len_def Let_def)
  then show ?thesis
    using assms by (auto simp: db_pack_unpack_def)
qed

text \<open>The CRC is compared, but a damaged payload is delivered all the same.\<close>

theorem damaged_payload_delivered:
  assumes "s_db_pack_chan st = Some ch" and "ccount ch = 0" and "length d' = length d"
    and "length d < 2 ^ 16"
  shows "\<exists>n es st'. db_pack_unpack crc8 True (Some (head_bytes (the_head crc8 ms sq d) @ d')) st =
    Some (n, es, st') \<and> payloads es = [d']"
proof -
  let ?h = "the_head crc8 ms sq d"
  let ?p = "head_bytes ?h @ d'"
  have h: "read_head ?p = ?h" by (rule read_head_bytes) (simp add: the_head_def)
  have l: "length ?p = 16 + length d" "unat (pk_length ?h) = length d"
    "pk_magic ?h = DB_PACK_HEAD_MAGIC_CODE" "length (head_bytes ?h) = 16"
    using assms(3,4) by (simp_all add: the_head_def unat_of_nat take_bit_nat_eq_self)
  have "?p \<noteq> []" using l(1) by (metis Nil_is_append_conv add_is_0 list.size(3) zero_neq_numeral)
  then have "unpack_loop crc8 True ?p ch [] = unpack_loop crc8 True [] ch (deliver crc8 True ?h d')"
    using l assms(2,3) \<open>?p \<noteq> []\<close>
    by (subst unpack_loop.simps) (auto simp: h DB_PACK_HEAD_SIZE_TOTAL_def Let_def)
  also have "\<dots> = Some (0, ch, deliver crc8 True ?h d')"
    by (subst unpack_loop.simps) simp
  finally show ?thesis
    using assms(1) \<open>?p \<noteq> []\<close> by (auto simp: db_pack_unpack_def)
qed

text \<open>
  The value returned is not the number of bytes taken: the bytes that start the cache are kept,
  but not counted.
\<close>

theorem cached_bytes_not_counted:
  assumes "s_db_pack_chan st = Some ch" and "ccount ch = 0" and "p \<noteq> []" and "length p < 16"
    and "16 \<le> length (cbuf ch)"
  shows "\<exists>st' ch'. db_pack_unpack crc8 cb (Some p) st = Some (0, [], st') \<and>
    s_db_pack_chan st' = Some ch' \<and> unat (ccount ch') = length p"
proof -
  obtain c where c: "mem_write (cbuf ch) 0 p = Some c"
    using assms(4,5) by (simp add: mem_write_def)
  have "unpack_loop crc8 cb p ch [] = Some (length p, ch\<lparr>cbuf := c, ccount := of_nat (length p)\<rparr>, [])"
    using assms c by (subst unpack_loop.simps) (simp add: DB_PACK_HEAD_SIZE_TOTAL_def append_cache_def)
  then show ?thesis
    using assms by (auto simp: db_pack_unpack_def unat_of_nat take_bit_nat_eq_self)
qed

end
