(* ===== verification/Power_Ctrl.thy ===== *)
theory Power_Ctrl
  imports Db_Pack
begin

text \<open>
  The control core (CP) of the low-power project, below its keep-alive client: the wake-up
  record and host power control of
  \<^verbatim>\<open>projects/doorbell_lp/cp/powerctrl/powerctrl.c\<close> and \<^verbatim>\<open>powerctrl.h\<close>, and the frames
  \<open>db_ipc_send_event\<close> of \<^verbatim>\<open>projects/doorbell_lp/cp/db_ipc_msg/db_ipc_msg.c\<close> builds for the
  application core (AP).

  What the code asks of the SDK is a list of \<open>cp_event\<close>s, oldest first.
\<close>

datatype cp_event =
    Vote_boot_cp1 bool
  | Cif_power_up_host
  | Cif_power_down_host
  | Listen_interval nat
  | Lv_sleep_start
  | Lv_sleep_exit
  | Cif_event "u8 list"
  | Cif_confirm "u8 list"
  | Core_message "u8 list"
  | Filter u32 u16
  | Sock_open int
  | Sock_bind int u16 bool
  | Sock_connect int bool
  | Sock_close int
  | Sock_send int "u8 list"
  | Send_failed int "u8 list"
  | Alarm_register string nat
  | Alarm_unregister string
  | Pm_low_voltage
  | Timer_deinit
  | Bad_free nat
  | Bad_write nat

record pl_state =
  wakeup_reason :: u32
  cp_log :: "cp_event list"

definition cp_emit :: "cp_event list \<Rightarrow> 'a pl_state_scheme \<Rightarrow> 'a pl_state_scheme" where
  "cp_emit es st = st\<lparr>cp_log := cp_log st @ es\<rparr>"

section \<open>powerctrl.c\<close>

definition POWERUP_POWER_WAKEUP_FLAG :: u32 where "POWERUP_POWER_WAKEUP_FLAG = 1"
definition POWERUP_MULTIMEDIA_WAKEUP_HOST_FLAG :: u32 where "POWERUP_MULTIMEDIA_WAKEUP_HOST_FLAG = 2"
definition POWERUP_KEEPALIVE_DISCONNECTION :: u32 where "POWERUP_KEEPALIVE_DISCONNECTION = 3"
definition POWERUP_KEEPALIVE_FAIL_WAKEUP_FLAG :: u32 where "POWERUP_KEEPALIVE_FAIL_WAKEUP_FLAG = 4"

lemmas powerup_defs = POWERUP_POWER_WAKEUP_FLAG_def POWERUP_MULTIMEDIA_WAKEUP_HOST_FLAG_def
  POWERUP_KEEPALIVE_DISCONNECTION_def POWERUP_KEEPALIVE_FAIL_WAKEUP_FLAG_def

definition pl_set_wakeup_reason :: "u32 \<Rightarrow> 'a pl_state_scheme \<Rightarrow> 'a pl_state_scheme" where
  "pl_set_wakeup_reason reason st = st\<lparr>wakeup_reason := reason\<rparr>"

definition pl_reset_wakeup_reason :: "'a pl_state_scheme \<Rightarrow> 'a pl_state_scheme" where
  "pl_reset_wakeup_reason st = st\<lparr>wakeup_reason := 0\<rparr>"

definition pl_clear_wakeup_reason :: "u32 \<Rightarrow> 'a pl_state_scheme \<Rightarrow> 'a pl_state_scheme" where
  "pl_clear_wakeup_reason reason st = st\<lparr>wakeup_reason := wakeup_reason st AND NOT reason\<rparr>"

definition pl_wakeup_host :: "u32 \<Rightarrow> 'a pl_state_scheme \<Rightarrow> 'a pl_state_scheme" where
  "pl_wakeup_host flag st =
     cp_emit [Vote_boot_cp1 True, Cif_power_up_host, Listen_interval 1] (pl_set_wakeup_reason flag st)"

definition pl_power_down_host :: "'a pl_state_scheme \<Rightarrow> 'a pl_state_scheme" where
  "pl_power_down_host st =
     cp_emit [Vote_boot_cp1 False, Cif_power_down_host, Listen_interval 10] (pl_reset_wakeup_reason st)"

definition pl_start_lv_sleep :: "'a pl_state_scheme \<Rightarrow> 'a pl_state_scheme" where
  "pl_start_lv_sleep = cp_emit [Lv_sleep_start]"

definition pl_exit_lv_sleep :: "'a pl_state_scheme \<Rightarrow> 'a pl_state_scheme" where
  "pl_exit_lv_sleep = cp_emit [Lv_sleep_exit]"

text \<open>Whether the host is powered, by the last event that says so.\<close>

fun host_on :: "cp_event list \<Rightarrow> bool" where
  "host_on [] = False"
| "host_on (Cif_power_up_host # es) = (\<not> (Cif_power_down_host \<in> set es) \<or> host_on es)"
| "host_on (_ # es) = host_on es"

section \<open>Events to the application core\<close>

definition DB_IPC_PATTERN :: u16 where "DB_IPC_PATTERN = 0xA5A6"
definition MAX_DB_IPC_MSG_SIZE :: nat where "MAX_DB_IPC_MSG_SIZE = 256"
definition DB_IPC_EVENT_KEEPALIVE_DISCONNECTION :: u16 where "DB_IPC_EVENT_KEEPALIVE_DISCONNECTION = 0x1002"

text \<open>\<^verbatim>\<open>db_ipc_prote_hdr_t\<close>: magic, cid, ctl, seq, checksum, len.\<close>

definition ipc_event_bytes :: "u16 \<Rightarrow> u8 list \<Rightarrow> u8 list" where
  "ipc_event_bytes event_id data = le16 DB_IPC_PATTERN @ le16 event_id @ le16 0 @ le16 0 @ le16 0 @
     le16 (of_nat (length data)) @ data"

text \<open>
  \<open>len\<close> bytes are copied from \<open>data\<close>; a \<^verbatim>\<open>NULL\<close> pointer leaves zeros. \<open>ret\<close> is what the SDK
  answers.
\<close>

definition db_ipc_send_event ::
    "int \<Rightarrow> u16 \<Rightarrow> u8 list option \<Rightarrow> u16 \<Rightarrow> 'a pl_state_scheme \<Rightarrow> int \<times> 'a pl_state_scheme" where
  "db_ipc_send_event ret event_id data len st =
     (if unat len > MAX_DB_IPC_MSG_SIZE then (-1, st)
      else (ret, cp_emit [Cif_event (ipc_event_bytes event_id
        (case data of None \<Rightarrow> replicate (unat len) 0 | Some bs \<Rightarrow> take (unat len) bs))] st))"

lemma wakeup_reason_simps [simp]:
  "wakeup_reason (cp_emit es st) = wakeup_reason st"
  "wakeup_reason (pl_wakeup_host f st) = f"
  "wakeup_reason (pl_set_wakeup_reason f st) = f"
  "wakeup_reason (pl_power_down_host st) = 0"
  by (simp_all add: cp_emit_def pl_wakeup_host_def pl_set_wakeup_reason_def pl_power_down_host_def
      pl_reset_wakeup_reason_def)

end
