(* ===== verification/Keepalive_CP.thy ===== *)
theory Keepalive_CP
  imports Power_Ctrl
begin

text \<open>
  The keep-alive client of the control core,
  \<^verbatim>\<open>projects/doorbell_lp/cp/keepalive/db_keepalive.c\<close>: while the application core is off it
  holds a TCP connection to the server, sends a heartbeat every interval and wakes the
  application core when the server asks for it.

  \<open>db_keepalive_env_t\<close> is the record \<open>db_keepalive_env_t\<close>; pointers and handles are \<open>None\<close> for
  \<^verbatim>\<open>NULL\<close>. The blocks the client allocates (its two buffers and its semaphore) are numbers
  with an explicit set of live ones, so that a write into a freed buffer or a second free shows
  (\<open>Bad_write\<close>, \<open>Bad_free\<close>). The two threads are program counters; one \<open>ka_act\<close> runs one thread from
  one blocking call to the next, or a timer or alarm handler, or a message of the application
  core. What the SDK and LwIP answer is an argument of the action.
\<close>

section \<open>Data\<close>

definition DB_KEEPALIVE_RX_MAX_RETRY_CNT :: nat where "DB_KEEPALIVE_RX_MAX_RETRY_CNT = 20"
definition DB_KEEPALIVE_DEFAULT_INTERVAL_MS :: u32 where "DB_KEEPALIVE_DEFAULT_INTERVAL_MS = 30 * 1000"
definition DB_KEEPALIVE_MAX_RETRY_CNT :: nat where "DB_KEEPALIVE_MAX_RETRY_CNT = 5"
definition DB_KEEPALIVE_MSG_BUFFER_SIZE :: u16 where "DB_KEEPALIVE_MSG_BUFFER_SIZE = 1460"
definition DB_KEEPALIVE_RTC_TIMER_THRESHOLD_MS :: u32 where "DB_KEEPALIVE_RTC_TIMER_THRESHOLD_MS = 500"
definition DB_KEEPALIVE_CP_BIND_PORT_START :: u32 where "DB_KEEPALIVE_CP_BIND_PORT_START = 0x1000"
definition DB_KEEPALIVE_CP_BIND_PORT_END :: u32 where "DB_KEEPALIVE_CP_BIND_PORT_END = 0x1010"
definition DB_KEEPALIVE_CP_BIND_PORT_COUNT :: u32 where
  "DB_KEEPALIVE_CP_BIND_PORT_COUNT = DB_KEEPALIVE_CP_BIND_PORT_END - DB_KEEPALIVE_CP_BIND_PORT_START + 1"

lemmas port_defs = DB_KEEPALIVE_CP_BIND_PORT_START_def DB_KEEPALIVE_CP_BIND_PORT_END_def
  DB_KEEPALIVE_CP_BIND_PORT_COUNT_def

definition EVT_STATUS_OK :: u8 where "EVT_STATUS_OK = 0"
definition EVT_STATUS_UNKNOWN :: u8 where "EVT_STATUS_UNKNOWN = 12"
definition EVT_FLAGS_COMPLETE :: u16 where "EVT_FLAGS_COMPLETE = 0"
definition DBCMD_KEEP_ALIVE_REQUEST :: u32 where "DBCMD_KEEP_ALIVE_REQUEST = 17"
definition DBCMD_KEEP_ALIVE_RESPONSE :: u32 where "DBCMD_KEEP_ALIVE_RESPONSE = 18"
definition DBCMD_WAKE_UP_REQUEST :: u32 where "DBCMD_WAKE_UP_REQUEST = 19"

lemmas dbcmd_defs = DBCMD_KEEP_ALIVE_REQUEST_def DBCMD_KEEP_ALIVE_RESPONSE_def DBCMD_WAKE_UP_REQUEST_def

text \<open>A command and an event on the wire: 10 and 9 bytes of header, then the payload.\<close>

record db_cmd_head_t =
  cmd_opcode :: u32
  cmd_param :: u32
  cmd_length :: u16

record db_evt_head_t =
  evt_opcode :: u32
  evt_status :: u8
  evt_flags :: u16
  evt_length :: u16

definition CMD_HEAD_SIZE :: nat where "CMD_HEAD_SIZE = 10"

definition read_cmd :: "u8 list \<Rightarrow> db_cmd_head_t" where
  "read_cmd bs = \<lparr>cmd_opcode = get32 bs 0, cmd_param = get32 bs 4, cmd_length = get16 bs 8\<rparr>"

definition cmd_bytes :: "db_cmd_head_t \<Rightarrow> u8 list" where
  "cmd_bytes c = le32 (cmd_opcode c) @ le32 (cmd_param c) @ le16 (cmd_length c)"

definition evt_bytes :: "db_evt_head_t \<Rightarrow> u8 list" where
  "evt_bytes e = le32 (evt_opcode e) @ [evt_status e] @ le16 (evt_flags e) @ le16 (evt_length e)"

text \<open>The configuration the application core sends.\<close>

record db_ipc_keepalive_cfg_t =
  cfg_server :: "u8 list"
  cfg_port :: u16

record db_keepalive_env_t =
  keepalive_ongoing :: bool
  sock :: int
  server :: "u8 list"
  port :: u16
  interval_ms :: u32
  timer :: bool
  tx_thread :: bool
  rx_thread :: bool
  sema :: "nat option"
  rx_buffer :: "nat option"
  rx_raw_buffer :: "nat option"
  lp_state :: u8
  rtc_name :: string

definition zero_env :: db_keepalive_env_t where
  "zero_env = \<lparr>keepalive_ongoing = False, sock = 0, server = [], port = 0, interval_ms = 0,
     timer = False, tx_thread = False, rx_thread = False, sema = None, rx_buffer = None,
     rx_raw_buffer = None, lp_state = 0, rtc_name = ''''\<rparr>"

datatype tx_pc = Tx_none | Tx_start | Tx_init_rx | Tx_run | Tx_loop | Tx_wait nat | Tx_woken bool | Tx_exit

datatype rx_pc = Rx_none | Rx_loop | Rx_recv int "nat option" | Rx_exit

record ka_state = pl_state +
  s_keepalive_env :: db_keepalive_env_t
  ka_pack :: pack_state
  s_bind_seed :: u32
  ka_tx :: tx_pc
  ka_rx :: rx_pc
  live :: "nat set"
  next_block :: nat
  tokens :: "nat set"
  open_socks :: "int set"
  alarm :: "string option"

text \<open>
  What does not change while the program runs: the two SDK constants for the sleep modes, the
  CRC and the address parser.
\<close>

record ka_sdk =
  PM_MODE_LOW_VOLTAGE :: u8
  PM_MODE_NORMAL_SLEEP :: u8
  hnd_crc8 :: "u8 list \<Rightarrow> u8 \<Rightarrow> u8"
  inet_addr :: "u8 list \<Rightarrow> u32"

abbreviation upd_env :: "(db_keepalive_env_t \<Rightarrow> db_keepalive_env_t) \<Rightarrow> ka_state \<Rightarrow> ka_state" where
  "upd_env f st \<equiv> st\<lparr>s_keepalive_env := f (s_keepalive_env st)\<rparr>"

text \<open>The characters of a C string in a buffer, up to its terminator.\<close>

definition c_string :: "u8 list \<Rightarrow> u8 list" where
  "c_string bs = takeWhile (\<lambda>b. b \<noteq> 0) bs"

section \<open>Blocks and semaphores\<close>

definition ka_malloc :: "bool \<Rightarrow> ka_state \<Rightarrow> nat option \<times> ka_state" where
  "ka_malloc ok st =
     (if ok then (Some (next_block st), st\<lparr>live := insert (next_block st) (live st),
        next_block := next_block st + 1\<rparr>) else (None, st))"

definition ka_free :: "nat option \<Rightarrow> ka_state \<Rightarrow> ka_state" where
  "ka_free p st =
     (case p of None \<Rightarrow> st
      | Some b \<Rightarrow> if b \<in> live st then st\<lparr>live := live st - {b}\<rparr> else cp_emit [Bad_free b] st)"

definition db_keepalive_sema_post_safe :: "ka_state \<Rightarrow> ka_state" where
  "db_keepalive_sema_post_safe st =
     (case sema (s_keepalive_env st) of None \<Rightarrow> st | Some s \<Rightarrow> st\<lparr>tokens := insert s (tokens st)\<rparr>)"

definition close_sock :: "int \<Rightarrow> ka_state \<Rightarrow> ka_state" where
  "close_sock n st = cp_emit [Sock_close n] (st\<lparr>open_socks := open_socks st - {n}\<rparr>)"

section \<open>The alarm\<close>

definition alarm_unregister :: "string \<Rightarrow> ka_state \<Rightarrow> ka_state" where
  "alarm_unregister n st = cp_emit [Alarm_unregister n]
     (if alarm st = Some n then st\<lparr>alarm := None\<rparr> else st)"

definition db_keepalive_set_keepalive_rtc :: "ka_state \<Rightarrow> ka_state" where
  "db_keepalive_set_keepalive_rtc st =
     (let ms = interval_ms (s_keepalive_env st) in
      if ms < DB_KEEPALIVE_RTC_TIMER_THRESHOLD_MS then st
      else
        let st = upd_env (rtc_name_update (\<lambda>_. ''da_rtc'')) st;
            st = alarm_unregister ''da_rtc'' st in
        cp_emit [Alarm_register ''da_rtc'' (unat ms), Pm_low_voltage] (st\<lparr>alarm := Some ''da_rtc''\<rparr>))"

definition db_keepalive_stop_keepalive_rtc :: "ka_state \<Rightarrow> ka_state" where
  "db_keepalive_stop_keepalive_rtc st = alarm_unregister (rtc_name (s_keepalive_env st)) st"

definition db_keepalive_rtc_timer_handler :: "ka_state \<Rightarrow> ka_state" where
  "db_keepalive_rtc_timer_handler st =
     (if \<not> keepalive_ongoing (s_keepalive_env st) then st else db_keepalive_sema_post_safe st)"

definition db_keepalive_timer_handler :: "ka_state \<Rightarrow> ka_state" where
  "db_keepalive_timer_handler st =
     (let st = cp_emit [Lv_sleep_start] st in
      if DB_KEEPALIVE_RTC_TIMER_THRESHOLD_MS \<le> interval_ms (s_keepalive_env st)
      then db_keepalive_set_keepalive_rtc st else st)"

definition db_keepalive_start_lv_sleep :: "ka_sdk \<Rightarrow> ka_state \<Rightarrow> ka_state" where
  "db_keepalive_start_lv_sleep sdk st =
     (if lp_state (s_keepalive_env st) = PM_MODE_LOW_VOLTAGE sdk then st
      else pl_start_lv_sleep (upd_env (lp_state_update (\<lambda>_. PM_MODE_LOW_VOLTAGE sdk)) st))"

definition db_keepalive_exit_lv_sleep :: "ka_sdk \<Rightarrow> ka_state \<Rightarrow> ka_state" where
  "db_keepalive_exit_lv_sleep sdk st =
     pl_exit_lv_sleep (upd_env (lp_state_update (\<lambda>_. PM_MODE_NORMAL_SLEEP sdk)) st)"

section \<open>Sending\<close>

text \<open>
  Packing an event and sending it; \<open>None\<close> if packing would write outside the transmit buffer.
  \<open>sent\<close> is whether \<^verbatim>\<open>send\<close> reports success.
\<close>

definition send_event :: "ka_sdk \<Rightarrow> u64 \<Rightarrow> bool \<Rightarrow> db_evt_head_t \<Rightarrow> ka_state \<Rightarrow> ka_state option" where
  "send_event sdk ms sent evt st = do {
     ((ret, pack), ps) \<leftarrow> db_pack_pack (hnd_crc8 sdk) ms (Some (evt_bytes evt)) True (ka_pack st);
     let st = st\<lparr>ka_pack := ps\<rparr>;
     case pack of
       None \<Rightarrow> Some st
     | Some p \<Rightarrow> Some (cp_emit [(if sent then Sock_send else Send_failed) (sock (s_keepalive_env st)) p] st)
   }"

definition doorbell_transmission_event_report ::
    "ka_sdk \<Rightarrow> u64 \<Rightarrow> bool \<Rightarrow> u32 \<Rightarrow> u8 \<Rightarrow> u16 \<Rightarrow> ka_state \<Rightarrow> ka_state option" where
  "doorbell_transmission_event_report sdk ms sent opcode status flags st =
     (if sock (s_keepalive_env st) < 0 then Some st
      else send_event sdk ms sent
        \<lparr>evt_opcode = opcode, evt_status = status, evt_flags = flags, evt_length = 0\<rparr> st)"

definition db_keepalive_send_heartbeat :: "ka_sdk \<Rightarrow> u64 \<Rightarrow> bool \<Rightarrow> ka_state \<Rightarrow> ka_state option" where
  "db_keepalive_send_heartbeat sdk ms sent st =
     (if sock (s_keepalive_env st) < 0 then Some st
      else send_event sdk ms sent
        \<lparr>evt_opcode = DBCMD_KEEP_ALIVE_REQUEST, evt_status = 0, evt_flags = 0, evt_length = 0\<rparr> st)"

section \<open>Receiving\<close>

definition db_tx_cmd_recive_callback ::
    "ka_sdk \<Rightarrow> u64 \<Rightarrow> bool \<Rightarrow> u8 list \<Rightarrow> u16 \<Rightarrow> ka_state \<Rightarrow> ka_state option" where
  "db_tx_cmd_recive_callback sdk ms sent data len st =
     (if unat len < CMD_HEAD_SIZE then Some st
      else
        let cmd = read_cmd data in
        if cmd_opcode cmd = DBCMD_WAKE_UP_REQUEST
        then Some (pl_wakeup_host POWERUP_MULTIMEDIA_WAKEUP_HOST_FLAG st)
        else doorbell_transmission_event_report sdk ms sent (cmd_opcode cmd) EVT_STATUS_UNKNOWN EVT_FLAGS_COMPLETE st)"

definition db_keepalive_unpack_callback ::
    "ka_sdk \<Rightarrow> u64 \<Rightarrow> bool \<Rightarrow> u8 list \<Rightarrow> ka_state \<Rightarrow> ka_state option" where
  "db_keepalive_unpack_callback sdk ms sent data st =
     (if length data < CMD_HEAD_SIZE then Some st
      else if cmd_opcode (read_cmd data) = DBCMD_KEEP_ALIVE_RESPONSE then Some st
      else db_tx_cmd_recive_callback sdk ms sent data (of_nat (length data)) st)"

text \<open>What one \<^verbatim>\<open>recv\<close> returns.\<close>

datatype recv_answer = Received "u8 list" | Closed_by_peer | Would_block | Recv_error

text \<open>
  \<open>db_keepalive_recv_raw_data\<close>: the value returned and the bytes, \<open>None\<close> when the answers end
  while it is still waiting.
\<close>

fun recv_raw :: "recv_answer list \<Rightarrow> nat \<Rightarrow> (int \<times> u8 list) option" where
  "recv_raw [] retry = None"
| "recv_raw (Received bs # as) retry = Some (0, bs)"
| "recv_raw (Closed_by_peer # as) retry = Some (-2, [])"
| "recv_raw (Recv_error # as) retry = Some (-2, [])"
| "recv_raw (Would_block # as) retry =
     (if retry + 1 > DB_KEEPALIVE_RX_MAX_RETRY_CNT then Some (-1, []) else recv_raw as (retry + 1))"

definition db_keepalive_recv_raw_data :: "recv_answer list \<Rightarrow> (int \<times> u8 list) option" where
  "db_keepalive_recv_raw_data as = recv_raw as 0"

text \<open>The callback runs on each payload \<open>db_pack_unpack\<close> delivers.\<close>

fun callbacks :: "ka_sdk \<Rightarrow> u64 \<Rightarrow> bool \<Rightarrow> u8 list list \<Rightarrow> ka_state \<Rightarrow> ka_state option" where
  "callbacks sdk ms sent [] st = Some st"
| "callbacks sdk ms sent (d # ds) st =
     Option.bind (db_keepalive_unpack_callback sdk ms sent d st) (callbacks sdk ms sent ds)"

definition rx_process :: "ka_sdk \<Rightarrow> u64 \<Rightarrow> bool \<Rightarrow> u8 list \<Rightarrow> ka_state \<Rightarrow> ka_state option" where
  "rx_process sdk ms sent bs st = do {
     (ret, es, ps) \<leftarrow> db_pack_unpack (hnd_crc8 sdk) True (Some bs) (ka_pack st);
     callbacks sdk ms sent (payloads es) (st\<lparr>ka_pack := ps\<rparr>)
   }"

section \<open>Connecting\<close>

text \<open>
  What the stack answers to one try: the descriptor of \<^verbatim>\<open>socket\<close> (negative for failure), which
  of the binds works, and whether the connection is made.
\<close>

record conn_answer =
  an_socket :: int
  an_bind :: "nat \<Rightarrow> bool"
  an_connect :: bool

definition next_seed :: "u32 \<Rightarrow> u32" where
  "next_seed s = (s * 1103515245 + 12345) AND 0x7fffffff"

definition seed_port :: "u32 \<Rightarrow> u16" where
  "seed_port s = ucast (DB_KEEPALIVE_CP_BIND_PORT_START + s mod DB_KEEPALIVE_CP_BIND_PORT_COUNT)"

text \<open>The bind loop: \<open>k\<close> tries left, \<open>i\<close> done. The result is whether the last bind worked.\<close>

fun bind_loop :: "nat \<Rightarrow> nat \<Rightarrow> (nat \<Rightarrow> bool) \<Rightarrow> ka_state \<Rightarrow> bool \<times> ka_state" where
  "bind_loop 0 i ok st = (False, st)"
| "bind_loop (Suc k) i ok st =
     (let seed = next_seed (s_bind_seed st);
          st = cp_emit [Sock_bind (sock (s_keepalive_env st)) (seed_port seed) (ok i)]
                 (st\<lparr>s_bind_seed := seed\<rparr>) in
      if ok i then (True, st) else bind_loop k (Suc i) ok st)"

text \<open>One round of the retry loop.\<close>

definition conn_try :: "conn_answer \<Rightarrow> ka_state \<Rightarrow> bool \<times> ka_state" where
  "conn_try an st =
     (let st = upd_env (sock_update (\<lambda>_. an_socket an)) st in
      if an_socket an < 0 then (False, st)
      else
        let st = cp_emit [Sock_open (an_socket an)] (st\<lparr>open_socks := insert (an_socket an) (open_socks st)\<rparr>);
            (bound, st) = bind_loop (unat DB_KEEPALIVE_CP_BIND_PORT_COUNT) 0 (an_bind an) st in
        if \<not> bound then (False, upd_env (sock_update (\<lambda>_. -1)) (close_sock (an_socket an) st))
        else
          let st = cp_emit [Sock_connect (an_socket an) (an_connect an)] st in
          if \<not> an_connect an then (False, upd_env (sock_update (\<lambda>_. -1)) (close_sock (an_socket an) st))
          else (True, st))"

fun conn_loop :: "nat \<Rightarrow> nat \<Rightarrow> (nat \<Rightarrow> conn_answer) \<Rightarrow> ka_state \<Rightarrow> bool \<times> ka_state" where
  "conn_loop 0 i ans st = (False, upd_env (sock_update (\<lambda>_. -1)) st)"
| "conn_loop (Suc k) i ans st =
     (let (ok, st) = conn_try (ans i) st in if ok then (True, st) else conn_loop k (Suc i) ans st)"

definition db_keepalive_init_connection :: "(nat \<Rightarrow> conn_answer) \<Rightarrow> ka_state \<Rightarrow> bk_err_t \<times> ka_state" where
  "db_keepalive_init_connection ans st =
     (let (ok, st) = conn_loop DB_KEEPALIVE_MAX_RETRY_CNT 0 ans st in
      (if ok then BK_OK else BK_FAIL, st))"

section \<open>Initialisation and release\<close>

record init_answer =
  an_rx_buffer :: bool
  an_raw_buffer :: bool
  an_pack :: pack_alloc
  an_sema :: bool

text \<open>The \<^verbatim>\<open>exit:\<close> label of \<open>db_keepalive_cp_init\<close>.\<close>

definition init_fail :: "ka_state \<Rightarrow> bk_err_t \<times> ka_state" where
  "init_fail st =
     (let st = upd_env (rx_raw_buffer_update (\<lambda>_. None)) (ka_free (rx_raw_buffer (s_keepalive_env st)) st);
          st = upd_env (rx_buffer_update (\<lambda>_. None)) (ka_free (rx_buffer (s_keepalive_env st)) st) in
      (BK_FAIL, st))"

definition db_keepalive_cp_init ::
    "ka_sdk \<Rightarrow> init_answer \<Rightarrow> db_ipc_keepalive_cfg_t option \<Rightarrow> ka_state \<Rightarrow> bk_err_t \<times> ka_state" where
  "db_keepalive_cp_init sdk an cfg st =
     (case cfg of
        None \<Rightarrow> (BK_FAIL, st)
      | Some cfg \<Rightarrow>
          if keepalive_ongoing (s_keepalive_env st) then (BK_FAIL, st)
          else
            let st = st\<lparr>s_keepalive_env := zero_env
                  \<lparr>server := take 31 (c_string (cfg_server cfg)), port := cfg_port cfg,
                   interval_ms := DB_KEEPALIVE_DEFAULT_INTERVAL_MS\<rparr>\<rparr>;
                (p, st) = ka_malloc (an_rx_buffer an) st;
                st = upd_env (rx_buffer_update (\<lambda>_. p)) st in
            if p = None then (BK_FAIL, st)
            else
              let (p, st) = ka_malloc (an_raw_buffer an) st;
                  st = upd_env (rx_raw_buffer_update (\<lambda>_. p)) st in
              if p = None then init_fail st
              else
                let (ret, ps) = db_pack_init (an_pack an) DB_KEEPALIVE_MSG_BUFFER_SIZE
                      DB_KEEPALIVE_MSG_BUFFER_SIZE (ka_pack st);
                    st = st\<lparr>ka_pack := ps\<rparr> in
                if ret \<noteq> BK_OK then init_fail st
                else
                  let (p, st) = ka_malloc (an_sema an) st;
                      st = upd_env (sema_update (\<lambda>_. p)) st in
                  if p = None then init_fail (st\<lparr>ka_pack := snd (db_pack_deinit (ka_pack st))\<rparr>)
                  else (BK_OK, upd_env (\<lambda>e. e\<lparr>keepalive_ongoing := True, sock := -1,
                         lp_state := PM_MODE_NORMAL_SLEEP sdk\<rparr>) st))"

text \<open>\<open>db_keepalive_cp_deinit\<close>, in the order of the code; it ends by clearing the whole record.\<close>

definition deinit_socket :: "ka_state \<Rightarrow> ka_state" where
  "deinit_socket st =
     (if sock (s_keepalive_env st) \<ge> 0
      then upd_env (sock_update (\<lambda>_. -1)) (close_sock (sock (s_keepalive_env st)) st) else st)"

definition deinit_memory :: "ka_state \<Rightarrow> ka_state" where
  "deinit_memory st =
     (let st = st\<lparr>ka_pack := snd (db_pack_deinit (ka_pack st))\<rparr>;
          st = upd_env (rx_buffer_update (\<lambda>_. None)) (ka_free (rx_buffer (s_keepalive_env st)) st);
          st = upd_env (rx_raw_buffer_update (\<lambda>_. None)) (ka_free (rx_raw_buffer (s_keepalive_env st)) st)
      in upd_env (sema_update (\<lambda>_. None)) (ka_free (sema (s_keepalive_env st)) st))"

definition db_keepalive_cp_deinit :: "ka_sdk \<Rightarrow> ka_state \<Rightarrow> bk_err_t \<times> ka_state" where
  "db_keepalive_cp_deinit sdk st =
     (let st = upd_env (keepalive_ongoing_update (\<lambda>_. False)) st;
          st = db_keepalive_stop_keepalive_rtc st;
          st = db_keepalive_sema_post_safe st;
          st = (if lp_state (s_keepalive_env st) = PM_MODE_LOW_VOLTAGE sdk
                then db_keepalive_exit_lv_sleep sdk st else st);
          st = (if timer (s_keepalive_env st)
                then cp_emit [Timer_deinit] (upd_env (timer_update (\<lambda>_. False)) st) else st);
          st = deinit_memory (deinit_socket st);
          st = st\<lparr>s_keepalive_env := zero_env\<rparr>
      in (BK_OK, cp_emit [Filter 0 0] st))"

text \<open>\<open>None\<close>: a second transmit thread beside a running one is outside the model.\<close>

definition db_keepalive_cp_start :: "bool \<Rightarrow> ka_state \<Rightarrow> (bk_err_t \<times> ka_state) option" where
  "db_keepalive_cp_start thread_ok st =
     (if \<not> keepalive_ongoing (s_keepalive_env st) then Some (BK_FAIL, st)
      else if \<not> thread_ok then Some (BK_FAIL, st)
      else if ka_tx st \<noteq> Tx_none then None
      else Some (BK_OK, (upd_env (tx_thread_update (\<lambda>_. True)) st)\<lparr>ka_tx := Tx_start\<rparr>))"

definition db_keepalive_cp_stop :: "ka_sdk \<Rightarrow> ka_state \<Rightarrow> bk_err_t \<times> ka_state" where
  "db_keepalive_cp_stop sdk st =
     (let st = upd_env (keepalive_ongoing_update (\<lambda>_. False)) st;
          st = db_keepalive_sema_post_safe st in
      if \<not> tx_thread (s_keepalive_env st) then db_keepalive_cp_deinit sdk st else (BK_OK, st))"


section \<open>The transmit thread\<close>

text \<open>
  \<open>db_keepalive_tx_handler\<close>, cut where it may block. \<open>tx_start\<close>: the filter and the
  connection; \<open>tx_init_rx\<close>: \<open>db_keepalive_init_rx\<close>; \<open>tx_run\<close>: power down, sleep, timer, first
  heartbeat; \<open>tx_loop\<close>: the head of the main loop, up to the semaphore; \<open>tx_woken\<close>: the rest of
  the body.
\<close>

definition tx_disconnected :: "int \<Rightarrow> ka_state \<Rightarrow> ka_state" where
  "tx_disconnected ipc_ret st =
     (snd (db_ipc_send_event ipc_ret DB_IPC_EVENT_KEEPALIVE_DISCONNECTION None 0
        (pl_set_wakeup_reason POWERUP_KEEPALIVE_DISCONNECTION st)))\<lparr>ka_tx := Tx_exit\<rparr>"

definition tx_start :: "ka_sdk \<Rightarrow> (nat \<Rightarrow> conn_answer) \<Rightarrow> int \<Rightarrow> ka_state \<Rightarrow> ka_state" where
  "tx_start sdk ans ipc_ret st =
     (let st = cp_emit [Filter (inet_addr sdk (server (s_keepalive_env st))) (port (s_keepalive_env st))] st;
          (ret, st) = db_keepalive_init_connection ans st in
      if ret \<noteq> BK_OK then tx_disconnected ipc_ret st else st\<lparr>ka_tx := Tx_init_rx\<rparr>)"

definition db_keepalive_init_rx :: "ka_sdk \<Rightarrow> bool \<Rightarrow> ka_state \<Rightarrow> bk_err_t \<times> ka_state" where
  "db_keepalive_init_rx sdk thread_ok st =
     (if thread_ok then (BK_OK, (upd_env (rx_thread_update (\<lambda>_. True)) st)\<lparr>ka_rx := Rx_loop\<rparr>)
      else (BK_FAIL, snd (db_keepalive_cp_deinit sdk st)))"

definition tx_init_rx :: "ka_sdk \<Rightarrow> bool \<Rightarrow> int \<Rightarrow> ka_state \<Rightarrow> ka_state" where
  "tx_init_rx sdk thread_ok ipc_ret st =
     (let (ret, st) = db_keepalive_init_rx sdk thread_ok st in
      if ret \<noteq> BK_OK then tx_disconnected ipc_ret st else st\<lparr>ka_tx := Tx_run\<rparr>)"

definition tx_failed :: "ka_state \<Rightarrow> ka_state" where
  "tx_failed st = (pl_wakeup_host POWERUP_KEEPALIVE_FAIL_WAKEUP_FLAG st)\<lparr>ka_tx := Tx_exit\<rparr>"

definition tx_run ::
    "ka_sdk \<Rightarrow> bool \<Rightarrow> bool \<Rightarrow> u64 \<Rightarrow> bool \<Rightarrow> ka_state \<Rightarrow> ka_state option" where
  "tx_run sdk init_ok start_ok ms sent st =
     (let st = db_keepalive_start_lv_sleep sdk (pl_power_down_host st) in
      if \<not> init_ok then Some (tx_failed st)
      else
        let st = upd_env (timer_update (\<lambda>_. True)) st in
        if \<not> start_ok then Some (tx_failed st)
        else if keepalive_ongoing (s_keepalive_env st) \<and> sock (s_keepalive_env st) \<ge> 0
        then map_option (\<lambda>st. st\<lparr>ka_tx := Tx_loop\<rparr>) (db_keepalive_send_heartbeat sdk ms sent st)
        else Some (st\<lparr>ka_tx := Tx_loop\<rparr>))"

definition tx_loop :: "ka_state \<Rightarrow> ka_state option" where
  "tx_loop st =
     (if keepalive_ongoing (s_keepalive_env st) then
        let st = db_keepalive_set_keepalive_rtc st in
        map_option (\<lambda>s. st\<lparr>ka_tx := Tx_wait s\<rparr>) (sema (s_keepalive_env st))
      else Some (st\<lparr>ka_tx := Tx_exit\<rparr>))"

definition tx_woken :: "ka_sdk \<Rightarrow> bool \<Rightarrow> u64 \<Rightarrow> bool \<Rightarrow> ka_state \<Rightarrow> ka_state option" where
  "tx_woken sdk got ms sent st =
     (if \<not> keepalive_ongoing (s_keepalive_env st) then Some (st\<lparr>ka_tx := Tx_exit\<rparr>)
      else if \<not> got then Some (st\<lparr>ka_tx := Tx_exit\<rparr>)
      else if sock (s_keepalive_env st) \<ge> 0
      then map_option (\<lambda>st. st\<lparr>ka_tx := Tx_loop\<rparr>) (db_keepalive_send_heartbeat sdk ms sent st)
      else Some (st\<lparr>ka_tx := Tx_loop\<rparr>))"

section \<open>The receive thread\<close>

text \<open>
  \<open>db_keepalive_rx_handler\<close>: the loop test, then a \<^verbatim>\<open>recv\<close> into the raw buffer, which blocks; what
  it gives is processed, or ends the thread. \<open>rx_exit\<close> is its end.
\<close>

definition rx_loop :: "ka_state \<Rightarrow> ka_state" where
  "rx_loop st =
     (let e = s_keepalive_env st in
      if keepalive_ongoing e \<and> sock e \<ge> 0 then st\<lparr>ka_rx := Rx_recv (sock e) (rx_raw_buffer e)\<rparr>
      else st\<lparr>ka_rx := Rx_exit\<rparr>)"

text \<open>
  The bytes arrive in the buffer \<^verbatim>\<open>recv\<close> was given, live or not; \<open>db_pack_unpack\<close> reads the
  buffer of the record.
\<close>

definition rx_recv ::
    "ka_sdk \<Rightarrow> recv_answer list \<Rightarrow> u64 \<Rightarrow> bool \<Rightarrow> nat option \<Rightarrow> ka_state \<Rightarrow> ka_state option" where
  "rx_recv sdk as ms sent buf st = do {
     (ret, bs) \<leftarrow> db_keepalive_recv_raw_data as;
     if ret = -1 then Some ((pl_wakeup_host POWERUP_KEEPALIVE_FAIL_WAKEUP_FLAG st)\<lparr>ka_rx := Rx_exit\<rparr>)
     else if ret < 0 then Some (st\<lparr>ka_rx := Rx_exit\<rparr>)
     else if bs = [] \<or> length bs > unat DB_KEEPALIVE_MSG_BUFFER_SIZE then None
     else do {
       b \<leftarrow> buf;
       if b \<notin> live st then Some ((cp_emit [Bad_write b] st)\<lparr>ka_rx := Rx_loop\<rparr>)
       else map_option (\<lambda>st. st\<lparr>ka_rx := Rx_loop\<rparr>) (rx_process sdk ms sent bs st)
     }
   }"

definition rx_exit :: "ka_state \<Rightarrow> ka_state" where
  "rx_exit st =
     (let st = db_keepalive_sema_post_safe (upd_env (keepalive_ongoing_update (\<lambda>_. False)) st) in
      (upd_env (rx_thread_update (\<lambda>_. False)) st)\<lparr>ka_rx := Rx_none\<rparr>)"

section \<open>Messages of the application core\<close>

definition DB_IPC_CMD_BLE_DATA_TO_APK :: u16 where "DB_IPC_CMD_BLE_DATA_TO_APK = 1"
definition DB_IPC_CMD_KEEPALIVESTART :: u16 where "DB_IPC_CMD_KEEPALIVESTART = 2"
definition DB_IPC_CMD_KEEPALIVESTOP :: u16 where "DB_IPC_CMD_KEEPALIVESTOP = 3"
definition DB_IPC_CMD_GET_WAKEUP_ENV_ADDR :: u16 where "DB_IPC_CMD_GET_WAKEUP_ENV_ADDR = 4"

lemmas ipc_cmd_defs = DB_IPC_CMD_BLE_DATA_TO_APK_def DB_IPC_CMD_KEEPALIVESTART_def
  DB_IPC_CMD_KEEPALIVESTOP_def DB_IPC_CMD_GET_WAKEUP_ENV_ADDR_def

text \<open>
  The configuration as it lies in memory: \<^verbatim>\<open>infotype\<close> at 0, \<^verbatim>\<open>server\<close> at 1, \<^verbatim>\<open>port\<close> at 34 (aligned to
  2), \<^verbatim>\<open>devId\<close> at 36, \<^verbatim>\<open>idLen\<close> at 68, \<^verbatim>\<open>key\<close> at 69, \<^verbatim>\<open>keyLen\<close> at 133; 134 bytes. Both sides are
  built by the same compiler for the same target. Only the server and the port are used.
\<close>

definition CFG_SIZE :: nat where "CFG_SIZE = 134"

definition read_cfg :: "u8 list \<Rightarrow> db_ipc_keepalive_cfg_t" where
  "read_cfg bs = \<lparr>cfg_server = take 32 (drop 1 bs), cfg_port = get16 bs 34\<rparr>"

definition cfg_bytes :: "db_ipc_keepalive_cfg_t \<Rightarrow> u8 list" where
  "cfg_bytes c = [0] @ cfg_server c @ replicate (32 - length (cfg_server c)) 0 @ [0] @
     le16 (cfg_port c) @ replicate 98 0"

record ipc_msg =
  cmd_id :: u16
  ipc_payload :: "u8 list"

record ipc_answer =
  an_init :: init_answer
  an_thread :: bool
  an_malloc :: bool
  an_confirm :: int

text \<open>
  \<open>controller_only\<close> is \<^verbatim>\<open>CONFIG_BTDM_CONTROLLER_ONLY\<close> and \<open>addr\<close> the address of
  \<^verbatim>\<open>pl_wakeup_env\<close>. A message too short for the configuration the code reads from it is outside
  the model.
\<close>

definition db_ipc_msg_handler ::
    "ka_sdk \<Rightarrow> bool \<Rightarrow> u32 \<Rightarrow> ipc_answer \<Rightarrow> ipc_msg option \<Rightarrow> ka_state \<Rightarrow> (int \<times> ka_state) option" where
  "db_ipc_msg_handler sdk controller_only addr an msg st =
     (case msg of
        None \<Rightarrow> Some (-1, st)
      | Some m \<Rightarrow>
          let confirm = (\<lambda>bs st. Some (an_confirm an, cp_emit [Cif_confirm bs] st)) in
          if cmd_id m = DB_IPC_CMD_BLE_DATA_TO_APK \<and> \<not> controller_only
          then confirm [] (if an_malloc an then cp_emit [Core_message (ipc_payload m)] st else st)
          else if cmd_id m = DB_IPC_CMD_KEEPALIVESTART then
            if length (ipc_payload m) < CFG_SIZE then None
            else
              let (ret, st) = db_keepalive_cp_init sdk (an_init an) (Some (read_cfg (ipc_payload m))) st in
              if ret = BK_OK
              then Option.bind (db_keepalive_cp_start (an_thread an) st) (\<lambda>(_, st). confirm [] st)
              else confirm [] st
          else if cmd_id m = DB_IPC_CMD_KEEPALIVESTOP
          then confirm [] (snd (db_keepalive_cp_stop sdk st))
          else if cmd_id m = DB_IPC_CMD_GET_WAKEUP_ENV_ADDR then confirm (le32 addr) st
          else confirm [] st)"

section \<open>Steps\<close>

datatype ka_act =
    Ipc ipc_answer "ipc_msg option"
  | Tx_connect "nat \<Rightarrow> conn_answer" int
  | Tx_create_rx bool int
  | Tx_sleep bool bool u64 bool
  | Tx_next
  | Tx_get bool
  | Tx_beat u64 bool
  | Tx_end
  | Rx_next
  | Rx_get "recv_answer list" u64 bool
  | Rx_end
  | Timer_fires
  | Alarm_fires

text \<open>
  One action. \<open>Tx_get True\<close> takes the token of the semaphore the thread waits on;
  \<open>Tx_get False\<close> is a failed wait. A start message beside a running thread is excluded: see
  \<open>ka_do\<close>'s first case and \<open>restart_loses_blocks\<close>.
\<close>

fun ka_do :: "ka_sdk \<Rightarrow> bool \<Rightarrow> u32 \<Rightarrow> ka_act \<Rightarrow> ka_state \<Rightarrow> ka_state option" where
  "ka_do sdk co addr (Ipc an msg) st =
     (if (\<exists>m. msg = Some m \<and> cmd_id m = DB_IPC_CMD_KEEPALIVESTART) \<and>
         \<not> keepalive_ongoing (s_keepalive_env st) \<and> (ka_tx st \<noteq> Tx_none \<or> ka_rx st \<noteq> Rx_none)
      then None else map_option snd (db_ipc_msg_handler sdk co addr an msg st))"
| "ka_do sdk co addr (Tx_connect ans r) st = (if ka_tx st = Tx_start then Some (tx_start sdk ans r st) else None)"
| "ka_do sdk co addr (Tx_create_rx ok r) st = (if ka_tx st = Tx_init_rx then Some (tx_init_rx sdk ok r st) else None)"
| "ka_do sdk co addr (Tx_sleep io so ms sent) st = (if ka_tx st = Tx_run then tx_run sdk io so ms sent st else None)"
| "ka_do sdk co addr Tx_next st = (if ka_tx st = Tx_loop then tx_loop st else None)"
| "ka_do sdk co addr (Tx_get ok) st =
     (case ka_tx st of
        Tx_wait s \<Rightarrow>
          if \<not> ok then Some (st\<lparr>ka_tx := Tx_woken False\<rparr>)
          else if s \<in> tokens st then Some (st\<lparr>tokens := tokens st - {s}, ka_tx := Tx_woken True\<rparr>)
          else None
      | _ \<Rightarrow> None)"
| "ka_do sdk co addr (Tx_beat ms sent) st =
     (case ka_tx st of Tx_woken got \<Rightarrow> tx_woken sdk got ms sent st | _ \<Rightarrow> None)"
| "ka_do sdk co addr Tx_end st =
     (if ka_tx st = Tx_exit then Some ((snd (db_keepalive_cp_deinit sdk st))\<lparr>ka_tx := Tx_none\<rparr>) else None)"
| "ka_do sdk co addr Rx_next st = (if ka_rx st = Rx_loop then Some (rx_loop st) else None)"
| "ka_do sdk co addr (Rx_get as ms sent) st =
     (case ka_rx st of Rx_recv n b \<Rightarrow> rx_recv sdk as ms sent b st | _ \<Rightarrow> None)"
| "ka_do sdk co addr Rx_end st = (if ka_rx st = Rx_exit then Some (rx_exit st) else None)"
| "ka_do sdk co addr Timer_fires st =
     (if timer (s_keepalive_env st) then Some (db_keepalive_timer_handler st) else None)"
| "ka_do sdk co addr Alarm_fires st =
     (if alarm st = None then None else Some (db_keepalive_rtc_timer_handler st))"

fun ka_run :: "ka_sdk \<Rightarrow> bool \<Rightarrow> u32 \<Rightarrow> ka_act list \<Rightarrow> ka_state \<Rightarrow> ka_state option" where
  "ka_run sdk co addr [] st = Some st"
| "ka_run sdk co addr (a # as) st = Option.bind (ka_do sdk co addr a st) (ka_run sdk co addr as)"

text \<open>The state at power-on.\<close>

definition ka_boot :: ka_state where
  "ka_boot = \<lparr>wakeup_reason = 0, cp_log = [], s_keepalive_env = zero_env,
     ka_pack = \<lparr>s_db_pack_chan = None, pk_mem = []\<rparr>, s_bind_seed = 0, ka_tx = Tx_none, ka_rx = Rx_none,
     live = {}, next_block = 0, tokens = {}, open_socks = {}, alarm = None\<rparr>"

end
