(* ===== verification/Ap_Platform.thy ===== *)
theory Ap_Platform
  imports Keepalive_CP
begin

text \<open>
  The application core (AP): the state its modules share, the message queue of
  \<^verbatim>\<open>components/smart_lock/src/doorbell_core.c\<close> and the flash records of
  \<^verbatim>\<open>components/smart_lock/src/doorbell_network.c\<close>.

  The static variables of the modules are one record. What they ask of the SDK, the network
  transfer library and the devices is a list of \<open>ap_event\<close>s, oldest first. Easy-flash is a
  record with one optional value for each key the code uses; \<open>fl_writable\<close> says whether
  writes succeed.
\<close>

section \<open>Messages\<close>

text \<open>\<^verbatim>\<open>dbevt_t\<close> of \<^verbatim>\<open>doorbell_comm.h\<close>, in order.\<close>

definition DBEVT_WIFI_STATION_CONNECT :: u32 where "DBEVT_WIFI_STATION_CONNECT = 0"
definition DBEVT_WIFI_STATION_CONNECTED :: u32 where "DBEVT_WIFI_STATION_CONNECTED = 1"
definition DBEVT_WIFI_STATION_DISCONNECTED :: u32 where "DBEVT_WIFI_STATION_DISCONNECTED = 2"
definition DBEVT_P2P_CS2_SERVICE_START_REQUEST :: u32 where "DBEVT_P2P_CS2_SERVICE_START_REQUEST = 3"
definition DBEVT_P2P_CS2_SERVICE_START_RESPONSE :: u32 where "DBEVT_P2P_CS2_SERVICE_START_RESPONSE = 4"
definition DBEVT_LAN_UDP_SERVICE_START_REQUEST :: u32 where "DBEVT_LAN_UDP_SERVICE_START_REQUEST = 5"
definition DBEVT_LAN_UDP_SERVICE_START_RESPONSE :: u32 where "DBEVT_LAN_UDP_SERVICE_START_RESPONSE = 6"
definition DBEVT_LAN_TCP_SERVICE_START_REQUEST :: u32 where "DBEVT_LAN_TCP_SERVICE_START_REQUEST = 7"
definition DBEVT_LAN_TCP_SERVICE_START_RESPONSE :: u32 where "DBEVT_LAN_TCP_SERVICE_START_RESPONSE = 8"
definition DBEVT_WIFI_SOFT_AP_TURNING_ON :: u32 where "DBEVT_WIFI_SOFT_AP_TURNING_ON = 9"
definition DBEVT_REMOTE_DEVICE_CONNECTED :: u32 where "DBEVT_REMOTE_DEVICE_CONNECTED = 10"
definition DBEVT_REMOTE_DEVICE_DISCONNECTED :: u32 where "DBEVT_REMOTE_DEVICE_DISCONNECTED = 11"
definition DBEVT_START_BOARDING_EVENT :: u32 where "DBEVT_START_BOARDING_EVENT = 14"
definition DBEVT_BLE_DISABLE :: u32 where "DBEVT_BLE_DISABLE = 15"
definition DBEVT_EXIT :: u32 where "DBEVT_EXIT = 17"
definition DBEVT_IMAGE_TCP_SERVICE_DISCONNECTED :: u32 where "DBEVT_IMAGE_TCP_SERVICE_DISCONNECTED = 18"
definition DBEVT_SET_SERVER_NET_INFO :: u32 where "DBEVT_SET_SERVER_NET_INFO = 20"
definition DBEVT_LAN_TCP_SERVICE_STOP :: u32 where "DBEVT_LAN_TCP_SERVICE_STOP = 21"
definition DBEVT_LAN_UDP_SERVICE_STOP :: u32 where "DBEVT_LAN_UDP_SERVICE_STOP = 22"

lemmas dbevt_defs = DBEVT_WIFI_STATION_CONNECT_def DBEVT_WIFI_STATION_CONNECTED_def
  DBEVT_WIFI_STATION_DISCONNECTED_def DBEVT_P2P_CS2_SERVICE_START_REQUEST_def
  DBEVT_P2P_CS2_SERVICE_START_RESPONSE_def DBEVT_LAN_UDP_SERVICE_START_REQUEST_def
  DBEVT_LAN_UDP_SERVICE_START_RESPONSE_def DBEVT_LAN_TCP_SERVICE_START_REQUEST_def
  DBEVT_LAN_TCP_SERVICE_START_RESPONSE_def DBEVT_WIFI_SOFT_AP_TURNING_ON_def
  DBEVT_REMOTE_DEVICE_CONNECTED_def DBEVT_REMOTE_DEVICE_DISCONNECTED_def DBEVT_START_BOARDING_EVENT_def
  DBEVT_BLE_DISABLE_def DBEVT_EXIT_def DBEVT_IMAGE_TCP_SERVICE_DISCONNECTED_def
  DBEVT_SET_SERVER_NET_INFO_def DBEVT_LAN_TCP_SERVICE_STOP_def DBEVT_LAN_UDP_SERVICE_STOP_def

definition DOORBELL_SERVICE_NONE :: u8 where "DOORBELL_SERVICE_NONE = 0"
definition DOORBELL_SERVICE_P2P_CS2 :: u8 where "DOORBELL_SERVICE_P2P_CS2 = 1"
definition DOORBELL_SERVICE_LAN_UDP :: u8 where "DOORBELL_SERVICE_LAN_UDP = 2"
definition DOORBELL_SERVICE_LAN_TCP :: u8 where "DOORBELL_SERVICE_LAN_TCP = 3"

lemmas service_defs = DOORBELL_SERVICE_NONE_def DOORBELL_SERVICE_P2P_CS2_def
  DOORBELL_SERVICE_LAN_UDP_def DOORBELL_SERVICE_LAN_TCP_def

record doorbell_msg_t =
  msg_event :: u32
  msg_param :: u32

section \<open>Events\<close>

record camera_parameters_t =
  cam_id :: u16
  cam_width :: u16
  cam_height :: u16
  cam_format :: u16
  cam_protocol :: u16
  cam_rotate :: u16

record audio_parameters_t =
  aud_aec :: u8
  aud_uac :: u8
  aud_recorder_rate :: u32
  aud_player_rate :: u32
  aud_recoder_fmt :: u8
  aud_player_fmt :: u8

record display_parameters_t =
  lcd_id :: u16
  lcd_rotate_angle :: u16
  lcd_pixel_format :: u8

record server_net_info =
  ip_addr :: "u8 list"
  cmd_port :: "u8 list"
  video_port :: "u8 list"
  audio_port :: "u8 list"

datatype service_kind = Tcp_service | Udp_service | Cs2_service

datatype chan_type_t = Chan_ctrl | Chan_video | Chan_audio

datatype ap_event =
    Ctrl_send "u8 list"
  | Sdp_start service_kind
  | Sdp_reload nat
  | Sdp_stop
  | Boarding_notify u16 int
  | Boarding_notify_data u16 int "u8 list"
  | Net_info_set server_net_info
  | Trans_service_init service_kind
  | Trans_service_deinit service_kind
  | Trans_chan_start chan_type_t
  | Trans_chan_stop chan_type_t
  | Wifi_start "u8 list" "u8 list"
  | Bluetooth_deinit
  | Camera_on camera_parameters_t
  | Camera_off
  | Video_transfer_on
  | Video_transfer_off
  | Audio_on audio_parameters_t
  | Audio_off
  | Audio_acoustics u32 u32
  | Display_on display_parameters_t
  | Display_off
  | Device_query u32
  | Timer_init u32
  | Timer_start
  | Timer_stop
  | Timer_gone
  | Ipc_start "u8 list"
  | Ipc_stop "u8 list"

section \<open>State\<close>

text \<open>The command server's \<^verbatim>\<open>db_cmd_info_t\<close>: the heartbeat timer and its interval.\<close>

record db_cmd_info_t =
  ci_timer :: bool
  intval_ms :: u32

record flash =
  fl_wifi :: "(u8 list \<times> u8 list) option"
  fl_service :: "u8 option"
  fl_interval :: "u32 option"
  fl_net :: "server_net_info option"
  fl_writable :: bool

record ap_state =
  db_info :: bool
  db_enabled :: bool
  db_thd :: bool
  db_service :: u8
  db_queue :: "doorbell_msg_t list option"
  ap_flash :: flash
  db_cmd_info :: "db_cmd_info_t option"
  mm_service_status :: u32
  chan_connected_mask :: u8
  s_timer_started :: bool
  s_mm_status_check_interval_ms :: u32
  s_interval_loaded_from_flash :: bool
  s_last_update_timestamp :: u64
  s_pending_keepalive_after_service_stop :: bool
  s_pending_wakeup_cmd :: u32
  ap_log :: "ap_event list"

definition ap_emit :: "ap_event list \<Rightarrow> ap_state \<Rightarrow> ap_state" where
  "ap_emit es st = st\<lparr>ap_log := ap_log st @ es\<rparr>"

text \<open>
  The build: \<^verbatim>\<open>CONFIG_NTWK_CLIENT_SERVICE_ENABLE\<close>, \<^verbatim>\<open>CONFIG_BLUETOOTH_AP\<close>,
  \<^verbatim>\<open>CONFIG_INTEGRATION_DOORBELL_CS2\<close>, and whether the low-power keep-alive is linked in (else the
  weak stubs are used). The numbers of the channels and \<^verbatim>\<open>ENOTCONN\<close> are the SDK's.
\<close>

record ap_config =
  client_service :: bool
  bluetooth_ap :: bool
  cs2 :: bool
  low_power :: bool
  chan_no :: "chan_type_t \<Rightarrow> nat"
  ENOTCONN :: int

section \<open>The message queue\<close>

text \<open>
  The queue holds ten messages; \<^verbatim>\<open>rtos_push_to_queue\<close> without waiting fails when it is full.
  With no queue the message is dropped and \<open>BK_OK\<close> returned.
\<close>

definition QUEUE_SIZE :: nat where "QUEUE_SIZE = 10"

definition doorbell_send_msg :: "doorbell_msg_t \<Rightarrow> ap_state \<Rightarrow> bk_err_t \<times> ap_state" where
  "doorbell_send_msg m st =
     (case db_queue st of
        None \<Rightarrow> (BK_OK, st)
      | Some q \<Rightarrow> if length q < QUEUE_SIZE then (BK_OK, st\<lparr>db_queue := Some (q @ [m])\<rparr>) else (BK_FAIL, st))"

section \<open>Flash\<close>

definition fl_set :: "(flash \<Rightarrow> flash) \<Rightarrow> ap_state \<Rightarrow> bk_err_t \<times> ap_state" where
  "fl_set f st =
     (if fl_writable (ap_flash st) then (BK_OK, st\<lparr>ap_flash := f (ap_flash st)\<rparr>) else (BK_FAIL, st))"

definition doorbell_save_ntwk_service_info_to_flash :: "u8 option \<Rightarrow> ap_state \<Rightarrow> bk_err_t \<times> ap_state" where
  "doorbell_save_ntwk_service_info_to_flash info st =
     (case info of None \<Rightarrow> (BK_FAIL, st) | Some s \<Rightarrow> fl_set (fl_service_update (\<lambda>_. Some s)) st)"

definition doorbell_get_ntwk_service_info_from_flash :: "ap_state \<Rightarrow> bk_err_t \<times> u8" where
  "doorbell_get_ntwk_service_info_from_flash st =
     (case fl_service (ap_flash st) of None \<Rightarrow> (BK_FAIL, 0) | Some s \<Rightarrow> (BK_OK, s))"

definition doorbell_del_ntwk_service_info_from_flash :: "ap_state \<Rightarrow> bk_err_t \<times> ap_state" where
  "doorbell_del_ntwk_service_info_from_flash = fl_set (fl_service_update (\<lambda>_. None))"

definition doorbell_save_keepalive_interval_to_flash :: "u32 \<Rightarrow> ap_state \<Rightarrow> bk_err_t \<times> ap_state" where
  "doorbell_save_keepalive_interval_to_flash ms = fl_set (fl_interval_update (\<lambda>_. Some ms))"

definition doorbell_get_keepalive_interval_from_flash :: "ap_state \<Rightarrow> bk_err_t \<times> u32" where
  "doorbell_get_keepalive_interval_from_flash st =
     (case fl_interval (ap_flash st) of None \<Rightarrow> (BK_FAIL, 0) | Some ms \<Rightarrow> (BK_OK, ms))"

definition doorbell_del_keepalive_interval_from_flash :: "ap_state \<Rightarrow> bk_err_t \<times> ap_state" where
  "doorbell_del_keepalive_interval_from_flash = fl_set (fl_interval_update (\<lambda>_. None))"

definition doorbell_save_server_net_info_to_flash ::
    "bool \<Rightarrow> server_net_info option \<Rightarrow> ap_state \<Rightarrow> bk_err_t \<times> ap_state" where
  "doorbell_save_server_net_info_to_flash set_ok info st =
     (case info of
        None \<Rightarrow> (BK_FAIL, st)
      | Some i \<Rightarrow>
          let (ret, st) = fl_set (fl_net_update (\<lambda>_. Some i)) st in
          if ret \<noteq> BK_OK then (BK_FAIL, st)
          else (if set_ok then BK_OK else BK_FAIL, ap_emit [Net_info_set i] st))"

definition doorbell_get_server_net_info_from_flash :: "ap_state \<Rightarrow> bk_err_t \<times> server_net_info" where
  "doorbell_get_server_net_info_from_flash st =
     (case fl_net (ap_flash st) of
        None \<Rightarrow> (BK_FAIL, \<lparr>ip_addr = [], cmd_port = [], video_port = [], audio_port = []\<rparr>)
      | Some i \<Rightarrow> (BK_OK, i))"

definition doorbell_del_server_net_info_from_flash :: "ap_state \<Rightarrow> bk_err_t \<times> ap_state" where
  "doorbell_del_server_net_info_from_flash = fl_set (fl_net_update (\<lambda>_. None))"

text \<open>
  \<^verbatim>\<open>doorbell_save_wifi_info_to_flash\<close>: the SSID and the password are cut to 32 and 64 bytes; the
  result of the write is not looked at. \<open>None\<close> is a missing pointer.
\<close>

definition doorbell_save_wifi_info_to_flash ::
    "(u8 list \<times> u8 list) option \<Rightarrow> ap_state \<Rightarrow> bk_err_t \<times> ap_state" where
  "doorbell_save_wifi_info_to_flash info st =
     (case info of
        None \<Rightarrow> (BK_FAIL, st)
      | Some (ssid, pwd) \<Rightarrow>
          (BK_OK, snd (fl_set (fl_wifi_update (\<lambda>_. Some (take 32 ssid, take 64 pwd))) st)))"

text \<open>
  \<^verbatim>\<open>doorbell_get_wifi_info_from_flash\<close> answers the number of bytes read, \<open>n\<close>, where the other functions
  answer \<^verbatim>\<open>BK_OK\<close>; nothing calls it. \<open>Inl\<close> is an error.
\<close>

definition doorbell_get_wifi_info_from_flash :: "nat \<Rightarrow> ap_state \<Rightarrow> bk_err_t + nat \<times> u8 list \<times> u8 list" where
  "doorbell_get_wifi_info_from_flash n st =
     (case fl_wifi (ap_flash st) of None \<Rightarrow> Inl BK_FAIL | Some (ssid, pwd) \<Rightarrow> Inr (n, ssid, pwd))"

lemma wifi_info_back:
  assumes "fl_writable (ap_flash st)" and "length ssid \<le> 32" and "length pwd \<le> 64"
  shows "doorbell_get_wifi_info_from_flash n (snd (doorbell_save_wifi_info_to_flash (Some (ssid, pwd)) st)) =
    Inr (n, ssid, pwd)"
  using assms by (simp add: doorbell_get_wifi_info_from_flash_def doorbell_save_wifi_info_to_flash_def fl_set_def Let_def)

definition doorbell_del_wifi_info_from_flash :: "ap_state \<Rightarrow> bk_err_t \<times> ap_state" where
  "doorbell_del_wifi_info_from_flash = fl_set (fl_wifi_update (\<lambda>_. None))"

definition doorbell_del_all_info_from_flash :: "ap_config \<Rightarrow> ap_state \<Rightarrow> bk_err_t \<times> ap_state" where
  "doorbell_del_all_info_from_flash cfg st =
     (let (ret, st) = doorbell_del_wifi_info_from_flash st in
      if ret \<noteq> BK_OK then (BK_FAIL, st)
      else let (ret, st) = doorbell_del_ntwk_service_info_from_flash st in
        if ret \<noteq> BK_OK then (BK_FAIL, st)
        else let (ret, st) = doorbell_del_keepalive_interval_from_flash st in
          if ret \<noteq> BK_OK then (BK_FAIL, st)
          else if client_service cfg then
            let (ret, st) = doorbell_del_server_net_info_from_flash st in
            if ret \<noteq> BK_OK then (BK_FAIL, st) else (BK_OK, st)
          else (BK_OK, st))"

section \<open>Stations\<close>

text \<open>
  \<^verbatim>\<open>doorbell_wifi_sta_connect\<close>: both tests are on the key's length; the SSID is copied as it is.
\<close>

definition doorbell_wifi_sta_connect :: "u8 list \<Rightarrow> u8 list \<Rightarrow> ap_state \<Rightarrow> bk_err_t \<times> ap_state" where
  "doorbell_wifi_sta_connect ssid key st =
     (if 32 < length key then (BK_FAIL, st)
      else if 64 < length key then (BK_FAIL, st)
      else (BK_OK, ap_emit [Wifi_start ssid key] st))"

text \<open>The access point is not adapted: its code is compiled out, and nothing calls it.\<close>

definition doorbell_wifi_soft_ap_start :: "u8 list \<Rightarrow> u8 list \<Rightarrow> u16 \<Rightarrow> bk_err_t" where
  "doorbell_wifi_soft_ap_start ssid key channel = BK_FAIL"

text \<open>\<^verbatim>\<open>doorbell_wifi_event_cb\<close>: which link states become messages.\<close>

datatype wifi_linkstate = Sta_got_ip u32 | Sta_disconnected u32 | Other_state u32

definition doorbell_wifi_event_cb :: "wifi_linkstate \<Rightarrow> ap_state \<Rightarrow> ap_state" where
  "doorbell_wifi_event_cb s st =
     (case s of
        Sta_got_ip p \<Rightarrow> snd (doorbell_send_msg \<lparr>msg_event = DBEVT_WIFI_STATION_CONNECTED, msg_param = p\<rparr> st)
      | Sta_disconnected p \<Rightarrow> snd (doorbell_send_msg \<lparr>msg_event = DBEVT_WIFI_STATION_DISCONNECTED, msg_param = p\<rparr> st)
      | Other_state p \<Rightarrow> st)"

end
