(* ===== verification/Ap_Commands.thy ===== *)
theory Ap_Commands
  imports Ap_Platform
begin

text \<open>
  The command server of the application core,
  \<^verbatim>\<open>components/smart_lock/src/doorbell_cmd.c\<close>: commands from the remote app are decoded,
  carried out and answered with an event on the control channel; the votes for the multimedia
  services are kept in a bit map.

  What the devices and timers return is an argument (\<open>dev_answer\<close>). The parameters are read
  from the payload without looking at its length; a read beyond the bytes received is
  undefined in C, and the operation is \<open>None\<close> then.
\<close>

section \<open>Votes\<close>

definition MM_STATUS_CAMERA_BIT :: nat where "MM_STATUS_CAMERA_BIT = 0"
definition MM_STATUS_AUDIO_BIT :: nat where "MM_STATUS_AUDIO_BIT = 1"
definition MM_STATUS_LCD_BIT :: nat where "MM_STATUS_LCD_BIT = 2"
definition MM_STATUS_CAMERA_MASK :: u32 where "MM_STATUS_CAMERA_MASK = push_bit MM_STATUS_CAMERA_BIT 1"
definition MM_STATUS_AUDIO_MASK :: u32 where "MM_STATUS_AUDIO_MASK = push_bit MM_STATUS_AUDIO_BIT 1"
definition MM_STATUS_LCD_MASK :: u32 where "MM_STATUS_LCD_MASK = push_bit MM_STATUS_LCD_BIT 1"

lemmas mm_defs = MM_STATUS_CAMERA_BIT_def MM_STATUS_AUDIO_BIT_def MM_STATUS_LCD_BIT_def
  MM_STATUS_CAMERA_MASK_def MM_STATUS_AUDIO_MASK_def MM_STATUS_LCD_MASK_def

definition mm_mask :: "nat \<Rightarrow> u32 option" where
  "mm_mask b =
     (if b = MM_STATUS_CAMERA_BIT then Some MM_STATUS_CAMERA_MASK
      else if b = MM_STATUS_AUDIO_BIT then Some MM_STATUS_AUDIO_MASK
      else if b = MM_STATUS_LCD_BIT then Some MM_STATUS_LCD_MASK else None)"

definition doorbell_mm_service_vote :: "nat \<Rightarrow> bool \<Rightarrow> ap_state \<Rightarrow> u32 \<times> ap_state" where
  "doorbell_mm_service_vote service_bit vote_add st =
     (case mm_mask service_bit of
        None \<Rightarrow> (mm_service_status st, st)
      | Some bit_mask \<Rightarrow>
          let s = (if vote_add then mm_service_status st OR bit_mask
                   else mm_service_status st AND NOT bit_mask)
          in (s, st\<lparr>mm_service_status := s\<rparr>))"

definition doorbell_mm_service_get_status :: "ap_state \<Rightarrow> u32" where
  "doorbell_mm_service_get_status st = mm_service_status st"

section \<open>Answers\<close>

definition EVT_STATUS_ERROR :: u8 where "EVT_STATUS_ERROR = 1"
definition DBNOTIFY_HEARTBEAT :: u32 where "DBNOTIFY_HEARTBEAT = 1 OR push_bit 24 0xFF"

definition ap_event_report :: "u32 \<Rightarrow> u8 \<Rightarrow> u16 \<Rightarrow> ap_state \<Rightarrow> ap_state" where
  "ap_event_report opcode status flags =
     ap_emit [Ctrl_send (evt_bytes \<lparr>evt_opcode = opcode, evt_status = status, evt_flags = flags, evt_length = 0\<rparr>)]"

definition doorbell_keep_alive_timer_handler :: "ap_state \<Rightarrow> ap_state" where
  "doorbell_keep_alive_timer_handler = ap_event_report DBNOTIFY_HEARTBEAT EVT_STATUS_OK EVT_FLAGS_COMPLETE"

section \<open>The heartbeat timer\<close>

record dev_answer =
  dv_malloc :: bool
  dv_timer_init :: bool
  dv_timer_start :: bool
  dv_timer_stop :: bool
  dv_timer_deinit :: bool
  dv_camera_on :: int
  dv_camera_off :: int
  dv_audio_on :: int
  dv_audio_off :: int
  dv_acoustics :: int
  dv_display_on :: int
  dv_display_off :: int
  dv_time :: u64
  dv_garbage :: u32

definition start_new_timer :: "dev_answer \<Rightarrow> db_cmd_info_t \<Rightarrow> u32 \<Rightarrow> ap_state \<Rightarrow> bk_err_t \<times> ap_state" where
  "start_new_timer an ci time_ms st =
     (if \<not> dv_timer_init an then (BK_FAIL, st\<lparr>db_cmd_info := Some ci\<rparr>)
      else
        let st = ap_emit [Timer_init time_ms] (st\<lparr>db_cmd_info := Some \<lparr>ci_timer = True, intval_ms = time_ms\<rparr>\<rparr>) in
        if \<not> dv_timer_start an then (BK_FAIL, st) else (BK_OK, ap_emit [Timer_start] st))"

definition doorbell_keep_alive_start_timer :: "dev_answer \<Rightarrow> u32 \<Rightarrow> ap_state \<Rightarrow> bk_err_t \<times> ap_state" where
  "doorbell_keep_alive_start_timer an time_ms st =
     (case db_cmd_info st of
        None \<Rightarrow> (BK_FAIL, st)
      | Some ci \<Rightarrow>
          if intval_ms ci \<noteq> 0 then
            if intval_ms ci \<noteq> time_ms then
              if ci_timer ci then
                if \<not> dv_timer_deinit an then (BK_FAIL, st)
                else start_new_timer an (ci\<lparr>ci_timer := False\<rparr>) time_ms (ap_emit [Timer_gone] st)
              else start_new_timer an ci time_ms st
            else (BK_OK, st)
          else start_new_timer an ci time_ms st)"

definition doorbell_keep_alive_stop_timer :: "dev_answer \<Rightarrow> ap_state \<Rightarrow> bk_err_t \<times> ap_state" where
  "doorbell_keep_alive_stop_timer an st =
     (if db_cmd_info st = None then (BK_FAIL, st)
      else if \<not> dv_timer_stop an then (BK_FAIL, st) else (BK_OK, ap_emit [Timer_stop] st))"

definition doorbell_cmd_server_init :: "dev_answer \<Rightarrow> ap_state \<Rightarrow> bk_err_t \<times> ap_state" where
  "doorbell_cmd_server_init an st =
     (if db_cmd_info st \<noteq> None then (BK_FAIL, st)
      else if \<not> dv_malloc an then (BK_FAIL, st)
      else (BK_OK, st\<lparr>db_cmd_info := Some \<lparr>ci_timer = False, intval_ms = 0\<rparr>\<rparr>))"

definition doorbell_cmd_server_deinit :: "ap_state \<Rightarrow> bk_err_t \<times> ap_state" where
  "doorbell_cmd_server_deinit st =
     (if db_cmd_info st = None then (BK_FAIL, st) else (BK_OK, st\<lparr>db_cmd_info := None\<rparr>))"

definition db_keepalive_update_timestamp :: "ap_config \<Rightarrow> u64 \<Rightarrow> ap_state \<Rightarrow> ap_state" where
  "db_keepalive_update_timestamp cfg now st = (if low_power cfg then st\<lparr>s_last_update_timestamp := now\<rparr> else st)"

section \<open>Decoding\<close>

definition rd8 :: "u8 list \<Rightarrow> nat \<Rightarrow> u8 option" where
  "rd8 bs i = (if i < length bs then Some (bs ! i) else None)"

definition rd16 :: "u8 list \<Rightarrow> nat \<Rightarrow> u16 option" where
  "rd16 bs i = (if i + 2 \<le> length bs then Some (get16 bs i) else None)"

definition rd32 :: "u8 list \<Rightarrow> nat \<Rightarrow> u32 option" where
  "rd32 bs i = (if i + 4 \<le> length bs then Some (get32 bs i) else None)"

text \<open>\<^verbatim>\<open>strncmp(p, lit, strlen(lit)) == 0\<close> for a literal; \<open>None\<close> when it reads past the bytes.\<close>

fun strn_eq :: "u8 list \<Rightarrow> u8 list \<Rightarrow> bool option" where
  "strn_eq [] p = Some True"
| "strn_eq (c # cs) [] = None"
| "strn_eq (c # cs) (b # bs) = (if b = c then strn_eq cs bs else Some False)"

definition ascii :: "string \<Rightarrow> u8 list" where
  "ascii s = map (\<lambda>c. of_char c) s"

definition read_camera :: "u32 \<Rightarrow> u16 \<Rightarrow> u8 list \<Rightarrow> camera_parameters_t option" where
  "read_camera param len p = do {
     w \<leftarrow> rd16 p 0;
     h \<leftarrow> rd16 p 2;
     f \<leftarrow> rd16 p 4;
     pr \<leftarrow> rd16 p 6;
     r \<leftarrow> (if len > 8 then rd16 p 8 else Some (-1));
     Some \<lparr>cam_id = ucast (param AND 0xFFFF), cam_width = w, cam_height = h, cam_format = f,
       cam_protocol = pr, cam_rotate = r\<rparr>
   }"

definition read_audio :: "u8 list \<Rightarrow> audio_parameters_t option" where
  "read_audio p = do {
     aec \<leftarrow> rd8 p 0;
     uac \<leftarrow> rd8 p 1;
     rr \<leftarrow> rd32 p 2;
     pr \<leftarrow> rd32 p 6;
     rf \<leftarrow> rd8 p 10;
     pf \<leftarrow> rd8 p 11;
     Some \<lparr>aud_aec = aec, aud_uac = uac, aud_recorder_rate = rr, aud_player_rate = pr,
       aud_recoder_fmt = rf, aud_player_fmt = pf\<rparr>
   }"

definition read_display :: "u8 list \<Rightarrow> display_parameters_t option" where
  "read_display p = do {
     i \<leftarrow> rd16 p 0;
     a \<leftarrow> rd16 p 2;
     f \<leftarrow> rd16 p 4;
     Some \<lparr>lcd_id = i, lcd_rotate_angle = a, lcd_pixel_format = ucast f\<rparr>
   }"

section \<open>The dispatcher\<close>

definition DBCMD_SET_SERVICE_TYPE :: u32 where "DBCMD_SET_SERVICE_TYPE = 1"
definition DBCMD_SET_KEEP_ALIVE :: u32 where "DBCMD_SET_KEEP_ALIVE = 2"
definition DBCMD_GET_SUPPORTED_CAMERA_DEVICES :: u32 where "DBCMD_GET_SUPPORTED_CAMERA_DEVICES = 3"
definition DBCMD_GET_SUPPORTED_LCD_DEVICES :: u32 where "DBCMD_GET_SUPPORTED_LCD_DEVICES = 4"
definition DBCMD_SET_CAMERA_TURN_ON :: u32 where "DBCMD_SET_CAMERA_TURN_ON = 7"
definition DBCMD_SET_CAMERA_TURN_OFF :: u32 where "DBCMD_SET_CAMERA_TURN_OFF = 8"
definition DBCMD_GET_CAMERA_STATUS :: u32 where "DBCMD_GET_CAMERA_STATUS = 9"
definition DBCMD_SET_AUDIO_TURN_ON :: u32 where "DBCMD_SET_AUDIO_TURN_ON = 10"
definition DBCMD_SET_AUDIO_TURN_OFF :: u32 where "DBCMD_SET_AUDIO_TURN_OFF = 11"
definition DBCMD_GET_AUDIO_STATUS :: u32 where "DBCMD_GET_AUDIO_STATUS = 12"
definition DBCMD_SET_LCD_TURN_ON :: u32 where "DBCMD_SET_LCD_TURN_ON = 13"
definition DBCMD_SET_LCD_TURN_OFF :: u32 where "DBCMD_SET_LCD_TURN_OFF = 14"
definition DBCMD_GET_LCD_STATUS :: u32 where "DBCMD_GET_LCD_STATUS = 15"
definition DBCMD_SET_ACOUSTICS :: u32 where "DBCMD_SET_ACOUSTICS = 16"
definition DBCMD_PNG :: u32 where "DBCMD_PNG = 100"

lemmas ap_cmd_defs = DBCMD_SET_SERVICE_TYPE_def DBCMD_SET_KEEP_ALIVE_def
  DBCMD_GET_SUPPORTED_CAMERA_DEVICES_def DBCMD_GET_SUPPORTED_LCD_DEVICES_def DBCMD_SET_CAMERA_TURN_ON_def
  DBCMD_SET_CAMERA_TURN_OFF_def DBCMD_GET_CAMERA_STATUS_def DBCMD_SET_AUDIO_TURN_ON_def
  DBCMD_SET_AUDIO_TURN_OFF_def DBCMD_GET_AUDIO_STATUS_def DBCMD_SET_LCD_TURN_ON_def
  DBCMD_SET_LCD_TURN_OFF_def DBCMD_GET_LCD_STATUS_def DBCMD_SET_ACOUSTICS_def DBCMD_PNG_def
  DBCMD_WAKE_UP_REQUEST_def

text \<open>\<^verbatim>\<open>BK_OK\<close> as the devices return it, and the status byte of an answer: \<^verbatim>\<open>ret & 0xFF\<close>.\<close>

definition ret_ok :: "int \<Rightarrow> bool" where
  "ret_ok ret \<longleftrightarrow> ret = 0"

definition ret_status :: "int \<Rightarrow> u8" where
  "ret_status ret = ucast ((word_of_int ret :: u32) AND 0xFF)"

definition vote_if :: "bool \<Rightarrow> nat \<Rightarrow> bool \<Rightarrow> ap_state \<Rightarrow> ap_state" where
  "vote_if c b add st = (if c then snd (doorbell_mm_service_vote b add st) else st)"

text \<open>The cases of the \<^verbatim>\<open>switch\<close> that do more than one thing.\<close>

definition cmd_set_service_type :: "dev_answer \<Rightarrow> u32 \<Rightarrow> u8 list \<Rightarrow> ap_state \<Rightarrow> ap_state option" where
  "cmd_set_service_type an opcode p st = do {
     udp \<leftarrow> strn_eq (ascii ''doorbell-udp'') p;
     if udp then
       let st = snd (doorbell_send_msg \<lparr>msg_event = DBEVT_LAN_UDP_SERVICE_START_REQUEST, msg_param = dv_garbage an\<rparr> st)
       in Some (ap_event_report opcode EVT_STATUS_OK EVT_FLAGS_COMPLETE st)
     else do {
       tcp \<leftarrow> strn_eq (ascii ''doorbell-tcp'') p;
       if tcp then
         let st = snd (doorbell_send_msg \<lparr>msg_event = DBEVT_LAN_TCP_SERVICE_START_REQUEST, msg_param = dv_garbage an\<rparr> st)
         in Some (ap_event_report opcode EVT_STATUS_OK EVT_FLAGS_COMPLETE st)
       else Some (ap_event_report opcode EVT_STATUS_ERROR EVT_FLAGS_COMPLETE st)
     }
   }"

definition cmd_set_keep_alive :: "dev_answer \<Rightarrow> u32 \<Rightarrow> u32 \<Rightarrow> ap_state \<Rightarrow> ap_state" where
  "cmd_set_keep_alive an opcode param st =
     (let st = (if param \<noteq> 0
                then snd (doorbell_keep_alive_start_timer an param (snd (doorbell_cmd_server_init an st)))
                else snd (doorbell_cmd_server_deinit (snd (doorbell_keep_alive_stop_timer an st))))
      in ap_event_report opcode EVT_STATUS_OK EVT_FLAGS_COMPLETE st)"

definition cmd_camera_on :: "dev_answer \<Rightarrow> u32 \<Rightarrow> u32 \<Rightarrow> u16 \<Rightarrow> u8 list \<Rightarrow> ap_state \<Rightarrow> ap_state option" where
  "cmd_camera_on an opcode param len p st = do {
     parameters \<leftarrow> read_camera param len p;
     let st = ap_emit [Camera_on parameters, Video_transfer_on] st;
     let st = vote_if (ret_ok (dv_camera_on an)) MM_STATUS_CAMERA_BIT True st;
     Some (ap_event_report opcode (ret_status (dv_camera_on an)) EVT_FLAGS_COMPLETE st)
   }"

definition cmd_camera_off :: "dev_answer \<Rightarrow> u32 \<Rightarrow> ap_state \<Rightarrow> ap_state" where
  "cmd_camera_off an opcode st =
     (let st = ap_emit [Video_transfer_off, Camera_off] st;
          st = ap_event_report opcode (ret_status (dv_camera_off an)) EVT_FLAGS_COMPLETE st
      in vote_if (ret_ok (dv_camera_off an)) MM_STATUS_CAMERA_BIT False st)"

definition cmd_audio_on :: "dev_answer \<Rightarrow> u32 \<Rightarrow> u8 list \<Rightarrow> ap_state \<Rightarrow> ap_state option" where
  "cmd_audio_on an opcode p st = do {
     parameters \<leftarrow> read_audio p;
     let st = ap_emit [Audio_on parameters] st;
     let st = vote_if (ret_ok (dv_audio_on an)) MM_STATUS_AUDIO_BIT True st;
     Some (ap_event_report opcode (ret_status (dv_audio_on an)) EVT_FLAGS_COMPLETE st)
   }"

definition cmd_audio_off :: "dev_answer \<Rightarrow> u32 \<Rightarrow> ap_state \<Rightarrow> ap_state" where
  "cmd_audio_off an opcode st =
     (let st = ap_event_report opcode (ret_status (dv_audio_off an)) EVT_FLAGS_COMPLETE (ap_emit [Audio_off] st)
      in vote_if (ret_ok (dv_audio_off an)) MM_STATUS_AUDIO_BIT False st)"

definition cmd_display_on :: "dev_answer \<Rightarrow> u32 \<Rightarrow> u8 list \<Rightarrow> ap_state \<Rightarrow> ap_state option" where
  "cmd_display_on an opcode p st = do {
     parameters \<leftarrow> read_display p;
     let st = ap_emit [Display_on parameters] st;
     let st = vote_if (ret_ok (dv_display_on an)) MM_STATUS_LCD_BIT True st;
     Some (ap_event_report opcode (ret_status (dv_display_on an)) EVT_FLAGS_COMPLETE st)
   }"

definition cmd_display_off :: "dev_answer \<Rightarrow> u32 \<Rightarrow> ap_state \<Rightarrow> ap_state" where
  "cmd_display_off an opcode st =
     (let st = ap_event_report opcode (ret_status (dv_display_off an)) EVT_FLAGS_COMPLETE (ap_emit [Display_off] st)
      in vote_if (ret_ok (dv_display_off an)) MM_STATUS_LCD_BIT False st)"

definition cmd_acoustics :: "dev_answer \<Rightarrow> u32 \<Rightarrow> u32 \<Rightarrow> u8 list \<Rightarrow> ap_state \<Rightarrow> ap_state option" where
  "cmd_acoustics an opcode cparam p st = do {
     param \<leftarrow> rd32 p 0;
     Some (ap_event_report opcode (ret_status (dv_acoustics an)) EVT_FLAGS_COMPLETE
       (ap_emit [Audio_acoustics cparam param] st))
   }"

definition dispatch :: "dev_answer \<Rightarrow> db_cmd_head_t \<Rightarrow> u8 list \<Rightarrow> ap_state \<Rightarrow> ap_state option" where
  "dispatch an cmd p st =
     (let opc = cmd_opcode cmd in
      if opc = DBCMD_SET_SERVICE_TYPE then cmd_set_service_type an opc p st
      else if opc = DBCMD_SET_KEEP_ALIVE then Some (cmd_set_keep_alive an opc (cmd_param cmd) st)
      else if opc = DBCMD_GET_SUPPORTED_CAMERA_DEVICES then Some (ap_emit [Device_query opc] st)
      else if opc = DBCMD_SET_CAMERA_TURN_ON then cmd_camera_on an opc (cmd_param cmd) (cmd_length cmd) p st
      else if opc = DBCMD_SET_CAMERA_TURN_OFF then Some (cmd_camera_off an opc st)
      else if opc = DBCMD_GET_CAMERA_STATUS then Some st
      else if opc = DBCMD_SET_AUDIO_TURN_ON then cmd_audio_on an opc p st
      else if opc = DBCMD_SET_AUDIO_TURN_OFF then Some (cmd_audio_off an opc st)
      else if opc = DBCMD_GET_AUDIO_STATUS then Some st
      else if opc = DBCMD_SET_LCD_TURN_ON then cmd_display_on an opc p st
      else if opc = DBCMD_SET_LCD_TURN_OFF then Some (cmd_display_off an opc st)
      else if opc = DBCMD_GET_SUPPORTED_LCD_DEVICES then Some (ap_emit [Device_query opc] st)
      else if opc = DBCMD_GET_LCD_STATUS then Some (ap_emit [Device_query opc] st)
      else if opc = DBCMD_PNG then Some (ap_event_report opc EVT_STATUS_OK EVT_FLAGS_COMPLETE st)
      else if opc = DBCMD_SET_ACOUSTICS then cmd_acoustics an opc (cmd_param cmd) p st
      else if opc = DBCMD_WAKE_UP_REQUEST then Some (ap_event_report opc EVT_STATUS_OK EVT_FLAGS_COMPLETE st)
      else Some (ap_event_report opc EVT_STATUS_UNKNOWN EVT_FLAGS_COMPLETE st))"

text \<open>The length is a \<^verbatim>\<open>uint16_t\<close>.\<close>

definition doorbell_transmission_cmd_recive_callback ::
    "ap_config \<Rightarrow> dev_answer \<Rightarrow> u8 list \<Rightarrow> ap_state \<Rightarrow> ap_state option" where
  "doorbell_transmission_cmd_recive_callback cfg an data st =
     (if unat (of_nat (length data) :: u16) < CMD_HEAD_SIZE then Some st
      else dispatch an (read_cmd data) (drop CMD_HEAD_SIZE data)
        (db_keepalive_update_timestamp cfg (dv_time an) st))"

end
