(* ===== verification/Ap_Network.thy ===== *)
theory Ap_Network
  imports Ap_Commands
begin

text \<open>
  The adaptation of the network transfer library,
  \<^verbatim>\<open>components/smart_lock/src/doorbell_network_transfer.c\<close>: the events of the three
  channels become messages to the core; a remote device counts as connected when all three
  channels are.
\<close>

section \<open>The mask of connected channels\<close>

definition chan_bit :: "ap_config \<Rightarrow> chan_type_t \<Rightarrow> u8" where
  "chan_bit cfg c = push_bit (chan_no cfg c) 1"

definition ALL_CHAN_MASK :: "ap_config \<Rightarrow> u8" where
  "ALL_CHAN_MASK cfg = chan_bit cfg Chan_ctrl OR chan_bit cfg Chan_video OR chan_bit cfg Chan_audio"

definition reset_chan_connected_mask :: "ap_state \<Rightarrow> ap_state" where
  "reset_chan_connected_mask st = st\<lparr>chan_connected_mask := 0\<rparr>"

definition check_all_channels_connected :: "ap_config \<Rightarrow> ap_state \<Rightarrow> bool" where
  "check_all_channels_connected cfg st \<longleftrightarrow> chan_connected_mask st AND ALL_CHAN_MASK cfg = ALL_CHAN_MASK cfg"

definition set_chan_connected :: "ap_config \<Rightarrow> chan_type_t \<Rightarrow> ap_state \<Rightarrow> ap_state" where
  "set_chan_connected cfg c st = st\<lparr>chan_connected_mask := chan_connected_mask st OR chan_bit cfg c\<rparr>"

definition clear_chan_connected :: "ap_config \<Rightarrow> chan_type_t \<Rightarrow> ap_state \<Rightarrow> ap_state" where
  "clear_chan_connected cfg c st = st\<lparr>chan_connected_mask := chan_connected_mask st AND NOT (chan_bit cfg c)\<rparr>"

section \<open>Events\<close>

datatype db_ntwk_type_t = DB_NTWK_TYPE_NONE | DB_NTWK_TYPE_TCP | DB_NTWK_TYPE_UDP | DB_NTWK_TYPE_CS2

datatype trans_evt_code = EVT_START | EVT_CONNECTED | EVT_DISCONNECTED | EVT_STOP | EVT_OTHER

record ntwk_trans_event_t =
  ev_code :: trans_evt_code
  ev_chan :: chan_type_t
  ev_param :: int

text \<open>Each handler returns the message to send, 0 for none.\<close>

definition handle_start_event ::
    "ap_config \<Rightarrow> db_ntwk_type_t \<Rightarrow> chan_type_t \<Rightarrow> int \<Rightarrow> ap_state \<Rightarrow> u32 \<times> ap_state" where
  "handle_start_event cfg ty c param st =
     (let st = (if client_service cfg \<and> c = Chan_ctrl then reset_chan_connected_mask st else st) in
      (case c of
         Chan_ctrl \<Rightarrow> (if ty = DB_NTWK_TYPE_CS2 then DBEVT_P2P_CS2_SERVICE_START_RESPONSE else 0)
       | Chan_video \<Rightarrow>
           (if ty = DB_NTWK_TYPE_TCP then DBEVT_LAN_TCP_SERVICE_START_RESPONSE
            else if ty = DB_NTWK_TYPE_UDP then DBEVT_LAN_UDP_SERVICE_START_RESPONSE else 0)
       | Chan_audio \<Rightarrow> 0, st))"

definition handle_connected_event ::
    "ap_config \<Rightarrow> db_ntwk_type_t \<Rightarrow> chan_type_t \<Rightarrow> int \<Rightarrow> ap_state \<Rightarrow> u32 \<times> ap_state" where
  "handle_connected_event cfg ty c param st =
     (if \<not> client_service cfg then
        (if c = Chan_ctrl \<and> (ty = DB_NTWK_TYPE_TCP \<or> ty = DB_NTWK_TYPE_UDP)
         then DBEVT_REMOTE_DEVICE_CONNECTED else 0, st)
      else
        let st = set_chan_connected cfg c st in
        (if check_all_channels_connected cfg st \<and> ty \<noteq> DB_NTWK_TYPE_NONE
         then DBEVT_REMOTE_DEVICE_CONNECTED else 0, st))"

definition handle_disconnected_event ::
    "ap_config \<Rightarrow> db_ntwk_type_t \<Rightarrow> chan_type_t \<Rightarrow> int \<Rightarrow> ap_state \<Rightarrow> u32 \<times> ap_state" where
  "handle_disconnected_event cfg ty c param st =
     (let st = (if client_service cfg then clear_chan_connected cfg c st else st) in
      (case c of
         Chan_ctrl \<Rightarrow> (if ty \<noteq> DB_NTWK_TYPE_NONE then DBEVT_REMOTE_DEVICE_DISCONNECTED else 0)
       | Chan_video \<Rightarrow>
           (if ty = DB_NTWK_TYPE_TCP then
              (if param = ENOTCONN cfg then DBEVT_IMAGE_TCP_SERVICE_DISCONNECTED else DBEVT_REMOTE_DEVICE_DISCONNECTED)
            else if ty = DB_NTWK_TYPE_UDP then
              (if param \<noteq> ENOTCONN cfg then DBEVT_REMOTE_DEVICE_DISCONNECTED else 0)
            else 0)
       | Chan_audio \<Rightarrow>
           (if ty = DB_NTWK_TYPE_TCP then (if param \<noteq> ENOTCONN cfg then DBEVT_REMOTE_DEVICE_DISCONNECTED else 0)
            else if ty = DB_NTWK_TYPE_UDP then
              (if param \<noteq> ENOTCONN cfg then DBEVT_REMOTE_DEVICE_DISCONNECTED else 0)
            else 0), st))"

definition handle_stop_event ::
    "ap_config \<Rightarrow> db_ntwk_type_t \<Rightarrow> chan_type_t \<Rightarrow> int \<Rightarrow> ap_state \<Rightarrow> u32 \<times> ap_state" where
  "handle_stop_event cfg ty c param st =
     (let st = (if client_service cfg \<and> c = Chan_ctrl then reset_chan_connected_mask st else st) in
      (case c of
         Chan_ctrl \<Rightarrow>
           (if ty = DB_NTWK_TYPE_TCP \<or> ty = DB_NTWK_TYPE_UDP
            then (if param \<noteq> ENOTCONN cfg then DBEVT_REMOTE_DEVICE_DISCONNECTED else 0)
            else if ty = DB_NTWK_TYPE_CS2 then DBEVT_REMOTE_DEVICE_DISCONNECTED else 0)
       | Chan_video \<Rightarrow> 0
       | Chan_audio \<Rightarrow> 0, st))"

text \<open>The name of the running service, as the library gives it.\<close>

definition ntwk_type_of :: "u8 list \<Rightarrow> db_ntwk_type_t" where
  "ntwk_type_of name =
     (if name = ascii ''tcp_service'' then DB_NTWK_TYPE_TCP
      else if name = ascii ''udp_service'' then DB_NTWK_TYPE_UDP
      else if name = ascii ''cs2_service'' then DB_NTWK_TYPE_CS2 else DB_NTWK_TYPE_NONE)"

definition doorbell_bk_net_msg_evt_handle ::
    "ap_config \<Rightarrow> u8 list option \<Rightarrow> ntwk_trans_event_t option \<Rightarrow> ap_state \<Rightarrow> ap_state" where
  "doorbell_bk_net_msg_evt_handle cfg name ev st =
     (case name of
        None \<Rightarrow> st
      | Some name \<Rightarrow>
          (case ev of
             None \<Rightarrow> st
           | Some ev \<Rightarrow>
               let ty = ntwk_type_of name;
                   (event_type, st) =
                     (case ev_code ev of
                        EVT_START \<Rightarrow> handle_start_event cfg ty (ev_chan ev) (ev_param ev) st
                      | EVT_CONNECTED \<Rightarrow> handle_connected_event cfg ty (ev_chan ev) (ev_param ev) st
                      | EVT_DISCONNECTED \<Rightarrow> handle_disconnected_event cfg ty (ev_chan ev) (ev_param ev) st
                      | EVT_STOP \<Rightarrow> handle_stop_event cfg ty (ev_chan ev) (ev_param ev) st
                      | EVT_OTHER \<Rightarrow> (0, st))
               in if event_type \<noteq> 0
                  then snd (doorbell_send_msg \<lparr>msg_event = event_type, msg_param = 0\<rparr> st) else st))"

section \<open>Starting and stopping a service\<close>

definition doorbell_network_transfer_start :: "ap_state \<Rightarrow> bk_err_t \<times> ap_state" where
  "doorbell_network_transfer_start st =
     (BK_OK, ap_emit [Trans_chan_start Chan_ctrl, Trans_chan_start Chan_video, Trans_chan_start Chan_audio] st)"

definition doorbell_network_transfer_stop :: "ap_state \<Rightarrow> bk_err_t \<times> ap_state" where
  "doorbell_network_transfer_stop st =
     (BK_OK, ap_emit [Trans_chan_stop Chan_ctrl, Trans_chan_stop Chan_video, Trans_chan_stop Chan_audio] st)"

text \<open>The three names the code passes are the three kinds of service.\<close>

definition doorbell_bk_network_transfer_init :: "ap_config \<Rightarrow> service_kind \<Rightarrow> ap_state \<Rightarrow> bk_err_t \<times> ap_state" where
  "doorbell_bk_network_transfer_init cfg k st =
     (let start = (\<lambda>st. doorbell_network_transfer_start (ap_emit [Trans_service_init k] st)) in
      if client_service cfg then
        let (ret, info) = doorbell_get_server_net_info_from_flash st in
        if ret \<noteq> BK_OK then (BK_FAIL, st) else start (ap_emit [Net_info_set info] st)
      else start st)"

definition doorbell_bk_network_transfer_deinit :: "service_kind \<Rightarrow> ap_state \<Rightarrow> bk_err_t \<times> ap_state" where
  "doorbell_bk_network_transfer_deinit k st =
     (BK_OK, ap_emit [Trans_service_deinit k] (snd (doorbell_network_transfer_stop st)))"

definition doorbell_bk_net_cntrl_recv :: "ap_config \<Rightarrow> dev_answer \<Rightarrow> u8 list \<Rightarrow> ap_state \<Rightarrow> (bk_err_t \<times> ap_state) option" where
  "doorbell_bk_net_cntrl_recv cfg an data st =
     map_option (\<lambda>st. (BK_OK, st)) (doorbell_transmission_cmd_recive_callback cfg an data st)"

definition doorbell_bk_net_video_recv :: "u8 list \<Rightarrow> ap_state \<Rightarrow> bk_err_t \<times> ap_state" where
  "doorbell_bk_net_video_recv data st = (BK_OK, st)"

end
