(* ===== verification/Ap_Keepalive.thy ===== *)
theory Ap_Keepalive
  imports Ap_Network
begin

text \<open>
  The application core's side of the keep-alive:
  \<^verbatim>\<open>projects/doorbell_lp/ap/keepalive/db_keepalive.c\<close> and
  \<^verbatim>\<open>projects/doorbell_lp/ap/db_ipc_msg/db_ipc_msg.c\<close>. A timer looks for the absence of
  multimedia services; then the network service is stopped and the control core is asked to
  take over. On a wake-up the reason decides how the service is started again.

  The C library's \<^verbatim>\<open>atoi\<close> is modelled on the characters of a string; what the timers, the link
  to the control core and the clock answer are arguments.
\<close>

section \<open>Numbers\<close>

definition is_digit :: "u8 \<Rightarrow> bool" where
  "is_digit b \<longleftrightarrow> 48 \<le> b \<and> b \<le> 57"

definition is_blank :: "u8 \<Rightarrow> bool" where
  "is_blank b \<longleftrightarrow> b = 32 \<or> 9 \<le> b \<and> b \<le> 13"

text \<open>\<open>atoi\<close> where its result fits an \<^verbatim>\<open>int\<close>; beyond that it is undefined in C.\<close>

fun digits :: "int \<Rightarrow> u8 list \<Rightarrow> int" where
  "digits acc [] = acc"
| "digits acc (b # bs) = (if is_digit b then digits (10 * acc + int (unat b - 48)) bs else acc)"

definition atoi :: "u8 list \<Rightarrow> int" where
  "atoi s = (case dropWhile is_blank s of
     [] \<Rightarrow> 0
   | b # bs \<Rightarrow> if b = 45 then - digits 0 bs else if b = 43 then digits 0 bs else digits 0 (b # bs))"

section \<open>Requests to the control core\<close>

definition db_ipc_start_keepalive ::
    "int \<Rightarrow> u8 list option \<Rightarrow> u8 list option \<Rightarrow> ap_state \<Rightarrow> int \<times> ap_state" where
  "db_ipc_start_keepalive ret ip p st =
     (case (ip, p) of
        (Some ip, Some p) \<Rightarrow>
          (ret, ap_emit [Ipc_start (cfg_bytes \<lparr>cfg_server = take 31 (c_string ip),
            cfg_port = word_of_int (atoi p)\<rparr>)] st)
      | _ \<Rightarrow> (-1, st))"

definition db_ipc_stop_keepalive :: "int \<Rightarrow> ap_state \<Rightarrow> int \<times> ap_state" where
  "db_ipc_stop_keepalive ret st =
     (let st = ap_emit [Ipc_stop (replicate CFG_SIZE 0)] st in (if ret \<noteq> 0 then -1 else ret, st))"

text \<open>
  \<^verbatim>\<open>db_ipc_wakeup_env_init\<close>: the pointer the control core answers with. The buffer is the
  answer's bytes; \<open>None\<close> leaves the pointer \<^verbatim>\<open>NULL\<close>.
\<close>

definition db_ipc_wakeup_env_response :: "u8 list option \<Rightarrow> nat \<Rightarrow> u32 option" where
  "db_ipc_wakeup_env_response data len =
     (case data of
        None \<Rightarrow> None
      | Some bs \<Rightarrow> if len < 4 then None else if get32 bs 0 = 0 then None else Some (get32 bs 0))"

definition db_ipc_wakeup_env_init :: "int \<Rightarrow> u8 list \<Rightarrow> nat \<Rightarrow> u32 option \<Rightarrow> int \<times> u32 option" where
  "db_ipc_wakeup_env_init ret buf len old =
     (if ret \<noteq> 0 then (-1, old)
      else if 4 \<le> len then
        let p = db_ipc_wakeup_env_response (Some buf) len in (if p \<noteq> None then 0 else -1, p)
      else (-1, old))"

section \<open>The status timer\<close>

definition MM_STATUS_CHECK_INTERVAL_MS :: u32 where "MM_STATUS_CHECK_INTERVAL_MS = 5 * 1000"
definition MM_STATUS_CHECK_MIN_INTERVAL_MS :: u32 where "MM_STATUS_CHECK_MIN_INTERVAL_MS = 1 * 1000"
definition DB_KEEPALIVE_INTERVAL_MAX_MS :: u32 where "DB_KEEPALIVE_INTERVAL_MAX_MS = 300 * 1000"

lemmas interval_defs = MM_STATUS_CHECK_INTERVAL_MS_def MM_STATUS_CHECK_MIN_INTERVAL_MS_def
  DB_KEEPALIVE_INTERVAL_MAX_MS_def

record timer_answer =
  ta_stop :: bool
  ta_deinit :: bool
  ta_init :: bool
  ta_start :: bool

definition clamp_interval :: "u32 \<Rightarrow> u32" where
  "clamp_interval ms =
     (let ms = (if ms < MM_STATUS_CHECK_MIN_INTERVAL_MS then MM_STATUS_CHECK_MIN_INTERVAL_MS else ms) in
      if ms > DB_KEEPALIVE_INTERVAL_MAX_MS then DB_KEEPALIVE_INTERVAL_MAX_MS else ms)"

definition restart_timer :: "timer_answer \<Rightarrow> ap_state \<Rightarrow> ap_state" where
  "restart_timer an st =
     (if \<not> ta_stop an then st
      else
        let st = ap_emit [Timer_stop] st in
        if \<not> ta_deinit an then st
        else
          let st = ap_emit [Timer_gone] (st\<lparr>s_timer_started := False\<rparr>) in
          if \<not> ta_init an then st
          else
            let st = ap_emit [Timer_init (s_mm_status_check_interval_ms st)] st in
            if \<not> ta_start an then ap_emit [Timer_gone] st
            else ap_emit [Timer_start] (st\<lparr>s_timer_started := True\<rparr>))"

definition db_set_keepalive_interval :: "timer_answer \<Rightarrow> u8 list option \<Rightarrow> ap_state \<Rightarrow> ap_state" where
  "db_set_keepalive_interval an str st =
     (case str of
        None \<Rightarrow> st
      | Some s \<Rightarrow>
          if c_string s = [] then st
          else
            let val = atoi s in
            if val \<le> 0 then st
            else
              let ms = clamp_interval (word_of_int val);
                  st = st\<lparr>s_mm_status_check_interval_ms := ms\<rparr>;
                  st = snd (doorbell_save_keepalive_interval_to_flash ms st) in
              if s_timer_started st then restart_timer an st else st)"

definition db_keepalive_start_mm_status_check :: "timer_answer \<Rightarrow> ap_state \<Rightarrow> bk_err_t \<times> ap_state" where
  "db_keepalive_start_mm_status_check an st =
     (if s_timer_started st then (BK_OK, st)
      else
        let st = (if \<not> s_interval_loaded_from_flash st then
                    let st = st\<lparr>s_interval_loaded_from_flash := True\<rparr>;
                        (ret, ms) = doorbell_get_keepalive_interval_from_flash st in
                    if ret = BK_OK \<and> ms \<ge> MM_STATUS_CHECK_MIN_INTERVAL_MS \<and> ms \<le> DB_KEEPALIVE_INTERVAL_MAX_MS
                    then st\<lparr>s_mm_status_check_interval_ms := ms\<rparr> else st
                  else st) in
        if \<not> ta_init an then (BK_FAIL, st)
        else
          let st = ap_emit [Timer_init (s_mm_status_check_interval_ms st)] st in
          if \<not> ta_start an then (BK_FAIL, ap_emit [Timer_gone] st)
          else (BK_OK, ap_emit [Timer_start] (st\<lparr>s_timer_started := True\<rparr>)))"

definition db_keepalive_stop_mm_status_check :: "timer_answer \<Rightarrow> ap_state \<Rightarrow> bk_err_t \<times> ap_state" where
  "db_keepalive_stop_mm_status_check an st =
     (if \<not> s_timer_started st then (BK_OK, st)
      else
        let st = (if ta_stop an then ap_emit [Timer_stop] st else st);
            st = (if ta_deinit an then ap_emit [Timer_gone] st else st)
        in (BK_OK, st\<lparr>s_timer_started := False\<rparr>))"

section \<open>Handing over\<close>

definition db_keepalive_stop_service_if_running :: "ap_state \<Rightarrow> bk_err_t \<times> ap_state" where
  "db_keepalive_stop_service_if_running st =
     (if s_pending_keepalive_after_service_stop st then (BK_OK, st)
      else
        let (ret, s) = doorbell_get_ntwk_service_info_from_flash st in
        if ret \<noteq> BK_OK then (BK_FAIL, st)
        else if s = DOORBELL_SERVICE_LAN_TCP \<or> s = DOORBELL_SERVICE_LAN_UDP then
          let (ret, st) = doorbell_send_msg \<lparr>msg_event =
                (if s = DOORBELL_SERVICE_LAN_TCP then DBEVT_LAN_TCP_SERVICE_STOP else DBEVT_LAN_UDP_SERVICE_STOP),
                msg_param = 0\<rparr> st in
          if ret \<noteq> BK_OK then (BK_FAIL, st)
          else (BK_OK, st\<lparr>s_pending_keepalive_after_service_stop := True\<rparr>)
        else (BK_FAIL, st))"

text \<open>The time since the last command, with the wrap-around of the clock written out.\<close>

definition time_since :: "u64 \<Rightarrow> u64 \<Rightarrow> u64" where
  "time_since now prev =
     (if now \<ge> prev then now - prev else (- 1 - prev) + now + 1)"

definition db_keepalive_mm_status_check_timer_handler :: "u64 \<Rightarrow> ap_state \<Rightarrow> ap_state" where
  "db_keepalive_mm_status_check_timer_handler now st =
     (if doorbell_mm_service_get_status st = 0 then
        if s_last_update_timestamp st \<noteq> 0 \<and>
           time_since now (s_last_update_timestamp st) < ucast MM_STATUS_CHECK_MIN_INTERVAL_MS
        then st
        else
          let (ret, st) = db_keepalive_stop_service_if_running st in
          if ret = BK_OK then st else st\<lparr>s_pending_keepalive_after_service_stop := True\<rparr>
      else st)"

definition db_keepalive_send_keepalive :: "int \<Rightarrow> timer_answer \<Rightarrow> ap_state \<Rightarrow> ap_state" where
  "db_keepalive_send_keepalive ipc_ret an st =
     (if \<not> s_pending_keepalive_after_service_stop st then st
      else
        let st = st\<lparr>s_pending_keepalive_after_service_stop := False\<rparr>;
            (ret, info) = doorbell_get_server_net_info_from_flash st in
        if ret \<noteq> BK_OK then st
        else if c_string (ip_addr info) = [] \<or> c_string (cmd_port info) = [] then st
        else
          let (r, st) = db_ipc_start_keepalive ipc_ret (Some (ip_addr info)) (Some (cmd_port info)) st in
          if r \<noteq> 0 then st else snd (db_keepalive_stop_mm_status_check an st))"

section \<open>Waking up\<close>

definition db_keepalive_disable_bluetooth :: "ap_state \<Rightarrow> bk_err_t \<times> ap_state" where
  "db_keepalive_disable_bluetooth st =
     (let (ret, st) = doorbell_send_msg \<lparr>msg_event = DBEVT_BLE_DISABLE, msg_param = 0\<rparr> st in
      (if ret \<noteq> BK_OK then BK_FAIL else BK_OK, st))"

definition db_keepalive_start_service_from_flash :: "ap_state \<Rightarrow> bk_err_t \<times> ap_state" where
  "db_keepalive_start_service_from_flash st =
     (let (ret, s) = doorbell_get_ntwk_service_info_from_flash st in
      if ret \<noteq> BK_OK then (BK_FAIL, st)
      else if s = DOORBELL_SERVICE_LAN_UDP \<or> s = DOORBELL_SERVICE_LAN_TCP then
        let (ret, st) = doorbell_send_msg \<lparr>msg_event =
              (if s = DOORBELL_SERVICE_LAN_UDP then DBEVT_LAN_UDP_SERVICE_START_REQUEST
               else DBEVT_LAN_TCP_SERVICE_START_REQUEST), msg_param = 0\<rparr> st in
        (if ret \<noteq> BK_OK then BK_FAIL else BK_OK, st)
      else (BK_FAIL, st))"

definition db_keepalive_send_cmd_to_callback ::
    "ap_config \<Rightarrow> dev_answer \<Rightarrow> u32 \<Rightarrow> u32 \<Rightarrow> u8 list \<Rightarrow> ap_state \<Rightarrow> (bk_err_t \<times> ap_state) option" where
  "db_keepalive_send_cmd_to_callback cfg an opcode param payload st =
     (if \<not> dv_malloc an then Some (BK_FAIL, st)
      else map_option (\<lambda>st. (BK_OK, st))
        (doorbell_transmission_cmd_recive_callback cfg an
          (cmd_bytes \<lparr>cmd_opcode = opcode, cmd_param = param, cmd_length = of_nat (length payload)\<rparr> @ payload) st))"

definition db_keepalive_on_keepalive_disconnection :: "ap_state \<Rightarrow> ap_state" where
  "db_keepalive_on_keepalive_disconnection st =
     snd (db_keepalive_start_service_from_flash (st\<lparr>s_pending_keepalive_after_service_stop := False\<rparr>))"

definition db_keepalive_on_service_start_success :: "ap_config \<Rightarrow> dev_answer \<Rightarrow> ap_state \<Rightarrow> ap_state option" where
  "db_keepalive_on_service_start_success cfg an st =
     (if s_pending_wakeup_cmd st \<noteq> 0 then do {
        st \<leftarrow> (if s_pending_wakeup_cmd st = DBCMD_WAKE_UP_REQUEST
               then map_option snd (db_keepalive_send_cmd_to_callback cfg an DBCMD_WAKE_UP_REQUEST 0 [] st)
               else Some st);
        Some (st\<lparr>s_pending_wakeup_cmd := 0\<rparr>)
      } else Some st)"

text \<open>\<open>reason\<close> is what \<^verbatim>\<open>pl_wakeup_env\<close> points to in the control core, \<open>None\<close> for a \<^verbatim>\<open>NULL\<close> pointer.\<close>

definition db_keepalive_handle_wakeup_reason ::
    "ap_config \<Rightarrow> int \<Rightarrow> u32 option \<Rightarrow> ap_state \<Rightarrow> ap_state" where
  "db_keepalive_handle_wakeup_reason cfg ipc_ret reason st =
     (case reason of
        None \<Rightarrow> st
      | Some reason \<Rightarrow>
          let st = st\<lparr>s_pending_wakeup_cmd := 0\<rparr> in
          if reason = POWERUP_POWER_WAKEUP_FLAG then snd (doorbell_del_all_info_from_flash cfg st)
          else if reason = POWERUP_MULTIMEDIA_WAKEUP_HOST_FLAG then
            let (ret, st) = db_keepalive_disable_bluetooth st in
            if ret \<noteq> BK_OK then st
            else let (r, st) = db_ipc_stop_keepalive ipc_ret st in
              if r \<noteq> 0 then st
              else let (ret, st) = db_keepalive_start_service_from_flash st in
                if ret \<noteq> BK_OK then st else st\<lparr>s_pending_wakeup_cmd := DBCMD_WAKE_UP_REQUEST\<rparr>
          else if reason = POWERUP_KEEPALIVE_DISCONNECTION then
            snd (db_keepalive_start_service_from_flash (st\<lparr>s_pending_keepalive_after_service_stop := False\<rparr>))
          else if reason = POWERUP_KEEPALIVE_FAIL_WAKEUP_FLAG then
            let (ret, st) = db_keepalive_disable_bluetooth st in
            if ret \<noteq> BK_OK then st
            else snd (db_keepalive_start_service_from_flash (st\<lparr>s_pending_keepalive_after_service_stop := False\<rparr>))
          else st)"

section \<open>The command line\<close>

definition db_keepalive_cli_cmd :: "timer_answer \<Rightarrow> u8 list list \<Rightarrow> ap_state \<Rightarrow> ap_state" where
  "db_keepalive_cli_cmd an argv st =
     (if length argv \<le> 2 then st
      else if c_string (argv ! 1) = ascii ''interval'' then db_set_keepalive_interval an (Some (argv ! 2)) st
      else st)"

end
