(* ===== verification/Ap_Core.thy ===== *)
theory Ap_Core
  imports Ap_Keepalive
begin

text \<open>
  The core task of the application core, \<^verbatim>\<open>components/smart_lock/src/doorbell_core.c\<close>: it takes
  messages from the queue one at a time, starts and stops the network services, tells the app
  over Bluetooth and ties the keep-alive to them. \<open>db_service\<close> is the 6-bit field
  \<^verbatim>\<open>service\<close>.
\<close>

definition BOARDING_OP_STATION_START :: u16 where "BOARDING_OP_STATION_START = 1"
definition BOARDING_OP_SERVICE_UDP_START :: u16 where "BOARDING_OP_SERVICE_UDP_START = 3"
definition BOARDING_OP_SERVICE_TCP_START :: u16 where "BOARDING_OP_SERVICE_TCP_START = 4"
definition BOARDING_OP_SRRVICE_CS2_START :: u16 where "BOARDING_OP_SRRVICE_CS2_START = 9"
definition BOARDING_OP_SET_SERVER_NET_INFO :: u16 where "BOARDING_OP_SET_SERVER_NET_INFO = 17"

text \<open>
  What the rest of the system answers while one message is handled: \<open>ca_station\<close> is the SSID
  and key at the address a station message carries, \<open>ca_ip\<close> the address of the interface.
\<close>

record core_answer =
  ca_dev :: dev_answer
  ca_timer :: timer_answer
  ca_ipc :: int
  ca_ip :: "u8 list"
  ca_station :: "u32 \<Rightarrow> u8 list \<times> u8 list"

definition start_service :: "ap_config \<Rightarrow> u8 \<Rightarrow> service_kind \<Rightarrow> ap_state \<Rightarrow> ap_state" where
  "start_service cfg s k st =
     (if db_service st \<noteq> DOORBELL_SERVICE_NONE then st
      else
        let st = st\<lparr>db_service := s\<rparr>;
            st = (if client_service cfg then snd (doorbell_save_ntwk_service_info_to_flash (Some s) st) else st)
        in snd (doorbell_bk_network_transfer_init cfg k st))"

text \<open>The CS2 service is not saved to flash.\<close>

definition start_cs2 :: "ap_config \<Rightarrow> ap_state \<Rightarrow> ap_state" where
  "start_cs2 cfg st =
     (if \<not> cs2 cfg \<or> db_service st \<noteq> DOORBELL_SERVICE_NONE then st
      else snd (doorbell_bk_network_transfer_init cfg Cs2_service (st\<lparr>db_service := DOORBELL_SERVICE_P2P_CS2\<rparr>)))"

text \<open>Advertising the running service again, in the builds where the device is the server.\<close>

definition sdp_restart :: "ap_config \<Rightarrow> ap_state \<Rightarrow> ap_state" where
  "sdp_restart cfg st =
     (if client_service cfg then st
      else if db_service st = DOORBELL_SERVICE_LAN_UDP then ap_emit [Sdp_start Udp_service] st
      else if db_service st = DOORBELL_SERVICE_LAN_TCP then ap_emit [Sdp_start Tcp_service] st
      else st)"

definition service_response :: "ap_config \<Rightarrow> service_kind \<Rightarrow> u16 \<Rightarrow> ap_state \<Rightarrow> ap_state" where
  "service_response cfg k opc st =
     ap_emit [Boarding_notify opc 0] (if client_service cfg then st else ap_emit [Sdp_start k] st)"

definition device_connected :: "ap_config \<Rightarrow> core_answer \<Rightarrow> ap_state \<Rightarrow> ap_state option" where
  "device_connected cfg an st =
     (let st = (if \<not> client_service cfg \<and>
                   (db_service st = DOORBELL_SERVICE_LAN_UDP \<or> db_service st = DOORBELL_SERVICE_LAN_TCP)
                then ap_emit [Sdp_reload 60000] st else st) in
      if low_power cfg then do {
        st \<leftarrow> db_keepalive_on_service_start_success cfg (ca_dev an) st;
        Some (snd (db_keepalive_start_mm_status_check (ca_timer an) st))
      } else Some st)"

definition device_disconnected :: "ap_config \<Rightarrow> ap_state \<Rightarrow> ap_state" where
  "device_disconnected cfg st =
     (let st = ap_emit [Video_transfer_off, Audio_off] st in
      if client_service cfg then st\<lparr>db_service := DOORBELL_SERVICE_NONE\<rparr> else sdp_restart cfg st)"

definition stop_service :: "ap_config \<Rightarrow> core_answer \<Rightarrow> service_kind \<Rightarrow> ap_state \<Rightarrow> ap_state" where
  "stop_service cfg an k st =
     (let st = snd (doorbell_bk_network_transfer_deinit k st) in
      if low_power cfg then db_keepalive_send_keepalive (ca_ipc an) (ca_timer an) st else st)"

text \<open>One message: the new state, and whether the task goes on.\<close>

definition handle_msg :: "ap_config \<Rightarrow> core_answer \<Rightarrow> doorbell_msg_t \<Rightarrow> ap_state \<Rightarrow> (bool \<times> ap_state) option" where
  "handle_msg cfg an m st =
     (let ev = msg_event m; go = (\<lambda>st. Some (True, st)) in
      if ev = DBEVT_WIFI_STATION_CONNECT then
        go (snd (doorbell_wifi_sta_connect (fst (ca_station an (msg_param m))) (snd (ca_station an (msg_param m))) st))
      else if ev = DBEVT_WIFI_STATION_CONNECTED then
        go (ap_emit [Boarding_notify_data BOARDING_OP_STATION_START 0 (ca_ip an)] st)
      else if ev = DBEVT_WIFI_STATION_DISCONNECTED then go st
      else if ev = DBEVT_WIFI_SOFT_AP_TURNING_ON then go st
      else if ev = DBEVT_LAN_UDP_SERVICE_START_REQUEST then go (start_service cfg DOORBELL_SERVICE_LAN_UDP Udp_service st)
      else if ev = DBEVT_LAN_UDP_SERVICE_START_RESPONSE then
        go (service_response cfg Udp_service BOARDING_OP_SERVICE_UDP_START st)
      else if ev = DBEVT_LAN_TCP_SERVICE_START_REQUEST then go (start_service cfg DOORBELL_SERVICE_LAN_TCP Tcp_service st)
      else if ev = DBEVT_LAN_TCP_SERVICE_START_RESPONSE then
        go (service_response cfg Tcp_service BOARDING_OP_SERVICE_TCP_START st)
      else if ev = DBEVT_P2P_CS2_SERVICE_START_REQUEST then go (start_cs2 cfg st)
      else if ev = DBEVT_P2P_CS2_SERVICE_START_RESPONSE then
        go (ap_emit [Boarding_notify BOARDING_OP_SRRVICE_CS2_START 0] st)
      else if ev = DBEVT_START_BOARDING_EVENT then
        go (ap_emit [Boarding_notify (ucast (msg_param m AND 0xFFFF)) (uint (drop_bit 16 (msg_param m)))] st)
      else if ev = DBEVT_BLE_DISABLE then go (if bluetooth_ap cfg then ap_emit [Bluetooth_deinit] st else st)
      else if ev = DBEVT_REMOTE_DEVICE_CONNECTED then map_option (Pair True) (device_connected cfg an st)
      else if ev = DBEVT_REMOTE_DEVICE_DISCONNECTED then go (device_disconnected cfg st)
      else if ev = DBEVT_IMAGE_TCP_SERVICE_DISCONNECTED then
        go (sdp_restart cfg (ap_emit [Video_transfer_off] st))
      else if ev = DBEVT_SET_SERVER_NET_INFO then go (ap_emit [Boarding_notify BOARDING_OP_SET_SERVER_NET_INFO 0] st)
      else if ev = DBEVT_LAN_TCP_SERVICE_STOP then go (stop_service cfg an Tcp_service st)
      else if ev = DBEVT_LAN_UDP_SERVICE_STOP then go (stop_service cfg an Udp_service st)
      else if ev = DBEVT_EXIT then Some (False, st)
      else go st)"

text \<open>
  The end of the task. \<^verbatim>\<open>rtos_delete_thread(NULL)\<close> ends the thread that calls it, so the
  assignment to \<^verbatim>\<open>thd\<close> after it is not reached.
\<close>

definition core_exit :: "ap_config \<Rightarrow> ap_state \<Rightarrow> ap_state" where
  "core_exit cfg st =
     (let st = (if client_service cfg then st else ap_emit [Sdp_stop] st) in
      st\<lparr>db_queue := None\<rparr>)"

text \<open>Taking one message off the queue; \<open>None\<close> when there is none to take.\<close>

definition core_step :: "ap_config \<Rightarrow> core_answer \<Rightarrow> ap_state \<Rightarrow> ap_state option" where
  "core_step cfg an st =
     (case db_queue st of
        Some (m # q) \<Rightarrow> do {
          (go, st) \<leftarrow> handle_msg cfg an m (st\<lparr>db_queue := Some q\<rparr>);
          Some (if go then st else core_exit cfg st)
        }
      | _ \<Rightarrow> None)"

text \<open>
  \<^verbatim>\<open>doorbell_core_init\<close>; \<open>alloc\<close>, \<open>queue_ok\<close> and \<open>thread_ok\<close> are what the allocator and the
  operating system answer.
\<close>

definition doorbell_core_init :: "bool \<Rightarrow> bool \<Rightarrow> bool \<Rightarrow> ap_state \<Rightarrow> ap_state" where
  "doorbell_core_init alloc queue_ok thread_ok st =
     (if \<not> db_info st \<and> \<not> alloc then st
      else
        let st = (if db_info st then st
                  else st\<lparr>db_info := True, db_enabled := False, db_service := 0, db_queue := None, db_thd := False\<rparr>) in
        if db_queue st \<noteq> None then st
        else if db_thd st then st
        else if \<not> queue_ok then st
        else
          let st = st\<lparr>db_queue := Some []\<rparr> in
          if \<not> thread_ok then st else st\<lparr>db_thd := True, db_enabled := True\<rparr>)"


section \<open>The application core as a whole\<close>

datatype ap_act =
    Core_task core_answer
  | Net_event "u8 list option" "ntwk_trans_event_t option"
  | Status_timer u64
  | Heartbeat_timer
  | Command dev_answer "u8 list"
  | Wakeup int "u32 option"
  | Disconnection
  | Cli timer_answer "u8 list list"
  | Wifi_event wifi_linkstate
  | Save_net_info bool "server_net_info option"
  | Save_wifi_info "(u8 list \<times> u8 list) option"

fun ap_do :: "ap_config \<Rightarrow> ap_act \<Rightarrow> ap_state \<Rightarrow> ap_state option" where
  "ap_do cfg (Core_task an) st = core_step cfg an st"
| "ap_do cfg (Net_event name ev) st = Some (doorbell_bk_net_msg_evt_handle cfg name ev st)"
| "ap_do cfg (Status_timer now) st =
     (if s_timer_started st then Some (db_keepalive_mm_status_check_timer_handler now st) else None)"
| "ap_do cfg Heartbeat_timer st = Some (doorbell_keep_alive_timer_handler st)"
| "ap_do cfg (Command an bs) st = map_option snd (doorbell_bk_net_cntrl_recv cfg an bs st)"
| "ap_do cfg (Wakeup r reason) st = Some (db_keepalive_handle_wakeup_reason cfg r reason st)"
| "ap_do cfg Disconnection st = Some (db_keepalive_on_keepalive_disconnection st)"
| "ap_do cfg (Cli an argv) st = Some (db_keepalive_cli_cmd an argv st)"
| "ap_do cfg (Wifi_event s) st = Some (doorbell_wifi_event_cb s st)"
| "ap_do cfg (Save_net_info ok i) st = Some (snd (doorbell_save_server_net_info_to_flash ok i st))"
| "ap_do cfg (Save_wifi_info i) st = Some (snd (doorbell_save_wifi_info_to_flash i st))"

fun ap_run :: "ap_config \<Rightarrow> ap_act list \<Rightarrow> ap_state \<Rightarrow> ap_state option" where
  "ap_run cfg [] st = Some st"
| "ap_run cfg (a # as) st = Option.bind (ap_do cfg a st) (ap_run cfg as)"

text \<open>After power-on, with some content of the flash, and after \<open>doorbell_core_init\<close>.\<close>

definition ap_power_on :: "flash \<Rightarrow> ap_state" where
  "ap_power_on f = \<lparr>db_info = False, db_enabled = False, db_thd = False, db_service = 0, db_queue = None,
     ap_flash = f, db_cmd_info = None, mm_service_status = 0, chan_connected_mask = 0,
     s_timer_started = False, s_mm_status_check_interval_ms = MM_STATUS_CHECK_INTERVAL_MS,
     s_interval_loaded_from_flash = False, s_last_update_timestamp = 0,
     s_pending_keepalive_after_service_stop = False, s_pending_wakeup_cmd = 0, ap_log = []\<rparr>"

definition ap_boot :: "flash \<Rightarrow> ap_state" where
  "ap_boot f = doorbell_core_init True True True (ap_power_on f)"

end
