(* ===== verification/Ap_Properties.thy ===== *)
theory Ap_Properties
  imports Ap_Core
begin

text \<open>
  The properties of the application core: the interval of the status timer, the votes, the
  answers to commands, the channels, and the two hand-overs, into the keep-alive and out of
  it.
\<close>

section \<open>What operations leave alone\<close>

lemma ap_emit_simps [simp]:
  "db_info (ap_emit es st) = db_info st"
  "db_service (ap_emit es st) = db_service st"
  "db_queue (ap_emit es st) = db_queue st"
  "ap_flash (ap_emit es st) = ap_flash st"
  "db_cmd_info (ap_emit es st) = db_cmd_info st"
  "mm_service_status (ap_emit es st) = mm_service_status st"
  "chan_connected_mask (ap_emit es st) = chan_connected_mask st"
  "s_timer_started (ap_emit es st) = s_timer_started st"
  "s_mm_status_check_interval_ms (ap_emit es st) = s_mm_status_check_interval_ms st"
  "s_interval_loaded_from_flash (ap_emit es st) = s_interval_loaded_from_flash st"
  "s_last_update_timestamp (ap_emit es st) = s_last_update_timestamp st"
  "s_pending_keepalive_after_service_stop (ap_emit es st) = s_pending_keepalive_after_service_stop st"
  "s_pending_wakeup_cmd (ap_emit es st) = s_pending_wakeup_cmd st"
  "ap_log (ap_emit es st) = ap_log st @ es"
  by (simp_all add: ap_emit_def)

text \<open>
  The part of the state the invariants are about: the interval and the votes. Most operations
  keep both.
\<close>

definition keeps :: "ap_state \<Rightarrow> ap_state \<Rightarrow> bool" where
  "keeps st st' \<longleftrightarrow> s_mm_status_check_interval_ms st' = s_mm_status_check_interval_ms st \<and>
     mm_service_status st' = mm_service_status st"

named_theorems keeps_intros

lemma keeps_refl [keeps_intros]: "keeps st st" by (simp add: keeps_def)

lemma keeps_trans: "keeps st st' \<Longrightarrow> keeps st' st'' \<Longrightarrow> keeps st st''" by (simp add: keeps_def)

lemma keeps_emit [simp]: "keeps st (ap_emit es st') = keeps st st'" by (simp add: keeps_def)

lemma keeps_upd [simp]:
  "keeps st (st'\<lparr>db_service := a\<rparr>) = keeps st st'"
  "keeps st (st'\<lparr>db_queue := b\<rparr>) = keeps st st'"
  "keeps st (st'\<lparr>ap_flash := c\<rparr>) = keeps st st'"
  "keeps st (st'\<lparr>db_cmd_info := d\<rparr>) = keeps st st'"
  "keeps st (st'\<lparr>chan_connected_mask := e\<rparr>) = keeps st st'"
  "keeps st (st'\<lparr>s_timer_started := f\<rparr>) = keeps st st'"
  "keeps st (st'\<lparr>s_last_update_timestamp := g\<rparr>) = keeps st st'"
  "keeps st (st'\<lparr>s_interval_loaded_from_flash := h\<rparr>) = keeps st st'"
  "keeps st (st'\<lparr>s_pending_keepalive_after_service_stop := i\<rparr>) = keeps st st'"
  "keeps st (st'\<lparr>s_pending_wakeup_cmd := j\<rparr>) = keeps st st'"
  "keeps (st\<lparr>db_queue := b\<rparr>) st' = keeps st st'"
  by (simp_all add: keeps_def)

lemma keeps_send [simp]: "keeps st (snd (doorbell_send_msg m st')) = keeps st st'"
  by (simp add: doorbell_send_msg_def split: option.split)

lemma keeps_fl [simp]: "keeps st (snd (fl_set f st')) = keeps st st'"
  by (simp add: fl_set_def)

lemma keeps_service [simp]:
  "keeps st (snd (db_keepalive_start_service_from_flash st')) = keeps st st'"
  "keeps st (snd (db_keepalive_stop_service_if_running st')) = keeps st st'"
  by (simp_all add: db_keepalive_start_service_from_flash_def db_keepalive_stop_service_if_running_def
      doorbell_get_ntwk_service_info_from_flash_def Let_def case_prod_beta split: option.split)

lemma keeps_stop_mm [simp]: "keeps st (snd (db_keepalive_stop_mm_status_check an st')) = keeps st st'"
  by (simp add: db_keepalive_stop_mm_status_check_def Let_def)

lemma keeps_flash_ops [simp]:
  "keeps st (snd (doorbell_del_all_info_from_flash cfg st')) = keeps st st'"
  "keeps st (snd (doorbell_save_ntwk_service_info_to_flash s st')) = keeps st st'"
  "keeps st (snd (doorbell_save_keepalive_interval_to_flash ms st')) = keeps st st'"
  "keeps st (snd (doorbell_save_server_net_info_to_flash ok i st')) = keeps st st'"
  "keeps st (snd (doorbell_save_wifi_info_to_flash w st')) = keeps st st'"
  by (simp_all add: doorbell_del_all_info_from_flash_def doorbell_del_wifi_info_from_flash_def
      doorbell_del_ntwk_service_info_from_flash_def doorbell_del_keepalive_interval_from_flash_def
      doorbell_del_server_net_info_from_flash_def doorbell_save_ntwk_service_info_to_flash_def
      doorbell_save_keepalive_interval_to_flash_def doorbell_save_server_net_info_to_flash_def
      doorbell_save_wifi_info_to_flash_def Let_def case_prod_beta split: option.split prod.split)

lemma keeps_ipc [simp]:
  "keeps st (snd (db_keepalive_disable_bluetooth st')) = keeps st st'"
  "keeps st (snd (db_ipc_stop_keepalive r st')) = keeps st st'"
  "keeps st (snd (db_ipc_start_keepalive r ip p st')) = keeps st st'"
  by (simp_all add: db_keepalive_disable_bluetooth_def db_ipc_stop_keepalive_def db_ipc_start_keepalive_def
      Let_def case_prod_beta split: option.split)

lemma keeps_wakeup [simp]: "keeps st (db_keepalive_handle_wakeup_reason cfg r reason st') = keeps st st'"
  by (simp add: db_keepalive_handle_wakeup_reason_def Let_def case_prod_beta split: option.split)

lemma keeps_keepalive [simp]:
  "keeps st (db_keepalive_send_keepalive r an st') = keeps st st'"
  "keeps st (db_keepalive_on_keepalive_disconnection st') = keeps st st'"
  "keeps st (db_keepalive_mm_status_check_timer_handler now st') = keeps st st'"
  by (simp_all add: db_keepalive_send_keepalive_def db_keepalive_on_keepalive_disconnection_def
      db_keepalive_mm_status_check_timer_handler_def doorbell_get_server_net_info_from_flash_def Let_def
      case_prod_beta split: option.split)

lemma keeps_net [simp]:
  "keeps st (doorbell_bk_net_msg_evt_handle cfg name ev st') = keeps st st'"
  "keeps st (snd (doorbell_bk_network_transfer_init cfg k st')) = keeps st st'"
  "keeps st (snd (doorbell_bk_network_transfer_deinit k st')) = keeps st st'"
  by (simp_all add: doorbell_bk_net_msg_evt_handle_def handle_start_event_def handle_connected_event_def
      handle_disconnected_event_def handle_stop_event_def reset_chan_connected_mask_def set_chan_connected_def
      clear_chan_connected_def doorbell_bk_network_transfer_init_def doorbell_bk_network_transfer_deinit_def
      doorbell_network_transfer_start_def doorbell_network_transfer_stop_def Let_def case_prod_beta
      split: option.split trans_evt_code.split)


lemma keeps_core [simp]:
  "keeps st (start_service cfg s k st') = keeps st st'"
  "keeps st (start_cs2 cfg st') = keeps st st'"
  "keeps st (sdp_restart cfg st') = keeps st st'"
  "keeps st (device_disconnected cfg st') = keeps st st'"
  "keeps st (stop_service cfg an k st') = keeps st st'"
  "keeps st (service_response cfg k opc st') = keeps st st'"
  "keeps st (snd (doorbell_wifi_sta_connect a b st')) = keeps st st'"
  by (simp_all add: start_service_def start_cs2_def sdp_restart_def device_disconnected_def stop_service_def
      service_response_def doorbell_wifi_sta_connect_def Let_def)

section \<open>The interval and the votes\<close>

definition interval_ok :: "ap_state \<Rightarrow> bool" where
  "interval_ok st \<longleftrightarrow> MM_STATUS_CHECK_MIN_INTERVAL_MS \<le> s_mm_status_check_interval_ms st \<and>
     s_mm_status_check_interval_ms st \<le> DB_KEEPALIVE_INTERVAL_MAX_MS"

definition votes_ok :: "ap_state \<Rightarrow> bool" where
  "votes_ok st \<longleftrightarrow> take_bit 3 (mm_service_status st) = mm_service_status st"

definition ap_inv :: "ap_state \<Rightarrow> bool" where
  "ap_inv st \<longleftrightarrow> interval_ok st \<and> votes_ok st"

lemma keeps_inv: "keeps st st' \<Longrightarrow> ap_inv st \<Longrightarrow> ap_inv st'"
  by (simp add: keeps_def ap_inv_def interval_ok_def votes_ok_def)

lemma clamp_range: "MM_STATUS_CHECK_MIN_INTERVAL_MS \<le> clamp_interval ms \<and> clamp_interval ms \<le> DB_KEEPALIVE_INTERVAL_MAX_MS"
  by (auto simp: clamp_interval_def Let_def interval_defs not_le not_less)

lemma restart_interval [simp]:
  "s_mm_status_check_interval_ms (restart_timer an st) = s_mm_status_check_interval_ms st"
  "mm_service_status (restart_timer an st) = mm_service_status st"
  by (simp_all add: restart_timer_def Let_def)

lemma interval_set_inv: "ap_inv st \<Longrightarrow> ap_inv (db_set_keepalive_interval an str st)"
  by (auto simp: db_set_keepalive_interval_def ap_inv_def interval_ok_def votes_ok_def clamp_range Let_def
      doorbell_save_keepalive_interval_to_flash_def fl_set_def split: option.split)

lemma start_check_inv: "ap_inv st \<Longrightarrow> ap_inv (snd (db_keepalive_start_mm_status_check an st))"
  by (auto simp: db_keepalive_start_mm_status_check_def doorbell_get_keepalive_interval_from_flash_def
      ap_inv_def interval_ok_def votes_ok_def Let_def split: option.split)

lemma vote_bits:
  "b \<le> 2 \<Longrightarrow> bit (mm_service_status (snd (doorbell_mm_service_vote b add st))) i =
     (if i = b then add else bit (mm_service_status st) i)"
proof -
  assume "b \<le> 2"
  then have m: "mm_mask b = Some (push_bit b 1)"
    by (auto simp: mm_mask_def mm_defs le_Suc_eq numeral_2_eq_2)
  have "bit (push_bit b 1 :: u32) j \<longleftrightarrow> j = b" for j
    using \<open>b \<le> 2\<close> by (auto simp: bit_simps)
  moreover have "bit w i \<Longrightarrow> i < 32" for w :: u32
    using bit_imp_le_length by fastforce
  ultimately show ?thesis
    using \<open>b \<le> 2\<close> by (auto simp: doorbell_mm_service_vote_def m Let_def bit_or_iff bit_and_iff bit_not_iff)
qed

lemma votes_ok_bits: "votes_ok st \<longleftrightarrow> (\<forall>i. bit (mm_service_status st) i \<longrightarrow> i < 3)"
  unfolding votes_ok_def
proof
  show "\<forall>i. bit (mm_service_status st) i \<longrightarrow> i < 3" if "take_bit 3 (mm_service_status st) = mm_service_status st"
    using that by (metis bit_take_bit_iff)
  show "take_bit 3 (mm_service_status st) = mm_service_status st" if "\<forall>i. bit (mm_service_status st) i \<longrightarrow> i < 3"
    using that by (intro bit_eqI) (auto simp: bit_take_bit_iff)
qed

lemma vote_inv: "b \<le> 2 \<Longrightarrow> ap_inv st \<Longrightarrow> ap_inv (vote_if c b add st)"
  using vote_bits [of b add st]
  by (auto simp: vote_if_def ap_inv_def votes_ok_bits interval_ok_def doorbell_mm_service_vote_def mm_defs Let_def
      split: option.splits if_splits)

lemma keeps_commands [simp]:
  "keeps st (ap_event_report opc stt fl st') = keeps st st'"
  "keeps st (cmd_set_keep_alive an opc param st') = keeps st st'"
  by (simp_all add: ap_event_report_def cmd_set_keep_alive_def doorbell_keep_alive_start_timer_def start_new_timer_def
      doorbell_cmd_server_init_def doorbell_cmd_server_deinit_def doorbell_keep_alive_stop_timer_def Let_def
      split: option.split)

lemma inv_report [simp]: "ap_inv (ap_event_report opc stt fl st) = ap_inv st"
  by (simp add: ap_event_report_def ap_inv_def interval_ok_def votes_ok_def)

lemma inv_emit_ap [simp]: "ap_inv (ap_emit es st) = ap_inv st"
  by (simp add: ap_inv_def interval_ok_def votes_ok_def)

lemma mm_bits_le: "MM_STATUS_CAMERA_BIT \<le> 2" "MM_STATUS_AUDIO_BIT \<le> 2" "MM_STATUS_LCD_BIT \<le> 2"
  by (simp_all add: mm_defs)

lemma service_type_keeps: "cmd_set_service_type an opc p st = Some st' \<Longrightarrow> keeps st st'"
  by (auto simp: cmd_set_service_type_def Let_def keeps_refl split: Option.bind_splits if_splits)

lemma dispatch_inv:
  assumes "dispatch an cmd p st = Some st'" and "ap_inv st"
  shows "ap_inv st'"
proof -
  have "ap_inv st'" if "cmd_camera_on an opc pa len p st = Some st'" for opc pa len
    using that assms(2) by (auto simp: cmd_camera_on_def vote_inv mm_bits_le Let_def split: Option.bind_splits)
  moreover have "ap_inv st'" if "cmd_audio_on an opc p st = Some st'" for opc
    using that assms(2) by (auto simp: cmd_audio_on_def vote_inv mm_bits_le Let_def split: Option.bind_splits)
  moreover have "ap_inv st'" if "cmd_display_on an opc p st = Some st'" for opc
    using that assms(2) by (auto simp: cmd_display_on_def vote_inv mm_bits_le Let_def split: Option.bind_splits)
  moreover have "ap_inv st'" if "cmd_acoustics an opc pa p st = Some st'" for opc pa
    using that assms(2) by (auto simp: cmd_acoustics_def split: Option.bind_splits)
  moreover have "ap_inv st'" if "cmd_set_service_type an opc p st = Some st'" for opc
    using keeps_inv [OF service_type_keeps [OF that] assms(2)] .
  moreover have "ap_inv (cmd_set_keep_alive an opc pa st)" for opc pa
    by (rule keeps_inv [OF _ assms(2)]) (simp add: keeps_refl)
  moreover have "ap_inv (cmd_camera_off an opc st)" "ap_inv (cmd_audio_off an opc st)" "ap_inv (cmd_display_off an opc st)" for opc
    using assms(2) by (simp_all add: cmd_camera_off_def cmd_audio_off_def cmd_display_off_def vote_inv mm_bits_le Let_def)
  ultimately show ?thesis
    using assms unfolding dispatch_def Let_def by (auto split: if_splits)
qed

lemma callback_inv:
  assumes "doorbell_transmission_cmd_recive_callback cfg an bs st = Some st'" and "ap_inv st"
  shows "ap_inv st'"
proof -
  have "ap_inv (db_keepalive_update_timestamp cfg (dv_time an) st)"
    by (rule keeps_inv [OF _ assms(2)]) (simp add: db_keepalive_update_timestamp_def keeps_refl)
  with assms show ?thesis
    by (auto simp: doorbell_transmission_cmd_recive_callback_def split: if_splits dest: dispatch_inv)
qed

lemma success_inv:
  assumes "db_keepalive_on_service_start_success cfg an st = Some st'" and "ap_inv st"
  shows "ap_inv st'"
proof -
  have cmd: "ap_inv st1" if "s_pending_wakeup_cmd st = x" "st' = st1\<lparr>s_pending_wakeup_cmd := 0\<rparr>" "ap_inv st'" for x st1
    using that by (simp add: ap_inv_def interval_ok_def votes_ok_def)
  have upd: "ap_inv (st1\<lparr>s_pending_wakeup_cmd := 0\<rparr>) = ap_inv st1" for st1
    by (simp add: ap_inv_def interval_ok_def votes_ok_def)
  show ?thesis
    using assms
    by (auto simp: db_keepalive_on_service_start_success_def db_keepalive_send_cmd_to_callback_def upd
        split: if_splits Option.bind_splits dest: callback_inv)
qed

lemma core_inv:
  assumes "core_step cfg an st = Some st'" and "ap_inv st"
  shows "ap_inv st'"
proof -
  obtain m q go st1 where q: "db_queue st = Some (m # q)"
    and h: "handle_msg cfg an m (st\<lparr>db_queue := Some q\<rparr>) = Some (go, st1)"
    and r: "st' = (if go then st1 else core_exit cfg st1)"
    using assms(1) by (auto simp: core_step_def split: option.splits list.splits Option.bind_splits)
  let ?st = "st\<lparr>db_queue := Some q\<rparr>"
  have inv: "ap_inv ?st" by (rule keeps_inv [OF _ assms(2)]) (simp add: keeps_refl)
  have conn: "ap_inv st2" if "device_connected cfg an ?st = Some st2" for st2
    using that inv by (auto simp: device_connected_def Let_def intro!: start_check_inv dest!: success_inv
        split: if_splits Option.bind_splits)
  have "ap_inv st1"
    using h inv conn keeps_inv [OF _ inv]
    by (auto simp: handle_msg_def Let_def keeps_refl split: if_splits)
  moreover have "ap_inv (core_exit cfg st1)" if "ap_inv st1"
    by (rule keeps_inv [OF _ that]) (simp add: core_exit_def Let_def keeps_refl)
  ultimately show ?thesis by (simp add: r)
qed

theorem ap_inv_step:
  assumes "ap_do cfg a st = Some st'" and "ap_inv st"
  shows "ap_inv st'"
proof (cases a)
  case (Core_task an)
  with assms show ?thesis by (auto intro: core_inv)
next
  case (Command an bs)
  with assms show ?thesis by (auto simp: doorbell_bk_net_cntrl_recv_def intro: callback_inv)
next
  case (Cli an argv)
  with assms show ?thesis by (auto simp: db_keepalive_cli_cmd_def interval_set_inv)
qed (use assms keeps_inv [OF _ assms(2)] in \<open>auto simp: keeps_refl doorbell_keep_alive_timer_handler_def
    doorbell_wifi_event_cb_def split: if_splits wifi_linkstate.splits\<close>)

theorem ap_inv_run:
  assumes "ap_run cfg as st = Some st'" and "ap_inv st"
  shows "ap_inv st'"
  using assms
proof (induction as arbitrary: st)
  case (Cons a as)
  then show ?case
    by (cases "ap_do cfg a st") (auto intro: ap_inv_step)
qed simp

lemma ap_inv_boot: "ap_inv (ap_boot f)"
  by (simp add: ap_boot_def ap_power_on_def doorbell_core_init_def ap_inv_def interval_ok_def votes_ok_def
      interval_defs Let_def)

text \<open>
  The interval of the status timer is always between one second and five minutes, and the
  status word has no bit beyond the three votes, whatever commands, command lines, flash
  contents, events and wake-up reasons the core meets.
\<close>
lemma interval_and_votes_in_range:
  assumes "ap_run cfg as (ap_boot f) = Some st"
  shows "MM_STATUS_CHECK_MIN_INTERVAL_MS \<le> s_mm_status_check_interval_ms st \<and>
    s_mm_status_check_interval_ms st \<le> DB_KEEPALIVE_INTERVAL_MAX_MS \<and> mm_service_status st < 8"
proof -
  have "ap_inv st" using ap_inv_run [OF assms ap_inv_boot] .
  moreover have "mm_service_status st < 8" if "take_bit 3 (mm_service_status st) = mm_service_status st"
  proof -
    have "unat (take_bit 3 (mm_service_status st)) < 2 ^ 3"
      using take_bit_nat_less_exp [of 3 "unat (mm_service_status st)"] by (simp add: unsigned_take_bit_eq)
    with that show ?thesis by (simp add: word_less_nat_alt)
  qed
  ultimately show ?thesis
    by (simp add: ap_inv_def interval_ok_def votes_ok_def)
qed

text \<open>
  A vote sets or clears the bit of its service and no other; the status is zero exactly
  when no service has a vote.
\<close>
lemma vote_changes_one_bit:
  assumes "b \<in> {MM_STATUS_CAMERA_BIT, MM_STATUS_AUDIO_BIT, MM_STATUS_LCD_BIT}"
  shows "fst (doorbell_mm_service_vote b add st) = mm_service_status (snd (doorbell_mm_service_vote b add st)) \<and>
    (\<forall>i. bit (mm_service_status (snd (doorbell_mm_service_vote b add st))) i =
       (if i = b then add else bit (mm_service_status st) i))"
proof -
  have "b \<le> 2" using assms by (auto simp: mm_defs)
  then show ?thesis
    using vote_bits [of b add st] by (simp add: doorbell_mm_service_vote_def Let_def split: option.split)
qed



text \<open>A configuration and answers to run the core with.\<close>

definition lp_config :: ap_config where
  "lp_config = \<lparr>client_service = True, bluetooth_ap = True, cs2 = True, low_power = True,
     chan_no = (\<lambda>c. case c of Chan_ctrl \<Rightarrow> 0 | Chan_video \<Rightarrow> 1 | Chan_audio \<Rightarrow> 2), ENOTCONN = 107\<rparr>"

definition dev_ok :: dev_answer where
  "dev_ok = \<lparr>dv_malloc = True, dv_timer_init = True, dv_timer_start = True, dv_timer_stop = True,
     dv_timer_deinit = True, dv_camera_on = 0, dv_camera_off = 0, dv_audio_on = 0, dv_audio_off = 0,
     dv_acoustics = 0, dv_display_on = 0, dv_display_off = 0, dv_time = 1000, dv_garbage = 0\<rparr>"

definition timer_ok :: timer_answer where
  "timer_ok = \<lparr>ta_stop = True, ta_deinit = True, ta_init = True, ta_start = True\<rparr>"

definition core_ok :: core_answer where
  "core_ok = \<lparr>ca_dev = dev_ok, ca_timer = timer_ok, ca_ipc = 0, ca_ip = [], ca_station = (\<lambda>_. ([], []))\<rparr>"

definition demo_net :: server_net_info where
  "demo_net = \<lparr>ip_addr = ascii ''10.0.0.9'', cmd_port = ascii ''7180'', video_port = ascii ''7181'', audio_port = ascii ''7182''\<rparr>"

definition demo_flash :: flash where
  "demo_flash = \<lparr>fl_wifi = None, fl_service = Some DOORBELL_SERVICE_LAN_TCP, fl_interval = Some 5, fl_net = Some demo_net,
     fl_writable = True\<rparr>"

section \<open>Answers to commands\<close>

definition is_answer :: "ap_event \<Rightarrow> bool" where
  "is_answer e = (case e of Ctrl_send _ \<Rightarrow> True | _ \<Rightarrow> False)"

definition answers :: "ap_state \<Rightarrow> ap_event list" where
  "answers st = filter is_answer (ap_log st)"

lemma answers_simps [simp]:
  "answers (ap_emit es st) = answers st @ filter is_answer es"
  "answers (ap_event_report opc stt fl st) =
     answers st @ [Ctrl_send (evt_bytes \<lparr>evt_opcode = opc, evt_status = stt, evt_flags = fl, evt_length = 0\<rparr>)]"
  "answers (st\<lparr>mm_service_status := a\<rparr>) = answers st"
  "answers (st\<lparr>db_cmd_info := b\<rparr>) = answers st"
  "answers (st\<lparr>db_queue := c\<rparr>) = answers st"
  "answers (st\<lparr>s_last_update_timestamp := d\<rparr>) = answers st"
  "answers (vote_if x bt add st) = answers st"
  "answers (snd (doorbell_send_msg m st)) = answers st"
  "answers (db_keepalive_update_timestamp cfg now st) = answers st"
  by (simp_all add: answers_def ap_event_report_def is_answer_def vote_if_def doorbell_mm_service_vote_def
      doorbell_send_msg_def db_keepalive_update_timestamp_def Let_def split: option.split)

lemma is_answer_simps [simp]:
  "\<not> is_answer (Camera_on a)" "\<not> is_answer Camera_off" "\<not> is_answer Video_transfer_on" "\<not> is_answer Video_transfer_off"
  "\<not> is_answer (Audio_on b)" "\<not> is_answer Audio_off" "\<not> is_answer (Display_on c)" "\<not> is_answer Display_off"
  "\<not> is_answer (Audio_acoustics d e)" "\<not> is_answer (Timer_init f)" "\<not> is_answer Timer_start" "\<not> is_answer Timer_stop"
  "\<not> is_answer Timer_gone" "\<not> is_answer (Device_query g)"
  by (simp_all add: is_answer_def)

lemma answers_keep_alive [simp]:
  "answers (snd (doorbell_keep_alive_start_timer an ms st)) = answers st"
  "answers (snd (doorbell_keep_alive_stop_timer an st)) = answers st"
  "answers (snd (doorbell_cmd_server_init an st)) = answers st"
  "answers (snd (doorbell_cmd_server_deinit st)) = answers st"
  by (simp_all add: doorbell_keep_alive_start_timer_def start_new_timer_def doorbell_keep_alive_stop_timer_def
      doorbell_cmd_server_init_def doorbell_cmd_server_deinit_def Let_def split: option.split)

text \<open>The opcodes the dispatcher leaves to other code, or ignores.\<close>

definition unanswered :: "u32 \<Rightarrow> bool" where
  "unanswered opc \<longleftrightarrow> opc \<in> {DBCMD_GET_SUPPORTED_CAMERA_DEVICES, DBCMD_GET_SUPPORTED_LCD_DEVICES,
     DBCMD_GET_CAMERA_STATUS, DBCMD_GET_AUDIO_STATUS, DBCMD_GET_LCD_STATUS}"

lemma dispatch_answers:
  assumes "dispatch an cmd p st = Some st'" and "\<not> unanswered (cmd_opcode cmd)"
  shows "\<exists>stt. answers st' = answers st @
    [Ctrl_send (evt_bytes \<lparr>evt_opcode = cmd_opcode cmd, evt_status = stt, evt_flags = EVT_FLAGS_COMPLETE, evt_length = 0\<rparr>)]"
  using assms unfolding dispatch_def Let_def
  by (auto simp: unanswered_def cmd_set_service_type_def cmd_set_keep_alive_def cmd_camera_on_def cmd_camera_off_def
      cmd_audio_on_def cmd_audio_off_def cmd_display_on_def cmd_display_off_def cmd_acoustics_def Let_def
      split: if_splits Option.bind_splits)

text \<open>
  C24. Every command is answered once: a command with a whole header, and all the payload its
  opcode needs, produces exactly one event on the control channel, complete, with the opcode of
  the command, whatever the devices return; the five status queries are left to the device
  code.
\<close>
theorem every_command_answered:
  assumes "doorbell_transmission_cmd_recive_callback cfg an bs st = Some st'"
    and "CMD_HEAD_SIZE \<le> length bs" and "length bs < 2 ^ 16"
    and "\<not> unanswered (cmd_opcode (read_cmd bs))"
  shows "\<exists>stt. answers st' = answers st @
    [Ctrl_send (evt_bytes \<lparr>evt_opcode = cmd_opcode (read_cmd bs), evt_status = stt,
      evt_flags = EVT_FLAGS_COMPLETE, evt_length = 0\<rparr>)]"
proof -
  have "unat (of_nat (length bs) :: u16) = length bs"
    using assms(3) by (simp add: unat_of_nat take_bit_nat_eq_self)
  with assms(1,2) have "dispatch an (read_cmd bs) (drop CMD_HEAD_SIZE bs) (db_keepalive_update_timestamp cfg (dv_time an) st) =
      Some st'"
    by (simp add: doorbell_transmission_cmd_recive_callback_def)
  from dispatch_answers [OF this assms(4)] show ?thesis by simp
qed

theorem every_command_answered_witness:
  "\<exists>st' stt. doorbell_transmission_cmd_recive_callback lp_config dev_ok [19, 0, 0, 0, 0, 0, 0, 0, 0, 0] (ap_boot demo_flash) =
     Some st' \<and> answers st' = answers (ap_boot demo_flash) @
       [Ctrl_send (evt_bytes \<lparr>evt_opcode = 19, evt_status = stt, evt_flags = EVT_FLAGS_COMPLETE, evt_length = 0\<rparr>)]"
proof -
  let ?bs = "[19, 0, 0, 0, 0, 0, 0, 0, 0, 0] :: u8 list"
  have c: "cmd_opcode (read_cmd ?bs) = 19" by (simp add: read_cmd_def get32_def)
  obtain st' where r: "doorbell_transmission_cmd_recive_callback lp_config dev_ok ?bs (ap_boot demo_flash) = Some st'"
    by (simp add: doorbell_transmission_cmd_recive_callback_def CMD_HEAD_SIZE_def dispatch_def c ap_cmd_defs Let_def)
  from every_command_answered [OF this] c show ?thesis
    by (auto simp: r CMD_HEAD_SIZE_def unanswered_def ap_cmd_defs)
qed

section \<open>The channels\<close>

text \<open>
  What a history of channel events says, newest first: a channel is up when its last event
  is the connection, and no start or stop of the control channel came after.
\<close>

fun up :: "(trans_evt_code \<times> chan_type_t) list \<Rightarrow> chan_type_t \<Rightarrow> bool" where
  "up [] c = False"
| "up ((code, c') # es) c =
     (case code of
        EVT_CONNECTED \<Rightarrow> c' = c \<or> up es c
      | EVT_DISCONNECTED \<Rightarrow> c' \<noteq> c \<and> up es c
      | EVT_START \<Rightarrow> c' \<noteq> Chan_ctrl \<and> up es c
      | EVT_STOP \<Rightarrow> c' \<noteq> Chan_ctrl \<and> up es c
      | EVT_OTHER \<Rightarrow> up es c)"

definition chans_ok :: "ap_config \<Rightarrow> bool" where
  "chans_ok cfg \<longleftrightarrow> inj (chan_no cfg) \<and> (\<forall>c. chan_no cfg c < 8)"

text \<open>The mask after a history, newest event first, through the handlers of the code.\<close>

fun channel_events :: "ap_config \<Rightarrow> u8 list \<Rightarrow> ntwk_trans_event_t list \<Rightarrow> ap_state \<Rightarrow> ap_state" where
  "channel_events cfg name [] st = st"
| "channel_events cfg name (e # es) st =
     doorbell_bk_net_msg_evt_handle cfg (Some name) (Some e) (channel_events cfg name es st)"

lemma chan_bit_bit: "chans_ok cfg \<Longrightarrow> bit (chan_bit cfg c) i \<longleftrightarrow> i = chan_no cfg c"
  unfolding chans_ok_def chan_bit_def by (auto simp: bit_simps) 

lemma mask_send [simp]: "chan_connected_mask (snd (doorbell_send_msg m st)) = chan_connected_mask st"
  by (simp add: doorbell_send_msg_def split: option.split)

lemma event_mask:
  assumes "client_service cfg"
  shows "chan_connected_mask (doorbell_bk_net_msg_evt_handle cfg (Some name) (Some e) st) =
    (case ev_code e of
       EVT_CONNECTED \<Rightarrow> chan_connected_mask st OR chan_bit cfg (ev_chan e)
     | EVT_DISCONNECTED \<Rightarrow> chan_connected_mask st AND NOT (chan_bit cfg (ev_chan e))
     | EVT_OTHER \<Rightarrow> chan_connected_mask st
     | _ \<Rightarrow> if ev_chan e = Chan_ctrl then 0 else chan_connected_mask st)"
  using assms
  by (simp add: doorbell_bk_net_msg_evt_handle_def handle_start_event_def handle_connected_event_def
      handle_disconnected_event_def handle_stop_event_def reset_chan_connected_mask_def set_chan_connected_def
      clear_chan_connected_def Let_def case_prod_beta split: trans_evt_code.split)

lemma mask_bits:
  assumes "client_service cfg" and "chans_ok cfg" and "chan_connected_mask st = 0"
  shows "bit (chan_connected_mask (channel_events cfg name es st)) (chan_no cfg c) =
    up (map (\<lambda>e. (ev_code e, ev_chan e)) es) c"
proof (induction es)
  case Nil
  then show ?case by (simp add: assms(3))
next
  case (Cons e es)
  have inj: "chan_no cfg c = chan_no cfg d \<longleftrightarrow> c = d" for d
    using assms(2) by (auto simp: chans_ok_def inj_eq)
  have "chan_no cfg c < 8" using assms(2) by (simp add: chans_ok_def)
  with Cons inj show ?case
    by (auto simp: event_mask [OF assms(1)] bit_or_iff bit_and_iff bit_not_iff chan_bit_bit [OF assms(2)]
        split: trans_evt_code.split)
qed

lemma and_absorb_bits: "w AND m = m \<longleftrightarrow> (\<forall>i. bit m i \<longrightarrow> bit w i)" for w m :: u8
proof
  show "\<forall>i. bit m i \<longrightarrow> bit w i" if "w AND m = m"
    using that by (metis bit_and_iff)
  show "w AND m = m" if "\<forall>i. bit m i \<longrightarrow> bit w i"
    using that by (intro bit_eqI) (auto simp: bit_and_iff)
qed

lemma all_connected:
  assumes "chans_ok cfg"
  shows "check_all_channels_connected cfg st \<longleftrightarrow> (\<forall>c. bit (chan_connected_mask st) (chan_no cfg c))"
proof -
  have all: "bit (ALL_CHAN_MASK cfg) i \<longleftrightarrow> (\<exists>c. i = chan_no cfg c)" for i
    by (auto simp: ALL_CHAN_MASK_def bit_or_iff chan_bit_bit [OF assms]) (metis chan_type_t.exhaust)
  have "check_all_channels_connected cfg st \<longleftrightarrow>
      (\<forall>i. bit (ALL_CHAN_MASK cfg) i \<longrightarrow> bit (chan_connected_mask st) i)"
    unfolding check_all_channels_connected_def by (rule and_absorb_bits)
  also have "\<dots> \<longleftrightarrow> (\<forall>c. bit (chan_connected_mask st) (chan_no cfg c))"
    by (auto simp: all)
  finally show ?thesis .
qed




section \<open>Into the keep-alive\<close>

lemma time_since_diff: "time_since now prev = now - prev"
  by (simp add: time_since_def)

text \<open>When the timer's tick is quiet: services with votes, or a command less than a second ago.\<close>

definition busy :: "u64 \<Rightarrow> ap_state \<Rightarrow> bool" where
  "busy now st \<longleftrightarrow> mm_service_status st \<noteq> 0 \<or>
     s_last_update_timestamp st \<noteq> 0 \<and> now - s_last_update_timestamp st < 1000"

lemma tick_busy: "busy now st \<Longrightarrow> db_keepalive_mm_status_check_timer_handler now st = st"
  by (auto simp: db_keepalive_mm_status_check_timer_handler_def busy_def doorbell_mm_service_get_status_def
      time_since_diff interval_defs)

lemma tick_pending:
  "s_pending_keepalive_after_service_stop st \<Longrightarrow> db_keepalive_mm_status_check_timer_handler now st = st"
  by (simp add: db_keepalive_mm_status_check_timer_handler_def db_keepalive_stop_service_if_running_def)

lemma tick_idle_pending:
  "\<not> busy now st \<Longrightarrow> s_pending_keepalive_after_service_stop (db_keepalive_mm_status_check_timer_handler now st)"
  by (auto simp: db_keepalive_mm_status_check_timer_handler_def busy_def doorbell_mm_service_get_status_def
      time_since_diff interval_defs db_keepalive_stop_service_if_running_def Let_def case_prod_beta)

text \<open>
  The status timer asks for the hand-over at most once: over any series of ticks nothing
  changes while the core is busy, and at the first tick it is not, what that tick does is all
  that happens, however many ticks follow, until the request is served.
\<close>
lemma handover_requested_once:
  "foldl (\<lambda>s now. db_keepalive_mm_status_check_timer_handler now s) st ticks =
     (case dropWhile (\<lambda>now. busy now st) ticks of
        [] \<Rightarrow> st
      | now # _ \<Rightarrow> db_keepalive_mm_status_check_timer_handler now st)"
proof (induction ticks)
  case Nil
  then show ?case by simp
next
  case (Cons now ticks)
  show ?case
  proof (cases "busy now st")
    case True
    with Cons show ?thesis by (simp add: tick_busy)
  next
    case False
    have stay: "foldl (\<lambda>s now. db_keepalive_mm_status_check_timer_handler now s) s ns = s"
      if "s_pending_keepalive_after_service_stop s" for s ns
      using that by (induction ns) (simp_all add: tick_pending)
    from False stay [OF tick_idle_pending [OF False]] show ?thesis by simp
  qed
qed

text \<open>
  The hand-over, with a TCP service saved in flash and running, a free queue and the server's
  address in flash: a tick of the timer in an idle core puts a message in the queue, and the core's
  handling of it stops the service first and then asks the control core, with the server's address,
  to take over; the timer is stopped and the request is no longer pending.
\<close>

definition hand_over_request :: "server_net_info \<Rightarrow> u8 list" where
  "hand_over_request info = cfg_bytes \<lparr>cfg_server = take 31 (c_string (ip_addr info)),
     cfg_port = word_of_int (atoi (cmd_port info))\<rparr>"

lemma idle_tick:
  assumes "\<not> busy now st" and "s_timer_started st" and "\<not> s_pending_keepalive_after_service_stop st"
    and "fl_service (ap_flash st) = Some DOORBELL_SERVICE_LAN_TCP" and "db_queue st = Some []"
  shows "ap_do cfg (Status_timer now) st =
    Some (st\<lparr>db_queue := Some [\<lparr>msg_event = DBEVT_LAN_TCP_SERVICE_STOP, msg_param = 0\<rparr>],
      s_pending_keepalive_after_service_stop := True\<rparr>)"
  using assms
  by (auto simp: db_keepalive_mm_status_check_timer_handler_def busy_def doorbell_mm_service_get_status_def
      time_since_diff interval_defs db_keepalive_stop_service_if_running_def
      doorbell_get_ntwk_service_info_from_flash_def doorbell_send_msg_def QUEUE_SIZE_def Let_def)

lemma idle_hands_over:
  assumes "s_pending_keepalive_after_service_stop st"
    and "db_queue st = Some [\<lparr>msg_event = DBEVT_LAN_TCP_SERVICE_STOP, msg_param = 0\<rparr>]"
    and "fl_net (ap_flash st) = Some info" and "c_string (ip_addr info) \<noteq> []" and "c_string (cmd_port info) \<noteq> []"
    and "low_power cfg" and "ca_ipc an = 0"
  shows "\<exists>st' es. ap_do cfg (Core_task an) st = Some st' \<and>
    ap_log st' = ap_log st @ [Trans_chan_stop Chan_ctrl, Trans_chan_stop Chan_video, Trans_chan_stop Chan_audio,
      Trans_service_deinit Tcp_service, Ipc_start (hand_over_request info)] @ es \<and>
    (\<forall>b. Ipc_start b \<notin> set es \<and> Ipc_stop b \<notin> set es) \<and> ap_flash st' = ap_flash st \<and>
    \<not> s_timer_started st' \<and> \<not> s_pending_keepalive_after_service_stop st' \<and> db_queue st' = Some []"
  using assms
  by (simp add: core_step_def handle_msg_def dbevt_defs stop_service_def doorbell_bk_network_transfer_deinit_def
      doorbell_network_transfer_stop_def db_keepalive_send_keepalive_def doorbell_get_server_net_info_from_flash_def
      db_ipc_start_keepalive_def db_keepalive_stop_mm_status_check_def hand_over_request_def Let_def)

text \<open>A core with the TCP service running and the timer started.\<close>

definition demo_idle :: ap_state where
  "demo_idle = (ap_boot demo_flash)\<lparr>db_service := DOORBELL_SERVICE_LAN_TCP, s_timer_started := True\<rparr>"

lemma demo_strings: "c_string (ip_addr demo_net) = ascii ''10.0.0.9''" "c_string (cmd_port demo_net) = ascii ''7180''"
  "ip_addr demo_net \<noteq> []" "c_string (ip_addr demo_net) \<noteq> []" "c_string (cmd_port demo_net) \<noteq> []"
  by (simp_all add: demo_net_def c_string_def ascii_def)

lemma demo_idle_simps:
  "mm_service_status demo_idle = 0" "s_last_update_timestamp demo_idle = 0" "s_timer_started demo_idle"
  "\<not> s_pending_keepalive_after_service_stop demo_idle" "ap_flash demo_idle = demo_flash" "db_queue demo_idle = Some []"
  "ap_log demo_idle = []"
  by (simp_all add: demo_idle_def ap_boot_def ap_power_on_def doorbell_core_init_def Let_def)

lemma demo_flash_simps:
  "fl_service (ap_flash demo_idle) = Some DOORBELL_SERVICE_LAN_TCP" "fl_net (ap_flash demo_idle) = Some demo_net"
  by (simp_all add: demo_idle_simps demo_flash_def)

lemma lp_simps: "low_power lp_config" "ca_ipc core_ok = 0" "client_service lp_config" "bluetooth_ap lp_config"
  "ca_dev core_ok = dev_ok" "dv_malloc dev_ok" "ca_timer core_ok = timer_ok"
  by (simp_all add: lp_config_def core_ok_def dev_ok_def)


section \<open>Out of the keep-alive\<close>

text \<open>The event that tells the server the wake-up request was carried out.\<close>

definition wake_answer :: ap_event where
  "wake_answer = Ctrl_send (evt_bytes \<lparr>evt_opcode = DBCMD_WAKE_UP_REQUEST, evt_status = EVT_STATUS_OK,
     evt_flags = EVT_FLAGS_COMPLETE, evt_length = 0\<rparr>)"

definition wake_cmd :: "u8 list" where
  "wake_cmd = cmd_bytes \<lparr>cmd_opcode = DBCMD_WAKE_UP_REQUEST, cmd_param = 0, cmd_length = 0\<rparr>"

lemma wake_cmd_read: "length wake_cmd = 10" "cmd_opcode (read_cmd wake_cmd) = DBCMD_WAKE_UP_REQUEST"
  by (simp_all add: wake_cmd_def cmd_bytes_def le32_def le16_def read_cmd_def get32_def DBCMD_WAKE_UP_REQUEST_def)

lemma wake_dispatch:
  "doorbell_transmission_cmd_recive_callback cfg an wake_cmd st =
     Some (ap_emit [wake_answer] (db_keepalive_update_timestamp cfg (dv_time an) st))"
  by (simp add: doorbell_transmission_cmd_recive_callback_def wake_cmd_read CMD_HEAD_SIZE_def dispatch_def
      ap_cmd_defs ap_event_report_def wake_answer_def Let_def)

lemma service_started:
  assumes "s_pending_wakeup_cmd st = DBCMD_WAKE_UP_REQUEST" and "dv_malloc an"
  shows "db_keepalive_on_service_start_success cfg an st =
    Some ((ap_emit [wake_answer] (db_keepalive_update_timestamp cfg (dv_time an) st))\<lparr>s_pending_wakeup_cmd := 0\<rparr>)"
  using assms wake_dispatch [of cfg an st]
  by (simp add: db_keepalive_on_service_start_success_def db_keepalive_send_cmd_to_callback_def wake_cmd_def DBCMD_WAKE_UP_REQUEST_def)

text \<open>The first half: the reason is read, Bluetooth goes off, the service is started.\<close>

lemma wakeup_starts_service:
  assumes "fl_service (ap_flash st) = Some DOORBELL_SERVICE_LAN_TCP" and "db_service st = DOORBELL_SERVICE_NONE"
    and "db_queue st = Some []" and "fl_net (ap_flash st) = Some info"
    and "client_service cfg" and "bluetooth_ap cfg"
  shows "\<exists>st'. ap_run cfg [Wakeup 0 (Some POWERUP_MULTIMEDIA_WAKEUP_HOST_FLAG), Core_task a, Core_task b] st = Some st' \<and>
    ap_log st' = ap_log st @ [Ipc_stop (replicate CFG_SIZE 0), Bluetooth_deinit, Net_info_set info,
      Trans_service_init Tcp_service, Trans_chan_start Chan_ctrl, Trans_chan_start Chan_video, Trans_chan_start Chan_audio] \<and>
    s_pending_wakeup_cmd st' = DBCMD_WAKE_UP_REQUEST \<and> db_queue st' = Some [] \<and>
    db_service st' = DOORBELL_SERVICE_LAN_TCP \<and> chan_connected_mask st' = chan_connected_mask st"
proof -
  let ?q = "[\<lparr>msg_event = DBEVT_BLE_DISABLE, msg_param = 0\<rparr>, \<lparr>msg_event = DBEVT_LAN_TCP_SERVICE_START_REQUEST, msg_param = 0\<rparr>]"
  let ?st1 = "ap_emit [Ipc_stop (replicate CFG_SIZE 0)] (st\<lparr>db_queue := Some ?q, s_pending_wakeup_cmd := DBCMD_WAKE_UP_REQUEST\<rparr>)"
  have 1: "ap_do cfg (Wakeup 0 (Some POWERUP_MULTIMEDIA_WAKEUP_HOST_FLAG)) st = Some ?st1"
    using assms(1-3)
    by (simp add: db_keepalive_handle_wakeup_reason_def powerup_defs db_keepalive_disable_bluetooth_def
        doorbell_send_msg_def QUEUE_SIZE_def db_ipc_stop_keepalive_def db_keepalive_start_service_from_flash_def
        doorbell_get_ntwk_service_info_from_flash_def service_defs ap_emit_def Let_def)
  let ?st2 = "ap_emit [Bluetooth_deinit] (?st1\<lparr>db_queue := Some (tl ?q)\<rparr>)"
  have 2: "ap_do cfg (Core_task a) ?st1 = Some ?st2"
    using assms(6) by (simp add: core_step_def handle_msg_def dbevt_defs Let_def)
  let ?st3 = "start_service cfg DOORBELL_SERVICE_LAN_TCP Tcp_service (?st2\<lparr>db_queue := Some []\<rparr>)"
  have 3: "ap_do cfg (Core_task b) ?st2 = Some ?st3"
    by (simp add: core_step_def handle_msg_def dbevt_defs Let_def)
  have "ap_run cfg [Wakeup 0 (Some POWERUP_MULTIMEDIA_WAKEUP_HOST_FLAG), Core_task a, Core_task b] st = Some ?st3"
    unfolding ap_run.simps 1 2 3 bind.simps by simp
  moreover have "ap_log ?st3 = ap_log st @ [Ipc_stop (replicate CFG_SIZE 0), Bluetooth_deinit, Net_info_set info,
      Trans_service_init Tcp_service, Trans_chan_start Chan_ctrl, Trans_chan_start Chan_video, Trans_chan_start Chan_audio] \<and>
    s_pending_wakeup_cmd ?st3 = DBCMD_WAKE_UP_REQUEST \<and> db_queue ?st3 = Some [] \<and>
    db_service ?st3 = DOORBELL_SERVICE_LAN_TCP \<and> chan_connected_mask ?st3 = chan_connected_mask st"
    using assms(2,4,5)
    by (simp add: start_service_def doorbell_save_ntwk_service_info_to_flash_def fl_set_def
        doorbell_bk_network_transfer_init_def doorbell_get_server_net_info_from_flash_def
        doorbell_network_transfer_start_def Let_def)
  ultimately show ?thesis by blast
qed

text \<open>The second half: when the channels are up the request is answered, once.\<close>

lemma connected_answers:
  assumes "s_pending_wakeup_cmd st = DBCMD_WAKE_UP_REQUEST" and "client_service cfg" and "low_power cfg"
    and "db_queue st = Some [\<lparr>msg_event = DBEVT_REMOTE_DEVICE_CONNECTED, msg_param = 0\<rparr>]" and "dv_malloc (ca_dev an)"
  shows "\<exists>st' es. ap_do cfg (Core_task an) st = Some st' \<and> ap_log st' = ap_log st @ wake_answer # es \<and>
    s_pending_wakeup_cmd st' = 0 \<and> wake_answer \<notin> set es \<and> (\<forall>b. Ipc_start b \<notin> set es)"
proof -
  let ?st = "st\<lparr>db_queue := Some []\<rparr>"
  let ?st1 = "(ap_emit [wake_answer] (db_keepalive_update_timestamp cfg (dv_time (ca_dev an)) ?st))\<lparr>s_pending_wakeup_cmd := 0\<rparr>"
  have "db_keepalive_on_service_start_success cfg (ca_dev an) ?st = Some ?st1"
    using service_started [of ?st "ca_dev an" cfg] assms(1,5) by simp
  then have "ap_do cfg (Core_task an) st = Some (snd (db_keepalive_start_mm_status_check (ca_timer an) ?st1))"
    using assms(2-4) by (simp add: core_step_def handle_msg_def dbevt_defs device_connected_def Let_def)
  moreover have "\<exists>es. ap_log (snd (db_keepalive_start_mm_status_check (ca_timer an) s)) = ap_log s @ es \<and>
      s_pending_wakeup_cmd (snd (db_keepalive_start_mm_status_check (ca_timer an) s)) = s_pending_wakeup_cmd s \<and>
      wake_answer \<notin> set es \<and> (\<forall>b. Ipc_start b \<notin> set es)" for s
    by (simp add: db_keepalive_start_mm_status_check_def doorbell_get_keepalive_interval_from_flash_def wake_answer_def
        Let_def split: option.split)
  moreover have "ap_log ?st1 = ap_log st @ [wake_answer]"
    by (simp add: db_keepalive_update_timestamp_def)
  moreover have "s_pending_wakeup_cmd ?st1 = 0" by simp
  ultimately show ?thesis
    by (metis append.assoc append_Cons append_Nil)
qed

text \<open>The three channels coming up, from none.\<close>

definition conn_event :: "chan_type_t \<Rightarrow> ntwk_trans_event_t" where
  "conn_event c = \<lparr>ev_code = EVT_CONNECTED, ev_chan = c, ev_param = 0\<rparr>"

lemma channels_up:
  assumes "client_service cfg" and "chans_ok cfg" and "chan_connected_mask st = 0" and "db_queue st = Some []"
    and "name = ascii ''tcp_service''"
  shows "\<exists>st'. ap_run cfg (map (\<lambda>c. Net_event (Some name) (Some (conn_event c))) [Chan_ctrl, Chan_video, Chan_audio]) st = Some st' \<and>
    ap_log st' = ap_log st \<and> s_pending_wakeup_cmd st' = s_pending_wakeup_cmd st \<and>
    db_queue st' = Some [\<lparr>msg_event = DBEVT_REMOTE_DEVICE_CONNECTED, msg_param = 0\<rparr>] \<and> db_service st' = db_service st"
proof -
  have t: "ntwk_type_of name = DB_NTWK_TYPE_TCP" by (simp add: ntwk_type_of_def assms(5))
  have h: "doorbell_bk_net_msg_evt_handle cfg (Some name) (Some (conn_event c)) s =
      (if \<forall>d. bit (chan_connected_mask (set_chan_connected cfg c s)) (chan_no cfg d)
       then snd (doorbell_send_msg \<lparr>msg_event = DBEVT_REMOTE_DEVICE_CONNECTED, msg_param = 0\<rparr> (set_chan_connected cfg c s))
       else set_chan_connected cfg c s)" for c s
    by (simp add: doorbell_bk_net_msg_evt_handle_def conn_event_def handle_connected_event_def assms(1) t
        all_connected [OF assms(2)] dbevt_defs Let_def)
  have b: "bit (chan_connected_mask (set_chan_connected cfg c s)) (chan_no cfg d) \<longleftrightarrow>
      c = d \<or> bit (chan_connected_mask s) (chan_no cfg d)" for c d s
    using assms(2) by (auto simp: set_chan_connected_def bit_or_iff chan_bit_bit chans_ok_def inj_eq)
  let ?st1 = "set_chan_connected cfg Chan_ctrl st"
  let ?st2 = "set_chan_connected cfg Chan_video ?st1"
  let ?st3 = "set_chan_connected cfg Chan_audio ?st2"
  have no: "\<not> bit (chan_connected_mask st) i" for i by (simp add: assms(3))
  have 1: "doorbell_bk_net_msg_evt_handle cfg (Some name) (Some (conn_event Chan_ctrl)) st = ?st1"
    unfolding h b using no by (metis chan_type_t.distinct(1))
  have 2: "doorbell_bk_net_msg_evt_handle cfg (Some name) (Some (conn_event Chan_video)) ?st1 = ?st2"
    unfolding h b using no by (metis chan_type_t.distinct(3,5))
  have "bit (chan_connected_mask ?st3) (chan_no cfg d)" for d
    unfolding b by (cases d) simp_all
  then have 3: "doorbell_bk_net_msg_evt_handle cfg (Some name) (Some (conn_event Chan_audio)) ?st2 =
      ?st3\<lparr>db_queue := Some [\<lparr>msg_event = DBEVT_REMOTE_DEVICE_CONNECTED, msg_param = 0\<rparr>]\<rparr>"
    unfolding h by (simp add: doorbell_send_msg_def set_chan_connected_def assms(4) QUEUE_SIZE_def)
  show ?thesis
    by (simp add: 1 2 3) (simp add: set_chan_connected_def)
qed

lemma ap_run_append: "ap_run cfg (as @ bs) st = Option.bind (ap_run cfg as st) (ap_run cfg bs)"
  by (induction as arbitrary: st) (auto split: Option.bind_splits)

text \<open>
  A multimedia wake-up is answered: when the control core woke this core because the server
  asked for it, with a TCP service in flash, this core stops the keep-alive first, switches
  Bluetooth off, starts the service, and when the three channels are connected tells the server
  that the wake-up request was carried out, exactly once.
\<close>
lemma wakeup_answered:
  assumes "fl_service (ap_flash st) = Some DOORBELL_SERVICE_LAN_TCP" and "db_service st = DOORBELL_SERVICE_NONE"
    and "db_queue st = Some []" and "fl_net (ap_flash st) = Some info" and "chan_connected_mask st = 0"
    and "client_service cfg" and "bluetooth_ap cfg" and "low_power cfg" and "chans_ok cfg"
    and "dv_malloc (ca_dev c)" and "wake_answer \<notin> set (ap_log st)"
  shows "\<exists>st' es. ap_run cfg ([Wakeup 0 (Some POWERUP_MULTIMEDIA_WAKEUP_HOST_FLAG), Core_task a, Core_task b] @
      map (\<lambda>ch. Net_event (Some (ascii ''tcp_service'')) (Some (conn_event ch))) [Chan_ctrl, Chan_video, Chan_audio] @
      [Core_task c]) st = Some st' \<and>
    ap_log st' = ap_log st @ [Ipc_stop (replicate CFG_SIZE 0), Bluetooth_deinit, Net_info_set info,
      Trans_service_init Tcp_service, Trans_chan_start Chan_ctrl, Trans_chan_start Chan_video, Trans_chan_start Chan_audio,
      wake_answer] @ es \<and>
    wake_answer \<notin> set es \<and> (\<forall>b. Ipc_start b \<notin> set es) \<and> s_pending_wakeup_cmd st' = 0"
proof -
  obtain st1 where 1: "ap_run cfg [Wakeup 0 (Some POWERUP_MULTIMEDIA_WAKEUP_HOST_FLAG), Core_task a, Core_task b] st = Some st1"
    "ap_log st1 = ap_log st @ [Ipc_stop (replicate CFG_SIZE 0), Bluetooth_deinit, Net_info_set info,
      Trans_service_init Tcp_service, Trans_chan_start Chan_ctrl, Trans_chan_start Chan_video, Trans_chan_start Chan_audio]"
    "s_pending_wakeup_cmd st1 = DBCMD_WAKE_UP_REQUEST" "db_queue st1 = Some []" "chan_connected_mask st1 = 0"
    using wakeup_starts_service [OF assms(1-4,6,7), of a b] assms(5) by metis
  obtain st2 where 2: "ap_run cfg (map (\<lambda>ch. Net_event (Some (ascii ''tcp_service'')) (Some (conn_event ch)))
      [Chan_ctrl, Chan_video, Chan_audio]) st1 = Some st2" "ap_log st2 = ap_log st1"
    "s_pending_wakeup_cmd st2 = DBCMD_WAKE_UP_REQUEST"
    "db_queue st2 = Some [\<lparr>msg_event = DBEVT_REMOTE_DEVICE_CONNECTED, msg_param = 0\<rparr>]"
    using channels_up [OF assms(6,9) 1(5,4) refl] 1(3) by metis
  obtain st3 es where 3: "ap_do cfg (Core_task c) st2 = Some st3" "ap_log st3 = ap_log st2 @ wake_answer # es"
    "s_pending_wakeup_cmd st3 = 0" "wake_answer \<notin> set es" "\<forall>b. Ipc_start b \<notin> set es"
    using connected_answers [OF 2(3) assms(6,8) 2(4) assms(10)] by blast
  have "ap_run cfg [Core_task c] st2 = Some st3"
    unfolding ap_run.simps 3(1) bind.simps by simp
  then have "ap_run cfg ([Wakeup 0 (Some POWERUP_MULTIMEDIA_WAKEUP_HOST_FLAG), Core_task a, Core_task b] @
      map (\<lambda>ch. Net_event (Some (ascii ''tcp_service'')) (Some (conn_event ch))) [Chan_ctrl, Chan_video, Chan_audio] @
      [Core_task c]) st = Some st3"
    unfolding ap_run_append 1(1) 2(1) bind.simps by simp
  with 1(2) 2(2) 3(2-5) show ?thesis
    by (intro exI [of _ st3] exI [of _ es]) (simp only: append.assoc append_Cons append_Nil, simp)
qed

lemma lp_chans: "chans_ok lp_config"
  by (auto simp: chans_ok_def lp_config_def inj_def split: chan_type_t.split)


text \<open>
  A normal power-on forgets everything: with a flash that takes writes, the power-on reason
  erases the four records, the Wi-Fi credentials, the service, the interval and the server's
  address, and leaves the rest of the core as it was.
\<close>
lemma power_on_erases_flash:
  assumes "fl_writable (ap_flash st)" and "client_service cfg"
  shows "db_keepalive_handle_wakeup_reason cfg r (Some POWERUP_POWER_WAKEUP_FLAG) st =
    st\<lparr>ap_flash := \<lparr>fl_wifi = None, fl_service = None, fl_interval = None, fl_net = None, fl_writable = True\<rparr>,
      s_pending_wakeup_cmd := 0\<rparr>"
  using assms
  by (simp add: db_keepalive_handle_wakeup_reason_def doorbell_del_all_info_from_flash_def
      doorbell_del_wifi_info_from_flash_def doorbell_del_ntwk_service_info_from_flash_def
      doorbell_del_keepalive_interval_from_flash_def doorbell_del_server_net_info_from_flash_def fl_set_def Let_def)


section \<open>At the edges\<close>

text \<open>
  With no TCP or UDP service in flash (none started yet, or CS2) there is nothing to stop, so the
  timer marks the hand-over pending without any message. Nothing then serves it: the following
  ticks take the pending flag for a message already sent, and the keep-alive is never started.
\<close>
theorem no_service_never_hands_over:
  assumes "\<not> busy now st" and "fl_service (ap_flash st) \<notin> {Some DOORBELL_SERVICE_LAN_TCP, Some DOORBELL_SERVICE_LAN_UDP}"
    and "\<not> s_pending_keepalive_after_service_stop st"
  shows "foldl (\<lambda>s now. db_keepalive_mm_status_check_timer_handler now s) st (now # ticks) =
    st\<lparr>s_pending_keepalive_after_service_stop := True\<rparr>"
proof -
  let ?st = "st\<lparr>s_pending_keepalive_after_service_stop := True\<rparr>"
  have "db_keepalive_mm_status_check_timer_handler now st = ?st"
    using assms
    by (auto simp: db_keepalive_mm_status_check_timer_handler_def busy_def doorbell_mm_service_get_status_def
        time_since_diff interval_defs db_keepalive_stop_service_if_running_def
        doorbell_get_ntwk_service_info_from_flash_def Let_def split: option.split)
  moreover have "foldl (\<lambda>s now. db_keepalive_mm_status_check_timer_handler now s) ?st ticks = ?st"
    by (induction ticks) (simp_all add: tick_pending)
  ultimately show ?thesis by simp
qed

text \<open>A key of 33 to 64 characters is refused as a long SSID; a long SSID is not.\<close>

theorem long_key_refused:
  "32 < length key \<Longrightarrow> doorbell_wifi_sta_connect ssid key st = (BK_FAIL, st)"
  by (simp add: doorbell_wifi_sta_connect_def)

theorem long_ssid_accepted:
  "length key \<le> 32 \<Longrightarrow> doorbell_wifi_sta_connect ssid key st = (BK_OK, ap_emit [Wifi_start ssid key] st)"
  by (simp add: doorbell_wifi_sta_connect_def)

text \<open>
  Switching the heartbeat off stops the timer and frees the record that holds its handle,
  without releasing the timer: switching on and off releases nothing.
\<close>
theorem heartbeat_timer_lost:
  assumes "db_cmd_info st = None" and "ms \<noteq> 0"
  shows "\<exists>st1 st2. dispatch dev_ok \<lparr>cmd_opcode = DBCMD_SET_KEEP_ALIVE, cmd_param = ms, cmd_length = 0\<rparr> [] st = Some st1 \<and>
    dispatch dev_ok \<lparr>cmd_opcode = DBCMD_SET_KEEP_ALIVE, cmd_param = 0, cmd_length = 0\<rparr> [] st1 = Some st2 \<and>
    db_cmd_info st2 = None \<and> (\<exists>es. ap_log st2 = ap_log st @ es \<and> Timer_init ms \<in> set es \<and> Timer_gone \<notin> set es)"
  using assms
  by (simp add: dispatch_def ap_cmd_defs cmd_set_keep_alive_def doorbell_cmd_server_init_def dev_ok_def
      doorbell_keep_alive_start_timer_def start_new_timer_def doorbell_keep_alive_stop_timer_def
      doorbell_cmd_server_deinit_def ap_event_report_def Let_def)

text \<open>A camera command that says it has no payload is read beyond its end.\<close>

theorem short_camera_command_overreads:
  assumes "length bs = CMD_HEAD_SIZE" and "cmd_opcode (read_cmd bs) = DBCMD_SET_CAMERA_TURN_ON"
  shows "doorbell_transmission_cmd_recive_callback cfg an bs st = None"
  using assms
  by (simp add: doorbell_transmission_cmd_recive_callback_def CMD_HEAD_SIZE_def dispatch_def ap_cmd_defs
      cmd_camera_on_def read_camera_def rd16_def Let_def)

end
