(* ===== verification/Keepalive_CP_Safety.thy ===== *)
theory Keepalive_CP_Safety
  imports Keepalive_CP
begin

text \<open>
  What holds in every state of the keep-alive client: the blocks it owns are exactly the ones
  its record points to, at most one socket is open, the packing layer is there when the
  buffers are, and nothing is freed twice. The invariant is \<open>ka_inv\<close>; it is proved for every
  action, then for every run from \<open>ka_boot\<close>.
\<close>

section \<open>Events change the log only\<close>

lemma cp_emit_simps [simp]:
  "s_keepalive_env (cp_emit es st) = s_keepalive_env st"
  "ka_pack (cp_emit es st) = ka_pack st"
  "s_bind_seed (cp_emit es st) = s_bind_seed st"
  "ka_tx (cp_emit es st) = ka_tx st"
  "ka_rx (cp_emit es st) = ka_rx st"
  "live (cp_emit es st) = live st"
  "next_block (cp_emit es st) = next_block st"
  "tokens (cp_emit es st) = tokens st"
  "open_socks (cp_emit es st) = open_socks st"
  "alarm (cp_emit es st) = alarm st"
  "cp_log (cp_emit es st) = cp_log st @ es"
  by (simp_all add: cp_emit_def)

lemma pl_simps [simp]:
  "s_keepalive_env (pl_wakeup_host f st) = s_keepalive_env st"
  "ka_pack (pl_wakeup_host f st) = ka_pack st"
  "ka_tx (pl_wakeup_host f st) = ka_tx st"
  "ka_rx (pl_wakeup_host f st) = ka_rx st"
  "live (pl_wakeup_host f st) = live st"
  "next_block (pl_wakeup_host f st) = next_block st"
  "tokens (pl_wakeup_host f st) = tokens st"
  "open_socks (pl_wakeup_host f st) = open_socks st"
  "cp_log (pl_wakeup_host f st) = cp_log st @ [Vote_boot_cp1 True, Cif_power_up_host, Listen_interval 1]"
  "s_keepalive_env (pl_power_down_host st) = s_keepalive_env st"
  "ka_pack (pl_power_down_host st) = ka_pack st"
  "ka_tx (pl_power_down_host st) = ka_tx st"
  "ka_rx (pl_power_down_host st) = ka_rx st"
  "live (pl_power_down_host st) = live st"
  "next_block (pl_power_down_host st) = next_block st"
  "tokens (pl_power_down_host st) = tokens st"
  "open_socks (pl_power_down_host st) = open_socks st"
  "cp_log (pl_power_down_host st) = cp_log st @ [Vote_boot_cp1 False, Cif_power_down_host, Listen_interval 10]"
  by (simp_all add: pl_wakeup_host_def pl_set_wakeup_reason_def pl_power_down_host_def
      pl_reset_wakeup_reason_def)

lemma set_reason_simps [simp]:
  "s_keepalive_env (pl_set_wakeup_reason f st) = s_keepalive_env st"
  "ka_pack (pl_set_wakeup_reason f st) = ka_pack st"
  "ka_tx (pl_set_wakeup_reason f st) = ka_tx st"
  "ka_rx (pl_set_wakeup_reason f st) = ka_rx st"
  "live (pl_set_wakeup_reason f st) = live st"
  "next_block (pl_set_wakeup_reason f st) = next_block st"
  "open_socks (pl_set_wakeup_reason f st) = open_socks st"
  "cp_log (pl_set_wakeup_reason f st) = cp_log st"
  by (simp_all add: pl_set_wakeup_reason_def)

section \<open>The invariant\<close>

text \<open>The packing layer as \<open>db_keepalive_cp_init\<close> sets it up.\<close>

definition pack_ready :: "pack_state \<Rightarrow> bool" where
  "pack_ready ps \<longleftrightarrow> (\<exists>ch. s_db_pack_chan ps = Some ch \<and> tx_ok ch \<and> tsize ch = DB_KEEPALIVE_MSG_BUFFER_SIZE)"

definition blocks :: "db_keepalive_env_t \<Rightarrow> nat option list" where
  "blocks e = [rx_buffer e, rx_raw_buffer e, sema e]"

definition no_bad_free :: "cp_event list \<Rightarrow> bool" where
  "no_bad_free es \<longleftrightarrow> (\<forall>b. Bad_free b \<notin> set es)"

text \<open>Resources: all there, or none.\<close>

definition res_full :: "ka_state \<Rightarrow> bool" where
  "res_full st \<longleftrightarrow> (\<exists>b r s. rx_buffer (s_keepalive_env st) = Some b \<and> rx_raw_buffer (s_keepalive_env st) = Some r \<and>
     sema (s_keepalive_env st) = Some s \<and> distinct [b, r, s] \<and> live st = {b, r, s} \<and>
     pack_ready (ka_pack st))"

definition res_none :: "ka_state \<Rightarrow> bool" where
  "res_none st \<longleftrightarrow> rx_buffer (s_keepalive_env st) = None \<and> rx_raw_buffer (s_keepalive_env st) = None \<and>
     sema (s_keepalive_env st) = None \<and> live st = {} \<and> s_db_pack_chan (ka_pack st) = None \<and>
     \<not> timer (s_keepalive_env st) \<and> \<not> keepalive_ongoing (s_keepalive_env st) \<and> \<not> tx_thread (s_keepalive_env st)"

definition res_base :: "ka_state \<Rightarrow> bool" where
  "res_base st \<longleftrightarrow> (\<forall>b \<in> live st. b < next_block st) \<and> no_bad_free (cp_log st) \<and> owns_all (ka_pack st)"

text \<open>Which resources a state of the transmit thread has.\<close>

fun tx_inv :: "tx_pc \<Rightarrow> ka_state \<Rightarrow> bool" where
  "tx_inv Tx_none st \<longleftrightarrow> open_socks st = {} \<and>
     (res_none st \<or> res_full st \<and> \<not> tx_thread (s_keepalive_env st) \<and> keepalive_ongoing (s_keepalive_env st) \<and>
        \<not> timer (s_keepalive_env st) \<and> ka_rx st = Rx_none)"
| "tx_inv Tx_start st \<longleftrightarrow> res_full st \<and> tx_thread (s_keepalive_env st) \<and> open_socks st = {} \<and> ka_rx st = Rx_none"
| "tx_inv Tx_exit st \<longleftrightarrow>
     (res_none st \<and> open_socks st = {} \<and> ka_rx st = Rx_none \<or>
      res_full st \<and> tx_thread (s_keepalive_env st) \<and> open_socks st \<subseteq> {sock (s_keepalive_env st)} \<inter> {0..})"
| "tx_inv Tx_init_rx st \<longleftrightarrow> res_full st \<and> tx_thread (s_keepalive_env st) \<and> ka_rx st = Rx_none \<and>
     sock (s_keepalive_env st) \<ge> 0 \<and> open_socks st = {sock (s_keepalive_env st)}"
| "tx_inv (Tx_wait s) st \<longleftrightarrow> res_full st \<and> tx_thread (s_keepalive_env st) \<and> sema (s_keepalive_env st) = Some s \<and>
     sock (s_keepalive_env st) \<ge> 0 \<and> open_socks st = {sock (s_keepalive_env st)}"
| "tx_inv pc st \<longleftrightarrow> res_full st \<and> tx_thread (s_keepalive_env st) \<and>
     sock (s_keepalive_env st) \<ge> 0 \<and> open_socks st = {sock (s_keepalive_env st)}"

text \<open>While the transmit thread has not ended, the receive thread's buffer and socket are the record's.\<close>

definition rx_inv :: "ka_state \<Rightarrow> bool" where
  "rx_inv st \<longleftrightarrow> (\<forall>n b. ka_rx st = Rx_recv n b \<and> ka_tx st \<noteq> Tx_none \<longrightarrow>
     b = rx_raw_buffer (s_keepalive_env st) \<and> n = sock (s_keepalive_env st))"

definition ka_inv :: "ka_state \<Rightarrow> bool" where
  "ka_inv st \<longleftrightarrow> res_base st \<and> tx_inv (ka_tx st) st \<and> rx_inv st"

lemmas inv_defs = ka_inv_def res_base_def rx_inv_def

lemma inv_boot: "ka_inv ka_boot"
  by (simp add: ka_boot_def inv_defs res_none_def zero_env_def owns_all_def no_bad_free_def)

lemma no_bad_free_simps [simp]:
  "no_bad_free []" "no_bad_free (es @ fs) \<longleftrightarrow> no_bad_free es \<and> no_bad_free fs"
  "no_bad_free (e # es) \<longleftrightarrow> (\<forall>b. e \<noteq> Bad_free b) \<and> no_bad_free es"
  by (auto simp: no_bad_free_def)

section \<open>Release\<close>

lemma owns_all_deinit: "owns_all ps \<Longrightarrow> owns_all (snd (db_pack_deinit ps))"
  by (auto simp: db_pack_deinit_def owns_all_def mem_log_def owned_append)

lemma pack_deinit_gone [simp]: "s_db_pack_chan (snd (db_pack_deinit ps)) = None"
  by (auto simp: db_pack_deinit_def mem_log_def)

lemma post_simps [simp]:
  "s_keepalive_env (db_keepalive_sema_post_safe st) = s_keepalive_env st"
  "ka_pack (db_keepalive_sema_post_safe st) = ka_pack st"
  "ka_tx (db_keepalive_sema_post_safe st) = ka_tx st"
  "ka_rx (db_keepalive_sema_post_safe st) = ka_rx st"
  "live (db_keepalive_sema_post_safe st) = live st"
  "next_block (db_keepalive_sema_post_safe st) = next_block st"
  "open_socks (db_keepalive_sema_post_safe st) = open_socks st"
  "cp_log (db_keepalive_sema_post_safe st) = cp_log st"
  "wakeup_reason (db_keepalive_sema_post_safe st) = wakeup_reason st"
  by (simp_all add: db_keepalive_sema_post_safe_def split: option.split)

lemma alarm_unregister_simps [simp]:
  "s_keepalive_env (alarm_unregister n st) = s_keepalive_env st"
  "ka_pack (alarm_unregister n st) = ka_pack st"
  "ka_tx (alarm_unregister n st) = ka_tx st"
  "ka_rx (alarm_unregister n st) = ka_rx st"
  "live (alarm_unregister n st) = live st"
  "next_block (alarm_unregister n st) = next_block st"
  "open_socks (alarm_unregister n st) = open_socks st"
  "cp_log (alarm_unregister n st) = cp_log st @ [Alarm_unregister n]"
  "wakeup_reason (alarm_unregister n st) = wakeup_reason st"
  "tokens (alarm_unregister n st) = tokens st"
  by (simp_all add: alarm_unregister_def)

text \<open>The parts of the release that touch no block: alarm, semaphore token, sleep and timer.\<close>

definition quiet :: "ka_sdk \<Rightarrow> ka_state \<Rightarrow> ka_state" where
  "quiet sdk st =
     (let st = upd_env (keepalive_ongoing_update (\<lambda>_. False)) st;
          st = db_keepalive_stop_keepalive_rtc st;
          st = db_keepalive_sema_post_safe st;
          st = (if lp_state (s_keepalive_env st) = PM_MODE_LOW_VOLTAGE sdk
                then db_keepalive_exit_lv_sleep sdk st else st)
      in (if timer (s_keepalive_env st)
          then cp_emit [Timer_deinit] (upd_env (timer_update (\<lambda>_. False)) st) else st))"

lemma deinit_alt:
  "db_keepalive_cp_deinit sdk st =
     (BK_OK, cp_emit [Filter 0 0] ((deinit_memory (deinit_socket (quiet sdk st)))\<lparr>s_keepalive_env := zero_env\<rparr>))"
  by (simp add: db_keepalive_cp_deinit_def quiet_def Let_def)

lemma quiet_simps [simp]:
  "ka_pack (quiet sdk st) = ka_pack st"
  "ka_tx (quiet sdk st) = ka_tx st"
  "ka_rx (quiet sdk st) = ka_rx st"
  "live (quiet sdk st) = live st"
  "next_block (quiet sdk st) = next_block st"
  "open_socks (quiet sdk st) = open_socks st"
  "wakeup_reason (quiet sdk st) = wakeup_reason st"
  "sock (s_keepalive_env (quiet sdk st)) = sock (s_keepalive_env st)"
  "sema (s_keepalive_env (quiet sdk st)) = sema (s_keepalive_env st)"
  "rx_buffer (s_keepalive_env (quiet sdk st)) = rx_buffer (s_keepalive_env st)"
  "rx_raw_buffer (s_keepalive_env (quiet sdk st)) = rx_raw_buffer (s_keepalive_env st)"
  "no_bad_free (cp_log (quiet sdk st)) = no_bad_free (cp_log st)"
  by (simp_all add: quiet_def Let_def db_keepalive_stop_keepalive_rtc_def db_keepalive_exit_lv_sleep_def
      pl_exit_lv_sleep_def)

lemma deinit_socket_simps [simp]:
  "ka_pack (deinit_socket st) = ka_pack st"
  "ka_tx (deinit_socket st) = ka_tx st"
  "ka_rx (deinit_socket st) = ka_rx st"
  "live (deinit_socket st) = live st"
  "next_block (deinit_socket st) = next_block st"
  "wakeup_reason (deinit_socket st) = wakeup_reason st"
  "open_socks (deinit_socket st) =
     (if sock (s_keepalive_env st) \<ge> 0 then open_socks st - {sock (s_keepalive_env st)} else open_socks st)"
  "sema (s_keepalive_env (deinit_socket st)) = sema (s_keepalive_env st)"
  "rx_buffer (s_keepalive_env (deinit_socket st)) = rx_buffer (s_keepalive_env st)"
  "rx_raw_buffer (s_keepalive_env (deinit_socket st)) = rx_raw_buffer (s_keepalive_env st)"
  "no_bad_free (cp_log (deinit_socket st)) = no_bad_free (cp_log st)"
  by (simp_all add: deinit_socket_def close_sock_def)

lemma ka_free_simps [simp]:
  "ka_pack (ka_free b st) = ka_pack st"
  "ka_tx (ka_free b st) = ka_tx st"
  "ka_rx (ka_free b st) = ka_rx st"
  "next_block (ka_free b st) = next_block st"
  "open_socks (ka_free b st) = open_socks st"
  "s_keepalive_env (ka_free b st) = s_keepalive_env st"
  "wakeup_reason (ka_free b st) = wakeup_reason st"
  by (simp_all add: ka_free_def split: option.split)

lemma ka_free_owned:
  "b \<in> live st \<Longrightarrow> live (ka_free (Some b) st) = live st - {b}"
  "b \<in> live st \<Longrightarrow> cp_log (ka_free (Some b) st) = cp_log st"
  "ka_free None st = st"
  by (simp_all add: ka_free_def)

lemma deinit_memory_simps [simp]:
  "ka_pack (deinit_memory st) = snd (db_pack_deinit (ka_pack st))"
  "ka_tx (deinit_memory st) = ka_tx st"
  "ka_rx (deinit_memory st) = ka_rx st"
  "next_block (deinit_memory st) = next_block st"
  "open_socks (deinit_memory st) = open_socks st"
  "wakeup_reason (deinit_memory st) = wakeup_reason st"
  by (simp_all add: deinit_memory_def Let_def)

lemma deinit_memory_full:
  assumes "rx_buffer (s_keepalive_env st) = Some b" and "rx_raw_buffer (s_keepalive_env st) = Some r"
    and "sema (s_keepalive_env st) = Some s" and "distinct [b, r, s]" and "live st = {b, r, s}"
  shows "live (deinit_memory st) = {}" and "cp_log (deinit_memory st) = cp_log st"
  using assms by (auto simp: deinit_memory_def Let_def ka_free_owned)

lemma deinit_memory_none:
  assumes "rx_buffer (s_keepalive_env st) = None" and "rx_raw_buffer (s_keepalive_env st) = None"
    and "sema (s_keepalive_env st) = None"
  shows "live (deinit_memory st) = live st" and "cp_log (deinit_memory st) = cp_log st"
  using assms by (simp_all add: deinit_memory_def Let_def ka_free_owned)

lemma deinit_keeps [simp]:
  "s_keepalive_env (snd (db_keepalive_cp_deinit sdk st)) = zero_env"
  "ka_tx (snd (db_keepalive_cp_deinit sdk st)) = ka_tx st"
  "ka_rx (snd (db_keepalive_cp_deinit sdk st)) = ka_rx st"
  "next_block (snd (db_keepalive_cp_deinit sdk st)) = next_block st"
  "s_db_pack_chan (ka_pack (snd (db_keepalive_cp_deinit sdk st))) = None"
  "open_socks (snd (db_keepalive_cp_deinit sdk st)) =
     (if sock (s_keepalive_env st) \<ge> 0 then open_socks st - {sock (s_keepalive_env st)} else open_socks st)"
  "wakeup_reason (snd (db_keepalive_cp_deinit sdk st)) = wakeup_reason st"
  by (simp_all add: deinit_alt)

lemma deinit_resources:
  assumes "res_base st" and "res_none st \<or> res_full st"
  shows "live (snd (db_keepalive_cp_deinit sdk st)) = {}"
    and "res_base (snd (db_keepalive_cp_deinit sdk st))"
    and "res_none (snd (db_keepalive_cp_deinit sdk st))"
proof -
  let ?q = "deinit_socket (quiet sdk st)"
  have l: "live (deinit_memory ?q) = {} \<and> cp_log (deinit_memory ?q) = cp_log ?q"
    using assms(2)
  proof
    assume "res_none st"
    then show ?thesis
      using deinit_memory_none [of ?q] by (simp add: res_none_def)
  next
    assume "res_full st"
    then show ?thesis
      using deinit_memory_full [of ?q] by (auto simp: res_full_def)
  qed
  then show "live (snd (db_keepalive_cp_deinit sdk st)) = {}"
    by (simp add: deinit_alt)
  then show "res_none (snd (db_keepalive_cp_deinit sdk st))"
    by (simp add: res_none_def zero_env_def)
  show "res_base (snd (db_keepalive_cp_deinit sdk st))"
    using assms(1) l by (simp add: res_base_def deinit_alt owns_all_deinit)
qed


section \<open>The packing layer stays ready\<close>

lemma append_cache_tx: "append_cache p ch = Some ch' \<Longrightarrow> tbuf ch' = tbuf ch \<and> tsize ch' = tsize ch \<and> tx_sequence ch' = tx_sequence ch"
  by (auto simp: append_cache_def split: Option.bind_splits)

lemma fill_to_tx: "fill_to n p ch = Some (b, p', ch') \<Longrightarrow> tbuf ch' = tbuf ch \<and> tsize ch' = tsize ch \<and> tx_sequence ch' = tx_sequence ch"
  by (auto simp: fill_to_def Let_def split: if_splits Option.bind_splits dest: append_cache_tx)

lemma unpack_loop_tx:
  "unpack_loop crc8 cb p ch out = Some (left, ch', out') \<Longrightarrow>
     tbuf ch' = tbuf ch \<and> tsize ch' = tsize ch \<and> tx_sequence ch' = tx_sequence ch"
proof (induction crc8 cb p ch out arbitrary: left ch' out' rule: unpack_loop.induct)
  case (1 crc8 cb p ch out)
  note IH = 1(1,2) and run = 1(3) [unfolded unpack_loop.simps [of crc8 cb p ch out]]
  show ?case
  proof (cases "p = [] \<or> ccount ch = 0")
    case True
    with run IH(1) [OF _ _ _ refl refl] show ?thesis
      by (auto simp: Let_def split: if_splits dest: append_cache_tx)
  next
    case False
    with run obtain b p1 ch1 where f1: "fill_to DB_PACK_HEAD_SIZE_TOTAL p ch = Some (b, p1, ch1)"
      by (auto split: option.splits)
    show ?thesis
    proof (cases "b \<and> pk_magic (read_head (cbuf ch1)) = DB_PACK_HEAD_MAGIC_CODE")
      case False
      with run f1 \<open>\<not> (p = [] \<or> ccount ch = 0)\<close> fill_to_tx [OF f1] show ?thesis
        by (cases b) (auto simp: Let_def)
    next
      case True
      with run f1 \<open>\<not> (p = [] \<or> ccount ch = 0)\<close> obtain b2 p2 ch2 where
        f2: "fill_to (DB_PACK_HEAD_SIZE_TOTAL + unat (pk_length (read_head (cbuf ch1)))) p1 ch1 = Some (b2, p2, ch2)"
        by (auto simp: Let_def split: option.splits)
      with run f1 True \<open>\<not> (p = [] \<or> ccount ch = 0)\<close> fill_to_tx [OF f1] fill_to_tx [OF f2]
        IH(2) [of "(True, p1, ch1)" True "(p1, ch1)" p1 ch1 _ _ "(True, p2, ch2)" True "(p2, ch2)" p2 ch2]
      show ?thesis
        by (cases b2) (auto simp: Let_def)
    qed
  qed
qed

lemma unpack_ready:
  assumes "db_pack_unpack crc8 cb bs ps = Some (r, es, ps')" and "pack_ready ps"
  shows "pack_ready ps'"
  using assms
  by (auto simp: db_pack_unpack_def pack_ready_def tx_ok_def split: option.splits if_splits Option.bind_splits
      dest!: unpack_loop_tx)

lemma pack_ready_pack:
  assumes "db_pack_pack crc8 ms bs want ps = Some (r, ps')" and "pack_ready ps"
  shows "pack_ready ps'"
  using assms
  by (auto simp: db_pack_pack_def pack_ready_def tx_ok_def Let_def
      split: option.splits if_splits Option.bind_splits dest!: mem_write_length)

lemma pack_owns:
  "db_pack_pack crc8 ms bs want ps = Some (r, ps') \<Longrightarrow> owns_all ps \<Longrightarrow> owns_all ps'"
  using pack_exec_owns [of crc8 "Pack ms bs want" ps ps'] by simp

lemma unpack_owns:
  "db_pack_unpack crc8 cb bs ps = Some (r, es, ps') \<Longrightarrow> owns_all ps \<Longrightarrow> owns_all ps'"
  using pack_exec_owns [of crc8 "Unpack cb bs" ps ps'] by simp

lemma unpack_gone: "db_pack_unpack crc8 cb bs ps = Some (r, es, ps') \<Longrightarrow> s_db_pack_chan ps = None \<Longrightarrow> ps' = ps"
  by (simp add: db_pack_unpack_def)

lemma pack_gone: "db_pack_pack crc8 ms bs want ps = Some (r, ps') \<Longrightarrow> s_db_pack_chan ps = None \<Longrightarrow> ps' = ps \<and> snd r = None"
  by (auto simp: db_pack_pack_def)

text \<open>A state that differs from another in the packing layer and the log only.\<close>

definition same_but_pack :: "ka_state \<Rightarrow> ka_state \<Rightarrow> bool" where
  "same_but_pack st st' \<longleftrightarrow>
     s_keepalive_env st' = s_keepalive_env st \<and> live st' = live st \<and> next_block st' = next_block st \<and>
     open_socks st' = open_socks st \<and> ka_tx st' = ka_tx st \<and> ka_rx st' = ka_rx st \<and>
     (no_bad_free (cp_log st) \<longrightarrow> no_bad_free (cp_log st')) \<and>
     (owns_all (ka_pack st) \<longrightarrow> owns_all (ka_pack st')) \<and>
     (pack_ready (ka_pack st) \<longrightarrow> pack_ready (ka_pack st')) \<and>
     (s_db_pack_chan (ka_pack st) = None \<longrightarrow> s_db_pack_chan (ka_pack st') = None)"

lemma same_refl: "same_but_pack st st"
  by (simp add: same_but_pack_def)

lemma same_trans: "same_but_pack st st' \<Longrightarrow> same_but_pack st' st'' \<Longrightarrow> same_but_pack st st''"
  by (auto simp: same_but_pack_def)

lemma same_emit: "no_bad_free es \<Longrightarrow> same_but_pack st (cp_emit es st)"
  by (auto simp: same_but_pack_def)

lemma same_wakeup: "same_but_pack st (pl_wakeup_host f st)"
  by (simp add: same_but_pack_def)

lemma send_event_same:
  assumes "send_event sdk ms sent evt st = Some st'"
  shows "same_but_pack st st'"
proof -
  obtain ret pack ps where p: "db_pack_pack (hnd_crc8 sdk) ms (Some (evt_bytes evt)) True (ka_pack st) =
      Some ((ret, pack), ps)"
    using assms by (auto simp: send_event_def split: Option.bind_splits)
  then have "st' = st\<lparr>ka_pack := ps\<rparr> \<or>
      (\<exists>bs. st' = cp_emit [(if sent then Sock_send else Send_failed) (sock (s_keepalive_env st)) bs] (st\<lparr>ka_pack := ps\<rparr>))"
    using assms by (auto simp: send_event_def Let_def split: option.splits)
  with pack_ready_pack [OF p] pack_owns [OF p] pack_gone [OF p] show ?thesis
    by (auto simp: same_but_pack_def)
qed

lemma heartbeat_same: "db_keepalive_send_heartbeat sdk ms sent st = Some st' \<Longrightarrow> same_but_pack st st'"
  by (auto simp: db_keepalive_send_heartbeat_def same_refl send_event_same split: if_splits)

lemma callback_same: "db_keepalive_unpack_callback sdk ms sent d st = Some st' \<Longrightarrow> same_but_pack st st'"
  by (auto simp: db_keepalive_unpack_callback_def db_tx_cmd_recive_callback_def Let_def same_refl same_wakeup
      doorbell_transmission_event_report_def send_event_same split: if_splits)

lemma callbacks_same: "callbacks sdk ms sent ds st = Some st' \<Longrightarrow> same_but_pack st st'"
proof (induction ds arbitrary: st)
  case (Cons d ds)
  then show ?case
    by (cases "db_keepalive_unpack_callback sdk ms sent d st") (auto intro: same_trans callback_same)
qed (simp add: same_refl)

lemma rx_process_same:
  assumes "rx_process sdk ms sent bs st = Some st'"
  shows "same_but_pack st st'"
proof -
  obtain ret es ps where u: "db_pack_unpack (hnd_crc8 sdk) True (Some bs) (ka_pack st) = Some (ret, es, ps)"
    and c: "callbacks sdk ms sent (payloads es) (st\<lparr>ka_pack := ps\<rparr>) = Some st'"
    using assms by (auto simp: rx_process_def split: Option.bind_splits)
  have "same_but_pack st (st\<lparr>ka_pack := ps\<rparr>)"
    using u unpack_gone [OF u] by (auto simp: same_but_pack_def intro: unpack_ready unpack_owns)
  from same_trans [OF this callbacks_same [OF c]] show ?thesis .
qed

text \<open>Moving from such a state on keeps the resource predicates.\<close>

lemma same_res:
  assumes "same_but_pack st st'"
  shows "res_full st \<Longrightarrow> res_full st'" and "res_none st \<Longrightarrow> res_none st'" and "res_base st \<Longrightarrow> res_base st'"
  using assms by (auto simp: same_but_pack_def res_full_def res_none_def res_base_def)

section \<open>Every action keeps the invariant\<close>

lemma res_upd [simp]:
  "res_full (upd_env (keepalive_ongoing_update f1) st) = res_full st"
  "res_full (upd_env (sock_update f2) st) = res_full st"
  "res_full (upd_env (timer_update f1) st) = res_full st"
  "res_full (upd_env (rx_thread_update f1) st) = res_full st"
  "res_full (upd_env (tx_thread_update f1) st) = res_full st"
  "res_full (upd_env (lp_state_update f3) st) = res_full st"
  "res_full (upd_env (rtc_name_update f4) st) = res_full st"
  "res_full (st\<lparr>ka_tx := pc\<rparr>) = res_full st"
  "res_full (st\<lparr>ka_rx := rc\<rparr>) = res_full st"
  "res_full (cp_emit es st) = res_full st"
  "res_full (st\<lparr>tokens := T\<rparr>) = res_full st"
  "res_full (st\<lparr>open_socks := S\<rparr>) = res_full st"
  "res_full (st\<lparr>alarm := al\<rparr>) = res_full st"
  "res_full (st\<lparr>s_bind_seed := sd\<rparr>) = res_full st"
  "res_full (pl_wakeup_host f st) = res_full st"
  "res_full (pl_set_wakeup_reason f st) = res_full st"
  "res_full (pl_power_down_host st) = res_full st"
  "res_full (db_keepalive_sema_post_safe st) = res_full st"
  "res_full (alarm_unregister n st) = res_full st"
  by (simp_all add: res_full_def pl_set_wakeup_reason_def)

lemma res_none_upd [simp]:
  "res_none (st\<lparr>ka_tx := pc\<rparr>) = res_none st"
  "res_none (st\<lparr>ka_rx := rc\<rparr>) = res_none st"
  "res_none (cp_emit es st) = res_none st"
  "res_none (st\<lparr>tokens := T\<rparr>) = res_none st"
  "res_none (pl_wakeup_host f st) = res_none st"
  "res_none (pl_set_wakeup_reason f st) = res_none st"
  "res_none (db_keepalive_sema_post_safe st) = res_none st"
  "res_none (alarm_unregister n st) = res_none st"
  "res_none st \<Longrightarrow> res_none (upd_env (keepalive_ongoing_update (\<lambda>_. False)) st)"
  "res_none (upd_env (rx_thread_update f1) st) = res_none st"
  "res_none (upd_env (lp_state_update f3) st) = res_none st"
  by (simp_all add: res_none_def pl_set_wakeup_reason_def)

lemma res_base_upd [simp]:
  "res_base (upd_env g st) = res_base st"
  "res_base (st\<lparr>ka_tx := pc\<rparr>) = res_base st"
  "res_base (st\<lparr>ka_rx := rc\<rparr>) = res_base st"
  "res_base (cp_emit es st) \<longleftrightarrow> res_base st \<and> no_bad_free es"
  "res_base (st\<lparr>tokens := T\<rparr>) = res_base st"
  "res_base (st\<lparr>open_socks := S\<rparr>) = res_base st"
  "res_base (st\<lparr>alarm := al\<rparr>) = res_base st"
  "res_base (st\<lparr>s_bind_seed := sd\<rparr>) = res_base st"
  "res_base (pl_wakeup_host f st) = res_base st"
  "res_base (pl_set_wakeup_reason f st) = res_base st"
  "res_base (pl_power_down_host st) = res_base st"
  "res_base (db_keepalive_sema_post_safe st) = res_base st"
  "res_base (alarm_unregister n st) = res_base st"
  by (auto simp: res_base_def pl_set_wakeup_reason_def)


lemma set_rtc_simps [simp]:
  "res_full (db_keepalive_set_keepalive_rtc st) = res_full st"
  "res_base (db_keepalive_set_keepalive_rtc st) = res_base st"
  "ka_tx (db_keepalive_set_keepalive_rtc st) = ka_tx st"
  "ka_rx (db_keepalive_set_keepalive_rtc st) = ka_rx st"
  "open_socks (db_keepalive_set_keepalive_rtc st) = open_socks st"
  "sock (s_keepalive_env (db_keepalive_set_keepalive_rtc st)) = sock (s_keepalive_env st)"
  "sema (s_keepalive_env (db_keepalive_set_keepalive_rtc st)) = sema (s_keepalive_env st)"
  "tx_thread (s_keepalive_env (db_keepalive_set_keepalive_rtc st)) = tx_thread (s_keepalive_env st)"
  "rx_raw_buffer (s_keepalive_env (db_keepalive_set_keepalive_rtc st)) = rx_raw_buffer (s_keepalive_env st)"
  "keepalive_ongoing (s_keepalive_env (db_keepalive_set_keepalive_rtc st)) = keepalive_ongoing (s_keepalive_env st)"
  by (simp_all add: db_keepalive_set_keepalive_rtc_def Let_def)

lemma start_lv_simps [simp]:
  "res_full (db_keepalive_start_lv_sleep sdk st) = res_full st"
  "res_base (db_keepalive_start_lv_sleep sdk st) = res_base st"
  "ka_tx (db_keepalive_start_lv_sleep sdk st) = ka_tx st"
  "ka_rx (db_keepalive_start_lv_sleep sdk st) = ka_rx st"
  "open_socks (db_keepalive_start_lv_sleep sdk st) = open_socks st"
  "sock (s_keepalive_env (db_keepalive_start_lv_sleep sdk st)) = sock (s_keepalive_env st)"
  "sema (s_keepalive_env (db_keepalive_start_lv_sleep sdk st)) = sema (s_keepalive_env st)"
  "tx_thread (s_keepalive_env (db_keepalive_start_lv_sleep sdk st)) = tx_thread (s_keepalive_env st)"
  "rx_raw_buffer (s_keepalive_env (db_keepalive_start_lv_sleep sdk st)) = rx_raw_buffer (s_keepalive_env st)"
  "keepalive_ongoing (s_keepalive_env (db_keepalive_start_lv_sleep sdk st)) = keepalive_ongoing (s_keepalive_env st)"
  "ka_pack (db_keepalive_start_lv_sleep sdk st) = ka_pack st"
  by (simp_all add: db_keepalive_start_lv_sleep_def pl_start_lv_sleep_def)

text \<open>A running transmit thread: its program counter may change, the rest of its state not.\<close>

definition tx_live :: "ka_state \<Rightarrow> bool" where
  "tx_live st \<longleftrightarrow> res_full st \<and> tx_thread (s_keepalive_env st) \<and>
     sock (s_keepalive_env st) \<ge> 0 \<and> open_socks st = {sock (s_keepalive_env st)}"

lemma tx_inv_live:
  "tx_inv Tx_run st \<longleftrightarrow> tx_live st" "tx_inv Tx_loop st \<longleftrightarrow> tx_live st"
  "tx_inv (Tx_woken w) st \<longleftrightarrow> tx_live st"
  "tx_inv (Tx_wait s) st \<longleftrightarrow> tx_live st \<and> sema (s_keepalive_env st) = Some s"
  "tx_inv Tx_init_rx st \<longleftrightarrow> tx_live st \<and> ka_rx st = Rx_none"
  by (auto simp: tx_live_def)

lemma tx_live_exit: "tx_live st \<Longrightarrow> tx_inv Tx_exit st"
  by (simp add: tx_live_def)

declare tx_inv.simps [simp del]

lemma tx_live_upd [simp]:
  "tx_live (st\<lparr>ka_tx := pc\<rparr>) = tx_live st"
  "tx_live (st\<lparr>ka_rx := rc\<rparr>) = tx_live st"
  "tx_live (st\<lparr>tokens := T\<rparr>) = tx_live st"
  "tx_live (pl_wakeup_host f st) = tx_live st"
  "tx_live (pl_power_down_host st) = tx_live st"
  "tx_live (db_keepalive_set_keepalive_rtc st) = tx_live st"
  "tx_live (db_keepalive_start_lv_sleep sdk st) = tx_live st"
  "tx_live (upd_env (timer_update f1) st) = tx_live st"
  "tx_live (upd_env (rx_thread_update f1) st) = tx_live st"
  by (simp_all add: tx_live_def)

lemma same_tx_live: "same_but_pack st st' \<Longrightarrow> tx_live st \<Longrightarrow> tx_live st'"
  by (auto simp: tx_live_def same_res) (auto simp: same_but_pack_def)

lemma init_pack_ready:
  assumes "db_pack_init al DB_KEEPALIVE_MSG_BUFFER_SIZE DB_KEEPALIVE_MSG_BUFFER_SIZE ps = (r, ps')"
    and "s_db_pack_chan ps = None" and "owns_all ps"
  shows "owns_all ps'" and "r = BK_OK \<Longrightarrow> pack_ready ps'" and "r \<noteq> BK_OK \<Longrightarrow> s_db_pack_chan ps' = None"
proof -
  show "owns_all ps'"
    using pack_exec_owns [of undefined
        "Init_pack al DB_KEEPALIVE_MSG_BUFFER_SIZE DB_KEEPALIVE_MSG_BUFFER_SIZE" ps ps'] assms by simp
  show "r = BK_OK \<Longrightarrow> pack_ready ps'" "r \<noteq> BK_OK \<Longrightarrow> s_db_pack_chan ps' = None"
    using assms by (auto simp: db_pack_init_def Let_def mem_log_def pack_ready_def tx_ok_def
        DB_KEEPALIVE_MSG_BUFFER_SIZE_def DB_PACK_HEAD_SIZE_TOTAL_def split: if_splits)
qed

lemma inv_init_res:
  assumes "db_keepalive_cp_init sdk an (Some cfg) st = (r, st')" and "res_base st" and "res_none st"
  shows "res_base st' \<and> open_socks st' = open_socks st \<and> ka_tx st' = ka_tx st \<and> ka_rx st' = ka_rx st \<and>
    (if r = BK_OK then res_full st' \<and> \<not> tx_thread (s_keepalive_env st') \<and>
       keepalive_ongoing (s_keepalive_env st') \<and> \<not> timer (s_keepalive_env st') else res_none st')"
proof (cases "an_rx_buffer an \<and> an_raw_buffer an")
  case False
  then show ?thesis
    using assms
    by (auto simp: db_keepalive_cp_init_def init_fail_def ka_malloc_def Let_def res_base_def res_none_def
        zero_env_def ka_free_def split: if_splits)
next
  case True
  obtain ret ps where p: "db_pack_init (an_pack an) DB_KEEPALIVE_MSG_BUFFER_SIZE DB_KEEPALIVE_MSG_BUFFER_SIZE
      (ka_pack st) = (ret, ps)" by fastforce
  show ?thesis
    using assms True p init_pack_ready [OF p] 
    by (auto simp: db_keepalive_cp_init_def init_fail_def ka_malloc_def Let_def res_base_def res_none_def
        zero_env_def ka_free_def res_full_def owns_all_deinit split: if_splits)
qed


lemma inv_stop:
  assumes "ka_inv st"
  shows "ka_inv (snd (db_keepalive_cp_stop sdk st))"
proof -
  let ?st = "db_keepalive_sema_post_safe (upd_env (keepalive_ongoing_update (\<lambda>_. False)) st)"
  note inv = assms [unfolded ka_inv_def]
  show ?thesis
  proof (cases "tx_thread (s_keepalive_env st)")
    case True
    then have "tx_inv (ka_tx ?st) ?st"
      using inv by (cases "ka_tx st") (auto simp: tx_inv.simps res_none_def)
    then show ?thesis
      using inv True by (simp add: db_keepalive_cp_stop_def ka_inv_def rx_inv_def)
  next
    case False
    then have res: "res_none st \<or> res_full st" and pc: "ka_tx st = Tx_none \<or> ka_tx st = Tx_exit \<and> ka_rx st = Rx_none"
      and none: "open_socks st = {}"
      using inv by (cases "ka_tx st"; auto simp: tx_inv.simps)+
    have "res_none ?st \<or> res_full ?st"
      using res by auto
    with deinit_resources [of ?st sdk] inv have "res_none (snd (db_keepalive_cp_deinit sdk ?st))"
      "res_base (snd (db_keepalive_cp_deinit sdk ?st))"
      by simp_all
    with pc none False show ?thesis
      by (auto simp: db_keepalive_cp_stop_def ka_inv_def rx_inv_def tx_inv.simps)
  qed
qed

lemma inv_emit: "no_bad_free es \<Longrightarrow> ka_inv st \<Longrightarrow> ka_inv (cp_emit es st)"
  by (cases "ka_tx st") (auto simp: ka_inv_def rx_inv_def tx_inv.simps)

lemma inv_start:
  assumes "db_keepalive_cp_start ok st = Some (r, st')" and "ka_inv st"
  shows "ka_inv st'"
  using assms
  by (auto simp: db_keepalive_cp_start_def ka_inv_def rx_inv_def tx_inv.simps res_none_def split: if_splits)

lemma inv_init:
  assumes "db_keepalive_cp_init sdk an (Some cfg) st = (r, st')" and "ka_inv st"
    and "keepalive_ongoing (s_keepalive_env st) \<or> ka_tx st = Tx_none \<and> ka_rx st = Rx_none"
  shows "ka_inv st'"
proof (cases "keepalive_ongoing (s_keepalive_env st)")
  case True
  with assms show ?thesis by (simp add: db_keepalive_cp_init_def)
next
  case False
  with assms(2,3) have "res_none st" "res_base st" "open_socks st = {}" "ka_tx st = Tx_none" "ka_rx st = Rx_none"
    by (auto simp: ka_inv_def tx_inv.simps)
  with inv_init_res [OF assms(1)] show ?thesis
    by (auto simp: ka_inv_def rx_inv_def tx_inv.simps split: if_splits)
qed

lemma inv_ipc:
  assumes "ka_do sdk co addr (Ipc an msg) st = Some st'" and "ka_inv st"
  shows "ka_inv st'"
proof (cases msg)
  case None
  with assms show ?thesis by (simp add: db_ipc_msg_handler_def)
next
  case (Some m)
  consider (start) "cmd_id m = DB_IPC_CMD_KEEPALIVESTART"
    | (stop) "cmd_id m = DB_IPC_CMD_KEEPALIVESTOP"
    | (other) "cmd_id m \<noteq> DB_IPC_CMD_KEEPALIVESTART" "cmd_id m \<noteq> DB_IPC_CMD_KEEPALIVESTOP" by blast
  then show ?thesis
  proof cases
    case start
    obtain r st1 where i: "db_keepalive_cp_init sdk (an_init an) (Some (read_cfg (ipc_payload m))) st = (r, st1)"
      by fastforce
    have "keepalive_ongoing (s_keepalive_env st) \<or> ka_tx st = Tx_none \<and> ka_rx st = Rx_none"
      using assms(1) start Some by (auto split: if_splits)
    from inv_init [OF i assms(2) this] assms(1) start Some i show ?thesis
      by (auto simp: db_ipc_msg_handler_def ipc_cmd_defs Let_def intro!: inv_emit dest: inv_start
          split: if_splits Option.bind_splits)
  next
    case stop
    with Some assms show ?thesis
      by (auto simp: db_ipc_msg_handler_def ipc_cmd_defs Let_def intro!: inv_emit inv_stop split: if_splits)
  next
    case other
    with Some assms show ?thesis
      by (auto simp: db_ipc_msg_handler_def Let_def intro!: inv_emit split: if_splits)
  qed
qed

text \<open>The connection: one socket, open on success, none on failure.\<close>

lemma bind_loop_simps:
  assumes "bind_loop k i ok st = (b, st')"
  shows "s_keepalive_env st' = s_keepalive_env st \<and> live st' = live st \<and> next_block st' = next_block st \<and>
    ka_pack st' = ka_pack st \<and> open_socks st' = open_socks st \<and> ka_tx st' = ka_tx st \<and> ka_rx st' = ka_rx st \<and>
    (no_bad_free (cp_log st) \<longrightarrow> no_bad_free (cp_log st'))"
  using assms
proof (induction k i ok st rule: bind_loop.induct)
  case (2 k i ok st)
  then show ?case by (auto simp: Let_def split: if_splits)
qed simp

definition conn_kept :: "ka_state \<Rightarrow> ka_state \<Rightarrow> bool" where
  "conn_kept st st' \<longleftrightarrow> (\<exists>n. s_keepalive_env st' = s_keepalive_env st\<lparr>sock := n\<rparr>) \<and>
     live st' = live st \<and> next_block st' = next_block st \<and> ka_pack st' = ka_pack st \<and>
     ka_tx st' = ka_tx st \<and> ka_rx st' = ka_rx st \<and> (no_bad_free (cp_log st) \<longrightarrow> no_bad_free (cp_log st'))"

lemma conn_kept_res:
  assumes "conn_kept st st'"
  shows "res_full st' = res_full st" and "res_base st \<Longrightarrow> res_base st'"
    and "tx_thread (s_keepalive_env st') = tx_thread (s_keepalive_env st)"
  using assms by (auto simp: conn_kept_def res_full_def res_base_def)

lemma conn_kept_trans: "conn_kept st st' \<Longrightarrow> conn_kept st' st'' \<Longrightarrow> conn_kept st st''"
  by (auto simp: conn_kept_def)

lemma conn_try_inv:
  assumes "conn_try an st = (ok, st')" and "open_socks st = {}"
  shows "conn_kept st st' \<and> (if ok then sock (s_keepalive_env st') \<ge> 0 \<and>
    open_socks st' = {sock (s_keepalive_env st')} else open_socks st' = {})"
  using assms
  by (auto simp: conn_try_def Let_def close_sock_def conn_kept_def split: if_splits prod.splits dest!: bind_loop_simps)

lemma conn_loop_inv:
  assumes "conn_loop k i ans st = (ok, st')" and "open_socks st = {}"
  shows "conn_kept st st' \<and> (if ok then sock (s_keepalive_env st') \<ge> 0 \<and>
    open_socks st' = {sock (s_keepalive_env st')} else open_socks st' = {})"
  using assms
proof (induction k i ans st rule: conn_loop.induct)
  case (1 i ans st)
  then show ?case by (auto simp: conn_kept_def)
next
  case (2 k i ans st)
  obtain ok1 st1 where t: "conn_try (ans i) st = (ok1, st1)" by fastforce
  note 3 = conn_try_inv [OF t 2(3)]
  show ?case
  proof (cases ok1)
    case True
    with 3 t 2(2) show ?thesis by (auto simp: Let_def)
  next
    case False
    with 3 t 2(2) 2(1) [OF t [symmetric]] conn_kept_trans [of st st1 st'] show ?thesis
      by (auto simp: Let_def split: if_splits)
  qed
qed


lemma inv_disconnected:
  assumes "res_base st" and "res_none st \<and> open_socks st = {} \<and> ka_rx st = Rx_none \<or>
      res_full st \<and> tx_thread (s_keepalive_env st) \<and> open_socks st = {}"
    and "\<And>n b. ka_rx st \<noteq> Rx_recv n b"
  shows "ka_inv (tx_disconnected r st)"
proof -
  obtain es where "tx_disconnected r st =
      (cp_emit es (pl_set_wakeup_reason POWERUP_KEEPALIVE_DISCONNECTION st))\<lparr>ka_tx := Tx_exit\<rparr>" "no_bad_free es"
    by (auto simp: tx_disconnected_def db_ipc_send_event_def MAX_DB_IPC_MSG_SIZE_def)
  with assms show ?thesis
    by (auto simp: ka_inv_def rx_inv_def tx_inv.simps)
qed

lemma inv_tx_start:
  assumes "ka_inv st" and "ka_tx st = Tx_start"
  shows "ka_inv (tx_start sdk ans r st)"
proof -
  let ?st = "cp_emit [Filter (inet_addr sdk (server (s_keepalive_env st))) (port (s_keepalive_env st))] st"
  obtain ok st1 where c: "conn_loop DB_KEEPALIVE_MAX_RETRY_CNT 0 ans ?st = (ok, st1)" by fastforce
  have inv: "res_full st" "res_base st" "tx_thread (s_keepalive_env st)" "open_socks st = {}" "ka_rx st = Rx_none"
    using assms by (auto simp: ka_inv_def tx_inv.simps)
  note k = conn_loop_inv [OF c, simplified, OF inv(4)]
  then have k1: "conn_kept ?st st1" by simp
  have "res_full st1" "res_base st1" "tx_thread (s_keepalive_env st1)" "ka_rx st1 = Rx_none"
    using conn_kept_res [OF k1] inv k1 by (simp_all add: conn_kept_def)
  with k show ?thesis
    by (cases ok) (auto simp: tx_start_def db_keepalive_init_connection_def c
        intro!: inv_disconnected, auto simp: ka_inv_def rx_inv_def tx_inv_live tx_live_def)
qed

lemma inv_tx_init_rx:
  assumes "ka_inv st" and "ka_tx st = Tx_init_rx"
  shows "ka_inv (tx_init_rx sdk ok r st)"
proof -
  have inv: "tx_live st" "ka_rx st = Rx_none" "res_base st" "res_none st \<or> res_full st"
    using assms by (auto simp: ka_inv_def tx_inv_live tx_live_def)
  show ?thesis
  proof (cases ok)
    case True
    with inv show ?thesis
      by (simp add: tx_init_rx_def db_keepalive_init_rx_def ka_inv_def rx_inv_def tx_inv_live)
  next
    case False
    with inv deinit_resources [OF inv(3,4), of sdk] show ?thesis
      by (auto simp: tx_init_rx_def db_keepalive_init_rx_def tx_live_def intro!: inv_disconnected)
  qed
qed

lemma inv_live:
  assumes "res_base st" and "rx_inv (st\<lparr>ka_tx := pc\<rparr>)" and "tx_live st"
    and "pc \<in> {Tx_run, Tx_loop, Tx_exit} \<or> (\<exists>w. pc = Tx_woken w) \<or>
      (\<exists>s. pc = Tx_wait s \<and> sema (s_keepalive_env st) = Some s)"
  shows "ka_inv (st\<lparr>ka_tx := pc\<rparr>)"
  using assms tx_live_exit [of "st\<lparr>ka_tx := pc\<rparr>"] by (auto simp: ka_inv_def tx_inv_live)

lemma rx_inv_upd:
  assumes "rx_inv st" and "ka_rx st' = ka_rx st" and "ka_tx st \<noteq> Tx_none"
    and "rx_raw_buffer (s_keepalive_env st') = rx_raw_buffer (s_keepalive_env st)"
    and "sock (s_keepalive_env st') = sock (s_keepalive_env st)"
  shows "rx_inv st'"
  using assms by (auto simp: rx_inv_def)

lemma inv_tx_run:
  assumes "ka_inv st" and "ka_tx st = Tx_run" and "tx_run sdk io so ms sent st = Some st'"
  shows "ka_inv st'"
proof -
  have inv: "tx_live st" "res_base st" "rx_inv st"
    using assms by (auto simp: ka_inv_def tx_inv_live)
  let ?st = "db_keepalive_start_lv_sleep sdk (pl_power_down_host st)"
  let ?st1 = "upd_env (timer_update (\<lambda>_. True)) ?st"
  have rx: "rx_inv (s\<lparr>ka_tx := pc\<rparr>)" if "same_but_pack ?st1 s" for s pc
    using that inv(3) assms(2) by (intro rx_inv_upd [OF inv(3)]) (auto simp: same_but_pack_def)
  have fail: "ka_inv (tx_failed ?st)" "ka_inv (tx_failed ?st1)"
    using inv assms(2) unfolding tx_failed_def
    by (auto intro!: inv_live rx_inv_upd [OF inv(3)])
  have run: "ka_inv (s\<lparr>ka_tx := Tx_loop\<rparr>)" if "same_but_pack ?st1 s" for s
    using inv same_tx_live [OF that] same_res(3) [OF that] rx [OF that] by (intro inv_live) auto
  show ?thesis
    using assms(3) fail run [OF same_refl] run [OF heartbeat_same]
    by (auto simp: tx_run_def Let_def split: if_splits)
qed

lemma inv_tx_loop:
  assumes "ka_inv st" and "ka_tx st = Tx_loop" and "tx_loop st = Some st'"
  shows "ka_inv st'"
proof -
  have inv: "tx_live st" "res_base st" "rx_inv st"
    using assms by (auto simp: ka_inv_def tx_inv_live)
  show ?thesis
    using assms(2,3) inv
    by (auto simp: tx_loop_def Let_def split: if_splits intro!: inv_live rx_inv_upd [OF inv(3)])
qed

lemma inv_tx_woken:
  assumes "ka_inv st" and "ka_tx st = Tx_woken w" and "tx_woken sdk got ms sent st = Some st'"
  shows "ka_inv st'"
proof -
  have inv: "tx_live st" "res_base st" "rx_inv st"
    using assms by (auto simp: ka_inv_def tx_inv_live)
  have run: "ka_inv (s\<lparr>ka_tx := Tx_loop\<rparr>)" if "same_but_pack st s" for s
  proof -
    have "rx_inv (s\<lparr>ka_tx := Tx_loop\<rparr>)"
      using that assms(2) by (intro rx_inv_upd [OF inv(3)]) (auto simp: same_but_pack_def)
    then show ?thesis
      using inv same_tx_live [OF that] same_res(3) [OF that] by (intro inv_live) auto
  qed
  have "ka_inv (st\<lparr>ka_tx := Tx_exit\<rparr>)"
    using inv assms(2) by (auto intro!: inv_live rx_inv_upd [OF inv(3)])
  then show ?thesis
    using assms(3) run [OF same_refl] run [OF heartbeat_same]
    by (auto simp: tx_woken_def split: if_splits)
qed

lemma inv_tx_end:
  assumes "ka_inv st" and "ka_tx st = Tx_exit"
  shows "ka_inv ((snd (db_keepalive_cp_deinit sdk st))\<lparr>ka_tx := Tx_none\<rparr>)"
proof -
  have "res_base st" "res_none st \<or> res_full st" "open_socks st \<subseteq> {sock (s_keepalive_env st)} \<inter> {0..}"
    using assms by (auto simp: ka_inv_def tx_inv.simps)
  with deinit_resources [of st sdk] show ?thesis
    by (auto simp: ka_inv_def rx_inv_def tx_inv.simps)
qed


lemma inv_rx_next:
  assumes "ka_inv st" and "ka_rx st = Rx_loop"
  shows "ka_inv (rx_loop st)"
  using assms
  by (cases "ka_tx st") (auto simp: rx_loop_def Let_def ka_inv_def rx_inv_def tx_inv.simps)

lemma same_inv:
  assumes "ka_inv st" and "same_but_pack st st'" and "ka_rx st \<noteq> Rx_none" and "rc \<in> {Rx_loop, Rx_exit}"
  shows "ka_inv (st'\<lparr>ka_rx := rc\<rparr>)"
  using assms same_res [OF assms(2)]
  by (cases "ka_tx st") (auto simp: ka_inv_def rx_inv_def tx_inv.simps same_but_pack_def)

lemma inv_rx_get:
  assumes "ka_inv st" and "ka_rx st = Rx_recv n b" and "rx_recv sdk as ms sent b st = Some st'"
  shows "ka_inv st'"
proof -
  have rx: "ka_rx st \<noteq> Rx_none" using assms(2) by simp
  show ?thesis
    using assms(3) same_inv [OF assms(1) same_refl rx] same_inv [OF assms(1) same_wakeup rx]
      same_inv [OF assms(1) same_emit rx] same_inv [OF assms(1) rx_process_same rx]
    by (auto simp: rx_recv_def split: if_splits Option.bind_splits)
qed

lemma inv_rx_end:
  assumes "ka_inv st" and "ka_rx st = Rx_exit"
  shows "ka_inv (rx_exit st)"
  using assms
  by (cases "ka_tx st")
    (auto simp: rx_exit_def Let_def ka_inv_def rx_inv_def tx_inv.simps res_none_def res_base_def res_full_def)

lemma inv_timer:
  assumes "ka_inv st" and "timer (s_keepalive_env st)"
  shows "ka_inv (db_keepalive_timer_handler st)"
  using assms
  by (cases "ka_tx st")
    (auto simp: db_keepalive_timer_handler_def Let_def ka_inv_def rx_inv_def tx_inv.simps res_none_def)

lemma inv_alarm: "ka_inv st \<Longrightarrow> ka_inv (db_keepalive_rtc_timer_handler st)"
  by (cases "ka_tx st")
    (auto simp: db_keepalive_rtc_timer_handler_def ka_inv_def rx_inv_def tx_inv.simps)

theorem ka_inv_step:
  assumes "ka_do sdk co addr a st = Some st'" and "ka_inv st"
  shows "ka_inv st'"
proof (cases a)
  case (Tx_get ok)
  obtain s where pc: "ka_tx st = Tx_wait s"
    using assms(1) Tx_get by (cases "ka_tx st") auto
  have inv: "res_base st" "rx_inv st" "tx_live st"
    using assms(2) pc by (auto simp: ka_inv_def tx_inv_live)
  have rx: "rx_inv (st\<lparr>tokens := T, ka_tx := Tx_woken w\<rparr>)" "rx_inv (st\<lparr>ka_tx := Tx_woken w\<rparr>)" for T w
    using inv(2) pc by (auto intro: rx_inv_upd)
  from Tx_get assms(1) pc inv rx show ?thesis
    by (auto split: if_splits simp: ka_inv_def tx_inv_live)
next
  case (Ipc an msg)
  with assms show ?thesis by (blast intro: inv_ipc)
next
  case (Tx_connect ans r)
  with assms show ?thesis by (auto split: if_splits intro: inv_tx_start)
next
  case (Tx_create_rx ok r)
  with assms show ?thesis by (auto split: if_splits intro: inv_tx_init_rx)
next
  case (Tx_sleep io so ms sent)
  with assms show ?thesis by (auto split: if_splits intro: inv_tx_run)
next
  case Tx_next
  with assms show ?thesis by (auto split: if_splits intro: inv_tx_loop)
next
  case (Tx_beat ms sent)
  with assms show ?thesis by (auto split: tx_pc.splits intro: inv_tx_woken)
next
  case Tx_end
  with assms show ?thesis by (auto split: if_splits intro: inv_tx_end)
next
  case Rx_next
  with assms show ?thesis by (auto split: if_splits intro: inv_rx_next)
next
  case (Rx_get as ms sent)
  with assms show ?thesis by (auto split: rx_pc.splits intro: inv_rx_get)
next
  case Rx_end
  with assms show ?thesis by (auto split: if_splits intro: inv_rx_end)
next
  case Timer_fires
  with assms show ?thesis by (auto split: if_splits intro: inv_timer)
next
  case Alarm_fires
  with assms show ?thesis by (auto split: if_splits intro: inv_alarm)
qed

theorem ka_inv_run:
  assumes "ka_run sdk co addr as st = Some st'" and "ka_inv st"
  shows "ka_inv st'"
  using assms
proof (induction as arbitrary: st)
  case (Cons a as)
  then show ?case
    by (cases "ka_do sdk co addr a st") (auto intro: ka_inv_step)
qed simp

lemma ka_inv_reach: "ka_run sdk co addr as ka_boot = Some st \<Longrightarrow> ka_inv st"
  using ka_inv_run inv_boot by blast

end
