(* ===== verification/Keepalive_CP_Properties.thy ===== *)
theory Keepalive_CP_Properties
  imports Keepalive_CP_Safety
begin

text \<open>
  The properties of the keep-alive client: its resources, its socket, the heartbeat, the wake-up
  and what ends it, each with a run that meets its hypotheses; then what the code does at the
  edges.
\<close>

section \<open>A run\<close>

definition demo_sdk :: ka_sdk where
  "demo_sdk = \<lparr>PM_MODE_LOW_VOLTAGE = 1, PM_MODE_NORMAL_SLEEP = 0, hnd_crc8 = (\<lambda>bs i. 0), inet_addr = (\<lambda>s. 7)\<rparr>"

definition demo_alloc :: pack_alloc where
  "demo_alloc = \<lparr>al_chan = True, al_cbuf = True, al_tbuf = True, al_fill = (\<lambda>_. 0)\<rparr>"

definition demo_answer :: ipc_answer where
  "demo_answer = \<lparr>an_init = \<lparr>an_rx_buffer = True, an_raw_buffer = True, an_pack = demo_alloc, an_sema = True\<rparr>,
     an_thread = True, an_malloc = True, an_confirm = 0\<rparr>"

definition demo_start :: ka_act where
  "demo_start = Ipc demo_answer (Some \<lparr>cmd_id = DB_IPC_CMD_KEEPALIVESTART, ipc_payload = replicate 134 0\<rparr>)"

definition demo_stop :: ka_act where
  "demo_stop = Ipc demo_answer (Some \<lparr>cmd_id = DB_IPC_CMD_KEEPALIVESTOP, ipc_payload = []\<rparr>)"

definition demo_conn :: ka_act where
  "demo_conn = Tx_connect (\<lambda>_. \<lparr>an_socket = 5, an_bind = (\<lambda>_. True), an_connect = True\<rparr>) 0"

definition demo_pack :: pack_state where
  "demo_pack = snd (db_pack_init demo_alloc DB_KEEPALIVE_MSG_BUFFER_SIZE DB_KEEPALIVE_MSG_BUFFER_SIZE
     \<lparr>s_db_pack_chan = None, pk_mem = []\<rparr>)"

lemma demo_pack_init:
  "db_pack_init demo_alloc DB_KEEPALIVE_MSG_BUFFER_SIZE DB_KEEPALIVE_MSG_BUFFER_SIZE
     \<lparr>s_db_pack_chan = None, pk_mem = []\<rparr> = (BK_OK, demo_pack)"
  by (simp add: demo_pack_def db_pack_init_def Let_def demo_alloc_def del: upt_rec_numeral)

lemma demo_pack_chan:
  "\<exists>ch. s_db_pack_chan demo_pack = Some ch \<and> tx_ok ch \<and> tsize ch = DB_KEEPALIVE_MSG_BUFFER_SIZE \<and>
     chan_ok 1460 ch \<and> pending ch = []"
  using init_chan [OF demo_pack_init] by (auto simp: tx_ok_def chan_ok_def DB_KEEPALIVE_MSG_BUFFER_SIZE_def)

text \<open>After the start message, and connected, with the receiver waiting.\<close>

definition demo_ready :: ka_state where
  "demo_ready = the (ka_run demo_sdk True 0 [demo_start] ka_boot)"

lemma demo_ready: "ka_run demo_sdk True 0 [demo_start] ka_boot = Some demo_ready \<and>
   ka_tx demo_ready = Tx_start \<and> keepalive_ongoing (s_keepalive_env demo_ready) \<and>
   sema (s_keepalive_env demo_ready) = Some 2 \<and> ka_pack demo_ready = demo_pack \<and> live demo_ready = {0, 1, 2} \<and>
   rx_buffer (s_keepalive_env demo_ready) = Some 0 \<and>
   rx_raw_buffer (s_keepalive_env demo_ready) = Some 1 \<and> interval_ms (s_keepalive_env demo_ready) = 30000 \<and>
   cp_log demo_ready = [Cif_confirm []] \<and> open_socks demo_ready = {} \<and> ka_rx demo_ready = Rx_none \<and>
   tokens demo_ready = {}"
  unfolding demo_ready_def
  by (simp add: demo_start_def ka_boot_def demo_answer_def db_ipc_msg_handler_def ipc_cmd_defs CFG_SIZE_def
      db_keepalive_cp_init_def ka_malloc_def zero_env_def demo_pack_init db_keepalive_cp_start_def
      DB_KEEPALIVE_DEFAULT_INTERVAL_MS_def Let_def insert_commute numeral_2_eq_2)


section \<open>Sending\<close>

lemma evt_bytes_length [simp]: "length (evt_bytes e) = 9"
  by (simp add: evt_bytes_def le16_def le32_def)

text \<open>With the packing layer ready an event always goes out, as one packet.\<close>

lemma send_event_ok:
  assumes "pack_ready (ka_pack st)"
  shows "\<exists>sq ps. send_event sdk ms sent evt st =
    Some (cp_emit [(if sent then Sock_send else Send_failed) (sock (s_keepalive_env st))
      (packet (hnd_crc8 sdk) ms sq (evt_bytes evt))] (st\<lparr>ka_pack := ps\<rparr>)) \<and> pack_ready ps"
proof -
  obtain ch where ch: "s_db_pack_chan (ka_pack st) = Some ch" "tx_ok ch" "tsize ch = DB_KEEPALIVE_MSG_BUFFER_SIZE"
    using assms by (auto simp: pack_ready_def)
  have "length (evt_bytes evt) \<le> unat (tsize ch)"
    by (simp add: ch(3) DB_KEEPALIVE_MSG_BUFFER_SIZE_def)
  then obtain t where p: "db_pack_pack (hnd_crc8 sdk) ms (Some (evt_bytes evt)) True (ka_pack st) =
     Some ((25, Some (packet (hnd_crc8 sdk) ms (tx_sequence ch + 1) (evt_bytes evt))),
       ka_pack st\<lparr>s_db_pack_chan := Some (ch\<lparr>tx_sequence := tx_sequence ch + 1, tbuf := t\<rparr>)\<rparr>)"
    "tx_ok (ch\<lparr>tx_sequence := tx_sequence ch + 1, tbuf := t\<rparr>)"
    using db_pack_pack_ok [OF ch(1,2), of "evt_bytes evt" "hnd_crc8 sdk" ms] by auto
  show ?thesis
    by (rule exI [of _ "tx_sequence ch + 1"],
        rule exI [of _ "ka_pack st\<lparr>s_db_pack_chan := Some (ch\<lparr>tx_sequence := tx_sequence ch + 1, tbuf := t\<rparr>)\<rparr>"])
      (use p(2) ch(3) in \<open>simp add: send_event_def Let_def pack_ready_def p(1)\<close>)
qed

text \<open>The bytes of a heartbeat.\<close>

definition heartbeat :: "u8 list" where
  "heartbeat = evt_bytes \<lparr>evt_opcode = DBCMD_KEEP_ALIVE_REQUEST, evt_status = 0, evt_flags = 0, evt_length = 0\<rparr>"

lemma heartbeat_bytes: "heartbeat = [17, 0, 0, 0, 0, 0, 0, 0, 0]"
  by (simp add: heartbeat_def evt_bytes_def le32_def le16_def dbcmd_defs)

lemma heartbeat_ok:
  assumes "pack_ready (ka_pack st)" and "sock (s_keepalive_env st) \<ge> 0"
  shows "\<exists>sq ps. db_keepalive_send_heartbeat sdk ms sent st =
    Some (cp_emit [(if sent then Sock_send else Send_failed) (sock (s_keepalive_env st))
      (packet (hnd_crc8 sdk) ms sq heartbeat)] (st\<lparr>ka_pack := ps\<rparr>)) \<and> pack_ready ps"
  using send_event_ok [OF assms(1)] assms(2) by (simp add: db_keepalive_send_heartbeat_def heartbeat_def)

lemma tx_live_pack: "tx_live st \<Longrightarrow> pack_ready (ka_pack st)"
  by (auto simp: tx_live_def res_full_def)

section \<open>The demonstration run, continued\<close>

definition demo_link_acts :: "ka_act list" where
  "demo_link_acts = [demo_start, demo_conn, Tx_create_rx True 0]"

lemma ka_run_append:
  "ka_run sdk co addr (as @ bs) st = Option.bind (ka_run sdk co addr as st) (ka_run sdk co addr bs)"
  by (induction as arbitrary: st) (auto split: Option.bind_splits)

lemma ka_run_start:
  "ka_run demo_sdk True 0 (demo_start # as) ka_boot = ka_run demo_sdk True 0 as demo_ready"
  using ka_run_append [of demo_sdk True 0 "[demo_start]" as ka_boot] demo_ready
  by (simp del: ka_run.simps)

lemma bind_loop_first:
  "ok i \<Longrightarrow> 0 < k \<Longrightarrow> bind_loop k i ok st =
     (True, cp_emit [Sock_bind (sock (s_keepalive_env st)) (seed_port (next_seed (s_bind_seed st))) True]
       (st\<lparr>s_bind_seed := next_seed (s_bind_seed st)\<rparr>))"
  by (cases k) (simp_all add: Let_def)

lemma conn_loop_first: "conn_try (ans i) st = (True, st') \<Longrightarrow> 0 < k \<Longrightarrow> conn_loop k i ans st = (True, st')"
  by (cases k) simp_all

text \<open>A first try that works.\<close>

lemma conn_first:
  assumes "an_socket (ans 0) \<ge> 0" and "an_bind (ans 0) 0" and "an_connect (ans 0)"
  shows "db_keepalive_init_connection ans st =
    (BK_OK, cp_emit [Sock_open (an_socket (ans 0)),
        Sock_bind (an_socket (ans 0)) (seed_port (next_seed (s_bind_seed st))) True,
        Sock_connect (an_socket (ans 0)) True]
      (upd_env (sock_update (\<lambda>_. an_socket (ans 0)))
        (st\<lparr>open_socks := insert (an_socket (ans 0)) (open_socks st), s_bind_seed := next_seed (s_bind_seed st)\<rparr>)))"
proof -
  have "conn_try (ans 0) st = (True, cp_emit [Sock_open (an_socket (ans 0)),
        Sock_bind (an_socket (ans 0)) (seed_port (next_seed (s_bind_seed st))) True,
        Sock_connect (an_socket (ans 0)) True]
      (upd_env (sock_update (\<lambda>_. an_socket (ans 0)))
        (st\<lparr>open_socks := insert (an_socket (ans 0)) (open_socks st), s_bind_seed := next_seed (s_bind_seed st)\<rparr>)))"
    using assms
    by (simp add: conn_try_def Let_def bind_loop_first port_defs cp_emit_def)
  from conn_loop_first [of ans 0 st, OF this] show ?thesis
    by (simp add: db_keepalive_init_connection_def DB_KEEPALIVE_MAX_RETRY_CNT_def)
qed

lemma ka_run_step: "ka_do sdk co addr a st = Some st1 \<Longrightarrow> ka_run sdk co addr (a # as) st = ka_run sdk co addr as st1"
  by (simp only: ka_run.simps bind.simps)

definition demo_linked :: ka_state where
  "demo_linked = the (ka_run demo_sdk True 0 demo_link_acts ka_boot)"

lemma demo_linked: "ka_run demo_sdk True 0 demo_link_acts ka_boot = Some demo_linked \<and>
   ka_tx demo_linked = Tx_run \<and> ka_rx demo_linked = Rx_loop \<and>
   keepalive_ongoing (s_keepalive_env demo_linked) \<and>
   sema (s_keepalive_env demo_linked) = Some 2 \<and> sock (s_keepalive_env demo_linked) = 5 \<and>
   ka_pack demo_linked = demo_pack \<and> rx_raw_buffer (s_keepalive_env demo_linked) = Some 1 \<and>
   interval_ms (s_keepalive_env demo_linked) = 30000 \<and>
   Cif_power_up_host \<notin> set (cp_log demo_linked) \<and> live demo_linked = {0, 1, 2} \<and>
   open_socks demo_linked = {5} \<and> tokens demo_linked = {}"
proof -
  obtain st1 where 1: "ka_do demo_sdk True 0 demo_conn demo_ready = Some st1" "ka_tx st1 = Tx_init_rx"
    "ka_rx st1 = Rx_none" "s_keepalive_env st1 = s_keepalive_env demo_ready\<lparr>sock := 5\<rparr>"
    "Cif_power_up_host \<notin> set (cp_log st1)" "live st1 = {0, 1, 2}" "open_socks st1 = {5}" "tokens st1 = {}"
    "ka_pack st1 = demo_pack"
    using demo_ready by (simp add: demo_conn_def tx_start_def conn_first Let_def)
  obtain st2 where 2: "ka_do demo_sdk True 0 (Tx_create_rx True 0) st1 = Some st2" "ka_tx st2 = Tx_run"
    "ka_rx st2 = Rx_loop" "s_keepalive_env st2 = s_keepalive_env demo_ready\<lparr>sock := 5, rx_thread := True\<rparr>"
    "Cif_power_up_host \<notin> set (cp_log st2)" "live st2 = {0, 1, 2}" "open_socks st2 = {5}" "tokens st2 = {}"
    "ka_pack st2 = demo_pack"
    using 1 by (simp add: tx_init_rx_def db_keepalive_init_rx_def)
  have "ka_run demo_sdk True 0 demo_link_acts ka_boot = Some st2"
    unfolding demo_link_acts_def ka_run_start ka_run_step [OF 1(1)] ka_run_step [OF 2(1)] by simp
  with 2 demo_ready show ?thesis
    by (simp add: demo_linked_def)
qed


lemma tx_run_ok:
  assumes "tx_live st" and "keepalive_ongoing (s_keepalive_env st)"
  shows "\<exists>st' sq. tx_run sdk True True ms sent st = Some st' \<and> ka_tx st' = Tx_loop \<and> ka_rx st' = ka_rx st \<and>
    s_keepalive_env st' = s_keepalive_env (upd_env (timer_update (\<lambda>_. True)) (db_keepalive_start_lv_sleep sdk st)) \<and>
    live st' = live st \<and> wakeup_reason st' = 0 \<and> open_socks st' = open_socks st \<and>
    cp_log st' = cp_log (db_keepalive_start_lv_sleep sdk (pl_power_down_host st)) @
      [(if sent then Sock_send else Send_failed) (sock (s_keepalive_env st)) (packet (hnd_crc8 sdk) ms sq heartbeat)]"
proof -
  let ?st = "upd_env (timer_update (\<lambda>_. True)) (db_keepalive_start_lv_sleep sdk (pl_power_down_host st))"
  have ok: "pack_ready (ka_pack ?st)" "sock (s_keepalive_env ?st) \<ge> 0" "keepalive_ongoing (s_keepalive_env ?st)"
    using assms tx_live_pack by (auto simp: tx_live_def)
  obtain sq ps where h: "db_keepalive_send_heartbeat sdk ms sent ?st =
    Some (cp_emit [(if sent then Sock_send else Send_failed) (sock (s_keepalive_env ?st))
      (packet (hnd_crc8 sdk) ms sq heartbeat)] (?st\<lparr>ka_pack := ps\<rparr>))"
    using heartbeat_ok [OF ok(1,2), of sdk ms sent] by blast
  let ?fin = "(cp_emit [(if sent then Sock_send else Send_failed) (sock (s_keepalive_env ?st))
      (packet (hnd_crc8 sdk) ms sq heartbeat)] (?st\<lparr>ka_pack := ps\<rparr>))\<lparr>ka_tx := Tx_loop\<rparr>"
  have "tx_run sdk True True ms sent st = Some ?fin"
    using ok by (simp add: tx_run_def Let_def h)
  moreover have "s_keepalive_env ?st =
      s_keepalive_env (upd_env (timer_update (\<lambda>_. True)) (db_keepalive_start_lv_sleep sdk st))"
    "wakeup_reason ?st = 0" "live ?st = live st"
    by (simp_all add: db_keepalive_start_lv_sleep_def pl_start_lv_sleep_def)
  ultimately show ?thesis
    by (intro exI [of _ ?fin] exI [of _ sq]) simp
qed

lemma set_rtc_more:
  "live (db_keepalive_set_keepalive_rtc st) = live st"
  "wakeup_reason (db_keepalive_set_keepalive_rtc st) = wakeup_reason st"
  "DB_KEEPALIVE_RTC_TIMER_THRESHOLD_MS \<le> interval_ms (s_keepalive_env st) \<Longrightarrow>
     alarm (db_keepalive_set_keepalive_rtc st) = Some ''da_rtc''"
  "Cif_power_up_host \<in> set (cp_log (db_keepalive_set_keepalive_rtc st)) \<longleftrightarrow> Cif_power_up_host \<in> set (cp_log st)"
  by (auto simp: db_keepalive_set_keepalive_rtc_def Let_def)

lemma start_lv_interval [simp]:
  "interval_ms (s_keepalive_env (db_keepalive_start_lv_sleep sdk st)) = interval_ms (s_keepalive_env st)"
  by (simp add: db_keepalive_start_lv_sleep_def pl_start_lv_sleep_def)

definition demo_wait_acts :: "ka_act list" where
  "demo_wait_acts = demo_link_acts @ [Rx_next, Tx_sleep True True 0 True, Tx_next]"

definition demo_wait :: ka_state where
  "demo_wait = the (ka_run demo_sdk True 0 demo_wait_acts ka_boot)"

lemma ka_inv_linked: "ka_inv demo_linked"
  using demo_linked ka_inv_reach by blast

lemma demo_wait: "ka_run demo_sdk True 0 demo_wait_acts ka_boot = Some demo_wait \<and>
   ka_tx demo_wait = Tx_wait 2 \<and> ka_rx demo_wait = Rx_recv 5 (Some 1) \<and>
   keepalive_ongoing (s_keepalive_env demo_wait) \<and>
   sema (s_keepalive_env demo_wait) = Some 2 \<and> sock (s_keepalive_env demo_wait) = 5 \<and>
   rx_raw_buffer (s_keepalive_env demo_wait) = Some 1 \<and> alarm demo_wait = Some ''da_rtc'' \<and>
   Cif_power_up_host \<notin> set (cp_log demo_wait) \<and> live demo_wait = {0, 1, 2} \<and> wakeup_reason demo_wait = 0"
proof -
  let ?st1 = "demo_linked\<lparr>ka_rx := Rx_recv 5 (Some 1)\<rparr>"
  have 1: "ka_do demo_sdk True 0 Rx_next demo_linked = Some ?st1"
    using demo_linked by (simp add: rx_loop_def Let_def)
  have "tx_live ?st1"
    using ka_inv_linked demo_linked by (simp add: ka_inv_def tx_inv_live)
  then obtain st2 sq where r: "tx_run demo_sdk True True 0 True ?st1 = Some st2" "ka_tx st2 = Tx_loop"
    "ka_rx st2 = Rx_recv 5 (Some 1)"
    "s_keepalive_env st2 = s_keepalive_env (upd_env (timer_update (\<lambda>_. True)) (db_keepalive_start_lv_sleep demo_sdk ?st1))"
    "live st2 = {0, 1, 2}" "wakeup_reason st2 = 0"
    "cp_log st2 = cp_log (db_keepalive_start_lv_sleep demo_sdk (pl_power_down_host ?st1)) @
      [Sock_send 5 (packet (hnd_crc8 demo_sdk) 0 sq heartbeat)]"
    using tx_run_ok [of ?st1 demo_sdk 0 True] demo_linked by auto
  have 2: "ka_do demo_sdk True 0 (Tx_sleep True True 0 True) ?st1 = Some st2"
    using demo_linked r(1) by simp
  have e: "keepalive_ongoing (s_keepalive_env st2)" "sema (s_keepalive_env st2) = Some 2"
    "sock (s_keepalive_env st2) = 5" "rx_raw_buffer (s_keepalive_env st2) = Some 1"
    "interval_ms (s_keepalive_env st2) = 30000"
    using demo_linked by (simp_all add: r(4))
  have log: "Cif_power_up_host \<notin> set (cp_log st2)"
    using demo_linked by (simp add: r(7) db_keepalive_start_lv_sleep_def pl_start_lv_sleep_def)
  let ?st3 = "(db_keepalive_set_keepalive_rtc st2)\<lparr>ka_tx := Tx_wait 2\<rparr>"
  have 3: "ka_do demo_sdk True 0 Tx_next st2 = Some ?st3"
    using e r(2) by (simp add: tx_loop_def Let_def)
  have "ka_run demo_sdk True 0 demo_wait_acts ka_boot = Some ?st3"
    using demo_linked
    by (simp only: demo_wait_acts_def ka_run_append bind.simps ka_run_step [OF 1] ka_run_step [OF 2]
        ka_run_step [OF 3] ka_run.simps(1))
  with e r(3,5,6) log show ?thesis by (simp add: demo_wait_def set_rtc_more DB_KEEPALIVE_RTC_TIMER_THRESHOLD_MS_def)
qed


section \<open>Resources\<close>




section \<open>What ends a keep-alive\<close>

lemma quiet_log:
  "Cif_power_up_host \<in> set (cp_log (quiet sdk st)) \<longleftrightarrow> Cif_power_up_host \<in> set (cp_log st)"
  by (auto simp: quiet_def Let_def db_keepalive_stop_keepalive_rtc_def db_keepalive_exit_lv_sleep_def pl_exit_lv_sleep_def)

lemma deinit_log:
  assumes "res_full st"
  shows "Cif_power_up_host \<in> set (cp_log (snd (db_keepalive_cp_deinit sdk st))) \<longleftrightarrow>
    Cif_power_up_host \<in> set (cp_log st)"
proof -
  have "cp_log (deinit_memory (deinit_socket (quiet sdk st))) = cp_log (deinit_socket (quiet sdk st))"
    using assms deinit_memory_full(2) [of "deinit_socket (quiet sdk st)"] by (auto simp: res_full_def)
  then show ?thesis
    by (simp add: deinit_alt deinit_socket_def close_sock_def quiet_log)
qed

text \<open>From the wait, with the flag cleared and a token: the transmit thread ends and releases.\<close>

lemma tx_ends:
  assumes "ka_inv st" and "ka_tx st = Tx_wait s" and "\<not> keepalive_ongoing (s_keepalive_env st)" and "s \<in> tokens st"
  shows "\<exists>st'. ka_run sdk co addr [Tx_get True, Tx_beat ms sent, Tx_end] st = Some st' \<and>
    ka_tx st' = Tx_none \<and> live st' = {} \<and> open_socks st' = {} \<and> \<not> keepalive_ongoing (s_keepalive_env st') \<and>
    ka_rx st' = ka_rx st \<and> wakeup_reason st' = wakeup_reason st \<and>
    (Cif_power_up_host \<in> set (cp_log st') \<longleftrightarrow> Cif_power_up_host \<in> set (cp_log st))"
proof -
  let ?st2 = "st\<lparr>tokens := tokens st - {s}, ka_tx := Tx_exit\<rparr>"
  have run: "ka_run sdk co addr [Tx_get True, Tx_beat ms sent, Tx_end] st =
      Some ((snd (db_keepalive_cp_deinit sdk ?st2))\<lparr>ka_tx := Tx_none\<rparr>)"
    using assms(2-4) by (simp add: tx_woken_def)
  have "tx_live st" "res_base st"
    using assms(1,2) by (simp_all add: ka_inv_def tx_inv_live)
  then have "res_base ?st2" "res_full ?st2" "open_socks ?st2 = {sock (s_keepalive_env ?st2)}" "sock (s_keepalive_env ?st2) \<ge> 0"
    by (simp_all add: tx_live_def res_base_def res_full_def)
  with deinit_resources [of ?st2 sdk] deinit_log [of ?st2 sdk] show ?thesis
    unfolding run by (simp add: zero_env_def)
qed


lemma tx_wait_stop:
  assumes "ka_run sdk co addr as ka_boot = Some st" and "ka_tx st = Tx_wait s"
  shows "\<exists>st'. ka_run sdk co addr
      [Ipc an (Some \<lparr>cmd_id = DB_IPC_CMD_KEEPALIVESTOP, ipc_payload = p\<rparr>), Tx_get True, Tx_beat ms sent, Tx_end] st =
      Some st' \<and> ka_tx st' = Tx_none \<and> live st' = {} \<and> open_socks st' = {} \<and>
    \<not> keepalive_ongoing (s_keepalive_env st') \<and> ka_rx st' = ka_rx st"
proof -
  have inv: "ka_inv st" using ka_inv_reach [OF assms(1)] .
  then have t: "tx_thread (s_keepalive_env st)" "sema (s_keepalive_env st) = Some s"
    using assms(2) by (simp_all add: ka_inv_def tx_inv_live tx_live_def)
  let ?m = "Ipc an (Some \<lparr>cmd_id = DB_IPC_CMD_KEEPALIVESTOP, ipc_payload = p\<rparr>)"
  let ?st1 = "cp_emit [Cif_confirm []] (db_keepalive_sema_post_safe (upd_env (keepalive_ongoing_update (\<lambda>_. False)) st))"
  have 1: "ka_do sdk co addr ?m st = Some ?st1"
    using t(1) by (simp add: db_ipc_msg_handler_def ipc_cmd_defs Let_def db_keepalive_cp_stop_def)
  have tok: "s \<in> tokens ?st1" "ka_tx ?st1 = Tx_wait s" "\<not> keepalive_ongoing (s_keepalive_env ?st1)"
    using t(2) assms(2) by (simp_all add: db_keepalive_sema_post_safe_def)
  show ?thesis
    using tx_ends [OF ka_inv_step [OF 1 inv] tok(2,3,1), of sdk co addr ms sent]
    unfolding ka_run_step [OF 1] by (simp del: ka_run.simps) blast
qed

text \<open>
  C35. A stop message ends a running keep-alive: when the transmit thread waits, the message is
  confirmed, the thread wakes, closes the connection and frees everything, without a call that
  blocks or fails.
\<close>
theorem stop_ends_keepalive:
  assumes "ka_run sdk co addr as ka_boot = Some st" and "ka_tx st = Tx_wait s"
  shows "\<exists>st'. ka_run sdk co addr
      [Ipc an (Some \<lparr>cmd_id = DB_IPC_CMD_KEEPALIVESTOP, ipc_payload = p\<rparr>), Tx_get True, Tx_beat ms sent, Tx_end] st =
      Some st' \<and> ka_tx st' = Tx_none \<and> live st' = {} \<and> open_socks st' = {} \<and>
    \<not> keepalive_ongoing (s_keepalive_env st')"
  using tx_wait_stop [OF assms] by blast

theorem stop_ends_keepalive_witness:
  "\<exists>st'. ka_run demo_sdk True 0
      [Ipc demo_answer (Some \<lparr>cmd_id = DB_IPC_CMD_KEEPALIVESTOP, ipc_payload = []\<rparr>), Tx_get True, Tx_beat 0 True, Tx_end]
      demo_wait = Some st' \<and> ka_tx st' = Tx_none \<and> live st' = {} \<and> open_socks st' = {} \<and>
    \<not> keepalive_ongoing (s_keepalive_env st')"
  using stop_ends_keepalive [of demo_sdk True 0 demo_wait_acts demo_wait 2] demo_wait by blast


text \<open>Once the receive thread is at its end, both threads end and everything is released.\<close>

lemma rx_ends:
  assumes "ka_inv st" and "ka_rx st = Rx_exit" and "ka_tx st = Tx_wait s"
  shows "\<exists>st'. ka_run sdk co addr [Rx_end, Tx_get True, Tx_beat ms sent, Tx_end] st = Some st' \<and>
    ka_tx st' = Tx_none \<and> ka_rx st' = Rx_none \<and> live st' = {} \<and> open_socks st' = {} \<and>
    \<not> keepalive_ongoing (s_keepalive_env st') \<and> wakeup_reason st' = wakeup_reason st \<and>
    (Cif_power_up_host \<in> set (cp_log st') \<longleftrightarrow> Cif_power_up_host \<in> set (cp_log st))"
proof -
  have sema: "sema (s_keepalive_env st) = Some s"
    using assms(1,3) by (simp add: ka_inv_def tx_inv_live)
  have 1: "ka_do sdk co addr Rx_end st = Some (rx_exit st)"
    using assms(2) by simp
  have x: "ka_tx (rx_exit st) = Tx_wait s" "\<not> keepalive_ongoing (s_keepalive_env (rx_exit st))"
    "s \<in> tokens (rx_exit st)" "ka_rx (rx_exit st) = Rx_none" "cp_log (rx_exit st) = cp_log st"
    "wakeup_reason (rx_exit st) = wakeup_reason st"
    using assms(3) sema by (simp_all add: rx_exit_def Let_def db_keepalive_sema_post_safe_def)
  show ?thesis
    using tx_ends [OF ka_inv_step [OF 1 assms(1)] x(1-3), of sdk co addr ms sent] x(4-6)
    unfolding ka_run_step [OF 1] by auto
qed

lemma recv_blocked:
  "retry + n = DB_KEEPALIVE_RX_MAX_RETRY_CNT \<Longrightarrow> recv_raw (replicate (n + 1) Would_block) retry = Some (-1, [])"
proof (induction n arbitrary: retry)
  case (Suc n)
  from Suc.IH [of "retry + 1"] Suc.prems show ?case by simp
qed simp

text \<open>
  C25. A server that falls silent wakes the application core: when 21 receives in a row time out
  (21 times 3 seconds), the core is powered up with the reason
  \<open>POWERUP_KEEPALIVE_FAIL_WAKEUP_FLAG\<close>, both threads end and everything is released.
\<close>
theorem silent_server_wakes_host:
  assumes "ka_run sdk co addr as ka_boot = Some st" and "ka_tx st = Tx_wait s" and "ka_rx st = Rx_recv n b"
  shows "\<exists>st'. ka_run sdk co addr [Rx_get (replicate 21 Would_block) ms sent, Rx_end, Tx_get True,
      Tx_beat ms sent, Tx_end] st = Some st' \<and>
    wakeup_reason st' = POWERUP_KEEPALIVE_FAIL_WAKEUP_FLAG \<and> Cif_power_up_host \<in> set (cp_log st') \<and>
    ka_tx st' = Tx_none \<and> ka_rx st' = Rx_none \<and> live st' = {} \<and> open_socks st' = {}"
proof -
  have inv: "ka_inv st" using ka_inv_reach [OF assms(1)] .
  let ?st1 = "(pl_wakeup_host POWERUP_KEEPALIVE_FAIL_WAKEUP_FLAG st)\<lparr>ka_rx := Rx_exit\<rparr>"
  have "db_keepalive_recv_raw_data (replicate 21 Would_block) = Some (-1, [])"
    using recv_blocked [of 0 20] by (simp add: db_keepalive_recv_raw_data_def DB_KEEPALIVE_RX_MAX_RETRY_CNT_def)
  then have 1: "ka_do sdk co addr (Rx_get (replicate 21 Would_block) ms sent) st = Some ?st1"
    using assms(3) by (simp add: rx_recv_def)
  have x: "ka_rx ?st1 = Rx_exit" "ka_tx ?st1 = Tx_wait s" using assms(2) by simp_all
  show ?thesis
    using rx_ends [OF ka_inv_step [OF 1 inv] x, of sdk co addr ms sent]
    unfolding ka_run_step [OF 1] by auto
qed

theorem silent_server_wakes_host_witness:
  "\<exists>st'. ka_run demo_sdk True 0 [Rx_get (replicate 21 Would_block) 0 True, Rx_end, Tx_get True,
      Tx_beat 0 True, Tx_end] demo_wait = Some st' \<and> wakeup_reason st' = POWERUP_KEEPALIVE_FAIL_WAKEUP_FLAG"
  using silent_server_wakes_host [of demo_sdk True 0 demo_wait_acts demo_wait 2 5 "Some 1" 0 True] demo_wait by blast


section \<open>The heartbeat and the wake-up\<close>



text \<open>The payloads that ask for a wake-up.\<close>

definition wake_request :: "u8 list \<Rightarrow> bool" where
  "wake_request d \<longleftrightarrow> CMD_HEAD_SIZE \<le> length d \<and> cmd_opcode (read_cmd d) = DBCMD_WAKE_UP_REQUEST"

lemma callback_wake:
  assumes "length d < 2 ^ 16" and "pack_ready (ka_pack st)"
  shows "\<exists>st'. db_keepalive_unpack_callback sdk ms sent d st = Some st' \<and> pack_ready (ka_pack st') \<and>
    count_list (cp_log st') Cif_power_up_host =
      count_list (cp_log st) Cif_power_up_host + (if wake_request d then 1 else 0) \<and>
    wakeup_reason st' = (if wake_request d then POWERUP_MULTIMEDIA_WAKEUP_HOST_FLAG else wakeup_reason st)"
proof -
  have len: "unat (of_nat (length d) :: u16) = length d"
    using assms(1) by (simp add: unat_of_nat take_bit_nat_eq_self)
  have report: "\<exists>st'. doorbell_transmission_event_report sdk ms sent opc stt fl st = Some st' \<and>
      pack_ready (ka_pack st') \<and> count_list (cp_log st') Cif_power_up_host = count_list (cp_log st) Cif_power_up_host \<and>
      wakeup_reason st' = wakeup_reason st" for opc stt fl
    using send_event_ok [OF assms(2), of sdk ms sent "\<lparr>evt_opcode = opc, evt_status = stt, evt_flags = fl, evt_length = 0\<rparr>"]
      assms(2) by (auto simp: doorbell_transmission_event_report_def)
  then show ?thesis
    using assms(2)
    by (auto simp: db_keepalive_unpack_callback_def db_tx_cmd_recive_callback_def wake_request_def len dbcmd_defs Let_def)
qed

lemma callbacks_wake:
  assumes "\<forall>d \<in> set ds. length d < 2 ^ 16" and "pack_ready (ka_pack st)"
  shows "\<exists>st'. callbacks sdk ms sent ds st = Some st' \<and>
    count_list (cp_log st') Cif_power_up_host =
      count_list (cp_log st) Cif_power_up_host + length (filter wake_request ds) \<and>
    wakeup_reason st' =
      (if \<exists>d \<in> set ds. wake_request d then POWERUP_MULTIMEDIA_WAKEUP_HOST_FLAG else wakeup_reason st)"
  using assms
proof (induction ds arbitrary: st)
  case (Cons d ds)
  obtain st1 where 1: "db_keepalive_unpack_callback sdk ms sent d st = Some st1" "pack_ready (ka_pack st1)"
    "count_list (cp_log st1) Cif_power_up_host =
      count_list (cp_log st) Cif_power_up_host + (if wake_request d then 1 else 0)"
    "wakeup_reason st1 = (if wake_request d then POWERUP_MULTIMEDIA_WAKEUP_HOST_FLAG else wakeup_reason st)"
    using callback_wake [of d st sdk ms sent] Cons.prems by auto
  from Cons.IH [OF _ 1(2)] Cons.prems 1 show ?case by auto
qed simp

lemma deframe_short: "good_stream mx bs \<Longrightarrow> mx < 2 ^ 16 \<Longrightarrow> \<forall>d \<in> set (fst (deframe bs)). length d < 2 ^ 16"
proof (induction bs rule: deframe.induct)
  case (1 bs)
  show ?case
  proof (cases "partial_packet bs")
    case True
    then show ?thesis by (simp add: deframe_partial)
  next
    case False
    then have "16 \<le> length bs" by auto
    with 1 False good_headD [OF 1(2)] show ?thesis
      by (auto simp: deframe_complete)
  qed
qed

text \<open>What the receiver does with bytes it has received.\<close>

lemma received_wakes:
  assumes "s_db_pack_chan (ka_pack st) = Some ch" and "chan_ok 1460 ch" and "pack_ready (ka_pack st)"
    and "good_stream 1460 (pending ch @ bs)" and "bs \<noteq> []"
  shows "\<exists>st'. rx_process sdk ms sent bs st = Some st' \<and>
    count_list (cp_log st') Cif_power_up_host = count_list (cp_log st) Cif_power_up_host +
      length (filter wake_request (fst (deframe (pending ch @ bs)))) \<and>
    wakeup_reason st' = (if \<exists>d \<in> set (fst (deframe (pending ch @ bs))). wake_request d
      then POWERUP_MULTIMEDIA_WAKEUP_HOST_FLAG else wakeup_reason st)"
proof -
  obtain left ch' es where u: "unpack_loop (hnd_crc8 sdk) True bs ch [] = Some (left, ch', es)"
    "payloads es = fst (deframe (pending ch @ bs))"
    using unpack_loop_ok [OF assms(2,4), of "hnd_crc8 sdk" "[]"] by (auto simp: unpacked_def)
  let ?ps = "(ka_pack st)\<lparr>s_db_pack_chan := Some ch'\<rparr>"
  have un: "db_pack_unpack (hnd_crc8 sdk) True (Some bs) (ka_pack st) = Some (int (length bs) - int left, es, ?ps)"
    using assms(1,5) u(1) by (simp add: db_pack_unpack_def)
  from callbacks_wake [OF deframe_short [OF assms(4)], of "st\<lparr>ka_pack := ?ps\<rparr>" sdk ms sent] unpack_ready [OF un assms(3)]
  show ?thesis
    by (simp add: rx_process_def un u(2) split del: if_split cong: if_cong)
qed

text \<open>
  C9. The application core is woken exactly when the server asks: when the bytes received,
  with those already cached, are whole or partial packets of at most 1460 bytes, the receiver
  powers the application core up once for each wake-up request among the payloads completed,
  and for nothing else; the wake-up reason then says so.
\<close>
theorem wake_iff_requested:
  assumes "s_db_pack_chan (ka_pack st) = Some ch" and "chan_ok 1460 ch" and "pack_ready (ka_pack st)"
    and "good_stream 1460 (pending ch @ bs)" and "bs \<noteq> []"
  shows "\<exists>st'. rx_process sdk ms sent bs st = Some st' \<and>
    count_list (cp_log st') Cif_power_up_host = count_list (cp_log st) Cif_power_up_host +
      length (filter wake_request (fst (deframe (pending ch @ bs)))) \<and>
    wakeup_reason st' = (if \<exists>d \<in> set (fst (deframe (pending ch @ bs))). wake_request d
      then POWERUP_MULTIMEDIA_WAKEUP_HOST_FLAG else wakeup_reason st)"
  using received_wakes [OF assms] .

text \<open>A wake-up request as the server sends it.\<close>

definition wake_packet :: "u8 list" where
  "wake_packet = packet (\<lambda>bs i. 0) 0 1 (cmd_bytes \<lparr>cmd_opcode = DBCMD_WAKE_UP_REQUEST, cmd_param = 0, cmd_length = 0\<rparr>)"

lemma cmd_bytes_wake:
  "cmd_bytes \<lparr>cmd_opcode = DBCMD_WAKE_UP_REQUEST, cmd_param = 0, cmd_length = 0\<rparr> = [19, 0, 0, 0, 0, 0, 0, 0, 0, 0]"
  by (simp add: cmd_bytes_def le32_def le16_def dbcmd_defs)

lemma wake_packet:
  "wake_packet \<noteq> []" "length wake_packet = 26" "good_stream 1460 wake_packet"
  "deframe wake_packet = ([[19, 0, 0, 0, 0, 0, 0, 0, 0, 0]], [])" "wake_request [19, 0, 0, 0, 0, 0, 0, 0, 0, 0]"
proof -
  let ?d = "[19, 0, 0, 0, 0, 0, 0, 0, 0, 0] :: u8 list"
  have w: "wake_packet = packet (\<lambda>bs i. 0) 0 1 ?d @ []" by (simp add: wake_packet_def cmd_bytes_wake)
  show "good_stream 1460 wake_packet"
    unfolding w by (rule good_packet) (simp_all add: good_stream.simps)
  show "deframe wake_packet = ([?d], [])"
    unfolding w by (subst deframe_packet) (simp_all add: deframe_partial)
  show "wake_request ?d"
    by (simp add: wake_request_def CMD_HEAD_SIZE_def read_cmd_def get32_def dbcmd_defs)
  show l: "length wake_packet = 26"
    unfolding w using packet_head(3) [of ?d "\<lambda>bs i. 0" 0 1] by simp
  then show "wake_packet \<noteq> []" by auto
qed

theorem wake_iff_requested_witness:
  "\<exists>st'. rx_process demo_sdk 0 True wake_packet demo_linked = Some st' \<and>
     wakeup_reason st' = POWERUP_MULTIMEDIA_WAKEUP_HOST_FLAG"
proof -
  obtain ch where ch: "s_db_pack_chan (ka_pack demo_linked) = Some ch" "chan_ok 1460 ch" "pending ch = []"
    "pack_ready (ka_pack demo_linked)"
    using demo_pack_chan demo_linked by (auto simp: pack_ready_def)
  from wake_iff_requested [OF ch(1,2,4), of wake_packet demo_sdk 0 True] ch(3) wake_packet show ?thesis by auto
qed


section \<open>The connection\<close>

text \<open>What a part of the connection adds to the log, and the socket it leaves.\<close>

definition opens :: "cp_event list \<Rightarrow> nat" where
  "opens es = length (filter (\<lambda>e. case e of Sock_open n \<Rightarrow> True | _ \<Rightarrow> False) es)"

definition ports_ok :: "cp_event list \<Rightarrow> bool" where
  "ports_ok es \<longleftrightarrow> (\<forall>n p b. Sock_bind n p b \<in> set es \<longrightarrow> 0x1000 \<le> p \<and> p \<le> 0x1010)"

lemma seed_port_range: "0x1000 \<le> seed_port s \<and> seed_port s \<le> 0x1010"
proof -
  have "unat (s mod 17) < 17"
    by (simp add: unat_mod)
  moreover have "unat (seed_port s) = 0x1000 + unat (s mod 17)"
    using calculation
    by (simp add: seed_port_def port_defs unsigned_ucast_eq unat_word_ariths take_bit_nat_eq_self)
  ultimately show ?thesis
    by (simp add: word_le_nat_alt)
qed

lemma bind_loop_result:
  "bind_loop k i ok st = (b, st') \<Longrightarrow>
     (b \<longleftrightarrow> (\<exists>j < k. ok (i + j))) \<and> (\<exists>es. cp_log st' = cp_log st @ es \<and> opens es = 0 \<and> ports_ok es)"
proof (induction k i ok st rule: bind_loop.induct)
  case (2 k i ok st)
  show ?case
  proof (cases "ok i")
    case True
    with 2(2) show ?thesis
      by (auto simp: Let_def opens_def ports_ok_def seed_port_range intro!: exI [of _ 0])
  next
    case False
    have "(\<exists>j < Suc k. ok (i + j)) \<longleftrightarrow> (\<exists>j < k. ok (Suc i + j))"
      using False by (metis Suc_less_eq add_0_right add_Suc_shift less_Suc_eq_0_disj)
    with 2 False seed_port_range show ?thesis
      by (fastforce simp: Let_def opens_def ports_ok_def)
  qed
qed (simp add: opens_def ports_ok_def)

text \<open>When the stack lets one try through.\<close>

definition try_works :: "conn_answer \<Rightarrow> bool" where
  "try_works an \<longleftrightarrow> an_socket an \<ge> 0 \<and> (\<exists>j < 17. an_bind an j) \<and> an_connect an"

lemma conn_try_result:
  assumes "conn_try an st = (ok, st')"
  shows "(ok \<longleftrightarrow> try_works an) \<and> (\<exists>es. cp_log st' = cp_log st @ es \<and> opens es \<le> 1 \<and> ports_ok es) \<and>
    (ok \<longrightarrow> sock (s_keepalive_env st') = an_socket an)"
proof -
  obtain b st1 where l: "bind_loop (unat DB_KEEPALIVE_CP_BIND_PORT_COUNT) 0 (an_bind an)
      (cp_emit [Sock_open (an_socket an)] ((upd_env (sock_update (\<lambda>_. an_socket an)) st)
        \<lparr>open_socks := insert (an_socket an) (open_socks st)\<rparr>)) = (b, st1)" by fastforce
  have "unat DB_KEEPALIVE_CP_BIND_PORT_COUNT = 17" by (simp add: port_defs)
  with bind_loop_result [OF l] bind_loop_simps [OF l] l assms show ?thesis
    by (auto simp: conn_try_def Let_def try_works_def close_sock_def opens_def ports_ok_def split: if_splits)
qed

lemma opens_append: "opens (es @ fs) = opens es + opens fs"
  by (simp add: opens_def)

lemma ports_append: "ports_ok (es @ fs) \<longleftrightarrow> ports_ok es \<and> ports_ok fs"
  unfolding ports_ok_def set_append Un_iff by blast

lemma conn_loop_result:
  "conn_loop k i ans st = (ok, st') \<Longrightarrow>
     (ok \<longleftrightarrow> (\<exists>j < k. try_works (ans (i + j)))) \<and>
     (\<exists>es. cp_log st' = cp_log st @ es \<and> opens es \<le> k \<and> ports_ok es) \<and>
     (\<not> ok \<longrightarrow> sock (s_keepalive_env st') = -1)"
proof (induction k i ans st rule: conn_loop.induct)
  case (1 i ans st)
  then show ?case by (auto simp: opens_def ports_ok_def)
next
  case (2 k i ans st)
  obtain ok1 st1 where t: "conn_try (ans i) st = (ok1, st1)" by fastforce
  obtain es where r: "ok1 \<longleftrightarrow> try_works (ans i)" "cp_log st1 = cp_log st @ es" "opens es \<le> 1" "ports_ok es"
    using conn_try_result [OF t] by blast
  show ?case
  proof (cases ok1)
    case True
    with r t 2(2) show ?thesis
      by (intro conjI) (auto intro!: exI [of _ 0])
  next
    case False
    have shift: "(\<exists>j < Suc k. try_works (ans (i + j))) \<longleftrightarrow> (\<exists>j < k. try_works (ans (Suc i + j)))"
      using False r(1) by (metis Suc_less_eq add_0_right add_Suc_shift less_Suc_eq_0_disj)
    have rest: "conn_loop k (Suc i) ans st1 = (ok, st')"
      using 2(2) t False by simp
    from 2(1) [OF t [symmetric] _ False rest] obtain fs where
      "ok \<longleftrightarrow> (\<exists>j < k. try_works (ans (Suc i + j)))" "cp_log st' = cp_log st1 @ fs" "opens fs \<le> k" "ports_ok fs"
      "\<not> ok \<longrightarrow> sock (s_keepalive_env st') = -1"
      by blast
    with r shift show ?thesis
      by (auto simp: opens_append ports_append intro!: exI [of _ "es @ fs"])
  qed
qed



section \<open>Powering the application core down\<close>

definition downs :: "ka_state \<Rightarrow> nat" where
  "downs st = count_list (cp_log st) Cif_power_down_host"

lemma downs_simps [simp]:
  "downs (cp_emit es st) = downs st + count_list es Cif_power_down_host"
  "downs (st\<lparr>s_keepalive_env := e\<rparr>) = downs st"
  "downs (st\<lparr>ka_tx := pc\<rparr>) = downs st"
  "downs (st\<lparr>ka_rx := rc\<rparr>) = downs st"
  "downs (st\<lparr>ka_pack := ps\<rparr>) = downs st"
  "downs (st\<lparr>tokens := T\<rparr>) = downs st"
  "downs (st\<lparr>open_socks := S\<rparr>) = downs st"
  "downs (st\<lparr>alarm := al\<rparr>) = downs st"
  "downs (st\<lparr>live := L\<rparr>) = downs st"
  "downs (st\<lparr>next_block := nb\<rparr>) = downs st"
  "downs (st\<lparr>s_bind_seed := sd\<rparr>) = downs st"
  "downs (pl_wakeup_host f st) = downs st"
  "downs (pl_set_wakeup_reason f st) = downs st"
  "downs (db_keepalive_sema_post_safe st) = downs st"
  "downs (alarm_unregister n st) = downs st"
  by (simp_all add: downs_def)

lemma downs_free [simp]: "downs (ka_free b st) = downs st"
  by (simp add: ka_free_def split: option.split)

lemma downs_malloc: "ka_malloc ok st = (p, st') \<Longrightarrow> downs st' = downs st"
  by (auto simp: ka_malloc_def split: if_splits)

lemma downs_init_fail: "init_fail st = (r, st') \<Longrightarrow> downs st' = downs st"
  by (auto simp: init_fail_def Let_def)

lemma downs_deinit [simp]: "downs (snd (db_keepalive_cp_deinit sdk st)) = downs st"
  by (simp add: deinit_alt deinit_memory_def deinit_socket_def close_sock_def quiet_def Let_def
      db_keepalive_stop_keepalive_rtc_def db_keepalive_exit_lv_sleep_def pl_exit_lv_sleep_def)

lemma downs_rtc [simp]: "downs (db_keepalive_set_keepalive_rtc st) = downs st"
  by (simp add: db_keepalive_set_keepalive_rtc_def Let_def)

lemma downs_init: "db_keepalive_cp_init sdk an cfg st = (r, st') \<Longrightarrow> downs st' = downs st"
  by (auto simp: db_keepalive_cp_init_def Let_def split: option.splits if_splits prod.splits
      dest!: downs_malloc downs_init_fail)

lemma downs_stop [simp]: "downs (snd (db_keepalive_cp_stop sdk st)) = downs st"
  by (simp add: db_keepalive_cp_stop_def Let_def)

lemma downs_start: "db_keepalive_cp_start ok st = Some (r, st') \<Longrightarrow> downs st' = downs st"
  by (auto simp: db_keepalive_cp_start_def split: if_splits)

lemma downs_ipc: "db_ipc_msg_handler sdk co addr an msg st = Some (r, st') \<Longrightarrow> downs st' = downs st"
  by (auto simp: db_ipc_msg_handler_def Let_def split: option.splits if_splits prod.splits Option.bind_splits
      dest!: downs_init downs_start)

lemma downs_send: "send_event sdk ms sent evt st = Some st' \<Longrightarrow> downs st' = downs st"
  by (auto simp: send_event_def Let_def split: option.splits Option.bind_splits)

lemma downs_heartbeat: "db_keepalive_send_heartbeat sdk ms sent st = Some st' \<Longrightarrow> downs st' = downs st"
  by (auto simp: db_keepalive_send_heartbeat_def downs_send split: if_splits)

lemma downs_callback: "db_keepalive_unpack_callback sdk ms sent d st = Some st' \<Longrightarrow> downs st' = downs st"
  by (auto simp: db_keepalive_unpack_callback_def db_tx_cmd_recive_callback_def Let_def
      doorbell_transmission_event_report_def downs_send split: if_splits)

lemma downs_callbacks: "callbacks sdk ms sent ds st = Some st' \<Longrightarrow> downs st' = downs st"
  by (induction ds arbitrary: st) (auto split: Option.bind_splits dest: downs_callback)

lemma downs_rx: "rx_recv sdk as ms sent b st = Some st' \<Longrightarrow> downs st' = downs st"
  by (auto simp: rx_recv_def rx_process_def split: if_splits Option.bind_splits dest!: downs_callbacks)

lemma downs_bind: "bind_loop k i ok st = (b, st') \<Longrightarrow> downs st' = downs st"
  by (induction k i ok st rule: bind_loop.induct) (auto simp: Let_def split: if_splits)

lemma downs_try: "conn_try an st = (ok, st') \<Longrightarrow> downs st' = downs st"
  by (auto simp: conn_try_def Let_def close_sock_def split: if_splits prod.splits dest!: downs_bind)

lemma downs_conn: "conn_loop k i ans st = (ok, st') \<Longrightarrow> downs st' = downs st"
  by (induction k i ans st rule: conn_loop.induct) (auto split: prod.splits if_splits dest!: downs_try)

lemma downs_disconnected [simp]: "downs (tx_disconnected r st) = downs st"
  by (simp add: tx_disconnected_def db_ipc_send_event_def)

text \<open>Only a step of the connected transmit thread powers the application core down.\<close>

lemma downs_step:
  assumes "ka_do sdk co addr a st = Some st'"
  shows "downs st' = downs st \<or> ka_tx st = Tx_run"
proof (cases a)
  case (Ipc an msg)
  with assms downs_ipc show ?thesis by (auto split: if_splits)
next
  case (Tx_connect ans r)
  with assms show ?thesis
    by (auto simp: tx_start_def db_keepalive_init_connection_def Let_def split: if_splits prod.splits dest!: downs_conn)
next
  case (Tx_create_rx ok r)
  with assms show ?thesis
    by (auto simp: tx_init_rx_def db_keepalive_init_rx_def split: if_splits prod.splits)
next
  case (Tx_sleep io so ms sent)
  with assms show ?thesis by (auto split: if_splits)
next
  case Tx_next
  with assms show ?thesis by (auto simp: tx_loop_def Let_def split: if_splits)
next
  case (Tx_get ok)
  with assms show ?thesis by (auto split: tx_pc.splits if_splits)
next
  case (Tx_beat ms sent)
  with assms show ?thesis
    by (auto simp: tx_woken_def split: tx_pc.splits if_splits dest!: downs_heartbeat)
next
  case Tx_end
  with assms show ?thesis by (auto split: if_splits)
next
  case Rx_next
  with assms show ?thesis by (auto simp: rx_loop_def Let_def split: if_splits)
next
  case (Rx_get as ms sent)
  with assms downs_rx show ?thesis by (auto split: rx_pc.splits)
next
  case Rx_end
  with assms show ?thesis by (auto simp: rx_exit_def Let_def split: if_splits)
next
  case Timer_fires
  with assms show ?thesis by (auto simp: db_keepalive_timer_handler_def Let_def split: if_splits)
next
  case Alarm_fires
  with assms show ?thesis by (auto simp: db_keepalive_rtc_timer_handler_def split: if_splits)
qed




section \<open>At the edges\<close>

text \<open>
  The server closing the connection while the application core is off: the client ends and
  releases everything, but nothing powers the application core up again. Only the time-out
  does.
\<close>
theorem closed_connection_leaves_host_off:
  assumes "ka_run sdk co addr as ka_boot = Some st" and "ka_tx st = Tx_wait s" and "ka_rx st = Rx_recv n b"
    and "Cif_power_up_host \<notin> set (cp_log st)"
  shows "\<exists>st'. ka_run sdk co addr [Rx_get [Closed_by_peer] ms sent, Rx_end, Tx_get True,
      Tx_beat ms sent, Tx_end] st = Some st' \<and> ka_tx st' = Tx_none \<and> ka_rx st' = Rx_none \<and>
    Cif_power_up_host \<notin> set (cp_log st') \<and> wakeup_reason st' = wakeup_reason st"
proof -
  let ?st1 = "st\<lparr>ka_rx := Rx_exit\<rparr>"
  have 1: "ka_do sdk co addr (Rx_get [Closed_by_peer] ms sent) st = Some ?st1"
    using assms(3) by (simp add: rx_recv_def db_keepalive_recv_raw_data_def)
  have x: "ka_rx ?st1 = Rx_exit" "ka_tx ?st1 = Tx_wait s" using assms(2) by simp_all
  show ?thesis
    using rx_ends [OF ka_inv_step [OF 1 ka_inv_reach [OF assms(1)]] x, of sdk co addr ms sent] assms(4)
    unfolding ka_run_step [OF 1] by auto
qed

text \<open>The host is off in the state that theorem starts from, in the demonstration run.\<close>

theorem host_left_off:
  "\<exists>acts st. ka_run demo_sdk True 0 acts ka_boot = Some st \<and> ka_tx st = Tx_none \<and> ka_rx st = Rx_none \<and>
     Cif_power_up_host \<notin> set (cp_log st) \<and> wakeup_reason st = 0"
proof -
  obtain st where "ka_run demo_sdk True 0 [Rx_get [Closed_by_peer] 0 True, Rx_end, Tx_get True, Tx_beat 0 True, Tx_end]
      demo_wait = Some st" "ka_tx st = Tx_none" "ka_rx st = Rx_none" "Cif_power_up_host \<notin> set (cp_log st)"
      "wakeup_reason st = 0"
    using closed_connection_leaves_host_off [of demo_sdk True 0 demo_wait_acts demo_wait 2 5 "Some 1" 0 True]
      demo_wait by auto
  moreover from this(1) demo_wait have "ka_run demo_sdk True 0 (demo_wait_acts @
      [Rx_get [Closed_by_peer] 0 True, Rx_end, Tx_get True, Tx_beat 0 True, Tx_end]) ka_boot = Some st"
    by (simp add: ka_run_append del: ka_run.simps)
  ultimately show ?thesis by blast
qed

text \<open>
  A stop message when no keep-alive runs (the application core sends one on every multimedia
  wake-up): the record is all zeros, its \<^verbatim>\<open>sock\<close> is 0, and descriptor 0, which the client
  never opened, is closed.
\<close>
theorem idle_stop_closes_descriptor_zero:
  "\<exists>st. ka_run demo_sdk True 0 [demo_stop] ka_boot = Some st \<and> Sock_close 0 \<in> set (cp_log st) \<and>
     (\<forall>n. Sock_open n \<notin> set (cp_log st))"
  by (simp add: demo_stop_def ka_boot_def zero_env_def db_ipc_msg_handler_def ipc_cmd_defs Let_def
      db_keepalive_cp_stop_def deinit_alt quiet_def deinit_socket_def deinit_memory_def close_sock_def
      db_keepalive_stop_keepalive_rtc_def db_keepalive_sema_post_safe_def alarm_unregister_def ka_free_def
      db_keepalive_exit_lv_sleep_def pl_exit_lv_sleep_def cp_emit_def demo_sdk_def)

text \<open>
  After a stop the transmit thread frees the raw buffer while the receive thread is still in
  \<^verbatim>\<open>recv\<close> on it: bytes that arrive then are written into freed memory.
\<close>
theorem receive_after_release:
  "\<exists>acts st. ka_run demo_sdk True 0 acts ka_boot = Some st \<and> Bad_write 1 \<in> set (cp_log st)"
proof -
  obtain st where run: "ka_run demo_sdk True 0 [demo_stop, Tx_get True, Tx_beat 0 True, Tx_end] demo_wait = Some st"
    and gone: "live st = {}" and rx: "ka_rx st = Rx_recv 5 (Some 1)"
    using tx_wait_stop [of demo_sdk True 0 demo_wait_acts demo_wait 2 demo_answer "[]" 0 True] demo_wait
    by (auto simp: demo_stop_def simp del: ka_run.simps)
  let ?acts = "demo_wait_acts @ [demo_stop, Tx_get True, Tx_beat 0 True, Tx_end] @ [Rx_get [Received [1]] 0 True]"
  have "ka_do demo_sdk True 0 (Rx_get [Received [1]] 0 True) st = Some ((cp_emit [Bad_write 1] st)\<lparr>ka_rx := Rx_loop\<rparr>)"
    using rx gone by (simp add: rx_recv_def db_keepalive_recv_raw_data_def DB_KEEPALIVE_MSG_BUFFER_SIZE_def)
  then have "ka_run demo_sdk True 0 ?acts ka_boot = Some ((cp_emit [Bad_write 1] st)\<lparr>ka_rx := Rx_loop\<rparr>)"
    using demo_wait run unfolding ka_run_append by (simp del: ka_run.simps(2)) (simp add: ka_run_step)
  then show ?thesis by (intro exI conjI, assumption) simp
qed

text \<open>
  When the transmit thread cannot be created, \<open>db_keepalive_cp_start\<close> fails but the keep-alive
  stays marked as ongoing, its buffers allocated: every later start message is refused until a
  stop message arrives.
\<close>
theorem failed_start_blocks_restart:
  assumes "keepalive_ongoing (s_keepalive_env st)"
  shows "db_keepalive_cp_start False st = Some (BK_FAIL, st)"
    and "db_keepalive_cp_init sdk an cfg st = (BK_FAIL, st)"
  using assms by (simp_all add: db_keepalive_cp_start_def db_keepalive_cp_init_def split: option.split)

text \<open>
  A start message between the receive thread's end, which clears the ongoing flag, and the
  transmit thread's release: \<open>db_keepalive_cp_init\<close> clears the record and loses the three blocks.
  This is the case \<open>ka_do\<close> excludes.
\<close>
theorem restart_loses_blocks:
  assumes "ka_inv st" and "res_full st" and "\<not> keepalive_ongoing (s_keepalive_env st)"
    and "db_keepalive_cp_init sdk an (Some cfg) st = (BK_OK, st')"
  shows "\<forall>b \<in> live st. b \<in> live st' \<and> Some b \<notin> set (blocks (s_keepalive_env st'))"
proof -
  have "\<forall>b \<in> live st. b < next_block st" using assms(1) by (simp add: ka_inv_def res_base_def)
  with assms(3,4) show ?thesis
    by (auto simp: db_keepalive_cp_init_def ka_malloc_def init_fail_def blocks_def Let_def zero_env_def split: if_splits prod.splits)
qed

text \<open>
  A stop message while the transmit thread connects is seen only after the application core has
  been powered down.
\<close>
theorem stop_then_power_down:
  "\<exists>st. ka_run demo_sdk True 0 (demo_link_acts @ [demo_stop, Tx_sleep True True 0 True, Tx_next]) ka_boot = Some st \<and>
     ka_tx st = Tx_exit \<and> Cif_power_down_host \<in> set (cp_log st) \<and> Cif_power_up_host \<notin> set (cp_log st)"
proof -
  have t: "tx_thread (s_keepalive_env demo_linked)"
    using ka_inv_linked demo_linked by (simp add: ka_inv_def tx_inv_live tx_live_def)
  let ?st1 = "cp_emit [Cif_confirm []]
    (db_keepalive_sema_post_safe (upd_env (keepalive_ongoing_update (\<lambda>_. False)) demo_linked))"
  have 1: "ka_do demo_sdk True 0 demo_stop demo_linked = Some ?st1"
    using t by (simp add: demo_stop_def db_ipc_msg_handler_def ipc_cmd_defs Let_def db_keepalive_cp_stop_def demo_answer_def)
  let ?st2 = "(upd_env (timer_update (\<lambda>_. True)) (db_keepalive_start_lv_sleep demo_sdk (pl_power_down_host ?st1)))\<lparr>ka_tx := Tx_loop\<rparr>"
  have 2: "ka_do demo_sdk True 0 (Tx_sleep True True 0 True) ?st1 = Some ?st2"
    using demo_linked by (simp add: tx_run_def Let_def)
  have 3: "ka_do demo_sdk True 0 Tx_next ?st2 = Some (?st2\<lparr>ka_tx := Tx_exit\<rparr>)"
    by (simp add: tx_loop_def)
  have "ka_run demo_sdk True 0 (demo_link_acts @ [demo_stop, Tx_sleep True True 0 True, Tx_next]) ka_boot =
      Some (?st2\<lparr>ka_tx := Tx_exit\<rparr>)"
    using demo_linked
    by (simp only: ka_run_append bind.simps ka_run_step [OF 1] ka_run_step [OF 2] ka_run_step [OF 3] ka_run.simps(1))
  with demo_linked show ?thesis
    by (auto simp: db_keepalive_start_lv_sleep_def pl_start_lv_sleep_def)
qed

end
