(* ===== verification/Hand_Over.thy ===== *)
theory Hand_Over
  imports Ap_Properties Keepalive_CP_Properties
begin

text \<open>
  What passes between the two cores: the configuration as the application core writes it and the
  control core reads it, the port as a decimal string on one side and 16 bits on the other, and
  the message that starts the keep-alive in an idle control core.
\<close>

section \<open>The bytes of the configuration\<close>

lemma get16_le16 [simp]: "get16 (pre @ le16 w @ post) (length pre) = w"
  by (simp add: get16_def le16_def nth_append join16)

lemma get32_le32 [simp]: "get32 (le32 w) 0 = w"
  by (simp add: get32_def le32_def join32)

lemma le32_length [simp]: "length (le32 w) = 4"
  by (simp add: le32_def)

lemma c_string_idem [simp]: "c_string (c_string bs) = c_string bs"
  by (simp add: c_string_def takeWhile_idem)

lemma c_string_padded: "0 \<notin> set s \<Longrightarrow> c_string (s @ 0 # rest) = s"
  by (simp add: c_string_def takeWhile_append)

lemma zero_notin_c_string: "0 \<notin> set (take n (c_string s))"
  by (auto simp: c_string_def dest: in_set_takeD set_takeWhileD)

lemma cfg_bytes_length: "length (cfg_server c) \<le> 32 \<Longrightarrow> length (cfg_bytes c) = CFG_SIZE"
  by (simp add: cfg_bytes_def CFG_SIZE_def le16_def)

lemma read_cfg_bytes:
  assumes "length (cfg_server c) \<le> 31" and "0 \<notin> set (cfg_server c)"
  shows "c_string (cfg_server (read_cfg (cfg_bytes c))) = cfg_server c"
    and "cfg_port (read_cfg (cfg_bytes c)) = cfg_port c"
proof -
  let ?pre = "[0] @ cfg_server c @ replicate (32 - length (cfg_server c)) 0 @ [0]"
  obtain k where k: "32 - length (cfg_server c) = Suc k" using assms(1) by (cases "32 - length (cfg_server c)") auto
  have "cfg_server (read_cfg (cfg_bytes c)) = cfg_server c @ replicate (Suc k) 0"
    using assms(1) k by (simp add: read_cfg_def cfg_bytes_def del: replicate_Suc)
  with assms(2) show "c_string (cfg_server (read_cfg (cfg_bytes c))) = cfg_server c"
    by (simp add: c_string_padded)
  have "cfg_bytes c = ?pre @ le16 (cfg_port c) @ replicate 98 0" by (simp add: cfg_bytes_def)
  moreover have "length ?pre = 34" using assms(1) by simp
  ultimately show "cfg_port (read_cfg (cfg_bytes c)) = cfg_port c"
    using get16_le16 [of ?pre] by (simp add: read_cfg_def)
qed

section \<open>The port\<close>

text \<open>A port written out in decimal, as the application sends it.\<close>

fun decimal :: "nat \<Rightarrow> u8 list" where
  "decimal n = (if n < 10 then [48 + of_nat n] else decimal (n div 10) @ [48 + of_nat (n mod 10)])"

declare decimal.simps [simp del]

lemma digit_word:
  assumes "d < 10"
  shows "is_digit (48 + of_nat d)" and "unat (48 + of_nat d :: u8) = 48 + d"
    and "unat (48 + of_nat d - 48 :: u8) = d"
    and "(48 + of_nat d :: u8) \<noteq> 0"
proof -
  show u: "unat (48 + of_nat d :: u8) = 48 + d"
    using assms by (simp add: unat_word_ariths unsigned_of_nat take_bit_nat_eq_self)
  show "is_digit (48 + of_nat d)" using assms by (simp add: is_digit_def word_le_nat_alt u)
  show "unat (48 + of_nat d - 48 :: u8) = d" using assms by (simp add: unsigned_of_nat take_bit_nat_eq_self)
  show "(48 + of_nat d :: u8) \<noteq> 0" using u by (metis Zero_not_Suc add_eq_0_iff_both_eq_0 unat_0 zero_neq_numeral)
qed

lemma digits_append: "list_all is_digit xs \<Longrightarrow> digits a (xs @ ys) = digits (digits a xs) ys"
  by (induction xs arbitrary: a) auto

lemma decimal_digits: "list_all is_digit (decimal n) \<and> decimal n \<noteq> [] \<and> 0 \<notin> set (decimal n) \<and> digits 0 (decimal n) = int n"
proof (induction n rule: decimal.induct)
  case (1 n)
  show ?case
  proof (cases "n < 10")
    case True
    then show ?thesis by (subst (1 2 3 4) decimal.simps) (simp add: digit_word)
  next
    case False
    with 1 have "list_all is_digit (decimal (n div 10))" "0 \<notin> set (decimal (n div 10))"
      "digits 0 (decimal (n div 10)) = int (n div 10)" by auto
    moreover have "10 * int (n div 10) + int (n mod 10) = int n" by presburger
    ultimately show ?thesis using False
      by (subst (1 2 3 4) decimal.simps) (simp add: digit_word digits_append)
  qed
qed

lemma atoi_digits:
  assumes "list_all is_digit s" and "s \<noteq> []"
  shows "atoi s = digits 0 s"
proof -
  obtain b bs where s: "s = b # bs" using assms(2) by (cases s) auto
  with assms(1) have "48 \<le> unat b" "unat b \<le> 57" by (simp_all add: is_digit_def word_le_nat_alt)
  then have "\<not> is_blank b" "b \<noteq> 45" "b \<noteq> 43"
    by (auto simp: is_blank_def word_le_nat_alt)
  with s show ?thesis by (simp add: atoi_def)
qed

lemma atoi_stops: "atoi (c_string s) = atoi s"
proof -
  have d: "digits a (takeWhile (\<lambda>b. b \<noteq> 0) xs) = digits a xs" for a xs
    by (induction xs arbitrary: a) (auto simp: is_digit_def)
  have w: "dropWhile is_blank (takeWhile (\<lambda>b. b \<noteq> 0) xs) = takeWhile (\<lambda>b. b \<noteq> 0) (dropWhile is_blank xs)" for xs
    by (induction xs) (auto simp: is_blank_def)
  show ?thesis
    unfolding atoi_def c_string_def w
    by (cases "dropWhile is_blank s"; simp only: takeWhile.simps list.case) (auto simp: d is_digit_def)
qed

lemma atoi_decimal: "c_string s = decimal n \<Longrightarrow> atoi s = int n"
  by (metis atoi_digits atoi_stops decimal_digits)


section \<open>The start message\<close>

text \<open>No allocation fails and the thread is created.\<close>

definition answers_ok :: "ipc_answer \<Rightarrow> bool" where
  "answers_ok an \<longleftrightarrow> an_rx_buffer (an_init an) \<and> an_raw_buffer (an_init an) \<and> an_sema (an_init an) \<and>
     al_chan (an_pack (an_init an)) \<and> al_cbuf (an_pack (an_init an)) \<and> al_tbuf (an_pack (an_init an)) \<and> an_thread an"

lemma pack_init_ok: "al_chan al \<Longrightarrow> al_cbuf al \<Longrightarrow> al_tbuf al \<Longrightarrow> fst (db_pack_init al m n ps) = BK_OK"
  by (simp add: db_pack_init_def Let_def)

lemma cp_init_ok:
  assumes "answers_ok an" and "\<not> keepalive_ongoing (s_keepalive_env cp)"
  shows "\<exists>cp'. db_keepalive_cp_init sdk (an_init an) (Some cfg) cp = (BK_OK, cp') \<and>
    server (s_keepalive_env cp') = take 31 (c_string (cfg_server cfg)) \<and> port (s_keepalive_env cp') = cfg_port cfg \<and>
    interval_ms (s_keepalive_env cp') = DB_KEEPALIVE_DEFAULT_INTERVAL_MS \<and>
    keepalive_ongoing (s_keepalive_env cp') \<and> ka_tx cp' = ka_tx cp \<and> ka_rx cp' = ka_rx cp \<and> cp_log cp' = cp_log cp"
proof -
  obtain ps where "db_pack_init (an_pack (an_init an)) DB_KEEPALIVE_MSG_BUFFER_SIZE DB_KEEPALIVE_MSG_BUFFER_SIZE (ka_pack cp) = (BK_OK, ps)"
    using pack_init_ok assms(1) by (metis answers_ok_def prod.collapse)
  with assms show ?thesis
    by (simp add: db_keepalive_cp_init_def ka_malloc_def answers_ok_def zero_env_def Let_def)
qed

lemma start_message:
  assumes "answers_ok an" and "\<not> keepalive_ongoing (s_keepalive_env cp)" and "ka_tx cp = Tx_none"
    and "length bs = CFG_SIZE"
  shows "\<exists>cp'. db_ipc_msg_handler sdk co addr an (Some \<lparr>cmd_id = DB_IPC_CMD_KEEPALIVESTART, ipc_payload = bs\<rparr>) cp =
      Some (an_confirm an, cp') \<and>
    server (s_keepalive_env cp') = take 31 (c_string (cfg_server (read_cfg bs))) \<and>
    port (s_keepalive_env cp') = cfg_port (read_cfg bs) \<and> ka_tx cp' = Tx_start \<and>
    keepalive_ongoing (s_keepalive_env cp') \<and> cp_log cp' = cp_log cp @ [Cif_confirm []]"
proof -
  obtain c where "db_keepalive_cp_init sdk (an_init an) (Some (read_cfg bs)) cp = (BK_OK, c)"
    "server (s_keepalive_env c) = take 31 (c_string (cfg_server (read_cfg bs)))"
    "port (s_keepalive_env c) = cfg_port (read_cfg bs)" "keepalive_ongoing (s_keepalive_env c)" "ka_tx c = Tx_none"
    "cp_log c = cp_log cp"
    using cp_init_ok [OF assms(1,2)] assms(3) by metis
  with assms show ?thesis
    by (simp add: db_ipc_msg_handler_def ipc_cmd_defs db_keepalive_cp_start_def answers_ok_def cp_emit_def)
qed

end
