(* ===== verification/Start_Up.thy ===== *)
theory Start_Up
  imports Hand_Over
begin

text \<open>
  The start of the two cores, \<^verbatim>\<open>projects/doorbell_lp/cp/cp_main.c\<close> and \<^verbatim>\<open>ap/ap_main.c\<close>, in the shipped
  build (with \<^verbatim>\<open>CONFIG_BTDM_CONTROLLER_ONLY\<close> on the control core). The SDK's own initialisation and
  the registration of callbacks with it are left out.
\<close>

text \<open>
  The control core at power-on, with \<^verbatim>\<open>ate\<close> for the factory test: whether it takes messages of the
  application core, and its state.
\<close>

definition user_app_main :: "bool \<Rightarrow> 'a pl_state_scheme \<Rightarrow> bool \<times> 'a pl_state_scheme" where
  "user_app_main ate st = (\<not> ate, pl_wakeup_host POWERUP_POWER_WAKEUP_FLAG st)"

text \<open>
  The application core, each time it gets power. \<open>ret\<close>, \<open>buf\<close> and \<open>len\<close> are what the SDK and the control
  core answer to the query for the wake-up record, and \<open>mem\<close> is the memory of the control core the
  answer points into.
\<close>

definition ap_main ::
    "ap_config \<Rightarrow> bool \<Rightarrow> bool \<Rightarrow> bool \<Rightarrow> int \<Rightarrow> u8 list \<Rightarrow> nat \<Rightarrow> (u32 \<Rightarrow> u32) \<Rightarrow> int \<Rightarrow> ap_state \<Rightarrow> ap_state"
  where
  "ap_main cfg alloc queue_ok thread_ok ret buf len mem ipc_ret st =
     (let st = doorbell_core_init alloc queue_ok thread_ok st;
          pl_wakeup_env = snd (db_ipc_wakeup_env_init ret buf len None)
      in db_keepalive_handle_wakeup_reason cfg ipc_ret (map_option mem pl_wakeup_env) st)"

text \<open>The word of the control core's memory that the query gives away.\<close>

definition wakeup_memory :: "u32 \<Rightarrow> 'a pl_state_scheme \<Rightarrow> u32 \<Rightarrow> u32" where
  "wakeup_memory addr cp a = (if a = addr then wakeup_reason cp else 0)"

lemma query_answer:
  assumes "addr \<noteq> 0"
  shows "\<exists>bs cp'. db_ipc_msg_handler sdk co addr an (Some \<lparr>cmd_id = DB_IPC_CMD_GET_WAKEUP_ENV_ADDR, ipc_payload = []\<rparr>) cp =
      Some (an_confirm an, cp') \<and> cp_log cp' = cp_log cp @ [Cif_confirm bs] \<and>
    db_ipc_wakeup_env_init 0 bs (length bs) old = (0, Some addr) \<and> wakeup_reason cp' = wakeup_reason cp"
  using assms
  by (simp add: db_ipc_msg_handler_def ipc_cmd_defs db_ipc_wakeup_env_init_def db_ipc_wakeup_env_response_def cp_emit_def)

lemma boot_core: "db_queue (ap_boot f) = Some []" "ap_flash (ap_boot f) = f" "ap_log (ap_boot f) = []"
  by (simp_all add: ap_boot_def ap_power_on_def doorbell_core_init_def Let_def)

text \<open>The requests a started core has in its queue, by the reason it was woken for and the service in flash.\<close>

definition boot_requests :: "u32 \<Rightarrow> u8 \<Rightarrow> u32 list" where
  "boot_requests reason service =
     (if reason \<in> {POWERUP_MULTIMEDIA_WAKEUP_HOST_FLAG, POWERUP_KEEPALIVE_FAIL_WAKEUP_FLAG} then [DBEVT_BLE_DISABLE] else []) @
     (if reason \<in> {POWERUP_MULTIMEDIA_WAKEUP_HOST_FLAG, POWERUP_KEEPALIVE_FAIL_WAKEUP_FLAG, POWERUP_KEEPALIVE_DISCONNECTION}
      then [if service = DOORBELL_SERVICE_LAN_UDP then DBEVT_LAN_UDP_SERVICE_START_REQUEST
            else DBEVT_LAN_TCP_SERVICE_START_REQUEST] else [])"

lemma reason_requests:
  assumes "fl_service f = Some s" and "s = DOORBELL_SERVICE_LAN_TCP \<or> s = DOORBELL_SERVICE_LAN_UDP"
    and "st = db_keepalive_handle_wakeup_reason cfg 0 (Some reason) (ap_boot f)" and "reason \<noteq> POWERUP_POWER_WAKEUP_FLAG"
  shows "map_option (map msg_event) (db_queue st) = Some (boot_requests reason s)" and "ap_flash st = f"
    and "s_pending_wakeup_cmd st = (if reason = POWERUP_MULTIMEDIA_WAKEUP_HOST_FLAG then DBCMD_WAKE_UP_REQUEST else 0)"
  using assms
  by (auto simp: boot_core boot_requests_def db_keepalive_handle_wakeup_reason_def powerup_defs
      db_keepalive_disable_bluetooth_def db_ipc_stop_keepalive_def db_keepalive_start_service_from_flash_def
      doorbell_get_ntwk_service_info_from_flash_def doorbell_send_msg_def QUEUE_SIZE_def ap_emit_def
      DOORBELL_SERVICE_LAN_TCP_def DOORBELL_SERVICE_LAN_UDP_def Let_def split: if_splits)

text \<open>
  C20. From the wake-up to the first messages, across both cores: when the control core wakes the
  application core for some reason, \<open>main\<close> of the application core finds that reason in the other
  core's memory and acts on it. A power-on erases the flash and starts nothing; each of the other
  reasons puts the start of the service from flash in the queue, behind the end of Bluetooth
  unless the keep-alive was disconnected, and only a multimedia request is remembered.
\<close>
theorem started_core_acts_on_reason:
  assumes "addr \<noteq> 0" and "fl_service f = Some s" and "s = DOORBELL_SERVICE_LAN_TCP \<or> s = DOORBELL_SERVICE_LAN_UDP"
    and "fl_writable f" and "client_service cfg"
  shows "\<exists>bs cp' st. db_ipc_msg_handler sdk co addr an
      (Some \<lparr>cmd_id = DB_IPC_CMD_GET_WAKEUP_ENV_ADDR, ipc_payload = []\<rparr>) (pl_wakeup_host reason cp) =
        Some (an_confirm an, cp') \<and>
    cp_log cp' = cp_log (pl_wakeup_host reason cp) @ [Cif_confirm bs] \<and>
    st = ap_main cfg True True True 0 bs (length bs) (wakeup_memory addr cp') 0 (ap_power_on f) \<and>
    map_option (map msg_event) (db_queue st) = Some (boot_requests reason s) \<and>
    s_pending_wakeup_cmd st = (if reason = POWERUP_MULTIMEDIA_WAKEUP_HOST_FLAG then DBCMD_WAKE_UP_REQUEST else 0) \<and>
    ap_flash st = (if reason = POWERUP_POWER_WAKEUP_FLAG
      then \<lparr>fl_wifi = None, fl_service = None, fl_interval = None, fl_net = None, fl_writable = True\<rparr> else f)"
proof -
  obtain bs cp' where q: "db_ipc_msg_handler sdk co addr an
      (Some \<lparr>cmd_id = DB_IPC_CMD_GET_WAKEUP_ENV_ADDR, ipc_payload = []\<rparr>) (pl_wakeup_host reason cp) =
        Some (an_confirm an, cp')" "cp_log cp' = cp_log (pl_wakeup_host reason cp) @ [Cif_confirm bs]"
    "db_ipc_wakeup_env_init 0 bs (length bs) None = (0, Some addr)" "wakeup_reason cp' = reason"
    using query_answer [OF assms(1), of sdk co an "pl_wakeup_host reason cp" None]
    unfolding wakeup_reason_simps by blast
  define st where "st = ap_main cfg True True True 0 bs (length bs) (wakeup_memory addr cp') 0 (ap_power_on f)"
  have st: "st = db_keepalive_handle_wakeup_reason cfg 0 (Some reason) (ap_boot f)"
    using q(3,4) by (simp add: st_def ap_main_def wakeup_memory_def ap_boot_def)
  have "map_option (map msg_event) (db_queue st) = Some (boot_requests reason s) \<and>
    s_pending_wakeup_cmd st = (if reason = POWERUP_MULTIMEDIA_WAKEUP_HOST_FLAG then DBCMD_WAKE_UP_REQUEST else 0) \<and>
    ap_flash st = (if reason = POWERUP_POWER_WAKEUP_FLAG
      then \<lparr>fl_wifi = None, fl_service = None, fl_interval = None, fl_net = None, fl_writable = True\<rparr> else f)"
  proof (cases "reason = POWERUP_POWER_WAKEUP_FLAG")
    case True
    then show ?thesis
      using power_on_erases_flash [of "ap_boot f" cfg 0] assms(4,5) st
      by (simp add: boot_core boot_requests_def powerup_defs)
  qed (use reason_requests [OF assms(2,3) st] in simp)
  with q(1,2) st_def show ?thesis by blast
qed

theorem started_core_acts_on_reason_witness:
  "\<exists>bs cp'. db_ipc_msg_handler demo_sdk True 0x28000000 demo_answer
      (Some \<lparr>cmd_id = DB_IPC_CMD_GET_WAKEUP_ENV_ADDR, ipc_payload = []\<rparr>)
      (pl_wakeup_host POWERUP_MULTIMEDIA_WAKEUP_HOST_FLAG ka_boot) = Some (0, cp') \<and>
    s_pending_wakeup_cmd (ap_main lp_config True True True 0 bs (length bs) (wakeup_memory 0x28000000 cp') 0
      (ap_power_on demo_flash)) = DBCMD_WAKE_UP_REQUEST"
proof -
  have "fl_service demo_flash = Some DOORBELL_SERVICE_LAN_TCP" "fl_writable demo_flash" "client_service lp_config"
    by (simp_all add: demo_flash_def lp_config_def)
  from started_core_acts_on_reason [OF _ this(1) disjI1 [OF refl] this(2,3), of "0x28000000" demo_sdk True demo_answer
      POWERUP_MULTIMEDIA_WAKEUP_HOST_FLAG ka_boot]
  show ?thesis by (auto simp: demo_answer_def)
qed

end
