(* ===== verification/Two_Cores.thy ===== *)
theory Two_Cores
  imports Start_Up
begin

text \<open>
  The two cores together: the control core of Keepalive_CP, the application core of Ap_Core and
  Start_Up, and what passes between them. The control core's power requests switch the application
  core off and on, which then starts from \<open>main\<close> with the same flash. A request of the application
  core is taken to be handled by the control core before the call that sends it returns; one the
  SDK does not pass on (\<open>ok\<close>) is not handled at all. The event that tells of a disconnection, like
  the other events of the network, may come at any time. A start request that meets the threads of the last
  keep-alive is outside the steps, as in \<open>ka_do\<close>.
\<close>

section \<open>State\<close>

text \<open>The application core without power, with power but before \<open>main\<close>, and running.\<close>

datatype ap_phase = Ap_off flash | Ap_powered flash | Ap_running ap_state

record two_cores =
  tc_cp :: ka_state
  tc_ap :: ap_phase

fun phase_flash :: "ap_phase \<Rightarrow> flash" where
  "phase_flash (Ap_off f) = f"
| "phase_flash (Ap_powered f) = f"
| "phase_flash (Ap_running st) = ap_flash st"

text \<open>What one call of the control core to the SDK does to the power of the other; power for a powered core changes nothing.\<close>

fun power_event :: "cp_event \<Rightarrow> ap_phase \<Rightarrow> ap_phase" where
  "power_event Cif_power_up_host (Ap_off f) = Ap_powered f"
| "power_event Cif_power_down_host p = Ap_off (phase_flash p)"
| "power_event _ p = p"

text \<open>The calls between two states of the control core, in their order.\<close>

definition power_after :: "ka_state \<Rightarrow> ka_state \<Rightarrow> ap_phase \<Rightarrow> ap_phase" where
  "power_after cp cp' p = fold power_event (drop (length (cp_log cp)) (cp_log cp')) p"

section \<open>Messages\<close>

text \<open>The messages of one action of the application core, handled in turn.\<close>

fun deliver_requests :: "ka_sdk \<Rightarrow> bool \<Rightarrow> u32 \<Rightarrow> ipc_answer \<Rightarrow> ap_event list \<Rightarrow> ka_state \<Rightarrow> ka_state option" where
  "deliver_requests sdk co addr an [] cp = Some cp"
| "deliver_requests sdk co addr an (Ipc_start bs # es) cp =
     Option.bind (ka_do sdk co addr (Ipc an (Some \<lparr>cmd_id = DB_IPC_CMD_KEEPALIVESTART, ipc_payload = bs\<rparr>)) cp)
       (deliver_requests sdk co addr an es)"
| "deliver_requests sdk co addr an (Ipc_stop bs # es) cp =
     Option.bind (ka_do sdk co addr (Ipc an (Some \<lparr>cmd_id = DB_IPC_CMD_KEEPALIVESTOP, ipc_payload = bs\<rparr>)) cp)
       (deliver_requests sdk co addr an es)"
| "deliver_requests sdk co addr an (_ # es) cp = deliver_requests sdk co addr an es cp"

text \<open>The bytes with which the control core confirms the one message between two of its states.\<close>

fun confirmed :: "cp_event list \<Rightarrow> u8 list" where
  "confirmed [] = []"
| "confirmed (Cif_confirm bs # es) = bs"
| "confirmed (_ # es) = confirmed es"

section \<open>Steps\<close>

text \<open>
  An action of the control core; \<open>main\<close> of the application core, with the answers to
  \<open>doorbell_core_init\<close> and to its calls; another of its actions; or a message that another part of
  it, such as the boarding, puts in the queue. \<open>ok\<close> is whether the SDK passes a request on.
\<close>

datatype tc_act =
    Cp_act ka_act
  | Ap_main bool bool bool int int bool ipc_answer
  | Ap_act ap_act bool ipc_answer
  | Ap_post doorbell_msg_t

fun tc_do :: "ap_config \<Rightarrow> ka_sdk \<Rightarrow> bool \<Rightarrow> u32 \<Rightarrow> tc_act \<Rightarrow> two_cores \<Rightarrow> two_cores option" where
  "tc_do cfg sdk co addr (Cp_act a) s =
     (case a of
        Ipc an m \<Rightarrow> None
      | _ \<Rightarrow> map_option (\<lambda>cp. s\<lparr>tc_cp := cp, tc_ap := power_after (tc_cp s) cp (tc_ap s)\<rparr>)
               (ka_do sdk co addr a (tc_cp s)))"
| "tc_do cfg sdk co addr (Ap_main alloc queue_ok thread_ok ret ipc_ret ok an) s =
     (case tc_ap s of
        Ap_powered f \<Rightarrow> do {
          cp \<leftarrow> ka_do sdk co addr (Ipc an (Some \<lparr>cmd_id = DB_IPC_CMD_GET_WAKEUP_ENV_ADDR, ipc_payload = []\<rparr>)) (tc_cp s);
          let buf = confirmed (drop (length (cp_log (tc_cp s))) (cp_log cp));
          let st = ap_main cfg alloc queue_ok thread_ok ret buf (length buf) (wakeup_memory addr cp) ipc_ret (ap_power_on f);
          cp' \<leftarrow> deliver_requests sdk co addr an (if ok then ap_log st else []) cp;
          Some (s\<lparr>tc_cp := cp', tc_ap := power_after (tc_cp s) cp' (Ap_running st)\<rparr>)
        }
      | _ \<Rightarrow> None)"
| "tc_do cfg sdk co addr (Ap_act a ok an) s =
     (case tc_ap s of
        Ap_running st \<Rightarrow>
          if (case a of Wakeup _ _ \<Rightarrow> True | _ \<Rightarrow> False) then None
          else do {
            st' \<leftarrow> ap_do cfg a st;
            cp \<leftarrow> deliver_requests sdk co addr an (if ok then drop (length (ap_log st)) (ap_log st') else []) (tc_cp s);
            Some (s\<lparr>tc_cp := cp, tc_ap := power_after (tc_cp s) cp (Ap_running st')\<rparr>)
          }
      | _ \<Rightarrow> None)"
| "tc_do cfg sdk co addr (Ap_post m) s =
     (case tc_ap s of
        Ap_running st \<Rightarrow> Some (s\<lparr>tc_ap := Ap_running (snd (doorbell_send_msg m st))\<rparr>)
      | _ \<Rightarrow> None)"

fun tc_run :: "ap_config \<Rightarrow> ka_sdk \<Rightarrow> bool \<Rightarrow> u32 \<Rightarrow> tc_act list \<Rightarrow> two_cores \<Rightarrow> two_cores option" where
  "tc_run cfg sdk co addr [] s = Some s"
| "tc_run cfg sdk co addr (a # as) s = Option.bind (tc_do cfg sdk co addr a s) (tc_run cfg sdk co addr as)"

text \<open>At power-on the control core gives the other its power.\<close>

definition tc_boot :: "flash \<Rightarrow> two_cores" where
  "tc_boot f = (let cp = snd (user_app_main False ka_boot) in
     \<lparr>tc_cp = cp, tc_ap = power_after ka_boot cp (Ap_off f)\<rparr>)"

section \<open>Losing the connection\<close>

text \<open>
  What ends a keep-alive without anything having asked for it: the connection is closed or fails,
  the server is silent while the transmit thread has not yet powered the application core down, or
  the wait for the semaphore fails.
\<close>

definition breaks :: "tc_act \<Rightarrow> ka_state \<Rightarrow> bool" where
  "breaks a cp = (case a of
     Cp_act (Rx_get as ms sent) \<Rightarrow> keepalive_ongoing (s_keepalive_env cp) \<and>
       (case db_keepalive_recv_raw_data as of
          None \<Rightarrow> False
        | Some (ret, bs) \<Rightarrow> ret < (if ka_tx cp = Tx_run then 0 else -1))
   | Cp_act (Tx_get ok) \<Rightarrow> \<not> ok
   | _ \<Rightarrow> False)"

inductive tc_unbroken :: "ap_config \<Rightarrow> ka_sdk \<Rightarrow> bool \<Rightarrow> u32 \<Rightarrow> flash \<Rightarrow> two_cores \<Rightarrow> bool"
  for cfg sdk co addr f where
  boot: "tc_unbroken cfg sdk co addr f (tc_boot f)"
| step: "tc_unbroken cfg sdk co addr f s \<Longrightarrow> \<not> breaks a (tc_cp s) \<Longrightarrow> tc_do cfg sdk co addr a s = Some s' \<Longrightarrow>
    tc_unbroken cfg sdk co addr f s'"

end
