(* ===== verification/Ap_Devices.thy ===== *)
theory Ap_Devices
  imports Ap_Properties
begin

text \<open>
  What one action of the application core asks of its devices: which of the calls to turn camera,
  transfer, audio and display on and off it makes, and what becomes of the votes. All other
  operations are \<open>still\<close>: they make no such call and leave the votes.
\<close>

section \<open>Calls of devices\<close>

fun is_device :: "ap_event \<Rightarrow> bool" where
  "is_device (Camera_on p) = True"
| "is_device Camera_off = True"
| "is_device Video_transfer_on = True"
| "is_device Video_transfer_off = True"
| "is_device (Audio_on p) = True"
| "is_device Audio_off = True"
| "is_device (Display_on p) = True"
| "is_device Display_off = True"
| "is_device _ = False"

text \<open>Events that are neither a call of a device nor a request to stop the keep-alive.\<close>

fun quiet :: "ap_event \<Rightarrow> bool" where
  "quiet (Ipc_stop b) = False"
| "quiet e = (\<not> is_device e)"

text \<open>A log that goes on with these calls, and no request to stop the keep-alive.\<close>

definition runs :: "ap_event list \<Rightarrow> ap_state \<Rightarrow> ap_state \<Rightarrow> bool" where
  "runs cs st st' \<longleftrightarrow> (\<exists>es. ap_log st' = ap_log st @ es \<and> filter is_device es = cs \<and> (\<forall>b. Ipc_stop b \<notin> set es))"

definition still :: "ap_state \<Rightarrow> ap_state \<Rightarrow> bool" where
  "still st st' \<longleftrightarrow> mm_service_status st' = mm_service_status st \<and> (\<exists>es. ap_log st' = ap_log st @ es \<and> (\<forall>e \<in> set es. quiet e))"

section \<open>Operations that make no call\<close>

lemma still_refl [simp]: "still st st" by (simp add: still_def)

lemma still_trans: "still st st' \<Longrightarrow> still st' st'' \<Longrightarrow> still st st''"
  by (auto simp: still_def)

lemma still_emit [simp]: "still st st' \<Longrightarrow> \<forall>e \<in> set es. quiet e \<Longrightarrow> still st (ap_emit es st')"
  by (auto simp: still_def)

lemma still_upd [simp]:
  "still st (st'\<lparr>db_service := a\<rparr>) = still st st'"
  "still st (st'\<lparr>db_queue := b\<rparr>) = still st st'"
  "still st (st'\<lparr>ap_flash := c\<rparr>) = still st st'"
  "still st (st'\<lparr>db_cmd_info := d\<rparr>) = still st st'"
  "still st (st'\<lparr>chan_connected_mask := e\<rparr>) = still st st'"
  "still st (st'\<lparr>s_timer_started := f\<rparr>) = still st st'"
  "still st (st'\<lparr>s_last_update_timestamp := g\<rparr>) = still st st'"
  "still st (st'\<lparr>s_interval_loaded_from_flash := f\<rparr>) = still st st'"
  "still st (st'\<lparr>s_pending_keepalive_after_service_stop := f\<rparr>) = still st st'"
  "still st (st'\<lparr>s_pending_wakeup_cmd := j\<rparr>) = still st st'"
  "still st (st'\<lparr>s_mm_status_check_interval_ms := j\<rparr>) = still st st'"
  "still (st\<lparr>db_queue := b\<rparr>) st' = still st st'"
  by (simp_all add: still_def)

lemma still_messages [simp]:
  assumes "still st st'"
  shows "still st (snd (doorbell_send_msg m st'))"
    and "still st (snd (fl_set f st'))"
  using assms by (simp_all add: doorbell_send_msg_def fl_set_def split: option.split)

lemma still_service [simp]:
  assumes "still st st'"
  shows "still st (snd (db_keepalive_start_service_from_flash st'))"
    and "still st (snd (db_keepalive_stop_service_if_running st'))"
    and "still st (snd (db_keepalive_stop_mm_status_check an st'))"
    and "still st (restart_timer an st')"
    and "still st (snd (db_ipc_start_keepalive r ip p st'))"
    and "still st (snd (doorbell_save_ntwk_service_info_to_flash s st'))"
    and "still st (snd (doorbell_save_keepalive_interval_to_flash ms st'))"
    and "still st (snd (doorbell_save_server_net_info_to_flash ok i st'))"
    and "still st (snd (doorbell_save_wifi_info_to_flash w st'))"
  using assms
  by (simp_all add: db_keepalive_start_service_from_flash_def db_keepalive_stop_service_if_running_def
      doorbell_get_ntwk_service_info_from_flash_def db_keepalive_stop_mm_status_check_def restart_timer_def
      db_ipc_start_keepalive_def doorbell_save_ntwk_service_info_to_flash_def
      doorbell_save_keepalive_interval_to_flash_def doorbell_save_server_net_info_to_flash_def
      doorbell_save_wifi_info_to_flash_def Let_def case_prod_beta split: option.split)

lemma still_keepalive [simp]:
  assumes "still st st'"
  shows "still st (db_keepalive_send_keepalive r an st')"
    and "still st (db_keepalive_on_keepalive_disconnection st')"
    and "still st (db_keepalive_mm_status_check_timer_handler now st')"
    and "still st (snd (db_keepalive_start_mm_status_check an st'))"
    and "still st (db_set_keepalive_interval an str st')"
  using assms
  by (simp_all add: db_keepalive_send_keepalive_def db_keepalive_on_keepalive_disconnection_def
      db_keepalive_mm_status_check_timer_handler_def doorbell_get_server_net_info_from_flash_def
      db_keepalive_start_mm_status_check_def doorbell_get_keepalive_interval_from_flash_def
      db_set_keepalive_interval_def Let_def case_prod_beta split: option.split)

lemma still_net [simp]:
  assumes "still st st'"
  shows "still st (doorbell_bk_net_msg_evt_handle cfg name ev st')"
    and "still st (snd (doorbell_bk_network_transfer_init cfg k st'))"
    and "still st (snd (doorbell_bk_network_transfer_deinit k st'))"
  using assms
  by (simp_all add: doorbell_bk_net_msg_evt_handle_def handle_start_event_def handle_connected_event_def
      handle_disconnected_event_def handle_stop_event_def reset_chan_connected_mask_def set_chan_connected_def
      clear_chan_connected_def doorbell_bk_network_transfer_init_def doorbell_bk_network_transfer_deinit_def
      doorbell_network_transfer_start_def doorbell_network_transfer_stop_def Let_def case_prod_beta
      split: option.split trans_evt_code.split)

lemma still_core [simp]:
  assumes "still st st'"
  shows "still st (start_service cfg s k st')"
    and "still st (start_cs2 cfg st')"
    and "still st (sdp_restart cfg st')"
    and "still st (stop_service cfg an' k st')"
    and "still st (service_response cfg k opc st')"
    and "still st (snd (doorbell_wifi_sta_connect a b st'))"
    and "still st (core_exit cfg st')"
  using assms
  by (simp_all add: start_service_def start_cs2_def sdp_restart_def stop_service_def
      service_response_def doorbell_wifi_sta_connect_def core_exit_def Let_def)

lemma still_commands [simp]:
  assumes "still st st'"
  shows "still st (ap_event_report opc stt fl st')"
    and "still st (cmd_set_keep_alive da opc param st')"
    and "still st (db_keepalive_update_timestamp cfg now st')"
  using assms
  by (simp_all add: ap_event_report_def cmd_set_keep_alive_def doorbell_keep_alive_start_timer_def start_new_timer_def
      doorbell_cmd_server_init_def doorbell_cmd_server_deinit_def doorbell_keep_alive_stop_timer_def
      db_keepalive_update_timestamp_def Let_def split: option.split)

section \<open>The calls of an action\<close>

lemma quiet_events: "\<forall>e \<in> set es. quiet e \<Longrightarrow> filter is_device es = [] \<and> (\<forall>b. Ipc_stop b \<notin> set es)"
  by (auto simp: filter_empty_conv elim: quiet.elims)

lemma runs_still: "runs cs st st' \<Longrightarrow> still st' st'' \<Longrightarrow> runs cs st st''"
  using quiet_events by (fastforce simp: runs_def still_def)

lemma still_runs: "still st st' \<Longrightarrow> runs cs st' st'' \<Longrightarrow> runs cs st st''"
  using quiet_events by (fastforce simp: runs_def still_def)

text \<open>
  What an action asks for, and what the answers do to the votes: nothing, a command, or what the
  core does when the app is gone.
\<close>

inductive request :: "dev_answer \<Rightarrow> ap_event list \<Rightarrow> u32 \<Rightarrow> u32 \<Rightarrow> bool" where
  no_call: "request an [] m m"
| image_gone: "request an [Video_transfer_off] m m"
| app_gone: "request an [Video_transfer_off, Audio_off] m m"
| camera_on: "m' = (if ret_ok (dv_camera_on an) then m OR MM_STATUS_CAMERA_MASK else m) \<Longrightarrow>
    request an [Camera_on p, Video_transfer_on] m m'"
| camera_off: "m' = (if ret_ok (dv_camera_off an) then m AND NOT MM_STATUS_CAMERA_MASK else m) \<Longrightarrow>
    request an [Video_transfer_off, Camera_off] m m'"
| audio_on: "m' = (if ret_ok (dv_audio_on an) then m OR MM_STATUS_AUDIO_MASK else m) \<Longrightarrow>
    request an [Audio_on a] m m'"
| audio_off: "m' = (if ret_ok (dv_audio_off an) then m AND NOT MM_STATUS_AUDIO_MASK else m) \<Longrightarrow>
    request an [Audio_off] m m'"
| display_on: "m' = (if ret_ok (dv_display_on an) then m OR MM_STATUS_LCD_MASK else m) \<Longrightarrow>
    request an [Display_on d] m m'"
| display_off: "m' = (if ret_ok (dv_display_off an) then m AND NOT MM_STATUS_LCD_MASK else m) \<Longrightarrow>
    request an [Display_off] m m'"

definition acts :: "dev_answer \<Rightarrow> ap_state \<Rightarrow> ap_state \<Rightarrow> bool" where
  "acts an st st' \<longleftrightarrow> (\<exists>cs. request an cs (mm_service_status st) (mm_service_status st') \<and> runs cs st st')"

lemma acts_still: "acts an st st' \<Longrightarrow> still st' st'' \<Longrightarrow> acts an st st''"
  unfolding acts_def by (metis runs_still still_def)

lemma still_acts: "still st st' \<Longrightarrow> acts an st' st'' \<Longrightarrow> acts an st st''"
  unfolding acts_def by (metis still_runs still_def)

lemma still_is_acts: "still st st' \<Longrightarrow> acts an st st'"
  by (rule acts_still [rotated]) (auto simp: acts_def runs_def intro: no_call)

lemma mm_bits: "MM_STATUS_CAMERA_BIT = 0" "MM_STATUS_AUDIO_BIT = 1" "MM_STATUS_LCD_BIT = 2"
  by (simp_all add: mm_defs)

lemma vote_mask [simp]:
  "mm_service_status (vote_if c MM_STATUS_CAMERA_BIT True st) =
     (if c then mm_service_status st OR MM_STATUS_CAMERA_MASK else mm_service_status st)"
  "mm_service_status (vote_if c MM_STATUS_CAMERA_BIT False st) =
     (if c then mm_service_status st AND NOT MM_STATUS_CAMERA_MASK else mm_service_status st)"
  "mm_service_status (vote_if c MM_STATUS_AUDIO_BIT True st) =
     (if c then mm_service_status st OR MM_STATUS_AUDIO_MASK else mm_service_status st)"
  "mm_service_status (vote_if c MM_STATUS_AUDIO_BIT False st) =
     (if c then mm_service_status st AND NOT MM_STATUS_AUDIO_MASK else mm_service_status st)"
  "mm_service_status (vote_if c MM_STATUS_LCD_BIT True st) =
     (if c then mm_service_status st OR MM_STATUS_LCD_MASK else mm_service_status st)"
  "mm_service_status (vote_if c MM_STATUS_LCD_BIT False st) =
     (if c then mm_service_status st AND NOT MM_STATUS_LCD_MASK else mm_service_status st)"
  by (simp_all add: vote_if_def doorbell_mm_service_vote_def mm_mask_def mm_bits Let_def)

lemma vote_log [simp]: "ap_log (vote_if c b add st) = ap_log st"
  by (simp add: vote_if_def doorbell_mm_service_vote_def Let_def split: option.split)

lemma report_status [simp]:
  "mm_service_status (ap_event_report opc stt fl st) = mm_service_status st"
  "ap_log (ap_event_report opc stt fl st) = ap_log st @
     [Ctrl_send (evt_bytes \<lparr>evt_opcode = opc, evt_status = stt, evt_flags = fl, evt_length = 0\<rparr>)]"
  by (simp_all add: ap_event_report_def)

lemma acts_single:
  assumes "ap_log st' = ap_log st @ es" and "request an (filter is_device es) (mm_service_status st) (mm_service_status st')"
    and "\<forall>b. Ipc_stop b \<notin> set es"
  shows "acts an st st'"
  using assms by (auto simp: acts_def runs_def)

lemma acts_camera:
  "cmd_camera_on an opc param len p st = Some st' \<Longrightarrow> acts an st st'"
  "acts an st (cmd_camera_off an opc st)"
  by (auto simp: cmd_camera_on_def cmd_camera_off_def Let_def split: Option.bind_splits
      intro!: acts_single request.intros)

lemma acts_audio:
  "cmd_audio_on an opc p st = Some st' \<Longrightarrow> acts an st st'"
  "acts an st (cmd_audio_off an opc st)"
  by (auto simp: cmd_audio_on_def cmd_audio_off_def Let_def split: Option.bind_splits
      intro!: acts_single request.intros)

lemma acts_display:
  "cmd_display_on an opc p st = Some st' \<Longrightarrow> acts an st st'"
  "acts an st (cmd_display_off an opc st)"
  by (auto simp: cmd_display_on_def cmd_display_off_def Let_def split: Option.bind_splits
      intro!: acts_single request.intros)

lemma acts_dispatch: "dispatch an cmd p st = Some st' \<Longrightarrow> acts an st st'"
  unfolding dispatch_def Let_def
  by (auto simp: cmd_acoustics_def cmd_set_service_type_def Let_def acts_camera acts_audio acts_display
      intro: still_is_acts split: if_splits Option.bind_splits)

lemma acts_callback:
  assumes "doorbell_transmission_cmd_recive_callback cfg an bs st = Some st'"
  shows "acts an st st'"
proof -
  have "acts an st st'" if "acts an (db_keepalive_update_timestamp cfg (dv_time an) st) st'"
    by (rule still_acts [OF _ that]) simp
  with assms show ?thesis
    by (auto simp: doorbell_transmission_cmd_recive_callback_def split: if_splits
        intro: still_is_acts dest!: acts_dispatch)
qed

lemma acts_success: "db_keepalive_on_service_start_success cfg an st = Some st' \<Longrightarrow> acts an st st'"
  by (auto simp: db_keepalive_on_service_start_success_def db_keepalive_send_cmd_to_callback_def
      split: if_splits Option.bind_splits dest!: acts_callback intro: still_is_acts acts_still [of an st])

lemma acts_connected:
  assumes "device_connected cfg an st = Some st'"
  shows "acts (ca_dev an) st st'"
proof -
  have "acts (ca_dev an) st st''" if "acts (ca_dev an) (ap_emit [Sdp_reload 60000] st) st''" for st''
    by (rule still_acts [OF _ that]) simp
  moreover have "acts (ca_dev an) u (snd (db_keepalive_start_mm_status_check (ca_timer an) v))"
    if "acts (ca_dev an) u v" for u v
    by (rule acts_still [OF that]) simp
  ultimately show ?thesis using assms
    by (auto simp: device_connected_def Let_def still_is_acts split: if_splits Option.bind_splits dest!: acts_success)
qed

lemma acts_disconnected: "acts an st (device_disconnected cfg st)"
proof -
  have "acts an st (ap_emit [Video_transfer_off, Audio_off] st)"
    by (rule acts_single [where es = "[Video_transfer_off, Audio_off]"]) (auto intro: app_gone)
  from acts_still [OF this] show ?thesis by (simp add: device_disconnected_def Let_def)
qed

lemma acts_image_gone: "acts an st (sdp_restart cfg (ap_emit [Video_transfer_off] st))"
proof -
  have "acts an st (ap_emit [Video_transfer_off] st)"
    by (rule acts_single [where es = "[Video_transfer_off]"]) (auto intro: image_gone)
  from acts_still [OF this] show ?thesis by simp
qed

lemma acts_handle: "handle_msg cfg an m st = Some (go, st') \<Longrightarrow> acts (ca_dev an) st st'"
  by (auto simp: handle_msg_def Let_def acts_disconnected acts_image_gone split: if_splits
      intro: still_is_acts dest!: acts_connected)

lemma acts_step: "core_step cfg an st = Some st' \<Longrightarrow> acts (ca_dev an) st st'"
proof -
  have "acts (ca_dev an) st u" if "acts (ca_dev an) (st\<lparr>db_queue := q\<rparr>) u" for u q
    by (rule still_acts [OF _ that]) simp
  moreover have "acts (ca_dev an) t (core_exit cfg u)" if "acts (ca_dev an) t u" for t u
    by (rule acts_still [OF that]) simp
  ultimately show "core_step cfg an st = Some st' \<Longrightarrow> acts (ca_dev an) st st'"
    by (auto simp: core_step_def split: option.splits list.splits Option.bind_splits if_splits dest!: acts_handle)
qed

text \<open>The answers an action of the application core reckons with.\<close>

fun answers_of :: "ap_act \<Rightarrow> dev_answer option" where
  "answers_of (Command an bs) = Some an"
| "answers_of (Core_task ca) = Some (ca_dev ca)"
| "answers_of _ = None"

lemma ap_do_acts:
  assumes "ap_do cfg a st = Some st'" and "\<forall>r x. a \<noteq> Wakeup r x"
  shows "(\<exists>an. answers_of a = Some an \<and> acts an st st') \<or> still st st'"
proof (cases a)
  case (Core_task an)
  with assms acts_step show ?thesis by auto
next
  case (Command an bs)
  with assms acts_callback show ?thesis by (auto simp: doorbell_bk_net_cntrl_recv_def)
next
  case (Cli an argv)
  with assms show ?thesis by (auto simp: db_keepalive_cli_cmd_def)
qed (use assms in \<open>auto simp: doorbell_keep_alive_timer_handler_def doorbell_wifi_event_cb_def
    split: if_splits wifi_linkstate.splits\<close>)

text \<open>The calls of devices that an action made, from the log.\<close>

definition new_calls :: "ap_state \<Rightarrow> ap_state \<Rightarrow> ap_event list" where
  "new_calls st st' = filter is_device (drop (length (ap_log st)) (ap_log st'))"

lemma still_wakeup [simp]:
  assumes "still st st'"
  shows "still st (snd (db_keepalive_disable_bluetooth st'))"
    and "still st (snd (doorbell_del_all_info_from_flash cfg st'))"
  using assms
  by (simp_all add: db_keepalive_disable_bluetooth_def doorbell_del_all_info_from_flash_def
      doorbell_del_wifi_info_from_flash_def doorbell_del_ntwk_service_info_from_flash_def
      doorbell_del_keepalive_interval_from_flash_def doorbell_del_server_net_info_from_flash_def Let_def case_prod_beta)

lemma silent_calls:
  assumes "still st st'"
  shows "new_calls st st' = [] \<and> mm_service_status st' = mm_service_status st"
proof -
  have "runs [] st st'" by (rule runs_still [OF _ assms]) (simp add: runs_def)
  with assms show ?thesis by (auto simp: still_def runs_def new_calls_def)
qed

lemma stop_request_calls:
  assumes "still st st1" and "still (ap_emit [Ipc_stop b] st1) st'"
  shows "new_calls st st' = [] \<and> mm_service_status st' = mm_service_status st"
  using assms quiet_events by (auto simp: still_def new_calls_def)

lemma wakeup_calls:
  "new_calls st (db_keepalive_handle_wakeup_reason cfg r reason st) = [] \<and>
   mm_service_status (db_keepalive_handle_wakeup_reason cfg r reason st) = mm_service_status st"
proof -
  let ?st = "snd (db_keepalive_disable_bluetooth (st\<lparr>s_pending_wakeup_cmd := 0\<rparr>))"
    and ?st' = "db_keepalive_handle_wakeup_reason cfg r reason st"
  have "still st ?st' \<or> still (ap_emit [Ipc_stop (replicate CFG_SIZE 0)] ?st) ?st'"
  proof (cases "reason = Some POWERUP_MULTIMEDIA_WAKEUP_HOST_FLAG \<and> POWERUP_MULTIMEDIA_WAKEUP_HOST_FLAG \<noteq> POWERUP_POWER_WAKEUP_FLAG")
    case True
    then show ?thesis
      by (simp add: db_keepalive_handle_wakeup_reason_def db_ipc_stop_keepalive_def Let_def case_prod_beta)
  next
    case False
    then show ?thesis
      by (auto simp add: db_keepalive_handle_wakeup_reason_def Let_def case_prod_beta split: option.split)
  qed
  with silent_calls stop_request_calls [of st ?st] show ?thesis by auto
qed

lemma action_calls:
  assumes "ap_do cfg a st = Some st'"
  shows "(\<exists>an. answers_of a = Some an \<and> request an (new_calls st st') (mm_service_status st) (mm_service_status st')) \<or>
    (new_calls st st' = [] \<and> mm_service_status st' = mm_service_status st)"
proof (cases "\<exists>r x. a = Wakeup r x")
  case True
  with assms wakeup_calls show ?thesis by auto
next
  case False
  with ap_do_acts [OF assms] silent_calls show ?thesis by (auto simp: acts_def runs_def new_calls_def)
qed

section \<open>Starting the service\<close>

text \<open>The messages that start the service and tell of the connected app.\<close>

lemma service_message:
  assumes "db_queue st = Some [\<lparr>msg_event = DBEVT_LAN_TCP_SERVICE_START_REQUEST, msg_param = 0\<rparr>]"
  shows "ap_do cfg (Core_task a) st = Some (start_service cfg DOORBELL_SERVICE_LAN_TCP Tcp_service (st\<lparr>db_queue := Some []\<rparr>))"
  using assms by (simp add: core_step_def handle_msg_def dbevt_defs Let_def)

lemma connected_message:
  assumes "db_queue st = Some [\<lparr>msg_event = DBEVT_REMOTE_DEVICE_CONNECTED, msg_param = 0\<rparr>]"
    and "client_service cfg" and "low_power cfg" and "s_pending_wakeup_cmd st = 0"
  shows "ap_do cfg (Core_task a) st = Some (snd (db_keepalive_start_mm_status_check (ca_timer a) (st\<lparr>db_queue := Some []\<rparr>)))"
  using assms
  by (simp add: core_step_def handle_msg_def dbevt_defs device_connected_def db_keepalive_on_service_start_success_def Let_def)

lemma check_starts:
  assumes "\<not> s_timer_started st"
  shows "\<exists>es. ap_log (snd (db_keepalive_start_mm_status_check timer_ok st)) = ap_log st @ es \<and> (\<forall>b. Ipc_start b \<notin> set es)"
    and "s_timer_started (snd (db_keepalive_start_mm_status_check timer_ok st))"
    and "db_queue (snd (db_keepalive_start_mm_status_check timer_ok st)) = db_queue st"
    and "ap_flash (snd (db_keepalive_start_mm_status_check timer_ok st)) = ap_flash st"
    and "mm_service_status (snd (db_keepalive_start_mm_status_check timer_ok st)) = mm_service_status st"
    and "s_last_update_timestamp (snd (db_keepalive_start_mm_status_check timer_ok st)) = s_last_update_timestamp st"
    and "s_pending_keepalive_after_service_stop (snd (db_keepalive_start_mm_status_check timer_ok st)) =
      s_pending_keepalive_after_service_stop st"
  using assms
  by (simp_all add: db_keepalive_start_mm_status_check_def doorbell_get_keepalive_interval_from_flash_def timer_ok_def
      Let_def split: option.split)

end
