(* ===== verification/Two_Cores_Safety.thy ===== *)
theory Two_Cores_Safety
  imports Two_Cores Ap_Devices
begin

text \<open>
  What holds in every state the two cores reach together: the application core asks to stop the
  keep-alive only from \<open>main\<close>; the control core powers the other down only once it is connected;
  \<open>tc_inv\<close> ties the power of the one to the threads of the other.
\<close>

section \<open>Which actions of the application core send a stop\<close>

text \<open>A state whose log goes on from another's with no stop request.\<close>

definition mute :: "ap_state \<Rightarrow> ap_state \<Rightarrow> bool" where
  "mute st st' \<longleftrightarrow> (\<exists>es. ap_log st' = ap_log st @ es \<and> (\<forall>b. Ipc_stop b \<notin> set es))"

lemma mute_refl [simp]: "mute st st" by (simp add: mute_def)

lemma mute_trans: "mute st st' \<Longrightarrow> mute st' st'' \<Longrightarrow> mute st st''"
  by (auto simp: mute_def)

lemma acts_mute: "acts an st st' \<Longrightarrow> mute st st'"
  by (auto simp: acts_def runs_def mute_def)

lemma still_mute: "still st st' \<Longrightarrow> mute st st'"
  using quiet_events by (fastforce simp: still_def mute_def)

lemma only_wakeup_stops: "ap_do cfg a st = Some st' \<Longrightarrow> \<forall>r x. a \<noteq> Wakeup r x \<Longrightarrow> mute st st'"
  using ap_do_acts acts_mute still_mute by blast

section \<open>What the actions of the control core do to the power\<close>

text \<open>
  A state whose log goes on from another's without powering the application core down, with a
  reason for every time it powers it up.
\<close>

definition waking :: "ka_state \<Rightarrow> ka_state \<Rightarrow> bool" where
  "waking st st' \<longleftrightarrow> (\<exists>es. cp_log st' = cp_log st @ es \<and> Cif_power_down_host \<notin> set es \<and>
     (if Cif_power_up_host \<in> set es
      then wakeup_reason st' \<in> {POWERUP_MULTIMEDIA_WAKEUP_HOST_FLAG, POWERUP_KEEPALIVE_FAIL_WAKEUP_FLAG}
      else wakeup_reason st' = wakeup_reason st))"

lemma waking_refl [simp]: "waking st st" by (simp add: waking_def)

lemma waking_trans:
  assumes "waking st st'" and "waking st' st''"
  shows "waking st st''"
proof -
  obtain es fs where "cp_log st' = cp_log st @ es" "cp_log st'' = cp_log st' @ fs" using assms by (auto simp: waking_def)
  with assms show ?thesis
    by (auto simp: waking_def split: if_splits)
qed

lemma waking_emit [simp]:
  "waking st st' \<Longrightarrow> Cif_power_down_host \<notin> set es \<Longrightarrow> Cif_power_up_host \<notin> set es \<Longrightarrow> waking st (cp_emit es st')"
  by (auto simp: waking_def)

lemma waking_emitD:
  "waking (cp_emit es st) st' \<Longrightarrow> Cif_power_down_host \<notin> set es \<Longrightarrow> Cif_power_up_host \<notin> set es \<Longrightarrow> waking st st'"
  by (rule waking_trans [OF waking_emit [OF waking_refl]])

lemma waking_wakeup [simp]:
  "waking st st' \<Longrightarrow> f \<in> {POWERUP_MULTIMEDIA_WAKEUP_HOST_FLAG, POWERUP_KEEPALIVE_FAIL_WAKEUP_FLAG} \<Longrightarrow>
     waking st (pl_wakeup_host f st')"
  by (auto simp: waking_def)

lemma waking_upd [simp]:
  "waking st (st'\<lparr>s_keepalive_env := a\<rparr>) = waking st st'"
  "waking st (st'\<lparr>ka_pack := b\<rparr>) = waking st st'"
  "waking st (st'\<lparr>ka_tx := c\<rparr>) = waking st st'"
  "waking st (st'\<lparr>ka_rx := d\<rparr>) = waking st st'"
  "waking st (st'\<lparr>live := e\<rparr>) = waking st st'"
  "waking st (st'\<lparr>next_block := f\<rparr>) = waking st st'"
  "waking st (st'\<lparr>tokens := g\<rparr>) = waking st st'"
  "waking st (st'\<lparr>open_socks := h\<rparr>) = waking st st'"
  "waking st (st'\<lparr>alarm := i\<rparr>) = waking st st'"
  "waking st (st'\<lparr>s_bind_seed := j\<rparr>) = waking st st'"
  "waking (st\<lparr>ka_pack := b\<rparr>) st' = waking st st'"
  "waking (st\<lparr>s_bind_seed := j\<rparr>) st' = waking st st'"
  "waking (st\<lparr>s_keepalive_env := a\<rparr>) st' = waking st st'"
  "waking (st\<lparr>open_socks := h\<rparr>) st' = waking st st'"
  by (simp_all add: waking_def)

lemma waking_ops [simp]:
  assumes "waking st st'"
  shows "waking st (snd (ka_malloc ok st'))"
    and "waking st (ka_free b st')"
    and "waking st (db_keepalive_sema_post_safe st')"
    and "waking st (close_sock n st')"
    and "waking st (alarm_unregister nm st')"
    and "waking st (db_keepalive_set_keepalive_rtc st')"
    and "waking st (db_keepalive_timer_handler st')"
    and "waking st (db_keepalive_rtc_timer_handler st')"
    and "waking st (pl_exit_lv_sleep st')"
  using assms
  by (simp_all add: ka_malloc_def ka_free_def db_keepalive_sema_post_safe_def close_sock_def alarm_unregister_def
      db_keepalive_set_keepalive_rtc_def db_keepalive_timer_handler_def db_keepalive_rtc_timer_handler_def
      pl_exit_lv_sleep_def Let_def split: option.split)

lemma waking_deinit [simp]: "waking st st' \<Longrightarrow> waking st (snd (db_keepalive_cp_deinit sdk st'))"
  by (simp add: db_keepalive_cp_deinit_def deinit_socket_def deinit_memory_def db_keepalive_stop_keepalive_rtc_def
      db_keepalive_exit_lv_sleep_def Let_def)

lemma waking_stop [simp]: "waking st st' \<Longrightarrow> waking st (snd (db_keepalive_cp_stop sdk st'))"
  by (simp add: db_keepalive_cp_stop_def Let_def)

lemma waking_init: "db_keepalive_cp_init sdk an cfg st = (r, st') \<Longrightarrow> waking st st'"
  by (auto simp: db_keepalive_cp_init_def init_fail_def ka_malloc_def Let_def split: option.splits if_splits prod.splits)

lemma waking_start: "db_keepalive_cp_start ok st = Some (r, st') \<Longrightarrow> waking st st'"
  by (auto simp: db_keepalive_cp_start_def split: if_splits)

lemma waking_ipc: "db_ipc_msg_handler sdk co addr an msg st = Some (r, st') \<Longrightarrow> waking st st'"
  by (auto simp: db_ipc_msg_handler_def Let_def split: option.splits if_splits prod.splits Option.bind_splits
      dest!: waking_init waking_start intro: waking_trans)

lemma waking_send: "send_event sdk ms sent evt st = Some st' \<Longrightarrow> waking st st'"
  by (auto simp: send_event_def Let_def split: option.splits Option.bind_splits)

lemma waking_heartbeat: "db_keepalive_send_heartbeat sdk ms sent st = Some st' \<Longrightarrow> waking st st'"
  by (auto simp: db_keepalive_send_heartbeat_def waking_send split: if_splits)

lemma waking_callback: "db_keepalive_unpack_callback sdk ms sent d st = Some st' \<Longrightarrow> waking st st'"
  by (auto simp: db_keepalive_unpack_callback_def db_tx_cmd_recive_callback_def Let_def
      doorbell_transmission_event_report_def waking_send split: if_splits)

lemma waking_callbacks: "callbacks sdk ms sent ds st = Some st' \<Longrightarrow> waking st st'"
  by (induction ds arbitrary: st) (auto split: Option.bind_splits dest: waking_callback intro: waking_trans)

lemma waking_rx: "rx_recv sdk as ms sent b st = Some st' \<Longrightarrow> waking st st'"
  by (auto simp: rx_recv_def rx_process_def split: if_splits Option.bind_splits dest!: waking_callbacks)

text \<open>Every action but those of the connecting transmit thread.\<close>

fun connecting :: "ka_act \<Rightarrow> bool" where
  "connecting (Tx_connect _ _) = True"
| "connecting (Tx_create_rx _ _) = True"
| "connecting (Tx_sleep _ _ _ _) = True"
| "connecting _ = False"

lemma waking_do:
  assumes "ka_do sdk co addr a st = Some st'" and "\<not> connecting a"
  shows "waking st st'"
proof (cases a)
  case (Ipc an msg)
  with assms waking_ipc show ?thesis by (auto split: if_splits)
next
  case (Tx_beat ms sent)
  with assms show ?thesis by (auto simp: tx_woken_def split: tx_pc.splits if_splits dest!: waking_heartbeat)
next
  case (Rx_get as ms sent)
  with assms waking_rx show ?thesis by (auto split: rx_pc.splits)
qed (use assms in \<open>auto simp: tx_loop_def rx_loop_def rx_exit_def Let_def split: if_splits tx_pc.splits\<close>)

section \<open>The invariant\<close>

fun connecting_pc :: "tx_pc \<Rightarrow> bool" where
  "connecting_pc Tx_start = True"
| "connecting_pc Tx_init_rx = True"
| "connecting_pc Tx_run = True"
| "connecting_pc _ = False"

fun beating_pc :: "tx_pc \<Rightarrow> bool" where
  "beating_pc Tx_loop = True"
| "beating_pc (Tx_wait s) = True"
| "beating_pc (Tx_woken got) = got"
| "beating_pc _ = False"

fun listening_pc :: "rx_pc \<Rightarrow> bool" where
  "listening_pc Rx_loop = True"
| "listening_pc (Rx_recv n b) = True"
| "listening_pc _ = False"

lemma beating_not_connecting: "beating_pc pc \<Longrightarrow> \<not> connecting_pc pc"
  by (cases pc) simp_all

definition serving :: "ka_state \<Rightarrow> bool" where
  "serving cp \<longleftrightarrow> keepalive_ongoing (s_keepalive_env cp) \<and> beating_pc (ka_tx cp) \<and> listening_pc (ka_rx cp)"

definition setting_up :: "ka_state \<Rightarrow> bool" where
  "setting_up cp \<longleftrightarrow> (connecting_pc (ka_tx cp) \<longrightarrow> keepalive_ongoing (s_keepalive_env cp)) \<and>
     (ka_tx cp = Tx_run \<longrightarrow> listening_pc (ka_rx cp))"

definition phase_ok :: "ap_phase \<Rightarrow> ka_state \<Rightarrow> bool" where
  "phase_ok p cp = (case p of
     Ap_off f \<Rightarrow> serving cp \<and> wakeup_reason cp = 0
   | Ap_powered f \<Rightarrow> \<not> connecting_pc (ka_tx cp) \<and> wakeup_reason cp \<in>
       {POWERUP_POWER_WAKEUP_FLAG, POWERUP_MULTIMEDIA_WAKEUP_HOST_FLAG, POWERUP_KEEPALIVE_FAIL_WAKEUP_FLAG}
   | Ap_running st \<Rightarrow> True)"

definition tc_inv :: "two_cores \<Rightarrow> bool" where
  "tc_inv s \<longleftrightarrow> ka_inv (tc_cp s) \<and> setting_up (tc_cp s) \<and> phase_ok (tc_ap s) (tc_cp s)"

lemma inv_connected:
  assumes "ka_inv cp" and "ka_tx cp = Tx_run \<or> beating_pc (ka_tx cp)"
  shows "tx_live cp"
  using assms by (cases "ka_tx cp") (auto simp: ka_inv_def tx_inv_live)

text \<open>The power of the application core after actions that do not power it down.\<close>

lemma power_fold:
  "Cif_power_down_host \<notin> set es \<Longrightarrow> fold power_event es p =
     (case p of Ap_off f \<Rightarrow> if Cif_power_up_host \<in> set es then Ap_powered f else p | _ \<Rightarrow> p)"
proof (induction es arbitrary: p)
  case (Cons e es)
  then show ?case by (cases e; cases p) auto
qed (simp split: ap_phase.split)

lemma power_waking:
  assumes "waking cp cp'"
  shows "power_after cp cp' p = (case p of
      Ap_off f \<Rightarrow> if Cif_power_up_host \<in> set (drop (length (cp_log cp)) (cp_log cp')) then Ap_powered f else p | _ \<Rightarrow> p)"
  using assms by (auto simp: power_after_def waking_def power_fold split: ap_phase.split)

text \<open>The connection of the transmit thread leaves the power alone.\<close>

lemma waking_bind: "bind_loop k i ok st = (b, st') \<Longrightarrow> waking st st'"
proof (induction k arbitrary: i st)
  case (Suc k)
  then show ?case by (auto simp: Let_def split: if_splits dest!: Suc.IH dest: waking_emitD)
qed simp

lemma waking_try: "conn_try an st = (ok, st') \<Longrightarrow> waking st st'"
  by (auto simp: conn_try_def Let_def split: if_splits prod.splits dest!: waking_bind dest: waking_emitD)

lemma waking_conn: "conn_loop k i ans st = (ok, st') \<Longrightarrow> waking st st'"
  by (induction k i ans st rule: conn_loop.induct)
    (auto split: prod.splits if_splits dest: waking_try intro: waking_trans)

text \<open>A running core stays powered while the transmit thread connects.\<close>

lemma power_running:
  assumes "cp_log cp' = cp_log cp @ es" and "Cif_power_down_host \<notin> set es"
  shows "power_after cp cp' (Ap_running st) = Ap_running st"
  using assms by (simp add: power_after_def power_fold)

lemma running_disconnected:
  assumes "waking cp cp1"
  shows "power_after cp (tx_disconnected r cp1) (Ap_running st) = Ap_running st"
proof -
  obtain es where "cp_log cp1 = cp_log cp @ es" "Cif_power_down_host \<notin> set es" using assms by (auto simp: waking_def)
  then show ?thesis
    by (intro power_running [of _ _ "es @ [Cif_event (ipc_event_bytes DB_IPC_EVENT_KEEPALIVE_DISCONNECTION [])]"])
      (auto simp: tx_disconnected_def db_ipc_send_event_def cp_emit_def pl_set_wakeup_reason_def)
qed

lemma running_waking: "waking cp cp' \<Longrightarrow> power_after cp cp' (Ap_running st) = Ap_running st"
  by (simp add: power_waking)

lemma running_connect:
  "power_after cp (tx_start sdk ans r cp) (Ap_running st) = Ap_running st"
proof -
  let ?cp = "cp_emit [Filter (inet_addr sdk (server (s_keepalive_env cp))) (port (s_keepalive_env cp))] cp"
  obtain ok cp1 where c: "conn_loop DB_KEEPALIVE_MAX_RETRY_CNT 0 ans ?cp = (ok, cp1)" by fastforce
  then have "waking cp cp1" by (rule waking_emitD [OF waking_conn]) simp_all
  then show ?thesis
    by (simp add: tx_start_def db_keepalive_init_connection_def c running_disconnected running_waking)
qed

lemma running_init_rx: "power_after cp (tx_init_rx sdk ok r cp) (Ap_running st) = Ap_running st"
  by (simp add: tx_init_rx_def db_keepalive_init_rx_def running_disconnected running_waking)

text \<open>How an action of the control core moves its threads.\<close>

lemma connecting_from:
  assumes "ka_do sdk co addr a cp = Some cp'" and "\<forall>an m. a \<noteq> Ipc an m" and "connecting_pc (ka_tx cp')"
  shows "connecting_pc (ka_tx cp)"
proof (cases a)
  case (Rx_get as ms sent)
  with assms show ?thesis
    by (auto simp: rx_recv_def split: rx_pc.splits if_splits Option.bind_splits dest!: rx_process_same
        simp: same_but_pack_def)
next
  case (Tx_beat ms sent)
  with assms show ?thesis by (auto simp: tx_woken_def split: tx_pc.splits if_splits)
qed (use assms in \<open>auto simp: tx_loop_def rx_loop_def rx_exit_def Let_def tx_start_def tx_init_rx_def tx_run_def
    tx_failed_def tx_disconnected_def db_keepalive_timer_handler_def db_keepalive_rtc_timer_handler_def
    split: if_splits tx_pc.splits prod.splits\<close>)


text \<open>What a receive does to the threads.\<close>

lemma rx_get_threads:
  assumes "rx_recv sdk as ms sent b cp = Some cp'" and "\<not> breaks (Cp_act (Rx_get as ms sent)) cp"
    and "keepalive_ongoing (s_keepalive_env cp)"
  shows "s_keepalive_env cp' = s_keepalive_env cp \<and> ka_tx cp' = ka_tx cp \<and>
    (ka_rx cp' = Rx_loop \<or> ka_tx cp \<noteq> Tx_run \<and> Cif_power_up_host \<in> set (drop (length (cp_log cp)) (cp_log cp')))"
  using assms
  by (auto simp: rx_recv_def breaks_def pl_wakeup_host_def cp_emit_def pl_set_wakeup_reason_def
      split: if_splits Option.bind_splits dest!: rx_process_same simp: same_but_pack_def)

lemma beating_inv:
  assumes "ka_inv cp" and "beating_pc (ka_tx cp) \<or> ka_tx cp = Tx_run"
  shows "sock (s_keepalive_env cp) \<ge> 0"
  using inv_connected [of cp] assms by (auto simp: tx_live_def)

lemma serving_kept:
  assumes "ka_do sdk co addr a cp = Some cp'" and "\<forall>an m. a \<noteq> Ipc an m" and "ka_inv cp" and "serving cp"
    and "\<not> breaks (Cp_act a) cp"
  shows "\<not> connecting a \<and> (serving cp' \<or> Cif_power_up_host \<in> set (drop (length (cp_log cp)) (cp_log cp')))"
proof (cases a)
  case (Rx_get as ms sent)
  with assms rx_get_threads [of sdk as ms sent _ cp cp'] show ?thesis
    by (auto simp: serving_def split: rx_pc.splits)
next
  case (Tx_beat ms sent)
  with assms show ?thesis
    by (auto simp: tx_woken_def serving_def same_but_pack_def split: tx_pc.splits if_splits dest!: heartbeat_same)
next
  case Rx_next
  with assms beating_inv [OF assms(3)] show ?thesis
    by (auto simp: serving_def rx_loop_def Let_def split: if_splits)
qed (use assms in \<open>auto simp: serving_def breaks_def tx_loop_def Let_def db_keepalive_timer_handler_def
    db_keepalive_rtc_timer_handler_def split: if_splits tx_pc.splits\<close>)

lemma connect_threads:
  assumes "ka_tx cp = Tx_start" and "ka_inv cp"
  shows "ka_tx (tx_start sdk ans r cp) \<in> {Tx_init_rx, Tx_exit} \<and>
    keepalive_ongoing (s_keepalive_env (tx_start sdk ans r cp)) = keepalive_ongoing (s_keepalive_env cp) \<and>
    ka_pack (tx_start sdk ans r cp) = ka_pack cp"
proof -
  let ?cp = "cp_emit [Filter (inet_addr sdk (server (s_keepalive_env cp))) (port (s_keepalive_env cp))] cp"
  have "open_socks ?cp = {}" using assms by (simp add: ka_inv_def tx_inv.simps)
  moreover obtain ok cp1 where c: "conn_loop DB_KEEPALIVE_MAX_RETRY_CNT 0 ans ?cp = (ok, cp1)" by fastforce
  ultimately have "conn_kept ?cp cp1" using conn_loop_inv by blast
  then have "keepalive_ongoing (s_keepalive_env cp1) = keepalive_ongoing (s_keepalive_env cp)" "ka_pack cp1 = ka_pack cp"
    by (auto simp: conn_kept_def)
  then show ?thesis
    by (simp add: tx_start_def db_keepalive_init_connection_def c tx_disconnected_def db_ipc_send_event_def
        pl_set_wakeup_reason_def)
qed

lemma setting_up_kept:
  assumes "ka_do sdk co addr a cp = Some cp'" and "\<forall>an m. a \<noteq> Ipc an m" and "ka_inv cp" and "setting_up cp"
    and "\<not> breaks (Cp_act a) cp"
  shows "setting_up cp'"
proof (cases "connecting_pc (ka_tx cp')")
  case True
  then have from_: "connecting_pc (ka_tx cp)" using connecting_from [OF assms(1,2)] by blast
  have on: "keepalive_ongoing (s_keepalive_env cp)" using from_ assms(4) by (simp add: setting_up_def)
  show ?thesis
  proof (cases a)
    case (Tx_connect ans r)
    with assms(1) have "ka_tx cp = Tx_start" "cp' = tx_start sdk ans r cp" by (simp_all split: if_splits)
    with connect_threads [OF this(1) assms(3), of sdk ans r] on show ?thesis
      by (auto simp: setting_up_def)
  next
    case (Rx_get as ms sent)
    with assms on rx_get_threads [of sdk as ms sent _ cp cp'] show ?thesis
      by (auto simp: setting_up_def split: rx_pc.splits)
  next
    case Rx_end
    with assms(1,3,4) from_ show ?thesis
      by (cases "ka_tx cp") (auto simp: setting_up_def ka_inv_def tx_inv.simps split: if_splits)
  next
    case Rx_next
    with assms on beating_inv [OF assms(3)] show ?thesis
      by (auto simp: setting_up_def rx_loop_def Let_def split: if_splits)
  qed (use assms on True in \<open>auto simp: setting_up_def tx_init_rx_def db_keepalive_init_rx_def tx_disconnected_def
      tx_run_def tx_failed_def tx_loop_def tx_woken_def rx_exit_def db_keepalive_timer_handler_def
      db_keepalive_rtc_timer_handler_def Let_def split: if_splits tx_pc.splits\<close>)
qed (auto simp: setting_up_def)


text \<open>Powering the application core down.\<close>

lemma sleep_phase:
  assumes "tx_run sdk io so ms sent cp = Some cp'" and "ka_tx cp = Tx_run" and "setting_up cp" and "ka_inv cp"
  shows "phase_ok (power_after cp cp' p) cp'"
proof -
  have on: "keepalive_ongoing (s_keepalive_env cp)" "listening_pc (ka_rx cp)" "sock (s_keepalive_env cp) \<ge> 0" "tx_live cp"
    using assms(2,3) beating_inv [OF assms(4)] inv_connected [OF assms(4)] by (simp_all add: setting_up_def)
  let ?st = "db_keepalive_start_lv_sleep sdk (pl_power_down_host cp)"
  let ?ls = "if lp_state (s_keepalive_env cp) = PM_MODE_LOW_VOLTAGE sdk then [] else [Lv_sleep_start]"
  have ls: "cp_log ?st = cp_log cp @ [Vote_boot_cp1 False, Cif_power_down_host, Listen_interval 10] @ ?ls"
    by (simp add: db_keepalive_start_lv_sleep_def pl_start_lv_sleep_def pl_power_down_host_def cp_emit_def
        pl_reset_wakeup_reason_def)
  show ?thesis
  proof (cases "io \<and> so")
    case True
    obtain sq where t: "ka_tx cp' = Tx_loop" "ka_rx cp' = ka_rx cp" "wakeup_reason cp' = 0"
      "keepalive_ongoing (s_keepalive_env cp')"
      "cp_log cp' = cp_log ?st @ [(if sent then Sock_send else Send_failed) (sock (s_keepalive_env cp)) (packet (hnd_crc8 sdk) ms sq heartbeat)]"
      using tx_run_ok [OF on(4,1), of sdk ms sent] assms(1) True on(1) by auto
    then have "power_after cp cp' p = Ap_off (phase_flash p)"
      using ls by (simp add: power_after_def power_fold)
    with t on show ?thesis by (simp add: phase_ok_def serving_def)
  next
    case False
    then have t: "ka_tx cp' = Tx_exit" "wakeup_reason cp' = POWERUP_KEEPALIVE_FAIL_WAKEUP_FLAG"
      "cp_log cp' = cp_log ?st @ [Vote_boot_cp1 True, Cif_power_up_host, Listen_interval 1]"
      using assms(1) by (auto simp: tx_run_def tx_failed_def Let_def split: if_splits)
    then have "power_after cp cp' p = Ap_powered (phase_flash p)"
      using ls by (simp add: power_after_def power_fold)
    with t show ?thesis by (simp add: phase_ok_def)
  qed
qed

text \<open>The messages of the application core.\<close>

lemma init_threads:
  "db_keepalive_cp_init sdk an cfg cp = (r, cp') \<Longrightarrow> ka_tx cp' = ka_tx cp \<and> ka_rx cp' = ka_rx cp \<and>
     (r = BK_OK \<longrightarrow> keepalive_ongoing (s_keepalive_env cp')) \<and> (keepalive_ongoing (s_keepalive_env cp) \<longrightarrow> cp' = cp)"
  by (auto simp: db_keepalive_cp_init_def init_fail_def ka_malloc_def Let_def split: option.splits if_splits prod.splits)

lemma start_kept:
  assumes "ka_do sdk co addr (Ipc an (Some \<lparr>cmd_id = DB_IPC_CMD_KEEPALIVESTART, ipc_payload = bs\<rparr>)) cp = Some cp'"
    and "setting_up cp"
  shows "setting_up cp'"
  using assms
  by (auto simp: db_ipc_msg_handler_def ipc_cmd_defs Let_def setting_up_def db_keepalive_cp_start_def
      split: if_splits prod.splits Option.bind_splits dest!: init_threads)

lemma stop_kept:
  assumes "ka_do sdk co addr (Ipc an (Some \<lparr>cmd_id = DB_IPC_CMD_KEEPALIVESTOP, ipc_payload = bs\<rparr>)) cp = Some cp'"
    and "\<not> connecting_pc (ka_tx cp)"
  shows "\<not> connecting_pc (ka_tx cp')"
  using assms
  by (auto simp: db_ipc_msg_handler_def ipc_cmd_defs Let_def db_keepalive_cp_stop_def split: if_splits)

lemma deliver_starts:
  assumes "deliver_requests sdk co addr an es cp = Some cp'" and "\<forall>b. Ipc_stop b \<notin> set es" and "ka_inv cp" and "setting_up cp"
  shows "ka_inv cp' \<and> setting_up cp' \<and> waking cp cp'"
  using assms
proof (induction sdk co addr an es cp rule: deliver_requests.induct)
  case (2 sdk co addr an bs es cp)
  then obtain cp1 where 1: "ka_do sdk co addr (Ipc an (Some \<lparr>cmd_id = DB_IPC_CMD_KEEPALIVESTART, ipc_payload = bs\<rparr>)) cp = Some cp1"
    "deliver_requests sdk co addr an es cp1 = Some cp'" by (auto split: Option.bind_splits)
  with 2 ka_inv_step [OF 1(1)] start_kept [OF 1(1)] waking_do [OF 1(1)] show ?case
    by (auto intro: waking_trans)
next
  case (3 sdk co addr an bs es cp)
  from 3(3) show ?case by auto
qed simp_all


text \<open>The requests of \<open>main\<close>: at most one, to stop.\<close>

lemma main_requests:
  assumes "st = ap_main cfg alloc queue_ok thread_ok ret buf len mem ipc_ret (ap_power_on f)"
  shows "ap_log st \<in> {[], [Ipc_stop (replicate CFG_SIZE 0)]}"
proof -
  have send: "ap_log (snd (doorbell_send_msg m s)) = ap_log s" for m s
    by (simp add: doorbell_send_msg_def split: option.split)
  have service: "ap_log (snd (db_keepalive_start_service_from_flash s)) = ap_log s" for s
    by (simp add: db_keepalive_start_service_from_flash_def doorbell_get_ntwk_service_info_from_flash_def
        send Let_def case_prod_beta split: option.split)
  have del: "ap_log (snd (doorbell_del_all_info_from_flash cfg s)) = ap_log s" for s
    by (simp add: doorbell_del_all_info_from_flash_def doorbell_del_wifi_info_from_flash_def
        doorbell_del_ntwk_service_info_from_flash_def doorbell_del_keepalive_interval_from_flash_def
        doorbell_del_server_net_info_from_flash_def fl_set_def Let_def case_prod_beta)
  have "ap_log (doorbell_core_init alloc queue_ok thread_ok (ap_power_on f)) = []"
    by (simp add: doorbell_core_init_def ap_power_on_def Let_def)
  then show ?thesis
    by (auto simp: assms ap_main_def db_keepalive_handle_wakeup_reason_def db_keepalive_disable_bluetooth_def
        db_ipc_stop_keepalive_def send service del Let_def case_prod_beta split: option.split)
qed

lemma inv_main_requests:
  assumes "deliver_requests sdk co addr an es cp = Some cp'" and "es \<in> {[], [Ipc_stop bs]}" and "ka_inv cp"
    and "\<not> connecting_pc (ka_tx cp)"
  shows "ka_inv cp' \<and> setting_up cp' \<and> waking cp cp'"
proof (cases "es = []")
  case False
  with assms have 1: "ka_do sdk co addr (Ipc an (Some \<lparr>cmd_id = DB_IPC_CMD_KEEPALIVESTOP, ipc_payload = bs\<rparr>)) cp = Some cp'"
    by (auto split: Option.bind_splits simp del: ka_do.simps)
  with assms(3,4) ka_inv_step [OF 1] stop_kept [OF 1] waking_do [OF 1] show ?thesis
    by (auto simp: setting_up_def)
qed (use assms in \<open>auto simp: setting_up_def\<close>)

lemma tc_inv_boot: "tc_inv (tc_boot f)"
proof -
  have "ka_inv (pl_wakeup_host POWERUP_POWER_WAKEUP_FLAG ka_boot)"
    using inv_boot by (auto simp: ka_inv_def rx_inv_def ka_boot_def tx_inv.simps)
  then show ?thesis
    by (simp add: tc_inv_def tc_boot_def user_app_main_def setting_up_def phase_ok_def power_after_def
        pl_wakeup_host_def cp_emit_def pl_set_wakeup_reason_def ka_boot_def)
qed

lemma tc_inv_cp:
  assumes "ka_do sdk co addr a cp = Some cp'" and "\<forall>an m. a \<noteq> Ipc an m" and "\<not> breaks (Cp_act a) cp"
    and "ka_inv cp" and "setting_up cp" and "phase_ok p cp"
  shows "phase_ok (power_after cp cp' p) cp'"
proof (cases "connecting a")
  case True
  show ?thesis
  proof (cases a)
    case (Tx_sleep io so ms sent)
    with assms sleep_phase show ?thesis by (auto split: if_splits)
  qed (use assms True in \<open>auto simp: phase_ok_def serving_def running_connect running_init_rx
      split: ap_phase.splits if_splits\<close>)
next
  case False
  note w = waking_do [OF assms(1) False]
  show ?thesis
  proof (cases p)
    case (Ap_off f)
    with assms(6) have "serving cp" "wakeup_reason cp = 0" by (simp_all add: phase_ok_def)
    from serving_kept [OF assms(1,2,4) this(1) assms(3)] w Ap_off connecting_from [OF assms(1,2)] this
      beating_not_connecting [of "ka_tx cp"] show ?thesis
      by (auto simp: phase_ok_def power_waking serving_def waking_def)
  next
    case (Ap_powered f)
    with assms(6) w connecting_from [OF assms(1,2)] show ?thesis
      by (auto simp: phase_ok_def power_waking waking_def split: if_splits)
  qed (use w in \<open>simp add: phase_ok_def power_waking\<close>)
qed


lemma tc_inv_step:
  assumes "tc_do cfg sdk co addr a s = Some s'" and "tc_inv s" and "\<not> breaks a (tc_cp s)"
  shows "tc_inv s'"
proof (cases a)
  case (Cp_act ca)
  then obtain cp' where c: "ka_do sdk co addr ca (tc_cp s) = Some cp'" "\<forall>an m. ca \<noteq> Ipc an m"
    and s': "s' = s\<lparr>tc_cp := cp', tc_ap := power_after (tc_cp s) cp' (tc_ap s)\<rparr>"
    using assms(1) by (cases ca) (auto simp del: ka_do.simps)
  from assms(2) have i: "ka_inv (tc_cp s)" "setting_up (tc_cp s)" "phase_ok (tc_ap s) (tc_cp s)"
    by (simp_all add: tc_inv_def)
  note b = assms(3) [unfolded Cp_act]
  show ?thesis
    using ka_inv_step [OF c(1) i(1)] setting_up_kept [OF c i(1,2) b] tc_inv_cp [OF c b i]
    by (simp add: tc_inv_def s')
next
  case (Ap_main alloc queue_ok thread_ok ret ipc_ret ok an)
  then obtain f cp st cp' buf len mem where p: "tc_ap s = Ap_powered f"
    and c: "ka_do sdk co addr (Ipc an (Some \<lparr>cmd_id = DB_IPC_CMD_GET_WAKEUP_ENV_ADDR, ipc_payload = []\<rparr>)) (tc_cp s) = Some cp"
    and st: "st = ap_main cfg alloc queue_ok thread_ok ret buf len mem ipc_ret (ap_power_on f)"
    and d: "deliver_requests sdk co addr an (if ok then ap_log st else []) cp = Some cp'"
    and s': "s' = s\<lparr>tc_cp := cp', tc_ap := power_after (tc_cp s) cp' (Ap_running st)\<rparr>"
    using assms(1)
    by (auto simp del: ka_do.simps simp: Let_def split: ap_phase.splits Option.bind_splits)
  have es: "(if ok then ap_log st else []) \<in> {[], [Ipc_stop (replicate CFG_SIZE 0)]}"
    using main_requests [OF st] by auto
  have cp: "cp = cp_emit [Cif_confirm (le32 addr)] (tc_cp s)"
    using c by (simp add: db_ipc_msg_handler_def ipc_cmd_defs)
  have "ka_inv cp" "\<not> connecting_pc (ka_tx cp)" "waking (tc_cp s) cp"
    using assms(2) p ka_inv_step [OF c] by (simp_all add: tc_inv_def phase_ok_def cp)
  with inv_main_requests [OF d es] show ?thesis
    by (auto simp: tc_inv_def s' phase_ok_def running_waking [OF waking_trans])
next
  case (Ap_act aa ok an)
  then obtain st st' es cp' where p: "ap_do cfg aa st = Some st'" "\<forall>r x. aa \<noteq> Wakeup r x"
    and d: "deliver_requests sdk co addr an es (tc_cp s) = Some cp'" "es = (if ok then drop (length (ap_log st)) (ap_log st') else [])"
    and s': "s' = s\<lparr>tc_cp := cp', tc_ap := power_after (tc_cp s) cp' (Ap_running st')\<rparr>"
    using assms(1) by (auto simp del: ap_do.simps split: ap_phase.splits Option.bind_splits if_splits ap_act.splits)
  have "\<forall>b. Ipc_stop b \<notin> set es"
    using only_wakeup_stops [OF p] by (auto simp: d(2) mute_def)
  with deliver_starts [OF d(1)] assms(2) show ?thesis
    by (auto simp: tc_inv_def s' phase_ok_def running_waking)
next
  case (Ap_post m)
  with assms show ?thesis by (auto simp: tc_inv_def phase_ok_def split: ap_phase.splits)
qed

lemma tc_inv_unbroken: "tc_unbroken cfg sdk co addr f s \<Longrightarrow> tc_inv s"
  by (induction rule: tc_unbroken.induct) (auto intro: tc_inv_boot tc_inv_step)

end
