(* ===== verification/Two_Cores_Properties.thy ===== *)
theory Two_Cores_Properties
  imports Two_Cores_Safety
begin

text \<open>
  Runs of the two cores: the whole hand-over from the application core to the keep-alive, the
  whole way back when the server asks, a run from power-on, the property that ties power to the
  keep-alive, and what happens when the connection is lost.
\<close>

section \<open>Nothing received\<close>

text \<open>A channel with nothing cached; sending leaves it so.\<close>

definition rx_fresh :: "ka_state \<Rightarrow> bool" where
  "rx_fresh cp \<longleftrightarrow> (\<exists>ch. s_db_pack_chan (ka_pack cp) = Some ch \<and> chan_ok 1460 ch \<and> pending ch = [])"

lemma fresh_heartbeat:
  assumes "db_keepalive_send_heartbeat sdk ms sent cp = Some cp'" and "rx_fresh cp"
  shows "rx_fresh cp'"
  using assms
  by (auto simp: db_keepalive_send_heartbeat_def send_event_def db_pack_pack_def rx_fresh_def chan_ok_def pending_def Let_def
      split: if_splits option.splits Option.bind_splits)

lemma fresh_connect:
  assumes "ka_do sdk co addr a cp = Some cp'" and "rx_fresh cp" and "ka_inv cp"
    and "a \<in> {Tx_connect ans r, Tx_create_rx True r, Tx_sleep True True ms sent, Tx_next, Rx_next}"
  shows "rx_fresh cp'"
proof -
  have pack: "ka_pack (db_keepalive_start_lv_sleep sdk (pl_power_down_host cp)) = ka_pack cp"
    by (simp add: db_keepalive_start_lv_sleep_def pl_start_lv_sleep_def)
  have rtc: "ka_pack (db_keepalive_set_keepalive_rtc cp) = ka_pack cp"
    by (simp add: db_keepalive_set_keepalive_rtc_def Let_def)
  have conn: "ka_pack (tx_start sdk ans r cp) = ka_pack cp" if "ka_tx cp = Tx_start"
    using connect_threads [OF that assms(3)] by blast
  have sleep: "rx_fresh cp'" if "tx_run sdk True True ms sent cp = Some cp'"
  proof -
    let ?cp = "upd_env (timer_update (\<lambda>_. True)) (db_keepalive_start_lv_sleep sdk (pl_power_down_host cp))"
    have "rx_fresh ?cp" using assms(2) by (simp add: rx_fresh_def pack)
    with that fresh_heartbeat [of sdk ms sent ?cp] show ?thesis
      by (auto simp: tx_run_def Let_def rx_fresh_def split: if_splits)
  qed
  show ?thesis
    using assms conn sleep
    by (auto simp: tx_init_rx_def db_keepalive_init_rx_def tx_loop_def rx_loop_def rtc Let_def
        rx_fresh_def split: if_splits)
qed

lemma fresh_init:
  assumes "db_keepalive_cp_init sdk (an_init an) (Some cfg) cp = (BK_OK, cp')" and "s_db_pack_chan (ka_pack cp) = None"
    and "\<not> keepalive_ongoing (s_keepalive_env cp)"
  shows "rx_fresh cp'"
proof -
  have "db_pack_init al DB_KEEPALIVE_MSG_BUFFER_SIZE DB_KEEPALIVE_MSG_BUFFER_SIZE (ka_pack cp) = (BK_OK, ps) \<Longrightarrow>
      \<exists>ch. s_db_pack_chan ps = Some ch \<and> chan_ok 1460 ch \<and> pending ch = []" for al ps
    using assms(2)
    by (auto simp: db_pack_init_def Let_def mem_log_def chan_ok_def pending_def DB_PACK_HEAD_SIZE_TOTAL_def
        DB_KEEPALIVE_MSG_BUFFER_SIZE_def split: if_splits simp del: upt_rec_numeral)
  with assms(1,3) show ?thesis
    by (auto simp: db_keepalive_cp_init_def init_fail_def ka_malloc_def rx_fresh_def Let_def split: if_splits prod.splits)
qed

lemma fresh_start:
  assumes "ka_do sdk co addr (Ipc an (Some \<lparr>cmd_id = DB_IPC_CMD_KEEPALIVESTART, ipc_payload = bs\<rparr>)) cp = Some cp'"
    and "ka_inv cp" and "ka_tx cp = Tx_none" and "\<not> keepalive_ongoing (s_keepalive_env cp)"
    and "answers_ok an"
  shows "rx_fresh cp'"
proof -
  obtain cp1 where i: "db_keepalive_cp_init sdk (an_init an) (Some (read_cfg bs)) cp = (BK_OK, cp1)"
    using cp_init_ok [OF assms(5,4)] by blast
  have "s_db_pack_chan (ka_pack cp) = None"
    using assms(2-4) by (auto simp: ka_inv_def tx_inv.simps res_none_def)
  then have "rx_fresh cp1" using fresh_init [OF i _ assms(4)] by blast
  with assms(1) i show ?thesis
    by (auto simp: db_ipc_msg_handler_def ipc_cmd_defs Let_def db_keepalive_cp_start_def rx_fresh_def
      split: if_splits Option.bind_splits)
qed

section \<open>Runs of both cores\<close>

lemma tc_run_append:
  "tc_run cfg sdk co addr (as @ bs) s = Option.bind (tc_run cfg sdk co addr as s) (tc_run cfg sdk co addr bs)"
  by (induction as arbitrary: s) (auto split: Option.bind_splits)

lemma tc_run_step:
  "tc_do cfg sdk co addr a s = Some s1 \<Longrightarrow> tc_run cfg sdk co addr (a # as) s = tc_run cfg sdk co addr as s1"
  by (simp only: tc_run.simps bind.simps)

lemma deliver_none:
  "\<forall>b. Ipc_start b \<notin> set es \<Longrightarrow> \<forall>b. Ipc_stop b \<notin> set es \<Longrightarrow> deliver_requests sdk co addr an es cp = Some cp"
  by (induction sdk co addr an es cp rule: deliver_requests.induct) auto

lemma deliver_append:
  "deliver_requests sdk co addr an (es @ fs) cp = Option.bind (deliver_requests sdk co addr an es cp) (deliver_requests sdk co addr an fs)"
  by (induction sdk co addr an es cp rule: deliver_requests.induct) (auto simp del: ka_do.simps split: Option.bind_splits)

lemma power_same [simp]: "power_after cp cp p = p"
  by (simp add: power_after_def)

text \<open>Actions of the application core that send no request leave the control core alone.\<close>

lemma run_mute:
  "ap_run cfg as st = Some st' \<Longrightarrow> \<forall>r x. Wakeup r x \<notin> set as \<Longrightarrow> mute st st'"
proof (induction as arbitrary: st)
  case (Cons a as)
  then obtain st1 where "ap_do cfg a st = Some st1" "ap_run cfg as st1 = Some st'"
    by (auto simp del: ap_do.simps split: Option.bind_splits)
  with Cons show ?case by (metis list.set_intros mute_trans only_wakeup_stops)
qed simp

lemma ap_act_alone:
  assumes "ap_do cfg a st = Some st'" and "\<forall>r x. a \<noteq> Wakeup r x"
    and "\<forall>b. Ipc_start b \<notin> set (drop (length (ap_log st)) (ap_log st'))" and "tc_ap s = Ap_running st"
  shows "tc_do cfg sdk co addr (Ap_act a True an) s = Some (s\<lparr>tc_ap := Ap_running st'\<rparr>)"
proof -
  have "\<forall>b. Ipc_stop b \<notin> set (drop (length (ap_log st)) (ap_log st'))"
    using only_wakeup_stops [OF assms(1,2)] by (auto simp: mute_def)
  with assms show ?thesis
    by (auto simp: deliver_none simp del: ap_do.simps split: ap_act.split)
qed

lemma ap_acts_alone:
  assumes "ap_run cfg as st = Some st'" and "\<forall>r x. Wakeup r x \<notin> set as"
    and "\<forall>b. Ipc_start b \<notin> set (drop (length (ap_log st)) (ap_log st'))"
    and "tc_ap s = Ap_running st"
  shows "tc_run cfg sdk co addr (map (\<lambda>a. Ap_act a True an) as) s = Some (s\<lparr>tc_ap := Ap_running st'\<rparr>)"
  using assms
proof (induction as arbitrary: st s)
  case (Cons a as)
  then obtain st1 where 1: "ap_do cfg a st = Some st1" "ap_run cfg as st1 = Some st'"
    by (auto simp del: ap_do.simps split: Option.bind_splits)
  have a: "\<forall>r x. a \<noteq> Wakeup r x" and as: "\<forall>r x. Wakeup r x \<notin> set as" using Cons.prems(2) by auto
  obtain es fs where l: "ap_log st1 = ap_log st @ es" "ap_log st' = ap_log st1 @ fs"
    using only_wakeup_stops [OF 1(1) a] run_mute [OF 1(2) as] by (auto simp: mute_def)
  have no: "\<forall>b. Ipc_start b \<notin> set (drop (length (ap_log st)) (ap_log st1))"
    "\<forall>b. Ipc_start b \<notin> set (drop (length (ap_log st1)) (ap_log st'))"
    using Cons.prems(3) by (simp_all add: l)
  show ?case
    using Cons.IH [OF 1(2) as no(2), of "s\<lparr>tc_ap := Ap_running st1\<rparr>"]
      tc_run_step [OF ap_act_alone [OF 1(1) a no(1) Cons.prems(4)]]
    by (simp del: tc_do.simps tc_run.simps)
qed simp

section \<open>The hand-over\<close>

text \<open>The control core connects and powers the other core down.\<close>

lemma sleep_off:
  assumes "tx_run sdk True True ms sent cp = Some cp'" and "tx_live cp" and "keepalive_ongoing (s_keepalive_env cp)"
  shows "power_after cp cp' p = Ap_off (phase_flash p)"
  using tx_run_ok [OF assms(2,3), of sdk ms sent] assms(1)
  by (auto simp: power_after_def power_fold db_keepalive_start_lv_sleep_def pl_start_lv_sleep_def
      pl_power_down_host_def cp_emit_def pl_reset_wakeup_reason_def)

lemma address_kept [simp]:
  "server (s_keepalive_env (db_keepalive_set_keepalive_rtc st)) = server (s_keepalive_env st)"
  "port (s_keepalive_env (db_keepalive_set_keepalive_rtc st)) = port (s_keepalive_env st)"
  "server (s_keepalive_env (db_keepalive_start_lv_sleep sdk st)) = server (s_keepalive_env st)"
  "port (s_keepalive_env (db_keepalive_start_lv_sleep sdk st)) = port (s_keepalive_env st)"
  by (simp_all add: db_keepalive_set_keepalive_rtc_def db_keepalive_start_lv_sleep_def alarm_unregister_def
      pl_start_lv_sleep_def Let_def)

lemma cp_connects:
  assumes "ka_inv (tc_cp s)" and "ka_tx (tc_cp s) = Tx_start" and "keepalive_ongoing (s_keepalive_env (tc_cp s))"
    and "an_socket (ans 0) \<ge> 0" and "an_bind (ans 0) 0" and "an_connect (ans 0)" and "tc_ap s = Ap_running st"
  shows "\<exists>s' sm. tc_run cfg sdk co addr
      (map Cp_act [Tx_connect ans r, Tx_create_rx True r, Tx_sleep True True ms sent, Tx_next]) s = Some s' \<and>
    tc_ap s' = Ap_off (ap_flash st) \<and> ka_tx (tc_cp s') = Tx_wait sm \<and> ka_rx (tc_cp s') = Rx_loop \<and>
    keepalive_ongoing (s_keepalive_env (tc_cp s')) \<and> open_socks (tc_cp s') = {an_socket (ans 0)} \<and>
    server (s_keepalive_env (tc_cp s')) = server (s_keepalive_env (tc_cp s)) \<and>
    port (s_keepalive_env (tc_cp s')) = port (s_keepalive_env (tc_cp s)) \<and>
    (rx_fresh (tc_cp s) \<longrightarrow> rx_fresh (tc_cp s'))"
proof -
  let ?cp = "tc_cp s"
  obtain cp1 where 1: "ka_do sdk co addr (Tx_connect ans r) ?cp = Some cp1" "ka_tx cp1 = Tx_init_rx"
    "s_keepalive_env cp1 = s_keepalive_env ?cp\<lparr>sock := an_socket (ans 0)\<rparr>"
    and p1: "power_after ?cp cp1 (Ap_running st) = Ap_running st"
    using assms(2) conn_first [of ans, OF assms(4-6)] running_connect [of ?cp sdk ans r st]
    by (simp add: tx_start_def Let_def)
  obtain cp2 where 2: "ka_do sdk co addr (Tx_create_rx True r) cp1 = Some cp2" "ka_tx cp2 = Tx_run" "ka_rx cp2 = Rx_loop"
    "s_keepalive_env cp2 = s_keepalive_env cp1\<lparr>rx_thread := True\<rparr>"
    and p2: "power_after cp1 cp2 (Ap_running st) = Ap_running st"
    using 1(2) running_init_rx [of cp1 sdk True r st] by (simp add: tx_init_rx_def db_keepalive_init_rx_def)
  have i2: "ka_inv cp2" using ka_inv_step [OF 2(1) ka_inv_step [OF 1(1) assms(1)]] .
  then have l2: "tx_live cp2" using inv_connected 2(2) by blast
  have on2: "keepalive_ongoing (s_keepalive_env cp2)" using 1(3) 2(4) assms(3) by simp
  obtain cp3 where r: "tx_run sdk True True ms sent cp2 = Some cp3" and 3: "ka_tx cp3 = Tx_loop" "ka_rx cp3 = Rx_loop"
    "s_keepalive_env cp3 = s_keepalive_env (upd_env (timer_update (\<lambda>_. True)) (db_keepalive_start_lv_sleep sdk cp2))"
    "open_socks cp3 = open_socks cp2"
    using tx_run_ok [OF l2 on2, of sdk ms sent] 2(3) by auto
  have d3: "ka_do sdk co addr (Tx_sleep True True ms sent) cp2 = Some cp3" using r 2(2) by simp
  have p3: "power_after cp2 cp3 (Ap_running st) = Ap_off (ap_flash st)"
    using sleep_off [OF r l2 on2] by simp
  have on3: "keepalive_ongoing (s_keepalive_env cp3)" using on2 by (simp add: 3(3))
  obtain sm where sm: "sema (s_keepalive_env cp3) = Some sm"
    using ka_inv_step [OF d3 i2] 3(1) by (auto simp: ka_inv_def tx_inv_live tx_live_def res_full_def)
  let ?cp4 = "(db_keepalive_set_keepalive_rtc cp3)\<lparr>ka_tx := Tx_wait sm\<rparr>"
  have d4: "ka_do sdk co addr Tx_next cp3 = Some ?cp4"
    using 3(1) on3 sm by (simp add: tx_loop_def Let_def set_rtc_more)
  have p4: "power_after cp3 ?cp4 (Ap_off g) = Ap_off g" for g
    by (simp add: power_after_def db_keepalive_set_keepalive_rtc_def alarm_unregister_def Let_def cp_emit_def)
  have "tc_run cfg sdk co addr (map Cp_act [Tx_connect ans r, Tx_create_rx True r, Tx_sleep True True ms sent, Tx_next]) s =
      Some (s\<lparr>tc_cp := ?cp4, tc_ap := Ap_off (ap_flash st)\<rparr>)"
    using assms(7) by (simp add: 1(1) 2(1) d3 d4 p1 p2 p3 p4 del: ka_do.simps)
  moreover have "rx_fresh ?cp \<longrightarrow> rx_fresh ?cp4"
    using fresh_connect [OF 1(1) _ assms(1), of ans r] fresh_connect [OF 2(1) _ ka_inv_step [OF 1(1) assms(1)], of ans r]
      fresh_connect [OF d3 _ i2, of ans r] fresh_connect [OF d4 _ ka_inv_step [OF d3 i2], of ans r] by blast
  moreover have "open_socks cp2 = {an_socket (ans 0)}" using l2 by (simp add: tx_live_def 1(3) 2(4))
  ultimately show ?thesis
    using 1(3) 2(4) 3 on3 by (auto simp: set_rtc_more)
qed


text \<open>The request, read by the control core.\<close>

lemma request_read:
  assumes "length (c_string (ip_addr info)) \<le> 31" and "c_string (cmd_port info) = decimal p" and "p < 65536"
  shows "take 31 (c_string (cfg_server (read_cfg (hand_over_request info)))) = c_string (ip_addr info)"
    and "unat (cfg_port (read_cfg (hand_over_request info))) = p"
    and "length (hand_over_request info) = CFG_SIZE"
proof -
  let ?c = "\<lparr>cfg_server = take 31 (c_string (ip_addr info)), cfg_port = word_of_int (atoi (cmd_port info))\<rparr>"
  have server: "take 31 (c_string (ip_addr info)) = c_string (ip_addr info)" using assms(1) by simp
  have no0: "0 \<notin> set (c_string (ip_addr info))"
    using zero_notin_c_string [of 31 "ip_addr info"] by (simp only: server) simp
  show "take 31 (c_string (cfg_server (read_cfg (hand_over_request info)))) = c_string (ip_addr info)"
    "unat (cfg_port (read_cfg (hand_over_request info))) = p"
    using read_cfg_bytes [of ?c] assms(1,3) no0
    by (simp_all add: server hand_over_request_def atoi_decimal [OF assms(2)] unsigned_of_nat take_bit_nat_eq_self)
  show "length (hand_over_request info) = CFG_SIZE"
    by (simp add: hand_over_request_def cfg_bytes_length)
qed

lemma hand_over:
  assumes "ka_inv (tc_cp s)" and "ka_tx (tc_cp s) = Tx_none" and "ka_rx (tc_cp s) = Rx_none"
    and "\<not> keepalive_ongoing (s_keepalive_env (tc_cp s))" and "answers_ok an"
    and "tc_ap s = Ap_running st" and "\<not> busy now st" and "s_timer_started st"
    and "\<not> s_pending_keepalive_after_service_stop st" and "db_queue st = Some []"
    and "fl_service (ap_flash st) = Some DOORBELL_SERVICE_LAN_TCP" and "fl_net (ap_flash st) = Some info"
    and "c_string (ip_addr info) \<noteq> []" and "length (c_string (ip_addr info)) \<le> 31"
    and "c_string (cmd_port info) = decimal p" and "p < 65536"
    and "low_power cfg" and "ca_ipc ca = 0"
    and "an_socket (ans 0) \<ge> 0" and "an_bind (ans 0) 0" and "an_connect (ans 0)"
  shows "\<exists>s' sm. tc_run cfg sdk co addr ([Ap_act (Status_timer now) True an, Ap_act (Core_task ca) True an] @
      map Cp_act [Tx_connect ans r, Tx_create_rx True r, Tx_sleep True True ms sent, Tx_next]) s = Some s' \<and>
    tc_ap s' = Ap_off (ap_flash st) \<and> ka_tx (tc_cp s') = Tx_wait sm \<and> ka_rx (tc_cp s') = Rx_loop \<and>
    keepalive_ongoing (s_keepalive_env (tc_cp s')) \<and> open_socks (tc_cp s') = {an_socket (ans 0)} \<and>
    server (s_keepalive_env (tc_cp s')) = c_string (ip_addr info) \<and> unat (port (s_keepalive_env (tc_cp s'))) = p \<and>
    rx_fresh (tc_cp s')"
proof -
  let ?st1 = "st\<lparr>db_queue := Some [\<lparr>msg_event = DBEVT_LAN_TCP_SERVICE_STOP, msg_param = 0\<rparr>],
      s_pending_keepalive_after_service_stop := True\<rparr>"
  have 1: "tc_do cfg sdk co addr (Ap_act (Status_timer now) True an) s = Some (s\<lparr>tc_ap := Ap_running ?st1\<rparr>)"
    by (rule ap_act_alone [OF idle_tick [OF assms(7-9,11,10)] _ _ assms(6)]) simp_all
  have "c_string (cmd_port info) \<noteq> []" using decimal_digits [of p] assms(15) by simp
  then obtain st2 es where 2: "ap_do cfg (Core_task ca) ?st1 = Some st2"
    "ap_log st2 = ap_log ?st1 @ [Trans_chan_stop Chan_ctrl, Trans_chan_stop Chan_video, Trans_chan_stop Chan_audio,
      Trans_service_deinit Tcp_service, Ipc_start (hand_over_request info)] @ es"
    "\<forall>b. Ipc_start b \<notin> set es" "\<forall>b. Ipc_stop b \<notin> set es" "ap_flash st2 = ap_flash st"
    using idle_hands_over [of ?st1 info cfg ca] assms(12,13,17,18) by auto
  note rd = request_read [OF assms(14-16)]
  let ?m = "Ipc an (Some \<lparr>cmd_id = DB_IPC_CMD_KEEPALIVESTART, ipc_payload = hand_over_request info\<rparr>)"
  obtain cp' where 3: "ka_do sdk co addr ?m (tc_cp s) = Some cp'" "server (s_keepalive_env cp') = c_string (ip_addr info)"
    "unat (port (s_keepalive_env cp')) = p" "ka_tx cp' = Tx_start" "keepalive_ongoing (s_keepalive_env cp')"
    using start_message [OF assms(5,4,2) rd(3), of sdk co addr] rd(1,2) assms(2,3) by auto
  have "deliver_requests sdk co addr an (drop (length (ap_log ?st1)) (ap_log st2)) (tc_cp s) = Some cp'"
    by (simp add: 2(2) 3(1) deliver_none [OF 2(3,4)] del: ka_do.simps)
  moreover have "power_after (tc_cp s) cp' (Ap_running st2) = Ap_running st2"
    using running_waking waking_do [OF 3(1)] by simp
  ultimately have 4: "tc_do cfg sdk co addr (Ap_act (Core_task ca) True an) (s\<lparr>tc_ap := Ap_running ?st1\<rparr>) =
      Some (s\<lparr>tc_cp := cp', tc_ap := Ap_running st2\<rparr>)"
    by (simp add: 2(1) del: ap_do.simps)
  have fresh: "rx_fresh cp'" by (rule fresh_start [OF 3(1) assms(1,2,4,5)])
  let ?s = "s\<lparr>tc_cp := cp', tc_ap := Ap_running st2\<rparr>"
  have "ka_inv (tc_cp ?s)" "ka_tx (tc_cp ?s) = Tx_start" "keepalive_ongoing (s_keepalive_env (tc_cp ?s))"
    using ka_inv_step [OF 3(1) assms(1)] 3(4,5) by simp_all
  from cp_connects [of ?s ans st2, OF this assms(19-21), of cfg sdk co addr r ms sent] 2(5) 3(2,3) fresh
  show ?thesis
    unfolding tc_run_append tc_run_step [OF 1] tc_run_step [OF 4] by (auto simp del: tc_do.simps tc_run.simps(2))
qed


section \<open>The wake-up\<close>

lemma main_reads_reason:
  assumes "tc_ap s = Ap_powered f" and "addr \<noteq> 0"
    and "st = db_keepalive_handle_wakeup_reason cfg ipc_ret (Some (wakeup_reason (tc_cp s))) (ap_boot f)"
    and "deliver_requests sdk co addr an (if ok then ap_log st else []) (cp_emit [Cif_confirm (le32 addr)] (tc_cp s)) = Some cp'"
  shows "tc_do cfg sdk co addr (Ap_main True True True 0 ipc_ret ok an) s =
    Some (s\<lparr>tc_cp := cp', tc_ap := power_after (tc_cp s) cp' (Ap_running st)\<rparr>)"
proof -
  obtain cp where cp: "cp = cp_emit [Cif_confirm (le32 addr)] (tc_cp s)" by simp
  have "ka_do sdk co addr (Ipc an (Some \<lparr>cmd_id = DB_IPC_CMD_GET_WAKEUP_ENV_ADDR, ipc_payload = []\<rparr>)) (tc_cp s) = Some cp"
    by (simp add: db_ipc_msg_handler_def ipc_cmd_defs cp)
  moreover have "confirmed (drop (length (cp_log (tc_cp s))) (cp_log cp)) = le32 addr"
    by (simp add: cp_emit_def cp)
  moreover have "ap_main cfg True True True 0 (le32 addr) 4 (wakeup_memory addr cp) ipc_ret (ap_power_on f) = st"
    using assms(2)
    by (simp add: ap_main_def assms(3) ap_boot_def db_ipc_wakeup_env_init_def db_ipc_wakeup_env_response_def
        wakeup_memory_def cp)
  ultimately show ?thesis
    using assms(1) assms(4) [folded cp] by (cases ok) (simp_all add: Let_def del: ka_do.simps)
qed

lemma inv_tx_wait: "ka_inv cp \<Longrightarrow> ka_tx cp = Tx_wait sm \<Longrightarrow> tx_live cp \<and> pack_ready (ka_pack cp)"
  by (auto simp: ka_inv_def tx_inv_live dest: tx_live_pack)

text \<open>The stop message to a keep-alive whose transmit thread runs.\<close>

lemma stop_message:
  assumes "tx_thread (s_keepalive_env cp)"
  shows "ka_do sdk co addr (Ipc an (Some \<lparr>cmd_id = DB_IPC_CMD_KEEPALIVESTOP, ipc_payload = bs\<rparr>)) cp =
    Some (cp_emit [Cif_confirm []] (db_keepalive_sema_post_safe (upd_env (keepalive_ongoing_update (\<lambda>_. False)) cp)))"
  using assms by (simp add: db_ipc_msg_handler_def ipc_cmd_defs db_keepalive_cp_stop_def Let_def)


text \<open>A wake-up request that the receive thread reads.\<close>

lemma request_received:
  assumes "ka_inv cp" and "tx_live cp" and "ka_rx cp = Rx_recv n b" and "ka_tx cp \<noteq> Tx_none"
    and "s_db_pack_chan (ka_pack cp) = Some ch" and "chan_ok 1460 ch"
    and "good_stream 1460 (pending ch @ bs)" and "bs \<noteq> []" and "length bs \<le> 1460"
    and "d \<in> set (fst (deframe (pending ch @ bs)))" and "wake_request d"
  shows "\<exists>cp'. ka_do sdk co addr (Rx_get [Received bs] ms sent) cp = Some cp' \<and> waking cp cp' \<and>
    Cif_power_up_host \<in> set (drop (length (cp_log cp)) (cp_log cp')) \<and>
    wakeup_reason cp' = POWERUP_MULTIMEDIA_WAKEUP_HOST_FLAG \<and> s_keepalive_env cp' = s_keepalive_env cp \<and>
    ka_tx cp' = ka_tx cp \<and> ka_rx cp' = Rx_loop"
proof -
  obtain r where b: "b = Some r" "r \<in> live cp"
    using assms(1-4) by (auto simp: ka_inv_def rx_inv_def tx_live_def res_full_def)
  have "filter wake_request (fst (deframe (pending ch @ bs))) \<noteq> []"
    using assms(10,11) by (auto simp: filter_empty_conv)
  moreover obtain cp1 where p: "rx_process sdk ms sent bs cp = Some cp1"
    and c: "count_list (cp_log cp1) Cif_power_up_host = count_list (cp_log cp) Cif_power_up_host +
      length (filter wake_request (fst (deframe (pending ch @ bs))))"
    and r: "wakeup_reason cp1 = (if \<exists>d \<in> set (fst (deframe (pending ch @ bs))). wake_request d
      then POWERUP_MULTIMEDIA_WAKEUP_HOST_FLAG else wakeup_reason cp)"
    using received_wakes [OF assms(5,6) tx_live_pack [OF assms(2)] assms(7,8), of sdk ms sent] by blast
  ultimately have up: "count_list (cp_log cp1) Cif_power_up_host > count_list (cp_log cp) Cif_power_up_host" by simp
  have reason: "wakeup_reason cp1 = POWERUP_MULTIMEDIA_WAKEUP_HOST_FLAG" using r assms(10,11) by (metis (full_types))
  let ?cp' = "cp1\<lparr>ka_rx := Rx_loop\<rparr>"
  have g: "ka_do sdk co addr (Rx_get [Received bs] ms sent) cp = Some ?cp'"
    using p b assms(3,8,9) by (simp add: rx_recv_def db_keepalive_recv_raw_data_def DB_KEEPALIVE_MSG_BUFFER_SIZE_def)
  have w: "waking cp ?cp'" using waking_do [OF g] by simp
  then obtain es where es: "cp_log ?cp' = cp_log cp @ es" by (auto simp: waking_def)
  with up have "0 < count_list es Cif_power_up_host" by simp
  then have "Cif_power_up_host \<in> set es" by (metis count_notin less_irrefl)
  with g w es reason rx_process_same [OF p] show ?thesis by (auto simp: same_but_pack_def simp del: ka_do.simps)
qed

text \<open>Read while the application core is off, it gives it power.\<close>

lemma request_powers_up:
  assumes "tc_ap s = Ap_off f" and "ka_inv (tc_cp s)" and "ka_tx (tc_cp s) = Tx_wait sm" and "ka_rx (tc_cp s) = Rx_recv n b"
    and "s_db_pack_chan (ka_pack (tc_cp s)) = Some ch" and "chan_ok 1460 ch"
    and "good_stream 1460 (pending ch @ bs)" and "bs \<noteq> []" and "length bs \<le> 1460"
    and "d \<in> set (fst (deframe (pending ch @ bs)))" and "wake_request d"
  shows "\<exists>cp'. tc_do cfg sdk co addr (Cp_act (Rx_get [Received bs] ms sent)) s =
      Some (s\<lparr>tc_cp := cp', tc_ap := Ap_powered f\<rparr>) \<and>
    wakeup_reason cp' = POWERUP_MULTIMEDIA_WAKEUP_HOST_FLAG \<and> s_keepalive_env cp' = s_keepalive_env (tc_cp s)"
proof -
  have "ka_tx (tc_cp s) \<noteq> Tx_none" using assms(3) by simp
  from request_received [OF assms(2) _ assms(4) this assms(5-11)] inv_tx_wait [OF assms(2,3)]
  obtain cp' where "ka_do sdk co addr (Rx_get [Received bs] ms sent) (tc_cp s) = Some cp'" "waking (tc_cp s) cp'"
    "Cif_power_up_host \<in> set (drop (length (cp_log (tc_cp s))) (cp_log cp'))"
    "wakeup_reason cp' = POWERUP_MULTIMEDIA_WAKEUP_HOST_FLAG" "s_keepalive_env cp' = s_keepalive_env (tc_cp s)"
    by blast
  then show ?thesis using assms(1) by (intro exI [of _ cp']) (simp add: power_waking del: ka_do.simps)
qed

text \<open>The start of the application core for a multimedia request, up to the answer.\<close>

lemma multimedia_log:
  assumes "fl_service f = Some DOORBELL_SERVICE_LAN_TCP"
  shows "ap_log (db_keepalive_handle_wakeup_reason cfg 0 (Some POWERUP_MULTIMEDIA_WAKEUP_HOST_FLAG) (ap_boot f)) =
    [Ipc_stop (replicate CFG_SIZE 0)]"
  using assms
  by (simp add: boot_core db_keepalive_handle_wakeup_reason_def powerup_defs db_keepalive_disable_bluetooth_def
      doorbell_send_msg_def QUEUE_SIZE_def db_ipc_stop_keepalive_def db_keepalive_start_service_from_flash_def
      doorbell_get_ntwk_service_info_from_flash_def service_defs ap_emit_def Let_def)

text \<open>What the application core does after \<open>main\<close>, until it answers.\<close>

definition answer_acts :: "core_answer \<Rightarrow> core_answer \<Rightarrow> core_answer \<Rightarrow> ap_act list" where
  "answer_acts a b c = [Core_task a, Core_task b] @
     map (\<lambda>ch. Net_event (Some (ascii ''tcp_service'')) (Some (conn_event ch))) [Chan_ctrl, Chan_video, Chan_audio] @
     [Core_task c]"

lemma woken_core_answers:
  assumes "fl_service f = Some DOORBELL_SERVICE_LAN_TCP" and "fl_net f = Some info"
    and "client_service cfg" and "bluetooth_ap cfg" and "low_power cfg" and "chans_ok cfg" and "dv_malloc (ca_dev c)"
    and "st = db_keepalive_handle_wakeup_reason cfg 0 (Some POWERUP_MULTIMEDIA_WAKEUP_HOST_FLAG) (ap_boot f)"
  shows "\<exists>st' es. ap_run cfg (answer_acts a b c) st = Some st' \<and>
     ap_log st' = ap_log st @ [Bluetooth_deinit, Net_info_set info, Trans_service_init Tcp_service,
       Trans_chan_start Chan_ctrl, Trans_chan_start Chan_video, Trans_chan_start Chan_audio, wake_answer] @ es \<and>
     wake_answer \<notin> set es \<and> (\<forall>b. Ipc_start b \<notin> set es) \<and> s_pending_wakeup_cmd st' = 0"
proof -
  have boot: "db_service (ap_boot f) = DOORBELL_SERVICE_NONE" "chan_connected_mask (ap_boot f) = 0"
    by (simp_all add: ap_boot_def ap_power_on_def doorbell_core_init_def service_defs Let_def)
  have f: "fl_service (ap_flash (ap_boot f)) = Some DOORBELL_SERVICE_LAN_TCP" "fl_net (ap_flash (ap_boot f)) = Some info"
    "wake_answer \<notin> set (ap_log (ap_boot f))"
    using assms(1,2) by (simp_all add: boot_core)
  from wakeup_answered [OF f(1) boot(1) boot_core(1) f(2) boot(2) assms(3-7) f(3), of a b]
  show ?thesis
    unfolding assms(8) multimedia_log [OF assms(1)] answer_acts_def
    by (simp only: append.assoc append_Cons append_Nil ap_run.simps ap_do.simps bind.simps boot_core) 
qed

lemma request_reaches_answer:
  assumes "tc_unbroken cfg sdk co addr g s" and "tc_ap s = Ap_off f" and "ka_tx (tc_cp s) = Tx_wait sm" and "ka_rx (tc_cp s) = Rx_recv n b"
    and "s_db_pack_chan (ka_pack (tc_cp s)) = Some ch" and "chan_ok 1460 ch"
    and "good_stream 1460 (pending ch @ bs)" and "bs \<noteq> []" and "length bs \<le> 1460"
    and "d \<in> set (fst (deframe (pending ch @ bs)))" and "wake_request d"
    and "fl_service f = Some DOORBELL_SERVICE_LAN_TCP" and "fl_net f = Some info" and "addr \<noteq> 0"
    and "client_service cfg" and "bluetooth_ap cfg" and "low_power cfg" and "chans_ok cfg" and "dv_malloc (ca_dev c)"
  shows "\<exists>s' st es. tc_run cfg sdk co addr
      ([Cp_act (Rx_get [Received bs] ms sent), Ap_main True True True 0 0 True an] @
       map (\<lambda>x. Ap_act x True an) (answer_acts a a' c)) s = Some s' \<and>
    tc_ap s' = Ap_running st \<and>
    ap_log st = [Ipc_stop (replicate CFG_SIZE 0), Bluetooth_deinit, Net_info_set info, Trans_service_init Tcp_service,
      Trans_chan_start Chan_ctrl, Trans_chan_start Chan_video, Trans_chan_start Chan_audio, wake_answer] @ es \<and>
    wake_answer \<notin> set es \<and> \<not> keepalive_ongoing (s_keepalive_env (tc_cp s'))"
proof -
  have inv: "ka_inv (tc_cp s)" using tc_inv_unbroken [OF assms(1)] by (simp add: tc_inv_def)
  obtain cp where 1: "tc_do cfg sdk co addr (Cp_act (Rx_get [Received bs] ms sent)) s =
      Some (s\<lparr>tc_cp := cp, tc_ap := Ap_powered f\<rparr>)"
    "wakeup_reason cp = POWERUP_MULTIMEDIA_WAKEUP_HOST_FLAG" "s_keepalive_env cp = s_keepalive_env (tc_cp s)"
    using request_powers_up [OF assms(2) inv assms(3-11)] by blast
  let ?s1 = "s\<lparr>tc_cp := cp, tc_ap := Ap_powered f\<rparr>"
  define st where st: "st = db_keepalive_handle_wakeup_reason cfg 0 (Some POWERUP_MULTIMEDIA_WAKEUP_HOST_FLAG) (ap_boot f)"
  let ?cp1 = "cp_emit [Cif_confirm (le32 addr)] cp"
  obtain cp2 where 2: "ka_do sdk co addr (Ipc an (Some \<lparr>cmd_id = DB_IPC_CMD_KEEPALIVESTOP, ipc_payload = replicate CFG_SIZE 0\<rparr>))
      ?cp1 = Some cp2" "\<not> keepalive_ongoing (s_keepalive_env cp2)"
    using stop_message [of ?cp1 sdk co addr an "replicate CFG_SIZE 0"] inv_tx_wait [OF inv assms(3)] 1(3)
    by (simp add: tx_live_def)
  have log: "ap_log st = [Ipc_stop (replicate CFG_SIZE 0)]"
    unfolding st by (rule multimedia_log [OF assms(12)])
  have "waking cp cp2" using waking_do [OF 2(1)] by (auto dest: waking_emitD)
  then have p: "power_after cp cp2 (Ap_running st) = Ap_running st" by (rule running_waking)
  have 3: "tc_do cfg sdk co addr (Ap_main True True True 0 0 True an) ?s1 = Some (?s1\<lparr>tc_cp := cp2, tc_ap := Ap_running st\<rparr>)"
    using main_reads_reason [of ?s1 f addr st cfg 0 sdk co an True cp2] assms(14) 1(2) 2(1) log p
    by (simp add: st del: tc_do.simps ka_do.simps)
  let ?s2 = "?s1\<lparr>tc_cp := cp2, tc_ap := Ap_running st\<rparr>"
  obtain st' es where 4: "ap_run cfg (answer_acts a a' c) st = Some st'"
     "ap_log st' = ap_log st @ [Bluetooth_deinit, Net_info_set info, Trans_service_init Tcp_service,
       Trans_chan_start Chan_ctrl, Trans_chan_start Chan_video, Trans_chan_start Chan_audio, wake_answer] @ es"
     "wake_answer \<notin> set es" "\<forall>b. Ipc_start b \<notin> set es"
    using woken_core_answers [OF assms(12,13,15-19) st] by blast
  have "tc_run cfg sdk co addr (map (\<lambda>x. Ap_act x True an) (answer_acts a a' c)) ?s2 = Some (?s2\<lparr>tc_ap := Ap_running st'\<rparr>)"
    by (rule ap_acts_alone [OF 4(1)]) (use 4(2,4) in \<open>auto simp: answer_acts_def wake_answer_def\<close>)
  then have "tc_run cfg sdk co addr ([Cp_act (Rx_get [Received bs] ms sent), Ap_main True True True 0 0 True an] @
       map (\<lambda>x. Ap_act x True an) (answer_acts a a' c)) s = Some (?s2\<lparr>tc_ap := Ap_running st'\<rparr>)"
    unfolding append_Cons append_Nil tc_run_step [OF 1(1)] tc_run_step [OF 3] .
  with 4(2,3) 2(2) log show ?thesis by auto
qed

section \<open>A run of both cores\<close>

text \<open>Actions that cannot lose the connection.\<close>

definition harmless :: "tc_act \<Rightarrow> bool" where
  "harmless a \<longleftrightarrow> (case a of Cp_act (Rx_get as ms sent) \<Rightarrow> False | Cp_act (Tx_get ok) \<Rightarrow> ok | _ \<Rightarrow> True)"

lemma harmless_unbroken:
  assumes "tc_run cfg sdk co addr as s = Some s'" and "list_all harmless as" and "tc_unbroken cfg sdk co addr f s"
  shows "tc_unbroken cfg sdk co addr f s'"
  using assms
proof (induction as arbitrary: s)
  case (Cons a as)
  then obtain s1 where "tc_do cfg sdk co addr a s = Some s1" "tc_run cfg sdk co addr as s1 = Some s'"
    by (auto simp del: tc_do.simps split: Option.bind_splits)
  moreover have "\<not> breaks a (tc_cp s)"
    using Cons.prems(2) by (auto simp: harmless_def breaks_def split: tc_act.splits ka_act.splits)
  ultimately show ?case using Cons by (auto intro: tc_unbroken.step)
qed simp

text \<open>Power-on, boarding, and the app connected.\<close>

definition demo_up_acts :: "tc_act list" where
  "demo_up_acts = [Ap_main True True True 0 0 True demo_answer,
     Ap_act (Save_net_info True (Some demo_net)) True demo_answer,
     Ap_post \<lparr>msg_event = DBEVT_LAN_TCP_SERVICE_START_REQUEST, msg_param = 0\<rparr>,
     Ap_act (Core_task core_ok) True demo_answer,
     Ap_post \<lparr>msg_event = DBEVT_REMOTE_DEVICE_CONNECTED, msg_param = 0\<rparr>,
     Ap_act (Core_task core_ok) True demo_answer]"

lemma tc_post:
  assumes "tc_ap s = Ap_running st" and "db_queue st = Some []"
  shows "tc_do cfg sdk co addr (Ap_post m) s = Some (s\<lparr>tc_ap := Ap_running (st\<lparr>db_queue := Some [m]\<rparr>)\<rparr>)"
  using assms by (simp add: doorbell_send_msg_def QUEUE_SIZE_def)

definition erased :: flash where
  "erased = \<lparr>fl_wifi = None, fl_service = None, fl_interval = None, fl_net = None, fl_writable = True\<rparr>"

lemma first_power_on:
  assumes "fl_writable f" and "client_service cfg"
  shows "db_keepalive_handle_wakeup_reason cfg r (Some POWERUP_POWER_WAKEUP_FLAG) (ap_boot f) = ap_boot erased"
  using assms power_on_erases_flash [of "ap_boot f" cfg r]
  by (simp add: boot_core erased_def) (simp add: ap_boot_def ap_power_on_def doorbell_core_init_def Let_def)

lemma demo_up:
  "\<exists>s st. tc_run lp_config demo_sdk True 0x28000000 demo_up_acts (tc_boot demo_flash) = Some s \<and>
     tc_ap s = Ap_running st \<and> tc_cp s = cp_emit [Cif_confirm (le32 0x28000000)] (pl_wakeup_host POWERUP_POWER_WAKEUP_FLAG ka_boot) \<and>
     s_timer_started st \<and> \<not> s_pending_keepalive_after_service_stop st \<and> db_queue st = Some [] \<and>
     fl_service (ap_flash st) = Some DOORBELL_SERVICE_LAN_TCP \<and> fl_net (ap_flash st) = Some demo_net \<and>
     mm_service_status st = 0 \<and> s_last_update_timestamp st = 0"
proof -
  let ?addr = "0x28000000 :: u32"
  let ?up = "pl_wakeup_host POWERUP_POWER_WAKEUP_FLAG ka_boot"
  let ?cp = "cp_emit [Cif_confirm (le32 ?addr)] ?up"
  let ?s = "\<lambda>st. \<lparr>tc_cp = ?cp, tc_ap = Ap_running st\<rparr>"
  have boot: "tc_boot demo_flash = \<lparr>tc_cp = ?up, tc_ap = Ap_powered demo_flash\<rparr>"
    by (simp add: tc_boot_def user_app_main_def power_after_def)
  have e: "db_keepalive_handle_wakeup_reason lp_config 0 (Some POWERUP_POWER_WAKEUP_FLAG) (ap_boot demo_flash) = ap_boot erased"
    by (rule first_power_on) (simp_all add: demo_flash_def lp_simps)
  have p: "power_after ?up ?cp p = p" for p by (simp add: power_after_def cp_emit_def)
  have 1: "tc_do lp_config demo_sdk True ?addr (Ap_main True True True 0 0 True demo_answer) (tc_boot demo_flash) = Some (?s (ap_boot erased))"
    using main_reads_reason [of "tc_boot demo_flash" demo_flash ?addr "ap_boot erased" lp_config 0 demo_sdk True demo_answer True ?cp]
    by (simp add: boot e boot_core p del: tc_do.simps)
  let ?st1 = "snd (doorbell_save_server_net_info_to_flash True (Some demo_net) (ap_boot erased))"
  have l: "ap_log ?st1 = [Net_info_set demo_net]" "db_queue ?st1 = Some []" "fl_net (ap_flash ?st1) = Some demo_net" "db_service ?st1 = DOORBELL_SERVICE_NONE"
    "fl_writable (ap_flash ?st1)" "s_pending_wakeup_cmd ?st1 = 0" "mm_service_status ?st1 = 0" "s_last_update_timestamp ?st1 = 0"
    "\<not> s_pending_keepalive_after_service_stop ?st1" "\<not> s_timer_started ?st1"
    by (simp_all add: doorbell_save_server_net_info_to_flash_def fl_set_def erased_def ap_boot_def ap_power_on_def
        doorbell_core_init_def service_defs Let_def)
  obtain st1 where st1: "st1 = ?st1" by simp
  note l = l [folded st1]
  have 2: "tc_do lp_config demo_sdk True ?addr (Ap_act (Save_net_info True (Some demo_net)) True demo_answer) (?s (ap_boot erased)) = Some (?s st1)"
    using ap_act_alone [of lp_config "Save_net_info True (Some demo_net)" "ap_boot erased" st1 "?s (ap_boot erased)"] l(1)
    by (simp add: st1 boot_core del: tc_do.simps)
  obtain st3 where 4: "ap_do lp_config (Core_task core_ok) (st1\<lparr>db_queue := Some [\<lparr>msg_event = DBEVT_LAN_TCP_SERVICE_START_REQUEST, msg_param = 0\<rparr>]\<rparr>) = Some st3"
    and l3: "ap_log st3 = [Net_info_set demo_net, Net_info_set demo_net, Trans_service_init Tcp_service, Trans_chan_start Chan_ctrl, Trans_chan_start Chan_video, Trans_chan_start Chan_audio]"
    "db_queue st3 = Some []" "fl_service (ap_flash st3) = Some DOORBELL_SERVICE_LAN_TCP" "fl_net (ap_flash st3) = Some demo_net"
    "s_pending_wakeup_cmd st3 = 0" "mm_service_status st3 = 0" "s_last_update_timestamp st3 = 0"
    "\<not> s_pending_keepalive_after_service_stop st3" "\<not> s_timer_started st3"
    using l by (simp add: service_message start_service_def lp_simps doorbell_save_ntwk_service_info_to_flash_def fl_set_def
        doorbell_bk_network_transfer_init_def doorbell_get_server_net_info_from_flash_def
        doorbell_network_transfer_start_def Let_def del: ap_do.simps)
  obtain st5 es where 6: "ap_do lp_config (Core_task core_ok) (st3\<lparr>db_queue := Some [\<lparr>msg_event = DBEVT_REMOTE_DEVICE_CONNECTED, msg_param = 0\<rparr>]\<rparr>) = Some st5"
    and l5: "ap_log st5 = ap_log st3 @ es" "\<forall>b. Ipc_start b \<notin> set es"
    "db_queue st5 = Some []" "fl_service (ap_flash st5) = Some DOORBELL_SERVICE_LAN_TCP" "fl_net (ap_flash st5) = Some demo_net"
    "mm_service_status st5 = 0" "s_last_update_timestamp st5 = 0"
    "\<not> s_pending_keepalive_after_service_stop st5" "s_timer_started st5"
    using l3 check_starts [of "st3\<lparr>db_queue := Some []\<rparr>"] by (auto simp: connected_message lp_simps simp del: ap_do.simps)
  have "tc_run lp_config demo_sdk True ?addr demo_up_acts (tc_boot demo_flash) = Some (?s st5)"
    unfolding demo_up_acts_def tc_run_step [OF 1] tc_run_step [OF 2]
    using l(2) l3(2) 4 6 l(1) l3(1) l5(1,2)
    by (simp add: tc_post ap_act_alone del: tc_do.simps ap_do.simps)
  with l5 show ?thesis by (intro exI [of _ "?s st5"] exI [of _ st5]) simp
qed

text \<open>The rest of the run: the hand-over, with the receive thread waiting.\<close>

definition demo_conn_answer :: "nat \<Rightarrow> conn_answer" where
  "demo_conn_answer = (\<lambda>_. \<lparr>an_socket = 5, an_bind = (\<lambda>_. True), an_connect = True\<rparr>)"

definition demo_off_acts :: "tc_act list" where
  "demo_off_acts = [Ap_act (Status_timer 5000) True demo_answer, Ap_act (Core_task core_ok) True demo_answer] @
     map Cp_act [Tx_connect demo_conn_answer 0, Tx_create_rx True 0, Tx_sleep True True 0 True, Tx_next]"

lemma demo_net_port: "c_string (cmd_port demo_net) = decimal 7180"
  by (simp add: demo_strings decimal.simps ascii_def)

lemma demo_idle_cores:
  "\<exists>s st. tc_unbroken lp_config demo_sdk True 0x28000000 demo_flash s \<and> ka_inv (tc_cp s) \<and>
     ka_tx (tc_cp s) = Tx_none \<and> ka_rx (tc_cp s) = Rx_none \<and> \<not> keepalive_ongoing (s_keepalive_env (tc_cp s)) \<and>
     tc_ap s = Ap_running st \<and> \<not> busy 5000 st \<and> s_timer_started st \<and> \<not> s_pending_keepalive_after_service_stop st \<and>
     db_queue st = Some [] \<and> fl_service (ap_flash st) = Some DOORBELL_SERVICE_LAN_TCP \<and> fl_net (ap_flash st) = Some demo_net"
proof -
  obtain s st where r: "tc_run lp_config demo_sdk True 0x28000000 demo_up_acts (tc_boot demo_flash) = Some s"
    and s: "tc_ap s = Ap_running st"
      "tc_cp s = cp_emit [Cif_confirm (le32 0x28000000)] (pl_wakeup_host POWERUP_POWER_WAKEUP_FLAG ka_boot)"
      "s_timer_started st" "\<not> s_pending_keepalive_after_service_stop st" "db_queue st = Some []"
      "fl_service (ap_flash st) = Some DOORBELL_SERVICE_LAN_TCP" "fl_net (ap_flash st) = Some demo_net"
      "mm_service_status st = 0" "s_last_update_timestamp st = 0"
    using demo_up by blast
  have "tc_unbroken lp_config demo_sdk True 0x28000000 demo_flash s"
    by (rule harmless_unbroken [OF r _ tc_unbroken.boot]) (simp add: demo_up_acts_def harmless_def)
  moreover from tc_inv_unbroken [OF this] have "ka_inv (tc_cp s)" by (simp add: tc_inv_def)
  moreover have "ka_tx (tc_cp s) = Tx_none" "ka_rx (tc_cp s) = Rx_none" "\<not> keepalive_ongoing (s_keepalive_env (tc_cp s))"
    by (simp_all add: s(2) ka_boot_def zero_env_def)
  ultimately show ?thesis using s by (auto simp: busy_def)
qed

lemma demo_answers_ok: "answers_ok demo_answer"
  by (simp add: answers_ok_def demo_answer_def demo_alloc_def)

lemma demo_off:
  "\<exists>s f sm n b ch. tc_unbroken lp_config demo_sdk True 0x28000000 demo_flash s \<and> tc_ap s = Ap_off f \<and>
     ka_tx (tc_cp s) = Tx_wait sm \<and> ka_rx (tc_cp s) = Rx_recv n b \<and> fl_service f = Some DOORBELL_SERVICE_LAN_TCP \<and>
     fl_net f = Some demo_net \<and> s_db_pack_chan (ka_pack (tc_cp s)) = Some ch \<and> chan_ok 1460 ch \<and> pending ch = []"
proof -
  obtain s0 st where s0: "tc_unbroken lp_config demo_sdk True 0x28000000 demo_flash s0" "ka_inv (tc_cp s0)"
     "ka_tx (tc_cp s0) = Tx_none" "ka_rx (tc_cp s0) = Rx_none" "\<not> keepalive_ongoing (s_keepalive_env (tc_cp s0))"
     "tc_ap s0 = Ap_running st" "\<not> busy 5000 st" "s_timer_started st" "\<not> s_pending_keepalive_after_service_stop st"
     "db_queue st = Some []" "fl_service (ap_flash st) = Some DOORBELL_SERVICE_LAN_TCP" "fl_net (ap_flash st) = Some demo_net"
    using demo_idle_cores by blast
  have ip: "length (c_string (ip_addr demo_net)) \<le> 31" by (simp add: demo_strings ascii_def)
  have conn: "an_socket (demo_conn_answer 0) \<ge> 0" "an_bind (demo_conn_answer 0) 0" "an_connect (demo_conn_answer 0)"
    by (simp_all add: demo_conn_answer_def)
  have port: "(7180::nat) < 65536" by simp
  obtain s1 sm where r: "tc_run lp_config demo_sdk True 0x28000000 demo_off_acts s0 = Some s1"
    and s1: "tc_ap s1 = Ap_off (ap_flash st)" "ka_tx (tc_cp s1) = Tx_wait sm" "ka_rx (tc_cp s1) = Rx_loop"
      "keepalive_ongoing (s_keepalive_env (tc_cp s1))" "rx_fresh (tc_cp s1)"
    unfolding demo_off_acts_def
    using hand_over [of s0 demo_answer st 5000 demo_net 7180 lp_config core_ok demo_conn_answer,
        OF s0(2-5) demo_answers_ok s0(6-12) demo_strings(4) ip demo_net_port port lp_simps(1,2) conn] by blast
  have u1: "tc_unbroken lp_config demo_sdk True 0x28000000 demo_flash s1"
    by (rule harmless_unbroken [OF r _ s0(1)]) (simp add: demo_off_acts_def harmless_def)
  have i1: "ka_inv (tc_cp s1)" using tc_inv_unbroken [OF u1] by (simp add: tc_inv_def)
  let ?cp = "(tc_cp s1)\<lparr>ka_rx := Rx_recv (sock (s_keepalive_env (tc_cp s1))) (rx_raw_buffer (s_keepalive_env (tc_cp s1)))\<rparr>"
  have 2: "ka_do demo_sdk True 0x28000000 Rx_next (tc_cp s1) = Some ?cp"
    using s1(3,4) inv_tx_wait [OF i1 s1(2)] by (simp add: rx_loop_def tx_live_def Let_def)
  have "tc_do lp_config demo_sdk True 0x28000000 (Cp_act Rx_next) s1 = Some (s1\<lparr>tc_cp := ?cp\<rparr>)"
    using 2 s1(1) by (simp add: power_after_def del: ka_do.simps)
  then have "tc_unbroken lp_config demo_sdk True 0x28000000 demo_flash (s1\<lparr>tc_cp := ?cp\<rparr>)"
    by (rule tc_unbroken.step [OF u1, rotated]) (simp add: breaks_def)
  then show ?thesis
    using s0(11,12) s1(1,2,5) by (intro exI [of _ "s1\<lparr>tc_cp := ?cp\<rparr>"]) (auto simp: rx_fresh_def)
qed

section \<open>Power and the keep-alive\<close>



section \<open>At the edges\<close>

text \<open>Actions of the control core while the other is off and is not woken.\<close>

definition waiting_act :: "ka_act \<Rightarrow> bool" where
  "waiting_act a \<longleftrightarrow> \<not> connecting a \<and> (\<forall>an m. a \<noteq> Ipc an m)"

lemma run_waking: "ka_run sdk co addr as cp = Some cp' \<Longrightarrow> list_all waiting_act as \<Longrightarrow> waking cp cp'"
proof (induction as arbitrary: cp)
  case (Cons a as)
  then obtain cp1 where "ka_do sdk co addr a cp = Some cp1" "ka_run sdk co addr as cp1 = Some cp'"
    by (auto simp del: ka_do.simps split: Option.bind_splits)
  with Cons show ?case by (auto simp: waiting_act_def intro: waking_trans waking_do simp del: ka_do.simps)
qed simp

lemma off_acts:
  assumes "ka_run sdk co addr as (tc_cp s) = Some cp'" and "list_all waiting_act as"
    and "tc_ap s = Ap_off f" and "wakeup_reason (tc_cp s) = 0" and "wakeup_reason cp' = 0"
  shows "tc_run cfg sdk co addr (map Cp_act as) s = Some (s\<lparr>tc_cp := cp'\<rparr>)"
  using assms
proof (induction as arbitrary: s)
  case (Cons a as)
  then obtain cp1 where 1: "ka_do sdk co addr a (tc_cp s) = Some cp1" "ka_run sdk co addr as cp1 = Some cp'"
    by (auto simp del: ka_do.simps split: Option.bind_splits)
  have a: "\<not> connecting a" "\<forall>an m. a \<noteq> Ipc an m" "list_all waiting_act as"
    using Cons.prems(2) by (simp_all add: waiting_act_def [of a])
  have w: "waking (tc_cp s) cp1" "waking cp1 cp'"
    using waking_do [OF 1(1) a(1)] run_waking [OF 1(2) a(3)] by simp_all
  then obtain es where es: "cp_log cp1 = cp_log (tc_cp s) @ es" by (auto simp: waking_def)
  have no: "Cif_power_up_host \<notin> set es" "wakeup_reason cp1 = 0"
    using w es Cons.prems(4,5) by (auto simp: waking_def powerup_defs split: if_splits)
  then have "power_after (tc_cp s) cp1 (Ap_off f) = Ap_off f"
    using power_waking [OF w(1)] es by simp
  then have "tc_do cfg sdk co addr (Cp_act a) s = Some (s\<lparr>tc_cp := cp1\<rparr>)"
    using 1(1) a(2) Cons.prems(3) by (cases a) (simp_all del: ka_do.simps)
  with Cons.IH [of "s\<lparr>tc_cp := cp1\<rparr>"] 1(2) a(3) Cons.prems(3,5) no(2) show ?case
    by (simp del: tc_do.simps)
qed simp

text \<open>
  When the server closes the connection, or it fails, while the application core is off, the
  keep-alive ends and both cores stay as they are: no action of either changes anything any more.
\<close>
lemma lost_connection_strands:
  assumes "tc_unbroken cfg sdk co addr g s" and "tc_ap s = Ap_off f" and "ka_tx (tc_cp s) = Tx_wait sm" and "ka_rx (tc_cp s) = Rx_recv n b"
  shows "\<exists>s'. tc_run cfg sdk co addr
      (map Cp_act [Rx_get [Closed_by_peer] ms sent, Rx_end, Tx_get True, Tx_beat ms sent, Tx_end]) s = Some s' \<and>
    tc_ap s' = Ap_off f \<and> (\<forall>a s''. tc_do cfg sdk co addr a s' = Some s'' \<longrightarrow> s'' = s')"
proof -
  have inv: "ka_inv (tc_cp s)" "wakeup_reason (tc_cp s) = 0"
    using tc_inv_unbroken [OF assms(1)] assms(2) by (simp_all add: tc_inv_def phase_ok_def)
  let ?cp1 = "(tc_cp s)\<lparr>ka_rx := Rx_exit\<rparr>"
  have 1: "ka_do sdk co addr (Rx_get [Closed_by_peer] ms sent) (tc_cp s) = Some ?cp1"
    using assms(4) by (simp add: rx_recv_def db_keepalive_recv_raw_data_def)
  have x: "ka_rx ?cp1 = Rx_exit" "ka_tx ?cp1 = Tx_wait sm" using assms(3) by simp_all
  have i1: "ka_inv ?cp1" by (rule ka_inv_step [OF 1 inv(1)])
  obtain cp where r: "ka_run sdk co addr [Rx_end, Tx_get True, Tx_beat ms sent, Tx_end] ?cp1 = Some cp"
    and e: "ka_tx cp = Tx_none" "ka_rx cp = Rx_none" "\<not> keepalive_ongoing (s_keepalive_env cp)" "wakeup_reason cp = 0"
    using rx_ends [OF i1 x, of sdk co addr ms sent] inv(2) by auto
  have run: "ka_run sdk co addr [Rx_get [Closed_by_peer] ms sent, Rx_end, Tx_get True, Tx_beat ms sent, Tx_end] (tc_cp s) = Some cp"
    unfolding ka_run_step [OF 1] by (rule r)
  have "ka_inv cp" by (rule ka_inv_run [OF r i1])
  then have t: "\<not> timer (s_keepalive_env cp)"
    using e by (auto simp: ka_inv_def tx_inv.simps res_none_def)
  have stuck: "cp'' = cp" if "ka_do sdk co addr a cp = Some cp''" "\<forall>an m. a \<noteq> Ipc an m" for a cp''
    using that e t by (cases a) (auto simp: db_keepalive_rtc_timer_handler_def split: if_splits)
  let ?s = "s\<lparr>tc_cp := cp\<rparr>"
  have "s'' = ?s" if "tc_do cfg sdk co addr a ?s = Some s''" for a s''
  proof (cases a)
    case (Cp_act ca)
    with that obtain cp'' where c: "ka_do sdk co addr ca cp = Some cp''" "\<forall>an m. ca \<noteq> Ipc an m"
      and s'': "s'' = ?s\<lparr>tc_cp := cp'', tc_ap := power_after cp cp'' (tc_ap s)\<rparr>"
      by (cases ca) (auto simp del: ka_do.simps)
    from stuck [OF c] s'' show ?thesis by simp
  qed (use that assms(2) in simp_all)
  with off_acts [OF run _ assms(2) inv(2) e(4), of cfg] assms(2) show ?thesis
    by (auto simp: waiting_act_def simp del: tc_do.simps tc_run.simps list.map)
qed

text \<open>
  A wake-up request that arrives after the connection is made but before the transmit thread has
  powered the application core down is lost: the reason it sets is reset, and the core goes off.
\<close>
lemma early_request_lost:
  assumes "ka_inv (tc_cp s)" and "setting_up (tc_cp s)" and "ka_tx (tc_cp s) = Tx_run" and "ka_rx (tc_cp s) = Rx_recv n b"
    and "s_db_pack_chan (ka_pack (tc_cp s)) = Some ch" and "chan_ok 1460 ch"
    and "good_stream 1460 (pending ch @ bs)" and "bs \<noteq> []" and "length bs \<le> 1460"
    and "d \<in> set (fst (deframe (pending ch @ bs)))" and "wake_request d" and "tc_ap s = Ap_running st"
  shows "\<exists>s'. tc_run cfg sdk co addr (map Cp_act [Rx_get [Received bs] ms sent, Tx_sleep True True ms' sent']) s = Some s' \<and>
    tc_ap s' = Ap_off (ap_flash st) \<and> wakeup_reason (tc_cp s') = 0"
proof -
  have live: "tx_live (tc_cp s)" using inv_connected assms(1,3) by blast
  have "ka_tx (tc_cp s) \<noteq> Tx_none" using assms(3) by simp
  from request_received [OF assms(1) live assms(4) this assms(5-11)]
  obtain cp where 1: "ka_do sdk co addr (Rx_get [Received bs] ms sent) (tc_cp s) = Some cp" "waking (tc_cp s) cp"
    "s_keepalive_env cp = s_keepalive_env (tc_cp s)" "ka_tx cp = Tx_run"
    unfolding assms(3) by blast
  have l: "tx_live cp" using inv_connected ka_inv_step [OF 1(1) assms(1)] 1(4) by blast
  have on: "keepalive_ongoing (s_keepalive_env cp)" using assms(2,3) 1(3) by (simp add: setting_up_def)
  obtain cp' where 2: "tx_run sdk True True ms' sent' cp = Some cp'" "wakeup_reason cp' = 0"
    using tx_run_ok [OF l on, of sdk ms' sent'] by auto
  have "power_after cp cp' (Ap_running st) = Ap_off (ap_flash st)" using sleep_off [OF 2(1) l on] by simp
  with 1 2 assms(12) show ?thesis by (simp add: running_waking del: ka_do.simps(10))
qed

end
