(* ===== verification/Frame_List.thy ===== *)
theory Frame_List
  imports Doorbell_Prelude
begin

text \<open>
  The doubly linked lists of frame nodes of
  \<^verbatim>\<open>components/smart_lock/src/frame/frame_que_v2.c\<close>: the node structure, the list
  structure, the list primitives on a heap of nodes, and the two shapes of loop the file
  runs over a list (search for the first node with a property; visit every node and
  possibly unlink it).

  Memory. The link fields and the data fields of \<^verbatim>\<open>frame_node_t\<close> are kept in three
  stores indexed by the node's address (\<open>hp_next\<close>, \<open>hp_prev\<close>, \<open>hp_node\<close>). A pointer is
  an \<open>option\<close>, \<open>None\<close> being \<^verbatim>\<open>NULL\<close>. A primitive takes the heap and the list
  structure its \<^verbatim>\<open>list\<close> argument points to, and returns both. Every caller passes the
  address of a field of the static queue array, so \<^verbatim>\<open>list == NULL\<close> cannot occur; the
  guard on the node is a branch of the definition.

  Loops. A walk along \<^verbatim>\<open>next\<close> pointers ends only on a well-formed list, so the loops are
  \<open>partial_function (option)\<close> with \<open>None\<close> for a walk that does not end. \<open>dll\<close> states
  that a list structure holds given nodes in order; under it every walk ends, and every
  primitive is the corresponding operation on the list of nodes.
\<close>

section \<open>Nodes, heap and list structure\<close>

type_synonym node_ptr = nat
type_synonym frame_ptr = nat

record frame_node =
  nd_frame :: "frame_ptr option"
  ref_count :: u32
  consumer_mask :: u32
  accessed_mask :: u32
  nd_timestamp :: u64
  create_time :: u64
  in_use :: u8

record node_heap =
  hp_next :: "node_ptr \<Rightarrow> node_ptr option"
  hp_prev :: "node_ptr \<Rightarrow> node_ptr option"
  hp_node :: "node_ptr \<Rightarrow> frame_node"

record frame_list =
  fl_head :: "node_ptr option"
  fl_tail :: "node_ptr option"
  fl_count :: u32

definition set_next :: "node_ptr \<Rightarrow> node_ptr option \<Rightarrow> node_heap \<Rightarrow> node_heap" where
  "set_next n p h = h\<lparr>hp_next := (hp_next h)(n := p)\<rparr>"

definition set_prev :: "node_ptr \<Rightarrow> node_ptr option \<Rightarrow> node_heap \<Rightarrow> node_heap" where
  "set_prev n p h = h\<lparr>hp_prev := (hp_prev h)(n := p)\<rparr>"

definition set_node :: "node_ptr \<Rightarrow> frame_node \<Rightarrow> node_heap \<Rightarrow> node_heap" where
  "set_node n d h = h\<lparr>hp_node := (hp_node h)(n := d)\<rparr>"

section \<open>The list primitives\<close>

definition frame_list_init :: frame_list where
  "frame_list_init = \<lparr>fl_head = None, fl_tail = None, fl_count = 0\<rparr>"

definition frame_list_deinit :: "frame_list \<Rightarrow> frame_list" where
  "frame_list_deinit l = l\<lparr>fl_head := None, fl_tail := None, fl_count := 0\<rparr>"

definition frame_list_add_tail_nolock ::
    "node_ptr option \<Rightarrow> node_heap \<times> frame_list \<Rightarrow> node_heap \<times> frame_list" where
  "frame_list_add_tail_nolock node = (\<lambda>(h, l).
     (case node of
        None \<Rightarrow> (h, l)
      | Some n \<Rightarrow>
          (let h = set_next n None h;
               h = set_prev n (fl_tail l) h;
               h = (case fl_tail l of None \<Rightarrow> h | Some t \<Rightarrow> set_next t (Some n) h);
               l = l\<lparr>fl_tail := Some n\<rparr>;
               l = (if fl_head l = None then l\<lparr>fl_head := Some n\<rparr> else l)
           in (h, l\<lparr>fl_count := fl_count l + 1\<rparr>))))"

definition frame_list_add_head_nolock ::
    "node_ptr option \<Rightarrow> node_heap \<times> frame_list \<Rightarrow> node_heap \<times> frame_list" where
  "frame_list_add_head_nolock node = (\<lambda>(h, l).
     (case node of
        None \<Rightarrow> (h, l)
      | Some n \<Rightarrow>
          (let h = set_next n (fl_head l) h;
               h = set_prev n None h;
               h = (case fl_head l of None \<Rightarrow> h | Some t \<Rightarrow> set_prev t (Some n) h);
               l = l\<lparr>fl_head := Some n\<rparr>;
               l = (if fl_tail l = None then l\<lparr>fl_tail := Some n\<rparr> else l)
           in (h, l\<lparr>fl_count := fl_count l + 1\<rparr>))))"

definition frame_list_remove_nolock ::
    "node_ptr option \<Rightarrow> node_heap \<times> frame_list \<Rightarrow> node_heap \<times> frame_list" where
  "frame_list_remove_nolock node = (\<lambda>(h, l).
     (case node of
        None \<Rightarrow> (h, l)
      | Some n \<Rightarrow>
          (let (h, l) = (case hp_prev h n of
                           Some p \<Rightarrow> (set_next p (hp_next h n) h, l)
                         | None \<Rightarrow> (h, l\<lparr>fl_head := hp_next h n\<rparr>));
               (h, l) = (case hp_next h n of
                           Some x \<Rightarrow> (set_prev x (hp_prev h n) h, l)
                         | None \<Rightarrow> (h, l\<lparr>fl_tail := hp_prev h n\<rparr>));
               l = l\<lparr>fl_count := fl_count l - 1\<rparr>;
               h = set_next n None h;
               h = set_prev n None h
           in (h, l))))"

text \<open>
  The locked versions take the spinlock around the lockless one; in the model a critical
  section is one step of the state.
\<close>

definition frame_list_add_tail ::
    "node_ptr option \<Rightarrow> node_heap \<times> frame_list \<Rightarrow> node_heap \<times> frame_list" where
  "frame_list_add_tail node hl =
     (case node of None \<Rightarrow> hl | Some n \<Rightarrow> frame_list_add_tail_nolock (Some n) hl)"

definition frame_list_add_head ::
    "node_ptr option \<Rightarrow> node_heap \<times> frame_list \<Rightarrow> node_heap \<times> frame_list" where
  "frame_list_add_head node hl =
     (case node of None \<Rightarrow> hl | Some n \<Rightarrow> frame_list_add_head_nolock (Some n) hl)"

definition frame_list_remove ::
    "node_ptr option \<Rightarrow> node_heap \<times> frame_list \<Rightarrow> node_heap \<times> frame_list" where
  "frame_list_remove node hl =
     (case node of None \<Rightarrow> hl | Some n \<Rightarrow> frame_list_remove_nolock (Some n) hl)"

definition frame_list_peek_head :: "frame_list \<Rightarrow> node_ptr option" where
  "frame_list_peek_head l = fl_head l"

definition frame_list_pop_head ::
    "node_heap \<times> frame_list \<Rightarrow> node_ptr option \<times> node_heap \<times> frame_list" where
  "frame_list_pop_head = (\<lambda>(h, l).
     (case fl_head l of
        None \<Rightarrow> (None, h, l)
      | Some n \<Rightarrow>
          (let l = l\<lparr>fl_head := hp_next h n\<rparr>;
               (h, l) = (case fl_head l of
                           Some x \<Rightarrow> (set_prev x None h, l)
                         | None \<Rightarrow> (h, l\<lparr>fl_tail := None\<rparr>));
               l = l\<lparr>fl_count := fl_count l - 1\<rparr>;
               h = set_next n None h;
               h = set_prev n None h
           in (Some n, h, l))))"

section \<open>The loops\<close>

text \<open>
  \<^verbatim>\<open>while (temp != NULL) { if (P(temp)) { ...; break; } temp = temp->next; }\<close>: the address
  the loop stops at.
\<close>

partial_function (option) list_search ::
    "node_heap \<Rightarrow> (frame_node \<Rightarrow> bool) \<Rightarrow> node_ptr option \<Rightarrow> node_ptr option option" where
  "list_search h P p =
     (case p of None \<Rightarrow> Some None
      | Some n \<Rightarrow> if P (hp_node h n) then Some (Some n) else list_search h P (hp_next h n))"

text \<open>
  \<^verbatim>\<open>while (node != NULL) { next_node = node->next; body(node); node = next_node; }\<close>: the
  successor is read before the body, which may unlink the node.
\<close>

partial_function (option) list_for_each_safe ::
    "('s \<Rightarrow> node_ptr \<Rightarrow> node_ptr option) \<Rightarrow> (node_ptr \<Rightarrow> 's \<Rightarrow> 's) \<Rightarrow> node_ptr option \<Rightarrow> 's \<Rightarrow> 's option"
  where
  "list_for_each_safe nxt body p s =
     (case p of None \<Rightarrow> Some s
      | Some n \<Rightarrow> list_for_each_safe nxt body (nxt s n) (body n s))"

text \<open>\<^verbatim>\<open>while (node != NULL) { body(node); node = node->next; }\<close>\<close>

partial_function (option) list_for_each ::
    "('s \<Rightarrow> node_ptr \<Rightarrow> node_ptr option) \<Rightarrow> (node_ptr \<Rightarrow> 's \<Rightarrow> 's) \<Rightarrow> node_ptr option \<Rightarrow> 's \<Rightarrow> 's option"
  where
  "list_for_each nxt body p s =
     (case p of None \<Rightarrow> Some s
      | Some n \<Rightarrow> (let s' = body n s in list_for_each nxt body (nxt s' n) s'))"

section \<open>What a list structure holds\<close>

text \<open>
  \<open>dlinked h pv xs q\<close>: the nodes \<open>xs\<close> are linked in this order, the first one's \<open>prev\<close>
  is \<open>pv\<close> and the last one's \<open>next\<close> is \<open>q\<close>. \<open>dll h l xs\<close>: the list structure \<open>l\<close> holds
  exactly \<open>xs\<close>.
\<close>

fun first_of :: "'p list \<Rightarrow> 'p option \<Rightarrow> 'p option" where
  "first_of [] q = q"
| "first_of (x # xs) q = Some x"

fun last_of :: "'p option \<Rightarrow> 'p list \<Rightarrow> 'p option" where
  "last_of pv [] = pv"
| "last_of pv (x # xs) = last_of (Some x) xs"

fun dlinked :: "node_heap \<Rightarrow> node_ptr option \<Rightarrow> node_ptr list \<Rightarrow> node_ptr option \<Rightarrow> bool" where
  "dlinked h pv [] q = True"
| "dlinked h pv (x # xs) q =
     (hp_prev h x = pv \<and> hp_next h x = first_of xs q \<and> dlinked h (Some x) xs q)"

definition dll :: "node_heap \<Rightarrow> frame_list \<Rightarrow> node_ptr list \<Rightarrow> bool" where
  "dll h l xs \<longleftrightarrow> fl_head l = first_of xs None \<and> fl_tail l = last_of None xs \<and>
     fl_count l = of_nat (length xs) \<and> distinct xs \<and> dlinked h None xs None"

lemma first_of_append [simp]: "first_of (xs @ ys) q = first_of xs (first_of ys q)"
  by (cases xs) auto

lemma last_of_append [simp]: "last_of pv (xs @ ys) = last_of (last_of pv xs) ys"
  by (induction xs arbitrary: pv) auto

lemma first_of_None [simp]:
  "first_of xs q = None \<longleftrightarrow> xs = [] \<and> q = None" "None = first_of xs q \<longleftrightarrow> xs = [] \<and> q = None"
  by (cases xs; auto)+

lemma last_of_None [simp]:
  "last_of pv xs = None \<longleftrightarrow> xs = [] \<and> pv = None" "None = last_of pv xs \<longleftrightarrow> xs = [] \<and> pv = None"
  by (induction xs rule: rev_induct) auto

lemma last_of_Some: "last_of pv xs = Some t \<Longrightarrow> xs = [] \<and> pv = Some t \<or> (\<exists>ys. xs = ys @ [t])"
  by (induction xs rule: rev_induct) auto

lemma dlinked_append [simp]:
  "dlinked h pv (xs @ ys) q \<longleftrightarrow>
     dlinked h pv xs (first_of ys q) \<and> dlinked h (last_of pv xs) ys q"
  by (induction xs arbitrary: pv) auto

lemma dlinked_cong:
  assumes "\<And>x. x \<in> set xs \<Longrightarrow> hp_next h' x = hp_next h x \<and> hp_prev h' x = hp_prev h x"
  shows "dlinked h' pv xs q = dlinked h pv xs q"
  using assms by (induction xs arbitrary: pv) auto

lemma dll_cong:
  assumes "\<And>x. x \<in> set xs \<Longrightarrow> hp_next h' x = hp_next h x \<and> hp_prev h' x = hp_prev h x"
  shows "dll h' l xs = dll h l xs"
  using dlinked_cong [of xs h' h, OF assms] by (simp add: dll_def)

lemma dll_distinct: "dll h l xs \<Longrightarrow> distinct xs"
  by (simp add: dll_def)

lemma dll_init [simp]: "dll h frame_list_init xs \<longleftrightarrow> xs = []"
  by (auto simp: dll_def frame_list_init_def eq_commute [of None])

lemma set_heap_simps [simp]:
  "hp_next (set_next n p h) = (hp_next h)(n := p)" "hp_prev (set_next n p h) = hp_prev h"
  "hp_node (set_next n p h) = hp_node h"
  "hp_next (set_prev n p h) = hp_next h" "hp_prev (set_prev n p h) = (hp_prev h)(n := p)"
  "hp_node (set_prev n p h) = hp_node h"
  "hp_next (set_node n d h) = hp_next h" "hp_prev (set_node n d h) = hp_prev h"
  "hp_node (set_node n d h) = (hp_node h)(n := d)"
  by (simp_all add: set_next_def set_prev_def set_node_def)

lemma dll_set_node [simp]: "dll (set_node n d h) l xs = dll h l xs"
  by (rule dll_cong) simp

text \<open>Writing link fields of nodes outside the list does not change what it holds.\<close>

lemma dlinked_set_next [simp]: "n \<notin> set xs \<Longrightarrow> dlinked (set_next n p h) pv xs q = dlinked h pv xs q"
  by (rule dlinked_cong) auto

lemma dlinked_set_prev [simp]: "n \<notin> set xs \<Longrightarrow> dlinked (set_prev n p h) pv xs q = dlinked h pv xs q"
  by (rule dlinked_cong) auto

section \<open>The primitives are the list operations\<close>

lemma add_tail_dll:
  assumes "dll h l xs" and "n \<notin> set xs"
    and "frame_list_add_tail_nolock (Some n) (h, l) = (h', l')"
  shows "dll h' l' (xs @ [n])"
proof (cases xs rule: rev_cases)
  case Nil
  with assms show ?thesis
    by (auto simp: dll_def frame_list_add_tail_nolock_def Let_def)
next
  case (snoc ys t)
  with assms show ?thesis
    by (cases "fl_head l") (auto simp: dll_def frame_list_add_tail_nolock_def Let_def)
qed

lemma add_head_dll:
  assumes "dll h l xs" and "n \<notin> set xs"
    and "frame_list_add_head_nolock (Some n) (h, l) = (h', l')"
  shows "dll h' l' (n # xs)"
proof (cases xs)
  case Nil
  with assms show ?thesis
    by (auto simp: dll_def frame_list_add_head_nolock_def Let_def)
next
  case (Cons x ys)
  with assms show ?thesis
    by (cases "fl_tail l") (auto simp: dll_def frame_list_add_head_nolock_def Let_def)
qed

lemma remove_dll:
  assumes "dll h l (pre @ n # post)"
    and "frame_list_remove_nolock (Some n) (h, l) = (h', l')"
  shows "dll h' l' (pre @ post)"
proof (cases pre rule: rev_cases)
  case Nil
  with assms show ?thesis
    by (cases post) (auto simp: dll_def frame_list_remove_nolock_def Let_def)
next
  case (snoc ys p)
  with assms show ?thesis
    by (cases post) (auto simp: dll_def frame_list_remove_nolock_def Let_def)
qed

lemma pop_head_dll:
  assumes "dll h l xs" and "frame_list_pop_head (h, l) = (r, h', l')"
  shows "r = first_of xs None \<and> dll h' l' (tl xs) \<and> hp_node h' = hp_node h"
proof (cases xs)
  case Nil
  with assms show ?thesis
    by (auto simp: dll_def frame_list_pop_head_def Let_def)
next
  case (Cons x ys)
  with assms show ?thesis
    by (cases ys) (auto simp: dll_def frame_list_pop_head_def Let_def)
qed

text \<open>
  Frame: a primitive writes link fields of the node and of nodes of its list only, and no
  data field.
\<close>

lemma last_of_mem: "last_of None xs = Some t \<Longrightarrow> t \<in> set xs"
  by (auto dest: last_of_Some)

lemma first_of_mem: "first_of xs None = Some t \<Longrightarrow> t \<in> set xs"
  by (cases xs) auto

lemma add_tail_frame:
  assumes "dll h l xs" and "frame_list_add_tail_nolock (Some n) (h, l) = (h', l')"
  shows "hp_node h' = hp_node h"
    and "x \<notin> insert n (set xs) \<Longrightarrow> hp_next h' x = hp_next h x \<and> hp_prev h' x = hp_prev h x"
  using assms last_of_mem [of xs]
  by (auto simp: frame_list_add_tail_nolock_def dll_def Let_def split: option.splits)

lemma add_head_frame:
  assumes "dll h l xs" and "frame_list_add_head_nolock (Some n) (h, l) = (h', l')"
  shows "hp_node h' = hp_node h"
    and "x \<notin> insert n (set xs) \<Longrightarrow> hp_next h' x = hp_next h x \<and> hp_prev h' x = hp_prev h x"
  using assms first_of_mem [of xs]
  by (auto simp: frame_list_add_head_nolock_def dll_def Let_def split: option.splits)

lemma linked_neighbours:
  assumes "dll h l (pre @ n # post)"
  shows "hp_prev h n = last_of None pre" and "hp_next h n = first_of post None"
  using assms by (auto simp: dll_def)

lemma remove_frame:
  assumes "dll h l (pre @ n # post)" and "frame_list_remove_nolock (Some n) (h, l) = (h', l')"
  shows "hp_node h' = hp_node h"
    and "x \<notin> set (pre @ n # post) \<Longrightarrow> hp_next h' x = hp_next h x \<and> hp_prev h' x = hp_prev h x"
  using assms(2) linked_neighbours [OF assms(1)] last_of_mem [of pre] first_of_mem [of post]
  by (auto simp: frame_list_remove_nolock_def Let_def split: option.splits if_splits)

lemma pop_head_frame:
  assumes "dll h l xs" and "frame_list_pop_head (h, l) = (r, h', l')" and "x \<notin> set xs"
  shows "hp_next h' x = hp_next h x \<and> hp_prev h' x = hp_prev h x"
proof (cases xs)
  case Nil
  with assms show ?thesis
    by (auto simp: dll_def frame_list_pop_head_def Let_def)
next
  case (Cons y ys)
  with assms first_of_mem [of ys] show ?thesis
    by (auto simp: dll_def frame_list_pop_head_def Let_def split: option.splits)
qed

section \<open>The loops end on a well-formed list\<close>

lemma list_search_dlinked:
  "dlinked h pv xs None \<Longrightarrow>
     list_search h P (first_of xs None) = Some (List.find (\<lambda>n. P (hp_node h n)) xs)"
proof (induction xs arbitrary: pv)
  case Nil
  then show ?case by (simp add: list_search.simps)
next
  case (Cons x xs)
  then show ?case by (auto simp: list_search.simps [of h P "Some x"])
qed

lemma list_search_dll:
  "dll h l xs \<Longrightarrow> list_search h P (fl_head l) = Some (List.find (\<lambda>n. P (hp_node h n)) xs)"
  by (auto simp: dll_def intro: list_search_dlinked)

lemma list_search_extract:
  "dll h l xs \<Longrightarrow> list_search h P (fl_head l) =
     Some (map_option (\<lambda>(pre, n, post). n) (List.extract (P \<circ> hp_node h) xs))"
  by (simp add: list_search_dll find_extract comp_def)

text \<open>
  A loop that may unlink the current node. \<open>R s a todo\<close> relates the state, an abstract
  value and the nodes still to visit; when the body keeps it and the saved successor is
  the next node to visit, the whole loop ends and is a fold of the abstract body.
\<close>

locale list_walk =
  fixes nxt :: "'s \<Rightarrow> node_ptr \<Rightarrow> node_ptr option"
    and body :: "node_ptr \<Rightarrow> 's \<Rightarrow> 's"
    and R :: "'s \<Rightarrow> 'a \<Rightarrow> node_ptr list \<Rightarrow> bool"
    and abody :: "node_ptr \<Rightarrow> 'a \<Rightarrow> 'a"
  assumes successor: "R s a (n # todo) \<Longrightarrow> nxt s n = first_of todo None"
    and body_sim: "R s a (n # todo) \<Longrightarrow> R (body n s) (abody n a) todo"
begin

lemma walk_sim:
  "R s a todo \<Longrightarrow> \<exists>s'. list_for_each_safe nxt body (first_of todo None) s = Some s' \<and>
     R s' (fold abody todo a) []"
proof (induction todo arbitrary: s a)
  case Nil
  then show ?case by (simp add: list_for_each_safe.simps)
next
  case (Cons n todo)
  from Cons.prems have "R (body n s) (abody n a) todo" by (rule body_sim)
  then obtain s' where "list_for_each_safe nxt body (first_of todo None) (body n s) = Some s'"
    and "R s' (fold abody todo (abody n a)) []"
    using Cons.IH by blast
  then show ?case
    by (simp add: list_for_each_safe.simps [of nxt body "Some n"] successor [OF Cons.prems])
qed

end

end
