(* ===== verification/Frame_Queue.thy ===== *)
theory Frame_Queue
  imports Frame_List
begin

text \<open>
  The operations of \<^verbatim>\<open>components/smart_lock/src/frame/frame_que_v2.c\<close> on the array of
  three frame queues (MJPEG, H264, YUV), as the C code has them: pointers, critical
  sections and calls into the SDK.

  State. \<open>fq_state\<close> is the node heap, the static array \<^verbatim>\<open>frame_queue_v2\<close>, the contents of
  the frame buffers, and the log of the calls made to code outside the repository (buffer
  allocation and release, semaphores, \<^verbatim>\<open>os_free\<close>). What such a call returns is an argument
  of the operation: \<open>alloc\<close> for the buffer allocator, \<open>now\<close> for a clock reading.

  An operation is \<open>None\<close> when a walk along the nodes would not end; otherwise it gives the
  C function's result and the new state. A critical section is a definition of its own
  (\<open>_cs\<close>) on the heap and one queue, so that it is one step for the other tasks.
\<close>

section \<open>Types\<close>

datatype image_format = IMAGE_MJPEG | IMAGE_H264 | IMAGE_H265 | IMAGE_YUV | IMAGE_OTHER nat

record frame_buffer =
  fb_type :: u32
  fb_fmt :: u32
  fb_crc :: u32
  fb_timestamp :: u64
  fb_width :: u32
  fb_height :: u32
  fb_length :: u32
  fb_sequence :: u32
  fb_h264_type :: u32

record consumer_info =
  consumer_id :: u32
  get_count :: u32
  release_count :: u32
  enabled :: u8

text \<open>The fields of \<^verbatim>\<open>frame_queue_v2_t\<close> other than its two lists, then the lists.\<close>

record queue_info =
  q_count :: u8
  q_format :: image_format
  active_consumers :: u32
  q_consumers :: "consumer_info list"
  total_malloc :: u32
  total_complete :: u32
  total_free :: u32

record frame_queue = queue_info +
  free_list :: frame_list
  ready_list :: frame_list

datatype ext_call =
    Encode_malloc u32 | Display_malloc u32
  | Encode_free frame_ptr | Display_free frame_ptr
  | Node_free node_ptr
  | Sem_init nat | Sem_set nat | Sem_get nat "u32 option" | Sem_deinit nat

record fq_state =
  st_heap :: node_heap
  st_queues :: "frame_queue list"
  st_frames :: "frame_ptr \<Rightarrow> frame_buffer"
  st_log :: "ext_call list"

definition log_calls :: "ext_call list \<Rightarrow> fq_state \<Rightarrow> fq_state" where
  "log_calls cs s = s\<lparr>st_log := st_log s @ cs\<rparr>"

text \<open>Reading and writing one queue together with the heap.\<close>

type_synonym queue_view = "node_heap \<times> frame_queue"

definition get_queue :: "nat \<Rightarrow> fq_state \<Rightarrow> queue_view" where
  "get_queue i s = (st_heap s, st_queues s ! i)"

definition put_queue :: "nat \<Rightarrow> queue_view \<Rightarrow> fq_state \<Rightarrow> fq_state" where
  "put_queue i v s = s\<lparr>st_heap := fst v, st_queues := (st_queues s)[i := snd v]\<rparr>"

definition upd_node :: "node_ptr \<Rightarrow> (frame_node \<Rightarrow> frame_node) \<Rightarrow> queue_view \<Rightarrow> queue_view" where
  "upd_node n f = (\<lambda>(h, q). (set_node n (f (hp_node h n)) h, q))"

definition on_free_list ::
    "(node_heap \<times> frame_list \<Rightarrow> node_heap \<times> frame_list) \<Rightarrow> queue_view \<Rightarrow> queue_view" where
  "on_free_list f = (\<lambda>(h, q). let (h', l') = f (h, free_list q) in (h', q\<lparr>free_list := l'\<rparr>))"

definition on_ready_list ::
    "(node_heap \<times> frame_list \<Rightarrow> node_heap \<times> frame_list) \<Rightarrow> queue_view \<Rightarrow> queue_view" where
  "on_ready_list f = (\<lambda>(h, q). let (h', l') = f (h, ready_list q) in (h', q\<lparr>ready_list := l'\<rparr>))"

definition view_next :: "queue_view \<Rightarrow> node_ptr \<Rightarrow> node_ptr option" where
  "view_next v n = hp_next (fst v) n"

section \<open>Helpers\<close>

definition CONSUMER_TRANSMISSION :: u32 where "CONSUMER_TRANSMISSION = 1"
definition CONSUMER_DECODER :: u32 where "CONSUMER_DECODER = 2"
definition FB_LIST_MAX_COUNT :: int where "FB_LIST_MAX_COUNT = 3"
definition MJPEG_MAX_FRAME_COUNT :: u8 where "MJPEG_MAX_FRAME_COUNT = 4"
definition H264_MAX_FRAME_COUNT :: u8 where "H264_MAX_FRAME_COUNT = 6"
definition YUV_MAX_FRAME_COUNT :: u8 where "YUV_MAX_FRAME_COUNT = 3"

lemma drop_bit_1_less:
  assumes "(w :: u32) \<noteq> 0"
  shows "unat (drop_bit (Suc 0) w) < unat w"
proof -
  have "unat (drop_bit (Suc 0) w) = unat w div 2"
    by (simp only: unat_drop_bit_eq) (simp add: drop_bit_Suc)
  moreover have "0 < unat w"
    using assms by (simp add: unat_gt_0)
  ultimately show ?thesis by simp
qed

function count_active_consumers_from :: "u32 \<Rightarrow> u32 \<Rightarrow> u32" where
  "count_active_consumers_from m count =
     (if m = 0 then count
      else count_active_consumers_from (drop_bit 1 m) (count + (m AND 1)))"
  by pat_completeness auto

termination
  by (relation "measure (\<lambda>(m, count). unat m)") (auto simp: drop_bit_1_less)

declare count_active_consumers_from.simps [simp del]

definition count_active_consumers :: "u32 \<Rightarrow> u32" where
  "count_active_consumers m = count_active_consumers_from m 0"

definition get_frame_buffer_list_index :: "image_format \<Rightarrow> int" where
  "get_frame_buffer_list_index format =
     (case format of IMAGE_MJPEG \<Rightarrow> 0 | IMAGE_H264 \<Rightarrow> 1 | IMAGE_YUV \<Rightarrow> 2 | _ \<Rightarrow> -1)"

text \<open>
  The loop \<^verbatim>\<open>for (i = 0; i < 8; i++) if (consumer_id & (1 << i)) { consumer_idx = i; break; }\<close>
  that five operations run; \<open>-1\<close> when no bit is set.
\<close>

function consumer_idx_from :: "nat \<Rightarrow> u32 \<Rightarrow> int" where
  "consumer_idx_from i cid =
     (if i < 8
      then if cid AND push_bit i 1 \<noteq> 0 then int i else consumer_idx_from (Suc i) cid
      else -1)"
  by pat_completeness auto

termination
  by (relation "measure (\<lambda>(i, cid). 8 - i)") auto

declare consumer_idx_from.simps [simp del]

definition consumer_idx :: "u32 \<Rightarrow> int" where
  "consumer_idx cid = consumer_idx_from 0 cid"

text \<open>The call that frees a frame buffer of a format.\<close>

definition frame_buffer_free :: "image_format \<Rightarrow> frame_ptr \<Rightarrow> ext_call list" where
  "frame_buffer_free format f =
     (case format of
        IMAGE_MJPEG \<Rightarrow> [Encode_free f]
      | IMAGE_H264 \<Rightarrow> [Encode_free f]
      | IMAGE_YUV \<Rightarrow> [Display_free f]
      | _ \<Rightarrow> [])"

text \<open>
  The guard every operation starts with: the index of an initialised queue, or \<open>None\<close>
  where the C function fails.
\<close>

definition queue_index :: "image_format \<Rightarrow> fq_state \<Rightarrow> nat option" where
  "queue_index format s =
     (let index = get_frame_buffer_list_index format in
      if index < 0 \<or> index \<ge> FB_LIST_MAX_COUNT then None
      else if q_count (st_queues s ! nat index) = 0 then None
      else Some (nat index))"

text \<open>Resetting a node that returns to the free list.\<close>

definition reset_node :: "frame_node \<Rightarrow> frame_node" where
  "reset_node nd = nd\<lparr>ref_count := 0, consumer_mask := 0, accessed_mask := 0,
     nd_timestamp := 0, in_use := 0\<rparr>"

definition recycle_node :: "node_ptr \<Rightarrow> queue_view \<Rightarrow> queue_view" where
  "recycle_node n v =
     (let v = on_ready_list (frame_list_remove_nolock (Some n)) v;
          v = upd_node n reset_node v
      in on_free_list (frame_list_add_tail_nolock (Some n)) v)"

section \<open>Creating and destroying the queues\<close>

definition frame_node_zero :: frame_node where
  "frame_node_zero = \<lparr>nd_frame = None, ref_count = 0, consumer_mask = 0, accessed_mask = 0,
     nd_timestamp = 0, create_time = 0, in_use = 0\<rparr>"

text \<open>\<open>mem\<close> is what \<^verbatim>\<open>os_malloc\<close> returns.\<close>

definition frame_node_create ::
    "node_ptr option \<Rightarrow> u64 \<Rightarrow> frame_ptr option \<Rightarrow> node_heap \<Rightarrow> node_ptr option \<times> node_heap" where
  "frame_node_create mem now frame h =
     (case mem of
        None \<Rightarrow> (None, h)
      | Some n \<Rightarrow>
          (let h = set_next n None h;
               h = set_prev n None h;
               h = set_node n (frame_node_zero\<lparr>nd_frame := frame, create_time := now\<rparr>) h
           in (Some n, h)))"

definition frame_node_destroy :: "node_ptr option \<Rightarrow> image_format \<Rightarrow> node_heap \<Rightarrow> ext_call list" where
  "frame_node_destroy node format h =
     (case node of
        None \<Rightarrow> []
      | Some n \<Rightarrow>
          (case nd_frame (hp_node h n) of
             Some f \<Rightarrow> frame_buffer_free format f
           | None \<Rightarrow> []) @ [Node_free n])"

definition consumer_zero :: consumer_info where
  "consumer_zero = \<lparr>consumer_id = 0, get_count = 0, release_count = 0, enabled = 0\<rparr>"

definition queue_zero :: frame_queue where
  "queue_zero = \<lparr>q_count = 0, q_format = IMAGE_OTHER 0, active_consumers = 0,
     q_consumers = replicate 8 consumer_zero, total_malloc = 0, total_complete = 0,
     total_free = 0, free_list = frame_list_init, ready_list = frame_list_init\<rparr>"

text \<open>
  What the SDK answers during one \<^verbatim>\<open>frame_queue_v2_init\<close>: the result of
  \<^verbatim>\<open>rtos_init_semaphore\<close>, and for the \<open>i\<close>-th node the result of \<^verbatim>\<open>os_malloc\<close> and the
  clock.
\<close>

record init_env =
  ie_sem :: bk_err_t
  ie_alloc :: "nat \<Rightarrow> node_ptr option"
  ie_clock :: "nat \<Rightarrow> u64"

fun create_nodes :: "init_env \<Rightarrow> nat \<Rightarrow> nat \<Rightarrow> queue_view \<Rightarrow> queue_view" where
  "create_nodes env i 0 v = v"
| "create_nodes env i (Suc k) v =
     (let (node, h) = frame_node_create (ie_alloc env i) (ie_clock env i) None (fst v);
          v = (h, snd v);
          v = (case node of None \<Rightarrow> v | Some n \<Rightarrow> on_free_list (frame_list_add_tail (Some n)) v)
      in create_nodes env (Suc i) k v)"

definition frame_queue_v2_init ::
    "init_env \<Rightarrow> image_format \<Rightarrow> fq_state \<Rightarrow> bk_err_t \<times> fq_state" where
  "frame_queue_v2_init env format s =
     (let (index, frame_count) =
        (case format of
           IMAGE_MJPEG \<Rightarrow> (0, MJPEG_MAX_FRAME_COUNT)
         | IMAGE_H264 \<Rightarrow> (1, H264_MAX_FRAME_COUNT)
         | IMAGE_YUV \<Rightarrow> (2, YUV_MAX_FRAME_COUNT)
         | _ \<Rightarrow> (-1, 0)) in
      if index < 0 \<or> index \<ge> FB_LIST_MAX_COUNT then (BK_FAIL, s)
      else
        let i = nat index in
        if q_count (st_queues s ! i) > 0 then (BK_OK, s)
        else
          let q = queue_zero\<lparr>q_count := frame_count, q_format := format\<rparr>;
              q = q\<lparr>free_list := frame_list_init, ready_list := frame_list_init\<rparr>;
              s = log_calls [Sem_init i] s in
          if ie_sem env \<noteq> BK_OK then
            let q = q\<lparr>ready_list := frame_list_deinit (ready_list q),
                      free_list := frame_list_deinit (free_list q)\<rparr>
            in (ie_sem env, put_queue i (st_heap s, q) s)
          else (BK_OK, put_queue i (create_nodes env 0 (unat frame_count) (st_heap s, q)) s))"

definition frame_queue_v2_init_all ::
    "(image_format \<Rightarrow> init_env) \<Rightarrow> fq_state \<Rightarrow> bk_err_t \<times> fq_state" where
  "frame_queue_v2_init_all env s =
     (let (r, s) = frame_queue_v2_init (env IMAGE_MJPEG) IMAGE_MJPEG s in
      if r \<noteq> BK_OK then (BK_FAIL, s)
      else
        let (r, s) = frame_queue_v2_init (env IMAGE_H264) IMAGE_H264 s in
        if r \<noteq> BK_OK then (BK_FAIL, s)
        else
          let (r, s) = frame_queue_v2_init (env IMAGE_YUV) IMAGE_YUV s in
          if r \<noteq> BK_OK then (BK_FAIL, s) else (BK_OK, s))"

text \<open>\<^verbatim>\<open>while ((node = frame_list_pop_head(list)) != NULL) frame_node_destroy(node, format);\<close>\<close>

partial_function (option) drain_list ::
    "image_format \<Rightarrow> node_heap \<times> frame_list \<Rightarrow> ext_call list \<Rightarrow>
      ((node_heap \<times> frame_list) \<times> ext_call list) option" where
  "drain_list format hl cs =
     (case frame_list_pop_head hl of
        (None, hl') \<Rightarrow> Some (hl', cs)
      | (Some n, hl') \<Rightarrow>
          drain_list format hl' (cs @ frame_node_destroy (Some n) format (fst hl')))"

definition frame_queue_v2_deinit :: "image_format \<Rightarrow> fq_state \<Rightarrow> (bk_err_t \<times> fq_state) option" where
  "frame_queue_v2_deinit format s =
     (let index = get_frame_buffer_list_index format in
      if index < 0 \<or> index \<ge> FB_LIST_MAX_COUNT then Some (BK_FAIL, s)
      else
        let i = nat index; q = st_queues s ! i in
        if q_count q = 0 then Some (BK_OK, s)
        else do {
          (hl, cs1) \<leftarrow> drain_list format (st_heap s, free_list q) [];
          (hl', cs2) \<leftarrow> drain_list format (fst hl, ready_list q) [];
          let s = log_calls (cs1 @ cs2 @ [Sem_deinit i]) s;
          Some (BK_OK, put_queue i (fst hl', queue_zero) s)
        })"

definition frame_queue_v2_deinit_all :: "fq_state \<Rightarrow> (bk_err_t \<times> fq_state) option" where
  "frame_queue_v2_deinit_all s = do {
     (_, s) \<leftarrow> frame_queue_v2_deinit IMAGE_MJPEG s;
     (_, s) \<leftarrow> frame_queue_v2_deinit IMAGE_H264 s;
     (_, s) \<leftarrow> frame_queue_v2_deinit IMAGE_YUV s;
     Some (BK_OK, s)
   }"

section \<open>Clearing\<close>

definition clear_ready_body :: "node_ptr \<Rightarrow> queue_view \<Rightarrow> queue_view" where
  "clear_ready_body n v =
     (if ref_count (hp_node (fst v) n) = 0 then recycle_node n v else v)"

definition clear_free_body ::
    "image_format \<Rightarrow> node_ptr \<Rightarrow> node_heap \<times> ext_call list \<Rightarrow> node_heap \<times> ext_call list" where
  "clear_free_body format n = (\<lambda>(h, cs).
     (let nd = hp_node h n;
          nd = (if in_use nd = 1 then nd\<lparr>in_use := 0\<rparr> else nd)
      in case nd_frame nd of
           None \<Rightarrow> (set_node n nd h, cs)
         | Some f \<Rightarrow>
             (set_node n (nd\<lparr>nd_frame := None\<rparr>) h, cs @ frame_buffer_free format f)))"

definition clear_ready_cs :: "queue_view \<Rightarrow> queue_view option" where
  "clear_ready_cs v = list_for_each_safe view_next clear_ready_body (fl_head (ready_list (snd v))) v"

definition clear_free_cs :: "queue_view \<Rightarrow> (queue_view \<times> ext_call list) option" where
  "clear_free_cs v = do {
     (h, cs) \<leftarrow> list_for_each (\<lambda>s. hp_next (fst s)) (clear_free_body (q_format (snd v)))
                 (fl_head (free_list (snd v))) (fst v, []);
     Some ((h, snd v), cs)
   }"

definition clear_queue :: "nat \<Rightarrow> fq_state \<Rightarrow> fq_state option" where
  "clear_queue i s =
     (if q_count (st_queues s ! i) = 0 then Some s
      else do {
        v \<leftarrow> clear_ready_cs (get_queue i s);
        let s = put_queue i v s;
        (v, cs) \<leftarrow> clear_free_cs (get_queue i s);
        Some (log_calls cs (put_queue i v s))
      })"

fun clear_queues :: "nat list \<Rightarrow> fq_state \<Rightarrow> fq_state option" where
  "clear_queues [] s = Some s"
| "clear_queues (i # is) s = do { s \<leftarrow> clear_queue i s; clear_queues is s }"

definition frame_queue_v2_clear_all :: "fq_state \<Rightarrow> (bk_err_t \<times> fq_state) option" where
  "frame_queue_v2_clear_all s = do {
     s \<leftarrow> clear_queues [0 ..< nat FB_LIST_MAX_COUNT] s;
     Some (BK_OK, s)
   }"

section \<open>Registering and unregistering consumers\<close>

definition cleanup_body :: "node_ptr \<Rightarrow> queue_view \<Rightarrow> queue_view" where
  "cleanup_body n v =
     (let nd = hp_node (fst v) n in
      if consumer_mask nd = 0 \<and> ref_count nd = 0 then recycle_node n v else v)"

definition register_cs :: "nat \<Rightarrow> u32 \<Rightarrow> queue_view \<Rightarrow> queue_view option" where
  "register_cs c cid = (\<lambda>(h, q).
     (let info = (q_consumers q ! c)\<lparr>consumer_id := cid, enabled := 1, get_count := 0,
                                     release_count := 0\<rparr>;
          q = q\<lparr>q_consumers := (q_consumers q)[c := info]\<rparr>;
          q = q\<lparr>active_consumers := active_consumers q OR cid\<rparr>
      in list_for_each_safe view_next cleanup_body (fl_head (ready_list q)) (h, q)))"

definition frame_queue_v2_register_consumer ::
    "image_format \<Rightarrow> u32 \<Rightarrow> fq_state \<Rightarrow> (bk_err_t \<times> fq_state) option" where
  "frame_queue_v2_register_consumer format cid s =
     (case queue_index format s of
        None \<Rightarrow> Some (BK_FAIL, s)
      | Some i \<Rightarrow>
          (let c = consumer_idx cid in
           if c < 0 then Some (BK_FAIL, s)
           else do {
             v \<leftarrow> register_cs (nat c) cid (get_queue i s);
             Some (BK_OK, put_queue i v s)
           }))"

definition unregister_body :: "u32 \<Rightarrow> node_ptr \<Rightarrow> queue_view \<Rightarrow> queue_view" where
  "unregister_body cid n v =
     (let nd = hp_node (fst v) n in
      if consumer_mask nd AND cid \<noteq> 0 \<and> accessed_mask nd AND cid = 0 then
        let v = upd_node n (\<lambda>nd. nd\<lparr>consumer_mask := consumer_mask nd AND NOT cid\<rparr>) v;
            nd = hp_node (fst v) n;
            all_accessed = (accessed_mask nd AND consumer_mask nd = consumer_mask nd)
        in if ref_count nd = 0 \<and> (consumer_mask nd = 0 \<or> all_accessed) then
             let (h, q) = recycle_node n v in (h, q\<lparr>total_free := total_free q + 1\<rparr>)
           else v
      else v)"

definition unregister_cs :: "nat \<Rightarrow> u32 \<Rightarrow> queue_view \<Rightarrow> queue_view option" where
  "unregister_cs c cid = (\<lambda>(h, q).
     (let q = q\<lparr>active_consumers := active_consumers q AND NOT cid\<rparr>;
          q = q\<lparr>q_consumers := (q_consumers q)[c := (q_consumers q ! c)\<lparr>enabled := 0\<rparr>]\<rparr>
      in list_for_each_safe view_next (unregister_body cid) (fl_head (ready_list q)) (h, q)))"

definition frame_queue_v2_unregister_consumer ::
    "image_format \<Rightarrow> u32 \<Rightarrow> fq_state \<Rightarrow> (bk_err_t \<times> fq_state) option" where
  "frame_queue_v2_unregister_consumer format cid s =
     (case queue_index format s of
        None \<Rightarrow> Some (BK_FAIL, s)
      | Some i \<Rightarrow>
          (let c = consumer_idx cid in
           if c < 0 then Some (BK_FAIL, s)
           else do {
             v \<leftarrow> unregister_cs (nat c) cid (get_queue i s);
             Some (BK_OK, put_queue i v s)
           }))"

section \<open>The producer's side\<close>

text \<open>
  The critical section of \<^verbatim>\<open>frame_queue_v2_malloc\<close>: a free node, or for MJPEG and YUV the
  oldest ready node nobody holds, is marked in use.
\<close>

definition malloc_cs :: "image_format \<Rightarrow> queue_view \<Rightarrow> (node_ptr option \<times> queue_view) option" where
  "malloc_cs format v = do {
     r \<leftarrow> list_search (fst v) (\<lambda>nd. in_use nd = 0) (fl_head (free_list (snd v)));
     (case r of
        Some n \<Rightarrow> Some (Some n, upd_node n (\<lambda>nd. nd\<lparr>in_use := 1\<rparr>) v)
      | None \<Rightarrow>
          if format = IMAGE_MJPEG \<or> format = IMAGE_YUV then do {
            r \<leftarrow> list_search (fst v) (\<lambda>nd. ref_count nd = 0) (fl_head (ready_list (snd v)));
            (case r of
               None \<Rightarrow> Some (None, v)
             | Some n \<Rightarrow>
                 (let v = on_ready_list (frame_list_remove_nolock (Some n)) v;
                      v = upd_node n (\<lambda>nd. nd\<lparr>in_use := 1\<rparr>) v;
                      v = on_free_list (frame_list_add_head_nolock (Some n)) v
                  in Some (Some n, v)))
          }
          else Some (None, v))
   }"

definition frame_buffer_zero :: frame_buffer where
  "frame_buffer_zero = \<lparr>fb_type = 0, fb_fmt = 0, fb_crc = 0, fb_timestamp = 0, fb_width = 0,
     fb_height = 0, fb_length = 0, fb_sequence = 0, fb_h264_type = 0\<rparr>"

text \<open>
  \<open>alloc\<close> is what \<^verbatim>\<open>frame_buffer_encode_malloc\<close> or \<^verbatim>\<open>frame_buffer_display_malloc\<close> returns if
  it is called, \<open>now\<close> the clock.
\<close>

definition malloc_call :: "image_format \<Rightarrow> u32 \<Rightarrow> ext_call list" where
  "malloc_call format sz =
     (case format of
        IMAGE_MJPEG \<Rightarrow> [Encode_malloc sz]
      | IMAGE_H264 \<Rightarrow> [Encode_malloc sz]
      | IMAGE_YUV \<Rightarrow> [Display_malloc sz]
      | _ \<Rightarrow> [])"

definition malloc_finish :: "nat \<Rightarrow> node_ptr \<Rightarrow> frame_ptr \<Rightarrow> u64 \<Rightarrow> fq_state \<Rightarrow> fq_state" where
  "malloc_finish i n f now s =
     (let s = s\<lparr>st_frames := (st_frames s)(f := frame_buffer_zero)\<rparr>;
          (h, q) = upd_node n (\<lambda>nd. nd\<lparr>ref_count := 0, accessed_mask := 0, nd_timestamp := now\<rparr>)
                     (get_queue i s)
      in put_queue i (h, q\<lparr>total_malloc := total_malloc q + 1\<rparr>) s)"

definition frame_queue_v2_malloc ::
    "frame_ptr option \<Rightarrow> u64 \<Rightarrow> image_format \<Rightarrow> u32 \<Rightarrow> fq_state \<Rightarrow>
      (frame_ptr option \<times> fq_state) option" where
  "frame_queue_v2_malloc alloc now format sz s =
     (case queue_index format s of
        None \<Rightarrow> Some (None, s)
      | Some i \<Rightarrow> do {
          (r, v) \<leftarrow> malloc_cs format (get_queue i s);
          let s = put_queue i v s;
          (case r of
             None \<Rightarrow> Some (None, s)
           | Some n \<Rightarrow>
               (case nd_frame (hp_node (st_heap s) n) of
                  Some f \<Rightarrow> Some (Some f, malloc_finish i n f now s)
                | None \<Rightarrow>
                    (let cs = malloc_call format sz;
                         s = log_calls cs s;
                         v = get_queue i s in
                     case (if cs = [] then None else alloc) of
                       None \<Rightarrow>
                         Some (None, put_queue i (upd_node n (\<lambda>nd. nd\<lparr>in_use := 0\<rparr>) v) s)
                     | Some f \<Rightarrow>
                         (let s = put_queue i (upd_node n (\<lambda>nd. nd\<lparr>nd_frame := Some f\<rparr>) v) s
                          in Some (Some f, malloc_finish i n f now s)))))
        })"

text \<open>
  The critical section of \<^verbatim>\<open>frame_queue_v2_complete\<close>; \<open>now\<close> and \<open>now'\<close> are the clock
  readings for \<^verbatim>\<open>timestamp\<close> and \<^verbatim>\<open>create_time\<close>. The result is the number of active consumers,
  or \<open>None\<close> when no node in use holds the frame.
\<close>

definition complete_cs ::
    "frame_ptr \<Rightarrow> u64 \<Rightarrow> u64 \<Rightarrow> u64 \<Rightarrow> queue_view \<Rightarrow> (u32 option \<times> queue_view) option" where
  "complete_cs frame frame_ts now now' v = do {
     r \<leftarrow> list_search (fst v) (\<lambda>nd. in_use nd = 1 \<and> nd_frame nd = Some frame)
           (fl_head (free_list (snd v)));
     (case r of
        None \<Rightarrow> Some (None, v)
      | Some n \<Rightarrow>
          (let v = upd_node n (\<lambda>nd. nd\<lparr>in_use := 0\<rparr>) v;
               v = on_free_list (frame_list_remove_nolock (Some n)) v;
               v = upd_node n (\<lambda>nd. nd\<lparr>accessed_mask := 0,
                     nd_timestamp := (if frame_ts > 0 then frame_ts else now),
                     create_time := now'\<rparr>) v;
               v = upd_node n (\<lambda>nd. nd\<lparr>consumer_mask := active_consumers (snd v)\<rparr>) v;
               consumer_count = count_active_consumers (active_consumers (snd v));
               v = on_ready_list (frame_list_add_tail_nolock (Some n)) v
           in Some (Some consumer_count, v)))
   }"

definition frame_queue_v2_complete ::
    "u64 \<Rightarrow> u64 \<Rightarrow> image_format \<Rightarrow> frame_ptr option \<Rightarrow> fq_state \<Rightarrow> (bk_err_t \<times> fq_state) option" where
  "frame_queue_v2_complete now now' format frame s =
     (case queue_index format s of
        None \<Rightarrow> Some (BK_FAIL, s)
      | Some i \<Rightarrow>
          (case frame of
             None \<Rightarrow> Some (BK_FAIL, s)
           | Some f \<Rightarrow> do {
               (r, v) \<leftarrow> complete_cs f (fb_timestamp (st_frames s f)) now now' (get_queue i s);
               (case r of
                  None \<Rightarrow> Some (BK_FAIL, put_queue i v s)
                | Some consumer_count \<Rightarrow>
                    (let signal_count = (if consumer_count > 0 then consumer_count else 1);
                         s = put_queue i v s;
                         s = log_calls (replicate (unat signal_count) (Sem_set i)) s;
                         (h, q) = get_queue i s
                     in Some (BK_OK,
                              put_queue i (h, q\<lparr>total_complete := total_complete q + 1\<rparr>) s)))
             }))"

definition cancel_cs ::
    "frame_ptr \<Rightarrow> queue_view \<Rightarrow> ((node_ptr \<times> frame_ptr option) option \<times> queue_view) option" where
  "cancel_cs frame v = do {
     r \<leftarrow> list_search (fst v) (\<lambda>nd. in_use nd = 1 \<and> nd_frame nd = Some frame)
           (fl_head (free_list (snd v)));
     (case r of
        None \<Rightarrow> Some (None, v)
      | Some n \<Rightarrow>
          (let frame_to_free = nd_frame (hp_node (fst v) n);
               v = upd_node n (\<lambda>nd. nd\<lparr>nd_frame := None\<rparr>) v;
               v = upd_node n (\<lambda>nd. nd\<lparr>in_use := 0\<rparr>) v
           in Some (Some (n, frame_to_free), v)))
   }"

definition frame_queue_v2_cancel ::
    "image_format \<Rightarrow> frame_ptr option \<Rightarrow> fq_state \<Rightarrow> (bk_err_t \<times> fq_state) option" where
  "frame_queue_v2_cancel format frame s =
     (case queue_index format s of
        None \<Rightarrow> Some (BK_FAIL, s)
      | Some i \<Rightarrow>
          (case frame of
             None \<Rightarrow> Some (BK_FAIL, s)
           | Some f \<Rightarrow> do {
               (r, v) \<leftarrow> cancel_cs f (get_queue i s);
               let s = put_queue i v s;
               (case r of
                  None \<Rightarrow> Some (BK_FAIL, s)
                | Some (n, None) \<Rightarrow> Some (BK_OK, s)
                | Some (n, Some g) \<Rightarrow>
                    (let s = log_calls (frame_buffer_free format g) s;
                         (h, q) = get_queue i s
                     in Some (BK_OK, put_queue i (h, q\<lparr>total_free := total_free q + 1\<rparr>) s)))
             }))"

section \<open>The consumers' side\<close>

text \<open>
  One pass of \<^verbatim>\<open>frame_queue_v2_get_frame\<close> over the ready list. The result is \<open>Some r\<close> with
  the node's frame pointer when a frame is found.
\<close>

definition get_frame_cs ::
    "nat \<Rightarrow> u32 \<Rightarrow> queue_view \<Rightarrow> (frame_ptr option option \<times> queue_view) option" where
  "get_frame_cs c cid v = do {
     r \<leftarrow> list_search (fst v)
           (\<lambda>nd. consumer_mask nd AND cid \<noteq> 0 \<and> accessed_mask nd AND cid = 0)
           (fl_head (ready_list (snd v)));
     (case r of
        None \<Rightarrow> Some (None, v)
      | Some n \<Rightarrow>
          (let v = upd_node n (\<lambda>nd. nd\<lparr>ref_count := ref_count nd + 1,
                                       accessed_mask := accessed_mask nd OR cid\<rparr>) v;
               found_frame = nd_frame (hp_node (fst v) n);
               (h, q) = v;
               info = q_consumers q ! c;
               q = q\<lparr>q_consumers := (q_consumers q)[c := info\<lparr>get_count := get_count info + 1\<rparr>]\<rparr>
           in Some (Some found_frame, (h, q))))
   }"

datatype timeout = Wait_forever | Wait_ms u32

text \<open>
  What happens during one wait: the clock before it, what the other tasks do meanwhile, and
  the result of \<^verbatim>\<open>rtos_get_semaphore\<close>. When the list of waits ends, the task still waits.
\<close>

record 's wait_env =
  we_clock :: u64
  we_others :: "'s \<Rightarrow> 's"
  we_sem :: bk_err_t

datatype get_result = Got "frame_ptr option" | Waiting

definition wait_timeout :: "timeout \<Rightarrow> u64 \<Rightarrow> u64 \<Rightarrow> u32 option option" where
  "wait_timeout timeout start_time now =
     (case timeout of
        Wait_forever \<Rightarrow> Some None
      | Wait_ms t \<Rightarrow>
          (let elapsed = now - start_time in
           if elapsed \<ge> ucast t then None else Some (Some (ucast (ucast t - elapsed)))))"

fun get_frame_loop ::
    "fq_state wait_env list \<Rightarrow> nat \<Rightarrow> nat \<Rightarrow> u32 \<Rightarrow> timeout \<Rightarrow> u64 \<Rightarrow> fq_state \<Rightarrow> (get_result \<times> fq_state) option"
  where
  "get_frame_loop waits i c cid timeout start_time s =
     (case get_frame_cs c cid (get_queue i s) of
        None \<Rightarrow> None
      | Some (Some found_frame, v) \<Rightarrow> Some (Got found_frame, put_queue i v s)
      | Some (None, v) \<Rightarrow>
          (case waits of
             [] \<Rightarrow> Some (Waiting, s)
           | w # ws \<Rightarrow>
               (case wait_timeout timeout start_time (we_clock w) of
                  None \<Rightarrow> Some (Got None, s)
                | Some t \<Rightarrow>
                    (let s = we_others w (log_calls [Sem_get i t] s) in
                     if we_sem w \<noteq> BK_OK then Some (Got None, s)
                     else get_frame_loop ws i c cid timeout start_time s))))"

declare get_frame_loop.simps [simp del]

definition frame_queue_v2_get_frame ::
    "fq_state wait_env list \<Rightarrow> u64 \<Rightarrow> image_format \<Rightarrow> u32 \<Rightarrow> timeout \<Rightarrow> fq_state \<Rightarrow>
      (get_result \<times> fq_state) option" where
  "frame_queue_v2_get_frame waits start_time format cid timeout s =
     (case queue_index format s of
        None \<Rightarrow> Some (Got None, s)
      | Some i \<Rightarrow>
          (let c = consumer_idx cid;
               is_enabled = (c \<ge> 0 \<and> enabled (q_consumers (st_queues s ! i) ! nat c) \<noteq> 0)
           in if c < 0 \<or> \<not> is_enabled then Some (Got None, s)
              else get_frame_loop waits i (nat c) cid timeout start_time s))"

text \<open>
  The first critical section of \<^verbatim>\<open>frame_queue_v2_release_frame\<close>: the node of the frame loses
  a reference, and is unlinked when it was the last one and every consumer had the frame.
\<close>

definition release_cs ::
    "nat \<Rightarrow> frame_ptr \<Rightarrow> queue_view \<Rightarrow> (node_ptr option \<times> queue_view) option" where
  "release_cs c frame v = do {
     r \<leftarrow> list_search (fst v) (\<lambda>nd. nd_frame nd = Some frame) (fl_head (ready_list (snd v)));
     (case r of
        None \<Rightarrow> Some (None, v)
      | Some n \<Rightarrow>
          (let v = upd_node n (\<lambda>nd. if ref_count nd > 0
                                   then nd\<lparr>ref_count := ref_count nd - 1\<rparr> else nd) v;
               (h, q) = v;
               info = q_consumers q ! c;
               q = q\<lparr>q_consumers :=
                       (q_consumers q)[c := info\<lparr>release_count := release_count info + 1\<rparr>]\<rparr>;
               nd = hp_node h n;
               all_accessed = (accessed_mask nd AND consumer_mask nd = consumer_mask nd)
           in if ref_count nd = 0 \<and> all_accessed
              then Some (Some n, on_ready_list (frame_list_remove_nolock (Some n)) (h, q))
              else Some (None, (h, q))))
   }"

text \<open>
  The final release, outside the critical section: the buffer is freed and the node, which
  is on no list now, is reset; then it goes back to the free list.
\<close>

definition release_final :: "image_format \<Rightarrow> node_ptr \<Rightarrow> queue_view \<Rightarrow> queue_view \<times> ext_call list" where
  "release_final format n v =
     (let (v, cs) = (case nd_frame (hp_node (fst v) n) of
                       Some f \<Rightarrow> (upd_node n (\<lambda>nd. nd\<lparr>nd_frame := None\<rparr>) v,
                                  frame_buffer_free format f)
                     | None \<Rightarrow> (v, []))
      in (upd_node n reset_node v, cs))"

definition release_return_cs :: "node_ptr \<Rightarrow> queue_view \<Rightarrow> queue_view" where
  "release_return_cs n v =
     (let (h, q) = on_free_list (frame_list_add_tail (Some n)) v
      in (h, q\<lparr>total_free := total_free q + 1\<rparr>))"

definition frame_queue_v2_release_frame ::
    "image_format \<Rightarrow> u32 \<Rightarrow> frame_ptr option \<Rightarrow> fq_state \<Rightarrow> fq_state option" where
  "frame_queue_v2_release_frame format cid frame s =
     (case queue_index format s of
        None \<Rightarrow> Some s
      | Some i \<Rightarrow>
          (case frame of
             None \<Rightarrow> Some s
           | Some f \<Rightarrow>
               (let c = consumer_idx cid in
                if c < 0 then Some s
                else do {
                  (r, v) \<leftarrow> release_cs (nat c) f (get_queue i s);
                  let s = put_queue i v s;
                  (case r of
                     None \<Rightarrow> Some s
                   | Some n \<Rightarrow>
                       (let (v, cs) = release_final format n (get_queue i s);
                            s = log_calls cs (put_queue i v s)
                        in Some (put_queue i (release_return_cs n (get_queue i s)) s)))
                })))"

text \<open>
  The statistics. A \<open>want\<close> flag is \<open>False\<close> when the caller passes \<^verbatim>\<open>NULL\<close> for that output.
\<close>

record queue_stats =
  free_count :: "u32 option"
  ready_count :: "u32 option"
  stat_malloc :: "u32 option"
  stat_complete :: "u32 option"
  stat_free :: "u32 option"

definition out_value :: "bool \<Rightarrow> 'x \<Rightarrow> 'x option" where
  "out_value want x = (if want then Some x else None)"

definition frame_queue_v2_get_stats ::
    "bool \<Rightarrow> bool \<Rightarrow> bool \<Rightarrow> bool \<Rightarrow> bool \<Rightarrow> image_format \<Rightarrow> fq_state \<Rightarrow>
      bk_err_t \<times> queue_stats option" where
  "frame_queue_v2_get_stats w1 w2 w3 w4 w5 format s =
     (case queue_index format s of
        None \<Rightarrow> (BK_FAIL, None)
      | Some i \<Rightarrow>
          (let q = st_queues s ! i in
           (BK_OK, Some \<lparr>free_count = out_value w1 (fl_count (free_list q)),
                         ready_count = out_value w2 (fl_count (ready_list q)),
                         stat_malloc = out_value w3 (total_malloc q),
                         stat_complete = out_value w4 (total_complete q),
                         stat_free = out_value w5 (total_free q)\<rparr>)))"

end
