(* ===== verification/Frame_Queue_Spec.thy ===== *)
theory Frame_Queue_Spec
  imports Frame_Queue
begin

text \<open>
  The abstract specification of one frame queue: two lists of nodes, no pointers, and each
  operation as a function on them. \<open>Frame_Queue_Refine\<close> shows that the pointer code
  computes these functions; \<open>Frame_Queue_Clients\<close> proves what they guarantee to
  producers and consumers.
\<close>

record abs_queue = queue_info +
  a_free :: "frame_node list"
  a_ready :: "frame_node list"

section \<open>Sweeping the ready list\<close>

text \<open>
  Clearing, registering and unregistering visit every ready node once; a visit gives the
  node's new value and whether it goes to the free list.
\<close>

definition moved :: "(frame_node \<Rightarrow> bool \<times> frame_node) \<Rightarrow> frame_node list \<Rightarrow> frame_node list" where
  "moved f xs = map snd (filter fst (map f xs))"

definition kept :: "(frame_node \<Rightarrow> bool \<times> frame_node) \<Rightarrow> frame_node list \<Rightarrow> frame_node list" where
  "kept f xs = map snd (filter (\<lambda>r. \<not> fst r) (map f xs))"

lemma moved_simps [simp]:
  "moved f [] = []" "moved f (x # xs) = (if fst (f x) then snd (f x) # moved f xs else moved f xs)"
  "moved f (xs @ ys) = moved f xs @ moved f ys"
  by (auto simp: moved_def)

lemma kept_simps [simp]:
  "kept f [] = []" "kept f (x # xs) = (if fst (f x) then kept f xs else snd (f x) # kept f xs)"
  "kept f (xs @ ys) = kept f xs @ kept f ys"
  by (auto simp: kept_def)

lemma set_moved: "set (moved f xs) = {snd (f x) | x. x \<in> set xs \<and> fst (f x)}"
  by (auto simp: moved_def)

lemma set_kept: "set (kept f xs) = {snd (f x) | x. x \<in> set xs \<and> \<not> fst (f x)}"
  by (auto simp: kept_def)

definition a_sweep :: "(frame_node \<Rightarrow> bool \<times> frame_node) \<Rightarrow> abs_queue \<Rightarrow> abs_queue" where
  "a_sweep f a = a\<lparr>a_free := a_free a @ moved f (a_ready a), a_ready := kept f (a_ready a)\<rparr>"

definition clear_visit :: "frame_node \<Rightarrow> bool \<times> frame_node" where
  "clear_visit nd = (if ref_count nd = 0 then (True, reset_node nd) else (False, nd))"

definition cleanup_visit :: "frame_node \<Rightarrow> bool \<times> frame_node" where
  "cleanup_visit nd =
     (if consumer_mask nd = 0 \<and> ref_count nd = 0 then (True, reset_node nd) else (False, nd))"

text \<open>Every consumer that still has to see the frame has seen it.\<close>

definition all_accessed :: "frame_node \<Rightarrow> bool" where
  "all_accessed nd \<longleftrightarrow> accessed_mask nd AND consumer_mask nd = consumer_mask nd"

text \<open>The consumer has to see the frame and has not.\<close>

definition wanted :: "u32 \<Rightarrow> frame_node \<Rightarrow> bool" where
  "wanted cid nd \<longleftrightarrow> consumer_mask nd AND cid \<noteq> 0 \<and> accessed_mask nd AND cid = 0"

definition unregister_visit :: "u32 \<Rightarrow> frame_node \<Rightarrow> bool \<times> frame_node" where
  "unregister_visit cid nd =
     (if wanted cid nd then
        let nd' = nd\<lparr>consumer_mask := consumer_mask nd AND NOT cid\<rparr> in
        if ref_count nd' = 0 \<and> (consumer_mask nd' = 0 \<or> all_accessed nd')
        then (True, reset_node nd') else (False, nd')
      else (False, nd))"

section \<open>The operations\<close>

definition upd_consumer :: "nat \<Rightarrow> (consumer_info \<Rightarrow> consumer_info) \<Rightarrow> abs_queue \<Rightarrow> abs_queue" where
  "upd_consumer c f a = a\<lparr>q_consumers := (q_consumers a)[c := f (q_consumers a ! c)]\<rparr>"

definition a_register :: "nat \<Rightarrow> u32 \<Rightarrow> abs_queue \<Rightarrow> abs_queue" where
  "a_register c cid a =
     (let a = upd_consumer c (\<lambda>i. i\<lparr>consumer_id := cid, enabled := 1, get_count := 0,
                                    release_count := 0\<rparr>) a;
          a = a\<lparr>active_consumers := active_consumers a OR cid\<rparr>
      in a_sweep cleanup_visit a)"

definition a_unregister :: "nat \<Rightarrow> u32 \<Rightarrow> abs_queue \<Rightarrow> abs_queue" where
  "a_unregister c cid a =
     (let a = a\<lparr>active_consumers := active_consumers a AND NOT cid\<rparr>;
          a = upd_consumer c (\<lambda>i. i\<lparr>enabled := 0\<rparr>) a;
          n = length (moved (unregister_visit cid) (a_ready a));
          a = a_sweep (unregister_visit cid) a
      in a\<lparr>total_free := total_free a + of_nat n\<rparr>)"

text \<open>Clearing: the calls that free the buffers of the free list come with the result.\<close>

definition free_calls :: "image_format \<Rightarrow> frame_node \<Rightarrow> ext_call list" where
  "free_calls format nd =
     (case nd_frame nd of None \<Rightarrow> [] | Some f \<Rightarrow> frame_buffer_free format f)"

definition drop_buffer :: "frame_node \<Rightarrow> frame_node" where
  "drop_buffer nd =
     (if in_use nd = 1 then nd\<lparr>in_use := 0, nd_frame := None\<rparr> else nd\<lparr>nd_frame := None\<rparr>)"

definition a_clear :: "abs_queue \<Rightarrow> abs_queue \<times> ext_call list" where
  "a_clear a =
     (let a = a_sweep clear_visit a
      in (a\<lparr>a_free := map drop_buffer (a_free a)\<rparr>,
          concat (map (free_calls (q_format a)) (a_free a))))"

text \<open>
  Allocation: the node taken, in its place in the free list, and the ready list without
  it.
\<close>

definition a_pick ::
    "image_format \<Rightarrow> abs_queue \<Rightarrow>
      (frame_node list \<times> frame_node \<times> frame_node list \<times> frame_node list) option" where
  "a_pick format a =
     (case List.extract (\<lambda>nd. in_use nd = 0) (a_free a) of
        Some (pre, nd, post) \<Rightarrow> Some (pre, nd, post, a_ready a)
      | None \<Rightarrow>
          if format = IMAGE_MJPEG \<or> format = IMAGE_YUV then
            map_option (\<lambda>(pre, nd, post). ([], nd, a_free a, pre @ post))
              (List.extract (\<lambda>nd. ref_count nd = 0) (a_ready a))
          else None)"

definition taken :: "frame_ptr \<Rightarrow> u64 \<Rightarrow> frame_node \<Rightarrow> frame_node" where
  "taken f now nd = nd\<lparr>in_use := 1, nd_frame := Some f, ref_count := 0, accessed_mask := 0,
     nd_timestamp := now\<rparr>"

definition a_malloc ::
    "frame_ptr option \<Rightarrow> u64 \<Rightarrow> image_format \<Rightarrow> abs_queue \<Rightarrow> frame_ptr option \<times> abs_queue" where
  "a_malloc alloc now format a =
     (case a_pick format a of
        None \<Rightarrow> (None, a)
      | Some (pre, nd, post, ready) \<Rightarrow>
          (case (case nd_frame nd of Some f \<Rightarrow> Some f | None \<Rightarrow> alloc) of
             None \<Rightarrow> (None, a\<lparr>a_free := pre @ nd\<lparr>in_use := 0\<rparr> # post, a_ready := ready\<rparr>)
           | Some f \<Rightarrow>
               (Some f, a\<lparr>a_free := pre @ taken f now nd # post, a_ready := ready,
                          total_malloc := total_malloc a + 1\<rparr>)))"

definition in_use_with :: "frame_ptr \<Rightarrow> frame_node \<Rightarrow> bool" where
  "in_use_with f nd \<longleftrightarrow> in_use nd = 1 \<and> nd_frame nd = Some f"

definition a_complete :: "frame_ptr \<Rightarrow> u64 \<Rightarrow> u64 \<Rightarrow> abs_queue \<Rightarrow> bk_err_t \<times> abs_queue" where
  "a_complete f ts created a =
     (case List.extract (in_use_with f) (a_free a) of
        None \<Rightarrow> (BK_FAIL, a)
      | Some (pre, nd, post) \<Rightarrow>
          (BK_OK, a\<lparr>a_free := pre @ post,
                    a_ready := a_ready a @ [nd\<lparr>in_use := 0, accessed_mask := 0, nd_timestamp := ts,
                       create_time := created, consumer_mask := active_consumers a\<rparr>],
                    total_complete := total_complete a + 1\<rparr>))"

definition a_cancel :: "frame_ptr \<Rightarrow> abs_queue \<Rightarrow> bk_err_t \<times> abs_queue" where
  "a_cancel f a =
     (case List.extract (in_use_with f) (a_free a) of
        None \<Rightarrow> (BK_FAIL, a)
      | Some (pre, nd, post) \<Rightarrow>
          (BK_OK, a\<lparr>a_free := pre @ nd\<lparr>nd_frame := None, in_use := 0\<rparr> # post,
                    total_free := total_free a + 1\<rparr>))"

text \<open>One search of a consumer; the frame found is the node's.\<close>

definition a_get :: "nat \<Rightarrow> u32 \<Rightarrow> abs_queue \<Rightarrow> frame_ptr option option \<times> abs_queue" where
  "a_get c cid a =
     (case List.extract (wanted cid) (a_ready a) of
        None \<Rightarrow> (None, a)
      | Some (pre, nd, post) \<Rightarrow>
          (Some (nd_frame nd),
           upd_consumer c (\<lambda>i. i\<lparr>get_count := get_count i + 1\<rparr>)
             (a\<lparr>a_ready := pre @ nd\<lparr>ref_count := ref_count nd + 1,
                                    accessed_mask := accessed_mask nd OR cid\<rparr> # post\<rparr>)))"

definition drop_ref :: "frame_node \<Rightarrow> frame_node" where
  "drop_ref nd = (if ref_count nd > 0 then nd\<lparr>ref_count := ref_count nd - 1\<rparr> else nd)"

text \<open>The flag tells whether the buffer was freed.\<close>

definition a_release :: "nat \<Rightarrow> frame_ptr \<Rightarrow> abs_queue \<Rightarrow> bool \<times> abs_queue" where
  "a_release c f a =
     (case List.extract (\<lambda>nd. nd_frame nd = Some f) (a_ready a) of
        None \<Rightarrow> (False, a)
      | Some (pre, nd, post) \<Rightarrow>
          (let a = upd_consumer c (\<lambda>i. i\<lparr>release_count := release_count i + 1\<rparr>) a in
           if ref_count (drop_ref nd) = 0 \<and> all_accessed nd
           then (True, a\<lparr>a_ready := pre @ post,
                         a_free := a_free a @ [reset_node (nd\<lparr>nd_frame := None\<rparr>)],
                         total_free := total_free a + 1\<rparr>)
           else (False, a\<lparr>a_ready := pre @ drop_ref nd # post\<rparr>)))"

end
