(* ===== verification/Frame_Queue_Lists.thy ===== *)
theory Frame_Queue_Lists
  imports Frame_Queue_Spec
begin

text \<open>
  A queue and the lists it holds: the contract of the list primitives when the free and the
  ready list share a heap, the relation \<open>qrep\<close> between the pointer state and the abstract
  queue, and the loops that sweep the ready list (clear, register, unregister).
\<close>

section \<open>The contract of the list primitives\<close>

text \<open>
  What the queue relies on: a list structure \<open>holds\<close> a list of nodes, the primitives are
  the list operations, and they write only nodes of the list (\<open>same_at\<close> elsewhere). The
  lemmas say what linking and unlinking do when the free and the ready list share the heap.
\<close>

locale frame_lists =
  fixes holds :: "'h \<Rightarrow> 'l \<Rightarrow> 'p list \<Rightarrow> bool"
    and same_at :: "'h \<Rightarrow> 'h \<Rightarrow> 'p \<Rightarrow> bool"
    and add_tail add_head remove :: "'p option \<Rightarrow> 'h \<times> 'l \<Rightarrow> 'h \<times> 'l"
  assumes holds_cong: "(\<And>x. x \<in> set xs \<Longrightarrow> same_at h h' x) \<Longrightarrow> holds h' l xs = holds h l xs"
    and add_tail_holds:
      "holds h l xs \<Longrightarrow> n \<notin> set xs \<Longrightarrow> add_tail (Some n) (h, l) = (h', l') \<Longrightarrow> holds h' l' (xs @ [n])"
    and add_tail_same:
      "holds h l xs \<Longrightarrow> add_tail (Some n) (h, l) = (h', l') \<Longrightarrow> x \<notin> insert n (set xs) \<Longrightarrow>
        same_at h h' x"
    and add_head_holds:
      "holds h l xs \<Longrightarrow> n \<notin> set xs \<Longrightarrow> add_head (Some n) (h, l) = (h', l') \<Longrightarrow> holds h' l' (n # xs)"
    and add_head_same:
      "holds h l xs \<Longrightarrow> add_head (Some n) (h, l) = (h', l') \<Longrightarrow> x \<notin> insert n (set xs) \<Longrightarrow>
        same_at h h' x"
    and remove_holds:
      "holds h l (pre @ n # post) \<Longrightarrow> remove (Some n) (h, l) = (h', l') \<Longrightarrow> holds h' l' (pre @ post)"
    and remove_same:
      "holds h l (pre @ n # post) \<Longrightarrow> remove (Some n) (h, l) = (h', l') \<Longrightarrow>
        x \<notin> set (pre @ n # post) \<Longrightarrow> same_at h h' x"
begin

lemma add_tail_beside:
  assumes "holds h l xs" and "holds h m ys" and "set xs \<inter> set ys = {}" and "n \<notin> set xs \<union> set ys"
    and "add_tail (Some n) (h, l) = (h', l')"
  shows "holds h' l' (xs @ [n])" and "holds h' m ys"
proof -
  from assms(4) have "n \<notin> set xs" by simp
  then show "holds h' l' (xs @ [n])"
    using add_tail_holds assms(1,5) by blast
  from assms(3,4) have "same_at h h' x" if "x \<in> set ys" for x
    using that by (intro add_tail_same [OF assms(1,5)]) auto
  then show "holds h' m ys"
    using holds_cong assms(2) by blast
qed

lemma add_head_beside:
  assumes "holds h l xs" and "holds h m ys" and "set xs \<inter> set ys = {}" and "n \<notin> set xs \<union> set ys"
    and "add_head (Some n) (h, l) = (h', l')"
  shows "holds h' l' (n # xs)" and "holds h' m ys"
proof -
  from assms(4) have "n \<notin> set xs" by simp
  then show "holds h' l' (n # xs)"
    using add_head_holds assms(1,5) by blast
  from assms(3,4) have "same_at h h' x" if "x \<in> set ys" for x
    using that by (intro add_head_same [OF assms(1,5)]) auto
  then show "holds h' m ys"
    using holds_cong assms(2) by blast
qed

lemma remove_beside:
  assumes "holds h l (pre @ n # post)" and "holds h m ys" and "set (pre @ n # post) \<inter> set ys = {}"
    and "remove (Some n) (h, l) = (h', l')"
  shows "holds h' l' (pre @ post)" and "holds h' m ys"
proof -
  show "holds h' l' (pre @ post)"
    using remove_holds assms(1,4) by blast
  from assms(3) have "same_at h h' x" if "x \<in> set ys" for x
    using that by (intro remove_same [OF assms(1,4)]) auto
  then show "holds h' m ys"
    using holds_cong assms(2) by blast
qed

end

text \<open>Equal links and data at a node.\<close>

definition same_node :: "node_heap \<Rightarrow> node_heap \<Rightarrow> node_ptr \<Rightarrow> bool" where
  "same_node h h' x \<longleftrightarrow> hp_next h' x = hp_next h x \<and> hp_prev h' x = hp_prev h x \<and>
     hp_node h' x = hp_node h x"

interpretation fl: frame_lists dll same_node frame_list_add_tail_nolock
  frame_list_add_head_nolock frame_list_remove_nolock
proof (unfold_locales, goal_cases)
  case (1 xs h h' l)
  then show ?case by (intro dll_cong) (auto simp: same_node_def)
next
  case (2 h l xs n h' l')
  then show ?case by (rule add_tail_dll)
next
  case (3 h l xs n h' l' x)
  then show ?case using add_tail_frame by (simp add: same_node_def)
next
  case (4 h l xs n h' l')
  then show ?case by (rule add_head_dll)
next
  case (5 h l xs n h' l' x)
  then show ?case using add_head_frame by (simp add: same_node_def)
next
  case (6 h l pre n post h' l')
  then show ?case by (rule remove_dll)
next
  case (7 h l pre n post h' l' x)
  then show ?case using remove_frame by (simp add: same_node_def)
qed

section \<open>A queue and the lists it holds\<close>

text \<open>
  \<open>qwf h0 X L v fs rs\<close>: in the view \<open>v\<close> the free list holds \<open>fs\<close> and the ready list \<open>rs\<close>;
  the nodes of \<open>L\<close> are on neither; these are the nodes \<open>X\<close> of the queue, and every other
  node is as in the heap \<open>h0\<close>.
\<close>

definition qwf ::
    "node_heap \<Rightarrow> node_ptr set \<Rightarrow> node_ptr set \<Rightarrow> queue_view \<Rightarrow> node_ptr list \<Rightarrow> node_ptr list \<Rightarrow> bool"
  where
  "qwf h0 X L v fs rs \<longleftrightarrow>
     dll (fst v) (free_list (snd v)) fs \<and> dll (fst v) (ready_list (snd v)) rs \<and>
     set fs \<inter> set rs = {} \<and> L \<inter> (set fs \<union> set rs) = {} \<and> set fs \<union> set rs \<union> L = X \<and>
     (\<forall>x. x \<notin> X \<longrightarrow> same_node h0 (fst v) x)"

definition absq :: "queue_view \<Rightarrow> node_ptr list \<Rightarrow> node_ptr list \<Rightarrow> abs_queue" where
  "absq v fs rs = \<lparr>q_count = q_count (snd v), q_format = q_format (snd v),
     active_consumers = active_consumers (snd v), q_consumers = q_consumers (snd v),
     total_malloc = total_malloc (snd v), total_complete = total_complete (snd v),
     total_free = total_free (snd v),
     a_free = map (hp_node (fst v)) fs, a_ready = map (hp_node (fst v)) rs\<rparr>"

lemma absq_simps [simp]:
  "a_free (absq v fs rs) = map (hp_node (fst v)) fs"
  "a_ready (absq v fs rs) = map (hp_node (fst v)) rs"
  "q_count (absq v fs rs) = q_count (snd v)" "q_format (absq v fs rs) = q_format (snd v)"
  "active_consumers (absq v fs rs) = active_consumers (snd v)"
  "q_consumers (absq v fs rs) = q_consumers (snd v)"
  "total_malloc (absq v fs rs) = total_malloc (snd v)"
  "total_complete (absq v fs rs) = total_complete (snd v)"
  "total_free (absq v fs rs) = total_free (snd v)"
  by (simp_all add: absq_def)

text \<open>The steps: writing a node's data, unlinking a node, linking it again.\<close>

lemma upd_node_simps [simp]:
  "hp_node (fst (upd_node n f v)) = (hp_node (fst v))(n := f (hp_node (fst v) n))"
  "hp_next (fst (upd_node n f v)) = hp_next (fst v)"
  "snd (upd_node n f v) = snd v"
  by (auto simp: upd_node_def split: prod.splits)

lemma qwf_upd_node:
  "qwf h0 X L v fs rs \<Longrightarrow> n \<in> X \<Longrightarrow> qwf h0 X L (upd_node n f v) fs rs"
  by (auto simp: qwf_def upd_node_def same_node_def split: prod.splits)

lemma dll_split_notin: "dll h l (pre @ n # post) \<Longrightarrow> n \<notin> set pre \<and> n \<notin> set post"
  by (auto dest: dll_distinct)

text \<open>The fields of a queue other than its lists.\<close>

definition same_info :: "frame_queue \<Rightarrow> frame_queue \<Rightarrow> bool" where
  "same_info q q' \<longleftrightarrow> q_count q' = q_count q \<and> q_format q' = q_format q \<and>
     active_consumers q' = active_consumers q \<and> q_consumers q' = q_consumers q \<and>
     total_malloc q' = total_malloc q \<and> total_complete q' = total_complete q \<and>
     total_free q' = total_free q"

lemma qwf_on_free:
  assumes "qwf h0 X L v fs rs" and "f (fst v, free_list (snd v)) = (h', l')"
    and "dll h' l' fs'" and "dll h' (ready_list (snd v)) rs" and "hp_node h' = hp_node (fst v)"
    and "\<And>x. x \<notin> X \<Longrightarrow> same_node (fst v) h' x"
    and "set fs' \<inter> set rs = {}" and "L' \<inter> (set fs' \<union> set rs) = {}" and "set fs' \<union> set rs \<union> L' = X"
  shows "qwf h0 X L' (on_free_list f v) fs' rs"
    and "hp_node (fst (on_free_list f v)) = hp_node (fst v)"
    and "same_info (snd v) (snd (on_free_list f v))"
  using assms
  by (auto simp: qwf_def on_free_list_def same_node_def same_info_def split: prod.splits)

lemma qwf_on_ready:
  assumes "qwf h0 X L v fs rs" and "f (fst v, ready_list (snd v)) = (h', l')"
    and "dll h' l' rs'" and "dll h' (free_list (snd v)) fs" and "hp_node h' = hp_node (fst v)"
    and "\<And>x. x \<notin> X \<Longrightarrow> same_node (fst v) h' x"
    and "set fs \<inter> set rs' = {}" and "L' \<inter> (set fs \<union> set rs') = {}" and "set fs \<union> set rs' \<union> L' = X"
  shows "qwf h0 X L' (on_ready_list f v) fs rs'"
    and "hp_node (fst (on_ready_list f v)) = hp_node (fst v)"
    and "same_info (snd v) (snd (on_ready_list f v))"
  using assms
  by (auto simp: qwf_def on_ready_list_def same_node_def same_info_def split: prod.splits)

lemma qwf_parts:
  assumes "qwf h0 X L v fs rs"
  shows "dll (fst v) (free_list (snd v)) fs" "dll (fst v) (ready_list (snd v)) rs"
    "set fs \<inter> set rs = {}" "set rs \<inter> set fs = {}" "L \<inter> (set fs \<union> set rs) = {}"
    "set fs \<union> set rs \<union> L = X"
  using assms by (auto simp: qwf_def)

lemma qwf_ready_remove:
  assumes wf: "qwf h0 X L v fs (pre @ n # post)"
  defines "v' \<equiv> on_ready_list (frame_list_remove_nolock (Some n)) v"
  shows "qwf h0 X (insert n L) v' fs (pre @ post)"
    and "hp_node (fst v') = hp_node (fst v)" and "same_info (snd v) (snd v')"
proof -
  obtain h' l' where r: "frame_list_remove_nolock (Some n) (fst v, ready_list (snd v)) = (h', l')"
    by (metis surj_pair)
  note d = qwf_parts [OF wf]
  have o: "\<And>x. x \<notin> X \<Longrightarrow> same_node (fst v) h' x"
    by (rule fl.remove_same [OF d(2) r]) (use d(6) in auto)
  have "set fs \<inter> set (pre @ post) = {}" "insert n L \<inter> (set fs \<union> set (pre @ post)) = {}"
    "set fs \<union> set (pre @ post) \<union> insert n L = X"
    using d(3,5,6) dll_split_notin [OF d(2)] by auto
  from qwf_on_ready [where f = "frame_list_remove_nolock (Some n)", OF wf r
      fl.remove_beside [OF d(2,1,4) r] remove_frame(1) [OF d(2) r] o this]
  show "qwf h0 X (insert n L) v' fs (pre @ post)"
    and "hp_node (fst v') = hp_node (fst v)" and "same_info (snd v) (snd v')"
    by (simp_all add: v'_def)
qed

lemma qwf_free_remove:
  assumes wf: "qwf h0 X L v (pre @ n # post) rs"
  defines "v' \<equiv> on_free_list (frame_list_remove_nolock (Some n)) v"
  shows "qwf h0 X (insert n L) v' (pre @ post) rs"
    and "hp_node (fst v') = hp_node (fst v)" and "same_info (snd v) (snd v')"
proof -
  obtain h' l' where r: "frame_list_remove_nolock (Some n) (fst v, free_list (snd v)) = (h', l')"
    by (metis surj_pair)
  note d = qwf_parts [OF wf]
  have o: "\<And>x. x \<notin> X \<Longrightarrow> same_node (fst v) h' x"
    by (rule fl.remove_same [OF d(1) r]) (use d(6) in auto)
  have "set (pre @ post) \<inter> set rs = {}" "insert n L \<inter> (set (pre @ post) \<union> set rs) = {}"
    "set (pre @ post) \<union> set rs \<union> insert n L = X"
    using d(3,5,6) dll_split_notin [OF d(1)] by auto
  from qwf_on_free [where f = "frame_list_remove_nolock (Some n)", OF wf r
      fl.remove_beside [OF d(1,2,3) r] remove_frame(1) [OF d(1) r] o this]
  show "qwf h0 X (insert n L) v' (pre @ post) rs"
    and "hp_node (fst v') = hp_node (fst v)" and "same_info (snd v) (snd v')"
    by (simp_all add: v'_def)
qed

lemma qwf_ready_add_tail:
  assumes wf: "qwf h0 X (insert n L) v fs rs" and n: "n \<notin> L"
  defines "v' \<equiv> on_ready_list (frame_list_add_tail_nolock (Some n)) v"
  shows "qwf h0 X L v' fs (rs @ [n])"
    and "hp_node (fst v') = hp_node (fst v)" and "same_info (snd v) (snd v')"
proof -
  obtain h' l' where r: "frame_list_add_tail_nolock (Some n) (fst v, ready_list (snd v)) = (h', l')"
    by (metis surj_pair)
  note d = qwf_parts [OF wf]
  have nn: "n \<notin> set rs \<union> set fs" using d(5) by auto
  have o: "\<And>x. x \<notin> X \<Longrightarrow> same_node (fst v) h' x"
    by (rule fl.add_tail_same [OF d(2) r]) (use d(6) in auto)
  have "set fs \<inter> set (rs @ [n]) = {}" "L \<inter> (set fs \<union> set (rs @ [n])) = {}"
    "set fs \<union> set (rs @ [n]) \<union> L = X"
    using d(3,5,6) n by auto
  from qwf_on_ready [where f = "frame_list_add_tail_nolock (Some n)", OF wf r
      fl.add_tail_beside [OF d(2,1,4) nn r] add_tail_frame(1) [OF d(2) r] o this]
  show "qwf h0 X L v' fs (rs @ [n])"
    and "hp_node (fst v') = hp_node (fst v)" and "same_info (snd v) (snd v')"
    by (simp_all add: v'_def)
qed

lemma qwf_free_add_tail:
  assumes wf: "qwf h0 X (insert n L) v fs rs" and n: "n \<notin> L"
  defines "v' \<equiv> on_free_list (frame_list_add_tail_nolock (Some n)) v"
  shows "qwf h0 X L v' (fs @ [n]) rs"
    and "hp_node (fst v') = hp_node (fst v)" and "same_info (snd v) (snd v')"
proof -
  obtain h' l' where r: "frame_list_add_tail_nolock (Some n) (fst v, free_list (snd v)) = (h', l')"
    by (metis surj_pair)
  note d = qwf_parts [OF wf]
  have nn: "n \<notin> set fs \<union> set rs" using d(5) by auto
  have o: "\<And>x. x \<notin> X \<Longrightarrow> same_node (fst v) h' x"
    by (rule fl.add_tail_same [OF d(1) r]) (use d(6) in auto)
  have "set (fs @ [n]) \<inter> set rs = {}" "L \<inter> (set (fs @ [n]) \<union> set rs) = {}"
    "set (fs @ [n]) \<union> set rs \<union> L = X"
    using d(3,5,6) n by auto
  from qwf_on_free [where f = "frame_list_add_tail_nolock (Some n)", OF wf r
      fl.add_tail_beside [OF d(1,2,3) nn r] add_tail_frame(1) [OF d(1) r] o this]
  show "qwf h0 X L v' (fs @ [n]) rs"
    and "hp_node (fst v') = hp_node (fst v)" and "same_info (snd v) (snd v')"
    by (simp_all add: v'_def)
qed

lemma qwf_free_add_head:
  assumes wf: "qwf h0 X (insert n L) v fs rs" and n: "n \<notin> L"
  defines "v' \<equiv> on_free_list (frame_list_add_head_nolock (Some n)) v"
  shows "qwf h0 X L v' (n # fs) rs"
    and "hp_node (fst v') = hp_node (fst v)" and "same_info (snd v) (snd v')"
proof -
  obtain h' l' where r: "frame_list_add_head_nolock (Some n) (fst v, free_list (snd v)) = (h', l')"
    by (metis surj_pair)
  note d = qwf_parts [OF wf]
  have nn: "n \<notin> set fs \<union> set rs" using d(5) by auto
  have o: "\<And>x. x \<notin> X \<Longrightarrow> same_node (fst v) h' x"
    by (rule fl.add_head_same [OF d(1) r]) (use d(6) in auto)
  have "set (n # fs) \<inter> set rs = {}" "L \<inter> (set (n # fs) \<union> set rs) = {}"
    "set (n # fs) \<union> set rs \<union> L = X"
    using d(3,5,6) n by auto
  from qwf_on_free [where f = "frame_list_add_head_nolock (Some n)", OF wf r
      fl.add_head_beside [OF d(1,2,3) nn r] add_head_frame(1) [OF d(1) r] o this]
  show "qwf h0 X L v' (n # fs) rs"
    and "hp_node (fst v') = hp_node (fst v)" and "same_info (snd v) (snd v')"
    by (simp_all add: v'_def)
qed

text \<open>
  The abstract queue after a step on a node at a known place. \<open>qrep\<close> hides the node
  addresses.
\<close>

definition qrep :: "node_heap \<Rightarrow> node_ptr set \<Rightarrow> queue_view \<Rightarrow> abs_queue \<Rightarrow> bool" where
  "qrep h0 X v a \<longleftrightarrow> (\<exists>fs rs. qwf h0 X {} v fs rs \<and> a = absq v fs rs)"

lemma qrepI: "qwf h0 X {} v fs rs \<Longrightarrow> absq v fs rs = a \<Longrightarrow> qrep h0 X v a"
  by (auto simp: qrep_def)

lemma qwf_distinct:
  assumes "qwf h0 X L v fs rs"
  shows "distinct fs" "distinct rs" "set fs \<inter> set rs = {}" "L \<inter> (set fs \<union> set rs) = {}"
    and "set fs \<union> set rs \<union> L = X"
  using assms by (auto simp: qwf_def dest: dll_distinct)

lemma qwf_mem: "qwf h0 X L v fs rs \<Longrightarrow> n \<in> set fs \<union> set rs \<union> L \<Longrightarrow> n \<in> X"
  by (auto simp: qwf_def)

lemma map_split_upd:
  "distinct (pre @ n # post) \<Longrightarrow>
     map (f(n := d)) (pre @ n # post) = map f pre @ d # map f post"
  by (auto simp: map_fun_upd)

lemma map_upd_notin: "n \<notin> set xs \<Longrightarrow> map (f(n := d)) xs = map f xs"
  by (auto simp: map_fun_upd)

lemma search_free:
  assumes "qwf h0 X L v fs rs"
  shows "list_search (fst v) P (fl_head (free_list (snd v))) =
     Some (map_option (\<lambda>(pre, n, post). n) (List.extract (P \<circ> hp_node (fst v)) fs))"
  using assms by (intro list_search_extract) (auto simp: qwf_def)

lemma search_ready:
  assumes "qwf h0 X L v fs rs"
  shows "list_search (fst v) P (fl_head (ready_list (snd v))) =
     Some (map_option (\<lambda>(pre, n, post). n) (List.extract (P \<circ> hp_node (fst v)) rs))"
  using assms by (intro list_search_extract) (auto simp: qwf_def)

text \<open>Returning a ready node to the free list.\<close>

lemma recycle_wf:
  assumes "qwf h0 X L v fs (pre @ n # post)"
  defines "v' \<equiv> recycle_node n v"
  shows "qwf h0 X L v' (fs @ [n]) (pre @ post)"
    and "hp_node (fst v') = (hp_node (fst v))(n := reset_node (hp_node (fst v) n))"
    and "same_info (snd v) (snd v')"
proof -
  let ?v1 = "on_ready_list (frame_list_remove_nolock (Some n)) v"
  let ?v2 = "upd_node n reset_node ?v1"
  note 1 = qwf_ready_remove [OF assms(1)]
  from 1(1) have 2: "qwf h0 X (insert n L) ?v2 fs (pre @ post)"
    by (intro qwf_upd_node) (auto dest: qwf_mem)
  have n: "n \<notin> L"
    using qwf_distinct [OF assms(1)] by auto
  have v': "v' = on_free_list (frame_list_add_tail_nolock (Some n)) ?v2"
    by (simp add: v'_def recycle_node_def Let_def)
  note 3 = qwf_free_add_tail [OF 2 n, folded v']
  show "qwf h0 X L v' (fs @ [n]) (pre @ post)"
    by (rule 3(1))
  show "hp_node (fst v') = (hp_node (fst v))(n := reset_node (hp_node (fst v) n))"
    using 3(2) 1(2) by simp
  show "same_info (snd v) (snd v')"
    using 3(3) 1(3) by (simp add: same_info_def)
qed

section \<open>Sweeps over the ready list\<close>

definition sweep_step ::
    "(frame_node \<Rightarrow> bool \<times> frame_node) \<Rightarrow> u32 \<Rightarrow> frame_node \<Rightarrow> abs_queue \<Rightarrow> abs_queue" where
  "sweep_step f inc nd a =
     (if fst (f nd) then a\<lparr>a_free := a_free a @ [snd (f nd)], total_free := total_free a + inc\<rparr>
      else a\<lparr>a_ready := a_ready a @ [snd (f nd)]\<rparr>)"

lemma fold_sweep_step:
  "fold (sweep_step f inc) xs a =
     a\<lparr>a_free := a_free a @ moved f xs, a_ready := a_ready a @ kept f xs,
       total_free := total_free a + of_nat (length (moved f xs)) * inc\<rparr>"
  by (induction xs arbitrary: a) (simp_all add: sweep_step_def algebra_simps)

definition sweep_rel ::
    "node_heap \<Rightarrow> node_ptr set \<Rightarrow> (node_ptr \<Rightarrow> frame_node) \<Rightarrow> queue_view \<Rightarrow> abs_queue \<Rightarrow>
      node_ptr list \<Rightarrow> bool" where
  "sweep_rel h0 X D v a todo \<longleftrightarrow>
     (\<exists>fs ks. qwf h0 X {} v fs (ks @ todo) \<and> a = absq v fs ks \<and>
        (\<forall>n \<in> set todo. hp_node (fst v) n = D n))"

lemma sweep_relI:
  "qwf h0 X {} v fs (ks @ todo) \<Longrightarrow> absq v fs ks = a \<Longrightarrow>
     \<forall>n \<in> set todo. hp_node (fst v) n = D n \<Longrightarrow> sweep_rel h0 X D v a todo"
  by (auto simp: sweep_rel_def)

text \<open>
  A loop body that performs the visit \<open>f\<close> on the node: it writes the node's new value and,
  when the visit says so, moves the node to the free list and counts \<open>inc\<close>.
\<close>

locale sweep =
  fixes body :: "node_ptr \<Rightarrow> queue_view \<Rightarrow> queue_view"
    and f :: "frame_node \<Rightarrow> bool \<times> frame_node"
    and inc :: u32
  assumes body_node: "qwf h0 X {} v fs (pre @ n # post) \<Longrightarrow>
      hp_node (fst (body n v)) = (hp_node (fst v))(n := snd (f (hp_node (fst v) n)))"
    and body_moved: "qwf h0 X {} v fs (pre @ n # post) \<Longrightarrow> fst (f (hp_node (fst v) n)) \<Longrightarrow>
      qwf h0 X {} (body n v) (fs @ [n]) (pre @ post) \<and>
      same_info ((snd v)\<lparr>total_free := total_free (snd v) + inc\<rparr>) (snd (body n v))"
    and body_kept: "qwf h0 X {} v fs (pre @ n # post) \<Longrightarrow> \<not> fst (f (hp_node (fst v) n)) \<Longrightarrow>
      qwf h0 X {} (body n v) fs (pre @ n # post) \<and> same_info (snd v) (snd (body n v))"
begin

lemma sweep_successor: "sweep_rel h0 X D v a (n # todo) \<Longrightarrow> view_next v n = first_of todo None"
  by (auto simp: sweep_rel_def view_next_def dest!: qwf_parts(2) linked_neighbours(2))

lemma sweep_body:
  assumes "sweep_rel h0 X D v a (n # todo)"
  shows "sweep_rel h0 X D (body n v) (sweep_step f inc (D n) a) todo"
proof -
  from assms obtain fs ks where wf: "qwf h0 X {} v fs (ks @ n # todo)"
    and a: "a = absq v fs ks" and D: "\<forall>m \<in> set (n # todo). hp_node (fst v) m = D m"
    by (auto simp: sweep_rel_def)
  note node = body_node [OF wf]
  have dist: "n \<notin> set fs" "n \<notin> set ks" "n \<notin> set todo"
    using qwf_distinct [OF wf] by auto
  show ?thesis
  proof (cases "fst (f (D n))")
    case True
    with D body_moved [OF wf] dist show ?thesis
      by (intro sweep_relI [of _ _ _ "fs @ [n]" ks])
        (auto simp: a sweep_step_def absq_def same_info_def node map_upd_notin)
  next
    case False
    with D body_kept [OF wf] dist show ?thesis
      by (intro sweep_relI [of _ _ _ fs "ks @ [n]"])
        (auto simp: a sweep_step_def absq_def same_info_def node map_upd_notin)
  qed
qed

end

sublocale sweep \<subseteq> walk: list_walk view_next body "sweep_rel h0 X D" "\<lambda>n. sweep_step f inc (D n)"
  for h0 X D
  by unfold_locales (auto intro: sweep_successor sweep_body)

context sweep
begin

text \<open>The loop over the ready list, on the abstract queue.\<close>

lemma sweep_loop:
  assumes "qrep h0 X v a"
  shows "\<exists>v'. list_for_each_safe view_next body (fl_head (ready_list (snd v))) v = Some v' \<and>
     qrep h0 X v' (a\<lparr>a_free := a_free a @ moved f (a_ready a), a_ready := kept f (a_ready a),
       total_free := total_free a + of_nat (length (moved f (a_ready a))) * inc\<rparr>)"
proof -
  from assms obtain fs rs where wf: "qwf h0 X {} v fs rs" and a: "a = absq v fs rs"
    by (auto simp: qrep_def)
  let ?D = "hp_node (fst v)"
  have head: "fl_head (ready_list (snd v)) = first_of rs None"
    using wf by (simp add: qwf_def dll_def)
  have "sweep_rel h0 X ?D v (absq v fs []) rs"
    using wf by (intro sweep_relI [of _ _ _ fs "[]"]) auto
  then obtain v' where
    loop: "list_for_each_safe view_next body (first_of rs None) v = Some v'"
    and R: "sweep_rel h0 X ?D v' (fold (\<lambda>n. sweep_step f inc (?D n)) rs (absq v fs [])) []"
    using walk.walk_sim by blast
  from R obtain fs' rs' where wf': "qwf h0 X {} v' fs' rs'"
    and a': "fold (\<lambda>n. sweep_step f inc (?D n)) rs (absq v fs []) = absq v' fs' rs'"
    by (auto simp: sweep_rel_def)
  have "fold (\<lambda>n. sweep_step f inc (?D n)) rs (absq v fs []) =
      fold (sweep_step f inc) (map ?D rs) (absq v fs [])"
    by (simp add: fold_map comp_def)
  also have "\<dots> = a\<lparr>a_free := a_free a @ moved f (a_ready a), a_ready := kept f (a_ready a),
       total_free := total_free a + of_nat (length (moved f (a_ready a))) * inc\<rparr>"
    by (simp add: fold_sweep_step a absq_def)
  finally have result: "absq v' fs' rs' =
      a\<lparr>a_free := a_free a @ moved f (a_ready a), a_ready := kept f (a_ready a),
       total_free := total_free a + of_nat (length (moved f (a_ready a))) * inc\<rparr>"
    by (simp only: a')
  from wf' have "qwf h0 X {} v' fs' rs'" by simp
  from qrepI [OF this result] loop head show ?thesis by simp
qed

end

interpretation clear_ready: sweep clear_ready_body clear_visit 0
proof (unfold_locales, goal_cases)
  case (1 h0 X v fs pre n post)
  show ?case using recycle_wf(2) [OF 1] by (simp add: clear_ready_body_def clear_visit_def)
next
  case (2 h0 X v fs pre n post)
  then show ?case using recycle_wf(1,3) [OF 2(1)]
    by (simp add: clear_ready_body_def clear_visit_def same_info_def split: if_splits)
next
  case (3 h0 X v fs pre n post)
  then show ?case
    by (simp add: clear_ready_body_def clear_visit_def same_info_def split: if_splits)
qed

interpretation cleanup: sweep cleanup_body cleanup_visit 0
proof (unfold_locales, goal_cases)
  case (1 h0 X v fs pre n post)
  show ?case using recycle_wf(2) [OF 1] by (simp add: cleanup_body_def cleanup_visit_def Let_def)
next
  case (2 h0 X v fs pre n post)
  then show ?case using recycle_wf(1,3) [OF 2(1)]
    by (simp add: cleanup_body_def cleanup_visit_def same_info_def Let_def split: if_splits)
next
  case (3 h0 X v fs pre n post)
  then show ?case
    by (auto simp: cleanup_body_def cleanup_visit_def same_info_def Let_def split: if_splits)
qed

text \<open>The body of the unregistration loop, with the node's mask already narrowed.\<close>

lemma unregister_cases:
  fixes v n cid
  defines "nd \<equiv> hp_node (fst v) n"
  defines "v1 \<equiv> upd_node n (\<lambda>nd. nd\<lparr>consumer_mask := consumer_mask nd AND NOT cid\<rparr>) v"
  shows "\<not> wanted cid nd \<Longrightarrow> unregister_body cid n v = v"
    and "wanted cid nd \<Longrightarrow> fst (unregister_visit cid nd) \<Longrightarrow>
      unregister_body cid n v =
        (fst (recycle_node n v1), (snd (recycle_node n v1))
          \<lparr>total_free := total_free (snd (recycle_node n v1)) + 1\<rparr>)"
    and "wanted cid nd \<Longrightarrow> \<not> fst (unregister_visit cid nd) \<Longrightarrow> unregister_body cid n v = v1"
  by (auto simp: unregister_body_def unregister_visit_def wanted_def all_accessed_def nd_def v1_def
      Let_def split: prod.splits if_splits)

interpretation unregister: sweep "unregister_body cid" "unregister_visit cid" 1 for cid
proof (unfold_locales, goal_cases)
  case (1 h0 X v fs pre n post)
  let ?v1 = "upd_node n (\<lambda>nd. nd\<lparr>consumer_mask := consumer_mask nd AND NOT cid\<rparr>) v"
  have "qwf h0 X {} ?v1 fs (pre @ n # post)"
    using 1 by (intro qwf_upd_node) (auto dest: qwf_mem)
  from recycle_wf(2) [OF this] show ?case
    using unregister_cases [of cid v n]
    by (cases "wanted cid (hp_node (fst v) n)"; cases "fst (unregister_visit cid (hp_node (fst v) n))")
      (auto simp: unregister_visit_def Let_def split: if_splits)
next
  case (2 h0 X v fs pre n post)
  let ?v1 = "upd_node n (\<lambda>nd. nd\<lparr>consumer_mask := consumer_mask nd AND NOT cid\<rparr>) v"
  have wf: "qwf h0 X {} ?v1 fs (pre @ n # post)"
    using 2 by (intro qwf_upd_node) (auto dest: qwf_mem)
  have w: "wanted cid (hp_node (fst v) n)"
    using 2(2) by (auto simp: unregister_visit_def split: if_splits)
  have "qwf h0 X {} (unregister_body cid n v) (fs @ [n]) (pre @ post)"
    using recycle_wf(1) [OF wf] unfolding unregister_cases(2) [OF w 2(2)] by (simp add: qwf_def)
  moreover have "same_info ((snd v)\<lparr>total_free := total_free (snd v) + 1\<rparr>)
      (snd (unregister_body cid n v))"
    using recycle_wf(3) [OF wf] unfolding unregister_cases(2) [OF w 2(2)]
    by (simp add: same_info_def)
  ultimately show ?case ..
next
  case (3 h0 X v fs pre n post)
  have "qwf h0 X {} (upd_node n g v) fs (pre @ n # post)" for g
    using 3 by (intro qwf_upd_node) (auto dest: qwf_mem)
  then show ?case
    using 3 unregister_cases(1,3) [of cid v n]
    by (cases "wanted cid (hp_node (fst v) n)") (simp_all add: same_info_def)
qed

end
