(* ===== verification/Frame_Queue_Refine.thy ===== *)
theory Frame_Queue_Refine
  imports Frame_Queue_Lists
begin

text \<open>
  Every critical section of \<open>Frame_Queue\<close>, on the pointer state of one queue, computes the
  abstract operation of \<open>Frame_Queue_Spec\<close>; its walks along the lists end.
\<close>

section \<open>Writing the data of a node at a known place\<close>

lemma absq_upd_free:
  assumes "qwf h0 X L v (pre @ n # post) rs"
  shows "absq (upd_node n f v) (pre @ n # post) rs =
    (absq v (pre @ n # post) rs)
      \<lparr>a_free := map (hp_node (fst v)) pre @ f (hp_node (fst v) n) # map (hp_node (fst v)) post\<rparr>"
  using qwf_distinct [OF assms] by (simp add: absq_def map_upd_notin)

lemma absq_upd_ready:
  assumes "qwf h0 X L v fs (pre @ n # post)"
  shows "absq (upd_node n f v) fs (pre @ n # post) =
    (absq v fs (pre @ n # post))
      \<lparr>a_ready := map (hp_node (fst v)) pre @ f (hp_node (fst v) n) # map (hp_node (fst v)) post\<rparr>"
  using qwf_distinct [OF assms] by (simp add: absq_def map_upd_notin)

lemma qrep_upd_free:
  assumes "qwf h0 X {} v (pre @ n # post) rs"
    and "a = (absq v (pre @ n # post) rs)
      \<lparr>a_free := map (hp_node (fst v)) pre @ f (hp_node (fst v) n) # map (hp_node (fst v)) post\<rparr>"
  shows "qrep h0 X (upd_node n f v) a"
  using assms qwf_upd_node [OF assms(1), of n f] absq_upd_free [OF assms(1), of f]
  by (auto intro!: qrepI dest: qwf_mem)

text \<open>Fields of the queue that are no list.\<close>

lemma qwf_info:
  "free_list q' = free_list q \<Longrightarrow> ready_list q' = ready_list q \<Longrightarrow>
     qwf h0 X L (h, q') fs rs = qwf h0 X L (h, q) fs rs"
  by (simp add: qwf_def)

lemma qrepE:
  assumes "qrep h0 X v a"
  obtains fs rs where "qwf h0 X {} v fs rs" and "a = absq v fs rs"
  using assms by (auto simp: qrep_def)

section \<open>Clearing\<close>

lemma clear_ready_refines:
  assumes "qrep h0 X v a"
  shows "\<exists>v'. clear_ready_cs v = Some v' \<and> qrep h0 X v' (a_sweep clear_visit a)"
  using clear_ready.sweep_loop [OF assms] by (simp add: clear_ready_cs_def a_sweep_def)

lemma clear_free_loop:
  assumes "dlinked h pv xs None" and "distinct xs"
  shows "\<exists>h'. list_for_each (\<lambda>s. hp_next (fst s)) (clear_free_body fmt) (first_of xs None) (h, cs) =
      Some (h', cs @ concat (map (free_calls fmt \<circ> hp_node h) xs)) \<and>
    hp_next h' = hp_next h \<and> hp_prev h' = hp_prev h \<and>
    hp_node h' = (\<lambda>n. if n \<in> set xs then drop_buffer (hp_node h n) else hp_node h n)"
  using assms
proof (induction xs arbitrary: h pv cs)
  case Nil
  then show ?case by (simp add: list_for_each.simps)
next
  case (Cons x xs)
  let ?h1 = "set_node x (drop_buffer (hp_node h x)) h"
  let ?cs1 = "cs @ free_calls fmt (hp_node h x)"
  have body: "clear_free_body fmt x (h, cs) = (?h1, ?cs1)"
    by (cases "hp_node h x")
      (auto simp: clear_free_body_def drop_buffer_def free_calls_def split: option.splits)
  have "dlinked ?h1 (Some x) xs None" "distinct xs"
    using Cons.prems dlinked_cong [of xs ?h1 h] by auto
  from Cons.IH [OF this, of ?cs1] obtain h' where
    h': "list_for_each (\<lambda>s. hp_next (fst s)) (clear_free_body fmt) (first_of xs None) (?h1, ?cs1) =
        Some (h', ?cs1 @ concat (map (free_calls fmt \<circ> hp_node ?h1) xs))"
      "hp_next h' = hp_next ?h1" "hp_prev h' = hp_prev ?h1"
      "hp_node h' = (\<lambda>n. if n \<in> set xs then drop_buffer (hp_node ?h1 n) else hp_node ?h1 n)"
    by blast
  have calls: "map (free_calls fmt \<circ> hp_node ?h1) xs = map (free_calls fmt \<circ> hp_node h) xs"
    using Cons.prems(2) by auto
  from h'(1) [unfolded calls] h'(2-) Cons.prems show ?case
    by (auto simp: list_for_each.simps [of _ _ "Some x"] body Let_def fun_eq_iff comp_def)
qed

lemma clear_free_refines:
  assumes "qrep h0 X v a"
  shows "\<exists>v'. clear_free_cs v = Some (v', concat (map (free_calls (q_format a)) (a_free a))) \<and>
    qrep h0 X v' (a\<lparr>a_free := map drop_buffer (a_free a)\<rparr>)"
proof -
  from assms obtain fs rs where wf: "qwf h0 X {} v fs rs" and a: "a = absq v fs rs"
    by (rule qrepE)
  note d = qwf_parts [OF wf]
  have "dlinked (fst v) None fs None" "distinct fs" and head: "fl_head (free_list (snd v)) = first_of fs None"
    using d(1) by (auto simp: dll_def)
  from clear_free_loop [OF this(1,2), of "q_format (snd v)" "[]"] obtain h' where
    loop: "list_for_each (\<lambda>s. hp_next (fst s)) (clear_free_body (q_format (snd v)))
        (first_of fs None) (fst v, []) =
        Some (h', concat (map (free_calls (q_format (snd v)) \<circ> hp_node (fst v)) fs))"
    and h': "hp_next h' = hp_next (fst v)" "hp_prev h' = hp_prev (fst v)"
      "hp_node h' = (\<lambda>n. if n \<in> set fs then drop_buffer (hp_node (fst v) n) else hp_node (fst v) n)"
    by auto
  have "qwf h0 X {} (h', snd v) fs rs"
    using wf dll_cong [of fs h' "fst v"] dll_cong [of rs h' "fst v"] h'
    by (auto simp: qwf_def same_node_def)
  moreover have "absq (h', snd v) fs rs = a\<lparr>a_free := map drop_buffer (a_free a)\<rparr>"
    using d(3) by (auto simp: a absq_def h')
  ultimately have "qrep h0 X (h', snd v) (a\<lparr>a_free := map drop_buffer (a_free a)\<rparr>)"
    by (rule qrepI)
  then show ?thesis
    using loop by (simp add: clear_free_cs_def head a)
qed

section \<open>Registering and unregistering\<close>

lemma qrep_info:
  assumes "qrep h0 X (h, q) a" and "free_list q' = free_list q" and "ready_list q' = ready_list q"
    and "\<And>fs rs. absq (h, q) fs rs = a \<Longrightarrow> absq (h, q') fs rs = a'"
  shows "qrep h0 X (h, q') a'"
proof -
  from assms(1) obtain fs rs where "qwf h0 X {} (h, q) fs rs" and "a = absq (h, q) fs rs"
    by (rule qrepE)
  then show ?thesis
    using assms(2-4) by (intro qrepI [of _ _ _ fs rs]) (auto simp: qwf_info [of q' q])
qed

lemma register_refines:
  assumes "qrep h0 X v a"
  shows "\<exists>v'. register_cs c cid v = Some v' \<and> qrep h0 X v' (a_register c cid a)"
proof -
  obtain h q where v: "v = (h, q)" by (cases v)
  let ?f = "\<lambda>i. i\<lparr>consumer_id := cid, enabled := 1, get_count := 0, release_count := 0\<rparr>"
  let ?q = "q\<lparr>q_consumers := (q_consumers q)[c := ?f (q_consumers q ! c)],
              active_consumers := active_consumers q OR cid\<rparr>"
  let ?a = "(upd_consumer c ?f a)\<lparr>active_consumers := active_consumers a OR cid\<rparr>"
  have "qrep h0 X (h, ?q) ?a"
    using assms unfolding v by (rule qrep_info) (auto simp: absq_def upd_consumer_def)
  from cleanup.sweep_loop [OF this] show ?thesis
    by (simp add: register_cs_def v Let_def a_register_def a_sweep_def upd_consumer_def)
qed

lemma unregister_refines:
  assumes "qrep h0 X v a"
  shows "\<exists>v'. unregister_cs c cid v = Some v' \<and> qrep h0 X v' (a_unregister c cid a)"
proof -
  obtain h q where v: "v = (h, q)" by (cases v)
  let ?q = "q\<lparr>active_consumers := active_consumers q AND NOT cid,
              q_consumers := (q_consumers q)[c := (q_consumers q ! c)\<lparr>enabled := 0\<rparr>]\<rparr>"
  let ?a = "upd_consumer c (\<lambda>i. i\<lparr>enabled := 0\<rparr>)
              (a\<lparr>active_consumers := active_consumers a AND NOT cid\<rparr>)"
  have "qrep h0 X (h, ?q) ?a"
    using assms unfolding v by (rule qrep_info) (auto simp: absq_def upd_consumer_def)
  from unregister.sweep_loop [OF this, of cid] show ?thesis
    by (simp add: unregister_cs_def v Let_def a_unregister_def a_sweep_def upd_consumer_def)
qed

section \<open>The producer's side\<close>

text \<open>
  The node \<open>malloc_cs\<close> takes, at its place: \<open>picked\<close> collects what is known of it.
\<close>

definition picked ::
    "node_heap \<Rightarrow> node_ptr set \<Rightarrow> queue_view \<Rightarrow> queue_view \<Rightarrow> node_ptr \<Rightarrow>
      frame_node list \<times> frame_node \<times> frame_node list \<times> frame_node list \<Rightarrow> bool" where
  "picked h0 X v v' n r \<longleftrightarrow> (\<exists>fs1 fs2 rs. qwf h0 X {} v' (fs1 @ n # fs2) rs \<and>
     same_info (snd v) (snd v') \<and>
     hp_node (fst v') = (hp_node (fst v))(n := (hp_node (fst v) n)\<lparr>in_use := 1\<rparr>) \<and>
     r = (map (hp_node (fst v)) fs1, hp_node (fst v) n, map (hp_node (fst v)) fs2,
          map (hp_node (fst v)) rs))"

lemma malloc_cs_picks:
  assumes wf: "qwf h0 X {} v fs rs"
  shows "case a_pick format (absq v fs rs) of
      None \<Rightarrow> malloc_cs format v = Some (None, v)
    | Some r \<Rightarrow> \<exists>n v'. malloc_cs format v = Some (Some n, v') \<and> picked h0 X v v' n r"
proof (cases "List.extract ((\<lambda>nd. in_use nd = 0) \<circ> hp_node (fst v)) fs")
  case (Some r)
  obtain pre n post where "r = (pre, n, post)" by (cases r)
  note Some = Some [unfolded this]
  from Some have fs: "fs = pre @ n # post" by (auto dest: extract_SomeD)
  let ?v = "upd_node n (\<lambda>nd. nd\<lparr>in_use := 1\<rparr>) v"
  have "qwf h0 X {} ?v (pre @ n # post) rs"
    using wf unfolding fs by (intro qwf_upd_node) (auto dest: qwf_mem)
  then have "picked h0 X v ?v n (map (hp_node (fst v)) pre, hp_node (fst v) n,
      map (hp_node (fst v)) post, map (hp_node (fst v)) rs)"
    unfolding picked_def by (auto simp: same_info_def)
  then show ?thesis
    by (simp add: a_pick_def extract_map Some malloc_cs_def search_free [OF wf])
next
  case None
  note none_free = this
  show ?thesis
  proof (cases "format = IMAGE_MJPEG \<or> format = IMAGE_YUV")
    case False
    then show ?thesis
      by (simp add: a_pick_def extract_map none_free malloc_cs_def search_free [OF wf])
  next
    case True
    show ?thesis
    proof (cases "List.extract ((\<lambda>nd. ref_count nd = 0) \<circ> hp_node (fst v)) rs")
      case None
      with True show ?thesis
        by (simp add: a_pick_def extract_map none_free malloc_cs_def search_free [OF wf]
            search_ready [OF wf])
    next
      case (Some r)
      obtain pre n post where "r = (pre, n, post)" by (cases r)
      note Some = Some [unfolded this]
      from Some have rs: "rs = pre @ n # post" by (auto dest: extract_SomeD)
      let ?v1 = "on_ready_list (frame_list_remove_nolock (Some n)) v"
      let ?v2 = "upd_node n (\<lambda>nd. nd\<lparr>in_use := 1\<rparr>) ?v1"
      let ?v3 = "on_free_list (frame_list_add_head_nolock (Some n)) ?v2"
      note 1 = qwf_ready_remove [OF wf [unfolded rs]]
      from 1(1) have 2: "qwf h0 X (insert n {}) ?v2 fs (pre @ post)"
        by (intro qwf_upd_node) (auto dest: qwf_mem)
      note 3 = qwf_free_add_head [OF 2]
      have "picked h0 X v ?v3 n ([], hp_node (fst v) n, map (hp_node (fst v)) fs,
          map (hp_node (fst v)) (pre @ post))"
        unfolding picked_def using 3 1(2,3)
        by (intro exI [of _ "[]"] exI [of _ fs] exI [of _ "pre @ post"]) (simp add: same_info_def)
      with True show ?thesis
        by (simp add: a_pick_def extract_map none_free Some malloc_cs_def search_free [OF wf]
            search_ready [OF wf] Let_def)
    qed
  qed
qed

lemma complete_refines:
  assumes "qrep h0 X v a"
  shows "\<exists>v'. complete_cs f frame_ts now now' v =
      Some (if fst (a_complete f (if frame_ts > 0 then frame_ts else now) now' a) = BK_OK
            then Some (count_active_consumers (active_consumers a)) else None, v') \<and>
    (fst (a_complete f (if frame_ts > 0 then frame_ts else now) now' a) = BK_OK \<longrightarrow>
      qrep h0 X (fst v', (snd v')\<lparr>total_complete := total_complete (snd v') + 1\<rparr>)
        (snd (a_complete f (if frame_ts > 0 then frame_ts else now) now' a))) \<and>
    (fst (a_complete f (if frame_ts > 0 then frame_ts else now) now' a) \<noteq> BK_OK \<longrightarrow> v' = v)"
proof -
  from assms obtain fs rs where wf: "qwf h0 X {} v fs rs" and a: "a = absq v fs rs"
    by (rule qrepE)
  let ?P = "\<lambda>nd. in_use nd = 1 \<and> nd_frame nd = Some f"
  have P: "?P \<circ> hp_node (fst v) = in_use_with f \<circ> hp_node (fst v)"
    by (auto simp: in_use_with_def)
  show ?thesis
  proof (cases "List.extract (in_use_with f \<circ> hp_node (fst v)) fs")
    case None
    then show ?thesis
      by (simp add: a_complete_def a extract_map complete_cs_def search_free [OF wf] P)
  next
    case (Some r)
    obtain pre n post where "r = (pre, n, post)" by (cases r)
    note Some = Some [unfolded this]
    from Some have fs: "fs = pre @ n # post" by (auto dest: extract_SomeD)
    let ?ts = "if frame_ts > 0 then frame_ts else now"
    let ?v1 = "upd_node n (\<lambda>nd. nd\<lparr>in_use := 0\<rparr>) v"
    let ?v2 = "on_free_list (frame_list_remove_nolock (Some n)) ?v1"
    let ?v3 = "upd_node n (\<lambda>nd. nd\<lparr>accessed_mask := 0, nd_timestamp := ?ts, create_time := now'\<rparr>) ?v2"
    let ?v4 = "upd_node n (\<lambda>nd. nd\<lparr>consumer_mask := active_consumers (snd ?v3)\<rparr>) ?v3"
    let ?v5 = "on_ready_list (frame_list_add_tail_nolock (Some n)) ?v4"
    have 1: "qwf h0 X {} ?v1 (pre @ n # post) rs"
      using wf unfolding fs by (intro qwf_upd_node) (auto dest: qwf_mem)
    note 2 = qwf_free_remove [OF 1]
    from 2(1) have 3: "qwf h0 X {n} ?v4 (pre @ post) rs"
      by (intro qwf_upd_node) (auto dest: qwf_mem)
    note 4 = qwf_ready_add_tail [OF 3]
    have "n \<notin> set (pre @ post) \<union> set rs"
      using qwf_distinct [OF 2(1)] by auto
    then have "absq (fst ?v5, (snd ?v5)\<lparr>total_complete := total_complete (snd ?v5) + 1\<rparr>)
        (pre @ post) (rs @ [n]) = snd (a_complete f ?ts now' a)"
      using 4(2,3) 2(2,3)
      by (simp add: absq_def a_complete_def a extract_map Some same_info_def map_upd_notin)
    then have q: "qrep h0 X (fst ?v5, (snd ?v5)\<lparr>total_complete := total_complete (snd ?v5) + 1\<rparr>)
        (snd (a_complete f ?ts now' a))"
      using 4(1) by (intro qrepI [of _ _ _ "pre @ post" "rs @ [n]"]) (simp_all add: qwf_def)
    have ok: "fst (a_complete f ?ts now' a) = BK_OK"
      by (simp add: a_complete_def a extract_map Some)
    have "complete_cs f frame_ts now now' v =
        Some (Some (count_active_consumers (active_consumers a)), ?v5)"
      using 2(3) by (simp add: complete_cs_def search_free [OF wf] P Some a same_info_def Let_def)
    with q ok show ?thesis by simp
  qed
qed

lemma cancel_refines:
  assumes "qrep h0 X v a"
  shows "if fst (a_cancel f a) = BK_OK
    then \<exists>n v'. cancel_cs f v = Some (Some (n, Some f), v') \<and>
      qrep h0 X (fst v', (snd v')\<lparr>total_free := total_free (snd v') + 1\<rparr>) (snd (a_cancel f a))
    else cancel_cs f v = Some (None, v) \<and> snd (a_cancel f a) = a"
proof -
  from assms obtain fs rs where wf: "qwf h0 X {} v fs rs" and a: "a = absq v fs rs"
    by (rule qrepE)
  let ?P = "\<lambda>nd. in_use nd = 1 \<and> nd_frame nd = Some f"
  have P: "?P \<circ> hp_node (fst v) = in_use_with f \<circ> hp_node (fst v)"
    by (auto simp: in_use_with_def)
  show ?thesis
  proof (cases "List.extract (in_use_with f \<circ> hp_node (fst v)) fs")
    case None
    then show ?thesis
      by (simp add: a_cancel_def a extract_map cancel_cs_def search_free [OF wf] P)
  next
    case (Some r)
    obtain pre n post where "r = (pre, n, post)" by (cases r)
    note Some = Some [unfolded this]
    from Some have fs: "fs = pre @ n # post" and n: "nd_frame (hp_node (fst v) n) = Some f"
      by (auto dest!: extract_SomeD simp: in_use_with_def)
    let ?v2 = "upd_node n (\<lambda>nd. nd\<lparr>in_use := 0\<rparr>) (upd_node n (\<lambda>nd. nd\<lparr>nd_frame := None\<rparr>) v)"
    have "qwf h0 X {} ?v2 (pre @ n # post) rs"
      using wf unfolding fs by (intro qwf_upd_node) (auto dest: qwf_mem)
    then have "qwf h0 X {} (fst ?v2, (snd ?v2)\<lparr>total_free := total_free (snd ?v2) + 1\<rparr>)
        (pre @ n # post) rs"
      by (simp add: qwf_def)
    moreover have "absq (fst ?v2, (snd ?v2)\<lparr>total_free := total_free (snd ?v2) + 1\<rparr>)
        (pre @ n # post) rs = snd (a_cancel f a)"
      using qwf_distinct [OF wf [unfolded fs]]
      by (simp add: a_cancel_def a extract_map Some absq_def map_upd_notin)
    ultimately have "qrep h0 X (fst ?v2, (snd ?v2)\<lparr>total_free := total_free (snd ?v2) + 1\<rparr>)
        (snd (a_cancel f a))"
      by (rule qrepI)
    moreover have "cancel_cs f v = Some (Some (n, Some f), ?v2)"
      by (simp add: cancel_cs_def search_free [OF wf] P Some n Let_def)
    ultimately show ?thesis
      by (auto simp: a_cancel_def a extract_map Some)
  qed
qed

section \<open>The consumers' side\<close>

lemma get_refines:
  assumes "qrep h0 X v a"
  shows "\<exists>v'. get_frame_cs c cid v = Some (fst (a_get c cid a), v') \<and>
    qrep h0 X v' (snd (a_get c cid a)) \<and> (fst (a_get c cid a) = None \<longrightarrow> v' = v)"
proof -
  from assms obtain fs rs where wf: "qwf h0 X {} v fs rs" and a: "a = absq v fs rs"
    by (rule qrepE)
  let ?P = "\<lambda>nd. consumer_mask nd AND cid \<noteq> 0 \<and> accessed_mask nd AND cid = 0"
  have P: "?P \<circ> hp_node (fst v) = wanted cid \<circ> hp_node (fst v)"
    by (auto simp: wanted_def)
  show ?thesis
  proof (cases "List.extract (wanted cid \<circ> hp_node (fst v)) rs")
    case None
    with assms show ?thesis
      by (simp add: a_get_def a extract_map get_frame_cs_def search_ready [OF wf] P)
  next
    case (Some r)
    obtain pre n post where "r = (pre, n, post)" by (cases r)
    note Some = Some [unfolded this]
    from Some have rs: "rs = pre @ n # post"
      by (auto dest!: extract_SomeD)
    let ?v = "upd_node n (\<lambda>nd. nd\<lparr>ref_count := ref_count nd + 1,
        accessed_mask := accessed_mask nd OR cid\<rparr>) v"
    let ?q = "(snd v)\<lparr>q_consumers := (q_consumers (snd v))[c := (q_consumers (snd v) ! c)
        \<lparr>get_count := get_count (q_consumers (snd v) ! c) + 1\<rparr>]\<rparr>"
    have "qwf h0 X {} ?v fs (pre @ n # post)"
      using wf unfolding rs by (intro qwf_upd_node) (auto dest: qwf_mem)
    then have "qwf h0 X {} (fst ?v, ?q) fs (pre @ n # post)"
      by (simp add: qwf_def)
    moreover have "absq (fst ?v, ?q) fs (pre @ n # post) = snd (a_get c cid a)"
      using qwf_distinct [OF wf [unfolded rs]]
      by (simp add: a_get_def a extract_map Some absq_def map_upd_notin upd_consumer_def)
    ultimately have "qrep h0 X (fst ?v, ?q) (snd (a_get c cid a))"
      by (rule qrepI)
    moreover have "get_frame_cs c cid v = Some (fst (a_get c cid a), (fst ?v, ?q))"
      by (simp add: get_frame_cs_def search_ready [OF wf] P Some a a_get_def extract_map Let_def
          split_beta)
    ultimately show ?thesis
      by (simp add: a_get_def a extract_map Some)
  qed
qed

text \<open>The whole of a release on one queue.\<close>

text \<open>A release that finds the frame in node \<open>n\<close>: one reference less, and the consumer counted.\<close>

abbreviation released :: "nat \<Rightarrow> node_ptr \<Rightarrow> queue_view \<Rightarrow> queue_view" where
  "released c n v \<equiv> (fst (upd_node n drop_ref v), (snd v)\<lparr>q_consumers := (q_consumers (snd v))
     [c := (q_consumers (snd v) ! c)\<lparr>release_count := release_count (q_consumers (snd v) ! c) + 1\<rparr>]\<rparr>)"

lemma release_cs_found:
  assumes wf: "qwf h0 X {} v fs rs"
    and found: "List.extract ((\<lambda>nd. nd_frame nd = Some f) \<circ> hp_node (fst v)) rs = Some (pre, n, post)"
  shows "release_cs c f v =
      (if ref_count (drop_ref (hp_node (fst v) n)) = 0 \<and> all_accessed (hp_node (fst v) n)
       then Some (Some n, on_ready_list (frame_list_remove_nolock (Some n)) (released c n v))
       else Some (None, released c n v))"
    and "qwf h0 X {} (released c n v) fs (pre @ n # post)"
proof -
  have rs: "rs = pre @ n # post" using found by (auto dest!: extract_SomeD)
  have "accessed_mask (drop_ref nd) = accessed_mask nd" "consumer_mask (drop_ref nd) = consumer_mask nd" for nd
    by (simp_all add: drop_ref_def)
  then show "release_cs c f v =
      (if ref_count (drop_ref (hp_node (fst v) n)) = 0 \<and> all_accessed (hp_node (fst v) n)
       then Some (Some n, on_ready_list (frame_list_remove_nolock (Some n)) (released c n v))
       else Some (None, released c n v))"
    unfolding release_cs_def drop_ref_def [abs_def, symmetric]
    by (simp add: search_ready [OF wf] found all_accessed_def Let_def split_beta)
  have "qwf h0 X {} (upd_node n drop_ref v) fs (pre @ n # post)"
    using wf unfolding rs by (intro qwf_upd_node) (auto dest: qwf_mem)
  then show "qwf h0 X {} (released c n v) fs (pre @ n # post)"
    by (simp add: qwf_def)
qed

text \<open>The last reference gone, the node leaves the ready list, its frame is freed and it is free again.\<close>

lemma release_last_refines:
  assumes wf: "qwf h0 X {} v fs rs" and a: "a = absq v fs rs"
    and found: "List.extract ((\<lambda>nd. nd_frame nd = Some f) \<circ> hp_node (fst v)) rs = Some (pre, n, post)"
    and last: "ref_count (drop_ref (hp_node (fst v) n)) = 0" "all_accessed (hp_node (fst v) n)"
    and v1: "v1 = on_ready_list (frame_list_remove_nolock (Some n)) (released c n v)"
  shows "snd (release_final fmt n v1) = frame_buffer_free fmt f"
    and "qrep h0 X (release_return_cs n (fst (release_final fmt n v1))) (snd (a_release c f a))"
proof -
  let ?D = "hp_node (fst v)"
  let ?v2 = "upd_node n reset_node (upd_node n (\<lambda>nd. nd\<lparr>nd_frame := None\<rparr>) v1)"
  let ?v3 = "on_free_list (frame_list_add_tail_nolock (Some n)) ?v2"
  have nf: "nd_frame (?D n) = Some f" using found by (auto dest!: extract_SomeD)
  note 1 = qwf_ready_remove [OF release_cs_found(2) [OF wf found], of c, folded v1]
  from 1(1) have 2: "qwf h0 X {n} ?v2 fs (pre @ post)"
    by (intro qwf_upd_node) (auto dest: qwf_mem)
  note 3 = qwf_free_add_tail [OF 2]
  have final: "release_final fmt n v1 = (?v2, frame_buffer_free fmt f)"
    using 1(2) nf by (simp add: release_final_def drop_ref_def)
  then show "snd (release_final fmt n v1) = frame_buffer_free fmt f" by simp
  have ret: "release_return_cs n ?v2 = (fst ?v3, (snd ?v3)\<lparr>total_free := total_free (snd ?v3) + 1\<rparr>)"
    by (simp add: release_return_cs_def frame_list_add_tail_def on_free_list_def split: prod.splits)
  have "n \<notin> set fs \<union> set (pre @ post)"
    using qwf_distinct [OF 1(1)] by auto
  moreover have "reset_node ((drop_ref (?D n))\<lparr>nd_frame := None\<rparr>) = reset_node ((?D n)\<lparr>nd_frame := None\<rparr>)"
    by (simp add: reset_node_def drop_ref_def)
  ultimately have "absq (release_return_cs n ?v2) (fs @ [n]) (pre @ post) = snd (a_release c f a)"
    using 3(2,3) 1(2,3) last
    by (simp add: ret absq_def a_release_def a extract_map found same_info_def map_upd_notin
        upd_consumer_def Let_def)
  moreover have "qwf h0 X {} (release_return_cs n ?v2) (fs @ [n]) (pre @ post)"
    using 3(1) by (simp add: ret qwf_def)
  ultimately show "qrep h0 X (release_return_cs n (fst (release_final fmt n v1))) (snd (a_release c f a))"
    unfolding final fst_conv by (intro qrepI)
qed

lemma release_refines:
  assumes "qrep h0 X v a"
  shows "if fst (a_release c f a)
    then \<exists>n v1. release_cs c f v = Some (Some n, v1) \<and>
      snd (release_final fmt n v1) = frame_buffer_free fmt f \<and>
      qrep h0 X (release_return_cs n (fst (release_final fmt n v1))) (snd (a_release c f a))
    else \<exists>v1. release_cs c f v = Some (None, v1) \<and> qrep h0 X v1 (snd (a_release c f a))"
proof -
  from assms obtain fs rs where wf: "qwf h0 X {} v fs rs" and a: "a = absq v fs rs"
    by (rule qrepE)
  show ?thesis
  proof (cases "List.extract ((\<lambda>nd. nd_frame nd = Some f) \<circ> hp_node (fst v)) rs")
    case None
    with assms show ?thesis
      by (simp add: a_release_def a extract_map release_cs_def search_ready [OF wf])
  next
    case (Some r)
    obtain pre n post where "r = (pre, n, post)" by (cases r)
    note found = Some [unfolded this]
    then have rs: "rs = pre @ n # post" by (auto dest!: extract_SomeD)
    note cs = release_cs_found(1) [OF wf found, of c] and wf1 = release_cs_found(2) [OF wf found, of c]
    show ?thesis
    proof (cases "ref_count (drop_ref (hp_node (fst v) n)) = 0 \<and> all_accessed (hp_node (fst v) n)")
      case False
      have "absq (released c n v) fs (pre @ n # post) = snd (a_release c f a)"
        using qwf_distinct [OF wf [unfolded rs]] False
        by (auto simp: a_release_def a extract_map found absq_def map_upd_notin upd_consumer_def Let_def)
      with wf1 have "qrep h0 X (released c n v) (snd (a_release c f a))"
        by (rule qrepI)
      with cs False show ?thesis
        by (auto simp: a_release_def a extract_map found Let_def)
    next
      case True
      with cs release_last_refines [OF wf a found _ _ refl, of fmt c] show ?thesis
        by (simp add: a_release_def a extract_map found Let_def)
    qed
  qed
qed

section \<open>Creating and destroying\<close>

text \<open>The nodes an initialisation gets from the allocator, with their creation times.\<close>

fun created :: "init_env \<Rightarrow> nat \<Rightarrow> nat \<Rightarrow> (node_ptr \<times> u64) list" where
  "created env i 0 = []"
| "created env i (Suc k) =
     (case ie_alloc env i of None \<Rightarrow> [] | Some n \<Rightarrow> [(n, ie_clock env i)]) @ created env (Suc i) k"

definition fresh_node :: "u64 \<Rightarrow> frame_node" where
  "fresh_node t = frame_node_zero\<lparr>create_time := t\<rparr>"

lemma frame_node_zero_frame [simp]: "frame_node_zero\<lparr>nd_frame := None\<rparr> = frame_node_zero"
  by (simp add: frame_node_zero_def)

lemma create_node_wf:
  assumes wf: "qwf h0 X {} v fs rs" and "n \<notin> X"
    and "frame_node_create (Some n) t None (fst v) = (r, h)"
  defines "v' \<equiv> on_free_list (frame_list_add_tail (Some n)) (h, snd v)"
  shows "r = Some n" and "qwf h0 (insert n X) {} v' (fs @ [n]) rs"
    and "hp_node (fst v') = (hp_node (fst v))(n := fresh_node t)" and "same_info (snd v) (snd v')"
proof -
  have h: "h = set_node n (fresh_node t) (set_prev n None (set_next n None (fst v)))" and "r = Some n"
    using assms(3) by (auto simp: frame_node_create_def fresh_node_def Let_def)
  then show "r = Some n" by simp
  have n: "n \<notin> set fs" "n \<notin> set rs"
    using wf assms(2) by (auto dest: qwf_mem)
  then have "dll h l fs = dll (fst v) l fs" "dll h l rs = dll (fst v) l rs" for l
    by (intro dll_cong; auto simp: h)+
  then have 1: "qwf h0 (insert n X) (insert n {}) (h, snd v) fs rs"
    using wf n by (auto simp: qwf_def same_node_def h)
  have tail: "frame_list_add_tail (Some n) = frame_list_add_tail_nolock (Some n)"
    by (simp add: frame_list_add_tail_def fun_eq_iff)
  note 2 = qwf_free_add_tail [OF 1, folded tail, folded v'_def]
  show "qwf h0 (insert n X) {} v' (fs @ [n]) rs" "same_info (snd v) (snd v')"
    using 2 by simp_all
  show "hp_node (fst v') = (hp_node (fst v))(n := fresh_node t)"
    using 2(2) by (simp add: h)
qed

lemma create_nodes_wf:
  assumes "qwf h0 X {} v fs rs" and "distinct (map fst (created env i k))"
    and "X \<inter> fst ` set (created env i k) = {}"
  shows "qwf h0 (X \<union> fst ` set (created env i k)) {} (create_nodes env i k v)
      (fs @ map fst (created env i k)) rs \<and>
    absq (create_nodes env i k v) (fs @ map fst (created env i k)) rs =
      (absq v fs rs)\<lparr>a_free := a_free (absq v fs rs) @ map (fresh_node \<circ> snd) (created env i k)\<rparr>"
  using assms
proof (induction k arbitrary: i v fs X)
  case 0
  then show ?case by simp
next
  case (Suc k)
  show ?case
  proof (cases "ie_alloc env i")
    case None
    with Suc show ?thesis by (simp add: frame_node_create_def)
  next
    case (Some n)
    obtain r h where c: "frame_node_create (Some n) (ie_clock env i) None (fst v) = (r, h)"
      by (metis surj_pair)
    have "n \<notin> X" using Suc.prems Some by simp
    note 1 = create_node_wf [OF Suc.prems(1) this c]
    let ?v = "on_free_list (frame_list_add_tail (Some n)) (h, snd v)"
    have "distinct (map fst (created env (Suc i) k))"
      "insert n X \<inter> fst ` set (created env (Suc i) k) = {}"
      using Suc.prems Some by auto
    note IH = Suc.IH [OF 1(2) this]
    have step: "create_nodes env i (Suc k) v = create_nodes env (Suc i) k ?v"
      using c 1(1) by (simp add: Some)
    have "absq ?v (fs @ [n]) rs =
        (absq v fs rs)\<lparr>a_free := a_free (absq v fs rs) @ [fresh_node (ie_clock env i)]\<rparr>"
      using 1(3,4) \<open>n \<notin> X\<close> Suc.prems(1)
      by (auto simp: absq_def same_info_def dest: qwf_mem)
    with IH show ?thesis
      by (simp add: step Some del: create_nodes.simps)
  qed
qed

text \<open>Draining a list destroys each of its nodes, in order, and leaves it empty.\<close>

lemma drain_dll:
  assumes "dll h l xs"
  shows "\<exists>h' l'. drain_list fmt (h, l) cs =
      Some ((h', l'), cs @ concat (map (\<lambda>n. frame_node_destroy (Some n) fmt h) xs)) \<and>
    dll h' l' [] \<and> hp_node h' = hp_node h \<and>
    (\<forall>x. x \<notin> set xs \<longrightarrow> hp_next h' x = hp_next h x \<and> hp_prev h' x = hp_prev h x)"
  using assms
proof (induction xs arbitrary: h l cs)
  case Nil
  obtain r h' l' where p: "frame_list_pop_head (h, l) = (r, h', l')"
    by (metis surj_pair)
  from pop_head_dll [OF Nil p] pop_head_frame [OF Nil p] p show ?case
    by (auto simp: drain_list.simps [of fmt "(h, l)"])
next
  case (Cons x xs)
  obtain r h' l' where p: "frame_list_pop_head (h, l) = (r, h', l')"
    by (metis surj_pair)
  from pop_head_dll [OF Cons.prems p] have r: "r = Some x" and d: "dll h' l' xs"
    and nodes: "hp_node h' = hp_node h"
    by auto
  have destroy: "frame_node_destroy (Some n) fmt h' = frame_node_destroy (Some n) fmt h" for n
    by (simp add: frame_node_destroy_def nodes)
  from Cons.IH [OF d, of "cs @ frame_node_destroy (Some x) fmt h"] pop_head_frame [OF Cons.prems p]
    p r nodes
  show ?case
    by (auto simp: drain_list.simps [of fmt "(h, l)"] destroy)
qed

end
