(* ===== verification/Frame_Queue_System.thy ===== *)
theory Frame_Queue_System
  imports Frame_Queue_Refine
begin

text \<open>
  The public functions of \<^verbatim>\<open>frame_que_v2.c\<close> on the whole state, and their specification on
  the three abstract queues, the contents of the frame buffers and the log of the calls to
  the SDK. \<open>fq_rep X s A\<close> relates the two: queue \<open>i\<close> owns the nodes \<open>X i\<close>, no node belongs
  to two queues, and each queue represents its abstract queue.
\<close>

section \<open>The abstract state\<close>

record abs_state =
  as_queues :: "abs_queue list"
  as_frames :: "frame_ptr \<Rightarrow> frame_buffer"
  as_log :: "ext_call list"

definition put_abs :: "nat \<Rightarrow> abs_queue \<Rightarrow> abs_state \<Rightarrow> abs_state" where
  "put_abs i a A = A\<lparr>as_queues := (as_queues A)[i := a]\<rparr>"

definition log_abs :: "ext_call list \<Rightarrow> abs_state \<Rightarrow> abs_state" where
  "log_abs cs A = A\<lparr>as_log := as_log A @ cs\<rparr>"

text \<open>The abstract log leaves out the release of nodes, which have no address there.\<close>

fun visible :: "ext_call \<Rightarrow> bool" where
  "visible (Node_free n) = False"
| "visible _ = True"

definition a_index :: "image_format \<Rightarrow> abs_state \<Rightarrow> nat option" where
  "a_index format A =
     (let index = get_frame_buffer_list_index format in
      if index < 0 \<or> index \<ge> FB_LIST_MAX_COUNT then None
      else if q_count (as_queues A ! nat index) = 0 then None
      else Some (nat index))"

section \<open>The specification of the public functions\<close>

definition spec_malloc ::
    "frame_ptr option \<Rightarrow> u64 \<Rightarrow> image_format \<Rightarrow> u32 \<Rightarrow> abs_state \<Rightarrow> frame_ptr option \<times> abs_state" where
  "spec_malloc alloc now format sz A =
     (case a_index format A of
        None \<Rightarrow> (None, A)
      | Some i \<Rightarrow>
          (let a = as_queues A ! i;
               cs = (case a_pick format a of
                       Some (_, nd, _) \<Rightarrow> if nd_frame nd = None then malloc_call format sz else []
                     | None \<Rightarrow> []);
               (r, a') = a_malloc alloc now format a;
               A = put_abs i a' (log_abs cs A)
           in (r, case r of
                    None \<Rightarrow> A
                  | Some f \<Rightarrow> A\<lparr>as_frames := (as_frames A)(f := frame_buffer_zero)\<rparr>)))"

definition spec_complete ::
    "u64 \<Rightarrow> u64 \<Rightarrow> image_format \<Rightarrow> frame_ptr option \<Rightarrow> abs_state \<Rightarrow> bk_err_t \<times> abs_state" where
  "spec_complete now now' format frame A =
     (case (a_index format A, frame) of
        (Some i, Some f) \<Rightarrow>
          (let a = as_queues A ! i;
               ts = (if fb_timestamp (as_frames A f) > 0 then fb_timestamp (as_frames A f) else now);
               (r, a') = a_complete f ts now' a;
               n = count_active_consumers (active_consumers a);
               signals = (if n > 0 then n else 1)
           in if r = BK_OK
              then (BK_OK, put_abs i a' (log_abs (replicate (unat signals) (Sem_set i)) A))
              else (BK_FAIL, A))
      | _ \<Rightarrow> (BK_FAIL, A))"

definition spec_cancel :: "image_format \<Rightarrow> frame_ptr option \<Rightarrow> abs_state \<Rightarrow> bk_err_t \<times> abs_state" where
  "spec_cancel format frame A =
     (case (a_index format A, frame) of
        (Some i, Some f) \<Rightarrow>
          (let (r, a') = a_cancel f (as_queues A ! i)
           in if r = BK_OK then (BK_OK, put_abs i a' (log_abs (frame_buffer_free format f) A))
              else (BK_FAIL, A))
      | _ \<Rightarrow> (BK_FAIL, A))"

fun spec_get_loop ::
    "abs_state wait_env list \<Rightarrow> nat \<Rightarrow> nat \<Rightarrow> u32 \<Rightarrow> timeout \<Rightarrow> u64 \<Rightarrow> abs_state \<Rightarrow>
      get_result \<times> abs_state" where
  "spec_get_loop waits i c cid timeout start_time A =
     (case a_get c cid (as_queues A ! i) of
        (Some found, a) \<Rightarrow> (Got found, put_abs i a A)
      | (None, a) \<Rightarrow>
          (case waits of
             [] \<Rightarrow> (Waiting, A)
           | w # ws \<Rightarrow>
               (case wait_timeout timeout start_time (we_clock w) of
                  None \<Rightarrow> (Got None, A)
                | Some t \<Rightarrow>
                    (let A = we_others w (log_abs [Sem_get i t] A) in
                     if we_sem w \<noteq> BK_OK then (Got None, A)
                     else spec_get_loop ws i c cid timeout start_time A))))"

declare spec_get_loop.simps [simp del]

definition spec_get ::
    "abs_state wait_env list \<Rightarrow> u64 \<Rightarrow> image_format \<Rightarrow> u32 \<Rightarrow> timeout \<Rightarrow> abs_state \<Rightarrow>
      get_result \<times> abs_state" where
  "spec_get waits start_time format cid timeout A =
     (case a_index format A of
        None \<Rightarrow> (Got None, A)
      | Some i \<Rightarrow>
          (let c = consumer_idx cid in
           if c < 0 \<or> enabled (q_consumers (as_queues A ! i) ! nat c) = 0 then (Got None, A)
           else spec_get_loop waits i (nat c) cid timeout start_time A))"

definition spec_release ::
    "image_format \<Rightarrow> u32 \<Rightarrow> frame_ptr option \<Rightarrow> abs_state \<Rightarrow> abs_state" where
  "spec_release format cid frame A =
     (case (a_index format A, frame) of
        (Some i, Some f) \<Rightarrow>
          (if consumer_idx cid < 0 then A
           else
             let (freed, a) = a_release (nat (consumer_idx cid)) f (as_queues A ! i)
             in put_abs i a (log_abs (if freed then frame_buffer_free format f else []) A))
      | _ \<Rightarrow> A)"

definition spec_register ::
    "image_format \<Rightarrow> u32 \<Rightarrow> abs_state \<Rightarrow> bk_err_t \<times> abs_state" where
  "spec_register format cid A =
     (case a_index format A of
        None \<Rightarrow> (BK_FAIL, A)
      | Some i \<Rightarrow>
          if consumer_idx cid < 0 then (BK_FAIL, A)
          else (BK_OK, put_abs i (a_register (nat (consumer_idx cid)) cid (as_queues A ! i)) A))"

definition spec_unregister ::
    "image_format \<Rightarrow> u32 \<Rightarrow> abs_state \<Rightarrow> bk_err_t \<times> abs_state" where
  "spec_unregister format cid A =
     (case a_index format A of
        None \<Rightarrow> (BK_FAIL, A)
      | Some i \<Rightarrow>
          if consumer_idx cid < 0 then (BK_FAIL, A)
          else (BK_OK, put_abs i (a_unregister (nat (consumer_idx cid)) cid (as_queues A ! i)) A))"

definition spec_clear :: "nat \<Rightarrow> abs_state \<Rightarrow> abs_state" where
  "spec_clear i A =
     (if q_count (as_queues A ! i) = 0 then A
      else let (a, cs) = a_clear (as_queues A ! i) in put_abs i a (log_abs cs A))"

definition spec_clear_all :: "abs_state \<Rightarrow> bk_err_t \<times> abs_state" where
  "spec_clear_all A = (BK_OK, spec_clear 2 (spec_clear 1 (spec_clear 0 A)))"

section \<open>The relation between the two states\<close>

definition fq_rep :: "(nat \<Rightarrow> node_ptr set) \<Rightarrow> fq_state \<Rightarrow> abs_state \<Rightarrow> bool" where
  "fq_rep X s A \<longleftrightarrow> length (st_queues s) = 3 \<and> length (as_queues A) = 3 \<and>
     (\<forall>i < 3. \<forall>j < 3. i \<noteq> j \<longrightarrow> X i \<inter> X j = {}) \<and>
     (\<forall>i < 3. qrep (st_heap s) (X i) (get_queue i s) (as_queues A ! i)) \<and>
     as_frames A = st_frames s \<and> as_log A = filter visible (st_log s)"

lemma get_put [simp]: "i < length (st_queues s) \<Longrightarrow> get_queue i (put_queue i v s) = v"
  by (simp add: get_queue_def put_queue_def)

lemma put_put [simp]: "put_queue i v (put_queue i w s) = put_queue i v s"
  by (simp add: put_queue_def)

lemma put_simps [simp]:
  "st_heap (put_queue i v s) = fst v" "st_frames (put_queue i v s) = st_frames s"
  "st_log (put_queue i v s) = st_log s" "length (st_queues (put_queue i v s)) = length (st_queues s)"
  "st_heap (log_calls cs s) = st_heap s" "st_frames (log_calls cs s) = st_frames s"
  "st_queues (log_calls cs s) = st_queues s" "get_queue i (log_calls cs s) = get_queue i s"
  "log_calls cs (put_queue i v s) = put_queue i v (log_calls cs s)"
  "get_queue i (s\<lparr>st_frames := g\<rparr>) = get_queue i s"
  "put_queue i v (s\<lparr>st_frames := g\<rparr>) = (put_queue i v s)\<lparr>st_frames := g\<rparr>"
  "log_calls [] s = s"
  by (simp_all add: put_queue_def log_calls_def get_queue_def)

lemma abs_simps [simp]:
  "as_queues (log_abs cs A) = as_queues A" "as_frames (log_abs cs A) = as_frames A"
  "as_frames (put_abs i a A) = as_frames A" "as_queues (put_abs i a A) = (as_queues A)[i := a]"
  "log_abs [] A = A" "put_abs i a (put_abs i b A) = put_abs i a A"
  "log_abs cs (put_abs i a A) = put_abs i a (log_abs cs A)"
  by (simp_all add: put_abs_def log_abs_def)

lemma fq_rep_queue: "fq_rep X s A \<Longrightarrow> i < 3 \<Longrightarrow> qrep (st_heap s) (X i) (get_queue i s) (as_queues A ! i)"
  by (simp add: fq_rep_def)

lemma fq_rep_length: "fq_rep X s A \<Longrightarrow> length (st_queues s) = 3 \<and> length (as_queues A) = 3"
  by (simp add: fq_rep_def)

lemma qrep_other:
  assumes "qrep h0 Y (h, q) a" and "\<And>x. x \<in> Y \<Longrightarrow> same_node h h' x"
  shows "qrep h' Y (h', q) a"
proof -
  from assms(1) obtain fs rs where wf: "qwf h0 Y {} (h, q) fs rs" and a: "a = absq (h, q) fs rs"
    by (rule qrepE)
  from wf have "set fs \<union> set rs = Y" by (simp add: qwf_def)
  with assms(2) have same: "\<And>x. x \<in> set fs \<union> set rs \<Longrightarrow> same_node h h' x" by simp
  then have "dll h' l fs = dll h l fs" "dll h' l rs = dll h l rs" for l
    by (intro fl.holds_cong; simp)+
  with wf have "qwf h' Y {} (h', q) fs rs"
    by (simp add: qwf_def same_node_def)
  moreover have "absq (h', q) fs rs = a"
    using same by (simp add: a absq_def same_node_def)
  ultimately show ?thesis by (rule qrepI)
qed

lemma qrep_frame: "qrep h0 X v a \<Longrightarrow> x \<notin> X \<Longrightarrow> same_node h0 (fst v) x"
  by (auto simp: qrep_def qwf_def)

text \<open>Writing back one queue leaves the others alone; the new queue may own other nodes.\<close>

lemma fq_rep_put_nodes:
  assumes rep: "fq_rep X s A" and i: "i < 3" and q: "qrep h0 Y v a"
    and other: "\<And>j x. j < 3 \<Longrightarrow> j \<noteq> i \<Longrightarrow> x \<in> X j \<Longrightarrow> x \<notin> Y \<and> same_node (st_heap s) (fst v) x"
  shows "fq_rep (X(i := Y)) (put_queue i v s) (put_abs i a A)"
proof -
  have queues: "qrep (fst v) ((X(i := Y)) j) (get_queue j (put_queue i v s))
      ((as_queues A)[i := a] ! j)" if j: "j < 3" for j
  proof (cases "j = i")
    case True
    obtain fs rs where wf: "qwf h0 Y {} v fs rs" and a: "a = absq v fs rs"
      using q by (rule qrepE)
    from wf have "qwf (fst v) Y {} v fs rs"
      by (simp add: qwf_def same_node_def)
    with True show ?thesis
      using i a fq_rep_length [OF rep] by (auto intro: qrepI)
  next
    case False
    have "qrep (st_heap s) (X j) (st_heap s, st_queues s ! j) (as_queues A ! j)"
      using fq_rep_queue [OF rep j] by (simp only: get_queue_def)
    then have "qrep (fst v) (X j) (fst v, st_queues s ! j) (as_queues A ! j)"
      by (rule qrep_other) (use other [OF j False] in blast)
    with False show ?thesis
      by (simp add: get_queue_def put_queue_def)
  qed
  have apart: "(X(i := Y)) j \<inter> (X(i := Y)) k = {}" if "j < 3" "k < 3" "j \<noteq> k" for j k
    using rep other [of j] other [of k] that by (cases "j = i"; cases "k = i") (auto simp: fq_rep_def)
  show ?thesis
    unfolding fq_rep_def
  proof (intro conjI allI impI)
    show "as_frames (put_abs i a A) = st_frames (put_queue i v s)"
      "as_log (put_abs i a A) = filter visible (st_log (put_queue i v s))"
      using rep by (simp_all add: fq_rep_def put_abs_def)
  qed (use apart queues fq_rep_length [OF rep] in simp_all)
qed

lemma fq_rep_put:
  assumes rep: "fq_rep X s A" and i: "i < 3" and q: "qrep (st_heap s) (X i) v a"
  shows "fq_rep X (put_queue i v s) (put_abs i a A)"
proof -
  have "x \<notin> X i \<and> same_node (st_heap s) (fst v) x" if "j < 3" "j \<noteq> i" "x \<in> X j" for j x
  proof
    show "x \<notin> X i" using rep i that by (auto simp: fq_rep_def)
    then show "same_node (st_heap s) (fst v) x" by (rule qrep_frame [OF q])
  qed
  from fq_rep_put_nodes [OF rep i q this] show ?thesis by simp
qed

lemma fq_rep_log: "fq_rep X s A \<Longrightarrow> fq_rep X (log_calls cs s) (log_abs (filter visible cs) A)"
  by (simp add: fq_rep_def log_calls_def log_abs_def get_queue_def)

lemma fq_rep_frame_data:
  "fq_rep X s A \<Longrightarrow> fq_rep X (s\<lparr>st_frames := (st_frames s)(f := d)\<rparr>)
     (A\<lparr>as_frames := (as_frames A)(f := d)\<rparr>)"
  by (simp add: fq_rep_def get_queue_def)

lemma queue_index_bound: "queue_index format s = Some i \<Longrightarrow> i < 3"
  by (auto simp: queue_index_def Let_def FB_LIST_MAX_COUNT_def split: if_splits)

lemma queue_index_rep:
  assumes "fq_rep X s A"
  shows "queue_index format s = a_index format A"
proof -
  have "q_count (st_queues s ! i) = q_count (as_queues A ! i)" if "i < 3" for i
    using fq_rep_queue [OF assms that] by (auto simp: qrep_def get_queue_def)
  moreover have "nat (get_frame_buffer_list_index format) < 3"
    by (simp add: get_frame_buffer_list_index_def split: image_format.splits)
  ultimately have "q_count (st_queues s ! nat (get_frame_buffer_list_index format)) =
      q_count (as_queues A ! nat (get_frame_buffer_list_index format))" by blast
  then show ?thesis
    by (simp add: queue_index_def a_index_def Let_def)
qed

lemma visible_free [simp]:
  "filter visible (frame_buffer_free format f) = frame_buffer_free format f"
  "filter visible (malloc_call format sz) = malloc_call format sz"
  "filter visible (replicate k (Sem_set i)) = replicate k (Sem_set i)"
  by (auto simp: frame_buffer_free_def malloc_call_def split: image_format.splits)

lemma visible_free_calls [simp]:
  "filter visible (concat (map (free_calls format) xs)) = concat (map (free_calls format) xs)"
  by (induction xs) (auto simp: free_calls_def split: option.splits)

section \<open>The public functions meet their specification\<close>

lemma queue_known:
  assumes "fq_rep X s A" and "a_index format A = Some i"
  shows "queue_index format s = Some i" and "i < 3" and "i < length (st_queues s)"
    and "qrep (st_heap s) (X i) (get_queue i s) (as_queues A ! i)"
    and "format = IMAGE_MJPEG \<or> format = IMAGE_H264 \<or> format = IMAGE_YUV"
proof -
  show 1: "queue_index format s = Some i"
    using assms queue_index_rep [OF assms(1)] by simp
  then show 2: "i < 3"
    by (rule queue_index_bound)
  then show "i < length (st_queues s)"
    using fq_rep_length [OF assms(1)] by simp
  show "qrep (st_heap s) (X i) (get_queue i s) (as_queues A ! i)"
    by (rule fq_rep_queue [OF assms(1) 2])
  show "format = IMAGE_MJPEG \<or> format = IMAGE_H264 \<or> format = IMAGE_YUV"
    using 1 by (cases format)
      (auto simp: queue_index_def get_frame_buffer_list_index_def FB_LIST_MAX_COUNT_def)
qed

lemma register_rep:
  assumes rep: "fq_rep X s A"
  shows "\<exists>s'. frame_queue_v2_register_consumer format cid s =
      Some (fst (spec_register format cid A), s') \<and> fq_rep X s' (snd (spec_register format cid A))"
proof (cases "a_index format A")
  case None
  with rep show ?thesis
    by (simp add: frame_queue_v2_register_consumer_def spec_register_def queue_index_rep [OF rep])
next
  case (Some i)
  note q = queue_known [OF rep Some]
  obtain v where "register_cs (nat (consumer_idx cid)) cid (get_queue i s) = Some v"
    and "qrep (st_heap s) (X i) v (a_register (nat (consumer_idx cid)) cid (as_queues A ! i))"
    using register_refines [OF q(4)] by blast
  with fq_rep_put [OF rep q(2)] rep show ?thesis
    by (simp add: frame_queue_v2_register_consumer_def spec_register_def q(1) Some)
qed

lemma unregister_rep:
  assumes rep: "fq_rep X s A"
  shows "\<exists>s'. frame_queue_v2_unregister_consumer format cid s =
      Some (fst (spec_unregister format cid A), s') \<and> fq_rep X s' (snd (spec_unregister format cid A))"
proof (cases "a_index format A")
  case None
  with rep show ?thesis
    by (simp add: frame_queue_v2_unregister_consumer_def spec_unregister_def queue_index_rep [OF rep])
next
  case (Some i)
  note q = queue_known [OF rep Some]
  obtain v where "unregister_cs (nat (consumer_idx cid)) cid (get_queue i s) = Some v"
    and "qrep (st_heap s) (X i) v (a_unregister (nat (consumer_idx cid)) cid (as_queues A ! i))"
    using unregister_refines [OF q(4)] by blast
  with fq_rep_put [OF rep q(2)] rep show ?thesis
    by (simp add: frame_queue_v2_unregister_consumer_def spec_unregister_def q(1) Some)
qed

text \<open>The node taken gets its buffer and its new values.\<close>

lemma picked_upd:
  assumes p: "picked h0 X v v' n (pre, nd, post, ready)" and v: "qwf h0 X {} v fs rs"
  shows "qrep h0 X (upd_node n g v')
      ((absq v fs rs)\<lparr>a_free := pre @ g (nd\<lparr>in_use := 1\<rparr>) # post, a_ready := ready\<rparr>)"
proof -
  from p obtain fs1 fs2 rs' where wf: "qwf h0 X {} v' (fs1 @ n # fs2) rs'"
    and info: "same_info (snd v) (snd v')"
    and node: "hp_node (fst v') = (hp_node (fst v))(n := (hp_node (fst v) n)\<lparr>in_use := 1\<rparr>)"
    and r: "pre = map (hp_node (fst v)) fs1" "nd = hp_node (fst v) n"
      "post = map (hp_node (fst v)) fs2" "ready = map (hp_node (fst v)) rs'"
    by (auto simp: picked_def)
  have "qwf h0 X {} (upd_node n g v') (fs1 @ n # fs2) rs'"
    using wf by (intro qwf_upd_node) (auto dest: qwf_mem)
  then show ?thesis
    using qwf_distinct [OF wf] info
    by (intro qrepI) (auto simp: absq_def node r same_info_def map_upd_notin)
qed

lemma picked_node: "picked h0 X v v' n (pre, nd, post, ready) \<Longrightarrow> hp_node (fst v') n = nd\<lparr>in_use := 1\<rparr>"
  by (auto simp: picked_def)

lemma qrep_count_malloc:
  assumes "qrep h0 X v a"
  shows "qrep h0 X (fst v, (snd v)\<lparr>total_malloc := total_malloc (snd v) + 1\<rparr>)
    (a\<lparr>total_malloc := total_malloc a + 1\<rparr>)"
proof -
  have "qrep h0 X (fst v, snd v) a" using assms by simp
  then show ?thesis by (rule qrep_info) (auto simp: absq_def)
qed

lemma malloc_finish_put:
  "i < length (st_queues s) \<Longrightarrow> malloc_finish i n f now (put_queue i w s) =
     (let w = upd_node n (\<lambda>nd. nd\<lparr>ref_count := 0, accessed_mask := 0, nd_timestamp := now\<rparr>) w in
      (put_queue i (fst w, (snd w)\<lparr>total_malloc := total_malloc (snd w) + 1\<rparr>) s)
        \<lparr>st_frames := (st_frames s)(f := frame_buffer_zero)\<rparr>)"
  by (simp add: malloc_finish_def split_beta Let_def)

lemma upd_node_upd_node: "upd_node n g (upd_node n f v) = upd_node n (\<lambda>nd. g (f nd)) v"
  by (cases v) (simp add: upd_node_def set_node_def)

lemma upd_node_same: "g (hp_node (fst v) n) = hp_node (fst v) n \<Longrightarrow> upd_node n g v = v"
  by (cases v) (simp add: upd_node_def set_node_def)

lemma malloc_done:
  fixes f now
  assumes rep: "fq_rep X s A" and i: "i < 3"
    and p: "picked (st_heap s) (X i) (get_queue i s) v' n (pre, nd, post, ready)"
  defines "s' \<equiv> malloc_finish i n f now (put_queue i (upd_node n (\<lambda>nd. nd\<lparr>nd_frame := Some f\<rparr>) v') s)"
    and "a \<equiv> as_queues A ! i"
  shows "fq_rep X s' ((put_abs i (a\<lparr>a_free := pre @ taken f now nd # post, a_ready := ready,
      total_malloc := total_malloc a + 1\<rparr>) A)\<lparr>as_frames := (as_frames A)(f := frame_buffer_zero)\<rparr>)"
proof -
  obtain fs rs where wf: "qwf (st_heap s) (X i) {} (get_queue i s) fs rs"
    and a: "a = absq (get_queue i s) fs rs"
    using fq_rep_queue [OF rep i] unfolding a_def by (rule qrepE)
  let ?w = "upd_node n (\<lambda>nd. nd\<lparr>nd_frame := Some f, ref_count := 0, accessed_mask := 0,
      nd_timestamp := now\<rparr>) v'"
  have "qrep (st_heap s) (X i) ?w (a\<lparr>a_free := pre @ taken f now nd # post, a_ready := ready\<rparr>)"
    using picked_upd [OF p wf, of "\<lambda>nd. nd\<lparr>nd_frame := Some f, ref_count := 0, accessed_mask := 0,
      nd_timestamp := now\<rparr>"] by (simp add: a taken_def)
  from fq_rep_frame_data [OF fq_rep_put [OF rep i qrep_count_malloc [OF this]]]
  show ?thesis
    using i fq_rep_length [OF rep]
    by (simp add: s'_def malloc_finish_put Let_def upd_node_upd_node del: upd_node_simps)
qed

lemma malloc_rep:
  assumes rep: "fq_rep X s A"
  shows "\<exists>s'. frame_queue_v2_malloc alloc now format sz s =
      Some (fst (spec_malloc alloc now format sz A), s') \<and>
    fq_rep X s' (snd (spec_malloc alloc now format sz A))"
proof (cases "a_index format A")
  case None
  with rep show ?thesis
    by (simp add: frame_queue_v2_malloc_def spec_malloc_def queue_index_rep [OF rep])
next
  case (Some i)
  note index = this
  note q = queue_known [OF rep Some]
  let ?v = "get_queue i s" and ?a = "as_queues A ! i"
  obtain fs rs where wf: "qwf (st_heap s) (X i) {} ?v fs rs" and a: "?a = absq ?v fs rs"
    using q(4) by (rule qrepE)
  note pick = malloc_cs_picks [OF wf, of format, folded a]
  show ?thesis
  proof (cases "a_pick format ?a")
    case None
    with pick have "malloc_cs format ?v = Some (None, ?v)" by simp
    moreover have "put_queue i ?v s = s" "put_abs i ?a A = A"
      by (simp_all add: put_queue_def get_queue_def put_abs_def)
    ultimately show ?thesis
      using rep by (simp add: frame_queue_v2_malloc_def spec_malloc_def q(1) index a_malloc_def None)
  next
    case (Some r)
    obtain pre nd post ready where r: "r = (pre, nd, post, ready)" by (cases r)
    from pick Some r obtain n v' where cs: "malloc_cs format ?v = Some (Some n, v')"
      and p: "picked (st_heap s) (X i) ?v v' n (pre, nd, post, ready)"
      by auto
    have calls: "malloc_call format sz \<noteq> []"
      using q(5) by (auto simp: malloc_call_def)
    show ?thesis
    proof (cases "nd_frame nd")
      case (Some f)
      have "upd_node n (\<lambda>nd. nd\<lparr>nd_frame := Some f\<rparr>) v' = v'"
        by (rule upd_node_same) (simp add: picked_node [OF p] Some)
      with malloc_done [OF rep q(2) p, of f now] show ?thesis
        by (simp add: frame_queue_v2_malloc_def spec_malloc_def q(1,3) index cs picked_node [OF p]
            Some \<open>a_pick format ?a = _\<close> r a_malloc_def Let_def)
    next
      case None
      note nf = this
      let ?s = "log_calls (malloc_call format sz) s" and ?A = "log_abs (malloc_call format sz) A"
      have rep': "fq_rep X ?s ?A" using fq_rep_log [OF rep, of "malloc_call format sz"] by simp
      have p': "picked (st_heap ?s) (X i) (get_queue i ?s) v' n (pre, nd, post, ready)"
        using p by simp
      note simps = frame_queue_v2_malloc_def spec_malloc_def q(1,3) index cs picked_node [OF p] nf
        calls \<open>a_pick format ?a = _\<close> r a_malloc_def Let_def
      show ?thesis
      proof (cases alloc)
        case None
        have "qrep (st_heap ?s) (X i) (upd_node n (\<lambda>nd. nd\<lparr>in_use := 0\<rparr>) v')
            (?a\<lparr>a_free := pre @ nd\<lparr>in_use := 0\<rparr> # post, a_ready := ready\<rparr>)"
          using picked_upd [OF p wf, of "\<lambda>nd. nd\<lparr>in_use := 0\<rparr>"] by (simp add: a)
        from fq_rep_put [OF rep' q(2) this] show ?thesis
          by (simp add: simps None)
      next
        case (Some f)
        from malloc_done [OF rep' q(2) p', of f now] show ?thesis
          by (simp add: simps Some)
      qed
    qed
  qed
qed

lemma complete_rep:
  assumes rep: "fq_rep X s A"
  shows "\<exists>s'. frame_queue_v2_complete now now' format frame s =
      Some (fst (spec_complete now now' format frame A), s') \<and>
    fq_rep X s' (snd (spec_complete now now' format frame A))"
proof (cases "a_index format A")
  case None
  with rep show ?thesis
    by (simp add: frame_queue_v2_complete_def spec_complete_def queue_index_rep [OF rep])
next
  case (Some i)
  note index = this
  note q = queue_known [OF rep Some]
  show ?thesis
  proof (cases frame)
    case None
    with rep show ?thesis
      by (simp add: frame_queue_v2_complete_def spec_complete_def q(1) index)
  next
    case (Some f)
    let ?ts = "fb_timestamp (st_frames s f)" and ?n = "count_active_consumers (active_consumers (as_queues A ! i))"
    let ?a = "a_complete f (if ?ts > 0 then ?ts else now) now' (as_queues A ! i)"
    let ?calls = "replicate (unat (if ?n > 0 then ?n else 1)) (Sem_set i)"
    have frames: "as_frames A = st_frames s"
      using rep by (simp add: fq_rep_def)
    obtain v where cs: "complete_cs f ?ts now now' (get_queue i s) =
        Some (if fst ?a = BK_OK then Some ?n else None, v)"
      and ok: "fst ?a = BK_OK \<Longrightarrow>
        qrep (st_heap s) (X i) (fst v, (snd v)\<lparr>total_complete := total_complete (snd v) + 1\<rparr>) (snd ?a)"
      and bad: "fst ?a \<noteq> BK_OK \<Longrightarrow> v = get_queue i s"
      using complete_refines [OF q(4), of f ?ts now now'] by blast
    obtain r a where ra: "?a = (r, a)" by (cases ?a)
    show ?thesis
    proof (cases "r = BK_OK")
      case True
      have "fq_rep X (log_calls ?calls s) (log_abs ?calls A)"
        using fq_rep_log [OF rep, of ?calls] by simp
      from fq_rep_put [OF this q(2)] ok True ra cs show ?thesis
        by (simp add: frame_queue_v2_complete_def spec_complete_def q(1,3) index Some frames Let_def
            split_beta split del: if_split cong: if_cong)
    next
      case False
      moreover have "put_queue i (get_queue i s) s = s"
        by (simp add: put_queue_def get_queue_def)
      ultimately show ?thesis
        using rep ra cs bad
        by (simp add: frame_queue_v2_complete_def spec_complete_def q(1) index Some frames Let_def
            split_beta split del: if_split cong: if_cong)
    qed
  qed
qed

lemma cancel_rep:
  assumes rep: "fq_rep X s A"
  shows "\<exists>s'. frame_queue_v2_cancel format frame s = Some (fst (spec_cancel format frame A), s') \<and>
    fq_rep X s' (snd (spec_cancel format frame A))"
proof (cases "a_index format A")
  case None
  with rep show ?thesis
    by (simp add: frame_queue_v2_cancel_def spec_cancel_def queue_index_rep [OF rep])
next
  case (Some i)
  note index = this
  note q = queue_known [OF rep Some]
  show ?thesis
  proof (cases frame)
    case None
    with rep show ?thesis
      by (simp add: frame_queue_v2_cancel_def spec_cancel_def q(1) index)
  next
    case (Some f)
    obtain r a where ra: "a_cancel f (as_queues A ! i) = (r, a)" by (cases "a_cancel f (as_queues A ! i)")
    note cancel = cancel_refines [OF q(4), of f, unfolded ra fst_conv snd_conv]
    show ?thesis
    proof (cases "r = BK_OK")
      case True
      then obtain n v where "cancel_cs f (get_queue i s) = Some (Some (n, Some f), v)"
        and "qrep (st_heap s) (X i) (fst v, (snd v)\<lparr>total_free := total_free (snd v) + 1\<rparr>) a"
        using cancel by auto
      moreover have "fq_rep X (log_calls (frame_buffer_free format f) s)
          (log_abs (frame_buffer_free format f) A)"
        using fq_rep_log [OF rep, of "frame_buffer_free format f"] by simp
      from fq_rep_put [OF this q(2)] calculation True ra show ?thesis
        by (simp add: frame_queue_v2_cancel_def spec_cancel_def q(1,3) index Some Let_def split_beta)
    next
      case False
      moreover have "put_queue i (get_queue i s) s = s"
        by (simp add: put_queue_def get_queue_def)
      ultimately show ?thesis
        using rep ra cancel
        by (simp add: frame_queue_v2_cancel_def spec_cancel_def q(1) index Some Let_def)
    qed
  qed
qed

lemma release_rep:
  assumes rep: "fq_rep X s A"
  shows "\<exists>s'. frame_queue_v2_release_frame format cid frame s = Some s' \<and>
    fq_rep X s' (spec_release format cid frame A)"
proof (cases "a_index format A")
  case None
  with rep show ?thesis
    by (simp add: frame_queue_v2_release_frame_def spec_release_def queue_index_rep [OF rep])
next
  case (Some i)
  note index = this
  note q = queue_known [OF rep Some]
  show ?thesis
  proof (cases "frame = None \<or> consumer_idx cid < 0")
    case True
    with rep show ?thesis
      by (auto simp: frame_queue_v2_release_frame_def spec_release_def q(1) index Let_def
          split: option.splits)
  next
    case False
    then obtain f where f: "frame = Some f" "\<not> consumer_idx cid < 0" by auto
    let ?c = "nat (consumer_idx cid)"
    obtain freed a where ra: "a_release ?c f (as_queues A ! i) = (freed, a)"
      by (cases "a_release ?c f (as_queues A ! i)")
    note release = release_refines [OF q(4), of ?c f format, unfolded ra fst_conv snd_conv]
    show ?thesis
    proof (cases freed)
      case True
      then obtain n v where "release_cs ?c f (get_queue i s) = Some (Some n, v)"
        and "snd (release_final format n v) = frame_buffer_free format f"
        and "qrep (st_heap s) (X i) (release_return_cs n (fst (release_final format n v))) a"
        using release by auto
      moreover have "fq_rep X (log_calls (frame_buffer_free format f) s)
          (log_abs (frame_buffer_free format f) A)"
        using fq_rep_log [OF rep, of "frame_buffer_free format f"] by simp
      from fq_rep_put [OF this q(2)] calculation True ra f show ?thesis
        by (simp add: frame_queue_v2_release_frame_def spec_release_def q(1,3) index Let_def split_beta)
    next
      case False
      then obtain v where "release_cs ?c f (get_queue i s) = Some (None, v)"
        and "qrep (st_heap s) (X i) v a"
        using release by auto
      with fq_rep_put [OF rep q(2)] False ra f show ?thesis
        by (simp add: frame_queue_v2_release_frame_def spec_release_def q(1) index Let_def)
    qed
  qed
qed

text \<open>
  The waiting consumer: the environment's steps on the two states correspond, wait by wait.
\<close>

definition wait_rel ::
    "(nat \<Rightarrow> node_ptr set) \<Rightarrow> fq_state wait_env \<Rightarrow> abs_state wait_env \<Rightarrow> bool" where
  "wait_rel X w W \<longleftrightarrow> we_clock w = we_clock W \<and> we_sem w = we_sem W \<and>
     (\<forall>s A. fq_rep X s A \<longrightarrow> fq_rep X (we_others w s) (we_others W A))"

lemma get_loop_rep:
  assumes "fq_rep X s A" and "i < 3" and "list_all2 (wait_rel X) waits Waits"
  shows "\<exists>s'. get_frame_loop waits i c cid timeout start_time s =
      Some (fst (spec_get_loop Waits i c cid timeout start_time A), s') \<and>
    fq_rep X s' (snd (spec_get_loop Waits i c cid timeout start_time A))"
  using assms(3,1)
proof (induction waits Waits arbitrary: s A rule: list_all2_induct)
  case Nil
  from get_refines [OF fq_rep_queue [OF Nil assms(2)], of c cid] obtain v where
    cs: "get_frame_cs c cid (get_queue i s) = Some (fst (a_get c cid (as_queues A ! i)), v)"
    and v: "qrep (st_heap s) (X i) v (snd (a_get c cid (as_queues A ! i)))" by blast
  from fq_rep_put [OF Nil assms(2) v] Nil cs show ?case
    by (cases "fst (a_get c cid (as_queues A ! i))")
      (auto simp: get_frame_loop.simps spec_get_loop.simps split_beta)
next
  case (Cons w ws W Ws)
  from get_refines [OF fq_rep_queue [OF Cons.prems assms(2)], of c cid] obtain v where
    cs: "get_frame_cs c cid (get_queue i s) = Some (fst (a_get c cid (as_queues A ! i)), v)"
    and v: "qrep (st_heap s) (X i) v (snd (a_get c cid (as_queues A ! i)))" by blast
  note put = fq_rep_put [OF Cons.prems assms(2) v]
  have others: "fq_rep X (we_others w (log_calls [Sem_get i t] s)) (we_others W (log_abs [Sem_get i t] A))"
    for t
    using Cons.hyps(1) fq_rep_log [OF Cons.prems, of "[Sem_get i t]"] by (simp add: wait_rel_def)
  show ?case
  proof (cases "fst (a_get c cid (as_queues A ! i))")
    case None
    have same: "we_clock w = we_clock W" "we_sem w = we_sem W"
      using Cons.hyps(1) by (simp_all add: wait_rel_def)
    show ?thesis
    proof (cases "wait_timeout timeout start_time (we_clock W)")
      case None
      with \<open>fst _ = None\<close> cs Cons.prems same show ?thesis
        by (simp add: get_frame_loop.simps [of "w # ws"] spec_get_loop.simps [of "W # Ws"] split_beta)
    next
      case (Some t)
      with \<open>fst _ = None\<close> cs same others [of t] Cons.IH [OF others [of t]] show ?thesis
        by (simp add: get_frame_loop.simps [of "w # ws"] spec_get_loop.simps [of "W # Ws"] split_beta
            Let_def)
    qed
  next
    case (Some r)
    with put cs show ?thesis
      by (simp add: get_frame_loop.simps [of "w # ws"] spec_get_loop.simps [of "W # Ws"] split_beta)
  qed
qed

lemma get_rep:
  assumes rep: "fq_rep X s A" and waits: "list_all2 (wait_rel X) waits Waits"
  shows "\<exists>s'. frame_queue_v2_get_frame waits start_time format cid timeout s =
      Some (fst (spec_get Waits start_time format cid timeout A), s') \<and>
    fq_rep X s' (snd (spec_get Waits start_time format cid timeout A))"
proof (cases "a_index format A")
  case None
  with rep show ?thesis
    by (simp add: frame_queue_v2_get_frame_def spec_get_def queue_index_rep [OF rep])
next
  case (Some i)
  note q = queue_known [OF rep Some]
  have "q_consumers (as_queues A ! i) = q_consumers (st_queues s ! i)"
    using q(4) by (auto simp: qrep_def get_queue_def)
  with get_loop_rep [OF rep q(2) waits] rep show ?thesis
    by (auto simp: frame_queue_v2_get_frame_def spec_get_def q(1) Some Let_def)
qed

section \<open>Clearing all queues\<close>

lemma clear_queue_rep:
  assumes rep: "fq_rep X s A" and i: "i < 3"
  shows "\<exists>s'. clear_queue i s = Some s' \<and> fq_rep X s' (spec_clear i A)"
proof (cases "q_count (as_queues A ! i) = 0")
  case True
  moreover have "q_count (st_queues s ! i) = q_count (as_queues A ! i)"
    using fq_rep_queue [OF rep i] by (auto simp: qrep_def get_queue_def)
  ultimately show ?thesis
    using rep by (simp add: clear_queue_def spec_clear_def)
next
  case False
  have count: "q_count (st_queues s ! i) = q_count (as_queues A ! i)"
    using fq_rep_queue [OF rep i] by (auto simp: qrep_def get_queue_def)
  let ?a = "a_sweep clear_visit (as_queues A ! i)"
  have len: "i < length (st_queues s)" "i < length (as_queues A)"
    using i fq_rep_length [OF rep] by simp_all
  obtain v where 1: "clear_ready_cs (get_queue i s) = Some v" "qrep (st_heap s) (X i) v ?a"
    using clear_ready_refines [OF fq_rep_queue [OF rep i]] by blast
  let ?cs = "concat (map (free_calls (q_format ?a)) (a_free ?a))"
  note rep1 = fq_rep_put [OF rep i 1(2)]
  have "qrep (fst v) (X i) v ?a"
    using fq_rep_queue [OF rep1 i] len by simp
  from clear_free_refines [OF this] obtain w where
    2: "clear_free_cs v = Some (w, ?cs)" "qrep (fst v) (X i) w (?a\<lparr>a_free := map drop_buffer (a_free ?a)\<rparr>)"
    by blast
  from fq_rep_log [OF fq_rep_put [OF rep1 i], of w _ ?cs] 2 1(1) False count len show ?thesis
    by (simp add: clear_queue_def spec_clear_def a_clear_def Let_def)
qed

lemma clear_all_rep:
  assumes rep: "fq_rep X s A"
  shows "\<exists>s'. frame_queue_v2_clear_all s = Some (BK_OK, s') \<and> fq_rep X s' (snd (spec_clear_all A))"
proof -
  from clear_queue_rep [OF rep, of 0] obtain s1 where
    1: "clear_queue 0 s = Some s1" "fq_rep X s1 (spec_clear 0 A)" by auto
  from clear_queue_rep [OF 1(2), of 1] obtain s2 where
    2: "clear_queue 1 s1 = Some s2" "fq_rep X s2 (spec_clear 1 (spec_clear 0 A))" by auto
  from clear_queue_rep [OF 2(2), of 2] obtain s3 where
    3: "clear_queue 2 s2 = Some s3" "fq_rep X s3 (spec_clear 2 (spec_clear 1 (spec_clear 0 A)))" by auto
  have "[0 ..< nat FB_LIST_MAX_COUNT] = [0, 1, 2]"
    by (simp add: FB_LIST_MAX_COUNT_def upt_rec)
  with 1 2 3 show ?thesis
    by (simp add: frame_queue_v2_clear_all_def spec_clear_all_def)
qed

section \<open>Initialising and deinitialising\<close>

definition abs_zero :: abs_queue where
  "abs_zero = \<lparr>q_count = 0, q_format = IMAGE_OTHER 0, active_consumers = 0,
     q_consumers = replicate 8 consumer_zero, total_malloc = 0, total_complete = 0,
     total_free = 0, a_free = [], a_ready = []\<rparr>"

text \<open>The queue of a format and how many nodes it has.\<close>

definition init_slot :: "image_format \<Rightarrow> (nat \<times> u8) option" where
  "init_slot format =
     (case format of
        IMAGE_MJPEG \<Rightarrow> Some (0, MJPEG_MAX_FRAME_COUNT)
      | IMAGE_H264 \<Rightarrow> Some (1, H264_MAX_FRAME_COUNT)
      | IMAGE_YUV \<Rightarrow> Some (2, YUV_MAX_FRAME_COUNT)
      | _ \<Rightarrow> None)"

definition spec_init :: "init_env \<Rightarrow> image_format \<Rightarrow> abs_state \<Rightarrow> bk_err_t \<times> abs_state" where
  "spec_init env format A =
     (case init_slot format of
        None \<Rightarrow> (BK_FAIL, A)
      | Some (i, k) \<Rightarrow>
          if q_count (as_queues A ! i) > 0 then (BK_OK, A)
          else
            let a = abs_zero\<lparr>q_count := k, q_format := format,
                      a_free := (if ie_sem env = BK_OK
                                 then map (fresh_node \<circ> snd) (created env 0 (unat k)) else [])\<rparr>
            in (ie_sem env, put_abs i a (log_abs [Sem_init i] A)))"

definition spec_deinit :: "image_format \<Rightarrow> abs_state \<Rightarrow> bk_err_t \<times> abs_state" where
  "spec_deinit format A =
     (case init_slot format of
        None \<Rightarrow> (BK_FAIL, A)
      | Some (i, k) \<Rightarrow>
          let a = as_queues A ! i in
          if q_count a = 0 then (BK_OK, A)
          else (BK_OK, put_abs i abs_zero
                  (log_abs (concat (map (free_calls format) (a_free a @ a_ready a)) @ [Sem_deinit i]) A)))"

text \<open>
  The nodes the allocator gives to an initialisation are distinct and belong to no other
  queue. \<open>init_nodes\<close> are the nodes the queue owns afterwards.
\<close>

definition init_nodes :: "init_env \<Rightarrow> u8 \<Rightarrow> node_ptr set" where
  "init_nodes env k = (if ie_sem env = BK_OK then fst ` set (created env 0 (unat k)) else {})"

definition fresh_env :: "(nat \<Rightarrow> node_ptr set) \<Rightarrow> nat \<Rightarrow> u8 \<Rightarrow> init_env \<Rightarrow> bool" where
  "fresh_env X i k env \<longleftrightarrow> distinct (map fst (created env 0 (unat k))) \<and>
     (\<forall>j < 3. j \<noteq> i \<longrightarrow> X j \<inter> fst ` set (created env 0 (unat k)) = {})"

lemma qwf_empty:
  "free_list q = frame_list_init \<Longrightarrow> ready_list q = frame_list_init \<Longrightarrow> qwf h {} {} (h, q) [] []"
  by (simp add: qwf_def same_node_def)

lemma init_slot_cases:
  assumes "init_slot format = Some (i, k)"
  shows "format = IMAGE_MJPEG \<and> i = 0 \<and> k = 4 \<or> format = IMAGE_H264 \<and> i = 1 \<and> k = 6 \<or>
    format = IMAGE_YUV \<and> i = 2 \<and> k = 3"
  using assms by (cases format)
    (simp_all add: init_slot_def MJPEG_MAX_FRAME_COUNT_def H264_MAX_FRAME_COUNT_def YUV_MAX_FRAME_COUNT_def)

lemma init_slot_index:
  "init_slot format = Some (i, k) \<Longrightarrow> get_frame_buffer_list_index format = int i \<and> i < 3"
  "init_slot format = None \<Longrightarrow> get_frame_buffer_list_index format = -1"
  by (cases format; auto simp: init_slot_def get_frame_buffer_list_index_def)+

lemma init_unfold:
  "frame_queue_v2_init env format s =
     (case init_slot format of
        None \<Rightarrow> (BK_FAIL, s)
      | Some (i, k) \<Rightarrow>
          if q_count (st_queues s ! i) > 0 then (BK_OK, s)
          else
            let q = queue_zero\<lparr>q_count := k, q_format := format\<rparr>; s = log_calls [Sem_init i] s in
            if ie_sem env = BK_OK
            then (BK_OK, put_queue i (create_nodes env 0 (unat k) (st_heap s, q)) s)
            else (ie_sem env, put_queue i (st_heap s, q) s))"
proof -
  have "queue_zero\<lparr>q_count := k, q_format := f, free_list := frame_list_init,
      ready_list := frame_list_init\<rparr> = queue_zero\<lparr>q_count := k, q_format := f\<rparr>" for k f
    by (simp add: queue_zero_def)
  moreover have "frame_list_deinit frame_list_init = frame_list_init"
    by (simp add: frame_list_deinit_def frame_list_init_def)
  ultimately show ?thesis
    by (cases format) (auto simp: frame_queue_v2_init_def init_slot_def FB_LIST_MAX_COUNT_def Let_def
        queue_zero_def)
qed

lemma init_rep:
  assumes rep: "fq_rep X s A" and slot: "init_slot format = Some (i, k)"
    and fresh: "fresh_env X i k env" and idle: "q_count (as_queues A ! i) = 0"
  shows "\<exists>s'. frame_queue_v2_init env format s = (fst (spec_init env format A), s') \<and>
    fq_rep (X(i := init_nodes env k)) s' (snd (spec_init env format A))"
proof -
  have i: "i < 3" using init_slot_index(1) [OF slot] by simp
  have "q_count (st_queues s ! i) = 0"
    using fq_rep_queue [OF rep i] idle by (auto simp: qrep_def get_queue_def)
  note unfold = init_unfold [of env format s] slot this
  let ?q = "queue_zero\<lparr>q_count := k, q_format := format\<rparr>"
  let ?s = "log_calls [Sem_init i] s" and ?A = "log_abs [Sem_init i] A"
  have rep': "fq_rep X ?s ?A" using fq_rep_log [OF rep, of "[Sem_init i]"] by simp
  have wf: "qwf (st_heap ?s) {} {} (st_heap ?s, ?q) [] []"
    by (rule qwf_empty) (simp_all add: queue_zero_def)
  have zero: "absq (st_heap ?s, ?q) [] [] = abs_zero\<lparr>q_count := k, q_format := format\<rparr>"
    by (simp add: absq_def queue_zero_def abs_zero_def)
  show ?thesis
  proof (cases "ie_sem env = BK_OK")
    case False
    have "fq_rep (X(i := {})) (put_queue i (st_heap ?s, ?q) ?s)
        (put_abs i (abs_zero\<lparr>q_count := k, q_format := format\<rparr>) ?A)"
      using qrepI [OF wf zero] by (intro fq_rep_put_nodes [OF rep' i]) (auto simp: same_node_def)
    with False idle show ?thesis
      by (simp add: unfold spec_init_def init_nodes_def abs_zero_def Let_def)
  next
    case True
    let ?N = "fst ` set (created env 0 (unat k))"
    let ?v = "create_nodes env 0 (unat k) (st_heap ?s, ?q)"
    have "distinct (map fst (created env 0 (unat k)))" "{} \<inter> ?N = {}"
      using fresh by (simp_all add: fresh_env_def)
    from create_nodes_wf [OF wf this] zero
    have rep_v: "qrep (st_heap ?s) ?N ?v (abs_zero\<lparr>q_count := k, q_format := format,
        a_free := map (fresh_node \<circ> snd) (created env 0 (unat k))\<rparr>)"
      by (intro qrepI) (auto simp: abs_zero_def)
    have "fq_rep (X(i := ?N)) (put_queue i ?v ?s) (put_abs i (abs_zero\<lparr>q_count := k,
        q_format := format, a_free := map (fresh_node \<circ> snd) (created env 0 (unat k))\<rparr>) ?A)"
    proof (rule fq_rep_put_nodes [OF rep' i rep_v])
      fix j x assume "j < 3" "j \<noteq> i" "x \<in> X j"
      with fresh have "x \<notin> ?N" by (auto simp: fresh_env_def)
      with qrep_frame [OF rep_v] show "x \<notin> ?N \<and> same_node (st_heap ?s) (fst ?v) x" by blast
    qed
    with True idle show ?thesis
      by (simp add: unfold spec_init_def init_nodes_def Let_def)
  qed
qed

text \<open>The nodes freed by draining, in order.\<close>

fun node_frees :: "ext_call list \<Rightarrow> node_ptr list" where
  "node_frees [] = []"
| "node_frees (Node_free n # cs) = n # node_frees cs"
| "node_frees (_ # cs) = node_frees cs"

lemma node_frees_append [simp]: "node_frees (xs @ ys) = node_frees xs @ node_frees ys"
  by (induction xs rule: node_frees.induct) simp_all

lemma destroy_visible:
  "filter visible (frame_node_destroy (Some n) format h) = free_calls format (hp_node h n)"
  "node_frees (frame_node_destroy (Some n) format h) = [n]"
  by (auto simp: frame_node_destroy_def free_calls_def frame_buffer_free_def
      split: option.splits image_format.splits)

lemma destroy_all_visible:
  "filter visible (concat (map (\<lambda>n. frame_node_destroy (Some n) format h) xs)) =
     concat (map (free_calls format) (map (hp_node h) xs))"
  "node_frees (concat (map (\<lambda>n. frame_node_destroy (Some n) format h) xs)) = xs"
  by (induction xs) (simp_all add: destroy_visible)

lemma deinit_rep:
  assumes rep: "fq_rep X s A" and slot: "init_slot format = Some (i, k)"
    and live: "q_count (as_queues A ! i) \<noteq> 0"
  shows "\<exists>s' calls. frame_queue_v2_deinit format s = Some (BK_OK, s') \<and>
    fq_rep (X(i := {})) s' (snd (spec_deinit format A)) \<and>
    st_log s' = st_log s @ calls \<and> distinct (node_frees calls) \<and> set (node_frees calls) = X i"
proof -
  have i: "i < 3" and index: "get_frame_buffer_list_index format = int i"
    using init_slot_index(1) [OF slot] by simp_all
  let ?v = "get_queue i s" and ?h = "st_heap s"
  have count: "q_count (st_queues s ! i) \<noteq> 0"
    using fq_rep_queue [OF rep i] live by (auto simp: qrep_def get_queue_def)
  obtain fs rs where wf: "qwf ?h (X i) {} ?v fs rs" and a: "as_queues A ! i = absq ?v fs rs"
    using fq_rep_queue [OF rep i] by (rule qrepE)
  have dist: "distinct (fs @ rs)" "set (fs @ rs) = X i"
    using qwf_distinct [OF wf] by auto
  have v: "?v = (?h, st_queues s ! i)" by (simp add: get_queue_def)
  have dl: "dll ?h (free_list (st_queues s ! i)) fs" "dll ?h (ready_list (st_queues s ! i)) rs"
    using wf by (simp_all add: qwf_def get_queue_def)
  let ?c1 = "concat (map (\<lambda>n. frame_node_destroy (Some n) format ?h) fs)"
  let ?c2 = "concat (map (\<lambda>n. frame_node_destroy (Some n) format ?h) rs)"
  from drain_dll [OF dl(1), of format "[]"] obtain h1 l1 where
    d1: "drain_list format (?h, free_list (st_queues s ! i)) [] = Some ((h1, l1), ?c1)"
      "hp_node h1 = hp_node ?h" "\<forall>x. x \<notin> set fs \<longrightarrow> hp_next h1 x = hp_next ?h x \<and> hp_prev h1 x = hp_prev ?h x"
    by auto
  have "dll h1 (ready_list (st_queues s ! i)) rs = dll ?h (ready_list (st_queues s ! i)) rs"
    using d1(3) dist by (intro dll_cong) auto
  with dl(2) have dl2: "dll h1 (ready_list (st_queues s ! i)) rs" by simp
  have destroy: "frame_node_destroy (Some n) format h1 = frame_node_destroy (Some n) format ?h" for n
    by (simp add: frame_node_destroy_def d1(2))
  from drain_dll [OF dl2, of format "[]"] obtain h2 l2 where
    d2: "drain_list format (h1, ready_list (st_queues s ! i)) [] = Some ((h2, l2), ?c2)"
      "hp_node h2 = hp_node h1" "\<forall>x. x \<notin> set rs \<longrightarrow> hp_next h2 x = hp_next h1 x \<and> hp_prev h2 x = hp_prev h1 x"
    by (auto simp: destroy)
  let ?calls = "?c1 @ ?c2 @ [Sem_deinit i]"
  let ?s = "put_queue i (h2, queue_zero) (log_calls ?calls s)"
  have "frame_queue_v2_deinit format s = Some (BK_OK, ?s)"
    using i count d1(1) d2(1)
    by (simp add: frame_queue_v2_deinit_def index FB_LIST_MAX_COUNT_def Let_def)
  moreover have "fq_rep (X(i := {})) ?s (snd (spec_deinit format A))"
  proof -
    have calls: "filter visible ?calls =
        concat (map (free_calls format) (a_free (as_queues A ! i) @ a_ready (as_queues A ! i))) @ [Sem_deinit i]"
      by (simp add: destroy_all_visible a get_queue_def)
    have rep': "fq_rep X (log_calls ?calls s) (log_abs (concat (map
        (free_calls format) (a_free (as_queues A ! i) @ a_ready (as_queues A ! i))) @ [Sem_deinit i]) A)"
      using fq_rep_log [OF rep, of ?calls] unfolding calls .
    have "qwf h2 {} {} (h2, queue_zero) [] []"
      by (rule qwf_empty) (simp_all add: queue_zero_def)
    moreover have "absq (h2, queue_zero) [] [] = abs_zero"
      by (simp add: absq_def queue_zero_def abs_zero_def)
    ultimately have q: "qrep h2 {} (h2, queue_zero) abs_zero" by (rule qrepI)
    have "fq_rep (X(i := {})) ?s (put_abs i abs_zero (log_abs (concat (map
        (free_calls format) (a_free (as_queues A ! i) @ a_ready (as_queues A ! i))) @ [Sem_deinit i]) A))"
    proof (rule fq_rep_put_nodes [OF rep' i q])
      fix j x assume j: "j < 3" "j \<noteq> i" "x \<in> X j"
      then have "x \<notin> X i" using rep i by (auto simp: fq_rep_def)
      then have "x \<notin> set fs" "x \<notin> set rs" using dist by auto
      with d1 d2 show "x \<notin> {} \<and> same_node (st_heap (log_calls ?calls s)) (fst (h2, queue_zero)) x"
        by (simp add: same_node_def)
    qed
    with live show ?thesis by (simp add: spec_deinit_def slot Let_def)
  qed
  moreover have "st_log ?s = st_log s @ ?calls"
    by (simp add: log_calls_def put_queue_def)
  moreover have "node_frees ?calls = fs @ rs"
    by (simp add: destroy_all_visible)
  ultimately show ?thesis
    using dist by (intro exI [of _ ?s] exI [of _ ?calls]) simp
qed

end
