(* ===== verification/Frame_Queue_Clients.thy ===== *)
theory Frame_Queue_Clients
  imports Frame_Queue_System "HOL-Library.Multiset"
begin

text \<open>
  What one frame queue guarantees to a producer and up to eight consumers that use it as
  the callers under \<^verbatim>\<open>components/smart_lock/src\<close> do. \<open>client_step\<close> is the protocol: a
  producer completes or cancels only frames it got from \<open>malloc\<close>, a consumer releases only
  frames it holds, the allocator hands out no buffer that is still in a queue, and the queue
  is cleared when no producer fills a frame. \<open>client_inv\<close> is the invariant of the reachable
  states, the later sections what follows from it.
\<close>

section \<open>Consumers as bits\<close>

definition cbit :: "nat \<Rightarrow> u32" where
  "cbit c = push_bit c 1"

lemma bit_cbit: "c < 8 \<Longrightarrow> bit (cbit c) i \<longleftrightarrow> i = c"
  by (auto simp: cbit_def bit_simps)

lemma and_cbit: "c < 8 \<Longrightarrow> w AND cbit c = (if bit w c then cbit c else 0)"
  by (rule bit_eqI) (auto simp: bit_simps bit_cbit)

lemma cbit_nonzero [simp]: "c < 8 \<Longrightarrow> cbit c \<noteq> 0"
  using bit_cbit [of c c] by auto

lemma wanted_cbit: "c < 8 \<Longrightarrow> wanted (cbit c) nd \<longleftrightarrow> bit (consumer_mask nd) c \<and> \<not> bit (accessed_mask nd) c"
  by (simp add: wanted_def and_cbit)

lemma all_accessed_bits:
  "all_accessed nd \<longleftrightarrow> (\<forall>c. bit (consumer_mask nd) c \<longrightarrow> bit (accessed_mask nd) c)"
proof
  assume "all_accessed nd"
  then have "bit (accessed_mask nd AND consumer_mask nd) c = bit (consumer_mask nd) c" for c
    by (simp only: all_accessed_def)
  then show "\<forall>c. bit (consumer_mask nd) c \<longrightarrow> bit (accessed_mask nd) c"
    by (simp only: bit_and_iff) blast
next
  assume "\<forall>c. bit (consumer_mask nd) c \<longrightarrow> bit (accessed_mask nd) c"
  then show "all_accessed nd"
    unfolding all_accessed_def by (intro bit_eqI) (auto simp: bit_and_iff)
qed

lemma all_accessed_ref [simp]: "all_accessed (nd\<lparr>ref_count := r\<rparr>) = all_accessed nd"
  by (simp add: all_accessed_def)

lemma mask_zero_bits: "(w :: u32) = 0 \<longleftrightarrow> (\<forall>c. \<not> bit w c)"
  by (auto intro: bit_eqI)

text \<open>The loop that finds a consumer's index finds the bit.\<close>

lemma consumer_idx_from_least:
  "consumer_idx_from i w = (if \<exists>j. i \<le> j \<and> j < 8 \<and> bit w j
     then int (LEAST j. i \<le> j \<and> bit w j) else -1)"
proof (induction i w rule: consumer_idx_from.induct)
  case (1 i w)
  show ?case
  proof (cases "i < 8")
    case False
    then show ?thesis by (subst consumer_idx_from.simps) auto
  next
    case True
    have bit_i: "w AND push_bit i 1 \<noteq> 0 \<longleftrightarrow> bit w i"
      using and_cbit [OF True, of w] cbit_nonzero [OF True] unfolding cbit_def
      by (cases "bit w i") (simp_all only: if_True if_False simp_thms)
    show ?thesis
    proof (cases "bit w i")
      case hit: True
      then have "(LEAST j. i \<le> j \<and> bit w j) = i"
        by (intro Least_equality) auto
      with hit True bit_i show ?thesis
        by (subst consumer_idx_from.simps) auto
    next
      case False
      then have "i \<le> j \<and> bit w j \<longleftrightarrow> Suc i \<le> j \<and> bit w j" for j
        by (metis Suc_le_eq le_neq_implies_less less_imp_le)
      moreover from this have "(\<exists>j. i \<le> j \<and> j < 8 \<and> bit w j) \<longleftrightarrow> (\<exists>j. Suc i \<le> j \<and> j < 8 \<and> bit w j)"
        by auto
      moreover have "consumer_idx_from i w = consumer_idx_from (Suc i) w"
        using True False bit_i by (subst consumer_idx_from.simps) simp
      ultimately show ?thesis
        using 1 True False bit_i by (simp only:) simp
    qed
  qed
qed

lemma consumer_idx_cbit: "c < 8 \<Longrightarrow> consumer_idx (cbit c) = int c"
proof -
  assume c: "c < 8"
  have "(LEAST j. 0 \<le> j \<and> bit (cbit c) j) = c"
    using c by (intro Least_equality) (auto simp: bit_cbit)
  then show ?thesis
    using c by (auto simp: consumer_idx_def consumer_idx_from_least bit_cbit)
qed

section \<open>The protocol\<close>

record client_state =
  cl_queue :: abs_queue
  cl_held :: "(nat \<times> frame_ptr) set"
  cl_prod :: "frame_ptr set"

datatype client_event =
    Ev_register nat | Ev_unregister nat
  | Ev_malloc "frame_ptr option" | Ev_complete frame_ptr | Ev_cancel frame_ptr
  | Ev_get nat "frame_ptr option" | Ev_release nat frame_ptr bool
  | Ev_clear

definition frames_of :: "frame_node list \<Rightarrow> frame_ptr list" where
  "frames_of xs = List.map_filter nd_frame xs"

definition queue_frames :: "abs_queue \<Rightarrow> frame_ptr list" where
  "queue_frames a = frames_of (a_free a @ a_ready a)"

inductive client_step :: "image_format \<Rightarrow> client_state \<Rightarrow> client_event \<Rightarrow> client_state \<Rightarrow> bool"
  for format where
  step_register:
    "c < 8 \<Longrightarrow> client_step format st (Ev_register c)
       (st\<lparr>cl_queue := a_register c (cbit c) (cl_queue st)\<rparr>)"
| step_unregister:
    "c < 8 \<Longrightarrow> client_step format st (Ev_unregister c)
       (st\<lparr>cl_queue := a_unregister c (cbit c) (cl_queue st)\<rparr>)"
| step_malloc:
    "\<forall>f. alloc = Some f \<longrightarrow> f \<notin> set (queue_frames (cl_queue st)) \<Longrightarrow>
     a_malloc alloc now format (cl_queue st) = (r, a) \<Longrightarrow>
     client_step format st (Ev_malloc r) (st\<lparr>cl_queue := a, cl_prod := cl_prod st \<union> set_option r\<rparr>)"
| step_complete:
    "f \<in> cl_prod st \<Longrightarrow> a_complete f ts ct (cl_queue st) = (r, a) \<Longrightarrow>
     client_step format st (Ev_complete f) (st\<lparr>cl_queue := a, cl_prod := cl_prod st - {f}\<rparr>)"
| step_cancel:
    "f \<in> cl_prod st \<Longrightarrow> a_cancel f (cl_queue st) = (r, a) \<Longrightarrow>
     client_step format st (Ev_cancel f) (st\<lparr>cl_queue := a, cl_prod := cl_prod st - {f}\<rparr>)"
| step_get_none:
    "c < 8 \<Longrightarrow> client_step format st (Ev_get c None) st"
| step_get:
    "c < 8 \<Longrightarrow> a_get c (cbit c) (cl_queue st) = (Some (Some f), a) \<Longrightarrow>
     client_step format st (Ev_get c (Some f))
       (st\<lparr>cl_queue := a, cl_held := insert (c, f) (cl_held st)\<rparr>)"
| step_release:
    "(c, f) \<in> cl_held st \<Longrightarrow> a_release c f (cl_queue st) = (freed, a) \<Longrightarrow>
     client_step format st (Ev_release c f freed)
       (st\<lparr>cl_queue := a, cl_held := cl_held st - {(c, f)}\<rparr>)"
| step_clear:
    "cl_prod st = {} \<Longrightarrow>
     client_step format st Ev_clear (st\<lparr>cl_queue := fst (a_clear (cl_queue st))\<rparr>)"

text \<open>A queue with \<open>k\<close> fresh nodes, nobody holding a frame.\<close>

definition client_init :: "u8 \<Rightarrow> image_format \<Rightarrow> u64 list \<Rightarrow> client_state" where
  "client_init k format ts =
     \<lparr>cl_queue = abs_zero\<lparr>q_count := k, q_format := format, a_free := map fresh_node ts\<rparr>,
      cl_held = {}, cl_prod = {}\<rparr>"

inductive client_reach :: "image_format \<Rightarrow> client_state \<Rightarrow> bool" for format where
  reach_init: "client_reach format (client_init k format ts)"
| reach_step: "client_reach format st \<Longrightarrow> client_step format st e st' \<Longrightarrow> client_reach format st'"

section \<open>The invariant\<close>

definition holders :: "(nat \<times> frame_ptr) set \<Rightarrow> frame_ptr \<Rightarrow> nat set" where
  "holders held f = {c. (c, f) \<in> held}"

text \<open>
  A published node holds a frame, counts its holders, knows them, is still wanted by a
  registered consumer when nobody holds it, and only registered consumers want it.
\<close>

definition ready_ok :: "u32 \<Rightarrow> (nat \<times> frame_ptr) set \<Rightarrow> frame_node \<Rightarrow> bool" where
  "ready_ok active held nd \<longleftrightarrow> (\<exists>f. nd_frame nd = Some f \<and>
     unat (ref_count nd) = card (holders held f) \<and>
     (\<forall>c \<in> holders held f. bit (accessed_mask nd) c)) \<and> in_use nd = 0 \<and>
     (ref_count nd = 0 \<and> consumer_mask nd \<noteq> 0 \<longrightarrow> \<not> all_accessed nd) \<and>
     (\<forall>c. bit (consumer_mask nd) c \<and> \<not> bit (accessed_mask nd) c \<longrightarrow> bit active c)"

definition free_ok :: "frame_ptr set \<Rightarrow> frame_node \<Rightarrow> bool" where
  "free_ok given nd \<longleftrightarrow> ref_count nd = 0 \<and>
     (in_use nd = 0 \<and> (\<forall>f. nd_frame nd = Some f \<longrightarrow> f \<notin> given) \<or>
      in_use nd = 1 \<and> (\<exists>f \<in> given. nd_frame nd = Some f))"

definition client_inv :: "client_state \<Rightarrow> bool" where
  "client_inv st \<longleftrightarrow>
     distinct (queue_frames (cl_queue st)) \<and>
     (\<forall>nd \<in> set (a_ready (cl_queue st)). ready_ok (active_consumers (cl_queue st)) (cl_held st) nd) \<and>
     (\<forall>nd \<in> set (a_free (cl_queue st)). free_ok (cl_prod st) nd) \<and>
     (\<forall>(c, f) \<in> cl_held st. c < 8 \<and> f \<in> set (frames_of (a_ready (cl_queue st)))) \<and>
     cl_prod st \<subseteq> set (frames_of (a_free (cl_queue st))) \<and>
     (\<forall>c. bit (active_consumers (cl_queue st)) c \<longrightarrow> c < 8)"

lemma frames_of_simps [simp]:
  "frames_of [] = []" "frames_of (xs @ ys) = frames_of xs @ frames_of ys"
  "frames_of (nd # xs) = (case nd_frame nd of None \<Rightarrow> frames_of xs | Some f \<Rightarrow> f # frames_of xs)"
  by (simp_all add: frames_of_def map_filter_def split: option.splits)

lemma set_frames_of: "set (frames_of xs) = {f. \<exists>nd \<in> set xs. nd_frame nd = Some f}"
  by (force simp: frames_of_def map_filter_def)

lemma frames_of_mset: "mset xs = mset ys \<Longrightarrow> mset (frames_of xs) = mset (frames_of ys)"
  by (simp add: frames_of_def map_filter_def)

text \<open>Two nodes of a queue do not share a frame.\<close>

lemma frames_unique:
  "distinct (frames_of xs) \<Longrightarrow> nd \<in> set xs \<Longrightarrow> nd' \<in> set xs \<Longrightarrow> nd_frame nd = Some f \<Longrightarrow>
     nd_frame nd' = Some f \<Longrightarrow> nd = nd'"
proof (induction xs)
  case (Cons x xs)
  then show ?case
    by (auto simp: set_frames_of split: option.splits)
qed simp

lemma finite_holders: "\<forall>(c, f) \<in> held. c < 8 \<Longrightarrow> finite (holders held f) \<and> card (holders held f) \<le> 8"
proof -
  assume "\<forall>(c, f) \<in> held. c < (8 :: nat)"
  then have "holders held f \<subseteq> {..<8}" by (auto simp: holders_def)
  with card_mono [of "{..<8}" "holders held f"] finite_subset show ?thesis by auto
qed

section \<open>Sweeps keep the frames\<close>

lemma frames_of_sweep:
  assumes "\<And>nd. nd_frame (snd (g nd)) = nd_frame nd"
  shows "mset (frames_of (moved g xs)) + mset (frames_of (kept g xs)) = mset (frames_of xs)"
  by (induction xs) (auto simp: assms split: option.splits)

lemma reset_node_frame [simp]: "nd_frame (reset_node nd) = nd_frame nd"
  by (simp add: reset_node_def)

lemma visit_frame:
  "nd_frame (snd (clear_visit nd)) = nd_frame nd" "nd_frame (snd (cleanup_visit nd)) = nd_frame nd"
  "nd_frame (snd (unregister_visit cid nd)) = nd_frame nd"
  by (simp_all add: clear_visit_def cleanup_visit_def unregister_visit_def reset_node_def Let_def)

lemma sweep_frames:
  assumes "\<And>nd. nd_frame (snd (g nd)) = nd_frame nd"
  shows "mset (queue_frames (a_sweep g a)) = mset (queue_frames a)"
  using frames_of_sweep [of g "a_ready a", OF assms]
  by (simp add: queue_frames_def a_sweep_def ac_simps)

text \<open>
  A visit that moves only nodes nobody holds, resets them, and keeps what the invariant says
  of the others.
\<close>

definition good_visit :: "(frame_node \<Rightarrow> bool \<times> frame_node) \<Rightarrow> u32 \<Rightarrow> u32 \<Rightarrow> bool" where
  "good_visit g act act' \<longleftrightarrow> (\<forall>nd. nd_frame (snd (g nd)) = nd_frame nd) \<and>
     (\<forall>nd held. ready_ok act held nd \<longrightarrow>
       (if fst (g nd) then ref_count nd = 0 \<and> ref_count (snd (g nd)) = 0 \<and> in_use (snd (g nd)) = 0
        else ready_ok act' held (snd (g nd))))"

lemma client_invD:
  assumes "client_inv st"
  shows "distinct (queue_frames (cl_queue st))"
    and "nd \<in> set (a_ready (cl_queue st)) \<Longrightarrow> ready_ok (active_consumers (cl_queue st)) (cl_held st) nd"
    and "nd \<in> set (a_free (cl_queue st)) \<Longrightarrow> free_ok (cl_prod st) nd"
    and "(c, f) \<in> cl_held st \<Longrightarrow> c < 8"
    and "(c, f) \<in> cl_held st \<Longrightarrow> f \<in> set (frames_of (a_ready (cl_queue st)))"
    and "cl_prod st \<subseteq> set (frames_of (a_free (cl_queue st)))"
    and "bit (active_consumers (cl_queue st)) c \<Longrightarrow> c < 8"
  using assms by (auto simp: client_inv_def)

lemma client_invI:
  assumes "distinct (frames_of (a_free a @ a_ready a))"
    and "\<And>nd. nd \<in> set (a_ready a) \<Longrightarrow> ready_ok (active_consumers a) held nd"
    and "\<And>nd. nd \<in> set (a_free a) \<Longrightarrow> free_ok given nd"
    and "\<And>c f. (c, f) \<in> held \<Longrightarrow> c < 8 \<and> f \<in> set (frames_of (a_ready a))"
    and "given \<subseteq> set (frames_of (a_free a))"
    and "\<And>c. bit (active_consumers a) c \<Longrightarrow> c < 8"
  shows "client_inv \<lparr>cl_queue = a, cl_held = held, cl_prod = given\<rparr>"
  using assms by (auto simp: client_inv_def queue_frames_def)

lemma inv_holders:
  assumes "client_inv st"
  shows "finite (holders (cl_held st) f)" "card (holders (cl_held st) f) \<le> 8"
  using finite_holders [of "cl_held st" f] client_invD(4) [OF assms] by auto

lemma inv_disjoint:
  assumes "client_inv st" and "f \<in> set (frames_of (a_ready (cl_queue st)))"
  shows "f \<notin> set (frames_of (a_free (cl_queue st)))" and "f \<notin> cl_prod st"
  using assms client_invD(1,6) [OF assms(1)] by (auto simp: queue_frames_def)

lemma inv_ref_zero:
  assumes "client_inv st" and "nd \<in> set (a_ready (cl_queue st))" and "ref_count nd = 0"
    and "nd_frame nd = Some f"
  shows "(c, f) \<notin> cl_held st"
  using client_invD(2) [OF assms(1,2)] assms(3,4) inv_holders [OF assms(1), of f]
  by (auto simp: ready_ok_def holders_def)

lemma sweep_inv:
  assumes inv: "client_inv st" and good: "good_visit g (active_consumers (cl_queue st)) (active_consumers a)"
    and free: "a_free a = a_free (cl_queue st) @ moved g (a_ready (cl_queue st))"
    and ready: "a_ready a = kept g (a_ready (cl_queue st))"
    and act: "\<And>c. bit (active_consumers a) c \<Longrightarrow> c < 8"
  shows "client_inv (st\<lparr>cl_queue := a\<rparr>)"
proof -
  have frame: "nd_frame (snd (g nd)) = nd_frame nd" for nd
    using good by (simp add: good_visit_def)
  have "mset (frames_of (a_free a @ a_ready a)) = mset (queue_frames (cl_queue st))"
    using frames_of_sweep [of g "a_ready (cl_queue st)", OF frame]
    by (simp add: queue_frames_def free ready ac_simps)
  then have "distinct (frames_of (a_free a @ a_ready a))"
    using client_invD(1) [OF inv] mset_eq_imp_distinct_iff by blast
  moreover have "ready_ok (active_consumers a) (cl_held st) nd" if "nd \<in> set (a_ready a)" for nd
    using that good client_invD(2) [OF inv] by (auto simp: ready set_kept good_visit_def)
  moreover have "free_ok (cl_prod st) nd" if "nd \<in> set (a_free a)" for nd
  proof -
    consider "nd \<in> set (a_free (cl_queue st))"
      | nd' where "nd' \<in> set (a_ready (cl_queue st))" "fst (g nd')" "nd = snd (g nd')"
      using \<open>nd \<in> set (a_free a)\<close> by (auto simp: free set_moved)
    then show ?thesis
    proof cases
      case 1
      then show ?thesis by (rule client_invD(3) [OF inv])
    next
      case 2
      then have "f \<notin> cl_prod st" if "nd_frame nd = Some f" for f
        using that inv_disjoint(2) [OF inv] by (auto simp: frame set_frames_of)
      with 2 good client_invD(2) [OF inv 2(1)] show ?thesis
        by (auto simp: free_ok_def good_visit_def)
    qed
  qed
  moreover have "c < 8 \<and> f \<in> set (frames_of (a_ready a))" if held: "(c, f) \<in> cl_held st" for c f
  proof -
    obtain nd where nd: "nd \<in> set (a_ready (cl_queue st))" "nd_frame nd = Some f"
      using client_invD(5) [OF inv held] by (auto simp: set_frames_of)
    then have "ref_count nd \<noteq> 0"
      using inv_ref_zero [OF inv nd(1) _ nd(2)] held by auto
    then have "\<not> fst (g nd)"
      using good client_invD(2) [OF inv nd(1)] by (auto simp: good_visit_def)
    with nd frame have "f \<in> set (frames_of (a_ready a))"
      by (auto simp: ready set_kept set_frames_of)
    with client_invD(4) [OF inv held] show ?thesis by simp
  qed
  moreover have "cl_prod st \<subseteq> set (frames_of (a_free a))"
    using client_invD(6) [OF inv] by (auto simp: free)
  ultimately have "client_inv \<lparr>cl_queue = a, cl_held = cl_held st, cl_prod = cl_prod st\<rparr>"
    using act by (intro client_invI) auto
  then show ?thesis by (cases st) simp
qed

lemma good_clear: "good_visit clear_visit act act"
  by (auto simp: good_visit_def visit_frame clear_visit_def reset_node_def)

lemma good_cleanup: "(\<And>c. bit act c \<Longrightarrow> bit act' c) \<Longrightarrow> good_visit cleanup_visit act act'"
  by (auto simp: good_visit_def visit_frame cleanup_visit_def reset_node_def ready_ok_def)

lemma good_unregister:
  assumes "c < 8"
  shows "good_visit (unregister_visit (cbit c)) act (act AND NOT (cbit c))"
proof -
  have bits: "bit (w AND NOT (cbit c)) i \<longleftrightarrow> bit w i \<and> i \<noteq> c" for w i
    by (auto simp: bit_simps bit_cbit [OF assms] dest: bit_imp_le_length)
  show ?thesis
    unfolding good_visit_def
  proof (intro conjI allI impI)
    fix nd show "nd_frame (snd (unregister_visit (cbit c) nd)) = nd_frame nd" by (rule visit_frame)
  next
    fix nd held assume ok: "ready_ok act held nd"
    show "if fst (unregister_visit (cbit c) nd)
        then ref_count nd = 0 \<and> ref_count (snd (unregister_visit (cbit c) nd)) = 0 \<and>
          in_use (snd (unregister_visit (cbit c) nd)) = 0
        else ready_ok (act AND NOT (cbit c)) held (snd (unregister_visit (cbit c) nd))"
    proof (cases "fst (unregister_visit (cbit c) nd)")
      case True
      then show ?thesis by (auto simp: unregister_visit_def reset_node_def Let_def split: if_splits)
    next
      case False
      with ok show ?thesis
        by (auto simp: unregister_visit_def ready_ok_def wanted_cbit [OF assms] bits Let_def
            split: if_splits)
    qed
  qed
qed

section \<open>Every step keeps the invariant\<close>

lemma register_inv:
  assumes inv: "client_inv st" and c: "c < 8"
  shows "client_inv (st\<lparr>cl_queue := a_register c (cbit c) (cl_queue st)\<rparr>)"
  using c client_invD(7) [OF inv]
  by (intro sweep_inv [OF inv good_cleanup])
    (auto simp: a_register_def a_sweep_def upd_consumer_def bit_simps bit_cbit Let_def)

lemma unregister_inv:
  assumes inv: "client_inv st" and c: "c < 8"
  shows "client_inv (st\<lparr>cl_queue := a_unregister c (cbit c) (cl_queue st)\<rparr>)"
proof (rule sweep_inv [OF inv, where g = "unregister_visit (cbit c)"])
  have act: "active_consumers (a_unregister c (cbit c) (cl_queue st)) =
      active_consumers (cl_queue st) AND NOT (cbit c)"
    by (simp add: a_unregister_def a_sweep_def upd_consumer_def Let_def)
  show "good_visit (unregister_visit (cbit c)) (active_consumers (cl_queue st))
      (active_consumers (a_unregister c (cbit c) (cl_queue st)))"
    unfolding act by (rule good_unregister [OF c])
  show "i < 8" if "bit (active_consumers (a_unregister c (cbit c) (cl_queue st))) i" for i
    using that client_invD(7) [OF inv] by (auto simp: act bit_simps)
qed (simp_all add: a_unregister_def a_sweep_def upd_consumer_def Let_def)

lemma clear_inv:
  assumes inv: "client_inv st" and idle: "cl_prod st = {}"
  shows "client_inv (st\<lparr>cl_queue := fst (a_clear (cl_queue st))\<rparr>)"
proof -
  let ?a = "a_sweep clear_visit (cl_queue st)"
  have 1: "client_inv (st\<lparr>cl_queue := ?a\<rparr>)"
    by (rule sweep_inv [OF inv, where g = clear_visit])
      (simp_all add: a_sweep_def good_clear client_invD(7) [OF inv])
  have none: "frames_of (map drop_buffer xs) = []" for xs
    by (induction xs) (simp_all add: drop_buffer_def)
  have "free_ok {} (drop_buffer nd)" if "nd \<in> set (a_free ?a)" for nd
    using client_invD(3) [OF 1, of nd] that idle by (auto simp: free_ok_def drop_buffer_def)
  moreover have "ready_ok (active_consumers ?a) (cl_held st) nd" if "nd \<in> set (a_ready ?a)" for nd
    using client_invD(2) [OF 1, of nd] that by simp
  ultimately have "client_inv \<lparr>cl_queue = ?a\<lparr>a_free := map drop_buffer (a_free ?a)\<rparr>,
      cl_held = cl_held st, cl_prod = {}\<rparr>"
    using client_invD(1,4,5,7) [OF 1]
    by (intro client_invI) (auto simp: none queue_frames_def)
  then show ?thesis
    using idle by (cases st) (simp add: a_clear_def Let_def)
qed

text \<open>Taking a node out of one of the lists, as \<open>List.extract\<close> does.\<close>

lemma extract_split:
  "List.extract P xs = Some (pre, nd, post) \<Longrightarrow> xs = pre @ nd # post \<and> P nd"
  by (auto dest: extract_SomeD)

lemma ready_found:
  assumes "client_inv st" and "(c, f) \<in> cl_held st"
  obtains pre nd post where
    "List.extract (\<lambda>nd. nd_frame nd = Some f) (a_ready (cl_queue st)) = Some (pre, nd, post)"
  using client_invD(5) [OF assms] extract_NoneD [of "\<lambda>nd. nd_frame nd = Some f" "a_ready (cl_queue st)"]
  by (cases "List.extract (\<lambda>nd. nd_frame nd = Some f) (a_ready (cl_queue st))")
    (auto simp: set_frames_of)

lemma given_found:
  assumes "client_inv st" and "f \<in> cl_prod st"
  obtains pre nd post where
    "List.extract (in_use_with f) (a_free (cl_queue st)) = Some (pre, nd, post)"
proof (cases "List.extract (in_use_with f) (a_free (cl_queue st))")
  case None
  obtain nd where nd: "nd \<in> set (a_free (cl_queue st))" "nd_frame nd = Some f"
    using client_invD(6) [OF assms(1)] assms(2) by (auto simp: set_frames_of)
  then have "in_use_with f nd"
    using client_invD(3) [OF assms(1) nd(1)] assms(2) by (auto simp: free_ok_def in_use_with_def)
  with None nd(1) show ?thesis by (auto dest: extract_NoneD)
next
  case (Some r)
  with that show ?thesis by (cases r) auto
qed

text \<open>The nodes beside the one that changes keep what the invariant says of them.\<close>

lemma ready_ok_held:
  assumes "ready_ok act held nd" and "\<And>g. nd_frame nd = Some g \<Longrightarrow> holders held' g = holders held g"
  shows "ready_ok act held' nd"
  using assms by (auto simp: ready_ok_def)

lemma frames_mid: "f \<notin> set (frames_of (pre @ post)) \<Longrightarrow> nd \<in> set (pre @ post) \<Longrightarrow> nd_frame nd \<noteq> Some f"
  by (auto simp: set_frames_of)

lemma get_inv:
  assumes inv: "client_inv st" and c: "c < 8"
    and get: "a_get c (cbit c) (cl_queue st) = (Some (Some f), a)"
  shows "client_inv (st\<lparr>cl_queue := a, cl_held := insert (c, f) (cl_held st)\<rparr>)" and "(c, f) \<notin> cl_held st"
proof -
  let ?q = "cl_queue st" and ?held = "insert (c, f) (cl_held st)"
  obtain pre nd post where ex: "List.extract (wanted (cbit c)) (a_ready ?q) = Some (pre, nd, post)"
    and nd: "nd_frame nd = Some f"
    and a: "a = upd_consumer c (\<lambda>i. i\<lparr>get_count := get_count i + 1\<rparr>)
      (?q\<lparr>a_ready := pre @ nd\<lparr>ref_count := ref_count nd + 1,
         accessed_mask := accessed_mask nd OR cbit c\<rparr> # post\<rparr>)"
    using get by (auto simp: a_get_def split: option.splits)
  from extract_split [OF ex] have ready: "a_ready ?q = pre @ nd # post" and w: "wanted (cbit c) nd"
    by simp_all
  have ok: "ready_ok (active_consumers ?q) (cl_held st) nd"
    using client_invD(2) [OF inv, of nd] ready by simp
  show new: "(c, f) \<notin> cl_held st"
    using ok w nd by (auto simp: ready_ok_def wanted_cbit [OF c] holders_def)
  have hold: "holders ?held f = insert c (holders (cl_held st) f)"
    "\<And>g. g \<noteq> f \<Longrightarrow> holders ?held g = holders (cl_held st) g"
    by (auto simp: holders_def)
  have card: "card (holders ?held f) = Suc (card (holders (cl_held st) f))"
    using new inv_holders [OF inv, of f] hold(1) by (simp add: holders_def)
  have ref: "unat (ref_count nd) = card (holders (cl_held st) f)"
    using ok nd by (auto simp: ready_ok_def)
  then have "unat (ref_count nd) < 9"
    using inv_holders(2) [OF inv, of f] by simp
  then have ref': "unat (ref_count nd + 1) = Suc (unat (ref_count nd))"
    by (simp add: unat_word_ariths)
  have "distinct (frames_of (a_free ?q @ pre @ nd # post))"
    using client_invD(1) [OF inv] ready by (simp add: queue_frames_def)
  then have fresh: "f \<notin> set (frames_of (pre @ post))"
    using nd by auto
  let ?nd = "nd\<lparr>ref_count := ref_count nd + 1, accessed_mask := accessed_mask nd OR cbit c\<rparr>"
  have "ref_count nd + 1 \<noteq> 0"
    using ref' by (metis unat_0 nat.distinct(1))
  then have "ready_ok (active_consumers ?q) ?held ?nd"
    using ok nd ref ref' card by (auto simp: ready_ok_def hold(1) bit_simps bit_cbit [OF c])
  moreover have "ready_ok (active_consumers ?q) ?held x" if "x \<in> set (pre @ post)" for x
  proof (rule ready_ok_held)
    show "ready_ok (active_consumers ?q) (cl_held st) x"
      using that client_invD(2) [OF inv, of x] ready by auto
    show "holders ?held g = holders (cl_held st) g" if "nd_frame x = Some g" for g
      using that frames_mid [OF fresh \<open>x \<in> _\<close>] by (intro hold(2)) auto
  qed
  moreover have "d < 8 \<and> g \<in> set (frames_of (pre @ ?nd # post))" if "(d, g) \<in> ?held" for d g
    using that c client_invD(4,5) [OF inv, of d g] ready nd by auto
  ultimately have "client_inv \<lparr>cl_queue = a, cl_held = ?held, cl_prod = cl_prod st\<rparr>"
    using client_invD(1,3,6,7) [OF inv] ready nd
    by (intro client_invI) (auto simp: a upd_consumer_def queue_frames_def)
  then show "client_inv (st\<lparr>cl_queue := a, cl_held := ?held\<rparr>)"
    by (cases st) simp
qed

lemma unat_minus_one_ref: "(w :: u32) \<noteq> 0 \<Longrightarrow> unat (w - 1) = unat w - 1"
  by (simp add: unat_minus_one)

lemma release_cases:
  assumes inv: "client_inv st" and held: "(c, f) \<in> cl_held st"
    and rel: "a_release c f (cl_queue st) = (freed, a)"
  obtains pre nd post where "a_ready (cl_queue st) = pre @ nd # post" "nd_frame nd = Some f"
    "ref_count nd \<noteq> 0" "freed \<longleftrightarrow> ref_count nd = 1 \<and> all_accessed nd"
    "active_consumers a = active_consumers (cl_queue st)"
    "a_free a = (if freed then a_free (cl_queue st) @ [reset_node (nd\<lparr>nd_frame := None\<rparr>)]
                 else a_free (cl_queue st))"
    "a_ready a = (if freed then pre @ post else pre @ nd\<lparr>ref_count := ref_count nd - 1\<rparr> # post)"
proof -
  obtain pre nd post where ex:
    "List.extract (\<lambda>nd. nd_frame nd = Some f) (a_ready (cl_queue st)) = Some (pre, nd, post)"
    using ready_found [OF inv held] .
  from extract_split [OF ex] have ready: "a_ready (cl_queue st) = pre @ nd # post"
    and nd: "nd_frame nd = Some f" by simp_all
  have ref: "ref_count nd \<noteq> 0"
    using inv_ref_zero [OF inv _ _ nd] held ready by auto
  then have "ref_count (drop_ref nd) = 0 \<longleftrightarrow> ref_count nd = 1"
    by (auto simp: drop_ref_def word_neq_0_conv)
  moreover have "drop_ref nd = nd\<lparr>ref_count := ref_count nd - 1\<rparr>"
    using ref by (simp add: drop_ref_def word_neq_0_conv)
  ultimately show ?thesis
    using that [OF ready nd ref] rel
    by (auto simp: a_release_def ex upd_consumer_def Let_def split: if_splits)
qed

lemma release_inv:
  assumes inv: "client_inv st" and held: "(c, f) \<in> cl_held st"
    and rel: "a_release c f (cl_queue st) = (freed, a)"
  shows "client_inv (st\<lparr>cl_queue := a, cl_held := cl_held st - {(c, f)}\<rparr>)"
    and "freed \<Longrightarrow> holders (cl_held st) f = {c}"
proof -
  let ?q = "cl_queue st" and ?held = "cl_held st - {(c, f)}"
  obtain pre nd post where ready: "a_ready ?q = pre @ nd # post" and nd: "nd_frame nd = Some f"
    and ref: "ref_count nd \<noteq> 0" and freed: "freed \<longleftrightarrow> ref_count nd = 1 \<and> all_accessed nd"
    and a: "active_consumers a = active_consumers ?q"
      "a_free a = (if freed then a_free ?q @ [reset_node (nd\<lparr>nd_frame := None\<rparr>)] else a_free ?q)"
      "a_ready a = (if freed then pre @ post else pre @ nd\<lparr>ref_count := ref_count nd - 1\<rparr> # post)"
    using release_cases [OF inv held rel] by metis
  have ok: "ready_ok (active_consumers ?q) (cl_held st) nd"
    using client_invD(2) [OF inv, of nd] ready by simp
  have hold: "holders ?held f = holders (cl_held st) f - {c}"
    "\<And>g. g \<noteq> f \<Longrightarrow> holders ?held g = holders (cl_held st) g"
    by (auto simp: holders_def)
  have cf: "c \<in> holders (cl_held st) f" using held by (simp add: holders_def)
  have card: "card (holders ?held f) = card (holders (cl_held st) f) - 1"
    using cf inv_holders(1) [OF inv, of f] by (simp add: hold(1))
  have count: "unat (ref_count nd) = card (holders (cl_held st) f)"
    using ok nd by (auto simp: ready_ok_def)
  show one: "holders (cl_held st) f = {c}" if freed
  proof -
    have "card (holders (cl_held st) f) = 1" using that freed count by simp
    with cf show ?thesis by (auto simp: card_1_singleton_iff)
  qed
  have dist: "distinct (frames_of (a_free ?q @ pre @ nd # post))"
    using client_invD(1) [OF inv] ready by (simp add: queue_frames_def)
  then have fresh: "f \<notin> set (frames_of (pre @ post))"
    using nd by auto
  have others: "ready_ok (active_consumers ?q) ?held x" if "x \<in> set (pre @ post)" for x
  proof (rule ready_ok_held)
    show "ready_ok (active_consumers ?q) (cl_held st) x"
      using that client_invD(2) [OF inv, of x] ready by auto
    show "holders ?held g = holders (cl_held st) g" if "nd_frame x = Some g" for g
      using that frames_mid [OF fresh \<open>x \<in> _\<close>] by (intro hold(2)) auto
  qed
  have "client_inv \<lparr>cl_queue = a, cl_held = ?held, cl_prod = cl_prod st\<rparr>"
  proof (cases freed)
    case True
    have "g \<noteq> f" if "(d, g) \<in> ?held" for d g
      using that one [OF True] by (auto simp: holders_def)
    then have "d < 8 \<and> g \<in> set (frames_of (pre @ post))" if "(d, g) \<in> ?held" for d g
      using that client_invD(4,5) [OF inv, of d g] ready nd by auto
    moreover have "free_ok (cl_prod st) (reset_node (nd\<lparr>nd_frame := None\<rparr>))"
      by (simp add: free_ok_def reset_node_def)
    ultimately show ?thesis
      using True a others client_invD(3,6,7) [OF inv] dist nd
      by (intro client_invI) (auto simp: reset_node_def)
  next
    case False
    let ?nd = "nd\<lparr>ref_count := ref_count nd - 1\<rparr>"
    have "ready_ok (active_consumers ?q) ?held ?nd"
      using ok nd False freed ref count card unat_minus_one_ref [OF ref]
      by (auto simp: ready_ok_def hold(1))
    moreover have "distinct (frames_of (a_free a @ a_ready a))"
      using dist nd False by (simp add: a)
    moreover have "d < 8 \<and> g \<in> set (frames_of (a_ready a))" if "(d, g) \<in> ?held" for d g
      using that client_invD(4,5) [OF inv, of d g] ready nd a False by auto
    ultimately show ?thesis
      using False a others client_invD(3,6,7) [OF inv] nd
      by (intro client_invI) auto
  qed
  then show "client_inv (st\<lparr>cl_queue := a, cl_held := ?held\<rparr>)"
    by (cases st) simp
qed

text \<open>The frames a producer fills are in use on the free list.\<close>

lemma complete_inv:
  assumes inv: "client_inv st" and given: "f \<in> cl_prod st"
    and complete: "a_complete f ts ct (cl_queue st) = (r, a)"
  shows "r = BK_OK" and "client_inv (st\<lparr>cl_queue := a, cl_prod := cl_prod st - {f}\<rparr>)"
proof -
  let ?q = "cl_queue st"
  obtain pre nd post where ex: "List.extract (in_use_with f) (a_free ?q) = Some (pre, nd, post)"
    using given_found [OF inv given] .
  let ?nd = "nd\<lparr>in_use := 0, accessed_mask := 0, nd_timestamp := ts, create_time := ct,
      consumer_mask := active_consumers ?q\<rparr>"
  from ex complete show "r = BK_OK" by (simp add: a_complete_def)
  from ex complete have a: "a = ?q\<lparr>a_free := pre @ post, a_ready := a_ready ?q @ [?nd],
      total_complete := total_complete ?q + 1\<rparr>"
    by (simp add: a_complete_def)
  from extract_split [OF ex] have free: "a_free ?q = pre @ nd # post" and nd: "nd_frame nd = Some f"
    by (simp_all add: in_use_with_def)
  have dist: "distinct (frames_of (pre @ nd # post @ a_ready ?q))"
    using client_invD(1) [OF inv] free by (simp add: queue_frames_def)
  then have fresh: "f \<notin> set (frames_of (pre @ post))" "f \<notin> set (frames_of (a_ready ?q))"
    using nd by auto
  then have nobody: "holders (cl_held st) f = {}"
    using client_invD(5) [OF inv] by (auto simp: holders_def)
  have ref: "ref_count nd = 0"
    using client_invD(3) [OF inv, of nd] free by (simp add: free_ok_def)
  have "ready_ok (active_consumers ?q) (cl_held st) ?nd"
    using nd ref nobody by (simp add: ready_ok_def all_accessed_def)
  moreover have "free_ok (cl_prod st - {f}) x" if "x \<in> set (pre @ post)" for x
    using client_invD(3) [OF inv, of x] frames_mid [OF fresh(1) that] that free
    by (auto simp: free_ok_def)
  moreover have "d < 8 \<and> g \<in> set (frames_of (a_ready a))" if "(d, g) \<in> cl_held st" for d g
    using that client_invD(4,5) [OF inv, of d g] by (auto simp: a)
  moreover have "cl_prod st - {f} \<subseteq> set (frames_of (pre @ post))"
    using client_invD(6) [OF inv] free nd by auto
  moreover have "distinct (frames_of (a_free a @ a_ready a))"
    using dist nd by (auto simp: a)
  ultimately have "client_inv \<lparr>cl_queue = a, cl_held = cl_held st, cl_prod = cl_prod st - {f}\<rparr>"
    using client_invD(2,7) [OF inv] by (intro client_invI) (auto simp: a)
  then show "client_inv (st\<lparr>cl_queue := a, cl_prod := cl_prod st - {f}\<rparr>)"
    by (cases st) simp
qed

lemma cancel_inv:
  assumes inv: "client_inv st" and given: "f \<in> cl_prod st"
    and cancel: "a_cancel f (cl_queue st) = (r, a)"
  shows "r = BK_OK" and "client_inv (st\<lparr>cl_queue := a, cl_prod := cl_prod st - {f}\<rparr>)"
proof -
  let ?q = "cl_queue st"
  obtain pre nd post where ex: "List.extract (in_use_with f) (a_free ?q) = Some (pre, nd, post)"
    using given_found [OF inv given] .
  let ?nd = "nd\<lparr>nd_frame := None, in_use := 0\<rparr>"
  from ex cancel show "r = BK_OK" by (simp add: a_cancel_def)
  from ex cancel have a: "a = ?q\<lparr>a_free := pre @ ?nd # post, total_free := total_free ?q + 1\<rparr>"
    by (simp add: a_cancel_def)
  from extract_split [OF ex] have free: "a_free ?q = pre @ nd # post" and nd: "nd_frame nd = Some f"
    by (simp_all add: in_use_with_def)
  have dist: "distinct (frames_of (pre @ nd # post @ a_ready ?q))"
    using client_invD(1) [OF inv] free by (simp add: queue_frames_def)
  then have fresh: "f \<notin> set (frames_of (pre @ post))"
    using nd by auto
  have "free_ok (cl_prod st - {f}) ?nd"
    using client_invD(3) [OF inv, of nd] free by (simp add: free_ok_def)
  moreover have "free_ok (cl_prod st - {f}) x" if "x \<in> set (pre @ post)" for x
    using client_invD(3) [OF inv, of x] frames_mid [OF fresh that] that free
    by (auto simp: free_ok_def)
  moreover have "d < 8 \<and> g \<in> set (frames_of (a_ready a))" if "(d, g) \<in> cl_held st" for d g
    using that client_invD(4,5) [OF inv, of d g] by (auto simp: a)
  moreover have "cl_prod st - {f} \<subseteq> set (frames_of (a_free a))"
    using client_invD(6) [OF inv] free nd by (auto simp: a)
  moreover have "distinct (frames_of (a_free a @ a_ready a))"
    using dist nd by (auto simp: a)
  ultimately have "client_inv \<lparr>cl_queue = a, cl_held = cl_held st, cl_prod = cl_prod st - {f}\<rparr>"
    using client_invD(2,7) [OF inv] by (intro client_invI) (auto simp: a)
  then show "client_inv (st\<lparr>cl_queue := a, cl_prod := cl_prod st - {f}\<rparr>)"
    by (cases st) simp
qed

text \<open>
  What \<open>a_pick\<close> finds: a node nobody holds and no producer fills; the other nodes stay.
\<close>

lemma pick_facts:
  assumes inv: "client_inv st" and pick: "a_pick format (cl_queue st) = Some (pre, nd, post, ready)"
  shows "mset (pre @ nd # post @ ready) = mset (a_free (cl_queue st) @ a_ready (cl_queue st))"
    and "set ready \<subseteq> set (a_ready (cl_queue st))"
    and "set (pre @ post) \<subseteq> set (a_free (cl_queue st))"
    and "nd \<in> set (a_free (cl_queue st)) \<and> in_use nd = 0 \<and> ready = a_ready (cl_queue st) \<or>
      nd \<in> set (a_ready (cl_queue st)) \<and> ref_count nd = 0"
    and "nd_frame nd = Some f \<Longrightarrow> f \<notin> cl_prod st \<and> (\<forall>c. (c, f) \<notin> cl_held st)"
proof -
  let ?q = "cl_queue st"
  consider "a_free ?q = pre @ nd # post" "in_use nd = 0" "ready = a_ready ?q"
    | p s where "pre = []" "post = a_free ?q" "ready = p @ s" "a_ready ?q = p @ nd # s" "ref_count nd = 0"
    using pick unfolding a_pick_def
    by (auto split: option.splits if_splits dest!: extract_split)
  note cases = this
  then show "mset (pre @ nd # post @ ready) = mset (a_free ?q @ a_ready ?q)"
    and "set ready \<subseteq> set (a_ready ?q)" and "set (pre @ post) \<subseteq> set (a_free ?q)"
    and "nd \<in> set (a_free ?q) \<and> in_use nd = 0 \<and> ready = a_ready ?q \<or>
      nd \<in> set (a_ready ?q) \<and> ref_count nd = 0"
    by (cases; auto)+
  show "f \<notin> cl_prod st \<and> (\<forall>c. (c, f) \<notin> cl_held st)" if f: "nd_frame nd = Some f"
    using cases
  proof cases
    case 1
    then have mem: "nd \<in> set (a_free ?q)" by simp
    with f have "f \<in> set (frames_of (a_free ?q))" by (auto simp: set_frames_of)
    then show ?thesis
      using client_invD(3) [OF inv mem] 1(2) f inv_disjoint(1) [OF inv] client_invD(5) [OF inv]
      by (auto simp: free_ok_def)
  next
    case 2
    then have mem: "nd \<in> set (a_ready ?q)" by simp
    with f have "f \<in> set (frames_of (a_ready ?q))" by (auto simp: set_frames_of)
    then show ?thesis
      using inv_disjoint(2) [OF inv] inv_ref_zero [OF inv mem 2(5) f] by auto
  qed
qed

text \<open>The frames after a pick: held ones stay ready, given ones stay free, beside the picked node.\<close>

lemma pick_frames:
  assumes inv: "client_inv st" and pick: "a_pick format (cl_queue st) = Some (pre, nd, post, ready)"
  shows "mset (frames_of (pre @ nd # post @ ready)) = mset (queue_frames (cl_queue st))"
    and "distinct (frames_of (pre @ nd # post @ ready))"
proof -
  show frames: "mset (frames_of (pre @ nd # post @ ready)) = mset (queue_frames (cl_queue st))"
    using frames_of_mset [OF pick_facts(1) [OF assms]] by (simp add: queue_frames_def)
  show "distinct (frames_of (pre @ nd # post @ ready))"
    using client_invD(1) [OF inv] mset_eq_imp_distinct_iff [OF frames] by blast
qed

lemma pick_held:
  assumes inv: "client_inv st" and pick: "a_pick format (cl_queue st) = Some (pre, nd, post, ready)"
    and held: "(d, g) \<in> cl_held st"
  shows "d < 8" and "g \<in> set (frames_of ready)"
proof -
  note facts = pick_facts [OF inv pick]
  have g: "g \<in> set (frames_of (a_ready (cl_queue st)))" and "d < 8"
    using client_invD(4,5) [OF inv held] by simp_all
  then show "d < 8" by simp
  have "g \<in> set (frames_of (pre @ nd # post @ ready))"
    using g mset_eq_setD [OF pick_frames(1) [OF inv pick]] by (simp add: queue_frames_def)
  moreover have "g \<notin> set (frames_of (pre @ post))"
  proof
    assume "g \<in> set (frames_of (pre @ post))"
    then have "g \<in> set (frames_of (a_free (cl_queue st)))"
      using facts(3) unfolding set_frames_of by blast
    with inv_disjoint(1) [OF inv g] show False by simp
  qed
  moreover have "nd_frame nd \<noteq> Some g"
    using facts(5) held by blast
  ultimately show "g \<in> set (frames_of ready)" by (auto split: option.splits)
qed

lemma pick_given:
  assumes inv: "client_inv st" and pick: "a_pick format (cl_queue st) = Some (pre, nd, post, ready)"
  shows "cl_prod st \<subseteq> set (frames_of (pre @ post))"
proof
  note facts = pick_facts [OF inv pick]
  fix g assume g: "g \<in> cl_prod st"
  then have "g \<in> set (frames_of (a_free (cl_queue st)))"
    using client_invD(6) [OF inv] by auto
  then have "g \<in> set (frames_of (pre @ nd # post @ ready))" "g \<notin> set (frames_of (a_ready (cl_queue st)))"
    using mset_eq_setD [OF pick_frames(1) [OF inv pick]] client_invD(1) [OF inv]
    by (auto simp: queue_frames_def)
  moreover from this(2) have "g \<notin> set (frames_of ready)"
    using facts(2) unfolding set_frames_of by blast
  moreover have "nd_frame nd \<noteq> Some g"
    using facts(5) g by blast
  ultimately show "g \<in> set (frames_of (pre @ post))" by (auto split: option.splits)
qed

lemma pick_ready:
  assumes inv: "client_inv st" and pick: "a_pick format (cl_queue st) = Some (pre, nd, post, ready)"
  shows "x \<in> set ready \<Longrightarrow> ready_ok (active_consumers (cl_queue st)) (cl_held st) x" and "ref_count nd = 0"
  using client_invD(2,3) [OF inv] pick_facts(2,4) [OF inv pick] by (auto simp: free_ok_def)

text \<open>A malloc that finds a node but no buffer gives the node back; with a buffer it is the caller's.\<close>

lemma malloc_none_inv:
  assumes inv: "client_inv st" and pick: "a_pick format (cl_queue st) = Some (pre, nd, post, ready)"
    and a: "a = (cl_queue st)\<lparr>a_free := pre @ nd\<lparr>in_use := 0\<rparr> # post, a_ready := ready\<rparr>"
    and none: "nd_frame nd = None"
  shows "client_inv \<lparr>cl_queue = a, cl_held = cl_held st, cl_prod = cl_prod st\<rparr>"
proof -
  have "free_ok (cl_prod st) x" if "x \<in> set (a_free a)" for x
    using that pick_facts(3) [OF inv pick] client_invD(3) [OF inv, of x] none pick_ready(2) [OF inv pick]
    by (auto simp: a free_ok_def)
  then show ?thesis
    using client_invD(7) [OF inv] pick_frames(2) [OF inv pick] pick_held [OF inv pick]
      pick_given [OF inv pick] pick_ready(1) [OF inv pick] none
    by (intro client_invI) (auto simp: a)
qed

lemma malloc_some_inv:
  assumes inv: "client_inv st" and pick: "a_pick format (cl_queue st) = Some (pre, nd, post, ready)"
    and a: "a = (cl_queue st)\<lparr>a_free := pre @ taken f now nd # post, a_ready := ready,
      total_malloc := total_malloc (cl_queue st) + 1\<rparr>"
    and f: "nd_frame nd = Some f \<or> nd_frame nd = None \<and> f \<notin> set (queue_frames (cl_queue st))"
  shows "client_inv \<lparr>cl_queue = a, cl_held = cl_held st, cl_prod = cl_prod st \<union> {f}\<rparr>"
    and "f \<notin> cl_prod st \<and> (\<forall>c. (c, f) \<notin> cl_held st)"
proof -
  note dist = pick_frames(2) [OF inv pick] and given = pick_given [OF inv pick]
  have new: "f \<notin> set (frames_of (pre @ post @ ready))"
    using f dist mset_eq_setD [OF pick_frames(1) [OF inv pick]] by auto
  then show "f \<notin> cl_prod st \<and> (\<forall>c. (c, f) \<notin> cl_held st)"
    using given pick_held(2) [OF inv pick] by auto
  have "free_ok (cl_prod st \<union> {f}) (taken f now nd)"
    by (simp add: free_ok_def taken_def)
  moreover have "free_ok (cl_prod st \<union> {f}) x" if "x \<in> set (pre @ post)" for x
    using client_invD(3) [OF inv, of x] pick_facts(3) [OF inv pick] that frames_mid [of f pre post x] new
    by (auto simp: free_ok_def)
  moreover have "distinct (frames_of (a_free a @ a_ready a))"
    using dist new by (auto simp: a taken_def split: option.splits)
  moreover have "cl_prod st \<union> {f} \<subseteq> set (frames_of (a_free a))"
    using given by (auto simp: a taken_def)
  ultimately show "client_inv \<lparr>cl_queue = a, cl_held = cl_held st, cl_prod = cl_prod st \<union> {f}\<rparr>"
    using client_invD(7) [OF inv] pick_held [OF inv pick] pick_ready(1) [OF inv pick]
    by (intro client_invI) (auto simp: a)
qed

lemma malloc_inv:
  assumes inv: "client_inv st"
    and fresh: "\<forall>f. alloc = Some f \<longrightarrow> f \<notin> set (queue_frames (cl_queue st))"
    and malloc: "a_malloc alloc now format (cl_queue st) = (r, a)"
  shows "client_inv (st\<lparr>cl_queue := a, cl_prod := cl_prod st \<union> set_option r\<rparr>)"
    and "r = Some f \<Longrightarrow> f \<notin> cl_prod st \<and> (\<forall>c. (c, f) \<notin> cl_held st)"
proof -
  consider (nothing) "r = None" "a = cl_queue st"
    | (empty) pre nd post ready where "a_pick format (cl_queue st) = Some (pre, nd, post, ready)"
        "nd_frame nd = None" "r = None"
        "a = (cl_queue st)\<lparr>a_free := pre @ nd\<lparr>in_use := 0\<rparr> # post, a_ready := ready\<rparr>"
    | (full) pre nd post ready g where "a_pick format (cl_queue st) = Some (pre, nd, post, ready)"
        "nd_frame nd = Some g \<or> nd_frame nd = None \<and> g \<notin> set (queue_frames (cl_queue st))" "r = Some g"
        "a = (cl_queue st)\<lparr>a_free := pre @ taken g now nd # post, a_ready := ready,
          total_malloc := total_malloc (cl_queue st) + 1\<rparr>"
    using malloc fresh by (auto simp: a_malloc_def split: option.splits prod.splits)
  then have "client_inv (st\<lparr>cl_queue := a, cl_prod := cl_prod st \<union> set_option r\<rparr>) \<and>
    (\<forall>f. r = Some f \<longrightarrow> f \<notin> cl_prod st \<and> (\<forall>c. (c, f) \<notin> cl_held st))"
  proof cases
    case nothing
    with inv show ?thesis by simp
  next
    case empty
    from malloc_none_inv [OF inv empty(1,4,2)] empty(3) show ?thesis by (cases st) simp
  next
    case full
    from malloc_some_inv [OF inv full(1,4,2)] full(3) show ?thesis by (cases st) auto
  qed
  then show "client_inv (st\<lparr>cl_queue := a, cl_prod := cl_prod st \<union> set_option r\<rparr>)"
    and "r = Some f \<Longrightarrow> f \<notin> cl_prod st \<and> (\<forall>c. (c, f) \<notin> cl_held st)"
    by blast+
qed

lemma step_inv: "client_step format st e st' \<Longrightarrow> client_inv st \<Longrightarrow> client_inv st'"
  by (induction rule: client_step.induct)
    (simp_all add: register_inv unregister_inv malloc_inv complete_inv cancel_inv get_inv release_inv
      clear_inv)

lemma init_inv: "client_inv (client_init k format ts)"
proof -
  have "frames_of (map fresh_node ts) = []"
    by (induction ts) (simp_all add: fresh_node_def frame_node_zero_def)
  then show ?thesis
    by (auto simp: client_init_def abs_zero_def client_inv_def queue_frames_def free_ok_def
        fresh_node_def frame_node_zero_def)
qed

lemma reach_inv: "client_reach format st \<Longrightarrow> client_inv st"
  by (induction rule: client_reach.induct) (auto intro: init_inv step_inv)

section \<open>What the invariant gives\<close>

text \<open>A frame somebody holds is published, and counts its holders.\<close>

lemma held_node:
  assumes "client_inv st" and "(c, f) \<in> cl_held st"
  obtains nd where "nd \<in> set (a_ready (cl_queue st))" "nd_frame nd = Some f"
    "unat (ref_count nd) = card (holders (cl_held st) f)" "bit (accessed_mask nd) c"
proof -
  obtain nd where nd: "nd \<in> set (a_ready (cl_queue st))" "nd_frame nd = Some f"
    using client_invD(5) [OF assms] by (auto simp: set_frames_of)
  with client_invD(2) [OF assms(1) nd(1)] assms(2) that show ?thesis
    by (auto simp: ready_ok_def holders_def)
qed

text \<open>A published frame nobody holds is still wanted by a registered consumer.\<close>

lemma unheld_wanted:
  assumes inv: "client_inv st" and nd: "nd \<in> set (a_ready (cl_queue st))"
    and "ref_count nd = 0" and "consumer_mask nd \<noteq> 0"
  obtains c where "c < 8" "bit (active_consumers (cl_queue st)) c" "wanted (cbit c) nd"
proof -
  have ok: "ready_ok (active_consumers (cl_queue st)) (cl_held st) nd"
    by (rule client_invD(2) [OF inv nd])
  then obtain c where c: "bit (consumer_mask nd) c" "\<not> bit (accessed_mask nd) c"
    using assms(3,4) by (auto simp: ready_ok_def all_accessed_bits)
  with ok have "bit (active_consumers (cl_queue st)) c" by (auto simp: ready_ok_def)
  moreover from client_invD(7) [OF inv this] have "c < 8" .
  ultimately show ?thesis using that c by (simp add: wanted_cbit)
qed

text \<open>A release frees the buffer exactly when the caller was the last holder and nobody waits.\<close>

lemma release_frees_iff:
  assumes inv: "client_inv st" and held: "(c, f) \<in> cl_held st"
    and rel: "a_release c f (cl_queue st) = (freed, a)"
  shows "freed \<longleftrightarrow> holders (cl_held st) f = {c} \<and>
    (\<forall>nd \<in> set (a_ready (cl_queue st)). nd_frame nd = Some f \<longrightarrow> (\<forall>d < 8. \<not> wanted (cbit d) nd))"
proof -
  obtain pre nd post where ready: "a_ready (cl_queue st) = pre @ nd # post"
    and nd: "nd_frame nd = Some f" and freed: "freed \<longleftrightarrow> ref_count nd = 1 \<and> all_accessed nd"
    using release_cases [OF inv held rel] by metis
  have mem: "nd \<in> set (a_ready (cl_queue st))" using ready by simp
  have ok: "ready_ok (active_consumers (cl_queue st)) (cl_held st) nd"
    by (rule client_invD(2) [OF inv mem])
  have only: "x = nd" if "x \<in> set (a_ready (cl_queue st))" "nd_frame x = Some f" for x
    using frames_unique [OF _ that(1) mem that(2) nd] client_invD(1) [OF inv]
    by (simp add: queue_frames_def)
  have "all_accessed nd \<longleftrightarrow> (\<forall>d < 8. \<not> wanted (cbit d) nd)"
    using ok client_invD(7) [OF inv] by (auto simp: all_accessed_bits wanted_cbit ready_ok_def)
  moreover have "ref_count nd = 1 \<longleftrightarrow> holders (cl_held st) f = {c}"
  proof -
    have "ref_count nd = 1 \<longleftrightarrow> unat (ref_count nd) = 1"
      by (simp add: word_unat_eq_iff)
    also have "\<dots> \<longleftrightarrow> card (holders (cl_held st) f) = 1"
      using ok nd by (auto simp: ready_ok_def)
    also have "\<dots> \<longleftrightarrow> holders (cl_held st) f = {c}"
    proof -
      have "c \<in> holders (cl_held st) f" using held by (simp add: holders_def)
      then show ?thesis by (metis card_1_singleton_iff is_singletonI singletonD One_nat_def)
    qed
    finally show ?thesis .
  qed
  ultimately show ?thesis
    using freed only mem nd by blast
qed

section \<open>No node is lost\<close>

definition node_count :: "abs_queue \<Rightarrow> nat" where
  "node_count a = length (a_free a) + length (a_ready a)"

lemma sweep_length: "length (moved g xs) + length (kept g xs) = length xs"
  by (induction xs) auto

lemma step_nodes:
  assumes "client_step format st e st'"
  shows "node_count (cl_queue st') = node_count (cl_queue st) \<and>
    q_count (cl_queue st') = q_count (cl_queue st)"
  using assms
proof (induction rule: client_step.induct)
  case (step_register c st)
  then show ?case
    using sweep_length [of cleanup_visit "a_ready (cl_queue st)"]
    by (simp add: node_count_def a_register_def a_sweep_def upd_consumer_def Let_def)
next
  case (step_unregister c st)
  then show ?case
    using sweep_length [of "unregister_visit (cbit c)" "a_ready (cl_queue st)"]
    by (simp add: node_count_def a_unregister_def a_sweep_def upd_consumer_def Let_def)
next
  case (step_malloc alloc st now r a)
  then show ?case
    by (auto simp: node_count_def a_malloc_def a_pick_def split: option.splits if_splits
        dest!: extract_split)
next
  case (step_complete f st ts ct r a)
  then show ?case
    by (auto simp: node_count_def a_complete_def split: option.splits dest!: extract_split)
next
  case (step_cancel f st r a)
  then show ?case
    by (auto simp: node_count_def a_cancel_def split: option.splits dest!: extract_split)
next
  case (step_get c st f a)
  then show ?case
    by (auto simp: node_count_def a_get_def upd_consumer_def split: option.splits dest!: extract_split)
next
  case (step_release c f st freed a)
  then show ?case
    by (auto simp: node_count_def a_release_def upd_consumer_def Let_def
        split: option.splits if_splits dest!: extract_split)
next
  case (step_clear st)
  then show ?case
    using sweep_length [of clear_visit "a_ready (cl_queue st)"]
    by (simp add: node_count_def a_clear_def a_sweep_def Let_def)
qed simp

section \<open>A consumer gets a publication once\<close>

text \<open>\<open>served c f st\<close>: if the frame is published, consumer \<open>c\<close> already had it.\<close>

definition served :: "nat \<Rightarrow> frame_ptr \<Rightarrow> abs_queue \<Rightarrow> bool" where
  "served c f a \<longleftrightarrow> (\<forall>nd \<in> set (a_ready a). nd_frame nd = Some f \<longrightarrow> bit (accessed_mask nd) c)"

lemma served_sweep:
  assumes "served c f a" and "\<And>nd. nd_frame (snd (g nd)) = nd_frame nd"
    and "\<And>nd. \<not> fst (g nd) \<Longrightarrow> accessed_mask (snd (g nd)) = accessed_mask nd"
    and "a_ready a' = kept g (a_ready a)"
  shows "served c f a'"
  using assms by (auto simp: served_def set_kept)

lemma served_step:
  assumes "client_step format st e st'" and "served c f (cl_queue st)" and "e \<noteq> Ev_complete f"
    and "client_inv st"
  shows "served c f (cl_queue st')"
  using assms
proof (induction rule: client_step.induct)
  case (step_register d st)
  then show ?case
    by (auto intro!: served_sweep [where a = "cl_queue st" and g = cleanup_visit]
        simp: visit_frame cleanup_visit_def a_register_def a_sweep_def upd_consumer_def Let_def)
next
  case (step_unregister d st)
  then show ?case
    by (auto intro!: served_sweep [where a = "cl_queue st" and g = "unregister_visit (cbit d)"]
        simp: visit_frame unregister_visit_def a_unregister_def a_sweep_def upd_consumer_def Let_def
        split: if_splits)
next
  case (step_malloc alloc st now r a)
  then show ?case
    by (auto simp: served_def a_malloc_def a_pick_def split: option.splits if_splits
        dest!: extract_split)
next
  case (step_complete g st ts ct r a)
  then have "nd_frame nd = Some g" if "List.extract (in_use_with g) (a_free (cl_queue st)) = Some (pre, nd, post)"
    for pre nd post using extract_split [OF that] by (simp add: in_use_with_def)
  with step_complete show ?case
    by (auto simp: served_def a_complete_def split: option.splits)
next
  case (step_cancel g st r a)
  then show ?case
    by (auto simp: served_def a_cancel_def split: option.splits)
next
  case (step_get d st g a)
  then show ?case
    by (auto simp: served_def a_get_def upd_consumer_def bit_simps split: option.splits
        dest!: extract_split)
next
  case (step_release d g st freed a)
  then show ?case
    by (auto simp: served_def a_release_def upd_consumer_def Let_def drop_ref_def
        split: option.splits if_splits dest!: extract_split)
next
  case (step_clear st)
  then show ?case
    by (auto intro!: served_sweep [where a = "cl_queue st" and g = clear_visit]
        simp: visit_frame clear_visit_def a_clear_def a_sweep_def Let_def)
qed simp

lemma get_serves:
  assumes inv: "client_inv st" and c: "c < 8"
    and get: "a_get c (cbit c) (cl_queue st) = (Some (Some f), a)"
  shows "\<not> served c f (cl_queue st)" and "served c f a"
proof -
  obtain pre nd post where ex: "List.extract (wanted (cbit c)) (a_ready (cl_queue st)) = Some (pre, nd, post)"
    and nd: "nd_frame nd = Some f"
    using get by (auto simp: a_get_def split: option.splits)
  from extract_split [OF ex] have ready: "a_ready (cl_queue st) = pre @ nd # post"
    and w: "wanted (cbit c) nd" by simp_all
  then show "\<not> served c f (cl_queue st)"
    using nd c by (auto simp: served_def wanted_cbit)
  have "distinct (frames_of (pre @ nd # post))"
    using client_invD(1) [OF inv] ready by (simp add: queue_frames_def)
  then have "f \<notin> set (frames_of (pre @ post))"
    using nd by auto
  then have "nd_frame x \<noteq> Some f" if "x \<in> set (pre @ post)" for x
    using that frames_mid by blast
  then show "served c f a"
    using get nd ex c
    by (auto simp: served_def a_get_def upd_consumer_def bit_simps bit_cbit)
qed

end
