(* ===== verification/Frame_Queue_Protocol.thy ===== *)
theory Frame_Queue_Protocol
  imports Frame_Queue_Clients
begin

text \<open>
  The guarantees of \<open>Frame_Queue_Clients\<close> for the C functions themselves: sequences of calls
  (\<open>exec\<close>), the protocol of the callers on the pointer state (\<open>proto_step\<close>), and its
  simulation by the abstract protocol. Here are the properties of the frame queue.
\<close>

section \<open>Sequences of calls\<close>

datatype fq_call =
    Register u32 | Unregister u32
  | Malloc "frame_ptr option" u64 u32 | Complete u64 u64 "frame_ptr option"
  | Cancel "frame_ptr option" | Get u64 u32 timeout | Release u32 "frame_ptr option"

datatype fq_result = Status bk_err_t | Buffer "frame_ptr option" | Fetched get_result | Done

fun exec :: "image_format \<Rightarrow> fq_call \<Rightarrow> fq_state \<Rightarrow> (fq_result \<times> fq_state) option" where
  "exec format (Register cid) s =
     map_option (apfst Status) (frame_queue_v2_register_consumer format cid s)"
| "exec format (Unregister cid) s =
     map_option (apfst Status) (frame_queue_v2_unregister_consumer format cid s)"
| "exec format (Malloc alloc now sz) s =
     map_option (apfst Buffer) (frame_queue_v2_malloc alloc now format sz s)"
| "exec format (Complete now now' frame) s =
     map_option (apfst Status) (frame_queue_v2_complete now now' format frame s)"
| "exec format (Cancel frame) s =
     map_option (apfst Status) (frame_queue_v2_cancel format frame s)"
| "exec format (Get t cid timeout) s =
     map_option (apfst Fetched) (frame_queue_v2_get_frame [] t format cid timeout s)"
| "exec format (Release cid frame) s =
     map_option (Pair Done) (frame_queue_v2_release_frame format cid frame s)"

fun spec_exec :: "image_format \<Rightarrow> fq_call \<Rightarrow> abs_state \<Rightarrow> fq_result \<times> abs_state" where
  "spec_exec format (Register cid) A = apfst Status (spec_register format cid A)"
| "spec_exec format (Unregister cid) A = apfst Status (spec_unregister format cid A)"
| "spec_exec format (Malloc alloc now sz) A = apfst Buffer (spec_malloc alloc now format sz A)"
| "spec_exec format (Complete now now' frame) A =
     apfst Status (spec_complete now now' format frame A)"
| "spec_exec format (Cancel frame) A = apfst Status (spec_cancel format frame A)"
| "spec_exec format (Get t cid timeout) A = apfst Fetched (spec_get [] t format cid timeout A)"
| "spec_exec format (Release cid frame) A = (Done, spec_release format cid frame A)"

fun run :: "(image_format \<times> fq_call) list \<Rightarrow> fq_state \<Rightarrow> (fq_result list \<times> fq_state) option" where
  "run [] s = Some ([], s)"
| "run ((format, call) # calls) s = do {
     (r, s) \<leftarrow> exec format call s;
     (rs, s) \<leftarrow> run calls s;
     Some (r # rs, s)
   }"

fun spec_run :: "(image_format \<times> fq_call) list \<Rightarrow> abs_state \<Rightarrow> fq_result list \<times> abs_state" where
  "spec_run [] A = ([], A)"
| "spec_run ((format, call) # calls) A =
     (let (r, A) = spec_exec format call A; (rs, A) = spec_run calls A in (r # rs, A))"

lemma exec_rep:
  assumes "fq_rep X s A"
  shows "\<exists>s'. exec format call s = Some (fst (spec_exec format call A), s') \<and>
    fq_rep X s' (snd (spec_exec format call A))"
proof (cases call)
  case (Register cid)
  with register_rep [OF assms, of format cid] show ?thesis by (auto simp: apfst_def map_prod_def split_beta)
next
  case (Unregister cid)
  with unregister_rep [OF assms, of format cid] show ?thesis by (auto simp: apfst_def map_prod_def split_beta)
next
  case (Malloc alloc now sz)
  with malloc_rep [OF assms, of alloc now format sz] show ?thesis
    by (auto simp: apfst_def map_prod_def split_beta)
next
  case (Complete now now' frame)
  with complete_rep [OF assms, of now now' format frame] show ?thesis
    by (auto simp: apfst_def map_prod_def split_beta)
next
  case (Cancel frame)
  with cancel_rep [OF assms, of format frame] show ?thesis
    by (auto simp: apfst_def map_prod_def split_beta)
next
  case (Get t cid timeout)
  with get_rep [OF assms, of "[]" "[]" t format cid timeout] show ?thesis
    by (auto simp: apfst_def map_prod_def split_beta)
next
  case (Release cid frame)
  with release_rep [OF assms, of format cid frame] show ?thesis by auto
qed

lemma run_rep:
  "fq_rep X s A \<Longrightarrow> \<exists>s'. run calls s = Some (fst (spec_run calls A), s') \<and>
     fq_rep X s' (snd (spec_run calls A))"
proof (induction calls arbitrary: s A)
  case (Cons c calls)
  obtain format call where c: "c = (format, call)" by (cases c)
  obtain s1 where 1: "exec format call s = Some (fst (spec_exec format call A), s1)"
    "fq_rep X s1 (snd (spec_exec format call A))"
    using exec_rep [OF Cons.prems] by blast
  from Cons.IH [OF 1(2)] 1(1) show ?case
    by (auto simp: c Let_def split_beta)
qed simp

text \<open>A call for one format leaves the queues of the others alone.\<close>

lemma a_index_slot: "a_index format A = Some i \<Longrightarrow> \<exists>k. init_slot format = Some (i, k)"
  by (cases format)
    (auto simp: a_index_def get_frame_buffer_list_index_def init_slot_def FB_LIST_MAX_COUNT_def
      split: if_splits)

lemma slot_inj: "init_slot format = Some (i, k) \<Longrightarrow> init_slot format' = Some (i, k') \<Longrightarrow> format = format'"
  by (cases format; cases format') (simp_all add: init_slot_def)

lemma spec_exec_other:
  assumes slot: "init_slot format' = Some (i, k)" and other: "format \<noteq> format'"
  shows "as_queues (snd (spec_exec format call A)) ! i = as_queues A ! i"
proof -
  have neq: "j \<noteq> i" if "a_index format A = Some j" for j
    using a_index_slot [OF that] slot other slot_inj by blast
  have loop: "as_queues A' ! i = as_queues A ! i"
    if "spec_get_loop [] j c cid tm t0 A = (r, A')" "j \<noteq> i" for j c cid tm t0 r A'
    using that by (auto simp: spec_get_loop.simps split: prod.splits option.splits)
  show ?thesis
    using neq
    by (cases call; cases "a_index format A")
      (auto simp: spec_register_def spec_unregister_def spec_malloc_def spec_complete_def
        spec_cancel_def spec_get_def spec_release_def apfst_def map_prod_def Let_def
        split: prod.splits option.splits if_splits dest: loop)
qed

section \<open>Start-up\<close>

definition boot_state :: fq_state where
  "boot_state = \<lparr>st_heap = \<lparr>hp_next = \<lambda>_. None, hp_prev = \<lambda>_. None, hp_node = \<lambda>_. frame_node_zero\<rparr>,
     st_queues = replicate 3 queue_zero, st_frames = \<lambda>_. frame_buffer_zero, st_log = []\<rparr>"

text \<open>The allocator and the semaphores deliver for each of the three queues.\<close>

definition good_boot :: "(image_format \<Rightarrow> init_env) \<Rightarrow> bool" where
  "good_boot env \<longleftrightarrow> ie_sem (env IMAGE_MJPEG) = BK_OK \<and> ie_sem (env IMAGE_H264) = BK_OK \<and>
     ie_sem (env IMAGE_YUV) = BK_OK \<and>
     distinct (map fst (created (env IMAGE_MJPEG) 0 4 @ created (env IMAGE_H264) 0 6 @
       created (env IMAGE_YUV) 0 3))"

definition boot_nodes :: "(image_format \<Rightarrow> init_env) \<Rightarrow> nat \<Rightarrow> node_ptr set" where
  "boot_nodes env = (\<lambda>_. {})(0 := fst ` set (created (env IMAGE_MJPEG) 0 4),
     1 := fst ` set (created (env IMAGE_H264) 0 6), 2 := fst ` set (created (env IMAGE_YUV) 0 3))"

definition boot_queue :: "init_env \<Rightarrow> image_format \<Rightarrow> u8 \<Rightarrow> abs_queue" where
  "boot_queue env format k = abs_zero\<lparr>q_count := k, q_format := format,
     a_free := map fresh_node (map snd (created env 0 (unat k)))\<rparr>"

definition booted :: "(image_format \<Rightarrow> init_env) \<Rightarrow> abs_state" where
  "booted env = \<lparr>as_queues = [boot_queue (env IMAGE_MJPEG) IMAGE_MJPEG 4,
       boot_queue (env IMAGE_H264) IMAGE_H264 6, boot_queue (env IMAGE_YUV) IMAGE_YUV 3],
     as_frames = \<lambda>_. frame_buffer_zero, as_log = [Sem_init 0, Sem_init 1, Sem_init 2]\<rparr>"

lemma boot_rep0:
  "fq_rep (\<lambda>_. {}) boot_state \<lparr>as_queues = [abs_zero, abs_zero, abs_zero],
     as_frames = \<lambda>_. frame_buffer_zero, as_log = []\<rparr>"
proof -
  have "qrep (st_heap boot_state) {} (get_queue i boot_state) abs_zero" if "i < 3" for i
  proof (rule qrepI)
    have "get_queue i boot_state = (st_heap boot_state, queue_zero)"
      using that by (simp add: get_queue_def boot_state_def)
    then show "qwf (st_heap boot_state) {} {} (get_queue i boot_state) [] []"
      and "absq (get_queue i boot_state) [] [] = abs_zero"
      using qwf_empty [of queue_zero "st_heap boot_state"]
      by (simp_all add: queue_zero_def absq_def abs_zero_def)
  qed
  moreover have "[abs_zero, abs_zero, abs_zero] ! i = abs_zero" if "i < 3" for i
    using that by (auto simp: less_Suc_eq numeral_3_eq_3)
  ultimately show ?thesis
    by (auto simp: fq_rep_def boot_state_def)
qed

lemma boot_rep:
  assumes "good_boot env"
  shows "\<exists>s. frame_queue_v2_init_all env boot_state = (BK_OK, s) \<and> fq_rep (boot_nodes env) s (booted env)"
proof -
  let ?A0 = "\<lparr>as_queues = [abs_zero, abs_zero, abs_zero], as_frames = \<lambda>_. frame_buffer_zero,
      as_log = []\<rparr>"
  let ?A1 = "\<lparr>as_queues = [boot_queue (env IMAGE_MJPEG) IMAGE_MJPEG 4, abs_zero, abs_zero],
      as_frames = \<lambda>_. frame_buffer_zero, as_log = [Sem_init 0]\<rparr>"
  let ?A2 = "\<lparr>as_queues = [boot_queue (env IMAGE_MJPEG) IMAGE_MJPEG 4,
      boot_queue (env IMAGE_H264) IMAGE_H264 6, abs_zero],
      as_frames = \<lambda>_. frame_buffer_zero, as_log = [Sem_init 0, Sem_init 1]\<rparr>"
  have slots: "init_slot IMAGE_MJPEG = Some (0, 4)" "init_slot IMAGE_H264 = Some (1, 6)"
    "init_slot IMAGE_YUV = Some (2, 3)"
    by (simp_all add: init_slot_def MJPEG_MAX_FRAME_COUNT_def H264_MAX_FRAME_COUNT_def
        YUV_MAX_FRAME_COUNT_def)
  have sem: "ie_sem (env IMAGE_MJPEG) = BK_OK" "ie_sem (env IMAGE_H264) = BK_OK"
    "ie_sem (env IMAGE_YUV) = BK_OK"
    using assms by (simp_all add: good_boot_def)
  have zero: "q_count abs_zero = 0" by (simp add: abs_zero_def)
  have A1: "spec_init (env IMAGE_MJPEG) IMAGE_MJPEG ?A0 = (BK_OK, ?A1)"
    by (simp add: spec_init_def slots sem zero Let_def put_abs_def log_abs_def boot_queue_def comp_def)
  have A2: "spec_init (env IMAGE_H264) IMAGE_H264 ?A1 = (BK_OK, ?A2)"
    by (simp add: spec_init_def slots sem zero Let_def put_abs_def log_abs_def boot_queue_def comp_def)
  have A3: "spec_init (env IMAGE_YUV) IMAGE_YUV ?A2 = (BK_OK, booted env)"
    by (simp add: spec_init_def slots sem zero Let_def put_abs_def log_abs_def boot_queue_def
        booted_def comp_def)
  have f1: "fresh_env (\<lambda>_. {}) 0 4 (env IMAGE_MJPEG)"
    using assms by (simp add: fresh_env_def good_boot_def)
  obtain s1 where 1: "frame_queue_v2_init (env IMAGE_MJPEG) IMAGE_MJPEG boot_state = (BK_OK, s1)"
    "fq_rep ((\<lambda>_. {})(0 := init_nodes (env IMAGE_MJPEG) 4)) s1 ?A1"
    using init_rep [OF boot_rep0 slots(1) f1] zero unfolding A1 fst_conv snd_conv by auto
  have f2: "fresh_env ((\<lambda>_. {})(0 := init_nodes (env IMAGE_MJPEG) 4)) 1 6 (env IMAGE_H264)"
    using assms by (auto simp: fresh_env_def good_boot_def init_nodes_def)
  obtain s2 where 2: "frame_queue_v2_init (env IMAGE_H264) IMAGE_H264 s1 = (BK_OK, s2)"
    "fq_rep ((\<lambda>_. {})(0 := init_nodes (env IMAGE_MJPEG) 4, 1 := init_nodes (env IMAGE_H264) 6)) s2 ?A2"
    using init_rep [OF 1(2) slots(2) f2] zero unfolding A2 fst_conv snd_conv by auto
  have f3: "fresh_env ((\<lambda>_. {})(0 := init_nodes (env IMAGE_MJPEG) 4,
      1 := init_nodes (env IMAGE_H264) 6)) 2 3 (env IMAGE_YUV)"
    using assms by (auto simp: fresh_env_def good_boot_def init_nodes_def)
  obtain s3 where 3: "frame_queue_v2_init (env IMAGE_YUV) IMAGE_YUV s2 = (BK_OK, s3)"
    "fq_rep ((\<lambda>_. {})(0 := init_nodes (env IMAGE_MJPEG) 4, 1 := init_nodes (env IMAGE_H264) 6,
      2 := init_nodes (env IMAGE_YUV) 3)) s3 (booted env)"
    using init_rep [OF 2(2) slots(3) f3] zero unfolding A3 fst_conv snd_conv by auto
  have "(\<lambda>_. {})(0 := init_nodes (env IMAGE_MJPEG) 4, 1 := init_nodes (env IMAGE_H264) 6,
      2 := init_nodes (env IMAGE_YUV) 3) = boot_nodes env"
    by (simp add: boot_nodes_def init_nodes_def sem)
  with 1 2 3 show ?thesis
    by (simp add: frame_queue_v2_init_all_def)
qed

section \<open>The protocol on the pointer state\<close>

record proto_state =
  ps_sys :: fq_state
  ps_held :: "(nat \<times> frame_ptr) set"
  ps_prod :: "frame_ptr set"

text \<open>The frame buffers the nodes of a queue hold.\<close>

definition buffers :: "node_ptr set \<Rightarrow> fq_state \<Rightarrow> frame_ptr set" where
  "buffers N s = {f. \<exists>n \<in> N. nd_frame (hp_node (st_heap s) n) = Some f}"

text \<open>How often a log frees a buffer.\<close>

definition frees :: "frame_ptr \<Rightarrow> ext_call list \<Rightarrow> nat" where
  "frees f cs = length (filter (\<lambda>c. c = Encode_free f \<or> c = Display_free f) cs)"

text \<open>
  One call for the queue of \<open>format\<close>, whose nodes are \<open>N\<close>; or any call for another format,
  which is no event of this queue.
\<close>

inductive proto_step ::
    "image_format \<Rightarrow> node_ptr set \<Rightarrow> proto_state \<Rightarrow> client_event option \<Rightarrow> proto_state \<Rightarrow> bool"
  for format N where
  p_register:
    "c < 8 \<Longrightarrow> frame_queue_v2_register_consumer format (cbit c) (ps_sys ps) = Some (r, s') \<Longrightarrow>
     proto_step format N ps (Some (Ev_register c)) (ps\<lparr>ps_sys := s'\<rparr>)"
| p_unregister:
    "c < 8 \<Longrightarrow> frame_queue_v2_unregister_consumer format (cbit c) (ps_sys ps) = Some (r, s') \<Longrightarrow>
     proto_step format N ps (Some (Ev_unregister c)) (ps\<lparr>ps_sys := s'\<rparr>)"
| p_malloc:
    "\<forall>f. alloc = Some f \<longrightarrow> f \<notin> buffers N (ps_sys ps) \<Longrightarrow>
     frame_queue_v2_malloc alloc now format sz (ps_sys ps) = Some (r, s') \<Longrightarrow>
     proto_step format N ps (Some (Ev_malloc r))
       (ps\<lparr>ps_sys := s', ps_prod := ps_prod ps \<union> set_option r\<rparr>)"
| p_complete:
    "f \<in> ps_prod ps \<Longrightarrow>
     frame_queue_v2_complete now now' format (Some f) (ps_sys ps) = Some (r, s') \<Longrightarrow>
     proto_step format N ps (Some (Ev_complete f)) (ps\<lparr>ps_sys := s', ps_prod := ps_prod ps - {f}\<rparr>)"
| p_cancel:
    "f \<in> ps_prod ps \<Longrightarrow> frame_queue_v2_cancel format (Some f) (ps_sys ps) = Some (r, s') \<Longrightarrow>
     proto_step format N ps (Some (Ev_cancel f)) (ps\<lparr>ps_sys := s', ps_prod := ps_prod ps - {f}\<rparr>)"
| p_get:
    "c < 8 \<Longrightarrow>
     frame_queue_v2_get_frame [] t0 format (cbit c) timeout (ps_sys ps) = Some (Got (Some f), s') \<Longrightarrow>
     proto_step format N ps (Some (Ev_get c (Some f)))
       (ps\<lparr>ps_sys := s', ps_held := insert (c, f) (ps_held ps)\<rparr>)"
| p_get_none:
    "c < 8 \<Longrightarrow> frame_queue_v2_get_frame [] t0 format (cbit c) timeout (ps_sys ps) = Some (r, s') \<Longrightarrow>
     \<forall>f. r \<noteq> Got (Some f) \<Longrightarrow>
     proto_step format N ps (Some (Ev_get c None)) (ps\<lparr>ps_sys := s'\<rparr>)"
| p_release:
    "(c, f) \<in> ps_held ps \<Longrightarrow>
     frame_queue_v2_release_frame format (cbit c) (Some f) (ps_sys ps) = Some s' \<Longrightarrow>
     freed \<longleftrightarrow> frees f (st_log (ps_sys ps)) < frees f (st_log s') \<Longrightarrow>
     proto_step format N ps (Some (Ev_release c f freed))
       (ps\<lparr>ps_sys := s', ps_held := ps_held ps - {(c, f)}\<rparr>)"
| p_clear:
    "ps_prod ps = {} \<Longrightarrow> frame_queue_v2_clear_all (ps_sys ps) = Some (r, s') \<Longrightarrow>
     proto_step format N ps (Some Ev_clear) (ps\<lparr>ps_sys := s'\<rparr>)"
| p_other:
    "format' \<noteq> format \<Longrightarrow> exec format' call (ps_sys ps) = Some (r, s') \<Longrightarrow>
     proto_step format N ps None (ps\<lparr>ps_sys := s'\<rparr>)"

text \<open>The states after start-up and any number of protocol steps, with the events so far.\<close>

inductive proto_run ::
    "(image_format \<Rightarrow> init_env) \<Rightarrow> image_format \<Rightarrow> nat \<Rightarrow> client_event list \<Rightarrow> proto_state \<Rightarrow> bool"
  for env format i where
  run_boot:
    "frame_queue_v2_init_all env boot_state = (BK_OK, s) \<Longrightarrow>
     proto_run env format i [] \<lparr>ps_sys = s, ps_held = {}, ps_prod = {}\<rparr>"
| run_step:
    "proto_run env format i es ps \<Longrightarrow> proto_step format (boot_nodes env i) ps e ps' \<Longrightarrow>
     proto_run env format i (es @ (case e of None \<Rightarrow> [] | Some ev \<Rightarrow> [ev])) ps'"

definition psim :: "(nat \<Rightarrow> node_ptr set) \<Rightarrow> nat \<Rightarrow> proto_state \<Rightarrow> client_state \<Rightarrow> abs_state \<Rightarrow> bool" where
  "psim X i ps st A \<longleftrightarrow> fq_rep X (ps_sys ps) A \<and> as_queues A ! i = cl_queue st \<and>
     q_count (cl_queue st) \<noteq> 0 \<and> ps_held ps = cl_held st \<and> ps_prod ps = cl_prod st"

lemma queue_frames_buffers:
  assumes "fq_rep X s A" and "i < 3"
  shows "set (queue_frames (as_queues A ! i)) = buffers (X i) s"
proof -
  obtain fs rs where wf: "qwf (st_heap s) (X i) {} (get_queue i s) fs rs"
    and a: "as_queues A ! i = absq (get_queue i s) fs rs"
    using fq_rep_queue [OF assms] by (rule qrepE)
  have "X i = set fs \<union> set rs" using wf by (simp add: qwf_def)
  then show ?thesis
    by (auto simp: queue_frames_def set_frames_of a buffers_def get_queue_def)
qed

lemma frees_append [simp]: "frees f (xs @ ys) = frees f xs + frees f ys"
  by (simp add: frees_def)

lemma frees_visible: "frees f (filter visible cs) = frees f cs"
proof -
  have "(\<lambda>c. visible c \<and> (c = Encode_free f \<or> c = Display_free f)) =
      (\<lambda>c. c = Encode_free f \<or> c = Display_free f)"
    by auto
  then show ?thesis by (simp add: frees_def)
qed

lemma frees_call: "init_slot format = Some p \<Longrightarrow>
    frees f (frame_buffer_free format g) = (if f = g then 1 else 0)"
  by (cases format) (simp_all add: init_slot_def frame_buffer_free_def frees_def)

lemma psim_index:
  assumes "psim X i ps st A" and "init_slot format = Some (i, k)"
  shows "a_index format A = Some i" and "i < 3" and "i < length (as_queues A)"
proof -
  show "i < 3" using init_slot_index(1) [OF assms(2)] by simp
  with assms show "i < length (as_queues A)"
    using fq_rep_length [of X "ps_sys ps" A] by (simp add: psim_def)
  show "a_index format A = Some i"
    using init_slot_index(1) [OF assms(2)] assms(1)
    by (simp add: a_index_def psim_def FB_LIST_MAX_COUNT_def)
qed

lemma spec_clear_at:
  assumes "i < length (as_queues A)"
  shows "as_queues (spec_clear j A) ! i =
      (if j = i \<and> q_count (as_queues A ! i) \<noteq> 0 then fst (a_clear (as_queues A ! i))
       else as_queues A ! i)"
    and "length (as_queues (spec_clear j A)) = length (as_queues A)"
  using assms by (cases "j = i"; auto simp: spec_clear_def split_beta Let_def)+

lemma clear_queue_count: "q_count (fst (a_clear a)) = q_count a"
  by (simp add: a_clear_def a_sweep_def Let_def)

lemma spec_clear_all_at:
  assumes "i < 3" and "length (as_queues A) = 3" and "q_count (as_queues A ! i) \<noteq> 0"
  shows "as_queues (snd (spec_clear_all A)) ! i = fst (a_clear (as_queues A ! i))"
proof -
  have "i = 0 \<or> i = 1 \<or> i = 2" using assms(1) by auto
  then show ?thesis
    using assms by (auto simp: spec_clear_all_def spec_clear_at)
qed

text \<open>The node a consumer finds always carries a frame.\<close>

lemma get_frame_present:
  assumes "client_inv st" and "a_get c cid (cl_queue st) = (Some found, a)"
  obtains f where "found = Some f"
proof -
  obtain pre nd post where "List.extract (wanted cid) (a_ready (cl_queue st)) = Some (pre, nd, post)"
    and found: "found = nd_frame nd"
    using assms(2) by (auto simp: a_get_def split: option.splits)
  then have "nd \<in> set (a_ready (cl_queue st))" by (auto dest: extract_split)
  from client_invD(2) [OF assms(1) this] found that show ?thesis by (auto simp: ready_ok_def)
qed

lemma psimD:
  assumes "psim X i ps st A"
  shows "fq_rep X (ps_sys ps) A" and "as_queues A ! i = cl_queue st" and "q_count (cl_queue st) \<noteq> 0"
    and "ps_held ps = cl_held st" and "ps_prod ps = cl_prod st"
  using assms by (simp_all add: psim_def)

text \<open>
  The state after a call simulates a client step with event \<open>ev\<close>; a call that leaves queue
  \<open>i\<close> as \<open>a\<close> simulates the client step to \<open>a\<close>.
\<close>

definition simulated ::
    "(nat \<Rightarrow> node_ptr set) \<Rightarrow> nat \<Rightarrow> image_format \<Rightarrow> client_state \<Rightarrow> client_event \<Rightarrow> proto_state \<Rightarrow> bool" where
  "simulated X i format st ev ps' \<longleftrightarrow>
     (\<exists>st' A'. psim X i ps' st' A' \<and> client_step format st ev st')"

lemma simulatedI:
  assumes sim: "psim X i ps st A" and "fq_rep X s' A'" and "as_queues A' ! i = a"
    and step: "client_step format st ev \<lparr>cl_queue = a, cl_held = H, cl_prod = P\<rparr>"
  shows "simulated X i format st ev \<lparr>ps_sys = s', ps_held = H, ps_prod = P\<rparr>"
  unfolding simulated_def
  using assms(2,3) step step_nodes [OF step] psimD(3) [OF sim]
  by (intro exI [of _ "\<lparr>cl_queue = a, cl_held = H, cl_prod = P\<rparr>"] exI [of _ A']) (simp add: psim_def)

lemma sim_register:
  assumes sim: "psim X i ps st A" and slot: "init_slot format = Some (i, k)" and inv: "client_inv st"
    and "c < 8"
    and "frame_queue_v2_register_consumer format (cbit c) (ps_sys ps) = Some (r, s')"
  shows "simulated X i format st (Ev_register c) (ps\<lparr>ps_sys := s'\<rparr>)"
proof -
  note index = psim_index [OF sim slot] and rep = psimD(1) [OF sim] and qA = psimD(2) [OF sim]
  note held = psimD(4) [OF sim] and given = psimD(5) [OF sim]
  from register_rep [OF rep, of format "cbit c"] assms(4-5)
  have rep': "fq_rep X s' (put_abs i (a_register c (cbit c) (cl_queue st)) A)"
    by (simp add: spec_register_def index consumer_idx_cbit qA)
  from step_register [of c format st] assms(4) have "client_step format st (Ev_register c)
      \<lparr>cl_queue = a_register c (cbit c) (cl_queue st), cl_held = ps_held ps, cl_prod = ps_prod ps\<rparr>"
    by (cases st) (simp add: held given)
  then show ?thesis
    using simulatedI [OF sim rep'] index(3) by (cases ps) simp
qed

lemma sim_unregister:
  assumes sim: "psim X i ps st A" and slot: "init_slot format = Some (i, k)" and inv: "client_inv st"
    and "c < 8"
    and "frame_queue_v2_unregister_consumer format (cbit c) (ps_sys ps) = Some (r, s')"
  shows "simulated X i format st (Ev_unregister c) (ps\<lparr>ps_sys := s'\<rparr>)"
proof -
  note index = psim_index [OF sim slot] and rep = psimD(1) [OF sim] and qA = psimD(2) [OF sim]
  note held = psimD(4) [OF sim] and given = psimD(5) [OF sim]
  from unregister_rep [OF rep, of format "cbit c"] assms(4-5)
  have rep': "fq_rep X s' (put_abs i (a_unregister c (cbit c) (cl_queue st)) A)"
    by (simp add: spec_unregister_def index consumer_idx_cbit qA)
  from step_unregister [of c format st] assms(4) have "client_step format st (Ev_unregister c)
      \<lparr>cl_queue = a_unregister c (cbit c) (cl_queue st), cl_held = ps_held ps, cl_prod = ps_prod ps\<rparr>"
    by (cases st) (simp add: held given)
  then show ?thesis
    using simulatedI [OF sim rep'] index(3) by (cases ps) simp
qed

lemma sim_malloc:
  assumes sim: "psim X i ps st A" and slot: "init_slot format = Some (i, k)" and inv: "client_inv st"
    and "\<forall>f. alloc = Some f \<longrightarrow> f \<notin> buffers (X i) (ps_sys ps)"
    and "frame_queue_v2_malloc alloc now format sz (ps_sys ps) = Some (r, s')"
  shows "simulated X i format st (Ev_malloc r) (ps\<lparr>ps_sys := s', ps_prod := ps_prod ps \<union> set_option r\<rparr>)"
proof -
  note index = psim_index [OF sim slot] and rep = psimD(1) [OF sim] and qA = psimD(2) [OF sim]
  note held = psimD(4) [OF sim] and given = psimD(5) [OF sim]
  obtain r' a where m: "a_malloc alloc now format (cl_queue st) = (r', a)"
    by (cases "a_malloc alloc now format (cl_queue st)")
  from malloc_rep [OF rep, of alloc now format sz] assms(5)
  have "r = r'" and rep': "fq_rep X s' (snd (spec_malloc alloc now format sz A))"
    by (auto simp: spec_malloc_def index qA m Let_def)
  have "as_queues (snd (spec_malloc alloc now format sz A)) ! i = a"
    using index(3) by (auto simp: spec_malloc_def index qA m Let_def split: option.splits)
  moreover have "\<forall>f. alloc = Some f \<longrightarrow> f \<notin> set (queue_frames (cl_queue st))"
    using assms(4) queue_frames_buffers [OF rep index(2)] by (simp add: qA)
  from step_malloc [OF this m] have "client_step format st (Ev_malloc r)
      \<lparr>cl_queue = a, cl_held = ps_held ps, cl_prod = ps_prod ps \<union> set_option r\<rparr>"
    by (cases st) (simp add: held given \<open>r = r'\<close>)
  ultimately show ?thesis
    using simulatedI [OF sim rep'] by (cases ps) simp
qed

lemma sim_complete:
  assumes sim: "psim X i ps st A" and slot: "init_slot format = Some (i, k)" and inv: "client_inv st"
    and "f \<in> ps_prod ps"
    and "frame_queue_v2_complete now now' format (Some f) (ps_sys ps) = Some (r, s')"
  shows "simulated X i format st (Ev_complete f) (ps\<lparr>ps_sys := s', ps_prod := ps_prod ps - {f}\<rparr>)"
proof -
  note index = psim_index [OF sim slot] and rep = psimD(1) [OF sim] and qA = psimD(2) [OF sim]
  note held = psimD(4) [OF sim] and given = psimD(5) [OF sim]
  let ?ts = "if fb_timestamp (as_frames A f) > 0 then fb_timestamp (as_frames A f) else now"
  obtain r' a where m: "a_complete f ?ts now' (cl_queue st) = (r', a)"
    by (cases "a_complete f ?ts now' (cl_queue st)")
  have ok: "r' = BK_OK"
    using complete_inv(1) [OF inv _ m] assms(4) given by simp
  from complete_rep [OF rep, of now now' format "Some f"] assms(5)
  have rep': "fq_rep X s' (snd (spec_complete now now' format (Some f) A))"
    by auto
  have "as_queues (snd (spec_complete now now' format (Some f) A)) ! i = a"
    using index(3) m ok by (simp add: spec_complete_def index qA Let_def split_beta)
  moreover from step_complete [OF _ m] assms(4) have "client_step format st (Ev_complete f)
      \<lparr>cl_queue = a, cl_held = ps_held ps, cl_prod = ps_prod ps - {f}\<rparr>"
    by (cases st) (simp add: held given)
  ultimately show ?thesis
    using simulatedI [OF sim rep'] by (cases ps) simp
qed

lemma sim_cancel:
  assumes sim: "psim X i ps st A" and slot: "init_slot format = Some (i, k)" and inv: "client_inv st"
    and "f \<in> ps_prod ps"
    and "frame_queue_v2_cancel format (Some f) (ps_sys ps) = Some (r, s')"
  shows "simulated X i format st (Ev_cancel f) (ps\<lparr>ps_sys := s', ps_prod := ps_prod ps - {f}\<rparr>)"
proof -
  note index = psim_index [OF sim slot] and rep = psimD(1) [OF sim] and qA = psimD(2) [OF sim]
  note held = psimD(4) [OF sim] and given = psimD(5) [OF sim]
  obtain r' a where m: "a_cancel f (cl_queue st) = (r', a)"
    by (cases "a_cancel f (cl_queue st)")
  have ok: "r' = BK_OK"
    using cancel_inv(1) [OF inv _ m] assms(4) given by simp
  from cancel_rep [OF rep, of format "Some f"] assms(5)
  have rep': "fq_rep X s' (snd (spec_cancel format (Some f) A))"
    by auto
  have "as_queues (snd (spec_cancel format (Some f) A)) ! i = a"
    using index(3) m ok by (simp add: spec_cancel_def index qA Let_def split_beta)
  moreover from step_cancel [OF _ m] assms(4) have "client_step format st (Ev_cancel f)
      \<lparr>cl_queue = a, cl_held = ps_held ps, cl_prod = ps_prod ps - {f}\<rparr>"
    by (cases st) (simp add: held given)
  ultimately show ?thesis
    using simulatedI [OF sim rep'] by (cases ps) simp
qed

lemma sim_get:
  assumes sim: "psim X i ps st A" and slot: "init_slot format = Some (i, k)" and inv: "client_inv st"
    and "c < 8"
    and "frame_queue_v2_get_frame [] t0 format (cbit c) tm (ps_sys ps) = Some (Got (Some f), s')"
  shows "simulated X i format st (Ev_get c (Some f)) (ps\<lparr>ps_sys := s', ps_held := insert (c, f) (ps_held ps)\<rparr>)"
proof -
  note index = psim_index [OF sim slot] and rep = psimD(1) [OF sim] and qA = psimD(2) [OF sim]
  note held = psimD(4) [OF sim] and given = psimD(5) [OF sim]
  from get_rep [OF rep, of "[]" "[]" t0 format "cbit c" tm] assms(5)
  have g: "fst (spec_get [] t0 format (cbit c) tm A) = Got (Some f)"
    and rep': "fq_rep X s' (snd (spec_get [] t0 format (cbit c) tm A))"
    by auto
  from g obtain a where m: "a_get c (cbit c) (cl_queue st) = (Some (Some f), a)"
    and A': "snd (spec_get [] t0 format (cbit c) tm A) = put_abs i a A"
    using assms(4) by (auto simp: spec_get_def index consumer_idx_cbit qA spec_get_loop.simps Let_def
        split: if_splits prod.splits option.splits)
  from step_get [OF assms(4) m] have "client_step format st (Ev_get c (Some f))
      \<lparr>cl_queue = a, cl_held = insert (c, f) (ps_held ps), cl_prod = ps_prod ps\<rparr>"
    by (cases st) (simp add: held given)
  then show ?thesis
    using simulatedI [OF sim rep'] index(3) by (cases ps) (simp add: A')
qed

lemma sim_get_none:
  assumes sim: "psim X i ps st A" and slot: "init_slot format = Some (i, k)" and inv: "client_inv st"
    and "c < 8"
    and "frame_queue_v2_get_frame [] t0 format (cbit c) tm (ps_sys ps) = Some (r, s')"
    and "\<forall>f. r \<noteq> Got (Some f)"
  shows "simulated X i format st (Ev_get c None) (ps\<lparr>ps_sys := s'\<rparr>)"
proof -
  note index = psim_index [OF sim slot] and rep = psimD(1) [OF sim] and qA = psimD(2) [OF sim]
  note held = psimD(4) [OF sim] and given = psimD(5) [OF sim]
  from get_rep [OF rep, of "[]" "[]" t0 format "cbit c" tm] assms(5)
  have g: "fst (spec_get [] t0 format (cbit c) tm A) = r"
    and rep': "fq_rep X s' (snd (spec_get [] t0 format (cbit c) tm A))"
    by auto
  have "snd (spec_get [] t0 format (cbit c) tm A) = A"
    using g assms(6) get_frame_present [OF inv, of c "cbit c"]
    by (auto simp: spec_get_def index consumer_idx_cbit [OF assms(4)] qA spec_get_loop.simps Let_def
        split: if_splits prod.splits option.splits)
  moreover from step_get_none [OF assms(4), of format st] have "client_step format st (Ev_get c None)
      \<lparr>cl_queue = cl_queue st, cl_held = ps_held ps, cl_prod = ps_prod ps\<rparr>"
    by (cases st) (simp add: held given)
  ultimately show ?thesis
    using simulatedI [OF sim rep'] by (cases ps) (simp add: qA)
qed

lemma sim_release:
  assumes sim: "psim X i ps st A" and slot: "init_slot format = Some (i, k)" and inv: "client_inv st"
    and "(c, f) \<in> ps_held ps"
    and "frame_queue_v2_release_frame format (cbit c) (Some f) (ps_sys ps) = Some s'"
    and "freed \<longleftrightarrow> frees f (st_log (ps_sys ps)) < frees f (st_log s')"
  shows "simulated X i format st (Ev_release c f freed) (ps\<lparr>ps_sys := s', ps_held := ps_held ps - {(c, f)}\<rparr>)"
proof -
  note index = psim_index [OF sim slot] and rep = psimD(1) [OF sim] and qA = psimD(2) [OF sim]
  note held = psimD(4) [OF sim] and given = psimD(5) [OF sim]
  have c: "c < 8" using client_invD(4) [OF inv] assms(4) held by simp
  obtain fr a where m: "a_release c f (cl_queue st) = (fr, a)"
    by (cases "a_release c f (cl_queue st)")
  from release_rep [OF rep, of format "cbit c" "Some f"] assms(5)
  have rep': "fq_rep X s' (put_abs i a
      (log_abs (if fr then frame_buffer_free format f else []) A))"
    by (simp add: spec_release_def index consumer_idx_cbit [OF c] qA m Let_def)
  have "filter visible (st_log s') = filter visible (st_log (ps_sys ps)) @
      (if fr then frame_buffer_free format f else [])"
    using rep rep' by (simp add: fq_rep_def log_abs_def put_abs_def)
  from arg_cong [OF this, of "frees f"]
  have "frees f (st_log s') = frees f (st_log (ps_sys ps)) + (if fr then 1 else 0)"
    by (simp only: frees_append frees_visible) (simp add: frees_call [OF slot] frees_def [of f "[]"])
  then have "freed = fr" using assms(6) by simp
  moreover from step_release [OF _ m] assms(4) have "client_step format st (Ev_release c f fr)
      \<lparr>cl_queue = a, cl_held = ps_held ps - {(c, f)}, cl_prod = ps_prod ps\<rparr>"
    by (cases st) (simp add: held given)
  ultimately show ?thesis
    using simulatedI [OF sim rep'] index(3) by (cases ps) simp
qed

lemma sim_clear:
  assumes sim: "psim X i ps st A" and slot: "init_slot format = Some (i, k)" and inv: "client_inv st"
    and "ps_prod ps = {}"
    and "frame_queue_v2_clear_all (ps_sys ps) = Some (r, s')"
  shows "simulated X i format st Ev_clear (ps\<lparr>ps_sys := s'\<rparr>)"
proof -
  note index = psim_index [OF sim slot] and rep = psimD(1) [OF sim] and qA = psimD(2) [OF sim]
  note count = psimD(3) [OF sim] and held = psimD(4) [OF sim] and given = psimD(5) [OF sim]
  from clear_all_rep [OF rep] assms(5)
  have rep': "fq_rep X s' (snd (spec_clear_all A))" by auto
  have "as_queues (snd (spec_clear_all A)) ! i = fst (a_clear (cl_queue st))"
    using spec_clear_all_at [OF index(2)] fq_rep_length [OF rep] count qA by simp
  moreover from step_clear [of st format] assms(4) have "client_step format st Ev_clear
      \<lparr>cl_queue = fst (a_clear (cl_queue st)), cl_held = ps_held ps, cl_prod = ps_prod ps\<rparr>"
    by (cases st) (simp add: held given)
  ultimately show ?thesis
    using simulatedI [OF sim rep'] by (cases ps) simp
qed

lemma proto_sim:
  assumes step: "proto_step format (X i) ps e ps'" and sim: "psim X i ps st A"
    and slot: "init_slot format = Some (i, k)" and inv: "client_inv st"
  shows "\<exists>st' A'. psim X i ps' st' A' \<and>
    (case e of None \<Rightarrow> st' = st | Some ev \<Rightarrow> client_step format st ev st')"
proof -
  note sims = sim_register sim_unregister sim_malloc sim_complete sim_cancel sim_get sim_get_none
    sim_release sim_clear
  have "case e of None \<Rightarrow> \<exists>A'. psim X i ps' st A' | Some ev \<Rightarrow> simulated X i format st ev ps'"
    using step
  proof cases
    case (p_other format' call r s')
    from exec_rep [OF psimD(1) [OF sim], of format' call] p_other(4)
    have "fq_rep X s' (snd (spec_exec format' call A))" by auto
    with sim spec_exec_other [OF slot p_other(3), of call A] show ?thesis
      by (auto simp: psim_def p_other(1,2))
  qed (auto intro: sims [OF sim slot inv])
  then show ?thesis by (auto simp: simulated_def split: option.splits)
qed

end
