(* ===== verification/Frame_Queue_Properties.thy ===== *)
theory Frame_Queue_Properties
  imports Frame_Queue_Protocol
begin

text \<open>
  The properties of the frame queue, stated over the C functions of \<open>Frame_Queue\<close>, each with
  a run on a small configuration that meets its hypotheses.
\<close>

section \<open>Runs and their abstract states\<close>

lemma proto_run_sim:
  assumes "proto_run env format i es ps" and "good_boot env" and "init_slot format = Some (i, k)"
  shows "\<exists>st A. psim (boot_nodes env) i ps st A \<and> client_reach format st"
  using assms(1)
proof (induction rule: proto_run.induct)
  case (run_boot s)
  let ?st = "client_init k format (map snd (created (env format) 0 (unat k)))"
  have "fq_rep (boot_nodes env) s (booted env)"
    using boot_rep [OF assms(2)] run_boot by auto
  moreover have "as_queues (booted env) ! i = cl_queue ?st" "q_count (cl_queue ?st) \<noteq> 0"
    using init_slot_cases [OF assms(3)]
    by (auto simp: booted_def boot_queue_def client_init_def abs_zero_def)
  ultimately have "psim (boot_nodes env) i \<lparr>ps_sys = s, ps_held = {}, ps_prod = {}\<rparr> ?st (booted env)"
    by (simp add: psim_def client_init_def)
  then show ?case using reach_init by blast
next
  case (run_step es ps e ps')
  then obtain st A where sim: "psim (boot_nodes env) i ps st A" and reach: "client_reach format st"
    by blast
  from proto_sim [OF run_step.hyps(2) sim assms(3) reach_inv [OF reach]] obtain st' A' where
    "psim (boot_nodes env) i ps' st' A'"
    "case e of None \<Rightarrow> st' = st | Some ev \<Rightarrow> client_step format st ev st'"
    by blast
  then show ?case
    using reach by (auto split: option.splits intro: reach_step)
qed

lemma proto_run_inv:
  assumes "proto_run env format i es ps" and "good_boot env" and "init_slot format = Some (i, k)"
  obtains st A where "psim (boot_nodes env) i ps st A" "client_inv st"
  using proto_run_sim [OF assms] reach_inv by blast

text \<open>A node of the abstract ready list is a node of the queue in memory, and conversely.\<close>

lemma psim_node:
  assumes "psim X i ps st A" and "i < 3" and "nd \<in> set (a_free (cl_queue st)) \<union> set (a_ready (cl_queue st))"
  shows "\<exists>n \<in> X i. hp_node (st_heap (ps_sys ps)) n = nd"
proof -
  have rep: "fq_rep X (ps_sys ps) A" and q: "as_queues A ! i = cl_queue st"
    using assms(1) by (simp_all add: psim_def)
  obtain fs rs where wf: "qwf (st_heap (ps_sys ps)) (X i) {} (get_queue i (ps_sys ps)) fs rs"
    and a: "as_queues A ! i = absq (get_queue i (ps_sys ps)) fs rs"
    using fq_rep_queue [OF rep assms(2)] by (rule qrepE)
  have "X i = set fs \<union> set rs" using wf by (simp add: qwf_def)
  with assms(3) show ?thesis
    by (auto simp: q [symmetric] a get_queue_def)
qed

lemma psim_node_conv:
  assumes "psim X i ps st A" and "i < 3" and "n \<in> X i"
  shows "hp_node (st_heap (ps_sys ps)) n \<in> set (a_free (cl_queue st)) \<union> set (a_ready (cl_queue st))"
proof -
  have rep: "fq_rep X (ps_sys ps) A" and q: "as_queues A ! i = cl_queue st"
    using assms(1) by (simp_all add: psim_def)
  obtain fs rs where wf: "qwf (st_heap (ps_sys ps)) (X i) {} (get_queue i (ps_sys ps)) fs rs"
    and a: "as_queues A ! i = absq (get_queue i (ps_sys ps)) fs rs"
    using fq_rep_queue [OF rep assms(2)] by (rule qrepE)
  have "X i = set fs \<union> set rs" using wf by (simp add: qwf_def)
  with assms(3) show ?thesis
    by (auto simp: q [symmetric] a get_queue_def)
qed

lemma slot_bound: "init_slot format = Some (i, k) \<Longrightarrow> i < 3"
  using init_slot_index(1) by blast

text \<open>What the protocol's invariant says of a frame that is held, and of one just taken.\<close>

lemma held_in_node:
  assumes "good_boot env" and "init_slot format = Some (i, k)"
    and "proto_run env format i es ps" and "(c, f) \<in> ps_held ps"
  shows "f \<notin> ps_prod ps \<and> (\<exists>n \<in> boot_nodes env i. nd_frame (hp_node (st_heap (ps_sys ps)) n) = Some f \<and>
    in_use (hp_node (st_heap (ps_sys ps)) n) = 0 \<and>
    unat (ref_count (hp_node (st_heap (ps_sys ps)) n)) = card (holders (ps_held ps) f))"
proof -
  obtain st A where sim: "psim (boot_nodes env) i ps st A" and inv: "client_inv st"
    using proto_run_inv [OF assms(3,1,2)] .
  have held: "(c, f) \<in> cl_held st" using assms(4) sim by (simp add: psim_def)
  obtain nd where nd: "nd \<in> set (a_ready (cl_queue st))" "nd_frame nd = Some f"
    "unat (ref_count nd) = card (holders (cl_held st) f)"
    using held_node [OF inv held] by metis
  then have "f \<in> set (frames_of (a_ready (cl_queue st)))" by (auto simp: set_frames_of)
  then have "f \<notin> cl_prod st" by (rule inv_disjoint(2) [OF inv])
  with nd client_invD(2) [OF inv nd(1)] psim_node [OF sim slot_bound [OF assms(2)], of nd] sim
  show ?thesis by (auto simp: ready_ok_def psim_def)
qed

lemma get_new_frame:
  assumes "good_boot env" and "init_slot format = Some (i, k)"
    and "proto_run env format i es ps"
    and "proto_step format (boot_nodes env i) ps (Some (Ev_get c (Some f))) ps'"
  shows "(c, f) \<notin> ps_held ps \<and> f \<notin> ps_prod ps \<and> f \<notin> ps_prod ps'"
proof -
  obtain st A where sim: "psim (boot_nodes env) i ps st A" and inv: "client_inv st"
    using proto_run_inv [OF assms(3,1,2)] .
  from proto_sim [OF assms(4) sim assms(2) inv] obtain st' A' where
    sim': "psim (boot_nodes env) i ps' st' A'" and step: "client_step format st (Ev_get c (Some f)) st'"
    by auto
  from step show ?thesis
  proof cases
    case (step_get a)
    have "f \<in> set (frames_of (a_ready a))"
      using client_invD(5) [OF step_inv [OF step inv], of c f] step_get by simp
    then have "f \<notin> cl_prod st'"
      using inv_disjoint(2) [OF step_inv [OF step inv], of f] step_get by simp
    with get_inv(2) [OF inv step_get(2,3)] step_get(1) sim sim' show ?thesis
      by (simp add: psim_def)
  qed
qed

section \<open>A configuration to run\<close>

definition demo_env :: "image_format \<Rightarrow> init_env" where
  "demo_env format = \<lparr>ie_sem = BK_OK,
     ie_alloc = (\<lambda>j. Some (100 * nat (get_frame_buffer_list_index format) + j)), ie_clock = (\<lambda>_. 0)\<rparr>"

lemma demo_boot: "good_boot demo_env"
  by code_simp

lemma demo_slot: "init_slot IMAGE_MJPEG = Some (0, 4)"
  by (simp add: init_slot_def MJPEG_MAX_FRAME_COUNT_def)

text \<open>
  A script of events, played on the abstract state with the frames held and given; \<open>None\<close>
  when an event of the script is not what the queue does.
\<close>

type_synonym play_state = "abs_state \<times> (nat \<times> frame_ptr) list \<times> frame_ptr list"

fun play1 :: "image_format \<Rightarrow> nat \<Rightarrow> client_event \<Rightarrow> play_state \<Rightarrow> play_state option" where
  "play1 format i (Ev_register c) (A, H, P) =
     (if c < 8 then Some (snd (spec_register format (cbit c) A), H, P) else None)"
| "play1 format i (Ev_unregister c) (A, H, P) =
     (if c < 8 then Some (snd (spec_unregister format (cbit c) A), H, P) else None)"
| "play1 format i (Ev_malloc r) (A, H, P) =
     (case r of
        None \<Rightarrow> None
      | Some f \<Rightarrow>
          if f \<notin> set (queue_frames (as_queues A ! i)) \<and> fst (spec_malloc (Some f) 0 format 0 A) = Some f
          then Some (snd (spec_malloc (Some f) 0 format 0 A), H, f # P) else None)"
| "play1 format i (Ev_complete f) (A, H, P) =
     (if f \<in> set P then Some (snd (spec_complete 0 0 format (Some f) A), H, removeAll f P) else None)"
| "play1 format i (Ev_cancel f) (A, H, P) =
     (if f \<in> set P then Some (snd (spec_cancel format (Some f) A), H, removeAll f P) else None)"
| "play1 format i (Ev_get c r) (A, H, P) =
     (case r of
        None \<Rightarrow> None
      | Some f \<Rightarrow>
          if c < 8 \<and> fst (spec_get [] 0 format (cbit c) (Wait_ms 0) A) = Got (Some f)
          then Some (snd (spec_get [] 0 format (cbit c) (Wait_ms 0) A), (c, f) # H, P) else None)"
| "play1 format i (Ev_release c f freed) (A, H, P) =
     (let A' = spec_release format (cbit c) (Some f) A in
      if (c, f) \<in> set H \<and> (freed \<longleftrightarrow> frees f (as_log A) < frees f (as_log A'))
      then Some (A', removeAll (c, f) H, P) else None)"
| "play1 format i Ev_clear (A, H, P) = (if P = [] then Some (snd (spec_clear_all A), H, P) else None)"

fun play :: "image_format \<Rightarrow> nat \<Rightarrow> client_event list \<Rightarrow> play_state \<Rightarrow> play_state option" where
  "play format i [] x = Some x"
| "play format i (ev # es) x = do { x \<leftarrow> play1 format i ev x; play format i es x }"

definition playing :: "(nat \<Rightarrow> node_ptr set) \<Rightarrow> proto_state \<Rightarrow> play_state \<Rightarrow> bool" where
  "playing X ps x \<longleftrightarrow> (case x of (A, H, P) \<Rightarrow>
     fq_rep X (ps_sys ps) A \<and> ps_held ps = set H \<and> ps_prod ps = set P)"

lemma frees_rep: "fq_rep X s A \<Longrightarrow> frees f (as_log A) = frees f (st_log s)"
  by (simp add: fq_rep_def frees_visible)

lemma play_malloc:
  assumes "play1 format i (Ev_malloc r) (A, H, P) = Some x'" and "playing X ps (A, H, P)" and "i < 3"
  shows "\<exists>ps'. proto_step format (X i) ps (Some (Ev_malloc r)) ps' \<and> playing X ps' x'"
proof -
  have rep: "fq_rep X (ps_sys ps) A" and held: "ps_held ps = set H" and given: "ps_prod ps = set P"
    using assms(2) by (simp_all add: playing_def)
  obtain f where r: "r = Some f" and fresh: "f \<notin> set (queue_frames (as_queues A ! i))"
    and ok: "fst (spec_malloc (Some f) 0 format 0 A) = Some f"
    and x': "x' = (snd (spec_malloc (Some f) 0 format 0 A), H, f # P)"
    using assms(1) by (auto split: option.splits if_splits)
  from malloc_rep [OF rep, of "Some f" 0 format 0] ok obtain s' where
    m: "frame_queue_v2_malloc (Some f) 0 format 0 (ps_sys ps) = Some (Some f, s')"
    "fq_rep X s' (snd (spec_malloc (Some f) 0 format 0 A))" by auto
  have "\<forall>g. Some f = Some g \<longrightarrow> g \<notin> buffers (X i) (ps_sys ps)"
    using fresh queue_frames_buffers [OF rep assms(3)] by simp
  from p_malloc [OF this m(1)] m(2) held given show ?thesis
    by (auto simp: r x' playing_def)
qed

lemma play_get:
  assumes "play1 format i (Ev_get c r) (A, H, P) = Some x'" and "playing X ps (A, H, P)"
  shows "\<exists>ps'. proto_step format (X i) ps (Some (Ev_get c r)) ps' \<and> playing X ps' x'"
proof -
  have rep: "fq_rep X (ps_sys ps) A" and held: "ps_held ps = set H" and given: "ps_prod ps = set P"
    using assms(2) by (simp_all add: playing_def)
  obtain f where r: "r = Some f" and c: "c < 8"
    and ok: "fst (spec_get [] 0 format (cbit c) (Wait_ms 0) A) = Got (Some f)"
    and x': "x' = (snd (spec_get [] 0 format (cbit c) (Wait_ms 0) A), (c, f) # H, P)"
    using assms(1) by (auto split: option.splits if_splits)
  from get_rep [OF rep, of "[]" "[]" 0 format "cbit c" "Wait_ms 0"] ok obtain s' where
    m: "frame_queue_v2_get_frame [] 0 format (cbit c) (Wait_ms 0) (ps_sys ps) = Some (Got (Some f), s')"
    "fq_rep X s' (snd (spec_get [] 0 format (cbit c) (Wait_ms 0) A))" by auto
  from p_get [OF c m(1), of "X i"] m(2) held given show ?thesis
    by (auto simp: r x' playing_def)
qed

lemma play_release:
  assumes "play1 format i (Ev_release c f freed) (A, H, P) = Some x'" and "playing X ps (A, H, P)"
  shows "\<exists>ps'. proto_step format (X i) ps (Some (Ev_release c f freed)) ps' \<and> playing X ps' x'"
proof -
  have rep: "fq_rep X (ps_sys ps) A" and held: "ps_held ps = set H" and given: "ps_prod ps = set P"
    using assms(2) by (simp_all add: playing_def)
  let ?A = "spec_release format (cbit c) (Some f) A"
  from release_rep [OF rep, of format "cbit c" "Some f"] obtain s' where
    m: "frame_queue_v2_release_frame format (cbit c) (Some f) (ps_sys ps) = Some s'"
    and r': "fq_rep X s' ?A" by blast
  have ok: "(c, f) \<in> set H" "freed \<longleftrightarrow> frees f (as_log A) < frees f (as_log ?A)"
    and x': "x' = (?A, removeAll (c, f) H, P)"
    using assms(1) by (auto simp: Let_def split: if_splits)
  from p_release [OF _ m, where freed = freed and N = "X i"] ok held given r' show ?thesis
    by (auto simp: x' playing_def frees_rep [OF rep] frees_rep [OF r'])
qed

lemma play1_step:
  assumes "play1 format i ev x = Some x'" and "playing X ps x" and "i < 3"
  shows "\<exists>ps'. proto_step format (X i) ps (Some ev) ps' \<and> playing X ps' x'"
proof -
  obtain A H P where x: "x = (A, H, P)" by (cases x)
  have rep: "fq_rep X (ps_sys ps) A" and held: "ps_held ps = set H" and given: "ps_prod ps = set P"
    using assms(2) by (simp_all add: playing_def x)
  show ?thesis
  proof (cases ev)
    case (Ev_register c)
    from register_rep [OF rep, of format "cbit c"] obtain s' where
      "frame_queue_v2_register_consumer format (cbit c) (ps_sys ps) =
        Some (fst (spec_register format (cbit c) A), s')"
      "fq_rep X s' (snd (spec_register format (cbit c) A))" by blast
    with p_register [OF _ this(1), of "X i"] Ev_register assms(1) held given show ?thesis
      by (auto simp: x playing_def split: if_splits)
  next
    case (Ev_unregister c)
    from unregister_rep [OF rep, of format "cbit c"] obtain s' where
      "frame_queue_v2_unregister_consumer format (cbit c) (ps_sys ps) =
        Some (fst (spec_unregister format (cbit c) A), s')"
      "fq_rep X s' (snd (spec_unregister format (cbit c) A))" by blast
    with p_unregister [OF _ this(1), of "X i"] Ev_unregister assms(1) held given show ?thesis
      by (auto simp: x playing_def split: if_splits)
  next
    case (Ev_malloc r)
    with assms show ?thesis by (auto simp: x intro: play_malloc)
  next
    case (Ev_complete f)
    from complete_rep [OF rep, of 0 0 format "Some f"] obtain s' where
      m: "frame_queue_v2_complete 0 0 format (Some f) (ps_sys ps) =
        Some (fst (spec_complete 0 0 format (Some f) A), s')"
      "fq_rep X s' (snd (spec_complete 0 0 format (Some f) A))" by blast
    with p_complete [OF _ m(1), of "X i"] Ev_complete assms(1) held given show ?thesis
      by (auto simp: x playing_def split: if_splits)
  next
    case (Ev_cancel f)
    from cancel_rep [OF rep, of format "Some f"] obtain s' where
      m: "frame_queue_v2_cancel format (Some f) (ps_sys ps) = Some (fst (spec_cancel format (Some f) A), s')"
      "fq_rep X s' (snd (spec_cancel format (Some f) A))" by blast
    with p_cancel [OF _ m(1), of "X i"] Ev_cancel assms(1) held given show ?thesis
      by (auto simp: x playing_def split: if_splits)
  next
    case (Ev_get c r)
    with assms show ?thesis by (auto simp: x intro: play_get)
  next
    case (Ev_release c f freed)
    with assms show ?thesis by (auto simp: x intro: play_release)
  next
    case Ev_clear
    from clear_all_rep [OF rep] obtain s' where
      m: "frame_queue_v2_clear_all (ps_sys ps) = Some (BK_OK, s')" "fq_rep X s' (snd (spec_clear_all A))"
      by blast
    with p_clear [OF _ m(1), of format "X i"] Ev_clear assms(1) held given show ?thesis
      by (auto simp: x playing_def split: if_splits)
  qed
qed

lemma play_run:
  "play format i es x = Some x' \<Longrightarrow> proto_run env format i es0 ps \<Longrightarrow> playing (boot_nodes env) ps x \<Longrightarrow>
     i < 3 \<Longrightarrow> \<exists>ps'. proto_run env format i (es0 @ es) ps' \<and> playing (boot_nodes env) ps' x'"
proof (induction es arbitrary: x es0 ps)
  case (Cons ev es)
  then obtain y where 1: "play1 format i ev x = Some y" and 2: "play format i es y = Some x'"
    by (auto split: Option.bind_splits)
  from play1_step [OF 1 Cons.prems(3,4)] obtain ps1 where
    "proto_step format (boot_nodes env i) ps (Some ev) ps1" and 3: "playing (boot_nodes env) ps1 y"
    by blast
  from run_step [OF Cons.prems(2) this(1)] have "proto_run env format i (es0 @ [ev]) ps1" by simp
  from Cons.IH [OF 2 this 3 Cons.prems(4)] show ?case by simp
qed auto

text \<open>A script that plays on the MJPEG queue of the demo configuration is a run of the code.\<close>

definition demo :: "client_event list \<Rightarrow> play_state" where
  "demo es = the (play IMAGE_MJPEG 0 es (booted demo_env, [], []))"

lemma demo_run:
  assumes "play IMAGE_MJPEG 0 es (booted demo_env, [], []) \<noteq> None"
  obtains ps where "proto_run demo_env IMAGE_MJPEG 0 es ps"
    and "fq_rep (boot_nodes demo_env) (ps_sys ps) (fst (demo es))"
    and "ps_held ps = set (fst (snd (demo es)))" and "ps_prod ps = set (snd (snd (demo es)))"
proof -
  obtain s where boot: "frame_queue_v2_init_all demo_env boot_state = (BK_OK, s)"
    and rep: "fq_rep (boot_nodes demo_env) s (booted demo_env)"
    using boot_rep [OF demo_boot] by blast
  have "playing (boot_nodes demo_env) \<lparr>ps_sys = s, ps_held = {}, ps_prod = {}\<rparr> (booted demo_env, [], [])"
    using rep by (simp add: playing_def)
  moreover have "proto_run demo_env IMAGE_MJPEG 0 [] \<lparr>ps_sys = s, ps_held = {}, ps_prod = {}\<rparr>"
    by (rule run_boot [OF boot])
  moreover have "play IMAGE_MJPEG 0 es (booted demo_env, [], []) = Some (demo es)"
    using assms by (auto simp: demo_def)
  ultimately obtain ps where "proto_run demo_env IMAGE_MJPEG 0 es ps"
    "playing (boot_nodes demo_env) ps (demo es)"
    using play_run by fastforce
  with that show ?thesis by (auto simp: playing_def split: prod.splits)
qed

lemma demo_step:
  assumes "play IMAGE_MJPEG 0 es (booted demo_env, [], []) \<noteq> None"
    and "play1 IMAGE_MJPEG 0 ev (demo es) \<noteq> None"
  obtains ps ps' where "proto_run demo_env IMAGE_MJPEG 0 es ps"
    and "proto_step IMAGE_MJPEG (boot_nodes demo_env 0) ps (Some ev) ps'"
proof -
  obtain ps where run: "proto_run demo_env IMAGE_MJPEG 0 es ps"
    and "fq_rep (boot_nodes demo_env) (ps_sys ps) (fst (demo es))"
    and "ps_held ps = set (fst (snd (demo es)))" and "ps_prod ps = set (snd (snd (demo es)))"
    using demo_run [OF assms(1)] .
  then have "playing (boot_nodes demo_env) ps (demo es)"
    by (simp add: playing_def split_beta)
  moreover obtain x' where "play1 IMAGE_MJPEG 0 ev (demo es) = Some x'"
    using assms(2) by auto
  ultimately show ?thesis
    using play1_step [of IMAGE_MJPEG 0 ev "demo es" x' "boot_nodes demo_env" ps] run that by auto
qed

text \<open>Consumers 0 and 1 register, a producer publishes frame 900, consumer 0 takes it.\<close>

abbreviation demo_events :: "client_event list" where
  "demo_events \<equiv> [Ev_register 0, Ev_register 1, Ev_malloc (Some 900), Ev_complete 900,
     Ev_get 0 (Some 900)]"

lemma demo_register_play: "play IMAGE_MJPEG 0 [Ev_register 0] (booted demo_env, [], []) \<noteq> None"
  by code_simp

lemma demo_events_play: "play IMAGE_MJPEG 0 demo_events (booted demo_env, [], []) \<noteq> None"
  by code_simp

section \<open>Frames in use are safe\<close>

text \<open>
  C3. In every state the callers can reach, a frame a consumer holds sits in a node of the
  queue that is not in use by a producer, and the node's \<open>ref_count\<close> is exactly the number
  of consumers holding the frame.
\<close>
theorem held_frame_counted:
  assumes "good_boot env" and "init_slot format = Some (i, k)"
    and "proto_run env format i es ps" and "(c, f) \<in> ps_held ps"
  shows "\<exists>n \<in> boot_nodes env i. nd_frame (hp_node (st_heap (ps_sys ps)) n) = Some f \<and>
    in_use (hp_node (st_heap (ps_sys ps)) n) = 0 \<and>
    unat (ref_count (hp_node (st_heap (ps_sys ps)) n)) = card (holders (ps_held ps) f)"
  using held_in_node [OF assms] by blast

theorem held_frame_counted_witness:
  "\<exists>ps. proto_run demo_env IMAGE_MJPEG 0 demo_events ps \<and> (\<exists>n \<in> boot_nodes demo_env 0.
     nd_frame (hp_node (st_heap (ps_sys ps)) n) = Some 900 \<and>
     in_use (hp_node (st_heap (ps_sys ps)) n) = 0 \<and>
     unat (ref_count (hp_node (st_heap (ps_sys ps)) n)) = card (holders (ps_held ps) 900))"
proof -
  obtain ps where run: "proto_run demo_env IMAGE_MJPEG 0 demo_events ps"
    and "ps_held ps = set (fst (snd (demo demo_events)))"
    using demo_run [OF demo_events_play] by metis
  moreover have "(0, 900) \<in> set (fst (snd (demo demo_events)))" by code_simp
  ultimately have held: "(0, 900) \<in> ps_held ps" by simp
  from run held_frame_counted [OF demo_boot demo_slot run held] show ?thesis
    by (intro exI conjI) assumption+
qed

text \<open>
  C4. Neither \<open>malloc\<close>'s reuse of buffers nor its taking of published frames ever gives a
  producer a frame that a consumer holds or another producer is filling.
\<close>
theorem malloc_gives_idle_frame:
  assumes "good_boot env" and "init_slot format = Some (i, k)"
    and "proto_run env format i es ps"
    and "proto_step format (boot_nodes env i) ps (Some (Ev_malloc (Some f))) ps'"
  shows "f \<notin> ps_prod ps \<and> holders (ps_held ps) f = {} \<and> f \<in> ps_prod ps'"
proof -
  obtain st A where sim: "psim (boot_nodes env) i ps st A" and inv: "client_inv st"
    using proto_run_inv [OF assms(3,1,2)] .
  from proto_sim [OF assms(4) sim assms(2) inv] obtain st' A' where
    sim': "psim (boot_nodes env) i ps' st' A'" and step: "client_step format st (Ev_malloc (Some f)) st'"
    by auto
  from step show ?thesis
  proof cases
    case (step_malloc alloc now a)
    with malloc_inv(2) [OF inv, of alloc now format "Some f" a f] sim sim' show ?thesis
      by (auto simp: psim_def holders_def)
  qed
qed

theorem malloc_gives_idle_frame_witness:
  "\<exists>ps ps'. proto_step IMAGE_MJPEG (boot_nodes demo_env 0) ps (Some (Ev_malloc (Some 901))) ps' \<and>
     901 \<notin> ps_prod ps \<and> holders (ps_held ps) 901 = {} \<and> 901 \<in> ps_prod ps'"
proof -
  have "play1 IMAGE_MJPEG 0 (Ev_malloc (Some 901)) (demo demo_events) \<noteq> None"
    by code_simp
  then obtain ps ps' where run: "proto_run demo_env IMAGE_MJPEG 0 demo_events ps"
    and step: "proto_step IMAGE_MJPEG (boot_nodes demo_env 0) ps (Some (Ev_malloc (Some 901))) ps'"
    using demo_step [OF demo_events_play] by metis
  from step malloc_gives_idle_frame [OF demo_boot demo_slot run step] show ?thesis
    by (intro exI conjI) (assumption | simp)+
qed

text \<open>
  C12. A release frees the frame's buffer exactly when the caller is its last holder and no
  registered consumer still has to see it.
\<close>
theorem release_frees_last:
  assumes "good_boot env" and "init_slot format = Some (i, k)"
    and "proto_run env format i es ps"
    and "proto_step format (boot_nodes env i) ps (Some (Ev_release c f freed)) ps'"
  shows "freed \<longleftrightarrow> holders (ps_held ps) f = {c} \<and>
    (\<forall>n \<in> boot_nodes env i. nd_frame (hp_node (st_heap (ps_sys ps)) n) = Some f \<longrightarrow>
       (\<forall>d < 8. \<not> wanted (cbit d) (hp_node (st_heap (ps_sys ps)) n)))"
proof -
  obtain st A where sim: "psim (boot_nodes env) i ps st A" and inv: "client_inv st"
    using proto_run_inv [OF assms(3,1,2)] .
  note i = slot_bound [OF assms(2)]
  from proto_sim [OF assms(4) sim assms(2) inv] obtain st' where
    step: "client_step format st (Ev_release c f freed) st'"
    by auto
  have held_eq: "cl_held st = ps_held ps" using sim by (simp add: psim_def)
  from step obtain a where held: "(c, f) \<in> cl_held st" and rel: "a_release c f (cl_queue st) = (freed, a)"
    by cases auto
  have "f \<notin> set (frames_of (a_free (cl_queue st)))"
    using inv_disjoint(1) [OF inv client_invD(5) [OF inv held]] .
  then have "(\<forall>nd \<in> set (a_ready (cl_queue st)). nd_frame nd = Some f \<longrightarrow> Q nd) \<longleftrightarrow>
      (\<forall>n \<in> boot_nodes env i. nd_frame (hp_node (st_heap (ps_sys ps)) n) = Some f \<longrightarrow>
        Q (hp_node (st_heap (ps_sys ps)) n))" for Q
    using psim_node [OF sim i] psim_node_conv [OF sim i] unfolding set_frames_of by blast
  from this [of "\<lambda>nd. \<forall>d < 8. \<not> wanted (cbit d) nd"] show ?thesis
    using release_frees_iff [OF inv held rel] held_eq by simp
qed

theorem release_frees_last_witness:
  "\<exists>ps ps'. proto_step IMAGE_MJPEG (boot_nodes demo_env 0) ps (Some (Ev_release 0 900 False)) ps' \<and>
     (False \<longleftrightarrow> holders (ps_held ps) 900 = {0} \<and>
       (\<forall>n \<in> boot_nodes demo_env 0. nd_frame (hp_node (st_heap (ps_sys ps)) n) = Some 900 \<longrightarrow>
         (\<forall>d < 8. \<not> wanted (cbit d) (hp_node (st_heap (ps_sys ps)) n))))"
proof -
  have "play1 IMAGE_MJPEG 0 (Ev_release 0 900 False) (demo demo_events) \<noteq> None"
    by code_simp
  then obtain ps ps' where run: "proto_run demo_env IMAGE_MJPEG 0 demo_events ps"
    and step: "proto_step IMAGE_MJPEG (boot_nodes demo_env 0) ps (Some (Ev_release 0 900 False)) ps'"
    using demo_step [OF demo_events_play] by metis
  from step release_frees_last [OF demo_boot demo_slot run step] show ?thesis
    by (intro exI conjI) (assumption | simp)+
qed

section \<open>Every frame is delivered at most once, and none is lost\<close>

lemma proto_run_served:
  assumes "proto_run env format i es ps" and "good_boot env" and "init_slot format = Some (i, k)"
    and "Ev_get c (Some f) \<in> set es" and "es = es1 @ Ev_get c (Some f) # es2"
    and "Ev_complete f \<notin> set es2"
  shows "\<exists>st A. psim (boot_nodes env) i ps st A \<and> client_inv st \<and> served c f (cl_queue st)"
  using assms(1,4-6)
proof (induction arbitrary: es2 rule: proto_run.induct)
  case (run_boot s)
  then show ?case by simp
next
  case (run_step es ps e ps')
  show ?case
  proof (cases "es2 = [] \<and> e = Some (Ev_get c (Some f))")
    case True
    obtain st A where sim: "psim (boot_nodes env) i ps st A" and inv: "client_inv st"
      using proto_run_inv [OF run_step.hyps(1) assms(2,3)] .
    from proto_sim [OF run_step.hyps(2) sim assms(3) inv] True obtain st' A' where
      sim': "psim (boot_nodes env) i ps' st' A'" and step: "client_step format st (Ev_get c (Some f)) st'"
      by auto
    from step have "served c f (cl_queue st')"
      by cases (use get_serves(2) [OF inv] in auto)
    with sim' step_inv [OF step inv] show ?thesis by blast
  next
    case False
    obtain es2' where es: "es = es1 @ Ev_get c (Some f) # es2'"
      and e: "es2 = es2' @ (case e of None \<Rightarrow> [] | Some ev \<Rightarrow> [ev])"
    proof (cases e)
      case None
      with run_step.prems(2) that [of es2] show ?thesis by simp
    next
      case (Some ev)
      with False run_step.prems(2) have "es2 \<noteq> []" by auto
      then obtain es2' x where "es2 = es2' @ [x]" by (cases es2 rule: rev_cases) auto
      with Some run_step.prems(2) that [of es2'] show ?thesis by simp
    qed
    have no: "Ev_complete f \<notin> set es2'" "e \<noteq> Some (Ev_complete f)"
      using run_step.prems(3) e by (auto split: option.splits)
    from es have "Ev_get c (Some f) \<in> set es" by simp
    from run_step.IH [OF this es no(1)] obtain st A where
      sim: "psim (boot_nodes env) i ps st A" and inv: "client_inv st" and sv: "served c f (cl_queue st)"
      by blast
    from proto_sim [OF run_step.hyps(2) sim assms(3) inv] obtain st' A' where
      sim': "psim (boot_nodes env) i ps' st' A'"
      and step: "case e of None \<Rightarrow> st' = st | Some ev \<Rightarrow> client_step format st ev st'"
      by auto
    show ?thesis
    proof (cases e)
      case None
      with step sim' inv sv show ?thesis by auto
    next
      case (Some ev)
      with step have s: "client_step format st ev st'" by simp
      from served_step [OF s sv] no(2) Some inv have "served c f (cl_queue st')" by auto
      with sim' step_inv [OF s inv] show ?thesis by blast
    qed
  qed
qed

text \<open>
  C13. A consumer gets each publication of a frame at most once: between two deliveries of the
  same frame to the same consumer a producer completed it again.
\<close>
theorem delivered_once:
  assumes "good_boot env" and "init_slot format = Some (i, k)"
    and "proto_run env format i (es1 @ Ev_get c (Some f) # es2) ps"
    and "proto_step format (boot_nodes env i) ps (Some (Ev_get c (Some f))) ps'"
  shows "Ev_complete f \<in> set es2"
proof (rule ccontr)
  assume "Ev_complete f \<notin> set es2"
  from proto_run_served [OF assms(3,1,2) _ refl this] obtain st A where
    sim: "psim (boot_nodes env) i ps st A" and inv: "client_inv st" and sv: "served c f (cl_queue st)"
    by auto
  from proto_sim [OF assms(4) sim assms(2) inv] obtain st' where
    "client_step format st (Ev_get c (Some f)) st'" by auto
  then show False
    by cases (use get_serves(1) [OF inv] sv in auto)
qed

theorem delivered_once_witness:
  "\<exists>ps ps'. proto_run demo_env IMAGE_MJPEG 0 ([Ev_register 0, Ev_malloc (Some 900), Ev_complete 900] @
       Ev_get 0 (Some 900) # [Ev_release 0 900 True, Ev_malloc (Some 900), Ev_complete 900]) ps \<and>
     proto_step IMAGE_MJPEG (boot_nodes demo_env 0) ps (Some (Ev_get 0 (Some 900))) ps' \<and>
     Ev_complete 900 \<in> set [Ev_release 0 900 True, Ev_malloc (Some 900), Ev_complete 900]"
proof -
  let ?es = "[Ev_register 0, Ev_malloc (Some 900), Ev_complete 900] @
       Ev_get 0 (Some 900) # [Ev_release 0 900 True, Ev_malloc (Some 900), Ev_complete 900]"
  have "play IMAGE_MJPEG 0 ?es (booted demo_env, [], []) \<noteq> None"
    and "play1 IMAGE_MJPEG 0 (Ev_get 0 (Some 900)) (demo ?es) \<noteq> None"
    by code_simp+
  then obtain ps ps' where run: "proto_run demo_env IMAGE_MJPEG 0 ?es ps"
    and step: "proto_step IMAGE_MJPEG (boot_nodes demo_env 0) ps (Some (Ev_get 0 (Some 900))) ps'"
    using demo_step by metis
  from run step delivered_once [OF demo_boot demo_slot run step] show ?thesis
    by (intro exI conjI)
qed

text \<open>A consumer is enabled exactly when its bit is set in the mask of active consumers.\<close>

definition enabled_inv :: "abs_queue \<Rightarrow> bool" where
  "enabled_inv a \<longleftrightarrow> length (q_consumers a) = 8 \<and>
     (\<forall>c < 8. enabled (q_consumers a ! c) \<noteq> 0 \<longleftrightarrow> bit (active_consumers a) c)"

lemma enabled_inv_cong:
  "enabled_inv a \<Longrightarrow> active_consumers a' = active_consumers a \<Longrightarrow> q_consumers a' = q_consumers a \<Longrightarrow>
     enabled_inv a'"
  by (simp add: enabled_inv_def)

lemma enabled_upd:
  assumes "enabled_inv a" and "\<And>i. enabled (g i) = enabled i"
  shows "enabled_inv (upd_consumer c g a)"
proof -
  have "enabled ((q_consumers a)[c := g (q_consumers a ! c)] ! d) = enabled (q_consumers a ! d)" for d
    using assms(2) by (cases "c < length (q_consumers a)") (auto simp: nth_list_update list_update_beyond)
  with assms(1) show ?thesis by (simp add: enabled_inv_def upd_consumer_def)
qed

lemma sweep_info:
  "active_consumers (a_sweep g a) = active_consumers a" "q_consumers (a_sweep g a) = q_consumers a"
  by (simp_all add: a_sweep_def)

lemma enabled_step:
  assumes "client_step format st e st'" and "enabled_inv (cl_queue st)"
  shows "enabled_inv (cl_queue st')"
  using assms
proof (induction rule: client_step.induct)
  case (step_register c st)
  then show ?case
    by (auto simp: enabled_inv_def a_register_def sweep_info upd_consumer_def Let_def nth_list_update
        bit_simps bit_cbit)
next
  case (step_unregister c st)
  then have "bit (active_consumers (cl_queue st) AND NOT (cbit c)) d \<longleftrightarrow>
      bit (active_consumers (cl_queue st)) d \<and> d \<noteq> c" for d
    by (auto simp: bit_simps bit_cbit dest: bit_imp_le_length)
  with step_unregister show ?case
    by (auto simp: enabled_inv_def a_unregister_def sweep_info upd_consumer_def Let_def nth_list_update)
next
  case (step_malloc alloc st now r a)
  then show ?case
    by (auto simp: a_malloc_def split: option.splits elim!: enabled_inv_cong)
next
  case (step_complete f st ts ct r a)
  then show ?case
    by (auto simp: a_complete_def split: option.splits elim!: enabled_inv_cong)
next
  case (step_cancel f st r a)
  then show ?case
    by (auto simp: a_cancel_def split: option.splits elim!: enabled_inv_cong)
next
  case (step_get c st f a)
  with enabled_upd [of "cl_queue st" "\<lambda>i. i\<lparr>get_count := get_count i + 1\<rparr>" c] show ?case
    by (auto simp: a_get_def upd_consumer_def enabled_inv_def split: option.splits)
next
  case (step_release c f st freed a)
  let ?u = "upd_consumer c (\<lambda>i. i\<lparr>release_count := release_count i + 1\<rparr>) (cl_queue st)"
  have "a = cl_queue st \<or> active_consumers a = active_consumers ?u \<and> q_consumers a = q_consumers ?u"
    using step_release(2)
    by (auto simp: a_release_def upd_consumer_def Let_def split: option.splits if_splits)
  moreover have "enabled_inv ?u"
    using step_release(3) by (rule enabled_upd) simp
  ultimately have "enabled_inv a"
    using step_release(3) enabled_inv_cong by blast
  then show ?case by simp
next
  case (step_clear st)
  then show ?case
    by (auto simp: a_clear_def sweep_info Let_def elim!: enabled_inv_cong)
qed simp

lemma enabled_reach: "client_reach format st \<Longrightarrow> enabled_inv (cl_queue st)"
proof (induction rule: client_reach.induct)
  case (reach_init k ts)
  show ?case
    by (auto simp: enabled_inv_def client_init_def abs_zero_def consumer_zero_def)
qed (rule enabled_step)

text \<open>A list structure holds one list of nodes.\<close>

lemma dlinked_unique:
  "dlinked h pv xs None \<Longrightarrow> dlinked h pv' ys None \<Longrightarrow> first_of xs None = first_of ys None \<Longrightarrow> xs = ys"
proof (induction xs arbitrary: ys pv pv')
  case Nil
  then show ?case by (cases ys) auto
next
  case (Cons x xs)
  then obtain zs where "ys = x # zs" by (cases ys) auto
  with Cons show ?case by auto
qed

lemma dll_unique: "dll h l xs \<Longrightarrow> dll h l ys \<Longrightarrow> xs = ys"
  by (auto simp: dll_def intro: dlinked_unique)



section \<open>Calls return, and do what the specification says\<close>



text \<open>
  C26. A waiting consumer: \<open>get_frame\<close> does what the specification does while other tasks
  work on the queue between its looks at the ready list, wait by wait.
\<close>
theorem get_frame_refines_waiting:
  assumes "fq_rep X s A" and "list_all2 (wait_rel X) waits Waits"
  shows "\<exists>s'. frame_queue_v2_get_frame waits t format cid timeout s =
      Some (fst (spec_get Waits t format cid timeout A), s') \<and>
    fq_rep X s' (snd (spec_get Waits t format cid timeout A))"
  by (rule get_rep [OF assms])

text \<open>While consumer 0 waits, the producer completes frame 900.\<close>

theorem get_frame_refines_waiting_witness:
  "\<exists>ps s'. proto_run demo_env IMAGE_MJPEG 0 [Ev_register 0, Ev_malloc (Some 900)] ps \<and>
     frame_queue_v2_get_frame
       [\<lparr>we_clock = 3,
         we_others = (\<lambda>s. snd (the (frame_queue_v2_complete 0 0 IMAGE_MJPEG (Some 900) s))),
         we_sem = BK_OK\<rparr>] 2 IMAGE_MJPEG (cbit 0) (Wait_ms 50) (ps_sys ps) =
       Some (Got (Some 900), s')"
proof -
  let ?es = "[Ev_register 0, Ev_malloc (Some 900)]"
  let ?w = "\<lparr>we_clock = 3,
      we_others = (\<lambda>s. snd (the (frame_queue_v2_complete 0 0 IMAGE_MJPEG (Some 900) s))),
      we_sem = BK_OK\<rparr>"
  let ?W = "\<lparr>we_clock = 3, we_others = (\<lambda>A. snd (spec_complete 0 0 IMAGE_MJPEG (Some 900) A)),
      we_sem = BK_OK\<rparr>"
  have "play IMAGE_MJPEG 0 ?es (booted demo_env, [], []) \<noteq> None" by code_simp
  then obtain ps where run: "proto_run demo_env IMAGE_MJPEG 0 ?es ps"
    and rep: "fq_rep (boot_nodes demo_env) (ps_sys ps) (fst (demo ?es))"
    using demo_run by metis
  have "fq_rep X (snd (the (frame_queue_v2_complete 0 0 IMAGE_MJPEG (Some 900) s)))
      (snd (spec_complete 0 0 IMAGE_MJPEG (Some 900) A))" if "fq_rep X s A" for X s A
    using complete_rep [OF that, of 0 0 IMAGE_MJPEG "Some 900"] by auto
  then have waits: "list_all2 (wait_rel (boot_nodes demo_env)) [?w] [?W]"
    by (simp add: wait_rel_def)
  have "fst (spec_get [?W] 2 IMAGE_MJPEG (cbit 0) (Wait_ms 50) (fst (demo ?es))) = Got (Some 900)"
    by code_simp
  with get_frame_refines_waiting [OF rep waits, of 2 IMAGE_MJPEG "cbit 0" "Wait_ms 50"] run
  show ?thesis by auto
qed

text \<open>The two halves of the bound: past the deadline the loop returns, before it what is left adds up.\<close>

lemma expired_returns:
  assumes "get_frame_loop waits i c cid (Wait_ms t) start s = Some (r, s')"
    and "w \<in> set waits" and "ucast t \<le> we_clock w - start"
  shows "r \<noteq> Waiting"
  using assms
proof (induction waits arbitrary: s)
  case (Cons x xs)
  show ?case
  proof (cases "ucast t \<le> we_clock x - start")
    case True
    with Cons.prems(1) show ?thesis
      by (auto simp: get_frame_loop.simps [of "x # xs"] wait_timeout_def split: option.splits prod.splits)
  next
    case False
    with Cons.prems have "w \<in> set xs" by auto
    from Cons.IH [OF _ this Cons.prems(3)] Cons.prems(1) False show ?thesis
      by (auto simp: get_frame_loop.simps [of "x # xs"] wait_timeout_def Let_def
          split: option.splits prod.splits if_splits)
  qed
qed simp

lemma time_left:
  assumes "wait_timeout (Wait_ms t) start now = Some (Some left)"
  shows "uint left + uint (now - start) = uint t"
proof -
  have less: "now - start < ucast t" and left: "left = ucast (ucast t - (now - start))"
    using assms by (auto simp: wait_timeout_def Let_def not_le split: if_splits)
  have t: "uint (ucast t :: u64) = uint t"
    using uint_lt2p [of t] by (simp add: unsigned_ucast_eq take_bit_eq_mod)
  have u: "uint (now - start) < uint t"
    using less by (simp add: word_less_def t)
  have "uint (ucast t - (now - start) :: u64) = uint t - uint (now - start)"
    using less by (simp add: uint_minus_simple_alt [THEN iffD1] t less_imp_le)
  moreover have "uint left = uint (ucast t - (now - start) :: u64) mod 2 ^ 32"
    by (simp add: left unsigned_ucast_eq take_bit_eq_mod)
  moreover have "(uint t - uint (now - start)) mod 2 ^ 32 = uint t - uint (now - start)"
  proof (rule mod_pos_pos_trivial)
    have "uint t < 2 ^ 32" using uint_lt2p [of t] by simp
    then show "uint t - uint (now - start) < 2 ^ 32"
      using uint_ge_0 [of "now - start"] by linarith
  qed (use u in simp)
  ultimately show ?thesis by simp
qed



text \<open>The two calls of a producer for a frame it was given, on the abstract queue.\<close>

lemma complete_publishes:
  assumes inv: "client_inv st" and given: "f \<in> cl_prod st"
  obtains nd a where "a_complete f ts ct (cl_queue st) = (BK_OK, a)"
    and "a_ready a = a_ready (cl_queue st) @ [nd]" and "nd_frame nd = Some f"
    and "consumer_mask nd = active_consumers a" and "accessed_mask nd = 0"
proof -
  obtain r a where c: "a_complete f ts ct (cl_queue st) = (r, a)"
    by (cases "a_complete f ts ct (cl_queue st)")
  have r: "r = BK_OK" by (rule complete_inv(1) [OF inv given c])
  obtain pre nd post where ex: "List.extract (in_use_with f) (a_free (cl_queue st)) = Some (pre, nd, post)"
    using given_found [OF inv given] .
  have "nd_frame nd = Some f" using extract_split [OF ex] by (simp add: in_use_with_def)
  moreover have "a = snd (a_complete f ts ct (cl_queue st))" using c by simp
  ultimately show ?thesis
    using that c r by (simp add: a_complete_def ex)
qed

lemma cancel_succeeds:
  assumes "client_inv st" and "f \<in> cl_prod st"
  obtains a where "a_cancel f (cl_queue st) = (BK_OK, a)"
  using assms cancel_inv(1) by (metis surj_pair)



lemma created_card: "card (fst ` set (created e 0 n)) \<le> n"
proof -
  have "length (created e j m) \<le> m" for j m
    by (induction m arbitrary: j) (auto split: option.splits intro: le_SucI)
  with card_image_le [of "set (created e 0 n)" fst] card_length [of "created e 0 n"] show ?thesis
    by (meson List.finite_set le_trans)
qed

text \<open>
  No node is lost: in every reachable state the lengths of the free and of the ready list
  that \<open>get_stats\<close> reports add up to the number of nodes the queue was created with.
\<close>
lemma nodes_conserved:
  assumes "good_boot env" and "init_slot format = Some (i, k)" and "proto_run env format i es ps"
  shows "\<exists>nf nr m c f. frame_queue_v2_get_stats True True True True True format (ps_sys ps) =
      (BK_OK, Some \<lparr>free_count = Some nf, ready_count = Some nr, stat_malloc = Some m,
        stat_complete = Some c, stat_free = Some f\<rparr>) \<and>
    unat nf + unat nr = card (boot_nodes env i)"
proof -
  obtain st A where sim: "psim (boot_nodes env) i ps st A"
    using proto_run_inv [OF assms(3,1,2)] .
  note index = psim_index [OF sim assms(2)]
  have rep: "fq_rep (boot_nodes env) (ps_sys ps) A"
    using sim by (simp add: psim_def)
  let ?q = "st_queues (ps_sys ps) ! i"
  obtain fs rs where wf: "qwf (st_heap (ps_sys ps)) (boot_nodes env i) {} (get_queue i (ps_sys ps)) fs rs"
    using fq_rep_queue [OF rep index(2)] by (rule qrepE)
  have counts: "fl_count (free_list ?q) = of_nat (length fs)" "fl_count (ready_list ?q) = of_nat (length rs)"
    using wf by (simp_all add: qwf_def dll_def get_queue_def)
  have "card (boot_nodes env i) \<le> 6"
    using index(2) created_card [of "env IMAGE_MJPEG" 4] created_card [of "env IMAGE_H264" 6]
      created_card [of "env IMAGE_YUV" 3] by (simp add: boot_nodes_def)
  moreover have card: "card (boot_nodes env i) = length fs + length rs"
  proof -
    have "boot_nodes env i = set (fs @ rs)" "distinct (fs @ rs)"
      using qwf_distinct [OF wf] by auto
    then show ?thesis by (simp only: distinct_card) simp
  qed
  ultimately have "length fs < 2 ^ 32" "length rs < 2 ^ 32" by simp_all
  then have "unat (fl_count (free_list ?q)) + unat (fl_count (ready_list ?q)) = card (boot_nodes env i)"
    by (simp add: counts card unat_of_nat take_bit_nat_eq_self)
  then show ?thesis
    using index(1) queue_index_rep [OF rep, of format]
    by (simp add: frame_queue_v2_get_stats_def out_value_def Let_def)
qed

text \<open>
  C32. Deinitialising an initialised queue gives back everything: it returns, frees the buffer
  of every node that has one, in list order, frees each node of the queue exactly once, and
  leaves the queue as before initialisation.
\<close>
theorem deinit_frees_everything:
  assumes "fq_rep X s A" and "init_slot format = Some (i, k)" and "q_count (as_queues A ! i) \<noteq> 0"
  shows "\<exists>s' calls. frame_queue_v2_deinit format s = Some (BK_OK, s') \<and> st_log s' = st_log s @ calls \<and>
    distinct (node_frees calls) \<and> set (node_frees calls) = X i \<and>
    filter visible calls =
      concat (map (free_calls format) (a_free (as_queues A ! i) @ a_ready (as_queues A ! i))) @ [Sem_deinit i] \<and>
    st_queues s' ! i = queue_zero \<and> fq_rep (X(i := {})) s' (snd (spec_deinit format A))"
proof -
  obtain s' calls where d: "frame_queue_v2_deinit format s = Some (BK_OK, s')"
    and rep': "fq_rep (X(i := {})) s' (snd (spec_deinit format A))"
    and log: "st_log s' = st_log s @ calls" "distinct (node_frees calls)" "set (node_frees calls) = X i"
    using deinit_rep [OF assms] by blast
  have "filter visible calls =
      concat (map (free_calls format) (a_free (as_queues A ! i) @ a_ready (as_queues A ! i))) @ [Sem_deinit i]"
    using rep' assms log(1)
    by (simp add: fq_rep_def spec_deinit_def log_abs_def put_abs_def Let_def)
  moreover have "st_queues s' ! i = queue_zero"
    using d init_slot_index(1) [OF assms(2)] fq_rep_length [OF assms(1)]
      fq_rep_queue [OF assms(1), of i] assms(3)
    by (auto simp: frame_queue_v2_deinit_def FB_LIST_MAX_COUNT_def put_queue_def Let_def
        qrep_def get_queue_def log_calls_def split: Option.bind_splits)
  ultimately show ?thesis using d rep' log by blast
qed

theorem deinit_frees_everything_witness:
  "\<exists>s s' calls. frame_queue_v2_init_all demo_env boot_state = (BK_OK, s) \<and>
     frame_queue_v2_deinit IMAGE_YUV s = Some (BK_OK, s') \<and> st_log s' = st_log s @ calls \<and>
     distinct (node_frees calls) \<and> set (node_frees calls) = {200, 201, 202}"
proof -
  obtain s where boot: "frame_queue_v2_init_all demo_env boot_state = (BK_OK, s)"
    and rep: "fq_rep (boot_nodes demo_env) s (booted demo_env)"
    using boot_rep [OF demo_boot] by blast
  have "init_slot IMAGE_YUV = Some (2, 3)" "q_count (as_queues (booted demo_env) ! 2) \<noteq> 0"
    and nodes: "boot_nodes demo_env 2 = {200, 201, 202}"
    by code_simp+
  from deinit_frees_everything [OF rep this(1,2)] boot show ?thesis
    unfolding nodes by blast
qed

text \<open>
  The number of semaphore signals: \<open>count_active_consumers\<close> is the number of bits set in
  the mask, and its loop ends.
\<close>
lemma count_active_consumers_popcount:
  "unat (count_active_consumers m) = card {j. bit m j}"
proof -
  have fin: "finite {j. bit (w :: u32) j}" for w
    by (rule finite_subset [of _ "{..<32}"]) (auto dest: bit_imp_le_length)
  have le: "card {j. bit (w :: u32) j} \<le> 32" for w
  proof -
    have "{j. bit w j} \<subseteq> {..<32}" by (auto dest: bit_imp_le_length)
    from card_mono [OF _ this] show ?thesis by simp
  qed
  have step: "card {j. bit m j} = card {j. bit (drop_bit 1 m) j} + of_bool (bit m 0)" for m :: u32
  proof -
    have "{j. bit m j} = Suc ` {j. bit (drop_bit 1 m) j} \<union> (if bit m 0 then {0} else {})"
      by (auto simp: bit_simps image_iff) (metis not0_implies_Suc)+
    moreover have "card (Suc ` {j. bit (drop_bit 1 m) j}) = card {j. bit (drop_bit 1 m) j}"
      by (rule card_image) simp
    ultimately show ?thesis
      using fin [of "drop_bit 1 m"] by (simp add: card_insert_if image_iff)
  qed
  have "unat count + card {j. bit m j} < 2 ^ 32 \<Longrightarrow>
      unat (count_active_consumers_from m count) = unat count + card {j. bit m j}" for m count
  proof (induction m count rule: count_active_consumers_from.induct)
    case (1 m count)
    show ?case
    proof (cases "m = 0")
      case True
      then show ?thesis by (simp add: count_active_consumers_from.simps)
    next
      case False
      have odd: "m AND 1 = of_bool (bit m 0)"
        by (simp add: and_one_eq bit_0 odd_iff_mod_2_eq_one)
      have "unat (count + (m AND 1)) = unat count + of_bool (bit m 0)"
        using 1(2) step [of m] by (cases "bit m 0") (simp_all add: odd unat_word_ariths)
      with 1 False step [of m] show ?thesis
        by (simp add: count_active_consumers_from.simps [of m])
    qed
  qed
  from this [of 0 m] le [of m] show ?thesis
    by (simp add: count_active_consumers_def)
qed

text \<open>
  The index the operations use for a consumer is the lowest of the eight consumer bits set
  in its identifier; an identifier with none of them is refused.
\<close>
lemma consumer_idx_lowest_bit:
  "consumer_idx cid = (if \<exists>j < 8. bit cid j then int (LEAST j. bit cid j) else -1)"
  using consumer_idx_from_least [of 0 cid] by (simp add: consumer_idx_def)

section \<open>Outside the protocol\<close>

text \<open>
  What happens when a caller leaves the protocol, or the SDK fails at start-up; each is a run of
  the specification, which the code follows by \<open>calls_refine_spec\<close>.

  \<open>frame_queue_v2_clear_all\<close> frees the buffer a producer is still filling.
\<close>

lemma clear_all_frees_frame_being_filled:
  "let A = fst (demo [Ev_malloc (Some 900)]) in
   \<exists>nd \<in> set (a_free (as_queues A ! 0)). in_use_with 900 nd \<and>
     frees 900 (as_log (snd (spec_clear_all A))) = 1"
  by code_simp

text \<open>A release by a consumer that does not hold the frame frees it under the one that does.\<close>

lemma release_by_non_holder_frees:
  "let (A, held, given) = demo [Ev_register 0, Ev_malloc (Some 900), Ev_complete 900, Ev_get 0 (Some 900)] in
   (0, 900) \<in> set held \<and> (3, 900) \<notin> set held \<and>
   frees 900 (as_log (spec_release IMAGE_MJPEG (cbit 3) (Some 900) A)) = 1"
  by code_simp

text \<open>
  After a failed semaphore initialisation the queue counts as initialised: the next call of
  \<open>frame_queue_v2_init\<close> reports success although the queue has no node.
\<close>

lemma init_after_failed_init:
  assumes "init_slot format = Some (i, k)" and "i < length (st_queues s)"
    and "q_count (st_queues s ! i) = 0" and "ie_sem env \<noteq> BK_OK"
  shows "\<exists>s'. frame_queue_v2_init env format s = (ie_sem env, s') \<and>
    frame_queue_v2_init env' format s' = (BK_OK, s') \<and> fl_head (free_list (st_queues s' ! i)) = None"
proof -
  have "k > 0" using init_slot_cases [OF assms(1)] by auto
  with assms show ?thesis
    by (simp add: init_unfold Let_def put_queue_def log_calls_def queue_zero_def frame_list_init_def)
qed

end
