(* ===== verification/Yuv_Display.thy ===== *)
theory Yuv_Display
  imports Frame_Queue
begin

text \<open>
  The direct display of camera frames,
  \<^verbatim>\<open>components/smart_lock/src/yuv_display/yuv_display.c\<close>: a task that takes frames from the YUV
  queue, has the hardware rotate them when asked to, and hands them to the display; and the calls
  that open and close it.

  State. \<open>yuv_state\<close> is the frame queue, the structure \<open>s_yuv_display\<close>, where the task and the
  calling thread are, and the hardware's side: the rotation under way (\<open>yv_rot\<close>, input and output
  buffer), the buffers the display shows (\<open>yv_shown\<close>; \<open>True\<close> marks a rotated one, which the
  display gives back to \<open>yuv_display_rotate_frame_free_cb\<close>), and the live output buffers.

  Steps. A step of the task or of the caller is what the code does up to its next call of the
  frame queue, its next wait, or its next read of what another thread writes; \<open>yuv_exec\<close> runs one
  step, \<open>None\<close> when it is not enabled. What the SDK returns is an argument of the step. A wait is
  a look that may be repeated: other threads act between the looks, and \<open>te_timeout\<close> ends the wait.
  Opening and closing is done by one thread at a time, as the command handler does.
\<close>

section \<open>Types\<close>

datatype media_rotate_t = ROTATE_NONE | ROTATE_90 | ROTATE_180 | ROTATE_270

datatype yuv_display_event_t =
  YUV_DISPLAY_EVENT_START | YUV_DISPLAY_EVENT_STOP | YUV_DISPLAY_EVENT_FRAME_READY

text \<open>The message queue holds up to 10 events; the semaphore counts to 1.\<close>

record yuv_display_task_t =
  yt_queue :: "yuv_display_event_t list option"
  yt_sem :: "nat option"
  task_running :: bool
  rotate_enabled :: bool
  rotate_angle :: media_rotate_t
  rotate_output_frame :: "frame_ptr option"
  display_handle :: "nat option"

datatype yuv_call =
    Task_alloc | Task_free | Thread_create | Thread_delete
  | Rott_driver_init | Rott_isr_register | Rott_driver_deinit
  | Rott_config frame_ptr frame_ptr media_rotate_t u32 u32 u32 | Rott_enable
  | Display_alloc u32 | Display_flush nat frame_ptr bool | Output_free frame_ptr
  | Msg_init | Msg_deinit | Signal_init | Signal_deinit | Delay_ms nat

text \<open>
  The task: not there, just created, at the top of its loop with \<^verbatim>\<open>processing_frame\<close>, past the
  message queue, with a new frame, with a frame it could not process, or past the label
  \<^verbatim>\<open>exit\<close>. The caller: outside, waiting in \<^verbatim>\<open>open\<close>, or at a point of \<^verbatim>\<open>close\<close>.
\<close>

datatype yuv_task_pc =
    Task_none | Task_created | Task_top "frame_ptr option" | Task_get "frame_ptr option"
  | Task_process frame_ptr | Task_failed frame_ptr | Task_exit "frame_ptr option"

datatype yuv_ctl_pc =
  Ctl_idle | Ctl_open_wait | Ctl_stop | Ctl_close_wait | Ctl_drain | Ctl_release frame_ptr | Ctl_cleanup

record yuv_state =
  yv_fq :: fq_state
  s_yuv_display :: "yuv_display_task_t option"
  yv_task :: yuv_task_pc
  yv_ctl :: yuv_ctl_pc
  yv_rot :: "(frame_ptr \<times> frame_ptr) option"
  yv_shown :: "(frame_ptr \<times> bool) list"
  yv_live :: "frame_ptr list"
  yv_out :: "frame_ptr \<Rightarrow> frame_buffer"
  yv_log :: "yuv_call list"

definition yuv_log :: "yuv_call list \<Rightarrow> yuv_state \<Rightarrow> yuv_state" where
  "yuv_log cs s = s\<lparr>yv_log := yv_log s @ cs\<rparr>"

section \<open>Callbacks and one frame\<close>

definition get_rotate_angle :: "u32 \<Rightarrow> media_rotate_t" where
  "get_rotate_angle angle =
     (if angle = 0 then ROTATE_NONE else if angle = 90 then ROTATE_90
      else if angle = 180 then ROTATE_180 else if angle = 270 then ROTATE_270 else ROTATE_NONE)"

text \<open>The test for rotation in hardware, which the code writes out at five places.\<close>

definition hw_rotation :: "yuv_display_task_t \<Rightarrow> bool" where
  "hw_rotation t \<longleftrightarrow> rotate_enabled t \<and> (rotate_angle t = ROTATE_90 \<or> rotate_angle t = ROTATE_270)"

text \<open>A push that does not wait is lost when the queue is full.\<close>

definition push_msg :: "yuv_display_event_t \<Rightarrow> yuv_display_task_t \<Rightarrow> yuv_display_task_t" where
  "push_msg ev t = (case yt_queue t of
     None \<Rightarrow> t
   | Some q \<Rightarrow> if length q < 10 then t\<lparr>yt_queue := Some (q @ [ev])\<rparr> else t)"

definition set_sem :: "yuv_display_task_t \<Rightarrow> yuv_display_task_t" where
  "set_sem t = t\<lparr>yt_sem := map_option (\<lambda>_. 1) (yt_sem t)\<rparr>"

definition yuv_display_rotate_complete_cb :: "yuv_state \<Rightarrow> yuv_state" where
  "yuv_display_rotate_complete_cb s =
     (case s_yuv_display s of
        None \<Rightarrow> s
      | Some t \<Rightarrow>
          if task_running t
          then s\<lparr>s_yuv_display := Some (push_msg YUV_DISPLAY_EVENT_FRAME_READY t)\<rparr> else s)"

definition release_yuv :: "frame_ptr option \<Rightarrow> yuv_state \<Rightarrow> yuv_state option" where
  "release_yuv frame s =
     map_option (\<lambda>q. s\<lparr>yv_fq := q\<rparr>) (frame_queue_v2_release_frame IMAGE_YUV CONSUMER_DECODER frame (yv_fq s))"

definition yuv_display_frame_free_cb :: "frame_ptr option \<Rightarrow> yuv_state \<Rightarrow> yuv_state option" where
  "yuv_display_frame_free_cb frame s = (case frame of None \<Rightarrow> Some s | Some f \<Rightarrow> release_yuv (Some f) s)"

definition yuv_display_rotate_frame_free_cb :: "frame_ptr option \<Rightarrow> yuv_state \<Rightarrow> yuv_state" where
  "yuv_display_rotate_frame_free_cb frame s = (case frame of
     None \<Rightarrow> s
   | Some f \<Rightarrow> yuv_log [Output_free f] (s\<lparr>yv_live := remove1 f (yv_live s)\<rparr>))"

text \<open>
  What the SDK answers to the task: the buffer allocator, the rotation engine and the display;
  whether a wait for a frame ends; and the SDK's code for \<^verbatim>\<open>PIXEL_FMT_RGB565_LE\<close>.
\<close>

record yuv_task_env =
  te_alloc :: "frame_ptr option"
  te_config :: bk_err_t
  te_enable :: bk_err_t
  te_flush :: bk_err_t
  te_timeout :: bool
  te_rgb565 :: u32

text \<open>
  \<^verbatim>\<open>bk_display_flush\<close>: when it succeeds, the display has the buffer until it calls the callback.
\<close>

definition display_flush ::
    "bk_err_t \<Rightarrow> nat \<Rightarrow> frame_ptr \<Rightarrow> bool \<Rightarrow> yuv_state \<Rightarrow> yuv_state" where
  "display_flush ret handle f rotated s =
     (let s = yuv_log [Display_flush handle f rotated] s in
      if ret = BK_OK then s\<lparr>yv_shown := yv_shown s @ [(f, rotated)]\<rparr> else s)"

definition prepare_output ::
    "yuv_task_env \<Rightarrow> frame_ptr \<Rightarrow> yuv_display_task_t \<Rightarrow> yuv_state \<Rightarrow> frame_ptr option \<times> yuv_state" where
  "prepare_output env f t s =
     (case rotate_output_frame t of
        Some g \<Rightarrow> (Some g, s)
      | None \<Rightarrow>
          (let yuv = st_frames (yv_fq s) f;
               s = yuv_log [Display_alloc (fb_width yuv * fb_height yuv * 2)] s in
           case te_alloc env of
             None \<Rightarrow> (None, s)
           | Some g \<Rightarrow>
               (Some g, s\<lparr>yv_live := g # yv_live s,
                  yv_out := (yv_out s)(g := (yv_out s g)\<lparr>fb_width := fb_height yuv,
                    fb_height := fb_width yuv, fb_fmt := te_rgb565 env\<rparr>),
                  s_yuv_display := Some (t\<lparr>rotate_output_frame := Some g\<rparr>)\<rparr>)))"

definition yuv_display_process_frame ::
    "yuv_task_env \<Rightarrow> frame_ptr option \<Rightarrow> yuv_state \<Rightarrow> (bk_err_t \<times> yuv_state) option" where
  "yuv_display_process_frame env frame s =
     (case (s_yuv_display s, frame) of
        (Some t, Some f) \<Rightarrow>
          if hw_rotation t
          then (case prepare_output env f t s of
             (None, s) \<Rightarrow> Some (BK_FAIL, s)
           | (Some g, s) \<Rightarrow>
               (let yuv = st_frames (yv_fq s) f;
                    s = yuv_log [Rott_config f g (rotate_angle t) (fb_fmt yuv) (fb_width yuv)
                          (fb_height yuv)] s in
                if te_config env \<noteq> BK_OK then Some (BK_FAIL, s)
                else (let s = yuv_log [Rott_enable] s in
                  if te_enable env \<noteq> BK_OK then Some (BK_FAIL, s)
                  else Some (BK_OK, s\<lparr>yv_rot := Some (f, g)\<rparr>))))
          else (case display_handle t of
             Some d \<Rightarrow>
               (let ret = te_flush env; s = display_flush ret d f False s in
                if ret \<noteq> BK_OK then map_option (Pair ret) (yuv_display_frame_free_cb (Some f) s)
                else Some (ret, s))
           | None \<Rightarrow> map_option (Pair BK_OK) (yuv_display_frame_free_cb (Some f) s))
      | _ \<Rightarrow> Some (BK_FAIL, s))"

definition yuv_display_rotation_complete ::
    "yuv_task_env \<Rightarrow> frame_ptr option \<Rightarrow> yuv_state \<Rightarrow> (bk_err_t \<times> yuv_state) option" where
  "yuv_display_rotation_complete env src s =
     (case s_yuv_display s of
        None \<Rightarrow> Some (BK_FAIL, s)
      | Some t \<Rightarrow>
          (case rotate_output_frame t of
             None \<Rightarrow> Some (BK_FAIL, s)
           | Some g \<Rightarrow> do {
               s \<leftarrow> (case src of None \<Rightarrow> Some s | Some f \<Rightarrow> release_yuv (Some f) s);
               let t' = t\<lparr>rotate_output_frame := None\<rparr>;
               (case display_handle t of
                  Some d \<Rightarrow>
                    (let ret = te_flush env; s = display_flush ret d g True s;
                         s = (if ret \<noteq> BK_OK then yuv_display_rotate_frame_free_cb (Some g) s else s)
                     in Some (ret, s\<lparr>s_yuv_display := Some t'\<rparr>))
                | None \<Rightarrow>
                    Some (BK_OK, (yuv_display_rotate_frame_free_cb (Some g) s)\<lparr>s_yuv_display := Some t'\<rparr>))
             }))"

section \<open>The task\<close>

text \<open>
  One step of \<^verbatim>\<open>yuv_display_task_main\<close>. The task dereferences \<^verbatim>\<open>s_yuv_display\<close> without a test:
  a step is \<open>None\<close> when the pointer is null.
\<close>

definition yuv_pop :: "yuv_task_env \<Rightarrow> frame_ptr option \<Rightarrow> yuv_display_task_t \<Rightarrow> yuv_state \<Rightarrow> yuv_state option"
  where
  "yuv_pop env processing_frame t s =
     (case yt_queue t of
        None \<Rightarrow> None
      | Some [] \<Rightarrow> Some (s\<lparr>yv_task := Task_get processing_frame\<rparr>)
      | Some (msg # q) \<Rightarrow>
          (let s = s\<lparr>s_yuv_display := Some (t\<lparr>yt_queue := Some q\<rparr>)\<rparr> in
           case msg of
             YUV_DISPLAY_EVENT_STOP \<Rightarrow> Some (s\<lparr>yv_task := Task_exit processing_frame\<rparr>)
           | YUV_DISPLAY_EVENT_FRAME_READY \<Rightarrow> do {
               (_, s) \<leftarrow> yuv_display_rotation_complete env processing_frame s;
               Some (s\<lparr>yv_task := Task_get None\<rparr>)
             }
           | YUV_DISPLAY_EVENT_START \<Rightarrow> Some (s\<lparr>yv_task := Task_get processing_frame\<rparr>)))"

definition yuv_look :: "u32 \<Rightarrow> yuv_state \<Rightarrow> (frame_ptr option \<times> yuv_state) option" where
  "yuv_look ms s = do {
     (r, q) \<leftarrow> frame_queue_v2_get_frame [] 0 IMAGE_YUV CONSUMER_DECODER (Wait_ms ms) (yv_fq s);
     Some (case r of Got f \<Rightarrow> f | Waiting \<Rightarrow> None, s\<lparr>yv_fq := q\<rparr>)
   }"

definition yuv_display_task_step :: "yuv_task_env \<Rightarrow> yuv_state \<Rightarrow> yuv_state option" where
  "yuv_display_task_step env s =
     (case s_yuv_display s of
        None \<Rightarrow> None
      | Some t \<Rightarrow>
          (case yv_task s of
             Task_none \<Rightarrow> None
           | Task_created \<Rightarrow>
               Some (s\<lparr>s_yuv_display := Some (set_sem (t\<lparr>task_running := True\<rparr>)), yv_task := Task_top None\<rparr>)
           | Task_top p \<Rightarrow>
               if task_running t then yuv_pop env p t s else Some (s\<lparr>yv_task := Task_exit p\<rparr>)
           | Task_get (Some f) \<Rightarrow> Some (s\<lparr>yv_task := Task_top (Some f)\<rparr>)
           | Task_get None \<Rightarrow> do {
               (r, s) \<leftarrow> yuv_look 10 s;
               Some (s\<lparr>yv_task := (case r of
                 Some f \<Rightarrow> Task_process f
               | None \<Rightarrow> if te_timeout env then Task_top None else Task_get None)\<rparr>)
             }
           | Task_process f \<Rightarrow> do {
               (ret, s) \<leftarrow> yuv_display_process_frame env (Some f) s;
               Some (s\<lparr>yv_task := (if ret \<noteq> BK_OK then Task_failed f
                 else if hw_rotation t then Task_top (Some f) else Task_top None)\<rparr>)
             }
           | Task_failed f \<Rightarrow> do {
               s \<leftarrow> release_yuv (Some f) s;
               Some (s\<lparr>yv_task := Task_top None\<rparr>)
             }
           | Task_exit p \<Rightarrow> do {
               s \<leftarrow> (case p of None \<Rightarrow> Some s | Some f \<Rightarrow> release_yuv (Some f) s);
               let s = yuv_display_rotate_frame_free_cb (rotate_output_frame t) s;
               let t' = set_sem (t\<lparr>rotate_output_frame := None, task_running := False\<rparr>);
               Some (yuv_log [Thread_delete] (s\<lparr>s_yuv_display := Some t', yv_task := Task_none\<rparr>))
             }))"

section \<open>Opening and closing\<close>

record yuv_open_env =
  oe_malloc :: bool
  oe_rott :: bk_err_t
  oe_sem :: bk_err_t
  oe_queue :: bk_err_t
  oe_thread :: bk_err_t

definition yuv_task_zero :: yuv_display_task_t where
  "yuv_task_zero = \<lparr>yt_queue = None, yt_sem = None, task_running = False, rotate_enabled = False,
     rotate_angle = ROTATE_NONE, rotate_output_frame = None, display_handle = None\<rparr>"

text \<open>
  What the label \<^verbatim>\<open>error\<close> and the end of \<^verbatim>\<open>close\<close> share: queue, semaphore, rotation engine and
  structure. Taking down the driver stops the rotation under way.
\<close>

definition yuv_teardown :: "yuv_state \<Rightarrow> yuv_state" where
  "yuv_teardown s = (case s_yuv_display s of
     None \<Rightarrow> s
   | Some t \<Rightarrow>
       (let s = yuv_log ((if yt_queue t \<noteq> None then [Msg_deinit] else []) @
                 (if yt_sem t \<noteq> None then [Signal_deinit] else []) @
                 (if hw_rotation t then [Rott_driver_deinit] else []) @ [Task_free]) s
        in s\<lparr>s_yuv_display := None, yv_rot := (if hw_rotation t then None else yv_rot s)\<rparr>))"

text \<open>
  \<^verbatim>\<open>yuv_display_open\<close> up to its wait for the task. \<open>info\<close> is \<open>None\<close> for \<^verbatim>\<open>NULL\<close> and otherwise
  its \<^verbatim>\<open>display_ctlr_handle\<close>; the result is \<open>None\<close> when the call now waits.
\<close>

definition yuv_open_resources ::
    "yuv_open_env \<Rightarrow> yuv_display_task_t \<Rightarrow> yuv_state \<Rightarrow> (bk_err_t \<times> yuv_state) option" where
  "yuv_open_resources env t s =
     (let s = (if hw_rotation t then yuv_log [Rott_driver_init] s else s) in
      if hw_rotation t \<and> oe_rott env \<noteq> BK_OK then Some (oe_rott env, s)
      else
        (let s = (if hw_rotation t then yuv_log [Rott_isr_register] s else s);
             s = yuv_log [Signal_init] s in
         if oe_sem env \<noteq> BK_OK then Some (oe_sem env, s)
         else
           (let t = t\<lparr>yt_sem := Some 0\<rparr>;
                s = yuv_log [Msg_init] (s\<lparr>s_yuv_display := Some t\<rparr>) in
            if oe_queue env \<noteq> BK_OK then Some (oe_queue env, s)
            else
              (let s = s\<lparr>s_yuv_display := Some (t\<lparr>yt_queue := Some []\<rparr>)\<rparr> in do {
                 (ret, q) \<leftarrow> frame_queue_v2_register_consumer IMAGE_YUV CONSUMER_DECODER (yv_fq s);
                 let s = s\<lparr>yv_fq := q\<rparr>;
                 (if ret \<noteq> BK_OK then Some (ret, s)
                  else
                    (let s = yuv_log [Thread_create] s in
                     if oe_thread env \<noteq> BK_OK then do {
                       (_, q) \<leftarrow> frame_queue_v2_unregister_consumer IMAGE_YUV CONSUMER_DECODER (yv_fq s);
                       Some (oe_thread env, s\<lparr>yv_fq := q\<rparr>)
                     }
                     else Some (BK_OK, s\<lparr>yv_task := Task_created\<rparr>)))
               }))))"

definition yuv_display_open ::
    "yuv_open_env \<Rightarrow> nat option option \<Rightarrow> u32 \<Rightarrow> yuv_state \<Rightarrow> (bk_err_t option \<times> yuv_state) option" where
  "yuv_display_open env info angle s =
     (case info of
        None \<Rightarrow> Some (Some BK_ERR_PARAM, s)
      | Some handle \<Rightarrow>
          if s_yuv_display s \<noteq> None then Some (Some BK_OK, s)
          else
            (let s = yuv_log [Task_alloc] s in
             if \<not> oe_malloc env then Some (Some BK_ERR_NO_MEM, s)
             else
               (let a = get_rotate_angle angle;
                    t = yuv_task_zero\<lparr>rotate_angle := a, rotate_enabled := (a \<noteq> ROTATE_NONE),
                          display_handle := handle\<rparr> in do {
                  (ret, s) \<leftarrow> yuv_open_resources env t (s\<lparr>s_yuv_display := Some t\<rparr>);
                  Some (if ret = BK_OK then (None, s\<lparr>yv_ctl := Ctl_open_wait\<rparr>)
                        else (Some ret, yuv_teardown s))
                })))"

text \<open>A wait for the semaphore takes its token; it is not enabled without one.\<close>

definition take_sem :: "yuv_display_task_t \<Rightarrow> yuv_display_task_t option" where
  "take_sem t = (case yt_sem t of
     Some n \<Rightarrow> if n > 0 then Some (t\<lparr>yt_sem := Some (n - 1)\<rparr>) else None
   | None \<Rightarrow> None)"

text \<open>
  \<^verbatim>\<open>yuv_display_close\<close>: its entry, then its steps. The push of the stop message waits for
  room in the queue. The last look of the drain loop finds nothing and the call goes on to
  release its resources.
\<close>

definition yuv_display_close :: "yuv_state \<Rightarrow> bk_err_t option \<times> yuv_state" where
  "yuv_display_close s =
     (case s_yuv_display s of
        None \<Rightarrow> (Some BK_OK, s)
      | Some t \<Rightarrow> if \<not> task_running t then (Some BK_OK, s) else (None, s\<lparr>yv_ctl := Ctl_stop\<rparr>))"

definition yuv_ctl_step :: "yuv_state \<Rightarrow> yuv_state option" where
  "yuv_ctl_step s =
     (case s_yuv_display s of
        None \<Rightarrow> None
      | Some t \<Rightarrow>
          (case yv_ctl s of
             Ctl_idle \<Rightarrow> None
           | Ctl_open_wait \<Rightarrow>
               map_option (\<lambda>t. s\<lparr>s_yuv_display := Some t, yv_ctl := Ctl_idle\<rparr>) (take_sem t)
           | Ctl_stop \<Rightarrow>
               (case yt_queue t of
                  None \<Rightarrow> None
                | Some q \<Rightarrow>
                    if length q < 10
                    then Some (s\<lparr>s_yuv_display := Some (push_msg YUV_DISPLAY_EVENT_STOP t),
                           yv_ctl := Ctl_close_wait\<rparr>)
                    else None)
           | Ctl_close_wait \<Rightarrow>
               map_option (\<lambda>t. yuv_log [Delay_ms 100] (s\<lparr>s_yuv_display := Some t, yv_ctl := Ctl_drain\<rparr>))
                 (take_sem t)
           | Ctl_drain \<Rightarrow> do {
               (r, s) \<leftarrow> yuv_look 0 s;
               Some (s\<lparr>yv_ctl := (case r of Some f \<Rightarrow> Ctl_release f | None \<Rightarrow> Ctl_cleanup)\<rparr>)
             }
           | Ctl_release f \<Rightarrow> do {
               s \<leftarrow> release_yuv (Some f) s;
               Some (s\<lparr>yv_ctl := Ctl_drain\<rparr>)
             }
           | Ctl_cleanup \<Rightarrow> do {
               (_, q) \<leftarrow> frame_queue_v2_unregister_consumer IMAGE_YUV CONSUMER_DECODER (yv_fq s);
               Some (yuv_teardown (s\<lparr>yv_fq := q, yv_ctl := Ctl_idle\<rparr>))
             }))"

definition yuv_display_is_running :: "yuv_state \<Rightarrow> bool" where
  "yuv_display_is_running s = (case s_yuv_display s of None \<Rightarrow> False | Some t \<Rightarrow> task_running t)"

section \<open>The component with its hardware\<close>

text \<open>
  The rotation engine raises its interrupt once for a rotation that was started; the display
  gives back a buffer it shows through the callback it got with it.
\<close>

datatype yuv_action =
    Do_open yuv_open_env "nat option option" u32 | Do_close | Do_ctl | Do_task yuv_task_env
  | Hw_rotated | Hw_shown frame_ptr bool

fun yuv_exec :: "yuv_action \<Rightarrow> yuv_state \<Rightarrow> yuv_state option" where
  "yuv_exec (Do_open env info angle) s =
     (if yv_ctl s = Ctl_idle then map_option snd (yuv_display_open env info angle s) else None)"
| "yuv_exec Do_close s = (if yv_ctl s = Ctl_idle then Some (snd (yuv_display_close s)) else None)"
| "yuv_exec Do_ctl s = yuv_ctl_step s"
| "yuv_exec (Do_task env) s = yuv_display_task_step env s"
| "yuv_exec Hw_rotated s =
     (if yv_rot s = None then None else Some (yuv_display_rotate_complete_cb (s\<lparr>yv_rot := None\<rparr>)))"
| "yuv_exec (Hw_shown f rotated) s =
     (if (f, rotated) \<in> set (yv_shown s)
      then (let s = s\<lparr>yv_shown := remove1 (f, rotated) (yv_shown s)\<rparr> in
            if rotated then Some (yuv_display_rotate_frame_free_cb (Some f) s)
            else yuv_display_frame_free_cb (Some f) s)
      else None)"

fun yuv_run :: "yuv_action list \<Rightarrow> yuv_state \<Rightarrow> yuv_state option" where
  "yuv_run [] s = Some s"
| "yuv_run (a # as) s = do { s \<leftarrow> yuv_exec a s; yuv_run as s }"

definition yuv_start :: "fq_state \<Rightarrow> yuv_state" where
  "yuv_start q = \<lparr>yv_fq = q, s_yuv_display = None, yv_task = Task_none, yv_ctl = Ctl_idle, yv_rot = None,
     yv_shown = [], yv_live = [], yv_out = (\<lambda>_. frame_buffer_zero), yv_log = []\<rparr>"

end
