(* ===== verification/Frame_Client.thy ===== *)
theory Frame_Client
  imports Frame_Queue_Properties
begin

text \<open>
  The contract between the frame queue and a task that consumes from it, as the locale
  \<open>frame_client\<close>. A client keeps a queue in its state, tells which frames it has taken and not
  released (\<open>own\<close>), and each of its steps makes calls the protocol of the queue allows. Then the
  client, run together with any other producers and consumers (\<open>client_sys\<close>), never leaves the
  protocol, and the frames it has taken stay in the queue's nodes until it releases them.
\<close>

section \<open>The client's view of the protocol state\<close>

fun by_consumer :: "client_event \<Rightarrow> nat option" where
  "by_consumer (Ev_register c) = Some c"
| "by_consumer (Ev_unregister c) = Some c"
| "by_consumer (Ev_get c r) = Some c"
| "by_consumer (Ev_release c f freed) = Some c"
| "by_consumer ev = None"

definition others_event :: "nat \<Rightarrow> client_event option \<Rightarrow> bool" where
  "others_event c e \<longleftrightarrow> (\<forall>ev. e = Some ev \<longrightarrow> by_consumer ev \<noteq> Some c)"

inductive proto_steps ::
    "image_format \<Rightarrow> node_ptr set \<Rightarrow> proto_state \<Rightarrow> client_event list \<Rightarrow> proto_state \<Rightarrow> bool"
  for format N ps where
  steps_none: "proto_steps format N ps [] ps"
| steps_more:
    "proto_steps format N ps es ps1 \<Longrightarrow> proto_step format N ps1 e ps2 \<Longrightarrow>
     proto_steps format N ps (es @ (case e of None \<Rightarrow> [] | Some ev \<Rightarrow> [ev])) ps2"

lemma steps_one: "proto_step format N ps e ps' \<Longrightarrow> \<exists>es. proto_steps format N ps es ps'"
  using steps_more [OF steps_none] by blast

lemma proto_run_steps:
  "proto_steps format (boot_nodes env i) ps es' ps' \<Longrightarrow> proto_run env format i es ps \<Longrightarrow>
     proto_run env format i (es @ es') ps'"
proof (induction rule: proto_steps.induct)
  case (steps_more es1 ps1 e ps2)
  from run_step [OF steps_more.IH [OF steps_more.prems] steps_more.hyps(2)] show ?case by simp
qed simp

text \<open>
  The queue \<open>q\<close>, the frames \<open>F\<close> that consumer \<open>c\<close> has taken, those the other consumers have,
  and those the producers have.
\<close>

definition view :: "fq_state \<Rightarrow> nat \<Rightarrow> frame_ptr set \<Rightarrow> (nat \<times> frame_ptr) set \<Rightarrow> frame_ptr set \<Rightarrow> proto_state"
  where "view q c F H P = \<lparr>ps_sys = q, ps_held = H \<union> Pair c ` F, ps_prod = P\<rparr>"

lemma view_simps [simp]:
  "ps_sys (view q c F H P) = q" "ps_held (view q c F H P) = H \<union> Pair c ` F"
  "ps_prod (view q c F H P) = P"
  by (simp_all add: view_def)

lemma view_upd:
  "(view q c F H P)\<lparr>ps_sys := q'\<rparr> = view q' c F H P"
  "(view q c F H P)\<lparr>ps_prod := P'\<rparr> = view q c F H P'"
  by (simp_all add: view_def)

lemma client_register:
  "c < 8 \<Longrightarrow> frame_queue_v2_register_consumer format (cbit c) q = Some (r, q') \<Longrightarrow>
     proto_step format N (view q c F H P) (Some (Ev_register c)) (view q' c F H P)"
  using p_register [of c format "view q c F H P" r q' N] by (simp add: view_upd)

lemma client_unregister:
  "c < 8 \<Longrightarrow> frame_queue_v2_unregister_consumer format (cbit c) q = Some (r, q') \<Longrightarrow>
     proto_step format N (view q c F H P) (Some (Ev_unregister c)) (view q' c F H P)"
  using p_unregister [of c format "view q c F H P" r q' N] by (simp add: view_upd)

lemma client_get:
  assumes "c < 8" and "frame_queue_v2_get_frame [] t0 format (cbit c) timeout q = Some (r, q')"
  shows "proto_step format N (view q c F H P)
     (Some (Ev_get c (case r of Got f \<Rightarrow> f | Waiting \<Rightarrow> None)))
     (view q' c (F \<union> (case r of Got f \<Rightarrow> set_option f | Waiting \<Rightarrow> {})) H P)"
proof (cases "\<exists>f. r = Got (Some f)")
  case True
  then obtain f where r: "r = Got (Some f)" by blast
  with p_get [of c t0 format timeout "view q c F H P" f q' N] assms show ?thesis
    by (simp add: view_def)
next
  case False
  with p_get_none [of c t0 format timeout "view q c F H P" r q' N] assms show ?thesis
    by (cases r) (auto simp: view_upd split: option.splits)
qed

lemma client_release:
  assumes "f \<in> F" and "frame_queue_v2_release_frame format (cbit c) (Some f) q = Some q'"
    and "\<forall>g. (c, g) \<notin> H"
  shows "\<exists>ev. proto_step format N (view q c F H P) (Some ev) (view q' c (F - {f}) H P)"
proof -
  have "(view q c F H P)\<lparr>ps_sys := q', ps_held := ps_held (view q c F H P) - {(c, f)}\<rparr> =
      view q' c (F - {f}) H P"
    using assms(3) by (auto simp: view_def)
  with p_release [of c f "view q c F H P" format q' "frees f (st_log q) < frees f (st_log q')" N]
  show ?thesis using assms(1,2) by auto
qed

text \<open>What the others do is no business of the client: its frames stay its own.\<close>

lemma others_step:
  assumes "proto_step format N \<lparr>ps_sys = q, ps_held = H, ps_prod = P\<rparr> e
      \<lparr>ps_sys = q', ps_held = H', ps_prod = P'\<rparr>"
    and "others_event c e" and "\<forall>g. (c, g) \<notin> H"
  shows "proto_step format N (view q c F H P) e (view q' c F H' P') \<and> (\<forall>g. (c, g) \<notin> H')"
  using assms
proof cases
  case (p_register d r s')
  then show ?thesis
    using assms(3) proto_step.p_register [of d format "view q c F H P" r s' N] by (simp add: view_upd)
next
  case (p_unregister d r s')
  then show ?thesis
    using assms(3) proto_step.p_unregister [of d format "view q c F H P" r s' N] by (simp add: view_upd)
next
  case (p_malloc alloc now sz r s')
  then show ?thesis
    using assms(3) proto_step.p_malloc [of alloc N "view q c F H P" now format sz r s']
    by (simp add: view_upd)
next
  case (p_complete f now now' r s')
  then show ?thesis
    using assms(3) proto_step.p_complete [of f "view q c F H P" now now' format r s' N]
    by (simp add: view_upd)
next
  case (p_cancel f r s')
  then show ?thesis
    using assms(3) proto_step.p_cancel [of f "view q c F H P" format r s' N]
    by (simp add: view_upd)
next
  case (p_get d t0 tm f s')
  with assms(2) have "d \<noteq> c" by (simp add: others_event_def)
  with p_get assms(3) proto_step.p_get [of d t0 format tm "view q c F H P" f s' N] show ?thesis
    by (simp add: view_def)
next
  case (p_get_none d t0 tm r s')
  then show ?thesis
    using assms(3) proto_step.p_get_none [of d t0 format tm "view q c F H P" r s' N]
    by (simp add: view_upd)
next
  case (p_release d f s' freed)
  with assms(2) have "d \<noteq> c" by (simp add: others_event_def)
  then have "(view q c F H P)\<lparr>ps_sys := s', ps_held := ps_held (view q c F H P) - {(d, f)}\<rparr> =
      view s' c F (H - {(d, f)}) P"
    by (auto simp: view_def)
  with p_release assms(3) proto_step.p_release [of d f "view q c F H P" format s' freed N]
  show ?thesis by simp
next
  case (p_clear r s')
  then show ?thesis
    using assms(3) proto_step.p_clear [of "view q c F H P" r s' format N] by (simp add: view_upd)
next
  case (p_other format' call r s')
  then show ?thesis
    using assms(3) proto_step.p_other [of format' format call "view q c F H P" r s' N]
    by (simp add: view_upd)
qed

section \<open>What a client may do with the queue\<close>

lemma consumer_bits [simp]: "CONSUMER_DECODER = cbit 1" "CONSUMER_TRANSMISSION = cbit 0"
  by (simp_all add: CONSUMER_DECODER_def CONSUMER_TRANSMISSION_def cbit_def)

text \<open>
  \<open>queue_use format c q F q' F'\<close>: the calls of consumer \<open>c\<close> that lead from \<open>q\<close> to \<open>q'\<close> are
  registrations, looks for a frame, and releases of frames it has; \<open>F\<close> and \<open>F'\<close> are the
  frames it has before and after.
\<close>

inductive queue_use ::
    "image_format \<Rightarrow> nat \<Rightarrow> fq_state \<Rightarrow> frame_ptr set \<Rightarrow> fq_state \<Rightarrow> frame_ptr set \<Rightarrow> bool"
  for format c where
  use_none: "queue_use format c q F q F"
| use_register:
    "frame_queue_v2_register_consumer format (cbit c) q = Some (r, q') \<Longrightarrow> queue_use format c q F q' F"
| use_unregister:
    "frame_queue_v2_unregister_consumer format (cbit c) q = Some (r, q') \<Longrightarrow> queue_use format c q F q' F"
| use_get:
    "frame_queue_v2_get_frame [] t0 format (cbit c) timeout q = Some (r, q') \<Longrightarrow>
     queue_use format c q F q' (F \<union> (case r of Got f \<Rightarrow> set_option f | Waiting \<Rightarrow> {}))"
| use_release:
    "f \<in> F \<Longrightarrow> frame_queue_v2_release_frame format (cbit c) (Some f) q = Some q' \<Longrightarrow>
     queue_use format c q F q' (F - {f})"
| use_trans:
    "queue_use format c q F q' F' \<Longrightarrow> queue_use format c q' F' q'' F'' \<Longrightarrow> queue_use format c q F q'' F''"

lemma steps_trans:
  "proto_steps format N ps1 es' ps2 \<Longrightarrow> proto_steps format N ps es ps1 \<Longrightarrow>
     proto_steps format N ps (es @ es') ps2"
proof (induction rule: proto_steps.induct)
  case (steps_more es1 psa e psb)
  from proto_steps.steps_more [OF steps_more.IH [OF steps_more.prems] steps_more.hyps(2)]
  show ?case by simp
qed simp

lemma queue_use_steps:
  assumes "queue_use format c q F q' F'" and "c < 8" and "\<forall>g. (c, g) \<notin> H"
  shows "\<exists>es. proto_steps format N (view q c F H P) es (view q' c F' H P)"
  using assms(1)
proof induction
  case (use_none q F)
  show ?case using steps_none by blast
next
  case (use_register q r q' F)
  from steps_one [OF client_register [OF assms(2) this]] show ?case .
next
  case (use_unregister q r q' F)
  from steps_one [OF client_unregister [OF assms(2) this]] show ?case .
next
  case (use_get t0 timeout q r q' F)
  from steps_one [OF client_get [OF assms(2) this]] show ?case .
next
  case (use_release f F q q')
  from client_release [OF this assms(3)] show ?case using steps_one by blast
next
  case (use_trans q F q' F' q'' F'')
  then show ?case using steps_trans by blast
qed

text \<open>The queue hands out no frame that the client already has.\<close>

definition hands_out_new :: "image_format \<Rightarrow> nat \<Rightarrow> fq_state \<Rightarrow> frame_ptr set \<Rightarrow> bool" where
  "hands_out_new format c q F \<longleftrightarrow> (\<forall>t0 timeout f q'.
     frame_queue_v2_get_frame [] t0 format (cbit c) timeout q = Some (Got (Some f), q') \<longrightarrow> f \<notin> F)"

lemma protocol_hands_out_new:
  assumes "proto_run env format i es (view q c F H P)" and "good_boot env"
    and "init_slot format = Some (i, k)" and "c < 8"
  shows "hands_out_new format c q F"
  unfolding hands_out_new_def
proof (intro allI impI)
  fix t0 timeout f q'
  assume "frame_queue_v2_get_frame [] t0 format (cbit c) timeout q = Some (Got (Some f), q')"
  from client_get [OF assms(4) this, of "boot_nodes env i" F H P]
  have "proto_step format (boot_nodes env i) (view q c F H P) (Some (Ev_get c (Some f)))
      (view q' c (F \<union> {f}) H P)" by simp
  from get_new_frame [OF assms(2,3,1) this] show "f \<notin> F" by auto
qed

section \<open>A client among others\<close>

text \<open>
  After start-up the client, in its initial state \<open>s0\<close> on the queues just made, and the others
  take turns. \<open>H\<close> and \<open>P\<close> are the frames the other consumers and the producers have.
\<close>

inductive client_sys ::
    "(image_format \<Rightarrow> init_env) \<Rightarrow> image_format \<Rightarrow> nat \<Rightarrow> nat \<Rightarrow> ('s \<Rightarrow> fq_state) \<Rightarrow> (fq_state \<Rightarrow> 's \<Rightarrow> 's) \<Rightarrow>
      ('s \<Rightarrow> 's \<Rightarrow> bool) \<Rightarrow> 's \<Rightarrow> 's \<Rightarrow> (nat \<times> frame_ptr) set \<Rightarrow> frame_ptr set \<Rightarrow> bool"
  for env format i c queue set_queue step s0 where
  sys_boot:
    "frame_queue_v2_init_all env boot_state = (BK_OK, q) \<Longrightarrow>
     client_sys env format i c queue set_queue step s0 (set_queue q s0) {} {}"
| sys_client:
    "client_sys env format i c queue set_queue step s0 s H P \<Longrightarrow> step s s' \<Longrightarrow>
     client_sys env format i c queue set_queue step s0 s' H P"
| sys_others:
    "client_sys env format i c queue set_queue step s0 s H P \<Longrightarrow>
     proto_step format (boot_nodes env i) \<lparr>ps_sys = queue s, ps_held = H, ps_prod = P\<rparr> e
       \<lparr>ps_sys = q, ps_held = H', ps_prod = P'\<rparr> \<Longrightarrow>
     others_event c e \<Longrightarrow>
     client_sys env format i c queue set_queue step s0 (set_queue q s) H' P'"

locale frame_client =
  fixes format :: image_format and i :: nat and k :: u8 and c :: nat
    and queue :: "'s \<Rightarrow> fq_state" and set_queue :: "fq_state \<Rightarrow> 's \<Rightarrow> 's"
    and own :: "'s \<Rightarrow> frame_ptr set" and step :: "'s \<Rightarrow> 's \<Rightarrow> bool" and good :: "'s \<Rightarrow> bool"
    and s0 :: 's
  assumes slot: "init_slot format = Some (i, k)"
    and queue_set: "queue (set_queue q s) = q"
    and own_set: "own (set_queue q s) = own s"
    and good_set: "good s \<Longrightarrow> good (set_queue q s)"
    and good_start: "good s0"
    and own_start: "own s0 = {}"
    and number: "c < 8"
    and legal: "good s \<Longrightarrow> step s s' \<Longrightarrow> hands_out_new format c (queue s) (own s) \<Longrightarrow>
      good s' \<and> queue_use format c (queue s) (own s) (queue s') (own s')"
begin

lemma sys_follows_protocol:
  assumes "client_sys env format i c queue set_queue step s0 s H P" and "good_boot env"
  shows "good s \<and> (\<forall>g. (c, g) \<notin> H) \<and> (\<exists>es. proto_run env format i es (view (queue s) c (own s) H P))"
  using assms(1)
proof induction
  case (sys_boot q)
  from run_boot [OF sys_boot, of format i] have "proto_run env format i [] (view q c {} {} {})"
    by (simp add: view_def)
  then show ?case
    by (auto simp: queue_set own_set own_start good_set good_start)
next
  case (sys_client s H P s')
  then obtain es where IH: "good s" "\<forall>g. (c, g) \<notin> H"
    and run: "proto_run env format i es (view (queue s) c (own s) H P)" by blast
  from legal [OF IH(1) sys_client.hyps(2) protocol_hands_out_new [OF run assms(2) slot number]]
  have "good s'" and use: "queue_use format c (queue s) (own s) (queue s') (own s')" by auto
  obtain es' where "proto_steps format (boot_nodes env i) (view (queue s) c (own s) H P) es'
      (view (queue s') c (own s') H P)"
    using queue_use_steps [OF use number IH(2)] by blast
  from proto_run_steps [OF this run] \<open>good s'\<close> IH(2) show ?case by blast
next
  case (sys_others s H P e q H' P')
  then obtain es where run: "proto_run env format i es (view (queue s) c (own s) H P)" by blast
  from others_step [OF sys_others.hyps(2,3)] sys_others.IH
  have "proto_step format (boot_nodes env i) (view (queue s) c (own s) H P) e (view q c (own s) H' P')"
    and "\<forall>g. (c, g) \<notin> H'"
    by blast+
  with run_step [OF run this(1)] sys_others.IH show ?case
    by (auto simp: queue_set own_set good_set)
qed

lemma sys_invariant:
  "client_sys env format i c queue set_queue step s0 s H P \<Longrightarrow> good_boot env \<Longrightarrow> good s"
  using sys_follows_protocol by blast

lemma own_frame_safe:
  assumes "client_sys env format i c queue set_queue step s0 s H P" and "good_boot env" and "f \<in> own s"
  shows "f \<notin> P \<and> (\<exists>n \<in> boot_nodes env i. nd_frame (hp_node (st_heap (queue s)) n) = Some f \<and>
    in_use (hp_node (st_heap (queue s)) n) = 0 \<and> 0 < ref_count (hp_node (st_heap (queue s)) n))"
proof -
  obtain es where run: "proto_run env format i es (view (queue s) c (own s) H P)"
    using sys_follows_protocol [OF assms(1,2)] by blast
  have mem: "(c, f) \<in> ps_held (view (queue s) c (own s) H P)" using assms(3) by simp
  obtain st A where sim: "psim (boot_nodes env) i (view (queue s) c (own s) H P) st A"
    and inv: "client_inv st"
    using proto_run_inv [OF run assms(2) slot] .
  have "finite (holders (ps_held (view (queue s) c (own s) H P)) f)"
    using inv_holders(1) [OF inv] sim by (simp add: psim_def)
  moreover have "c \<in> holders (ps_held (view (queue s) c (own s) H P)) f"
    using mem by (simp add: holders_def)
  ultimately have "card (holders (ps_held (view (queue s) c (own s) H P)) f) \<noteq> 0"
    by auto
  with held_in_node [OF assms(2) slot run mem] show ?thesis
    by (auto simp: word_greater_zero_iff)
qed

end

text \<open>Others playing an event on the queue whose abstract state is known.\<close>

lemma client_sys_others:
  assumes "client_sys env format i c queue set_queue step s0 s {} (set P)"
    and "fq_rep (boot_nodes env) (queue s) A"
    and "play1 format i ev (A, [], P) = Some (A', [], P')" and "by_consumer ev \<noteq> Some c" and "i < 3"
  shows "\<exists>q. client_sys env format i c queue set_queue step s0 (set_queue q s) {} (set P') \<and>
    fq_rep (boot_nodes env) q A'"
proof -
  let ?ps = "\<lparr>ps_sys = queue s, ps_held = {}, ps_prod = set P\<rparr>"
  have "playing (boot_nodes env) ?ps (A, [], P)"
    using assms(2) by (simp add: playing_def)
  from play1_step [OF assms(3) this assms(5)] obtain ps' where
    step: "proto_step format (boot_nodes env i) ?ps (Some ev) ps'"
    and "playing (boot_nodes env) ps' (A', [], P')"
    by auto
  then obtain q where ps': "ps' = \<lparr>ps_sys = q, ps_held = {}, ps_prod = set P'\<rparr>"
    and rep: "fq_rep (boot_nodes env) q A'"
    by (cases ps') (simp add: playing_def)
  have "client_sys env format i c queue set_queue step s0 (set_queue q s) {} (set P')"
    by (rule sys_others [where queue = queue and set_queue = set_queue and H = "{}" and P = "set P"])
      (use step assms(1,4) ps' in \<open>auto simp: others_event_def\<close>)
  with rep show ?thesis by blast
qed

end
