(* ===== verification/Yuv_Display_Safety.thy ===== *)
theory Yuv_Display_Safety
  imports Yuv_Display Frame_Client
begin

text \<open>
  What the direct display guarantees. Its invariant \<open>yuv_inv\<close> has three parts: no frame is held
  twice, the output buffers in use are live, and the states of task, caller, message queue,
  semaphore and rotation engine fit together. The display is a client of the YUV queue
  (interpretation \<open>yuv\<close> of \<open>frame_client\<close>) as long as the steps are \<open>yuv_calm\<close>: the display
  takes the frames it is given without rotation, and the task is not stopped while the engine
  is rotating. Both exceptions are behaviours of the code that lose the guarantee.
\<close>

section \<open>The frames and buffers in use\<close>

fun olist :: "'x option \<Rightarrow> 'x list" where
  "olist None = []"
| "olist (Some x) = [x]"

lemma set_olist [simp]: "set (olist x) = set_option x"
  by (cases x) auto

lemma distinct_olist [simp]: "distinct (olist x)"
  by (cases x) auto

fun task_frame :: "yuv_task_pc \<Rightarrow> frame_ptr option" where
  "task_frame (Task_top p) = p"
| "task_frame (Task_get p) = p"
| "task_frame (Task_process f) = Some f"
| "task_frame (Task_failed f) = Some f"
| "task_frame (Task_exit p) = p"
| "task_frame pc = None"

fun ctl_frame :: "yuv_ctl_pc \<Rightarrow> frame_ptr option" where
  "ctl_frame (Ctl_release f) = Some f"
| "ctl_frame pc = None"

text \<open>What the display shows: buffers of the queue, or rotated ones.\<close>

definition shown :: "bool \<Rightarrow> (frame_ptr \<times> bool) list \<Rightarrow> frame_ptr list" where
  "shown b xs = map fst (filter (\<lambda>x. snd x = b) xs)"

lemma shown_simps [simp]:
  "shown b [] = []"
  "shown b ((f, b') # xs) = (if b' = b then f # shown b xs else shown b xs)"
  "shown b (xs @ ys) = shown b xs @ shown b ys"
  by (simp_all add: shown_def)

lemma set_shown: "f \<in> set (shown b xs) \<longleftrightarrow> (f, b) \<in> set xs"
  by (force simp: shown_def)

lemma shown_remove1 [simp]:
  "shown b (remove1 (f, b') xs) = (if b' = b then remove1 f (shown b xs) else shown b xs)"
  by (induction xs) (auto split: if_splits)

text \<open>The frames of the queue that task, caller and display have; the output buffers in use.\<close>

definition yuv_frames :: "yuv_state \<Rightarrow> frame_ptr list" where
  "yuv_frames s = olist (task_frame (yv_task s)) @ olist (ctl_frame (yv_ctl s)) @
     shown False (yv_shown s)"

definition yuv_own :: "yuv_state \<Rightarrow> frame_ptr set" where
  "yuv_own s = set (yuv_frames s)"

definition output_of :: "yuv_display_task_t option \<Rightarrow> frame_ptr option" where
  "output_of d = (case d of None \<Rightarrow> None | Some t \<Rightarrow> rotate_output_frame t)"

definition yuv_outputs :: "yuv_state \<Rightarrow> frame_ptr list" where
  "yuv_outputs s = olist (output_of (s_yuv_display s)) @ shown True (yv_shown s)"

definition outputs_inv :: "yuv_state \<Rightarrow> bool" where
  "outputs_inv s \<longleftrightarrow> distinct (yuv_outputs s) \<and> distinct (yv_live s) \<and> set (yuv_outputs s) \<subseteq> set (yv_live s)"

section \<open>How task, caller and hardware fit together\<close>

fun alive :: "yuv_task_pc \<Rightarrow> bool" where
  "alive (Task_top p) = True"
| "alive (Task_get p) = True"
| "alive (Task_process f) = True"
| "alive (Task_failed f) = True"
| "alive pc = False"

text \<open>The frame for whose rotation the task waits.\<close>

fun waiting_for :: "yuv_task_pc \<Rightarrow> frame_ptr option" where
  "waiting_for (Task_top p) = p"
| "waiting_for (Task_get p) = p"
| "waiting_for (Task_exit p) = p"
| "waiting_for pc = None"

definition count_msg :: "yuv_display_event_t \<Rightarrow> yuv_display_event_t list \<Rightarrow> nat" where
  "count_msg ev q = length (filter (\<lambda>e. e = ev) q)"

lemma count_msg_simps [simp]:
  "count_msg ev [] = 0"
  "count_msg ev (e # q) = (if e = ev then Suc (count_msg ev q) else count_msg ev q)"
  "count_msg ev (q @ q') = count_msg ev q + count_msg ev q'"
  by (simp_all add: count_msg_def)

lemma length_msgs:
  "YUV_DISPLAY_EVENT_START \<notin> set q \<Longrightarrow>
     length q = count_msg YUV_DISPLAY_EVENT_STOP q + count_msg YUV_DISPLAY_EVENT_FRAME_READY q"
proof (induction q)
  case (Cons m ms)
  then show ?case by (cases m) auto
qed simp

text \<open>
  What caller, task, \<^verbatim>\<open>task_running\<close>, the semaphore's tokens and the number of stop messages can be
  together.
\<close>

inductive ctl_ok :: "yuv_ctl_pc \<Rightarrow> yuv_task_pc \<Rightarrow> bool \<Rightarrow> nat \<Rightarrow> nat \<Rightarrow> bool" where
  ok_idle: "alive pc \<Longrightarrow> ctl_ok Ctl_idle pc True 0 0"
| ok_created: "ctl_ok Ctl_open_wait Task_created False 0 0"
| ok_opened: "alive pc \<Longrightarrow> ctl_ok Ctl_open_wait pc True 1 0"
| ok_stop: "alive pc \<Longrightarrow> ctl_ok Ctl_stop pc True 0 0"
| ok_stopping: "alive pc \<Longrightarrow> ctl_ok Ctl_close_wait pc True 0 1"
| ok_exiting: "ctl_ok Ctl_close_wait (Task_exit p) True 0 0"
| ok_exited: "ctl_ok Ctl_close_wait Task_none False 1 0"
| ok_drain: "ctl_ok Ctl_drain Task_none False 0 0"
| ok_release: "ctl_ok (Ctl_release f) Task_none False 0 0"
| ok_cleanup: "ctl_ok Ctl_cleanup Task_none False 0 0"

inductive_simps ctl_ok_ctl:
  "ctl_ok Ctl_idle pc running n stops" "ctl_ok Ctl_open_wait pc running n stops"
  "ctl_ok Ctl_stop pc running n stops" "ctl_ok Ctl_close_wait pc running n stops"
  "ctl_ok Ctl_drain pc running n stops" "ctl_ok (Ctl_release f) pc running n stops"
  "ctl_ok Ctl_cleanup pc running n stops"

inductive_cases ctl_ok_createdE: "ctl_ok ctl Task_created running n stops"
inductive_cases ctl_ok_exitE: "ctl_ok ctl (Task_exit p) running n stops"

lemma ctl_ok_alive:
  "ctl_ok ctl pc running n stops \<Longrightarrow> alive pc \<Longrightarrow> alive pc' \<Longrightarrow> ctl_ok ctl pc' running n stops"
  by (induction rule: ctl_ok.induct) (auto simp: ctl_ok_ctl)

definition rot_ok ::
    "yuv_task_pc \<Rightarrow> yuv_display_task_t \<Rightarrow> nat \<Rightarrow> (frame_ptr \<times> frame_ptr) option \<Rightarrow> bool" where
  "rot_ok pc t readies rot \<longleftrightarrow> readies \<le> 1 \<and>
     (case waiting_for pc of
        None \<Rightarrow> rot = None \<and> (pc \<noteq> Task_none \<longrightarrow> readies = 0)
      | Some f \<Rightarrow> hw_rotation t \<and> (\<exists>g. rotate_output_frame t = Some g \<and>
          (rot = Some (f, g) \<and> readies = 0 \<or> rot = None \<and> readies = 1)))"

definition phase_inv :: "yuv_state \<Rightarrow> bool" where
  "phase_inv s \<longleftrightarrow>
     (case s_yuv_display s of
        None \<Rightarrow> yv_task s = Task_none \<and> yv_ctl s = Ctl_idle \<and> yv_rot s = None
      | Some t \<Rightarrow> (\<exists>q n. yt_queue t = Some q \<and> yt_sem t = Some n \<and> YUV_DISPLAY_EVENT_START \<notin> set q \<and>
          ctl_ok (yv_ctl s) (yv_task s) (task_running t) n (count_msg YUV_DISPLAY_EVENT_STOP q) \<and>
          rot_ok (yv_task s) t (count_msg YUV_DISPLAY_EVENT_FRAME_READY q) (yv_rot s)))"

definition yuv_inv :: "yuv_state \<Rightarrow> bool" where
  "yuv_inv s \<longleftrightarrow> distinct (yuv_frames s) \<and> outputs_inv s \<and> phase_inv s"

text \<open>
  The steps for which the guarantees hold. The allocator returns no buffer that is still live.
\<close>

definition yuv_calm :: "yuv_action \<Rightarrow> yuv_state \<Rightarrow> bool" where
  "yuv_calm a s \<longleftrightarrow>
     (case a of
        Do_task env \<Rightarrow>
          (case s_yuv_display s of
             None \<Rightarrow> True
           | Some t \<Rightarrow>
               (case yv_task s of
                  Task_process f \<Rightarrow> hw_rotation t \<or> display_handle t = None \<or> te_flush env = BK_OK
                | Task_exit p \<Rightarrow> yv_rot s = None
                | _ \<Rightarrow> True)) \<and>
          (case te_alloc env of None \<Rightarrow> True | Some g \<Rightarrow> g \<notin> set (yv_live s))
      | _ \<Rightarrow> True)"

definition yuv_step :: "yuv_state \<Rightarrow> yuv_state \<Rightarrow> bool" where
  "yuv_step s s' \<longleftrightarrow> (\<exists>a. yuv_calm a s \<and> yuv_exec a s = Some s')"

section \<open>Every calm step keeps the invariant and the protocol\<close>

lemma hw_rotation_upd [simp]:
  "hw_rotation (t\<lparr>yt_queue := x\<rparr>) = hw_rotation t"
  "hw_rotation (t\<lparr>yt_sem := y\<rparr>) = hw_rotation t"
  "hw_rotation (t\<lparr>task_running := b\<rparr>) = hw_rotation t"
  "hw_rotation (t\<lparr>rotate_output_frame := g\<rparr>) = hw_rotation t"
  by (simp_all add: hw_rotation_def)

lemma rot_ok_upd [simp]:
  "rot_ok pc (t\<lparr>yt_queue := x\<rparr>) r rot = rot_ok pc t r rot"
  "rot_ok pc (t\<lparr>yt_sem := y\<rparr>) r rot = rot_ok pc t r rot"
  "rot_ok pc (t\<lparr>task_running := b\<rparr>) r rot = rot_ok pc t r rot"
  by (simp_all add: rot_ok_def split: option.splits)

abbreviation yuv_use :: "yuv_state \<Rightarrow> yuv_state \<Rightarrow> bool" where
  "yuv_use s s' \<equiv> queue_use IMAGE_YUV 1 (yv_fq s) (yuv_own s) (yv_fq s') (yuv_own s')"

lemma release_yuvE:
  assumes "release_yuv (Some f) s = Some s'"
  obtains q where "s' = s\<lparr>yv_fq := q\<rparr>"
    and "\<And>F. f \<in> F \<Longrightarrow> queue_use IMAGE_YUV 1 (yv_fq s) F q (F - {f})"
  using assms use_release [of f _ IMAGE_YUV 1 "yv_fq s"] by (auto simp: release_yuv_def)

lemma yuv_lookE:
  assumes "yuv_look ms s = Some (r, s')"
  obtains q where "s' = s\<lparr>yv_fq := q\<rparr>"
    and "\<And>F. queue_use IMAGE_YUV 1 (yv_fq s) F q (F \<union> set_option r)"
    and "\<And>F f. hands_out_new IMAGE_YUV 1 (yv_fq s) F \<Longrightarrow> r = Some f \<Longrightarrow> f \<notin> F"
proof -
  from assms obtain g q where get: "frame_queue_v2_get_frame [] 0 IMAGE_YUV (cbit 1) (Wait_ms ms) (yv_fq s) =
      Some (g, q)" and r: "r = (case g of Got f \<Rightarrow> f | Waiting \<Rightarrow> None)" and s': "s' = s\<lparr>yv_fq := q\<rparr>"
    by (auto simp: yuv_look_def split: Option.bind_splits)
  show ?thesis
  proof (rule that [OF s'])
    show "queue_use IMAGE_YUV 1 (yv_fq s) F q (F \<union> set_option r)" for F
      using use_get [OF get, of F] by (cases g) (simp_all add: r)
    show "f \<notin> F" if "hands_out_new IMAGE_YUV 1 (yv_fq s) F" "r = Some f" for F f
      using that get by (cases g) (auto simp: hands_out_new_def r)
  qed
qed

lemma yuv_invD:
  assumes "yuv_inv s"
  shows "distinct (yuv_frames s)" "outputs_inv s" "phase_inv s"
  using assms by (simp_all add: yuv_inv_def)

lemmas yuv_parts = yuv_frames_def yuv_own_def yuv_outputs_def output_of_def

lemma phase_invE:
  assumes "phase_inv s" and "s_yuv_display s = Some t"
  obtains q n where "yt_queue t = Some q" and "yt_sem t = Some n"
    and "YUV_DISPLAY_EVENT_START \<notin> set q"
    and "ctl_ok (yv_ctl s) (yv_task s) (task_running t) n (count_msg YUV_DISPLAY_EVENT_STOP q)"
    and "rot_ok (yv_task s) t (count_msg YUV_DISPLAY_EVENT_FRAME_READY q) (yv_rot s)"
  using assms by (auto simp: phase_inv_def)

lemma phase_invI:
  assumes "s_yuv_display s = Some t" and "yt_queue t = Some q" and "yt_sem t = Some n"
    and "YUV_DISPLAY_EVENT_START \<notin> set q"
    and "ctl_ok (yv_ctl s) (yv_task s) (task_running t) n (count_msg YUV_DISPLAY_EVENT_STOP q)"
    and "rot_ok (yv_task s) t (count_msg YUV_DISPLAY_EVENT_FRAME_READY q) (yv_rot s)"
  shows "phase_inv s"
  using assms by (simp add: phase_inv_def)

lemma phase_same:
  "s_yuv_display s' = s_yuv_display s \<Longrightarrow> yv_task s' = yv_task s \<Longrightarrow> yv_ctl s' = yv_ctl s \<Longrightarrow>
     yv_rot s' = yv_rot s \<Longrightarrow> phase_inv s \<Longrightarrow> phase_inv s'"
  by (simp add: phase_inv_def cong: option.case_cong)

lemma outputs_same:
  "yuv_outputs s' = yuv_outputs s \<Longrightarrow> yv_live s' = yv_live s \<Longrightarrow> outputs_inv s \<Longrightarrow> outputs_inv s'"
  by (simp add: outputs_inv_def)

lemma yuv_log_simps [simp]:
  "yv_fq (yuv_log cs s) = yv_fq s" "s_yuv_display (yuv_log cs s) = s_yuv_display s"
  "yv_task (yuv_log cs s) = yv_task s" "yv_ctl (yuv_log cs s) = yv_ctl s"
  "yv_rot (yuv_log cs s) = yv_rot s" "yv_shown (yuv_log cs s) = yv_shown s"
  "yv_live (yuv_log cs s) = yv_live s"
  by (simp_all add: yuv_log_def)

lemma rotate_free_simps [simp]:
  "yv_fq (yuv_display_rotate_frame_free_cb g s) = yv_fq s"
  "s_yuv_display (yuv_display_rotate_frame_free_cb g s) = s_yuv_display s"
  "yv_task (yuv_display_rotate_frame_free_cb g s) = yv_task s"
  "yv_ctl (yuv_display_rotate_frame_free_cb g s) = yv_ctl s"
  "yv_rot (yuv_display_rotate_frame_free_cb g s) = yv_rot s"
  "yv_shown (yuv_display_rotate_frame_free_cb g s) = yv_shown s"
  "yv_live (yuv_display_rotate_frame_free_cb g s) =
     (case g of None \<Rightarrow> yv_live s | Some f \<Rightarrow> remove1 f (yv_live s))"
  by (simp_all add: yuv_display_rotate_frame_free_cb_def yuv_log_def split: option.splits)

subsection \<open>The task's steps\<close>

lemma task_created_ok:
  assumes "yuv_inv s" and "s_yuv_display s = Some t" and "yv_task s = Task_created"
    and "yuv_display_task_step env s = Some s'"
  shows "yuv_inv s' \<and> yuv_use s s'"
proof -
  let ?t = "set_sem (t\<lparr>task_running := True\<rparr>)"
  have s': "s' = s\<lparr>s_yuv_display := Some ?t, yv_task := Task_top None\<rparr>"
    using assms(2-) by (simp add: yuv_display_task_step_def)
  have same: "yuv_frames s' = yuv_frames s" "yuv_outputs s' = yuv_outputs s" "yv_live s' = yv_live s"
    using assms(2,3) by (simp_all add: s' yuv_parts set_sem_def)
  from phase_invE [OF yuv_invD(3) [OF assms(1)] assms(2)] obtain q n where
    t: "yt_queue t = Some q" "yt_sem t = Some n" "YUV_DISPLAY_EVENT_START \<notin> set q"
    and ctl: "ctl_ok (yv_ctl s) Task_created (task_running t) n (count_msg YUV_DISPLAY_EVENT_STOP q)"
    and rot: "rot_ok Task_created t (count_msg YUV_DISPLAY_EVENT_FRAME_READY q) (yv_rot s)"
    unfolding assms(3) .
  have "phase_inv s'"
  proof (rule phase_invI)
    show "s_yuv_display s' = Some ?t" "yt_queue ?t = Some q" "yt_sem ?t = Some 1"
      using t by (simp_all add: s' set_sem_def)
    show "rot_ok (yv_task s') ?t (count_msg YUV_DISPLAY_EVENT_FRAME_READY q) (yv_rot s')"
      using rot by (simp add: s' rot_ok_def)
    show "ctl_ok (yv_ctl s') (yv_task s') (task_running ?t) 1 (count_msg YUV_DISPLAY_EVENT_STOP q)"
      using ctl by (rule ctl_ok_createdE) (simp add: s' set_sem_def ctl_ok_ctl)
  qed (use t in simp)
  with same yuv_invD(1,2) [OF assms(1)] show ?thesis
    using outputs_same [OF same(2,3)] by (simp add: yuv_inv_def yuv_own_def use_none s')
qed

lemma task_failed_ok:
  assumes "yuv_inv s" and "s_yuv_display s = Some t" and "yv_task s = Task_failed f"
    and "yuv_display_task_step env s = Some s'"
  shows "yuv_inv s' \<and> yuv_use s s'"
proof -
  from assms(2-) obtain s1 where "release_yuv (Some f) s = Some s1" and s': "s' = s1\<lparr>yv_task := Task_top None\<rparr>"
    by (auto simp: yuv_display_task_step_def split: Option.bind_splits)
  then obtain q where q: "s' = s\<lparr>yv_fq := q, yv_task := Task_top None\<rparr>"
    and use: "\<And>F. f \<in> F \<Longrightarrow> queue_use IMAGE_YUV 1 (yv_fq s) F q (F - {f})"
    by (auto elim: release_yuvE)
  have own: "yuv_own s' = yuv_own s - {f}" "f \<in> yuv_own s" "distinct (yuv_frames s')"
    using yuv_invD(1) [OF assms(1)] assms(3) by (auto simp: q yuv_frames_def yuv_own_def)
  have same: "yuv_outputs s' = yuv_outputs s" "yv_live s' = yv_live s"
    by (simp_all add: q yuv_outputs_def)
  from phase_invE [OF yuv_invD(3) [OF assms(1)] assms(2)] obtain ms n where
    t: "yt_queue t = Some ms" "yt_sem t = Some n" "YUV_DISPLAY_EVENT_START \<notin> set ms"
    and ctl: "ctl_ok (yv_ctl s) (Task_failed f) (task_running t) n (count_msg YUV_DISPLAY_EVENT_STOP ms)"
    and rot: "rot_ok (Task_failed f) t (count_msg YUV_DISPLAY_EVENT_FRAME_READY ms) (yv_rot s)"
    unfolding assms(3) .
  have "phase_inv s'"
    by (rule phase_invI [OF _ t]) (use assms(2) rot ctl_ok_alive [OF ctl] in \<open>auto simp: q rot_ok_def\<close>)
  with own use outputs_same [OF same yuv_invD(2) [OF assms(1)]] show ?thesis
    by (simp add: yuv_inv_def q)
qed

lemma task_get_ok:
  assumes "yuv_inv s" and "s_yuv_display s = Some t" and "yv_task s = Task_get p"
    and "yuv_display_task_step env s = Some s'"
    and "hands_out_new IMAGE_YUV 1 (yv_fq s) (yuv_own s)"
  shows "yuv_inv s' \<and> yuv_use s s'"
proof -
  from phase_invE [OF yuv_invD(3) [OF assms(1)] assms(2)] obtain ms n where
    t: "yt_queue t = Some ms" "yt_sem t = Some n" "YUV_DISPLAY_EVENT_START \<notin> set ms"
    and ctl: "ctl_ok (yv_ctl s) (Task_get p) (task_running t) n (count_msg YUV_DISPLAY_EVENT_STOP ms)"
    and rot: "rot_ok (Task_get p) t (count_msg YUV_DISPLAY_EVENT_FRAME_READY ms) (yv_rot s)"
    unfolding assms(3) .
  show ?thesis
  proof (cases p)
    case None
    with assms(2-4) obtain r s1 where "yuv_look 10 s = Some (r, s1)"
      and s': "s' = s1\<lparr>yv_task := (case r of Some f \<Rightarrow> Task_process f
          | None \<Rightarrow> if te_timeout env then Task_top None else Task_get None)\<rparr>"
      by (auto simp: yuv_display_task_step_def split: Option.bind_splits)
    from this(1) obtain q where q: "s1 = s\<lparr>yv_fq := q\<rparr>"
      and use: "\<And>F. queue_use IMAGE_YUV 1 (yv_fq s) F q (F \<union> set_option r)"
      and new: "\<And>f. r = Some f \<Longrightarrow> f \<notin> yuv_own s"
      using yuv_lookE [of 10 s r s1] assms(5) by metis
    have own: "yuv_own s' = yuv_own s \<union> set_option r" "distinct (yuv_frames s')"
      using assms(3) new yuv_invD(1) [OF assms(1)]
      by (auto simp: s' q yuv_frames_def yuv_own_def None split: option.splits)
    have same: "yuv_outputs s' = yuv_outputs s" "yv_live s' = yv_live s"
      by (simp_all add: s' q yuv_outputs_def)
    have "phase_inv s'"
      by (rule phase_invI [OF _ t])
        (use assms(2) rot ctl_ok_alive [OF ctl] in \<open>auto simp: s' q rot_ok_def None split: option.splits\<close>)
    with own use outputs_same [OF same yuv_invD(2) [OF assms(1)]] show ?thesis
      by (simp add: yuv_inv_def s' q)
  next
    case (Some f)
    with assms(2-4) have s': "s' = s\<lparr>yv_task := Task_top (Some f)\<rparr>"
      by (simp add: yuv_display_task_step_def)
    have same: "yuv_frames s' = yuv_frames s" "yuv_outputs s' = yuv_outputs s" "yv_live s' = yv_live s"
      using assms(3) by (simp_all add: s' yuv_parts Some)
    have "phase_inv s'"
      by (rule phase_invI [OF _ t])
        (use assms(2) rot ctl_ok_alive [OF ctl] in \<open>auto simp: s' rot_ok_def Some\<close>)
    with same yuv_invD(1,2) [OF assms(1)] show ?thesis
      using outputs_same [OF same(2,3)] by (simp add: yuv_inv_def yuv_own_def use_none s')
  qed
qed

text \<open>Releasing the frame the task waits for, if it waits for one.\<close>

lemma release_optE:
  assumes "(case p of None \<Rightarrow> Some s | Some f \<Rightarrow> release_yuv (Some f) s) = Some s'"
    and "set_option p \<subseteq> F"
  obtains q where "s' = s\<lparr>yv_fq := q\<rparr>" and "queue_use IMAGE_YUV 1 (yv_fq s) F q (F - set_option p)"
proof (cases p)
  case None
  with assms that [of "yv_fq s"] show ?thesis by (simp add: use_none)
next
  case (Some f)
  with assms that show ?thesis by (auto elim!: release_yuvE)
qed

lemma task_exit_ok:
  assumes "yuv_inv s" and "s_yuv_display s = Some t" and "yv_task s = Task_exit p"
    and "yuv_display_task_step env s = Some s'" and "yv_rot s = None"
  shows "yuv_inv s' \<and> yuv_use s s'"
proof -
  let ?t = "set_sem (t\<lparr>rotate_output_frame := None, task_running := False\<rparr>)"
  from assms(2-4) obtain s1 where
    1: "(case p of None \<Rightarrow> Some s | Some f \<Rightarrow> release_yuv (Some f) s) = Some s1"
    and s': "s' = yuv_log [Thread_delete] ((yuv_display_rotate_frame_free_cb (rotate_output_frame t) s1)
        \<lparr>s_yuv_display := Some ?t, yv_task := Task_none\<rparr>)"
    by (auto simp: yuv_display_task_step_def Let_def split: Option.bind_splits)
  have "set_option p \<subseteq> yuv_own s" using assms(3) by (auto simp: yuv_parts)
  from release_optE [OF 1 this] obtain q where q: "s1 = s\<lparr>yv_fq := q\<rparr>"
    and use: "queue_use IMAGE_YUV 1 (yv_fq s) (yuv_own s) q (yuv_own s - set_option p)" .
  have own: "yuv_own s' = yuv_own s - set_option p" "distinct (yuv_frames s')"
    using yuv_invD(1) [OF assms(1)] assms(3) by (auto simp: s' q yuv_frames_def yuv_own_def)
  have "outputs_inv s'"
    using yuv_invD(2) [OF assms(1)] assms(2)
    by (cases "rotate_output_frame t")
      (auto simp: s' q outputs_inv_def yuv_outputs_def output_of_def set_sem_def)
  from phase_invE [OF yuv_invD(3) [OF assms(1)] assms(2)] obtain ms n where
    t: "yt_queue t = Some ms" "yt_sem t = Some n" "YUV_DISPLAY_EVENT_START \<notin> set ms"
    and ctl: "ctl_ok (yv_ctl s) (Task_exit p) (task_running t) n (count_msg YUV_DISPLAY_EVENT_STOP ms)"
    and rot: "rot_ok (Task_exit p) t (count_msg YUV_DISPLAY_EVENT_FRAME_READY ms) (yv_rot s)"
    unfolding assms(3) .
  have "phase_inv s'"
  proof (rule phase_invI)
    show "s_yuv_display s' = Some ?t" "yt_queue ?t = Some ms" "yt_sem ?t = Some 1"
      using t by (simp_all add: s' set_sem_def)
    show "rot_ok (yv_task s') ?t (count_msg YUV_DISPLAY_EVENT_FRAME_READY ms) (yv_rot s')"
      using rot assms(5) by (simp add: s' q rot_ok_def)
    show "ctl_ok (yv_ctl s') (yv_task s') (task_running ?t) 1 (count_msg YUV_DISPLAY_EVENT_STOP ms)"
      using ctl by (rule ctl_ok_exitE) (simp_all add: s' q set_sem_def ctl_ok_ctl)
  qed (use t in simp)
  with own use \<open>outputs_inv s'\<close> show ?thesis by (simp add: yuv_inv_def s' q)
qed

text \<open>
  Taking a buffer out of use: \<open>outputs_inv\<close> for the state after the task's output buffer \<open>g\<close>
  was handed to the display, or was freed.
\<close>

lemma outputs_moved:
  assumes "outputs_inv s" and "output_of (s_yuv_display s) = Some g" and "output_of (s_yuv_display s') = None"
    and "yv_live s' = yv_live s \<and> yv_shown s' = yv_shown s @ [(g, True)] \<or>
      yv_live s' = remove1 g (yv_live s) \<and> yv_shown s' = yv_shown s"
  shows "outputs_inv s'"
  using assms by (auto simp: outputs_inv_def yuv_outputs_def)

lemma rotation_completeE:
  assumes "yuv_display_rotation_complete env (Some f) s = Some (ret, s')"
    and "s_yuv_display s = Some t" and "rotate_output_frame t = Some g" and "f \<in> F"
  obtains q where "yv_fq s' = q" and "queue_use IMAGE_YUV 1 (yv_fq s) F q (F - {f})"
    and "s_yuv_display s' = Some (t\<lparr>rotate_output_frame := None\<rparr>)"
    and "yv_ctl s' = yv_ctl s" and "yv_rot s' = yv_rot s"
    and "yv_live s' = yv_live s \<and> yv_shown s' = yv_shown s @ [(g, True)] \<or>
      yv_live s' = remove1 g (yv_live s) \<and> yv_shown s' = yv_shown s"
proof -
  from assms(1-3) obtain s1 where 1: "release_yuv (Some f) s = Some s1"
    by (auto simp: yuv_display_rotation_complete_def split: Option.bind_splits)
  from release_yuvE [OF 1] obtain q where q: "s1 = s\<lparr>yv_fq := q\<rparr>"
    and use: "\<And>F. f \<in> F \<Longrightarrow> queue_use IMAGE_YUV 1 (yv_fq s) F q (F - {f})" by blast
  have eq: "(case display_handle t of
      Some d \<Rightarrow>
        (let ret = te_flush env; s = display_flush ret d g True s1;
             s = (if ret \<noteq> BK_OK then yuv_display_rotate_frame_free_cb (Some g) s else s)
         in (ret, s\<lparr>s_yuv_display := Some (t\<lparr>rotate_output_frame := None\<rparr>)\<rparr>))
    | None \<Rightarrow> (BK_OK, (yuv_display_rotate_frame_free_cb (Some g) s1)
        \<lparr>s_yuv_display := Some (t\<lparr>rotate_output_frame := None\<rparr>)\<rparr>)) = (ret, s')"
    using assms(1-3) 1 by (auto simp: yuv_display_rotation_complete_def Let_def split: option.splits)
  show ?thesis
    by (rule that [OF _ use [OF assms(4)]])
      (use eq q in \<open>auto simp: display_flush_def Let_def split: option.splits if_splits\<close>)
qed

text \<open>The task at the head of its loop runs, and its queue holds what the phase allows.\<close>

lemma phase_topE:
  assumes "yuv_inv s" and "s_yuv_display s = Some t" and "yv_task s = Task_top p" and "yt_queue t = Some ms"
  obtains n where "yt_sem t = Some n" and "YUV_DISPLAY_EVENT_START \<notin> set ms" and "task_running t"
    and "ctl_ok (yv_ctl s) (Task_top p) (task_running t) n (count_msg YUV_DISPLAY_EVENT_STOP ms)"
    and "rot_ok (Task_top p) t (count_msg YUV_DISPLAY_EVENT_FRAME_READY ms) (yv_rot s)"
proof (rule phase_invE [OF yuv_invD(3) [OF assms(1)] assms(2)], unfold assms(3))
  fix ms' n
  assume "yt_queue t = Some ms'" "yt_sem t = Some n" "YUV_DISPLAY_EVENT_START \<notin> set ms'"
    and ctl: "ctl_ok (yv_ctl s) (Task_top p) (task_running t) n (count_msg YUV_DISPLAY_EVENT_STOP ms')"
    and "rot_ok (Task_top p) t (count_msg YUV_DISPLAY_EVENT_FRAME_READY ms') (yv_rot s)"
  moreover have "task_running t" using ctl by cases simp_all
  ultimately show thesis using that assms(4) by simp
qed

lemma task_pop_none:
  assumes "yuv_inv s" and "s_yuv_display s = Some t" and "yv_task s = Task_top p"
    and "yuv_display_task_step env s = Some s'" and queue: "yt_queue t = Some []"
  shows "yuv_inv s' \<and> yuv_use s s'"
proof -
  from phase_topE [OF assms(1-3) queue] obtain n where sem: "yt_sem t = Some n"
    and fresh: "YUV_DISPLAY_EVENT_START \<notin> set []" and run: "task_running t"
    and ctl: "ctl_ok (yv_ctl s) (Task_top p) (task_running t) n (count_msg YUV_DISPLAY_EVENT_STOP [])"
    and rot: "rot_ok (Task_top p) t (count_msg YUV_DISPLAY_EVENT_FRAME_READY []) (yv_rot s)" .
  note t = queue sem fresh
  from assms(2-4) t run have s': "s' = s\<lparr>yv_task := Task_get p\<rparr>"
    by (simp add: yuv_display_task_step_def yuv_pop_def)
  have same: "yuv_frames s' = yuv_frames s" "yuv_outputs s' = yuv_outputs s" "yv_live s' = yv_live s"
    using assms(3) by (simp_all add: s' yuv_parts)
  have "phase_inv s'"
    by (rule phase_invI [OF _ t])
      (use assms(2) rot ctl_ok_alive [OF ctl] in \<open>auto simp: s' rot_ok_def split: option.splits\<close>)
  with same yuv_invD(1,2) [OF assms(1)] show ?thesis
    using outputs_same [OF same(2,3)] by (simp add: yuv_inv_def yuv_own_def use_none s')
qed

lemma task_pop_stop:
  assumes "yuv_inv s" and "s_yuv_display s = Some t" and "yv_task s = Task_top p"
    and "yuv_display_task_step env s = Some s'" and queue: "yt_queue t = Some (YUV_DISPLAY_EVENT_STOP # q)"
  shows "yuv_inv s' \<and> yuv_use s s'"
proof -
  from phase_topE [OF assms(1-3) queue] obtain n where sem: "yt_sem t = Some n"
    and fresh: "YUV_DISPLAY_EVENT_START \<notin> set (YUV_DISPLAY_EVENT_STOP # q)" and run: "task_running t"
    and ctl: "ctl_ok (yv_ctl s) (Task_top p) (task_running t) n (count_msg YUV_DISPLAY_EVENT_STOP (YUV_DISPLAY_EVENT_STOP # q))"
    and rot: "rot_ok (Task_top p) t (count_msg YUV_DISPLAY_EVENT_FRAME_READY (YUV_DISPLAY_EVENT_STOP # q)) (yv_rot s)" .
  note t = queue sem fresh
  let ?t = "t\<lparr>yt_queue := Some q\<rparr>"
  have t': "yt_queue ?t = Some q" "yt_sem ?t = Some n" "YUV_DISPLAY_EVENT_START \<notin> set q"
    using t by simp_all
  from assms(2-4) t run have s': "s' = s\<lparr>s_yuv_display := Some ?t, yv_task := Task_exit p\<rparr>"
    by (simp add: yuv_display_task_step_def yuv_pop_def Let_def)
  have same: "yuv_frames s' = yuv_frames s" "yuv_outputs s' = yuv_outputs s" "yv_live s' = yv_live s"
    using assms(2,3) by (simp_all add: s' yuv_parts)
  have "ctl_ok (yv_ctl s) (Task_exit p) (task_running t) n (count_msg YUV_DISPLAY_EVENT_STOP q)"
    using ctl by (auto elim!: ctl_ok.cases simp: ctl_ok_ctl)
  then have "phase_inv s'"
    by (intro phase_invI [OF _ t'])
      (use rot in \<open>auto simp: s' rot_ok_def split: option.splits\<close>)
  with same yuv_invD(1,2) [OF assms(1)] show ?thesis
    using outputs_same [OF same(2,3)] by (simp add: yuv_inv_def yuv_own_def use_none s')
qed

lemma task_pop_ready:
  assumes "yuv_inv s" and "s_yuv_display s = Some t" and "yv_task s = Task_top p"
    and "yuv_display_task_step env s = Some s'" and queue: "yt_queue t = Some (YUV_DISPLAY_EVENT_FRAME_READY # q)"
  shows "yuv_inv s' \<and> yuv_use s s'"
proof -
  from phase_topE [OF assms(1-3) queue] obtain n where sem: "yt_sem t = Some n"
    and fresh: "YUV_DISPLAY_EVENT_START \<notin> set (YUV_DISPLAY_EVENT_FRAME_READY # q)" and run: "task_running t"
    and ctl: "ctl_ok (yv_ctl s) (Task_top p) (task_running t) n (count_msg YUV_DISPLAY_EVENT_STOP (YUV_DISPLAY_EVENT_FRAME_READY # q))"
    and rot: "rot_ok (Task_top p) t (count_msg YUV_DISPLAY_EVENT_FRAME_READY (YUV_DISPLAY_EVENT_FRAME_READY # q)) (yv_rot s)" .
  note t = queue sem fresh
  let ?t = "t\<lparr>yt_queue := Some q\<rparr>"
  have t': "yt_queue ?t = Some q" "yt_sem ?t = Some n" "YUV_DISPLAY_EVENT_START \<notin> set q"
    using t by simp_all
  from rot obtain f g where p: "p = Some f" and g: "rotate_output_frame t = Some g"
    and rot': "yv_rot s = None" "count_msg YUV_DISPLAY_EVENT_FRAME_READY q = 0"
    by (auto simp: rot_ok_def split: option.splits)
  let ?s = "s\<lparr>s_yuv_display := Some ?t\<rparr>"
  from assms(2-4) t run obtain ret s1 where
    1: "yuv_display_rotation_complete env (Some f) ?s = Some (ret, s1)"
    and s': "s' = s1\<lparr>yv_task := Task_get None\<rparr>"
    by (auto simp: yuv_display_task_step_def yuv_pop_def Let_def p split: Option.bind_splits)
  have f: "f \<in> yuv_own s" using assms(3) by (simp add: yuv_parts p)
  obtain q' where q': "yv_fq s1 = q'"
    and use: "queue_use IMAGE_YUV 1 (yv_fq s) (yuv_own s) q' (yuv_own s - {f})"
    and d: "s_yuv_display s1 = Some (?t\<lparr>rotate_output_frame := None\<rparr>)"
    and keep: "yv_ctl s1 = yv_ctl s" "yv_rot s1 = yv_rot s"
    and outs: "yv_live s1 = yv_live s \<and> yv_shown s1 = yv_shown s @ [(g, True)] \<or>
      yv_live s1 = remove1 g (yv_live s) \<and> yv_shown s1 = yv_shown s"
    by (rule rotation_completeE [OF 1, of ?t g "yuv_own s"]) (use g f in auto)
  have own: "yuv_own s' = yuv_own s - {f}" "distinct (yuv_frames s')"
    using yuv_invD(1) [OF assms(1)] assms(3) outs by (auto simp: s' p yuv_parts keep)
  have "outputs_inv s'"
    by (rule outputs_moved [OF yuv_invD(2) [OF assms(1)], of g])
      (use assms(2) g d outs in \<open>auto simp: s' output_of_def\<close>)
  moreover have "phase_inv s'"
  proof (rule phase_invI)
    show "s_yuv_display s' = Some (?t\<lparr>rotate_output_frame := None\<rparr>)" using d by (simp add: s')
    show "ctl_ok (yv_ctl s') (yv_task s') (task_running (?t\<lparr>rotate_output_frame := None\<rparr>)) n
        (count_msg YUV_DISPLAY_EVENT_STOP q)"
      using ctl_ok_alive [OF ctl] by (simp add: s' keep)
    show "rot_ok (yv_task s') (?t\<lparr>rotate_output_frame := None\<rparr>)
        (count_msg YUV_DISPLAY_EVENT_FRAME_READY q) (yv_rot s')"
      using rot' by (simp add: s' keep rot_ok_def)
  qed (use t' in simp_all)
  ultimately show ?thesis using own use by (simp add: yuv_inv_def s' q')
qed

lemma task_pop_ok:
  assumes "yuv_inv s" and "s_yuv_display s = Some t" and "yv_task s = Task_top p"
    and "yuv_display_task_step env s = Some s'"
  shows "yuv_inv s' \<and> yuv_use s s'"
proof -
  from phase_invE [OF yuv_invD(3) [OF assms(1)] assms(2)] obtain ms where
    t: "yt_queue t = Some ms" "YUV_DISPLAY_EVENT_START \<notin> set ms" .
  show ?thesis
  proof (cases ms)
    case Nil
    with t(1) show ?thesis by (intro task_pop_none [OF assms]) simp
  next
    case (Cons msg q)
    with t task_pop_stop [OF assms, of q] task_pop_ready [OF assms, of q] show ?thesis
      by (cases msg) simp_all
  qed
qed

lemma prepare_output_ok:
  assumes "prepare_output env f t s = (out, s')" and "s_yuv_display s = Some t"
    and "outputs_inv s" and "\<forall>g. te_alloc env = Some g \<longrightarrow> g \<notin> set (yv_live s)"
  shows "outputs_inv s' \<and> s_yuv_display s' = Some (t\<lparr>rotate_output_frame := out\<rparr>) \<and>
    yv_fq s' = yv_fq s \<and> yv_task s' = yv_task s \<and> yv_ctl s' = yv_ctl s \<and> yv_rot s' = yv_rot s \<and>
    yv_shown s' = yv_shown s"
proof (cases "rotate_output_frame t")
  case None
  then have id: "t\<lparr>rotate_output_frame := None\<rparr> = t" by (cases t) simp
  show ?thesis
  proof (cases "te_alloc env")
    case None
    with assms \<open>rotate_output_frame t = None\<close> id show ?thesis
      by (auto simp: prepare_output_def Let_def outputs_inv_def yuv_outputs_def yuv_log_def)
  next
    case (Some g)
    with assms \<open>rotate_output_frame t = None\<close> have out: "out = Some g" "yv_live s' = g # yv_live s"
      and keep: "s_yuv_display s' = Some (t\<lparr>rotate_output_frame := Some g\<rparr>)" "yv_fq s' = yv_fq s"
      "yv_task s' = yv_task s" "yv_ctl s' = yv_ctl s" "yv_rot s' = yv_rot s" "yv_shown s' = yv_shown s"
      by (auto simp: prepare_output_def Let_def)
    have "g \<notin> set (yv_live s)" using assms(4) Some by simp
    then have "outputs_inv s'"
      using assms(2,3) out keep \<open>rotate_output_frame t = None\<close>
      by (auto simp: outputs_inv_def yuv_outputs_def output_of_def)
    with out keep show ?thesis by simp
  qed
next
  case (Some g)
  then have "t\<lparr>rotate_output_frame := Some g\<rparr> = t" by (cases t) simp
  with assms Some show ?thesis by (auto simp: prepare_output_def)
qed

text \<open>
  Processing a frame: what the function returns with rotation in hardware, and without. The
  task's step then only moves on.
\<close>

definition after_process :: "yuv_display_task_t \<Rightarrow> frame_ptr \<Rightarrow> bk_err_t \<Rightarrow> yuv_task_pc" where
  "after_process t f ret =
     (if ret \<noteq> BK_OK then Task_failed f else if hw_rotation t then Task_top (Some f) else Task_top None)"

lemma process_rotatedE:
  assumes "yuv_display_process_frame env (Some f) s = Some (ret, s')" and "s_yuv_display s = Some t"
    and "hw_rotation t" and "outputs_inv s" and "\<forall>g. te_alloc env = Some g \<longrightarrow> g \<notin> set (yv_live s)"
    and "yv_rot s = None"
  obtains out where "s_yuv_display s' = Some (t\<lparr>rotate_output_frame := out\<rparr>)" and "outputs_inv s'"
    and "yv_fq s' = yv_fq s" and "yv_ctl s' = yv_ctl s" and "yv_shown s' = yv_shown s"
    and "ret = BK_OK \<and> (\<exists>g. out = Some g \<and> yv_rot s' = Some (f, g)) \<or> ret \<noteq> BK_OK \<and> yv_rot s' = None"
proof -
  obtain out s1 where 1: "prepare_output env f t s = (out, s1)"
    by (cases "prepare_output env f t s")
  note prep = prepare_output_ok [OF 1 assms(2,4,5)]
  have "outputs_inv s' \<and> s_yuv_display s' = s_yuv_display s1 \<and> yv_fq s' = yv_fq s1 \<and> yv_ctl s' = yv_ctl s1 \<and>
      yv_shown s' = yv_shown s1 \<and>
      (ret = BK_OK \<and> (\<exists>g. out = Some g \<and> yv_rot s' = Some (f, g)) \<or> ret \<noteq> BK_OK \<and> yv_rot s' = yv_rot s1)"
    using assms(1-3) prep
    by (auto simp: yuv_display_process_frame_def 1 Let_def outputs_inv_def yuv_outputs_def
        split: option.splits if_splits)
  with prep assms(6) that [of out] show ?thesis by auto
qed

lemma process_directE:
  assumes "yuv_display_process_frame env (Some f) s = Some (ret, s')" and "s_yuv_display s = Some t"
    and "\<not> hw_rotation t" and "display_handle t = None \<or> te_flush env = BK_OK" and "f \<in> F"
  obtains q where "ret = BK_OK" and "yv_fq s' = q" and "s_yuv_display s' = Some t"
    and "yv_ctl s' = yv_ctl s" and "yv_rot s' = yv_rot s" and "yv_live s' = yv_live s"
    and "yv_shown s' = yv_shown s @ [(f, False)] \<and> q = yv_fq s \<or>
      yv_shown s' = yv_shown s \<and> queue_use IMAGE_YUV 1 (yv_fq s) F q (F - {f})"
proof (cases "display_handle t")
  case None
  with assms(1-3) have "release_yuv (Some f) s = Some s'" "ret = BK_OK"
    by (auto simp: yuv_display_process_frame_def yuv_display_frame_free_cb_def)
  with assms(2,5) that show ?thesis by (auto elim!: release_yuvE)
next
  case (Some d)
  with assms have "s' = display_flush BK_OK d f False s" "ret = BK_OK"
    by (auto simp: yuv_display_process_frame_def Let_def)
  with assms(2) that [of "yv_fq s"] show ?thesis by (auto simp: display_flush_def Let_def)
qed

lemma task_process_ok:
  assumes "yuv_inv s" and "s_yuv_display s = Some t" and "yv_task s = Task_process f"
    and "yuv_display_task_step env s = Some s'"
    and "hw_rotation t \<or> display_handle t = None \<or> te_flush env = BK_OK"
    and "\<forall>g. te_alloc env = Some g \<longrightarrow> g \<notin> set (yv_live s)"
  shows "yuv_inv s' \<and> yuv_use s s'"
proof -
  from phase_invE [OF yuv_invD(3) [OF assms(1)] assms(2)] obtain ms n where
    t: "yt_queue t = Some ms" "yt_sem t = Some n" "YUV_DISPLAY_EVENT_START \<notin> set ms"
    and ctl: "ctl_ok (yv_ctl s) (Task_process f) (task_running t) n (count_msg YUV_DISPLAY_EVENT_STOP ms)"
    and rot: "rot_ok (Task_process f) t (count_msg YUV_DISPLAY_EVENT_FRAME_READY ms) (yv_rot s)"
    unfolding assms(3) .
  have idle: "yv_rot s = None" "count_msg YUV_DISPLAY_EVENT_FRAME_READY ms = 0"
    using rot by (simp_all add: rot_ok_def)
  from assms(2-4) obtain ret s1 where 1: "yuv_display_process_frame env (Some f) s = Some (ret, s1)"
    and s': "s' = s1\<lparr>yv_task := after_process t f ret\<rparr>"
    by (auto simp: yuv_display_task_step_def after_process_def split: Option.bind_splits)
  have f: "f \<in> yuv_own s" using assms(3) by (simp add: yuv_parts)
  show ?thesis
  proof (cases "hw_rotation t")
    case True
    obtain out where d: "s_yuv_display s1 = Some (t\<lparr>rotate_output_frame := out\<rparr>)" and outs: "outputs_inv s1"
      and keep: "yv_fq s1 = yv_fq s" "yv_ctl s1 = yv_ctl s" "yv_shown s1 = yv_shown s"
      and ret: "ret = BK_OK \<and> (\<exists>g. out = Some g \<and> yv_rot s1 = Some (f, g)) \<or> ret \<noteq> BK_OK \<and> yv_rot s1 = None"
      using process_rotatedE [OF 1 assms(2) True yuv_invD(2) [OF assms(1)] assms(6) idle(1)] .
    have frames: "yuv_frames s' = yuv_frames s"
      using assms(3) by (auto simp: s' yuv_parts keep after_process_def True)
    have "outputs_inv s'" using outs by (simp add: s' outputs_inv_def yuv_outputs_def)
    moreover have "phase_inv s'"
    proof (rule phase_invI)
      show "s_yuv_display s' = Some (t\<lparr>rotate_output_frame := out\<rparr>)" using d by (simp add: s')
      show "ctl_ok (yv_ctl s') (yv_task s') (task_running (t\<lparr>rotate_output_frame := out\<rparr>)) n
          (count_msg YUV_DISPLAY_EVENT_STOP ms)"
        using ctl_ok_alive [OF ctl] by (simp add: s' keep after_process_def)
      show "rot_ok (yv_task s') (t\<lparr>rotate_output_frame := out\<rparr>)
          (count_msg YUV_DISPLAY_EVENT_FRAME_READY ms) (yv_rot s')"
        using ret True idle(2) by (auto simp: s' rot_ok_def after_process_def)
    qed (use t in simp_all)
    ultimately show ?thesis
      using frames yuv_invD(1) [OF assms(1)] by (simp add: yuv_inv_def yuv_own_def use_none s' keep)
  next
    case False
    with assms(5) have "display_handle t = None \<or> te_flush env = BK_OK" by simp
    from process_directE [OF 1 assms(2) False this f] obtain q where ret: "ret = BK_OK"
      and keep: "yv_fq s1 = q" "s_yuv_display s1 = Some t" "yv_ctl s1 = yv_ctl s" "yv_rot s1 = yv_rot s"
      "yv_live s1 = yv_live s"
      and outs: "yv_shown s1 = yv_shown s @ [(f, False)] \<and> q = yv_fq s \<or>
        yv_shown s1 = yv_shown s \<and> queue_use IMAGE_YUV 1 (yv_fq s) (yuv_own s) q (yuv_own s - {f})" .
    have dist: "distinct (yuv_frames s')" and use: "yuv_use s s'"
      using outs yuv_invD(1) [OF assms(1)] assms(3)
      by (auto simp: s' ret False yuv_frames_def yuv_own_def keep after_process_def use_none
          simp flip: insert_is_Un elim!: back_subst [of "\<lambda>F. queue_use IMAGE_YUV 1 _ _ _ F"])
    have same: "yuv_outputs s' = yuv_outputs s" "yv_live s' = yv_live s"
      using outs assms(2) by (auto simp: s' yuv_outputs_def keep)
    have "phase_inv s'"
      by (rule phase_invI [OF _ t])
        (use keep idle ctl_ok_alive [OF ctl] in \<open>auto simp: s' ret False rot_ok_def after_process_def\<close>)
    with dist use outputs_same [OF same yuv_invD(2) [OF assms(1)]] show ?thesis
      by (simp add: yuv_inv_def)
  qed
qed

lemma yuv_task_ok:
  assumes "yuv_inv s" and "yuv_display_task_step env s = Some s'" and "yuv_calm (Do_task env) s"
    and "hands_out_new IMAGE_YUV 1 (yv_fq s) (yuv_own s)"
  shows "yuv_inv s' \<and> yuv_use s s'"
proof -
  from assms(2) obtain t where t: "s_yuv_display s = Some t"
    by (auto simp: yuv_display_task_step_def split: option.splits)
  have alloc: "\<forall>g. te_alloc env = Some g \<longrightarrow> g \<notin> set (yv_live s)"
    using assms(3) by (auto simp: yuv_calm_def)
  show ?thesis
  proof (cases "yv_task s")
    case Task_none
    with assms(2) t show ?thesis by (simp add: yuv_display_task_step_def)
  next
    case Task_created
    from task_created_ok [OF assms(1) t this assms(2)] show ?thesis .
  next
    case (Task_top p)
    from task_pop_ok [OF assms(1) t this assms(2)] show ?thesis .
  next
    case (Task_get p)
    from task_get_ok [OF assms(1) t this assms(2,4)] show ?thesis .
  next
    case (Task_process f)
    with assms(3) t have "hw_rotation t \<or> display_handle t = None \<or> te_flush env = BK_OK"
      by (simp add: yuv_calm_def)
    from task_process_ok [OF assms(1) t Task_process assms(2) this alloc] show ?thesis .
  next
    case (Task_failed f)
    from task_failed_ok [OF assms(1) t this assms(2)] show ?thesis .
  next
    case (Task_exit p)
    with assms(3) t have "yv_rot s = None" by (simp add: yuv_calm_def)
    from task_exit_ok [OF assms(1) t Task_exit assms(2) this] show ?thesis .
  qed
qed

subsection \<open>The caller's steps\<close>

lemma teardown_simps [simp]:
  "yv_fq (yuv_teardown s) = yv_fq s" "s_yuv_display (yuv_teardown s) = None"
  "yv_task (yuv_teardown s) = yv_task s" "yv_ctl (yuv_teardown s) = yv_ctl s"
  "yv_shown (yuv_teardown s) = yv_shown s" "yv_live (yuv_teardown s) = yv_live s"
  by (simp_all add: yuv_teardown_def Let_def split: option.splits)

lemma teardown_rot: "yv_rot s = None \<Longrightarrow> yv_rot (yuv_teardown s) = None"
  by (simp add: yuv_teardown_def Let_def split: option.splits)

lemma outputs_closed:
  assumes "outputs_inv s" and "s_yuv_display s' = None" and "yv_shown s' = yv_shown s" and "yv_live s' = yv_live s"
  shows "outputs_inv s'"
  using assms by (auto simp: outputs_inv_def yuv_outputs_def output_of_def)

text \<open>Steps that change only the semaphore, the message queue and the caller's place.\<close>

lemma ctl_only_ok:
  assumes "yuv_inv s" and "s_yuv_display s = Some t" and "ctl_frame (yv_ctl s) = None" and "ctl_frame ctl = None"
    and "s' = s\<lparr>s_yuv_display := Some t', yv_ctl := ctl\<rparr>" and "phase_inv s'"
    and "rotate_output_frame t' = rotate_output_frame t"
  shows "yuv_inv s' \<and> yuv_use s s'"
proof -
  have same: "yuv_frames s' = yuv_frames s" "yuv_outputs s' = yuv_outputs s" "yv_live s' = yv_live s"
    using assms(2-5,7) by (simp_all add: yuv_parts)
  with yuv_invD(1,2) [OF assms(1)] assms(5,6) show ?thesis
    using outputs_same [OF same(2,3)] by (simp add: yuv_inv_def yuv_own_def use_none)
qed

lemma take_sem_Some: "take_sem t = Some t' \<longleftrightarrow> (\<exists>n. yt_sem t = Some (Suc n) \<and> t' = t\<lparr>yt_sem := Some n\<rparr>)"
  by (auto simp: take_sem_def gr0_conv_Suc split: option.splits)

lemma ctl_wait_ok:
  assumes "yuv_inv s" and "s_yuv_display s = Some t" and "yv_ctl s = Ctl_open_wait \<and> ctl = Ctl_idle \<or>
      yv_ctl s = Ctl_close_wait \<and> ctl = Ctl_drain"
    and "take_sem t = Some t'"
  shows "yuv_inv (s\<lparr>s_yuv_display := Some t', yv_ctl := ctl\<rparr>) \<and>
    yuv_use s (s\<lparr>s_yuv_display := Some t', yv_ctl := ctl\<rparr>)"
proof -
  from phase_invE [OF yuv_invD(3) [OF assms(1)] assms(2)] obtain ms n where
    t: "yt_queue t = Some ms" "yt_sem t = Some n" "YUV_DISPLAY_EVENT_START \<notin> set ms"
    and ctl: "ctl_ok (yv_ctl s) (yv_task s) (task_running t) n (count_msg YUV_DISPLAY_EVENT_STOP ms)"
    and rot: "rot_ok (yv_task s) t (count_msg YUV_DISPLAY_EVENT_FRAME_READY ms) (yv_rot s)" .
  from assms(4) t obtain m where m: "n = Suc m" "t' = t\<lparr>yt_sem := Some m\<rparr>"
    by (auto simp: take_sem_Some)
  have "phase_inv (s\<lparr>s_yuv_display := Some t', yv_ctl := ctl\<rparr>)"
    by (rule phase_invI [of _ t' ms m])
      (use t rot ctl assms(3) m in \<open>auto simp: ctl_ok_ctl\<close>)
  from ctl_only_ok [OF assms(1,2) _ _ refl this] show ?thesis
    using assms(3) m by auto
qed

lemma ctl_stop_ok:
  assumes "yuv_inv s" and "s_yuv_display s = Some t" and "yv_ctl s = Ctl_stop"
    and "yt_queue t = Some ms" and "length ms < 10"
  shows "yuv_inv (s\<lparr>s_yuv_display := Some (push_msg YUV_DISPLAY_EVENT_STOP t), yv_ctl := Ctl_close_wait\<rparr>) \<and>
    yuv_use s (s\<lparr>s_yuv_display := Some (push_msg YUV_DISPLAY_EVENT_STOP t), yv_ctl := Ctl_close_wait\<rparr>)"
proof -
  let ?t = "push_msg YUV_DISPLAY_EVENT_STOP t"
  have t': "?t = t\<lparr>yt_queue := Some (ms @ [YUV_DISPLAY_EVENT_STOP])\<rparr>"
    using assms(4,5) by (simp add: push_msg_def)
  from phase_invE [OF yuv_invD(3) [OF assms(1)] assms(2)] assms(4) obtain n where
    t: "yt_sem t = Some n" "YUV_DISPLAY_EVENT_START \<notin> set ms"
    and ctl: "ctl_ok Ctl_stop (yv_task s) (task_running t) n (count_msg YUV_DISPLAY_EVENT_STOP ms)"
    and rot: "rot_ok (yv_task s) t (count_msg YUV_DISPLAY_EVENT_FRAME_READY ms) (yv_rot s)"
    by (metis assms(3) option.inject)
  have "phase_inv (s\<lparr>s_yuv_display := Some ?t, yv_ctl := Ctl_close_wait\<rparr>)"
    by (rule phase_invI [of _ ?t "ms @ [YUV_DISPLAY_EVENT_STOP]" n])
      (use t rot ctl in \<open>auto simp: t' ctl_ok_ctl\<close>)
  from ctl_only_ok [OF assms(1,2) _ _ refl this] show ?thesis
    by (simp add: assms(3) t')
qed

lemma ctl_drain_ok:
  assumes "yuv_inv s" and "s_yuv_display s = Some t" and "yv_ctl s = Ctl_drain"
    and "yuv_ctl_step s = Some s'" and "hands_out_new IMAGE_YUV 1 (yv_fq s) (yuv_own s)"
  shows "yuv_inv s' \<and> yuv_use s s'"
proof -
  from assms(2-4) obtain r s1 where "yuv_look 0 s = Some (r, s1)"
    and s': "s' = s1\<lparr>yv_ctl := (case r of Some f \<Rightarrow> Ctl_release f | None \<Rightarrow> Ctl_cleanup)\<rparr>"
    by (auto simp: yuv_ctl_step_def split: Option.bind_splits)
  from this(1) obtain q where q: "s1 = s\<lparr>yv_fq := q\<rparr>"
    and use: "\<And>F. queue_use IMAGE_YUV 1 (yv_fq s) F q (F \<union> set_option r)"
    and new: "\<And>f. r = Some f \<Longrightarrow> f \<notin> yuv_own s"
    using yuv_lookE [of 0 s r s1] assms(5) by metis
  have own: "yuv_own s' = yuv_own s \<union> set_option r" "distinct (yuv_frames s')"
    using assms(3) new yuv_invD(1) [OF assms(1)]
    by (auto simp: s' q yuv_frames_def yuv_own_def split: option.splits)
  have same: "yuv_outputs s' = yuv_outputs s" "yv_live s' = yv_live s"
    by (simp_all add: s' q yuv_outputs_def)
  from phase_invE [OF yuv_invD(3) [OF assms(1)] assms(2)] obtain ms n where
    t: "yt_queue t = Some ms" "yt_sem t = Some n" "YUV_DISPLAY_EVENT_START \<notin> set ms"
    and ctl: "ctl_ok Ctl_drain (yv_task s) (task_running t) n (count_msg YUV_DISPLAY_EVENT_STOP ms)"
    and rot: "rot_ok (yv_task s) t (count_msg YUV_DISPLAY_EVENT_FRAME_READY ms) (yv_rot s)"
    unfolding assms(3) .
  have "phase_inv s'"
    by (rule phase_invI [OF _ t])
      (use assms(2) rot ctl in \<open>auto simp: s' q ctl_ok_ctl split: option.splits\<close>)
  with own use outputs_same [OF same yuv_invD(2) [OF assms(1)]] show ?thesis
    by (simp add: yuv_inv_def s' q)
qed

lemma ctl_release_ok:
  assumes "yuv_inv s" and "s_yuv_display s = Some t" and "yv_ctl s = Ctl_release f"
    and "yuv_ctl_step s = Some s'"
  shows "yuv_inv s' \<and> yuv_use s s'"
proof -
  from assms(2-4) obtain s1 where 1: "release_yuv (Some f) s = Some s1" and s': "s' = s1\<lparr>yv_ctl := Ctl_drain\<rparr>"
    by (auto simp: yuv_ctl_step_def split: Option.bind_splits)
  from release_yuvE [OF 1] obtain q where q: "s1 = s\<lparr>yv_fq := q\<rparr>"
    and use: "\<And>F. f \<in> F \<Longrightarrow> queue_use IMAGE_YUV 1 (yv_fq s) F q (F - {f})" by blast
  have own: "yuv_own s' = yuv_own s - {f}" "f \<in> yuv_own s" "distinct (yuv_frames s')"
    using yuv_invD(1) [OF assms(1)] assms(3) by (auto simp: s' q yuv_frames_def yuv_own_def)
  have same: "yuv_outputs s' = yuv_outputs s" "yv_live s' = yv_live s"
    by (simp_all add: s' q yuv_outputs_def)
  from phase_invE [OF yuv_invD(3) [OF assms(1)] assms(2)] obtain ms n where
    t: "yt_queue t = Some ms" "yt_sem t = Some n" "YUV_DISPLAY_EVENT_START \<notin> set ms"
    and ctl: "ctl_ok (Ctl_release f) (yv_task s) (task_running t) n (count_msg YUV_DISPLAY_EVENT_STOP ms)"
    and rot: "rot_ok (yv_task s) t (count_msg YUV_DISPLAY_EVENT_FRAME_READY ms) (yv_rot s)"
    unfolding assms(3) .
  have "phase_inv s'"
    by (rule phase_invI [OF _ t]) (use assms(2) rot ctl in \<open>auto simp: s' q ctl_ok_ctl\<close>)
  with own use [of "yuv_own s"] outputs_same [OF same yuv_invD(2) [OF assms(1)]] show ?thesis
    by (simp add: yuv_inv_def s' q)
qed

lemma ctl_cleanup_ok:
  assumes "yuv_inv s" and "s_yuv_display s = Some t" and "yv_ctl s = Ctl_cleanup"
    and "yuv_ctl_step s = Some s'"
  shows "yuv_inv s' \<and> yuv_use s s'"
proof -
  from assms(2-4) obtain r q where
    1: "frame_queue_v2_unregister_consumer IMAGE_YUV (cbit 1) (yv_fq s) = Some (r, q)"
    and s': "s' = yuv_teardown (s\<lparr>yv_fq := q, yv_ctl := Ctl_idle\<rparr>)"
    by (auto simp: yuv_ctl_step_def split: Option.bind_splits)
  have frames: "yuv_frames s' = yuv_frames s" using assms(3) by (simp add: s' yuv_parts)
  from phase_invE [OF yuv_invD(3) [OF assms(1)] assms(2)] obtain ms n where
    ctl: "ctl_ok Ctl_cleanup (yv_task s) (task_running t) n (count_msg YUV_DISPLAY_EVENT_STOP ms)"
    and rot: "rot_ok (yv_task s) t (count_msg YUV_DISPLAY_EVENT_FRAME_READY ms) (yv_rot s)"
    unfolding assms(3) .
  have "yv_task s = Task_none" using ctl by (simp add: ctl_ok_ctl)
  with rot have "phase_inv s'" by (simp add: s' phase_inv_def rot_ok_def teardown_rot)
  moreover have "outputs_inv s'"
    by (rule outputs_closed [OF yuv_invD(2) [OF assms(1)]]) (simp_all add: s')
  ultimately show ?thesis
    using frames yuv_invD(1) [OF assms(1)] use_unregister [OF 1] by (simp add: yuv_inv_def yuv_own_def s')
qed

lemma yuv_ctl_ok:
  assumes "yuv_inv s" and "yuv_ctl_step s = Some s'" and "hands_out_new IMAGE_YUV 1 (yv_fq s) (yuv_own s)"
  shows "yuv_inv s' \<and> yuv_use s s'"
proof -
  from assms(2) obtain t where t: "s_yuv_display s = Some t"
    by (auto simp: yuv_ctl_step_def split: option.splits)
  show ?thesis
  proof (cases "yv_ctl s")
    case Ctl_idle
    with assms(2) t show ?thesis by (simp add: yuv_ctl_step_def)
  next
    case Ctl_open_wait
    with assms(2) t obtain t' where "take_sem t = Some t'" "s' = s\<lparr>s_yuv_display := Some t', yv_ctl := Ctl_idle\<rparr>"
      by (auto simp: yuv_ctl_step_def)
    with ctl_wait_ok [OF assms(1) t, of Ctl_idle t'] Ctl_open_wait show ?thesis by simp
  next
    case Ctl_stop
    with assms(2) t obtain ms where "yt_queue t = Some ms" "length ms < 10"
      "s' = s\<lparr>s_yuv_display := Some (push_msg YUV_DISPLAY_EVENT_STOP t), yv_ctl := Ctl_close_wait\<rparr>"
      by (auto simp: yuv_ctl_step_def split: option.splits if_splits)
    with ctl_stop_ok [OF assms(1) t Ctl_stop] show ?thesis by simp
  next
    case Ctl_close_wait
    with assms(2) t obtain t' where "take_sem t = Some t'"
      and s': "s' = yuv_log [Delay_ms 100] (s\<lparr>s_yuv_display := Some t', yv_ctl := Ctl_drain\<rparr>)"
      by (auto simp: yuv_ctl_step_def)
    with ctl_wait_ok [OF assms(1) t, of Ctl_drain t'] Ctl_close_wait show ?thesis
      by (simp add: s' yuv_inv_def outputs_inv_def phase_inv_def yuv_parts)
  next
    case Ctl_drain
    from ctl_drain_ok [OF assms(1) t this assms(2,3)] show ?thesis .
  next
    case (Ctl_release f)
    from ctl_release_ok [OF assms(1) t this assms(2)] show ?thesis .
  next
    case Ctl_cleanup
    from ctl_cleanup_ok [OF assms(1) t this assms(2)] show ?thesis .
  qed
qed

subsection \<open>Opening and closing\<close>

lemma open_resourcesE:
  assumes "yuv_open_resources env t s = Some (ret, s')" and "s_yuv_display s = Some t"
  obtains q where "yv_fq s' = q" and "queue_use IMAGE_YUV 1 (yv_fq s) F q F"
    and "yv_ctl s' = yv_ctl s" and "yv_rot s' = yv_rot s" and "yv_shown s' = yv_shown s"
    and "yv_live s' = yv_live s"
    and "ret = BK_OK \<and> yv_task s' = Task_created \<and>
        s_yuv_display s' = Some (t\<lparr>yt_sem := Some 0, yt_queue := Some []\<rparr>) \<or>
      ret \<noteq> BK_OK \<and> yv_task s' = yv_task s"
proof (cases "hw_rotation t \<and> oe_rott env \<noteq> BK_OK \<or> oe_sem env \<noteq> BK_OK \<or> oe_queue env \<noteq> BK_OK")
  case True
  with assms that [of "yv_fq s"] show ?thesis
    by (auto simp: yuv_open_resources_def Let_def use_none split: if_splits)
next
  case False
  with assms(1) obtain r q where reg: "frame_queue_v2_register_consumer IMAGE_YUV (cbit 1) (yv_fq s) = Some (r, q)"
    by (cases "hw_rotation t"; auto simp: yuv_open_resources_def Let_def split: Option.bind_splits if_splits)
  note use = use_register [OF reg, of F]
  show ?thesis
  proof (cases "r = BK_OK \<and> oe_thread env \<noteq> BK_OK")
    case True
    with assms(1) False reg obtain r' q' where
      un: "frame_queue_v2_unregister_consumer IMAGE_YUV (cbit 1) q = Some (r', q')"
      and "yv_fq s' = q'" "yv_ctl s' = yv_ctl s" "yv_rot s' = yv_rot s" "yv_shown s' = yv_shown s"
        "yv_live s' = yv_live s" "ret = oe_thread env" "yv_task s' = yv_task s"
      by (cases "hw_rotation t"; auto simp: yuv_open_resources_def Let_def split: Option.bind_splits)
    with True that use_trans [OF use use_unregister [OF un]] show ?thesis by simp
  next
    case nothread: False
    have "yv_fq s' = q \<and> yv_ctl s' = yv_ctl s \<and> yv_rot s' = yv_rot s \<and> yv_shown s' = yv_shown s \<and>
        yv_live s' = yv_live s \<and>
        (ret = BK_OK \<and> yv_task s' = Task_created \<and>
           s_yuv_display s' = Some (t\<lparr>yt_sem := Some 0, yt_queue := Some []\<rparr>) \<or>
         ret \<noteq> BK_OK \<and> yv_task s' = yv_task s)"
      using assms False reg nothread
      by (cases "hw_rotation t"; auto simp: yuv_open_resources_def Let_def split: Option.bind_splits if_splits)
    with that use show ?thesis by blast
  qed
qed

lemma yuv_open_ok:
  assumes "yuv_inv s" and "yv_ctl s = Ctl_idle" and "yuv_display_open env info angle s = Some (r, s')"
  shows "yuv_inv s' \<and> yuv_use s s'"
proof (cases "info = None \<or> s_yuv_display s \<noteq> None \<or> \<not> oe_malloc env")
  case True
  with assms(3) have "s' = s \<or> s' = yuv_log [Task_alloc] s"
    by (auto simp: yuv_display_open_def Let_def split: option.splits if_splits)
  with assms(1) phase_same [of "yuv_log [Task_alloc] s" s] show ?thesis
    by (auto simp: yuv_inv_def outputs_inv_def yuv_parts use_none)
next
  case False
  then obtain handle where info: "info = Some handle" and closed: "s_yuv_display s = None" by auto
  let ?t = "yuv_task_zero\<lparr>rotate_angle := get_rotate_angle angle,
      rotate_enabled := (get_rotate_angle angle \<noteq> ROTATE_NONE), display_handle := handle\<rparr>"
  let ?s = "(yuv_log [Task_alloc] s)\<lparr>s_yuv_display := Some ?t\<rparr>"
  from assms(3) False info closed obtain ret s1 where 1: "yuv_open_resources env ?t ?s = Some (ret, s1)"
    and s': "s' = (if ret = BK_OK then s1\<lparr>yv_ctl := Ctl_open_wait\<rparr> else yuv_teardown s1)"
    by (auto simp: yuv_display_open_def Let_def split: Option.bind_splits if_splits)
  from open_resourcesE [OF 1, of "yuv_own s"] obtain q where q: "yv_fq s1 = q"
    and use: "queue_use IMAGE_YUV 1 (yv_fq s) (yuv_own s) q (yuv_own s)"
    and keep: "yv_ctl s1 = yv_ctl s" "yv_rot s1 = yv_rot s" "yv_shown s1 = yv_shown s" "yv_live s1 = yv_live s"
    and ret: "ret = BK_OK \<and> yv_task s1 = Task_created \<and>
        s_yuv_display s1 = Some (?t\<lparr>yt_sem := Some 0, yt_queue := Some []\<rparr>) \<or>
      ret \<noteq> BK_OK \<and> yv_task s1 = yv_task s"
    by auto
  have idle: "yv_task s = Task_none" "yv_rot s = None"
    using yuv_invD(3) [OF assms(1)] closed by (simp_all add: phase_inv_def)
  have frames: "yuv_frames s' = yuv_frames s"
    using ret idle keep assms(2) by (auto simp: s' yuv_parts)
  have "yuv_outputs s' = yuv_outputs s" "yv_live s' = yv_live s"
    using ret keep closed by (auto simp: s' yuv_outputs_def output_of_def yuv_task_zero_def)
  with yuv_invD(2) [OF assms(1)] have outs: "outputs_inv s'" by (simp add: outputs_same)
  have phase: "phase_inv s'"
    using ret
  proof
    assume "ret = BK_OK \<and> yv_task s1 = Task_created \<and>
        s_yuv_display s1 = Some (?t\<lparr>yt_sem := Some 0, yt_queue := Some []\<rparr>)"
    then show ?thesis
      by (intro phase_invI [of _ "?t\<lparr>yt_sem := Some 0, yt_queue := Some []\<rparr>" "[]" 0])
        (auto simp: s' keep idle rot_ok_def ctl_ok_ctl yuv_task_zero_def)
  next
    assume "ret \<noteq> BK_OK \<and> yv_task s1 = yv_task s"
    then show ?thesis
      using assms(2) by (simp add: s' phase_inv_def keep idle teardown_rot)
  qed
  have "yv_fq s' = q" by (simp add: s' q)
  with frames outs phase use yuv_invD(1) [OF assms(1)] show ?thesis
    by (simp add: yuv_inv_def yuv_own_def)
qed

lemma yuv_close_ok:
  assumes "yuv_inv s" and "yv_ctl s = Ctl_idle"
  shows "yuv_inv (snd (yuv_display_close s)) \<and> yuv_use s (snd (yuv_display_close s))"
proof (cases "s_yuv_display s")
  case None
  with assms(1) show ?thesis by (simp add: yuv_display_close_def use_none)
next
  case (Some t)
  from phase_invE [OF yuv_invD(3) [OF assms(1)] Some] obtain ms n where
    t: "yt_queue t = Some ms" "yt_sem t = Some n" "YUV_DISPLAY_EVENT_START \<notin> set ms"
    and ctl: "ctl_ok Ctl_idle (yv_task s) (task_running t) n (count_msg YUV_DISPLAY_EVENT_STOP ms)"
    and rot: "rot_ok (yv_task s) t (count_msg YUV_DISPLAY_EVENT_FRAME_READY ms) (yv_rot s)"
    unfolding assms(2) .
  let ?s = "s\<lparr>yv_ctl := Ctl_stop\<rparr>"
  have s': "snd (yuv_display_close s) = s\<lparr>s_yuv_display := Some t, yv_ctl := Ctl_stop\<rparr>"
    using ctl Some by (simp add: yuv_display_close_def ctl_ok_ctl)
  have "phase_inv (s\<lparr>s_yuv_display := Some t, yv_ctl := Ctl_stop\<rparr>)"
    by (rule phase_invI [of _ t ms n]) (use t rot ctl in \<open>auto simp: ctl_ok_ctl\<close>)
  from ctl_only_ok [OF assms(1) Some _ _ s' this [folded s']] show ?thesis
    using assms(2) by simp
qed

subsection \<open>The hardware's steps\<close>

lemma hw_rotated_ok:
  assumes "yuv_inv s" and "yv_rot s = Some fg"
  shows "yuv_inv (yuv_display_rotate_complete_cb (s\<lparr>yv_rot := None\<rparr>)) \<and>
    yuv_use s (yuv_display_rotate_complete_cb (s\<lparr>yv_rot := None\<rparr>))"
proof -
  let ?s = "yuv_display_rotate_complete_cb (s\<lparr>yv_rot := None\<rparr>)"
  obtain t where d: "s_yuv_display s = Some t"
    using yuv_invD(3) [OF assms(1)] assms(2) by (auto simp: phase_inv_def split: option.splits)
  from phase_invE [OF yuv_invD(3) [OF assms(1)] d] obtain ms n where
    t: "yt_queue t = Some ms" "yt_sem t = Some n" "YUV_DISPLAY_EVENT_START \<notin> set ms"
    and ctl: "ctl_ok (yv_ctl s) (yv_task s) (task_running t) n (count_msg YUV_DISPLAY_EVENT_STOP ms)"
    and rot: "rot_ok (yv_task s) t (count_msg YUV_DISPLAY_EVENT_FRAME_READY ms) (yv_rot s)" .
  from rot assms(2) obtain f g where
    w: "waiting_for (yv_task s) = Some f" "rotate_output_frame t = Some g" "hw_rotation t"
    and none: "count_msg YUV_DISPLAY_EVENT_FRAME_READY ms = 0"
    by (auto simp: rot_ok_def split: option.splits)
  have running: "task_running t" using ctl w(1) by cases auto
  have few: "length ms < 10"
  proof -
    note length_msgs [OF t(3)]
    with none ctl show ?thesis by (auto elim: ctl_ok.cases)
  qed
  let ?t = "t\<lparr>yt_queue := Some (ms @ [YUV_DISPLAY_EVENT_FRAME_READY])\<rparr>"
  have s': "?s = s\<lparr>yv_rot := None, s_yuv_display := Some ?t\<rparr>"
    using d running t few by (simp add: yuv_display_rotate_complete_cb_def push_msg_def)
  have same: "yuv_frames ?s = yuv_frames s" "yuv_outputs ?s = yuv_outputs s" "yv_live ?s = yv_live s"
    using d by (simp_all add: s' yuv_parts)
  have "phase_inv ?s"
  proof (rule phase_invI)
    show "s_yuv_display ?s = Some ?t" by (simp add: s')
    show "rot_ok (yv_task ?s) ?t (count_msg YUV_DISPLAY_EVENT_FRAME_READY
        (ms @ [YUV_DISPLAY_EVENT_FRAME_READY])) (yv_rot ?s)"
      using w none by (simp add: s' rot_ok_def)
  qed (use t ctl in \<open>simp_all add: s'\<close>)
  with same yuv_invD(1,2) [OF assms(1)] show ?thesis
    using outputs_same [OF same(2,3)] by (simp add: yuv_inv_def yuv_own_def use_none s')
qed

lemma hw_shown_ok:
  assumes "yuv_inv s" and "yuv_exec (Hw_shown f b) s = Some s'"
  shows "yuv_inv s' \<and> yuv_use s s'"
proof -
  let ?s = "s\<lparr>yv_shown := remove1 (f, b) (yv_shown s)\<rparr>"
  from assms(2) have mem: "f \<in> set (shown b (yv_shown s))"
    by (simp add: set_shown split: if_splits)
  show ?thesis
  proof (cases b)
    case True
    with assms(2) have s': "s' = yuv_display_rotate_frame_free_cb (Some f) ?s"
      by (simp add: Let_def split: if_splits)
    have "yuv_frames s' = yuv_frames s" using True by (simp add: s' yuv_frames_def)
    moreover have "outputs_inv s'"
      using yuv_invD(2) [OF assms(1)] mem True
      by (auto simp: s' outputs_inv_def yuv_outputs_def)
    moreover have "phase_inv s'"
      by (rule phase_same [OF _ _ _ _ yuv_invD(3) [OF assms(1)]]) (simp_all add: s')
    ultimately show ?thesis
      using yuv_invD(1) [OF assms(1)] by (simp add: yuv_inv_def yuv_own_def use_none s')
  next
    case False
    with assms(2) have "release_yuv (Some f) ?s = Some s'"
      by (simp add: yuv_display_frame_free_cb_def Let_def split: if_splits)
    then obtain q where s': "s' = ?s\<lparr>yv_fq := q\<rparr>"
      and use: "\<And>F. f \<in> F \<Longrightarrow> queue_use IMAGE_YUV 1 (yv_fq s) F q (F - {f})"
      by (auto elim: release_yuvE)
    have own: "yuv_own s' = yuv_own s - {f}" "f \<in> yuv_own s" "distinct (yuv_frames s')"
      using yuv_invD(1) [OF assms(1)] mem False by (auto simp: s' yuv_own_def yuv_frames_def)
    have "outputs_inv s'"
      by (rule outputs_same [OF _ _ yuv_invD(2) [OF assms(1)]]) (simp_all add: s' False yuv_outputs_def)
    moreover have "phase_inv s'"
      by (rule phase_same [OF _ _ _ _ yuv_invD(3) [OF assms(1)]]) (simp_all add: s')
    ultimately show ?thesis using own use [of "yuv_own s"] by (simp add: yuv_inv_def s')
  qed
qed

lemma yuv_step_ok:
  assumes "yuv_inv s" and "yuv_step s s'" and "hands_out_new IMAGE_YUV 1 (yv_fq s) (yuv_own s)"
  shows "yuv_inv s' \<and> yuv_use s s'"
proof -
  from assms(2) obtain a where calm: "yuv_calm a s" and exec: "yuv_exec a s = Some s'"
    by (auto simp: yuv_step_def)
  show ?thesis
  proof (cases a)
    case (Do_open env info angle)
    with exec yuv_open_ok [OF assms(1)] show ?thesis by (auto split: if_splits)
  next
    case Do_close
    with exec yuv_close_ok [OF assms(1)] show ?thesis by (auto split: if_splits)
  next
    case Do_ctl
    with exec yuv_ctl_ok [OF assms(1) _ assms(3)] show ?thesis by simp
  next
    case (Do_task env)
    with exec calm yuv_task_ok [OF assms(1) _ _ assms(3)] show ?thesis by simp
  next
    case Hw_rotated
    with exec hw_rotated_ok [OF assms(1)] show ?thesis by (auto split: if_splits)
  next
    case (Hw_shown f b)
    with exec hw_shown_ok [OF assms(1)] show ?thesis by simp
  qed
qed

section \<open>The display is a client of the YUV queue\<close>

definition yuv_idle :: yuv_state where
  "yuv_idle = yuv_start boot_state"

lemma yuv_slot: "init_slot IMAGE_YUV = Some (2, 3)"
  by (simp add: init_slot_def YUV_MAX_FRAME_COUNT_def)

interpretation yuv: frame_client IMAGE_YUV 2 3 1 yv_fq "\<lambda>q s. s\<lparr>yv_fq := q\<rparr>" yuv_own yuv_step yuv_inv yuv_idle
proof unfold_locales
  show "init_slot IMAGE_YUV = Some (2, 3)" by (rule yuv_slot)
  show "yuv_inv s \<Longrightarrow> yuv_inv (s\<lparr>yv_fq := q\<rparr>)" for s q
    using phase_same [of "s\<lparr>yv_fq := q\<rparr>" s]
    by (simp add: yuv_inv_def yuv_frames_def outputs_inv_def yuv_outputs_def)
  show "yuv_inv yuv_idle" and "yuv_own yuv_idle = {}"
    by (simp_all add: yuv_inv_def outputs_inv_def phase_inv_def yuv_parts yuv_idle_def yuv_start_def)
  show "yuv_own (s\<lparr>yv_fq := q\<rparr>) = yuv_own s" for s q
    by (simp add: yuv_own_def yuv_frames_def)
  show "yuv_inv s' \<and> yuv_use s s'"
    if "yuv_inv s" "yuv_step s s'" "hands_out_new IMAGE_YUV 1 (yv_fq s) (yuv_own s)" for s s'
    using yuv_step_ok [OF that] .
qed simp_all

abbreviation yuv_sys ::
    "(image_format \<Rightarrow> init_env) \<Rightarrow> yuv_state \<Rightarrow> (nat \<times> frame_ptr) set \<Rightarrow> frame_ptr set \<Rightarrow> bool" where
  "yuv_sys env \<equiv> client_sys env IMAGE_YUV 2 1 yv_fq (\<lambda>q s. s\<lparr>yv_fq := q\<rparr>) yuv_step yuv_idle"

end
