(* ===== verification/Yuv_Display_Properties.thy ===== *)
theory Yuv_Display_Properties
  imports Yuv_Display_Safety
begin

text \<open>
  The properties of the direct display, over the runs of the display among the other users of the
  queues (\<open>yuv_sys\<close>), with a run of the code that meets their hypotheses.
\<close>

section \<open>A configuration to run\<close>

text \<open>
  Display and producer on the YUV queue of the demo configuration. The state of the queue is
  followed through its abstract state \<open>A\<close>, which can be computed.
\<close>

definition yuv_demo :: "yuv_state \<Rightarrow> abs_state \<Rightarrow> frame_ptr set \<Rightarrow> bool" where
  "yuv_demo s A P \<longleftrightarrow> yuv_sys demo_env s {} P \<and> fq_rep (boot_nodes demo_env) (yv_fq s) A"

lemma yuv_demo_boot: "\<exists>q. yuv_demo (yuv_start q) (booted demo_env) {}"
proof -
  obtain q where "frame_queue_v2_init_all demo_env boot_state = (BK_OK, q)"
    and "fq_rep (boot_nodes demo_env) q (booted demo_env)"
    using boot_rep [OF demo_boot] by blast
  with sys_boot [OF this(1)] have "yuv_demo (yuv_idle\<lparr>yv_fq := q\<rparr>) (booted demo_env) {}"
    by (simp add: yuv_demo_def)
  then show ?thesis by (auto simp: yuv_idle_def yuv_start_def)
qed

lemma yuv_demo_own_step:
  "yuv_demo s A P \<Longrightarrow> yuv_calm a s \<Longrightarrow> yuv_exec a s = Some s' \<Longrightarrow>
     fq_rep (boot_nodes demo_env) (yv_fq s') A' \<Longrightarrow> yuv_demo s' A' P"
  using sys_client by (fastforce simp: yuv_demo_def yuv_step_def)

lemma yuv_demo_register:
  assumes "yuv_demo s A P"
  shows "\<exists>q. frame_queue_v2_register_consumer IMAGE_YUV (cbit 1) (yv_fq s) =
      Some (fst (spec_register IMAGE_YUV (cbit 1) A), q) \<and>
    fq_rep (boot_nodes demo_env) q (snd (spec_register IMAGE_YUV (cbit 1) A))"
  using assms register_rep by (fastforce simp: yuv_demo_def)

lemma yuv_demo_look:
  assumes "yuv_demo s A P"
  shows "\<exists>q. yuv_look ms s =
      Some (case fst (spec_get [] 0 IMAGE_YUV (cbit 1) (Wait_ms ms) A) of Got f \<Rightarrow> f | Waiting \<Rightarrow> None, s\<lparr>yv_fq := q\<rparr>) \<and>
    fq_rep (boot_nodes demo_env) q (snd (spec_get [] 0 IMAGE_YUV (cbit 1) (Wait_ms ms) A))"
  using assms get_rep [of "boot_nodes demo_env" "yv_fq s" A "[]" "[]" 0 IMAGE_YUV "cbit 1" "Wait_ms ms"]
  by (auto simp: yuv_demo_def yuv_look_def)

lemma yuv_demo_others:
  assumes "yuv_demo s A (set P)" and "play1 IMAGE_YUV 2 ev (A, [], P) = Some (A', [], P')"
    and "by_consumer ev \<noteq> Some 1"
  shows "\<exists>q. yuv_demo (s\<lparr>yv_fq := q\<rparr>) A' (set P')"
  using client_sys_others [OF _ _ assms(2,3)] assms(1) by (fastforce simp: yuv_demo_def)

definition good_open :: yuv_open_env where
  "good_open = \<lparr>oe_malloc = True, oe_rott = BK_OK, oe_sem = BK_OK, oe_queue = BK_OK, oe_thread = BK_OK\<rparr>"

definition good_task :: yuv_task_env where
  "good_task = \<lparr>te_alloc = Some 500, te_config = BK_OK, te_enable = BK_OK, te_flush = BK_OK,
     te_timeout = True, te_rgb565 = 0\<rparr>"

text \<open>
  The display opens with a rotation by 90 degrees; a producer publishes frame 900. \<open>yuv_ready\<close>
  is the abstract state then.
\<close>

definition yuv_ready :: abs_state where
  "yuv_ready = fst (the (play IMAGE_YUV 2 [Ev_register 1, Ev_malloc (Some 900), Ev_complete 900]
     (booted demo_env, [], [])))"

abbreviation demo_task :: "nat \<Rightarrow> yuv_display_task_t" where
  "demo_task n \<equiv> \<lparr>yt_queue = Some [], yt_sem = Some n, task_running = True, rotate_enabled = True,
     rotate_angle = ROTATE_90, rotate_output_frame = None, display_handle = Some 7\<rparr>"

lemma yuv_demo_opened:
  "\<exists>s. yuv_demo s yuv_ready {} \<and> s_yuv_display s = Some (demo_task 0) \<and> yv_task s = Task_top None \<and>
     yv_ctl s = Ctl_idle \<and> yv_rot s = None \<and> yv_shown s = [] \<and> yv_live s = []"
proof -
  obtain q where 0: "yuv_demo (yuv_start q) (booted demo_env) {}"
    using yuv_demo_boot by blast
  let ?A = "snd (spec_register IMAGE_YUV (cbit 1) (booted demo_env))"
  have ok: "fst (spec_register IMAGE_YUV (cbit 1) (booted demo_env)) = BK_OK" by code_simp
  from yuv_demo_register [OF 0] ok obtain q1 where
    1: "frame_queue_v2_register_consumer IMAGE_YUV (cbit 1) q = Some (BK_OK, q1)"
    and rep: "fq_rep (boot_nodes demo_env) q1 ?A"
    by (auto simp: yuv_start_def)
  let ?t = "\<lparr>yt_queue = Some [], yt_sem = Some 0, task_running = False, rotate_enabled = True,
     rotate_angle = ROTATE_90, rotate_output_frame = None, display_handle = Some 7\<rparr>"
  obtain s1 where exec: "yuv_exec (Do_open good_open (Some (Some 7)) 90) (yuv_start q) = Some s1"
    and s1: "yv_fq s1 = q1" "s_yuv_display s1 = Some ?t" "yv_task s1 = Task_created"
      "yv_ctl s1 = Ctl_open_wait" "yv_rot s1 = None" "yv_shown s1 = []" "yv_live s1 = []"
    using 1 by (simp add: yuv_start_def yuv_display_open_def yuv_open_resources_def good_open_def Let_def
        get_rotate_angle_def hw_rotation_def yuv_task_zero_def)
  have "yuv_demo s1 ?A {}"
    by (rule yuv_demo_own_step [OF 0 _ exec]) (use rep in \<open>simp_all add: yuv_calm_def s1\<close>)
  then have 2: "yuv_demo (s1\<lparr>s_yuv_display := Some (demo_task 1), yv_task := Task_top None\<rparr>) ?A {}"
    by (rule yuv_demo_own_step [where a = "Do_task good_task"])
      (use rep in \<open>simp_all add: yuv_calm_def s1 good_task_def yuv_display_task_step_def set_sem_def\<close>)
  then have 3: "yuv_demo (s1\<lparr>s_yuv_display := Some (demo_task 0), yv_task := Task_top None, yv_ctl := Ctl_idle\<rparr>)
      ?A (set [])"
    by (subst list.set, rule yuv_demo_own_step [where a = Do_ctl])
      (use rep in \<open>simp_all add: yuv_calm_def s1 yuv_ctl_step_def take_sem_def\<close>)
  obtain A1 where p1: "play1 IMAGE_YUV 2 (Ev_malloc (Some 900)) (?A, [], []) = Some (A1, [], [900])"
    and p2: "play1 IMAGE_YUV 2 (Ev_complete 900) (A1, [], [900]) = Some (yuv_ready, [], [])"
  proof -
    have "map_option snd (play1 IMAGE_YUV 2 (Ev_malloc (Some 900)) (?A, [], [])) = Some ([], [900])"
      by code_simp
    then obtain A1 where A1: "play1 IMAGE_YUV 2 (Ev_malloc (Some 900)) (?A, [], []) = Some (A1, [], [900])"
      by auto
    have "play IMAGE_YUV 2 [Ev_register 1, Ev_malloc (Some 900), Ev_complete 900] (booted demo_env, [], []) \<noteq> None"
      by code_simp
    with A1 that [OF A1] show ?thesis by (simp add: yuv_ready_def)
  qed
  from yuv_demo_others [OF 3 p1] obtain q2 where 4: "yuv_demo (s1\<lparr>s_yuv_display := Some (demo_task 0),
      yv_task := Task_top None, yv_ctl := Ctl_idle, yv_fq := q2\<rparr>) A1 (set [900])" by auto
  from yuv_demo_others [OF 4 p2] obtain q3 where 5: "yuv_demo (s1\<lparr>s_yuv_display := Some (demo_task 0),
      yv_task := Task_top None, yv_ctl := Ctl_idle, yv_fq := q3\<rparr>) yuv_ready (set [])" by auto
  show ?thesis by (rule exI, rule conjI, rule 5 [unfolded list.set(1)]) (simp add: s1)
qed

text \<open>The task takes the frame and has the engine rotate it into buffer 500.\<close>

definition demo_taken :: abs_state where
  "demo_taken = snd (spec_get [] 0 IMAGE_YUV (cbit 1) (Wait_ms 10) yuv_ready)"

lemma yuv_demo_rotating:
  "\<exists>s. yuv_demo s demo_taken {} \<and> yv_task s = Task_top (Some 900) \<and> yv_rot s = Some (900, 500)"
proof -
  obtain s where 0: "yuv_demo s yuv_ready {}" and s: "s_yuv_display s = Some (demo_task 0)"
      "yv_task s = Task_top None" "yv_ctl s = Ctl_idle" "yv_rot s = None" "yv_shown s = []" "yv_live s = []"
    using yuv_demo_opened by blast
  have 1: "yuv_demo (s\<lparr>yv_task := Task_get None\<rparr>) yuv_ready {}"
    by (rule yuv_demo_own_step [OF 0, where a = "Do_task good_task"])
      (use 0 in \<open>simp_all add: yuv_calm_def s good_task_def yuv_display_task_step_def yuv_pop_def yuv_demo_def\<close>)
  have got: "fst (spec_get [] 0 IMAGE_YUV (cbit 1) (Wait_ms 10) yuv_ready) = Got (Some 900)"
    unfolding yuv_ready_def by code_simp
  from yuv_demo_look [OF 1, of 10] got obtain q where
    look: "yuv_look 10 (s\<lparr>yv_task := Task_get None\<rparr>) = Some (Some 900, s\<lparr>yv_task := Task_get None, yv_fq := q\<rparr>)"
    and rep: "fq_rep (boot_nodes demo_env) q demo_taken"
    by (auto simp: demo_taken_def)
  have 2: "yuv_demo (s\<lparr>yv_task := Task_process 900, yv_fq := q\<rparr>) demo_taken {}"
    by (rule yuv_demo_own_step [OF 1, where a = "Do_task good_task"])
      (use look rep in \<open>simp_all add: yuv_calm_def s good_task_def yuv_display_task_step_def\<close>)
  obtain s3 where exec: "yuv_exec (Do_task good_task) (s\<lparr>yv_task := Task_process 900, yv_fq := q\<rparr>) = Some s3"
    and s3: "yv_fq s3 = q" "yv_task s3 = Task_top (Some 900)" "yv_rot s3 = Some (900, 500)"
    by (simp add: s yuv_display_task_step_def yuv_display_process_frame_def prepare_output_def good_task_def
        hw_rotation_def Let_def)
  have "yuv_demo s3 demo_taken {}"
    by (rule yuv_demo_own_step [OF 2 _ exec]) (simp_all add: yuv_calm_def s s3 good_task_def hw_rotation_def rep)
  with s3 show ?thesis by blast
qed

section \<open>Frames and buffers the hardware uses\<close>





section \<open>Closing ends\<close>

lemma release_yuv_rep:
  assumes "fq_rep X (yv_fq s) A"
  shows "\<exists>q. release_yuv f s = Some (s\<lparr>yv_fq := q\<rparr>) \<and> fq_rep X q (spec_release IMAGE_YUV (cbit 1) f A)"
  using release_rep [OF assms, of IMAGE_YUV "cbit 1" f] by (auto simp: release_yuv_def)

lemma yuv_look_rep:
  assumes "fq_rep X (yv_fq s) A"
  shows "\<exists>q. yuv_look ms s =
      Some (case fst (spec_get [] 0 IMAGE_YUV (cbit 1) (Wait_ms ms) A) of Got f \<Rightarrow> f | Waiting \<Rightarrow> None, s\<lparr>yv_fq := q\<rparr>) \<and>
    fq_rep X q (snd (spec_get [] 0 IMAGE_YUV (cbit 1) (Wait_ms ms) A))"
  using get_rep [OF assms, of "[]" "[]" 0 IMAGE_YUV "cbit 1" "Wait_ms ms"] by (auto simp: yuv_look_def)

subsection \<open>The task reaches its end\<close>

text \<open>How many steps the task takes at most before it has read the stop message.\<close>

fun pc_rank :: "yuv_task_pc \<Rightarrow> nat" where
  "pc_rank (Task_get p) = 3"
| "pc_rank (Task_process f) = 2"
| "pc_rank (Task_failed f) = 1"
| "pc_rank pc = 0"

definition stop_rank :: "yuv_display_event_t list \<Rightarrow> yuv_task_pc \<Rightarrow> nat" where
  "stop_rank q pc = 4 * length (takeWhile (\<lambda>ev. ev \<noteq> YUV_DISPLAY_EVENT_STOP) q) + pc_rank pc"

text \<open>A stop message is on its way to a running task; \<open>r\<close> bounds the steps until it is read.\<close>

definition stopping :: "(nat \<Rightarrow> node_ptr set) \<Rightarrow> yuv_state \<Rightarrow> nat \<Rightarrow> bool" where
  "stopping X s r \<longleftrightarrow> alive (yv_task s) \<and> (\<exists>A. fq_rep X (yv_fq s) A) \<and>
     (\<exists>t q n. s_yuv_display s = Some t \<and> task_running t \<and> yt_queue t = Some q \<and> yt_sem t = Some n \<and>
        YUV_DISPLAY_EVENT_STOP \<in> set q \<and> stop_rank q (yv_task s) = r)"

text \<open>The task has read the stop message.\<close>

definition stopped :: "(nat \<Rightarrow> node_ptr set) \<Rightarrow> yuv_state \<Rightarrow> bool" where
  "stopped X s \<longleftrightarrow> (\<exists>A p t n. fq_rep X (yv_fq s) A \<and> yv_task s = Task_exit p \<and> s_yuv_display s = Some t \<and>
     yt_sem t = Some n)"

lemma process_total:
  assumes "fq_rep X (yv_fq s) A" and "s_yuv_display s = Some t"
  shows "\<exists>ret s' A' g. yuv_display_process_frame env (Some f) s = Some (ret, s') \<and> fq_rep X (yv_fq s') A' \<and>
    s_yuv_display s' = Some (t\<lparr>rotate_output_frame := g\<rparr>) \<and> yv_ctl s' = yv_ctl s"
proof -
  have id: "t\<lparr>rotate_output_frame := rotate_output_frame t\<rparr> = t" by (cases t) simp
  show ?thesis
  proof (cases "hw_rotation t")
    case True
    obtain out s1 where 1: "prepare_output env f t s = (out, s1)"
      by (cases "prepare_output env f t s")
    then have "yv_fq s1 = yv_fq s" "yv_ctl s1 = yv_ctl s" "s_yuv_display s1 = Some (t\<lparr>rotate_output_frame := out\<rparr>)"
      using assms(2) id by (auto simp: prepare_output_def Let_def split: option.splits)
    with assms True 1 show ?thesis
      by (auto simp: yuv_display_process_frame_def Let_def split: option.splits)
  next
    case False
    have flush: "yv_fq (display_flush r d f False s) = yv_fq s" "yv_ctl (display_flush r d f False s) = yv_ctl s"
      "s_yuv_display (display_flush r d f False s) = s_yuv_display s" for r d
      by (simp_all add: display_flush_def Let_def)
    have free: "\<exists>s' A'. yuv_display_frame_free_cb (Some f) s1 = Some s' \<and> fq_rep X (yv_fq s') A' \<and>
        s_yuv_display s' = Some t \<and> yv_ctl s' = yv_ctl s"
      if "yv_fq s1 = yv_fq s" "s_yuv_display s1 = Some t" "yv_ctl s1 = yv_ctl s" for s1
      using release_yuv_rep [of X s1 A "Some f"] assms(1) that by (auto simp: yuv_display_frame_free_cb_def)
    show ?thesis
    proof (cases "display_handle t")
      case None
      with free [OF refl assms(2) refl] assms(2) False show ?thesis
        by (auto simp: yuv_display_process_frame_def intro!: exI [of _ "rotate_output_frame t"] simp: id)
    next
      case (Some d)
      let ?s = "display_flush (te_flush env) d f False s"
      from free [of ?s] flush assms(2) obtain s2 A2 where
        2: "yuv_display_frame_free_cb (Some f) ?s = Some s2" "fq_rep X (yv_fq s2) A2"
          "s_yuv_display s2 = Some t" "yv_ctl s2 = yv_ctl s" by auto
      show ?thesis
      proof (cases "te_flush env = BK_OK")
        case True
        then have "yuv_display_process_frame env (Some f) s = Some (BK_OK, ?s)"
          using False Some assms(2) by (simp add: yuv_display_process_frame_def Let_def)
        with flush assms id show ?thesis by metis
      next
        case nok: False
        then have "yuv_display_process_frame env (Some f) s = Some (te_flush env, s2)"
          using False Some assms(2) 2 by (simp add: yuv_display_process_frame_def Let_def)
        with 2 id show ?thesis by metis
      qed
    qed
  qed
qed

lemma rotation_complete_total:
  assumes "fq_rep X (yv_fq s) A" and "s_yuv_display s = Some t"
  shows "\<exists>ret s' A' g. yuv_display_rotation_complete env src s = Some (ret, s') \<and> fq_rep X (yv_fq s') A' \<and>
    s_yuv_display s' = Some (t\<lparr>rotate_output_frame := g\<rparr>) \<and> yv_ctl s' = yv_ctl s"
proof (cases "rotate_output_frame t")
  case None
  then have "t\<lparr>rotate_output_frame := None\<rparr> = t" by (cases t) simp
  with None assms show ?thesis by (auto simp: yuv_display_rotation_complete_def intro!: exI [of _ None])
next
  case (Some g)
  obtain q A' where rel: "(case src of None \<Rightarrow> Some s | Some f \<Rightarrow> release_yuv (Some f) s) = Some (s\<lparr>yv_fq := q\<rparr>)"
    and rep: "fq_rep X q A'"
  proof (cases src)
    case None
    with that [of "yv_fq s" A] assms(1) show ?thesis by simp
  next
    case (Some f)
    with release_yuv_rep [OF assms(1), of "Some f"] that show ?thesis by auto
  qed
  have "yv_fq (display_flush r d g True s1) = yv_fq s1" "yv_ctl (display_flush r d g True s1) = yv_ctl s1" for r d s1
    by (simp_all add: display_flush_def Let_def)
  with Some assms(2) rel rep show ?thesis
    by (auto simp: yuv_display_rotation_complete_def Let_def intro!: exI [of _ None] split: option.splits)
qed

lemma stop_step:
  assumes "stopping X s r" and "te_timeout env"
  shows "\<exists>s'. yuv_display_task_step env s = Some s' \<and> yv_ctl s' = yv_ctl s \<and>
    (stopped X s' \<or> (\<exists>r' < r. stopping X s' r'))"
proof -
  from assms(1) obtain A t q n where rep: "fq_rep X (yv_fq s) A" and d: "s_yuv_display s = Some t"
    and t: "task_running t" "yt_queue t = Some q" "yt_sem t = Some n" "YUV_DISPLAY_EVENT_STOP \<in> set q"
    and live: "alive (yv_task s)" and r: "r = stop_rank q (yv_task s)"
    by (auto simp: stopping_def)
  show ?thesis
  proof (cases "yv_task s")
    case (Task_top p)
    obtain msg ms where q: "q = msg # ms" using t(4) by (cases q) auto
    let ?s = "s\<lparr>s_yuv_display := Some (t\<lparr>yt_queue := Some ms\<rparr>)\<rparr>"
    show ?thesis
    proof (cases msg)
      case YUV_DISPLAY_EVENT_STOP
      with d t rep Task_top show ?thesis
        by (simp add: yuv_display_task_step_def yuv_pop_def Let_def q stopped_def) blast
    next
      case YUV_DISPLAY_EVENT_START
      with d t rep Task_top show ?thesis
        by (auto simp: yuv_display_task_step_def yuv_pop_def Let_def q r stopping_def stop_rank_def)
    next
      case YUV_DISPLAY_EVENT_FRAME_READY
      from rotation_complete_total [of X ?s A "t\<lparr>yt_queue := Some ms\<rparr>" env p] rep obtain ret s1 A1 g where
        1: "yuv_display_rotation_complete env p ?s = Some (ret, s1)" "fq_rep X (yv_fq s1) A1"
          "s_yuv_display s1 = Some (t\<lparr>yt_queue := Some ms, rotate_output_frame := g\<rparr>)" "yv_ctl s1 = yv_ctl s"
        by auto
      with d t Task_top YUV_DISPLAY_EVENT_FRAME_READY show ?thesis
        by (auto simp: yuv_display_task_step_def yuv_pop_def Let_def q r stopping_def stop_rank_def)
    qed
  next
    case (Task_get p)
    show ?thesis
    proof (cases p)
      case None
      from yuv_look_rep [OF rep, of 10] obtain g q' A' where
        "yuv_look 10 s = Some (g, s\<lparr>yv_fq := q'\<rparr>)" "fq_rep X q' A'" by blast
      with d t Task_get None assms(2) show ?thesis
        by (cases g) (auto simp: yuv_display_task_step_def r stopping_def stop_rank_def)
    next
      case (Some f)
      with d t rep Task_get show ?thesis
        by (auto simp: yuv_display_task_step_def r stopping_def stop_rank_def)
    qed
  next
    case (Task_process f)
    from process_total [OF rep d, of env f] obtain ret s1 A1 g where
      "yuv_display_process_frame env (Some f) s = Some (ret, s1)" "fq_rep X (yv_fq s1) A1"
        "s_yuv_display s1 = Some (t\<lparr>rotate_output_frame := g\<rparr>)" "yv_ctl s1 = yv_ctl s" by blast
    with d t Task_process show ?thesis
      by (auto simp: yuv_display_task_step_def r stopping_def stop_rank_def)
  next
    case (Task_failed f)
    from release_yuv_rep [OF rep, of "Some f"] d t Task_failed show ?thesis
      by (auto simp: yuv_display_task_step_def r stopping_def stop_rank_def)
  qed (use live in simp_all)
qed

lemma stopped_step:
  assumes "stopped X s"
  shows "\<exists>s' A t. yuv_display_task_step env s = Some s' \<and> yv_ctl s' = yv_ctl s \<and> fq_rep X (yv_fq s') A \<and>
    yv_task s' = Task_none \<and> s_yuv_display s' = Some t \<and> yt_sem t = Some 1"
proof -
  from assms obtain A p t n where rep: "fq_rep X (yv_fq s) A" and "yv_task s = Task_exit p"
    "s_yuv_display s = Some t" "yt_sem t = Some n" by (auto simp: stopped_def)
  moreover obtain q A' where "(case p of None \<Rightarrow> Some s | Some f \<Rightarrow> release_yuv (Some f) s) = Some (s\<lparr>yv_fq := q\<rparr>)"
    and "fq_rep X q A'"
  proof (cases p)
    case None
    with that [of "yv_fq s" A] rep show ?thesis by simp
  next
    case (Some f)
    with release_yuv_rep [OF rep, of "Some f"] that show ?thesis by auto
  qed
  ultimately show ?thesis
    by (auto simp: yuv_display_task_step_def Let_def set_sem_def)
qed

lemma stop_run:
  assumes "stopping X s r" and "\<forall>j. te_timeout (envs j)"
  shows "\<exists>n s' A t. n \<le> r + 2 \<and> yuv_run (map (\<lambda>j. Do_task (envs j)) [k..<k + n]) s = Some s' \<and>
    yv_ctl s' = yv_ctl s \<and> fq_rep X (yv_fq s') A \<and> yv_task s' = Task_none \<and> s_yuv_display s' = Some t \<and>
    yt_sem t = Some 1"
  using assms(1)
proof (induction r arbitrary: s k rule: less_induct)
  case (less r)
  from stop_step [OF less.prems] assms(2) obtain s1 where
    1: "yuv_display_task_step (envs k) s = Some s1" "yv_ctl s1 = yv_ctl s"
    and next_state: "stopped X s1 \<or> (\<exists>r' < r. stopping X s1 r')" by blast
  from next_state show ?case
  proof
    assume "stopped X s1"
    from stopped_step [OF this, of "envs (Suc k)"] 1 show ?thesis
      by (intro exI [of _ 2]) (auto simp: upt_conv_Cons)
  next
    assume "\<exists>r' < r. stopping X s1 r'"
    then obtain r' where r': "r' < r" "stopping X s1 r'" by blast
    from less.IH [OF r', of "Suc k"] obtain n s' A t where n: "n \<le> r' + 2"
      and run: "yuv_run (map (\<lambda>j. Do_task (envs j)) [Suc k..<Suc k + n]) s1 = Some s'"
      and rest: "yv_ctl s' = yv_ctl s1" "fq_rep X (yv_fq s') A" "yv_task s' = Task_none"
        "s_yuv_display s' = Some t" "yt_sem t = Some 1" by blast
    have "yuv_run (map (\<lambda>j. Do_task (envs j)) [k..<k + Suc n]) s = Some s'"
      using run 1 by (simp add: upt_conv_Cons del: upt_Suc)
    with rest 1 n r' show ?thesis by (intro exI [of _ "Suc n"]) auto
  qed
qed

subsection \<open>The caller drains the queue\<close>

definition wanted_count :: "abs_state \<Rightarrow> nat" where
  "wanted_count A = length (filter (wanted (cbit 1)) (a_ready (as_queues A ! 2)))"

lemma wanted_accessed: "\<not> wanted (cbit 1) (nd\<lparr>ref_count := r, accessed_mask := accessed_mask nd OR cbit 1\<rparr>)"
proof -
  have "bit ((accessed_mask nd OR cbit 1) AND cbit 1) 1" by (simp add: bit_simps bit_cbit)
  then have "(accessed_mask nd OR cbit 1) AND cbit 1 \<noteq> 0" by auto
  then show ?thesis by (simp add: wanted_def)
qed

lemma get_wanted:
  assumes "a_get c (cbit 1) a = (Some r, a')"
  shows "length (filter (wanted (cbit 1)) (a_ready a)) = Suc (length (filter (wanted (cbit 1)) (a_ready a')))"
proof -
  from assms obtain pre nd post where x: "List.extract (wanted (cbit 1)) (a_ready a) = Some (pre, nd, post)"
    and ready: "a_ready a' = pre @ nd\<lparr>ref_count := ref_count nd + 1,
        accessed_mask := accessed_mask nd OR cbit 1\<rparr> # post"
    by (auto simp: a_get_def upd_consumer_def split: option.splits)
  from extract_SomeD [OF x] ready wanted_accessed [of nd "ref_count nd + 1"] show ?thesis by simp
qed

lemma release_wanted:
  "length (filter (wanted cid) (a_ready (snd (a_release c f a)))) \<le> length (filter (wanted cid) (a_ready a))"
proof (cases "List.extract (\<lambda>nd. nd_frame nd = Some f) (a_ready a)")
  case None
  then show ?thesis by (simp add: a_release_def)
next
  case (Some x)
  then obtain pre nd post where x: "x = (pre, nd, post)" by (cases x)
  have "wanted cid (drop_ref nd) = wanted cid nd" by (simp add: drop_ref_def wanted_def)
  with extract_SomeD [OF Some [unfolded x]] Some x show ?thesis
    by (simp add: a_release_def Let_def upd_consumer_def)
qed

text \<open>A frame the drain finds is given back, and one frame less waits for the display.\<close>

lemma drained_less:
  assumes rep: "fq_rep X q A"
    and found: "fst (spec_get [] 0 IMAGE_YUV (cbit 1) (Wait_ms 0) A) = Got (Some f)"
  shows "wanted_count (spec_release IMAGE_YUV (cbit 1) (Some f)
    (snd (spec_get [] 0 IMAGE_YUV (cbit 1) (Wait_ms 0) A))) < wanted_count A"
proof -
  have yuv_index: "a_index IMAGE_YUV B = Some j \<Longrightarrow> j = 2" for B j
    by (auto simp: a_index_def get_frame_buffer_list_index_def split: if_splits)
  have index: "a_index IMAGE_YUV A = Some 2"
    using found yuv_index by (cases "a_index IMAGE_YUV A") (auto simp: spec_get_def)
  have len: "length (as_queues A) = 3" using fq_rep_length [OF rep] by simp
  obtain a' where get: "a_get 1 (cbit 1) (as_queues A ! 2) = (Some (Some f), a')"
    and g: "snd (spec_get [] 0 IMAGE_YUV (cbit 1) (Wait_ms 0) A) = put_abs 2 a' A"
    using found index by (auto simp: spec_get_def consumer_idx_cbit spec_get_loop.simps Let_def
        split: if_splits prod.splits option.splits)
  have "wanted_count (spec_release IMAGE_YUV (cbit 1) (Some f) (put_abs 2 a' A)) \<le> wanted_count (put_abs 2 a' A)"
    using release_wanted [of "cbit 1" 1 f a'] len
    by (auto simp: wanted_count_def spec_release_def consumer_idx_cbit Let_def split_beta
        dest!: yuv_index split: option.splits)
  also have "\<dots> < wanted_count A"
    using get_wanted [OF get] len by (simp add: wanted_count_def)
  finally show ?thesis unfolding g .
qed

lemma drain_again:
  assumes rep: "fq_rep X (yv_fq s) A" and disp: "s_yuv_display s = Some t" and ctl: "yv_ctl s = Ctl_drain"
    and found: "fst (spec_get [] 0 IMAGE_YUV (cbit 1) (Wait_ms 0) A) = Got (Some f)"
  obtains q A' where "yuv_run [Do_ctl, Do_ctl] s = Some (s\<lparr>yv_fq := q, yv_ctl := Ctl_drain\<rparr>)"
    and "fq_rep X q A'" and "wanted_count A' < wanted_count A"
proof -
  let ?A = "snd (spec_get [] 0 IMAGE_YUV (cbit 1) (Wait_ms 0) A)"
  from yuv_look_rep [OF rep, of 0] found obtain q where
    look: "yuv_look 0 s = Some (Some f, s\<lparr>yv_fq := q\<rparr>)" and q: "fq_rep X q ?A"
    by auto
  let ?s = "s\<lparr>yv_fq := q, yv_ctl := Ctl_release f\<rparr>"
  from release_yuv_rep [of X ?s ?A "Some f"] q obtain q' where
    rel: "release_yuv (Some f) ?s = Some (?s\<lparr>yv_fq := q'\<rparr>)"
    and q': "fq_rep X q' (spec_release IMAGE_YUV (cbit 1) (Some f) ?A)" by auto
  have "yuv_ctl_step s = Some ?s" using look disp ctl by (simp add: yuv_ctl_step_def)
  moreover have "yuv_ctl_step ?s = Some (s\<lparr>yv_fq := q', yv_ctl := Ctl_drain\<rparr>)"
    using rel disp by (simp add: yuv_ctl_step_def)
  ultimately show ?thesis
    using that [OF _ q' drained_less [OF rep found]] by simp
qed

text \<open>With nothing found the consumer is unregistered and the display is taken down.\<close>

lemma drain_last:
  assumes rep: "fq_rep X (yv_fq s) A" and disp: "s_yuv_display s = Some t" and ctl: "yv_ctl s = Ctl_drain"
    and none: "\<And>f. fst (spec_get [] 0 IMAGE_YUV (cbit 1) (Wait_ms 0) A) \<noteq> Got (Some f)"
  obtains q where "yuv_run [Do_ctl, Do_ctl] s = Some (yuv_teardown (s\<lparr>yv_fq := q, yv_ctl := Ctl_idle\<rparr>))"
proof -
  have "(case fst (spec_get [] 0 IMAGE_YUV (cbit 1) (Wait_ms 0) A) of Got f \<Rightarrow> f | Waiting \<Rightarrow> None) = None"
    using none by (cases "fst (spec_get [] 0 IMAGE_YUV (cbit 1) (Wait_ms 0) A)") auto
  with yuv_look_rep [OF rep, of 0] obtain q where look: "yuv_look 0 s = Some (None, s\<lparr>yv_fq := q\<rparr>)"
    and q: "fq_rep X q (snd (spec_get [] 0 IMAGE_YUV (cbit 1) (Wait_ms 0) A))"
    by auto
  let ?s = "s\<lparr>yv_fq := q, yv_ctl := Ctl_cleanup\<rparr>"
  from unregister_rep [OF q, of IMAGE_YUV "cbit 1"] obtain r q' where
    un: "frame_queue_v2_unregister_consumer IMAGE_YUV (cbit 1) q = Some (r, q')" by blast
  have "yuv_ctl_step s = Some ?s" using look disp ctl by (simp add: yuv_ctl_step_def)
  moreover have "yuv_ctl_step ?s = Some (yuv_teardown (s\<lparr>yv_fq := q', yv_ctl := Ctl_idle\<rparr>))"
    using un disp by (simp add: yuv_ctl_step_def)
  ultimately show ?thesis using that [of q'] by simp
qed

lemma drain_run:
  assumes "fq_rep X (yv_fq s) A" and "s_yuv_display s \<noteq> None" and "yv_ctl s = Ctl_drain"
  shows "\<exists>m s'. m \<le> 2 * wanted_count A + 2 \<and> yuv_run (replicate m Do_ctl) s = Some s' \<and>
    s_yuv_display s' = None \<and> yv_ctl s' = Ctl_idle \<and> yv_task s' = yv_task s"
  using assms
proof (induction "wanted_count A" arbitrary: s A rule: less_induct)
  case less
  obtain t where t: "s_yuv_display s = Some t" using less.prems(2) by blast
  show ?case
  proof (cases "\<exists>f. fst (spec_get [] 0 IMAGE_YUV (cbit 1) (Wait_ms 0) A) = Got (Some f)")
    case True
    then obtain f where "fst (spec_get [] 0 IMAGE_YUV (cbit 1) (Wait_ms 0) A) = Got (Some f)" by blast
    from drain_again [OF less.prems(1) t less.prems(3) this] obtain q A' where
      two: "yuv_run [Do_ctl, Do_ctl] s = Some (s\<lparr>yv_fq := q, yv_ctl := Ctl_drain\<rparr>)"
      and rep: "fq_rep X q A'" and dec: "wanted_count A' < wanted_count A" .
    from less.hyps [OF dec, of "s\<lparr>yv_fq := q, yv_ctl := Ctl_drain\<rparr>"] rep t obtain m s' where
      m: "m \<le> 2 * wanted_count A' + 2"
      and run: "yuv_run (replicate m Do_ctl) (s\<lparr>yv_fq := q, yv_ctl := Ctl_drain\<rparr>) = Some s'"
      and rest: "s_yuv_display s' = None" "yv_ctl s' = Ctl_idle" "yv_task s' = yv_task s" by auto
    have "yuv_run (replicate (Suc (Suc m)) Do_ctl) s = Some s'"
      using two run by (auto split: bind_splits)
    with m dec rest show ?thesis by (intro exI [of _ "Suc (Suc m)"] exI [of _ s']) auto
  next
    case False
    then obtain q where "yuv_run [Do_ctl, Do_ctl] s = Some (yuv_teardown (s\<lparr>yv_fq := q, yv_ctl := Ctl_idle\<rparr>))"
      using drain_last [OF less.prems(1) t less.prems(3)] by blast
    then show ?thesis
      by (intro exI [of _ 2] exI [of _ "yuv_teardown (s\<lparr>yv_fq := q, yv_ctl := Ctl_idle\<rparr>)"])
        (simp add: numeral_2_eq_2)
  qed
qed

lemma few_wanted:
  assumes "fq_rep (boot_nodes env) q A"
  shows "wanted_count A \<le> 3"
proof -
  have "(2::nat) < 3" by simp
  from fq_rep_queue [OF assms this] obtain fs rs where
    wf: "qwf (st_heap q) (boot_nodes env 2) {} (get_queue 2 q) fs rs"
    and a: "as_queues A ! 2 = absq (get_queue 2 q) fs rs" by (rule qrepE)
  have "set rs \<subseteq> boot_nodes env 2" "distinct rs"
    using qwf_distinct [OF wf] by auto
  moreover have "finite (boot_nodes env 2)" by (simp add: boot_nodes_def)
  ultimately have "length rs \<le> card (boot_nodes env 2)"
    by (metis card_mono distinct_card)
  also have "\<dots> \<le> 3" using created_card [of "env IMAGE_YUV" 3] by (simp add: boot_nodes_def)
  finally have "length (a_ready (as_queues A ! 2)) \<le> 3" by (simp add: a get_queue_def)
  then show ?thesis unfolding wanted_count_def using length_filter_le le_trans by blast
qed

lemma yuv_run_append: "yuv_run (as @ bs) s = Option.bind (yuv_run as s) (yuv_run bs)"
  by (induction as arbitrary: s) (auto split: Option.bind_splits)

text \<open>
  The three parts of a close: the caller sends its stop message to a queue that has room, the
  task ends, and the caller drains what is left.
\<close>

lemma close_sends_stop:
  assumes inv: "yuv_inv s" and rep: "fq_rep X (yv_fq s) A" and stop: "yv_ctl s = Ctl_stop"
  obtains s1 k where "yuv_exec Do_ctl s = Some s1" and "yv_ctl s1 = Ctl_close_wait"
    and "stopping X s1 k" and "k \<le> 7"
proof -
  obtain t where t: "s_yuv_display s = Some t"
    using yuv_invD(3) [OF inv] stop by (auto simp: phase_inv_def split: option.splits)
  from phase_invE [OF yuv_invD(3) [OF inv] t] obtain q n where
    q: "yt_queue t = Some q" "yt_sem t = Some n" "YUV_DISPLAY_EVENT_START \<notin> set q"
    and ctl: "ctl_ok Ctl_stop (yv_task s) (task_running t) n (count_msg YUV_DISPLAY_EVENT_STOP q)"
    and rot: "rot_ok (yv_task s) t (count_msg YUV_DISPLAY_EVENT_FRAME_READY q) (yv_rot s)"
    unfolding stop .
  have short: "length q \<le> 1"
    using length_msgs [OF q(3)] ctl rot by (simp add: ctl_ok_ctl rot_ok_def)
  let ?s = "s\<lparr>s_yuv_display := Some (t\<lparr>yt_queue := Some (q @ [YUV_DISPLAY_EVENT_STOP])\<rparr>),
    yv_ctl := Ctl_close_wait\<rparr>"
  have "yuv_exec Do_ctl s = Some ?s"
    using stop t q short by (simp add: yuv_ctl_step_def push_msg_def)
  moreover have "stopping X ?s (stop_rank (q @ [YUV_DISPLAY_EVENT_STOP]) (yv_task s))"
    using ctl rep q by (auto simp: stopping_def ctl_ok_ctl)
  moreover have "yv_ctl ?s = Ctl_close_wait" by simp
  moreover have "stop_rank (q @ [YUV_DISPLAY_EVENT_STOP]) (yv_task s) \<le> 7"
  proof -
    have "pc_rank (yv_task s) \<le> 3" by (cases "yv_task s") auto
    moreover have "length (takeWhile (\<lambda>ev. ev \<noteq> YUV_DISPLAY_EVENT_STOP) (q @ [YUV_DISPLAY_EVENT_STOP])) \<le> 1"
      using order_trans [OF length_takeWhile_le short] by (simp add: takeWhile_tail)
    ultimately show ?thesis unfolding stop_rank_def by linarith
  qed
  ultimately show ?thesis
    using that [of ?s "stop_rank (q @ [YUV_DISPLAY_EVENT_STOP]) (yv_task s)"] by blast
qed

lemma close_drains:
  assumes "yv_ctl s = Ctl_close_wait" and rep: "fq_rep (boot_nodes env) (yv_fq s) A" and "yv_task s = Task_none"
    and "s_yuv_display s = Some t" and "yt_sem t = Some 1"
  obtains m s' where "m \<le> 9" and "yuv_run (replicate m Do_ctl) s = Some s'"
    and "s_yuv_display s' = None" and "yv_ctl s' = Ctl_idle" and "yv_task s' = Task_none"
proof -
  let ?s = "yuv_log [Delay_ms 100] (s\<lparr>s_yuv_display := Some (t\<lparr>yt_sem := Some 0\<rparr>), yv_ctl := Ctl_drain\<rparr>)"
  have 1: "yuv_exec Do_ctl s = Some ?s"
    using assms by (simp add: yuv_ctl_step_def take_sem_def)
  from drain_run [of "boot_nodes env" ?s A] assms obtain m s' where m: "m \<le> 2 * wanted_count A + 2"
    and 2: "yuv_run (replicate m Do_ctl) ?s = Some s'" "s_yuv_display s' = None" "yv_ctl s' = Ctl_idle"
      "yv_task s' = Task_none"
    by auto
  have "Suc m \<le> 9" using m few_wanted [OF rep] by linarith
  moreover have "yuv_run (replicate (Suc m) Do_ctl) s = Some s'"
    using 1 2(1) by (simp del: yuv_exec.simps)
  ultimately show ?thesis using that 2(2-4) by blast
qed



section \<open>The edges\<close>

text \<open>
  The two cases that \<open>yuv_calm\<close> leaves out. A flush without rotation that fails: the frame is
  released in \<open>yuv_display_process_frame\<close>, and once more by the task.
\<close>

lemma failed_flush_releases_twice:
  assumes "s_yuv_display s = Some t" and "\<not> hw_rotation t" and "display_handle t = Some d"
    and "te_flush env \<noteq> BK_OK" and "yv_task s = Task_process f"
    and "yuv_run [Do_task env, Do_task env] s = Some s'"
  shows "\<exists>q. frame_queue_v2_release_frame IMAGE_YUV CONSUMER_DECODER (Some f) (yv_fq s) = Some q \<and>
    frame_queue_v2_release_frame IMAGE_YUV CONSUMER_DECODER (Some f) q = Some (yv_fq s')"
  using assms
  by (auto simp: yuv_display_task_step_def yuv_display_process_frame_def display_flush_def yuv_log_def
      yuv_display_frame_free_cb_def release_yuv_def Let_def split: Option.bind_splits)

text \<open>
  A stop message that arrives while the engine rotates: the task ends, and the output buffer is
  free while the engine still writes to it.
\<close>

lemma stop_frees_buffer_in_use:
  assumes "s_yuv_display s = Some t" and "yv_task s = Task_exit (Some f)"
    and "yv_rot s = Some (f, g)" and "rotate_output_frame t = Some g" and "distinct (yv_live s)"
    and "yuv_display_task_step env s = Some s'"
  shows "yv_rot s' = Some (f, g) \<and> g \<notin> set (yv_live s')"
  using assms
  by (auto simp: yuv_display_task_step_def release_yuv_def yuv_display_rotate_frame_free_cb_def yuv_log_def
      Let_def split: Option.bind_splits)

end
