(* ===== verification/Video_Transfer.thy ===== *)
theory Video_Transfer
  imports Frame_Queue
begin

text \<open>
  The transfer task of \<^verbatim>\<open>components/smart_lock/src/doorbell_devices.c\<close>: it takes frames from a
  queue and sends them over the network, from \<^verbatim>\<open>doorbell_devices_start\<close> to
  \<^verbatim>\<open>doorbell_devices_stop\<close>.

  State. \<open>trans_state\<close> is the frame queue, the structure \<open>s_db_trans_cfg\<close>, where the task and the
  calling thread are, the counter of looks without a frame, and the calls made to the SDK and the
  network. A step of the task or of the caller goes up to its next call of the queue, its next
  wait, or its next read of \<^verbatim>\<open>enable\<close>, as in \<open>Yuv_Display\<close>. The timing statistics in the SDK's
  \<^verbatim>\<open>media_debug\<close> are left out.
\<close>

record db_trans_cfg_t =
  tc_enable :: bool
  tc_format :: image_format
  tc_sem :: "nat option"
  transfer_thread :: bool

datatype trans_call =
    Trans_alloc | Trans_free | Trans_sem_init | Trans_sem_deinit | Trans_create | Trans_delete
  | Wifi_media_mode bool | Wifi_quality_sd | Wifi_quality_hd | Video_send frame_ptr u32 image_format

datatype trans_pc =
  Tr_none | Tr_created | Tr_top | Tr_get | Tr_send frame_ptr | Tr_release frame_ptr | Tr_exit

datatype trans_ctl = Tc_idle | Tc_start_wait | Tc_stop_wait

record trans_state =
  vt_fq :: fq_state
  s_db_trans_cfg :: "db_trans_cfg_t option"
  vt_task :: trans_pc
  vt_ctl :: trans_ctl
  vt_nulls :: u8
  vt_log :: "trans_call list"

definition trans_log :: "trans_call list \<Rightarrow> trans_state \<Rightarrow> trans_state" where
  "trans_log cs s = s\<lparr>vt_log := vt_log s @ cs\<rparr>"

definition trans_set_sem :: "db_trans_cfg_t \<Rightarrow> db_trans_cfg_t" where
  "trans_set_sem c = c\<lparr>tc_sem := map_option (\<lambda>_. 1) (tc_sem c)\<rparr>"

section \<open>The task\<close>

text \<open>
  One step of \<^verbatim>\<open>doorbell_devices_task_entry\<close>, \<open>None\<close> when its structure was freed. \<open>timeout\<close> tells
  whether the wait of 50 ms for a frame ends. The frame goes to \<^verbatim>\<open>ntwk_trans_video_send\<close>.
\<close>

definition doorbell_devices_task_entry :: "bool \<Rightarrow> trans_state \<Rightarrow> trans_state option" where
  "doorbell_devices_task_entry timeout s =
     (case s_db_trans_cfg s of
        None \<Rightarrow> None
      | Some cfg \<Rightarrow>
          (case vt_task s of
             Tr_none \<Rightarrow> None
           | Tr_created \<Rightarrow>
               Some (s\<lparr>s_db_trans_cfg := Some (trans_set_sem (cfg\<lparr>tc_enable := True\<rparr>)), vt_nulls := 0,
                 vt_task := Tr_top\<rparr>)
           | Tr_top \<Rightarrow> Some (s\<lparr>vt_task := (if tc_enable cfg then Tr_get else Tr_exit)\<rparr>)
           | Tr_get \<Rightarrow> do {
               (r, q) \<leftarrow> frame_queue_v2_get_frame [] 0 (tc_format cfg) CONSUMER_TRANSMISSION (Wait_ms 50) (vt_fq s);
               let s = s\<lparr>vt_fq := q\<rparr>;
               Some (case r of
                   Got (Some f) \<Rightarrow> s\<lparr>vt_task := Tr_send f\<rparr>
                 | _ \<Rightarrow>
                     if timeout \<or> r \<noteq> Waiting
                     then (let n = vt_nulls s + 1
                       in s\<lparr>vt_nulls := (if n > 100 then 0 else n), vt_task := Tr_top\<rparr>)
                     else s)
             }
           | Tr_send f \<Rightarrow>
               Some (trans_log [Video_send f (fb_length (st_frames (vt_fq s) f)) (tc_format cfg)]
                 (s\<lparr>vt_nulls := 0, vt_task := Tr_release f\<rparr>))
           | Tr_release f \<Rightarrow> do {
               q \<leftarrow> frame_queue_v2_release_frame (tc_format cfg) CONSUMER_TRANSMISSION (Some f) (vt_fq s);
               Some (s\<lparr>vt_fq := q, vt_task := Tr_top\<rparr>)
             }
           | Tr_exit \<Rightarrow>
               Some (trans_log [Trans_delete]
                 (s\<lparr>s_db_trans_cfg := Some (trans_set_sem (cfg\<lparr>transfer_thread := False\<rparr>)), vt_task := Tr_none\<rparr>))))"

section \<open>Start and stop\<close>

text \<open>
  \<^verbatim>\<open>doorbell_devices_stop\<close> up to its wait, and after it. The result is \<open>None\<close> when the call now waits.
\<close>

definition doorbell_devices_stop :: "trans_state \<Rightarrow> bk_err_t option \<times> trans_state" where
  "doorbell_devices_stop s =
     (case s_db_trans_cfg s of
        None \<Rightarrow> (Some BK_OK, s)
      | Some cfg \<Rightarrow>
          if \<not> tc_enable cfg then (Some BK_FAIL, s)
          else (None, s\<lparr>s_db_trans_cfg := Some (cfg\<lparr>tc_enable := False\<rparr>), vt_ctl := Tc_stop_wait\<rparr>))"

definition stop_finish :: "db_trans_cfg_t \<Rightarrow> trans_state \<Rightarrow> trans_state" where
  "stop_finish cfg s =
     (trans_log ([Wifi_media_mode False, Wifi_quality_hd] @ (if transfer_thread cfg then [Trans_delete] else []) @
        (if tc_sem cfg \<noteq> None then [Trans_sem_deinit] else []) @ [Trans_free])
       (s\<lparr>s_db_trans_cfg := None, vt_ctl := Tc_idle\<rparr>))"

record trans_env =
  tre_malloc :: bool
  tre_sem :: bk_err_t
  tre_thread :: bk_err_t

text \<open>
  \<^verbatim>\<open>doorbell_devices_start\<close> up to its wait for the task. At the label \<^verbatim>\<open>error\<close> it calls
  \<^verbatim>\<open>doorbell_devices_stop\<close>, whose result it ignores.
\<close>

definition doorbell_devices_start ::
    "trans_env \<Rightarrow> image_format \<Rightarrow> trans_state \<Rightarrow> bk_err_t option \<times> trans_state" where
  "doorbell_devices_start env format s =
     (if s_db_trans_cfg s \<noteq> None then (Some BK_OK, s)
      else
        (let s = trans_log [Trans_alloc] s in
         if \<not> tre_malloc env then (Some BK_ERR_NO_MEM, s)
         else
           (let cfg = \<lparr>tc_enable = False, tc_format = format, tc_sem = None, transfer_thread = False\<rparr>;
                s = trans_log [Trans_sem_init] (s\<lparr>s_db_trans_cfg := Some cfg\<rparr>) in
            if tre_sem env \<noteq> BK_OK then (Some BK_FAIL, snd (doorbell_devices_stop s))
            else
              (let cfg = cfg\<lparr>tc_sem := Some 0\<rparr>;
                   s = trans_log [Trans_create] (s\<lparr>s_db_trans_cfg := Some cfg\<rparr>) in
               if tre_thread env \<noteq> BK_OK then (Some BK_FAIL, snd (doorbell_devices_stop s))
               else (None, s\<lparr>s_db_trans_cfg := Some (cfg\<lparr>transfer_thread := True\<rparr>), vt_task := Tr_created,
                       vt_ctl := Tc_start_wait\<rparr>)))))"

text \<open>The end of a wait for the semaphore, with what follows it.\<close>

definition trans_ctl_step :: "trans_state \<Rightarrow> trans_state option" where
  "trans_ctl_step s =
     (case s_db_trans_cfg s of
        Some cfg \<Rightarrow>
          (case tc_sem cfg of
             Some (Suc n) \<Rightarrow>
               (let cfg = cfg\<lparr>tc_sem := Some n\<rparr>; s = s\<lparr>s_db_trans_cfg := Some cfg\<rparr> in
                case vt_ctl s of
                  Tc_idle \<Rightarrow> None
                | Tc_start_wait \<Rightarrow> Some (trans_log [Wifi_media_mode True, Wifi_quality_sd] (s\<lparr>vt_ctl := Tc_idle\<rparr>))
                | Tc_stop_wait \<Rightarrow> Some (stop_finish cfg s))
           | _ \<Rightarrow> None)
      | None \<Rightarrow> None)"

datatype trans_action =
    Call_start trans_env image_format | Call_stop | Call_wait | Task_step bool
  | Call_register image_format | Call_unregister image_format

text \<open>
  The calls of the component and the steps of its task; the last two actions are the calls of the
  queue that \<^verbatim>\<open>doorbell_video_transfer_turn_on\<close> and \<^verbatim>\<open>_off\<close> make before and after.
\<close>

fun trans_exec :: "trans_action \<Rightarrow> trans_state \<Rightarrow> trans_state option" where
  "trans_exec (Call_start env format) s =
     (if vt_ctl s = Tc_idle then Some (snd (doorbell_devices_start env format s)) else None)"
| "trans_exec Call_stop s = (if vt_ctl s = Tc_idle then Some (snd (doorbell_devices_stop s)) else None)"
| "trans_exec Call_wait s = trans_ctl_step s"
| "trans_exec (Task_step timeout) s = doorbell_devices_task_entry timeout s"
| "trans_exec (Call_register format) s =
     map_option (\<lambda>(_, q). s\<lparr>vt_fq := q\<rparr>) (frame_queue_v2_register_consumer format CONSUMER_TRANSMISSION (vt_fq s))"
| "trans_exec (Call_unregister format) s =
     map_option (\<lambda>(_, q). s\<lparr>vt_fq := q\<rparr>) (frame_queue_v2_unregister_consumer format CONSUMER_TRANSMISSION (vt_fq s))"

fun trans_run :: "trans_action list \<Rightarrow> trans_state \<Rightarrow> trans_state option" where
  "trans_run [] s = Some s"
| "trans_run (a # as) s = Option.bind (trans_exec a s) (trans_run as)"

definition trans_start :: "fq_state \<Rightarrow> trans_state" where
  "trans_start q = \<lparr>vt_fq = q, s_db_trans_cfg = None, vt_task = Tr_none, vt_ctl = Tc_idle, vt_nulls = 0,
     vt_log = []\<rparr>"

end
