(* ===== verification/Video_Transfer_Properties.thy ===== *)
theory Video_Transfer_Properties
  imports Video_Transfer Frame_Client
begin

text \<open>
  What the transfer task guarantees. Its invariant \<open>trans_inv\<close> says which states of caller, task,
  \<^verbatim>\<open>enable\<close> and semaphore occur together; with it the task is a client of the queue it reads
  (\<open>trans_client\<close>, interpreted for both formats a camera can deliver).
\<close>

section \<open>The invariant\<close>

fun trans_frame :: "trans_pc \<Rightarrow> frame_ptr option" where
  "trans_frame (Tr_send f) = Some f"
| "trans_frame (Tr_release f) = Some f"
| "trans_frame pc = None"

definition trans_own :: "trans_state \<Rightarrow> frame_ptr set" where
  "trans_own s = set_option (trans_frame (vt_task s))"

fun in_loop :: "trans_pc \<Rightarrow> bool" where
  "in_loop Tr_none = False"
| "in_loop Tr_created = False"
| "in_loop Tr_exit = False"
| "in_loop pc = True"

inductive trans_ok :: "trans_ctl \<Rightarrow> trans_pc \<Rightarrow> bool \<Rightarrow> nat option \<Rightarrow> bool" where
  ok_failed: "n \<noteq> Some 1 \<Longrightarrow> trans_ok Tc_idle Tr_none False n"
| ok_running: "in_loop pc \<Longrightarrow> trans_ok Tc_idle pc True (Some 0)"
| ok_created: "trans_ok Tc_start_wait Tr_created False (Some 0)"
| ok_started: "in_loop pc \<Longrightarrow> trans_ok Tc_start_wait pc True (Some 1)"
| ok_stopping: "in_loop pc \<or> pc = Tr_exit \<Longrightarrow> trans_ok Tc_stop_wait pc False (Some 0)"
| ok_ended: "trans_ok Tc_stop_wait Tr_none False (Some 1)"

inductive_simps trans_ok_ctl:
  "trans_ok Tc_idle pc e n" "trans_ok Tc_start_wait pc e n" "trans_ok Tc_stop_wait pc e n"

inductive_cases trans_ok_createdE: "trans_ok ctl Tr_created e n"
inductive_cases trans_ok_exitE: "trans_ok ctl Tr_exit e n"

lemma trans_ok_loop: "trans_ok ctl pc e n \<Longrightarrow> in_loop pc \<Longrightarrow> in_loop pc' \<Longrightarrow> trans_ok ctl pc' e n"
  by (induction rule: trans_ok.induct) (auto simp: trans_ok_ctl)

definition trans_inv :: "image_format \<Rightarrow> trans_state \<Rightarrow> bool" where
  "trans_inv format s \<longleftrightarrow>
     (case s_db_trans_cfg s of
        None \<Rightarrow> vt_task s = Tr_none \<and> vt_ctl s = Tc_idle
      | Some c \<Rightarrow> tc_format c = format \<and> trans_ok (vt_ctl s) (vt_task s) (tc_enable c) (tc_sem c))"

text \<open>The steps of the component when the camera delivers \<open>format\<close>.\<close>

fun for_format :: "image_format \<Rightarrow> trans_action \<Rightarrow> bool" where
  "for_format format (Call_start env g) = (g = format)"
| "for_format format (Call_register g) = (g = format)"
| "for_format format (Call_unregister g) = (g = format)"
| "for_format format a = True"

definition trans_step :: "image_format \<Rightarrow> trans_state \<Rightarrow> trans_state \<Rightarrow> bool" where
  "trans_step format s s' \<longleftrightarrow> (\<exists>a. for_format format a \<and> trans_exec a s = Some s')"

abbreviation trans_use :: "image_format \<Rightarrow> trans_state \<Rightarrow> trans_state \<Rightarrow> bool" where
  "trans_use format s s' \<equiv> queue_use format 0 (vt_fq s) (trans_own s) (vt_fq s') (trans_own s')"

lemma trans_log_simps [simp]:
  "vt_fq (trans_log cs s) = vt_fq s" "s_db_trans_cfg (trans_log cs s) = s_db_trans_cfg s"
  "vt_task (trans_log cs s) = vt_task s" "vt_ctl (trans_log cs s) = vt_ctl s"
  by (simp_all add: trans_log_def)

lemma trans_queue_upd [simp]:
  "trans_inv format (s\<lparr>vt_fq := q\<rparr>) = trans_inv format s" "trans_own (s\<lparr>vt_fq := q\<rparr>) = trans_own s"
  by (simp_all add: trans_inv_def trans_own_def cong: option.case_cong)

lemma trans_invE:
  assumes "trans_inv format s" and "s_db_trans_cfg s = Some c"
  shows "tc_format c = format" "trans_ok (vt_ctl s) (vt_task s) (tc_enable c) (tc_sem c)"
  using assms by (simp_all add: trans_inv_def)

lemma trans_task_ok:
  assumes "trans_inv format s" and "doorbell_devices_task_entry timeout s = Some s'"
  shows "trans_inv format s' \<and> trans_use format s s'"
proof -
  obtain c where c: "s_db_trans_cfg s = Some c"
    using assms(2) by (auto simp: doorbell_devices_task_entry_def split: option.splits)
  note fmt = trans_invE(1) [OF assms(1) c] and ok = trans_invE(2) [OF assms(1) c]
  show ?thesis
  proof (cases "vt_task s")
    case Tr_none
    with assms(2) c show ?thesis by (simp add: doorbell_devices_task_entry_def)
  next
    case Tr_created
    with assms(2) c have "s' = s\<lparr>s_db_trans_cfg := Some (trans_set_sem (c\<lparr>tc_enable := True\<rparr>)), vt_nulls := 0,
        vt_task := Tr_top\<rparr>"
      by (simp add: doorbell_devices_task_entry_def)
    with fmt ok Tr_created show ?thesis
      by (auto simp: trans_inv_def trans_own_def use_none trans_set_sem_def trans_ok_ctl
          elim!: trans_ok_createdE)
  next
    case Tr_top
    with assms(2) c have "s' = s\<lparr>vt_task := (if tc_enable c then Tr_get else Tr_exit)\<rparr>"
      by (simp add: doorbell_devices_task_entry_def)
    with c fmt ok Tr_top show ?thesis
      by (cases "vt_ctl s") (auto simp: trans_inv_def trans_own_def use_none trans_ok_ctl)
  next
    case Tr_get
    with assms(2) c fmt obtain r q where
      get: "frame_queue_v2_get_frame [] 0 format (cbit 0) (Wait_ms 50) (vt_fq s) = Some (r, q)"
      and q: "vt_fq s' = q" "s_db_trans_cfg s' = s_db_trans_cfg s" "vt_ctl s' = vt_ctl s"
      and pc: "case r of Got (Some f) \<Rightarrow> vt_task s' = Tr_send f
        | _ \<Rightarrow> vt_task s' = Tr_top \<or> vt_task s' = Tr_get"
      by (auto simp: doorbell_devices_task_entry_def Let_def
          split: Option.bind_splits get_result.splits option.splits if_splits)
    have "in_loop (vt_task s')" and own: "trans_own s' = (case r of Got f \<Rightarrow> set_option f | Waiting \<Rightarrow> {})"
      using pc by (auto simp: trans_own_def split: get_result.splits option.splits)
    with trans_ok_loop [OF ok] Tr_get have "trans_inv format s'"
      using c fmt by (simp add: trans_inv_def q)
    moreover have "trans_own s = {}" using Tr_get by (simp add: trans_own_def)
    ultimately show ?thesis using use_get [OF get, of "{}"] by (simp add: q own)
  next
    case (Tr_send f)
    with assms(2) c have "vt_fq s' = vt_fq s" "s_db_trans_cfg s' = s_db_trans_cfg s" "vt_ctl s' = vt_ctl s"
      "vt_task s' = Tr_release f"
      by (auto simp: doorbell_devices_task_entry_def)
    with c fmt trans_ok_loop [OF ok] Tr_send show ?thesis
      by (simp add: trans_inv_def trans_own_def use_none)
  next
    case (Tr_release f)
    with assms(2) c fmt obtain q where
      rel: "frame_queue_v2_release_frame format (cbit 0) (Some f) (vt_fq s) = Some q"
      and s': "s' = s\<lparr>vt_fq := q, vt_task := Tr_top\<rparr>"
      by (auto simp: doorbell_devices_task_entry_def split: Option.bind_splits)
    have "trans_inv format s'"
      using c fmt trans_ok_loop [OF ok] Tr_release by (simp add: trans_inv_def s')
    with use_release [OF _ rel, of "{f}"] Tr_release show ?thesis by (simp add: s' trans_own_def)
  next
    case Tr_exit
    with assms(2) c have "vt_fq s' = vt_fq s" "vt_ctl s' = vt_ctl s" "vt_task s' = Tr_none"
      "s_db_trans_cfg s' = Some (trans_set_sem (c\<lparr>transfer_thread := False\<rparr>))"
      by (auto simp: doorbell_devices_task_entry_def)
    with fmt ok Tr_exit show ?thesis
      by (auto simp: trans_inv_def trans_own_def use_none trans_set_sem_def trans_ok_ctl elim!: trans_ok_exitE)
  qed
qed

lemma trans_stop_ok:
  assumes "trans_inv format s" and "vt_ctl s = Tc_idle"
  shows "trans_inv format (snd (doorbell_devices_stop s)) \<and> trans_use format s (snd (doorbell_devices_stop s))"
proof (cases "s_db_trans_cfg s")
  case None
  with assms show ?thesis by (simp add: doorbell_devices_stop_def use_none)
next
  case (Some c)
  with trans_invE [OF assms(1) Some] assms show ?thesis
    by (auto simp: doorbell_devices_stop_def use_none trans_own_def trans_inv_def trans_ok_ctl)
qed

lemma trans_start_ok:
  assumes "trans_inv format s" and "vt_ctl s = Tc_idle"
  shows "trans_inv format (snd (doorbell_devices_start env format s)) \<and>
    trans_use format s (snd (doorbell_devices_start env format s))"
proof (cases "s_db_trans_cfg s")
  case None
  then have "vt_task s = Tr_none" using assms(1) by (simp add: trans_inv_def)
  with None assms show ?thesis
    by (auto simp: doorbell_devices_start_def doorbell_devices_stop_def Let_def use_none trans_own_def
        trans_inv_def trans_ok_ctl)
next
  case (Some c)
  with assms show ?thesis by (simp add: doorbell_devices_start_def use_none)
qed

lemma trans_wait_ok:
  assumes "trans_inv format s" and "trans_ctl_step s = Some s'"
  shows "trans_inv format s' \<and> trans_use format s s'"
proof -
  from assms(2) obtain c n where c: "s_db_trans_cfg s = Some c" "tc_sem c = Some (Suc n)" "vt_ctl s \<noteq> Tc_idle"
    and s': "s' = (let c = c\<lparr>tc_sem := Some n\<rparr>; s = s\<lparr>s_db_trans_cfg := Some c\<rparr> in
      if vt_ctl s = Tc_start_wait then trans_log [Wifi_media_mode True, Wifi_quality_sd] (s\<lparr>vt_ctl := Tc_idle\<rparr>)
      else stop_finish c s)"
    by (auto simp: trans_ctl_step_def Let_def split: option.splits nat.splits trans_ctl.splits)
  with trans_invE [OF assms(1) c(1)] show ?thesis
    by (cases "vt_ctl s")
      (auto simp: Let_def stop_finish_def use_none trans_own_def trans_inv_def trans_ok_ctl)
qed

lemma trans_step_ok:
  assumes "trans_inv format s" and "trans_step format s s'"
  shows "trans_inv format s' \<and> trans_use format s s'"
proof -
  from assms(2) obtain a where a: "for_format format a" "trans_exec a s = Some s'"
    by (auto simp: trans_step_def)
  show ?thesis
  proof (cases a)
    case (Call_start env g)
    with a trans_start_ok [OF assms(1)] show ?thesis by (auto split: if_splits)
  next
    case Call_stop
    with a trans_stop_ok [OF assms(1)] show ?thesis by (auto split: if_splits)
  next
    case Call_wait
    with a trans_wait_ok [OF assms(1)] show ?thesis by simp
  next
    case (Task_step timeout)
    with a trans_task_ok [OF assms(1)] show ?thesis by simp
  next
    case (Call_register g)
    with a assms(1) show ?thesis
      by (auto intro: use_register)
  next
    case (Call_unregister g)
    with a assms(1) show ?thesis
      by (auto intro: use_unregister)
  qed
qed

section \<open>The task is a client of the queue\<close>

definition trans_idle :: trans_state where
  "trans_idle = trans_start boot_state"

lemma trans_client:
  assumes "init_slot format = Some (i, k)"
  shows "frame_client format i k 0 vt_fq (\<lambda>q s. s\<lparr>vt_fq := q\<rparr>) trans_own (trans_step format)
    (trans_inv format) trans_idle"
proof
  show "init_slot format = Some (i, k)" by (fact assms)
  show "trans_inv format s' \<and> trans_use format s s'"
    if "trans_inv format s" "trans_step format s s'" for s s'
    using trans_step_ok [OF that] .
  show "trans_inv format trans_idle" and "trans_own trans_idle = {}"
    by (simp_all add: trans_inv_def trans_own_def trans_idle_def trans_start_def)
qed simp_all

interpretation trans_h264: frame_client IMAGE_H264 1 6 0 vt_fq "\<lambda>q s. s\<lparr>vt_fq := q\<rparr>" trans_own
    "trans_step IMAGE_H264" "trans_inv IMAGE_H264" trans_idle
  by (rule trans_client) (simp add: init_slot_def H264_MAX_FRAME_COUNT_def)

interpretation trans_mjpeg: frame_client IMAGE_MJPEG 0 4 0 vt_fq "\<lambda>q s. s\<lparr>vt_fq := q\<rparr>" trans_own
    "trans_step IMAGE_MJPEG" "trans_inv IMAGE_MJPEG" trans_idle
  by (rule trans_client) (rule demo_slot)

abbreviation trans_sys ::
    "(image_format \<Rightarrow> init_env) \<Rightarrow> image_format \<Rightarrow> nat \<Rightarrow> trans_state \<Rightarrow> (nat \<times> frame_ptr) set \<Rightarrow>
      frame_ptr set \<Rightarrow> bool" where
  "trans_sys env format i \<equiv> client_sys env format i 0 vt_fq (\<lambda>q s. s\<lparr>vt_fq := q\<rparr>) (trans_step format) trans_idle"

section \<open>Properties\<close>

text \<open>
  A run of the demo configuration: the transfer starts on the MJPEG queue, a producer publishes
  frame 900, and the task takes it.
\<close>

definition trans_demo :: "trans_state \<Rightarrow> abs_state \<Rightarrow> frame_ptr set \<Rightarrow> bool" where
  "trans_demo s A P \<longleftrightarrow> trans_sys demo_env IMAGE_MJPEG 0 s {} P \<and> fq_rep (boot_nodes demo_env) (vt_fq s) A"

lemma trans_demo_step:
  "trans_demo s A P \<Longrightarrow> for_format IMAGE_MJPEG a \<Longrightarrow> trans_exec a s = Some s' \<Longrightarrow>
     fq_rep (boot_nodes demo_env) (vt_fq s') A' \<Longrightarrow> trans_demo s' A' P"
  using sys_client by (fastforce simp: trans_demo_def trans_step_def)

lemma trans_demo_others:
  assumes "trans_demo s A (set P)" and "play1 IMAGE_MJPEG 0 ev (A, [], P) = Some (A', [], P')"
    and "by_consumer ev \<noteq> Some 0"
  shows "\<exists>q. trans_demo (s\<lparr>vt_fq := q\<rparr>) A' (set P')"
  using client_sys_others [OF _ _ assms(2,3)] assms(1) by (fastforce simp: trans_demo_def)

lemma trans_demo_boot: "\<exists>q. trans_demo (trans_start q) (booted demo_env) {}"
proof -
  obtain q where "frame_queue_v2_init_all demo_env boot_state = (BK_OK, q)"
    and "fq_rep (boot_nodes demo_env) q (booted demo_env)"
    using boot_rep [OF demo_boot] by blast
  with sys_boot [OF this(1)] have "trans_demo (trans_idle\<lparr>vt_fq := q\<rparr>) (booted demo_env) {}"
    by (simp add: trans_demo_def)
  then show ?thesis by (auto simp: trans_idle_def trans_start_def)
qed

abbreviation trans_events :: "client_event list" where
  "trans_events \<equiv> [Ev_register 0, Ev_malloc (Some 900), Ev_complete 900]"

definition trans_ready :: abs_state where
  "trans_ready = fst (the (play IMAGE_MJPEG 0 trans_events (booted demo_env, [], [])))"

definition trans_taken :: abs_state where
  "trans_taken = snd (spec_get [] 0 IMAGE_MJPEG (cbit 0) (Wait_ms 50) trans_ready)"

lemma trans_demo_sending:
  "\<exists>s. trans_demo s trans_taken {} \<and> vt_task s = Tr_send 900"
proof -
  obtain q where 0: "trans_demo (trans_start q) (booted demo_env) {}"
    using trans_demo_boot by blast
  let ?A = "snd (spec_register IMAGE_MJPEG (cbit 0) (booted demo_env))"
  from 0 register_rep [of "boot_nodes demo_env" q "booted demo_env" IMAGE_MJPEG "cbit 0"] obtain r q1 where
    1: "frame_queue_v2_register_consumer IMAGE_MJPEG (cbit 0) q = Some (r, q1)"
    and rep: "fq_rep (boot_nodes demo_env) q1 ?A"
    by (auto simp: trans_demo_def trans_start_def)
  have 2: "trans_demo (trans_start q1) ?A (set [])"
    unfolding list.set(1)
    by (rule trans_demo_step [OF 0, where a = "Call_register IMAGE_MJPEG"])
      (use 1 rep in \<open>simp_all add: trans_start_def\<close>)
  have steps: "map_option snd (play1 IMAGE_MJPEG 0 (Ev_malloc (Some 900)) (?A, [], [])) = Some ([], [900])"
    "play IMAGE_MJPEG 0 trans_events (booted demo_env, [], []) \<noteq> None"
    "fst (spec_get [] 0 IMAGE_MJPEG (cbit 0) (Wait_ms 50) trans_ready) = Got (Some 900)"
    unfolding trans_ready_def by code_simp+
  then obtain A1 where A1: "play1 IMAGE_MJPEG 0 (Ev_malloc (Some 900)) (?A, [], []) = Some (A1, [], [900])"
    and A2: "play1 IMAGE_MJPEG 0 (Ev_complete 900) (A1, [], [900]) = Some (trans_ready, [], [])"
    by (auto simp: trans_ready_def)
  from trans_demo_others [OF 2 A1] obtain q2 where "trans_demo (trans_start q2) A1 (set [900])"
    by (auto simp: trans_start_def)
  from trans_demo_others [OF this A2] obtain q3 where 3: "trans_demo (trans_start q3) trans_ready {}"
    by (auto simp: trans_start_def)
  let ?env = "\<lparr>tre_malloc = True, tre_sem = BK_OK, tre_thread = BK_OK\<rparr>"
  let ?cfg = "\<lambda>b n. \<lparr>tc_enable = b, tc_format = IMAGE_MJPEG, tc_sem = Some n, transfer_thread = True\<rparr>"
  let ?s = "trans_log [Trans_alloc, Trans_sem_init, Trans_create] (trans_start q3)"
  have rep3: "fq_rep (boot_nodes demo_env) q3 trans_ready" using 3 by (simp add: trans_demo_def trans_start_def)
  have 4: "trans_demo (?s\<lparr>s_db_trans_cfg := Some (?cfg False 0), vt_task := Tr_created, vt_ctl := Tc_start_wait\<rparr>)
      trans_ready {}"
    by (rule trans_demo_step [OF 3, where a = "Call_start ?env IMAGE_MJPEG"])
      (use rep3 in \<open>simp_all add: trans_start_def trans_log_def doorbell_devices_start_def Let_def\<close>)
  have 5: "trans_demo (?s\<lparr>s_db_trans_cfg := Some (?cfg True 1), vt_task := Tr_top, vt_ctl := Tc_start_wait\<rparr>)
      trans_ready {}"
    by (rule trans_demo_step [OF 4, where a = "Task_step True"])
      (use rep3 in \<open>simp_all add: trans_start_def trans_log_def doorbell_devices_task_entry_def trans_set_sem_def\<close>)
  have 6: "trans_demo (?s\<lparr>s_db_trans_cfg := Some (?cfg True 1), vt_task := Tr_get, vt_ctl := Tc_start_wait\<rparr>)
      trans_ready {}"
    by (rule trans_demo_step [OF 5, where a = "Task_step True"])
      (use rep3 in \<open>simp_all add: trans_start_def trans_log_def doorbell_devices_task_entry_def\<close>)
  from get_rep [OF rep3, of "[]" "[]" 0 IMAGE_MJPEG "cbit 0" "Wait_ms 50"] steps(3) obtain q4 where
    got: "frame_queue_v2_get_frame [] 0 IMAGE_MJPEG (cbit 0) (Wait_ms 50) q3 = Some (Got (Some 900), q4)"
    and rep4: "fq_rep (boot_nodes demo_env) q4 trans_taken"
    by (auto simp: trans_taken_def)
  have "trans_demo (?s\<lparr>vt_fq := q4, s_db_trans_cfg := Some (?cfg True 1), vt_task := Tr_send 900,
      vt_ctl := Tc_start_wait\<rparr>) trans_taken {}"
    by (rule trans_demo_step [OF 6, where a = "Task_step True"])
      (use got rep4 in \<open>simp_all add: trans_start_def trans_log_def doorbell_devices_task_entry_def Let_def\<close>)
  then show ?thesis by (intro exI conjI) (assumption, simp)
qed

text \<open>
  C11. A frame that is being sent stays in its queue until the transfer task has released it: a node
  holds it, no producer fills it, and it counts as in use. When \<open>doorbell_devices_stop\<close> has
  returned and the transfer is off, the task is gone and holds nothing.
\<close>
theorem transfer_frames_stay:
  assumes "good_boot env" and "init_slot format = Some (i, k)" and "trans_sys env format i s H P"
  shows "(\<forall>f. vt_task s = Tr_send f \<or> vt_task s = Tr_release f \<longrightarrow>
      f \<notin> P \<and> (\<exists>n \<in> boot_nodes env i. nd_frame (hp_node (st_heap (vt_fq s)) n) = Some f \<and>
        in_use (hp_node (st_heap (vt_fq s)) n) = 0 \<and> 0 < ref_count (hp_node (st_heap (vt_fq s)) n))) \<and>
    (s_db_trans_cfg s = None \<longrightarrow> vt_task s = Tr_none)"
proof (intro conjI allI impI)
  fix f
  assume "vt_task s = Tr_send f \<or> vt_task s = Tr_release f"
  then have f: "f \<in> trans_own s" by (auto simp: trans_own_def)
  note frame_client.own_frame_safe [OF trans_client [OF assms(2)] assms(3,1) f]
  then show "f \<notin> P" "\<exists>n \<in> boot_nodes env i. nd_frame (hp_node (st_heap (vt_fq s)) n) = Some f \<and>
      in_use (hp_node (st_heap (vt_fq s)) n) = 0 \<and> 0 < ref_count (hp_node (st_heap (vt_fq s)) n)"
    by auto
next
  assume "s_db_trans_cfg s = None"
  with frame_client.sys_invariant [OF trans_client [OF assms(2)] assms(3,1)] show "vt_task s = Tr_none"
    by (simp add: trans_inv_def)
qed

theorem transfer_frames_stay_witness:
  "\<exists>s. trans_sys demo_env IMAGE_MJPEG 0 s {} {} \<and> vt_task s = Tr_send 900 \<and> (\<exists>n \<in> boot_nodes demo_env 0.
     nd_frame (hp_node (st_heap (vt_fq s)) n) = Some 900 \<and> in_use (hp_node (st_heap (vt_fq s)) n) = 0 \<and>
     0 < ref_count (hp_node (st_heap (vt_fq s)) n))"
proof -
  obtain s where sys: "trans_sys demo_env IMAGE_MJPEG 0 s {} {}" and pc: "vt_task s = Tr_send 900"
    using trans_demo_sending by (auto simp: trans_demo_def)
  with transfer_frames_stay [OF demo_boot demo_slot sys] show ?thesis by blast
qed

text \<open>
  A failed start cannot be undone: when the semaphore or the thread cannot be created,
  \<open>doorbell_devices_start\<close> returns an error but leaves its structure behind, with \<^verbatim>\<open>enable\<close> zero. From
  then on, whatever calls follow, no transfer task ever runs, every further start reports success
  and every stop fails.
\<close>
lemma failed_start_sticks:
  assumes "s_db_trans_cfg s = None" and "vt_task s = Tr_none" and "vt_ctl s = Tc_idle"
    and "tre_malloc env" and "tre_sem env \<noteq> BK_OK \<or> tre_thread env \<noteq> BK_OK"
    and "trans_run as (snd (doorbell_devices_start env format s)) = Some s'"
  shows "fst (doorbell_devices_start env format s) = Some BK_FAIL \<and> vt_task s' = Tr_none \<and>
    fst (doorbell_devices_start env' format' s') = Some BK_OK \<and> fst (doorbell_devices_stop s') = Some BK_FAIL"
proof -
  define stuck where "stuck = (\<lambda>s :: trans_state. vt_task s = Tr_none \<and> vt_ctl s = Tc_idle \<and>
    (\<exists>c. s_db_trans_cfg s = Some c \<and> \<not> tc_enable c))"
  have "stuck (snd (doorbell_devices_start env format s))"
    and err: "fst (doorbell_devices_start env format s) = Some BK_FAIL"
    using assms(1-5) by (auto simp: stuck_def doorbell_devices_start_def doorbell_devices_stop_def Let_def)
  moreover have "stuck t \<Longrightarrow> trans_exec a t = Some t' \<Longrightarrow> stuck t'" for a t t'
    by (cases a) (auto simp: stuck_def doorbell_devices_start_def doorbell_devices_stop_def trans_ctl_step_def
        doorbell_devices_task_entry_def Let_def split: option.splits nat.splits)
  then have "stuck t \<Longrightarrow> trans_run as t = Some t' \<Longrightarrow> stuck t'" for t t'
    by (induction as arbitrary: t) (auto split: Option.bind_splits)
  ultimately have "stuck s'" using assms(6) by blast
  with err show ?thesis
    by (auto simp: stuck_def doorbell_devices_start_def doorbell_devices_stop_def)
qed

end
