(* ===== verification/Cameras.thy ===== *)
theory Cameras
  imports Ap_Platform Frame_Queue
begin

text \<open>
  The camera drivers, \<^verbatim>\<open>components/smart_lock/src/camera/uvc.c\<close> and \<^verbatim>\<open>dvp.c\<close>: powering a camera,
  choosing a resolution and frame rate the USB camera has, opening and closing the SDK's
  controller, and the callbacks that hand captured frames to the frame queue.

  What the SDK answers is an argument (\<open>cam_env\<close>); the calls made to it are logged. The build has
  \<^verbatim>\<open>CONFIG_DVP_CTRL_POWER_GPIO_ID\<close> 28 (\<^verbatim>\<open>projects/doorbell_lp/ap/config/bk7258_ap/config\<close>).
\<close>

text \<open>\<^verbatim>\<open>avdk_err_t\<close> and \<^verbatim>\<open>bk_err_t\<close> are the same integers, and the code mixes them.\<close>

datatype cam_call =
    Gpio_up nat | Gpio_down nat
  | Dvp_ctlr_new u16 u16 "image_format list" | Uvc_ctlr_new u16 u16 u32
  | Camera_open nat | Camera_close nat | Camera_delete nat
  | Uvc_power_on | Uvc_power_down

text \<open>
  The semaphore of the USB connection: the SDK keeps the callback with the semaphore it was
  registered with (\<open>uvc_callback\<close>); \<open>uvc_sems\<close> are the semaphores that exist.
\<close>

record cam_state =
  uvc_callback :: "nat option"
  uvc_sems :: "nat list"
  cam_log :: "cam_call list"

definition cam_emit :: "cam_call list \<Rightarrow> cam_state \<Rightarrow> cam_state" where
  "cam_emit cs s = s\<lparr>cam_log := cam_log s @ cs\<rparr>"

section \<open>Handing frames to the queue\<close>

definition dvp_camera_frame_complete ::
    "u64 \<Rightarrow> u64 \<Rightarrow> image_format \<Rightarrow> frame_ptr option \<Rightarrow> bk_err_t \<Rightarrow> fq_state \<Rightarrow> (bk_err_t \<times> fq_state) option"
  where
  "dvp_camera_frame_complete now now' format frame result s =
     (if result \<noteq> AVDK_ERR_OK then frame_queue_v2_cancel format frame s
      else frame_queue_v2_complete now now' format frame s)"

definition uvc_camera_frame_complete ::
    "u64 \<Rightarrow> u64 \<Rightarrow> u8 \<Rightarrow> image_format \<Rightarrow> frame_ptr option \<Rightarrow> bk_err_t \<Rightarrow> fq_state \<Rightarrow>
      (bk_err_t \<times> fq_state) option"
  where
  "uvc_camera_frame_complete now now' prt format frame result s =
     (if result \<noteq> AVDK_ERR_OK then frame_queue_v2_cancel format frame s
      else frame_queue_v2_complete now now' format frame s)"

section \<open>Choosing a resolution and a frame rate\<close>

text \<open>
  A resolution a USB camera offers, with its frame rates: the array \<^verbatim>\<open>fps\<close>, of which the first
  \<^verbatim>\<open>fps_num\<close> entries count.
\<close>

record uvc_frame =
  uf_width :: u16
  uf_height :: u16
  uf_fps_num :: nat
  uf_fps :: "nat \<Rightarrow> u32"

record bk_cam_uvc_config_t =
  uc_port :: u8
  uc_width :: u16
  uc_height :: u16
  uc_fps :: u32
  uc_img_format :: image_format

record uvc_device_info =
  mjpeg_frames :: "uvc_frame list"
  yuv_frames :: "uvc_frame list"
  h264_frames :: "uvc_frame list"

text \<open>The loop over the rates of one resolution sets \<^verbatim>\<open>fps_flag\<close> when it meets the wanted one.\<close>

fun uvc_fps_loop :: "bool \<Rightarrow> u32 \<Rightarrow> (nat \<Rightarrow> u32) \<Rightarrow> nat list \<Rightarrow> bool \<Rightarrow> bool" where
  "uvc_fps_loop resolution_flag want fps [] fps_flag = fps_flag"
| "uvc_fps_loop resolution_flag want fps (i # is) fps_flag =
     uvc_fps_loop resolution_flag want fps is (if resolution_flag \<and> fps i = want then True else fps_flag)"

text \<open>
  The loop over the resolutions, which the four check functions repeat for their formats: it
  leaves at the first resolution that fits. The flags start \<open>False\<close>.
\<close>

fun uvc_frame_loop ::
    "uvc_frame list \<Rightarrow> bool \<Rightarrow> bool \<Rightarrow> bk_cam_uvc_config_t \<Rightarrow> (bool \<times> bool) \<times> bk_cam_uvc_config_t" where
  "uvc_frame_loop [] resolution_flag fps_flag cfg = ((resolution_flag, fps_flag), cfg)"
| "uvc_frame_loop (f # fs) resolution_flag fps_flag cfg =
     (let resolution_flag = (if uf_width f = uc_width cfg \<and> uf_height f = uc_height cfg then True
                             else resolution_flag);
          fps_flag = uvc_fps_loop resolution_flag (uc_fps cfg) (uf_fps f) [0..<uf_fps_num f] fps_flag in
      if resolution_flag
      then (if \<not> fps_flag then ((True, True), cfg\<lparr>uc_fps := uf_fps f 0\<rparr>) else ((True, True), cfg))
      else uvc_frame_loop fs resolution_flag fps_flag cfg)"

definition uvc_check :: "uvc_frame list \<Rightarrow> bk_cam_uvc_config_t \<Rightarrow> bk_err_t \<times> bk_cam_uvc_config_t" where
  "uvc_check fs cfg =
     (case uvc_frame_loop fs False False cfg of
        ((resolution_flag, fps_flag), cfg) \<Rightarrow>
          (if resolution_flag \<and> fps_flag then AVDK_ERR_OK else AVDK_ERR_UNSUPPORTED, cfg))"

definition uvc_check_mjpeg_config ::
    "uvc_device_info \<Rightarrow> bk_cam_uvc_config_t \<Rightarrow> bk_err_t \<times> bk_cam_uvc_config_t" where
  "uvc_check_mjpeg_config d cfg = uvc_check (mjpeg_frames d) cfg"

definition uvc_check_yuv_config ::
    "uvc_device_info \<Rightarrow> bk_cam_uvc_config_t \<Rightarrow> bk_err_t \<times> bk_cam_uvc_config_t" where
  "uvc_check_yuv_config d cfg = uvc_check (yuv_frames d) cfg"

definition uvc_check_h264_config ::
    "uvc_device_info \<Rightarrow> bk_cam_uvc_config_t \<Rightarrow> bk_err_t \<times> bk_cam_uvc_config_t" where
  "uvc_check_h264_config d cfg = uvc_check (h264_frames d) cfg"

text \<open>Here \<^verbatim>\<open>frame_num\<close> is zero and never set, so the loop has no turn.\<close>

definition uvc_check_h265_config ::
    "uvc_device_info \<Rightarrow> bk_cam_uvc_config_t \<Rightarrow> bk_err_t \<times> bk_cam_uvc_config_t" where
  "uvc_check_h265_config d cfg = uvc_check [] cfg"

text \<open>\<open>info\<close> is what \<^verbatim>\<open>bk_usbh_hub_port_check_device\<close> returns, and the device's description.\<close>

definition uvc_checkout_port_info ::
    "bk_err_t \<times> uvc_device_info option \<Rightarrow> bk_cam_uvc_config_t \<Rightarrow> bk_err_t \<times> bk_cam_uvc_config_t" where
  "uvc_checkout_port_info info cfg =
     (case info of
        (ret, Some d) \<Rightarrow>
          if ret \<noteq> AVDK_ERR_OK then (AVDK_ERR_INVAL, cfg)
          else (case uc_img_format cfg of
             IMAGE_YUV \<Rightarrow> uvc_check_yuv_config d cfg
           | IMAGE_MJPEG \<Rightarrow> uvc_check_mjpeg_config d cfg
           | IMAGE_H264 \<Rightarrow> uvc_check_h264_config d cfg
           | IMAGE_H265 \<Rightarrow> uvc_check_h265_config d cfg
           | _ \<Rightarrow> (ret, cfg))
      | (ret, None) \<Rightarrow> (AVDK_ERR_INVAL, cfg))"

section \<open>The USB camera\<close>

text \<open>
  What the SDK answers: the semaphore, whether the camera is there at once, whether it connects
  within the time-out, its description, and the results of the controller's functions.
\<close>

record cam_env =
  ce_sem :: "nat option"
  ce_check :: bk_err_t
  ce_wait :: bk_err_t
  ce_port :: "bk_err_t \<times> uvc_device_info option"
  ce_default :: bk_cam_uvc_config_t
  ce_new :: bk_err_t
  ce_handle :: nat
  ce_open :: bk_err_t
  ce_close :: bk_err_t
  ce_delete :: bk_err_t

definition uvc_camera_power_on :: "cam_env \<Rightarrow> cam_state \<Rightarrow> bk_err_t \<times> cam_state" where
  "uvc_camera_power_on env s =
     (case ce_sem env of
        None \<Rightarrow> (AVDK_ERR_GENERIC, s)
      | Some sem \<Rightarrow>
          (let s = cam_emit [Uvc_power_on] (s\<lparr>uvc_sems := sem # uvc_sems s, uvc_callback := Some sem\<rparr>);
               ret = (if ce_check env \<noteq> AVDK_ERR_OK then ce_wait env else ce_check env)
           in (ret, s\<lparr>uvc_sems := removeAll sem (uvc_sems s)\<rparr>)))"

definition uvc_camera_power_off :: "cam_state \<Rightarrow> bk_err_t \<times> cam_state" where
  "uvc_camera_power_off s = (AVDK_ERR_OK, cam_emit [Uvc_power_down] (s\<lparr>uvc_callback := None\<rparr>))"

text \<open>\<^verbatim>\<open>uvc_connect_successful_callback\<close>: \<open>None\<close> when it signals a semaphore that is gone.\<close>

definition uvc_connect_successful_callback :: "nat \<Rightarrow> cam_state \<Rightarrow> cam_state option" where
  "uvc_connect_successful_callback sem s = (if sem \<in> set (uvc_sems s) then Some s else None)"

definition uvc_camera_turn_on ::
    "cam_env \<Rightarrow> camera_parameters_t option \<Rightarrow> cam_state \<Rightarrow> nat option \<times> cam_state" where
  "uvc_camera_turn_on env parameters s =
     (case parameters of
        None \<Rightarrow> (None, s)
      | Some p \<Rightarrow>
          (let (ret, s) = uvc_camera_power_on env s in
           if ret \<noteq> AVDK_ERR_OK then (None, snd (uvc_camera_power_off s))
           else
             (let (ret, cfg) = uvc_checkout_port_info (ce_port env)
                    ((ce_default env)\<lparr>uc_width := cam_width p, uc_height := cam_height p\<rparr>) in
              if ret \<noteq> AVDK_ERR_OK then (None, snd (uvc_camera_power_off s))
              else
                (let s = cam_emit [Uvc_ctlr_new (uc_width cfg) (uc_height cfg) (uc_fps cfg)] s in
                 if ce_new env \<noteq> AVDK_ERR_OK then (None, snd (uvc_camera_power_off s))
                 else
                   (let s = cam_emit [Camera_open (ce_handle env)] s in
                    if ce_open env \<noteq> AVDK_ERR_OK
                    then (None, snd (uvc_camera_power_off (cam_emit [Camera_delete (ce_handle env)] s)))
                    else (Some (ce_handle env), s))))))"

definition uvc_camera_turn_off :: "cam_env \<Rightarrow> nat option \<Rightarrow> cam_state \<Rightarrow> bk_err_t \<times> cam_state" where
  "uvc_camera_turn_off env handle s =
     (case handle of
        None \<Rightarrow> (AVDK_ERR_OK, s)
      | Some h \<Rightarrow>
          (let s = cam_emit [Camera_close h] s in
           if ce_close env \<noteq> AVDK_ERR_OK then (ce_close env, s)
           else
             (let s = cam_emit [Camera_delete h] s in
              if ce_delete env \<noteq> AVDK_ERR_OK then (ce_delete env, s)
              else (AVDK_ERR_OK, snd (uvc_camera_power_off s)))))"

section \<open>The DVP camera\<close>

definition GPIO_INVALID_ID :: nat where "GPIO_INVALID_ID = 0xFF"
definition DVP_POWER_GPIO_ID :: nat where "DVP_POWER_GPIO_ID = 28"

definition dvp_camera_turn_on ::
    "cam_env \<Rightarrow> camera_parameters_t option \<Rightarrow> cam_state \<Rightarrow> nat option \<times> cam_state" where
  "dvp_camera_turn_on env parameters s =
     (case parameters of
        None \<Rightarrow> (None, s)
      | Some p \<Rightarrow>
          (let s = (if DVP_POWER_GPIO_ID \<noteq> GPIO_INVALID_ID then cam_emit [Gpio_up DVP_POWER_GPIO_ID] s else s);
               fmt = (if cam_format p = 0 then [IMAGE_YUV, IMAGE_MJPEG] else [IMAGE_YUV, IMAGE_H264]);
               s = cam_emit [Dvp_ctlr_new (cam_width p) (cam_height p) fmt] s;
               power_off = (\<lambda>s. if DVP_POWER_GPIO_ID \<noteq> GPIO_INVALID_ID
                               then cam_emit [Gpio_down DVP_POWER_GPIO_ID] s else s) in
           if ce_new env \<noteq> AVDK_ERR_OK then (None, power_off s)
           else
             (let s = cam_emit [Camera_open (ce_handle env)] s in
              if ce_open env \<noteq> AVDK_ERR_OK then (None, power_off (cam_emit [Camera_delete (ce_handle env)] s))
              else (Some (ce_handle env), s))))"

definition dvp_camera_turn_off :: "cam_env \<Rightarrow> nat option \<Rightarrow> cam_state \<Rightarrow> bk_err_t \<times> cam_state" where
  "dvp_camera_turn_off env handle s =
     (case handle of
        None \<Rightarrow> (AVDK_ERR_OK, s)
      | Some h \<Rightarrow>
          (let s = cam_emit [Camera_close h] s in
           if ce_close env \<noteq> AVDK_ERR_OK then (ce_close env, s)
           else
             (let s = cam_emit [Camera_delete h] s in
              if ce_delete env \<noteq> AVDK_ERR_OK then (ce_delete env, s)
              else (AVDK_ERR_OK, if DVP_POWER_GPIO_ID \<noteq> GPIO_INVALID_ID
                                 then cam_emit [Gpio_down DVP_POWER_GPIO_ID] s else s))))"

end
