(* ===== verification/Video_Devices.thy ===== *)
theory Video_Devices
  imports Cameras Yuv_Display Video_Transfer
begin

text \<open>
  How the commands turn camera, display and video transfer on and off:
  \<^verbatim>\<open>components/smart_lock/src/doorbell_devices.c\<close>, \<^verbatim>\<open>camera/doorbell_camera.c\<close>, the file
  \<^verbatim>\<open>camera/doorviewer_camera.c\<close> that the doorviewer project builds in its place (\<open>de_doorviewer\<close>), and
  \<^verbatim>\<open>decoder/mjpeg_decoder.c\<close>, on top of the frame queues, the direct display, the transfer task and
  the camera drivers.

  State. \<open>dev_state\<close> holds the structure \<open>db_device_info\<close>, the states of those components and the
  calls to the SDK. There is one set of frame queues; it is the one in \<open>dv_yuv\<close>, and the transfer
  task's copy is brought up to date around its calls.

  A call that waits for a task is followed by a schedule of steps of the component
  (\<open>de_yuv_steps\<close>, \<open>de_trans_steps\<close>); the call returns when the schedule brings it to its end, and the
  operation is \<open>None\<close> while it still waits. That closing the display does end is shown in
  \<open>Yuv_Display_Properties\<close>.
\<close>

section \<open>Types\<close>

text \<open>\<open>CAMERA_OTHER\<close> stands for every other value of the SDK's enumeration, zero among them.\<close>

datatype camera_type_t = UVC_CAMERA | DVP_CAMERA | CAMERA_OTHER

datatype lcd_type_t = LCD_TYPE_RGB | LCD_TYPE_MCU8080 | LCD_TYPE_OTHER

datatype media_rotate_mode_t = NONE_ROTATE | SW_ROTATE | HW_ROTATE

record db_device_info_t =
  di_lcd_id :: u16
  di_lcd_device :: "nat option"
  video_pipeline_handle :: "nat option"
  display_ctlr_handle :: "nat option"
  cam_type :: camera_type_t
  transfer_format :: image_format
  di_handle :: "nat option"

datatype dev_call =
    Bluetooth_deinit | Flash_notify bool | Camera_suspend nat | Camera_resume nat
  | Pipeline_new | Pipeline_delete nat | Open_h264e nat u16 u16 media_rotate_t | Close_h264e nat
  | Open_rotate nat media_rotate_mode_t media_rotate_t | Close_rotate nat | Reset_decode nat
  | Lcd_ldo bool | Lcd_backlight bool | Display_new_rgb nat | Display_new_mcu nat | Display_open "nat option"
  | Display_close "nat option" | Display_delete "nat option"
  | Dec_alloc u32 | Dec_free frame_ptr | Dec_flush nat frame_ptr

record dev_state =
  db_device_info :: "db_device_info_t option"
  dv_yuv :: yuv_state
  dv_trans :: trans_state
  dv_cam :: cam_state
  dv_log :: "dev_call list"

definition dev_emit :: "dev_call list \<Rightarrow> dev_state \<Rightarrow> dev_state" where
  "dev_emit cs s = s\<lparr>dv_log := dv_log s @ cs\<rparr>"

definition dv_fq :: "dev_state \<Rightarrow> fq_state" where
  "dv_fq s = yv_fq (dv_yuv s)"

definition set_fq :: "fq_state \<Rightarrow> dev_state \<Rightarrow> dev_state" where
  "set_fq q s = s\<lparr>dv_yuv := (dv_yuv s)\<lparr>yv_fq := q\<rparr>\<rparr>"

definition set_info :: "db_device_info_t \<Rightarrow> dev_state \<Rightarrow> dev_state" where
  "set_info i s = s\<lparr>db_device_info := Some i\<rparr>"

text \<open>What the SDK and the schedulers answer to one operation.\<close>

record dev_env =
  de_doorviewer :: bool
  de_malloc :: bool
  de_cam :: cam_env
  de_yuv :: yuv_open_env
  de_yuv_steps :: "yuv_action list"
  de_trans :: trans_env
  de_trans_steps :: "trans_action list"
  de_queues :: "image_format \<Rightarrow> init_env"
  de_pipeline_new :: bk_err_t
  de_pipeline :: nat
  de_open_h264e :: bk_err_t
  de_close_h264e :: bk_err_t
  de_open_rotate :: bk_err_t
  de_close_rotate :: bk_err_t
  de_lcd :: "(nat \<times> lcd_type_t) option"
  de_display_new :: bk_err_t
  de_display :: nat
  de_display_open :: bk_err_t
  de_flush :: bk_err_t

section \<open>Waiting for the other components\<close>

definition yuv_open_call :: "dev_env \<Rightarrow> nat option option \<Rightarrow> u32 \<Rightarrow> dev_state \<Rightarrow> (bk_err_t \<times> dev_state) option"
  where
  "yuv_open_call env handle angle s = do {
     (r, y) \<leftarrow> yuv_display_open (de_yuv env) handle angle (dv_yuv s);
     (case r of
        Some ret \<Rightarrow> Some (ret, s\<lparr>dv_yuv := y\<rparr>)
      | None \<Rightarrow> do {
          y \<leftarrow> yuv_run (de_yuv_steps env) y;
          (if yv_ctl y = Ctl_idle then Some (BK_OK, s\<lparr>dv_yuv := y\<rparr>) else None)
        })
   }"

definition yuv_close_call :: "dev_env \<Rightarrow> dev_state \<Rightarrow> (bk_err_t \<times> dev_state) option" where
  "yuv_close_call env s =
     (case yuv_display_close (dv_yuv s) of
        (Some ret, y) \<Rightarrow> Some (ret, s\<lparr>dv_yuv := y\<rparr>)
      | (None, y) \<Rightarrow> do {
          y \<leftarrow> yuv_run (de_yuv_steps env) y;
          (if yv_ctl y = Ctl_idle then Some (BK_OK, s\<lparr>dv_yuv := y\<rparr>) else None)
        })"

definition transfer_call ::
    "dev_env \<Rightarrow> (trans_state \<Rightarrow> bk_err_t option \<times> trans_state) \<Rightarrow> dev_state \<Rightarrow> (bk_err_t \<times> dev_state) option"
  where
  "transfer_call env call s =
     (case call ((dv_trans s)\<lparr>vt_fq := dv_fq s\<rparr>) of
        (Some ret, t) \<Rightarrow> Some (ret, set_fq (vt_fq t) (s\<lparr>dv_trans := t\<rparr>))
      | (None, t) \<Rightarrow> do {
          t \<leftarrow> trans_run (de_trans_steps env) t;
          (if vt_ctl t = Tc_idle then Some (BK_OK, set_fq (vt_fq t) (s\<lparr>dv_trans := t\<rparr>)) else None)
        })"

definition register_call :: "image_format \<Rightarrow> u32 \<Rightarrow> dev_state \<Rightarrow> dev_state option" where
  "register_call format c s =
     map_option (\<lambda>(_, q). set_fq q s) (frame_queue_v2_register_consumer format c (dv_fq s))"

definition unregister_call :: "image_format \<Rightarrow> u32 \<Rightarrow> dev_state \<Rightarrow> dev_state option" where
  "unregister_call format c s =
     map_option (\<lambda>(_, q). set_fq q s) (frame_queue_v2_unregister_consumer format c (dv_fq s))"

definition clear_call :: "dev_state \<Rightarrow> dev_state option" where
  "clear_call s = map_option (\<lambda>(_, q). set_fq q s) (frame_queue_v2_clear_all (dv_fq s))"

section \<open>The decoder\<close>

text \<open>The callbacks of the pipeline: the decoder is the consumer \<^verbatim>\<open>CONSUMER_DECODER\<close> of the MJPEG queue.\<close>

definition jpeg_complete :: "frame_ptr option \<Rightarrow> dev_state \<Rightarrow> (bk_err_t \<times> dev_state) option" where
  "jpeg_complete out_frame s =
     map_option (\<lambda>q. (BK_OK, set_fq q s))
       (frame_queue_v2_release_frame IMAGE_MJPEG CONSUMER_DECODER out_frame (dv_fq s))"

definition jpeg_read ::
    "fq_state wait_env list \<Rightarrow> u64 \<Rightarrow> u32 \<Rightarrow> dev_state \<Rightarrow> (get_result \<times> dev_state) option" where
  "jpeg_read waits start_time timeout_ms s =
     map_option (\<lambda>(r, q). (r, set_fq q s))
       (frame_queue_v2_get_frame waits start_time IMAGE_MJPEG CONSUMER_DECODER (Wait_ms timeout_ms) (dv_fq s))"

definition display_frame_free_cb :: "frame_ptr \<Rightarrow> dev_state \<Rightarrow> dev_state" where
  "display_frame_free_cb frame s = dev_emit [Dec_free frame] s"

definition decode_malloc :: "frame_ptr option \<Rightarrow> u32 \<Rightarrow> dev_state \<Rightarrow> frame_ptr option \<times> dev_state" where
  "decode_malloc alloc sz s = (alloc, dev_emit [Dec_alloc sz] s)"

definition decode_free :: "frame_ptr \<Rightarrow> dev_state \<Rightarrow> bk_err_t \<times> dev_state" where
  "decode_free frame s = (BK_OK, dev_emit [Dec_free frame] s)"

datatype dec_end_type_t = HW_DEC_END | SW_DEC_END | DEC_END_OTHER

definition decode_complete ::
    "dev_env \<Rightarrow> dec_end_type_t \<Rightarrow> bk_err_t \<Rightarrow> frame_ptr option \<Rightarrow> dev_state \<Rightarrow> bk_err_t \<times> dev_state" where
  "decode_complete env format_type result out_frame s =
     (case out_frame of
        None \<Rightarrow> (BK_OK, s)
      | Some f \<Rightarrow>
          if result \<noteq> BK_OK then (BK_OK, display_frame_free_cb f s)
          else if format_type = DEC_END_OTHER then (BK_OK, s)
          else
            (BK_OK, case Option.bind (db_device_info s) display_ctlr_handle of
               Some h \<Rightarrow>
                 (let s = dev_emit [Dec_flush h f] s in
                  if de_flush env \<noteq> BK_OK then display_frame_free_cb f s else s)
             | None \<Rightarrow> display_frame_free_cb f s))"

definition mjpeg_decoder_reset :: "dev_state \<Rightarrow> dev_state" where
  "mjpeg_decoder_reset s =
     (case Option.bind (db_device_info s) video_pipeline_handle of
        None \<Rightarrow> s
      | Some p \<Rightarrow> dev_emit [Reset_decode p] s)"

definition uvc_event_callback :: "bool \<Rightarrow> dev_state \<Rightarrow> dev_state" where
  "uvc_event_callback is_disconnect s = (if is_disconnect then mjpeg_decoder_reset s else s)"

text \<open>Creating the pipeline when there is none; the consumer is taken back when that fails.\<close>

definition need_pipeline :: "dev_env \<Rightarrow> db_device_info_t \<Rightarrow> dev_state \<Rightarrow> (bk_err_t \<times> dev_state) option" where
  "need_pipeline env i s =
     (if video_pipeline_handle i = None
      then (let s = dev_emit [Pipeline_new] s in
        if de_pipeline_new env \<noteq> BK_OK
        then map_option (Pair (de_pipeline_new env)) (unregister_call IMAGE_MJPEG CONSUMER_DECODER s)
        else Some (BK_OK, set_info (i\<lparr>video_pipeline_handle := Some (de_pipeline env)\<rparr>) s))
      else Some (BK_OK, s))"

definition mjpeg_decode_open ::
    "dev_env \<Rightarrow> media_rotate_mode_t \<Rightarrow> u32 \<Rightarrow> dev_state \<Rightarrow> (bk_err_t \<times> dev_state) option" where
  "mjpeg_decode_open env rot angle s = do {
     i \<leftarrow> db_device_info s;
     (case cam_type i of
        DVP_CAMERA \<Rightarrow> do {
          (ret, s) \<leftarrow> yuv_open_call env (Some (display_ctlr_handle i)) angle s;
          Some (ret, s)
        }
      | UVC_CAMERA \<Rightarrow> do {
          s \<leftarrow> register_call IMAGE_MJPEG CONSUMER_DECODER s;
          (ret, s) \<leftarrow> need_pipeline env i s;
          (if ret \<noteq> BK_OK then Some (ret, s)
           else do {
             i \<leftarrow> db_device_info s;
             p \<leftarrow> video_pipeline_handle i;
             let s = dev_emit [Open_rotate p rot (get_rotate_angle angle)] s;
             (if de_open_rotate env \<noteq> BK_OK
              then map_option (Pair (de_open_rotate env)) (unregister_call IMAGE_MJPEG CONSUMER_DECODER s)
              else Some (BK_OK, s))
           })
        }
      | CAMERA_OTHER \<Rightarrow> Some (BK_OK, s))
   }"

definition mjpeg_decode_close :: "dev_env \<Rightarrow> dev_state \<Rightarrow> (bk_err_t \<times> dev_state) option" where
  "mjpeg_decode_close env s = do {
     i \<leftarrow> db_device_info s;
     (if cam_type i = DVP_CAMERA \<and> yuv_display_is_running (dv_yuv s) then yuv_close_call env s
      else (case video_pipeline_handle i of
         None \<Rightarrow> Some (BK_OK, s)
       | Some p \<Rightarrow>
           (let s = dev_emit [Close_rotate p] s in
            if di_handle i = None
            then map_option (Pair (de_close_rotate env)) (unregister_call IMAGE_MJPEG CONSUMER_DECODER s)
            else Some (de_close_rotate env, s))))
   }"

section \<open>The camera\<close>

definition h264e_frame_malloc ::
    "frame_ptr option \<Rightarrow> u64 \<Rightarrow> u32 \<Rightarrow> dev_state \<Rightarrow> (frame_ptr option \<times> dev_state) option" where
  "h264e_frame_malloc alloc now sz s =
     map_option (\<lambda>(f, q). (f, set_fq q s)) (frame_queue_v2_malloc alloc now IMAGE_H264 sz (dv_fq s))"

definition h264e_frame_complete ::
    "u64 \<Rightarrow> u64 \<Rightarrow> frame_ptr option \<Rightarrow> bk_err_t \<Rightarrow> dev_state \<Rightarrow> dev_state option" where
  "h264e_frame_complete now now' frame result s =
     map_option (\<lambda>(_, q). set_fq q s)
       (if result \<noteq> AVDK_ERR_OK then frame_queue_v2_cancel IMAGE_H264 frame (dv_fq s)
        else frame_queue_v2_complete now now' IMAGE_H264 frame (dv_fq s))"

definition doorbell_h264_encode_turn_on ::
    "dev_env \<Rightarrow> camera_parameters_t \<Rightarrow> dev_state \<Rightarrow> (bk_err_t \<times> dev_state) option" where
  "doorbell_h264_encode_turn_on env p s = do {
     i \<leftarrow> db_device_info s;
     s \<leftarrow> register_call IMAGE_MJPEG CONSUMER_DECODER s;
     (ret, s) \<leftarrow> need_pipeline env i s;
     (if ret \<noteq> AVDK_ERR_OK then Some (ret, s)
      else do {
        i \<leftarrow> db_device_info s;
        h \<leftarrow> video_pipeline_handle i;
        Some (de_open_h264e env,
          dev_emit [Open_h264e h (cam_width p) (cam_height p) (get_rotate_angle (ucast (cam_rotate p)))] s)
      })
   }"

definition UVC_DEVICE_ID :: u16 where "UVC_DEVICE_ID = 0xFDF6"

definition open_camera :: "dev_env \<Rightarrow> camera_parameters_t \<Rightarrow> db_device_info_t \<Rightarrow> dev_state \<Rightarrow> db_device_info_t \<times> dev_state"
  where
  "open_camera env p i s =
     (if cam_id p = UVC_DEVICE_ID
      then (let (h, c) = uvc_camera_turn_on (de_cam env) (Some p) (dv_cam s);
                i = i\<lparr>cam_type := UVC_CAMERA, di_handle := h\<rparr>
            in (i, set_info i (s\<lparr>dv_cam := c\<rparr>)))
      else (let (h, c) = dvp_camera_turn_on (de_cam env) (Some p) (dv_cam s);
                i = i\<lparr>cam_type := DVP_CAMERA, di_handle := h\<rparr>
            in (i, set_info i (s\<lparr>dv_cam := c\<rparr>))))"

definition doorbell_camera_open ::
    "dev_env \<Rightarrow> camera_parameters_t \<Rightarrow> dev_state \<Rightarrow> (bk_err_t \<times> dev_state) option" where
  "doorbell_camera_open env p s = do {
     i \<leftarrow> db_device_info s;
     (if cam_format p = 0 then Some (AVDK_ERR_UNSUPPORTED, s)
      else
        (let (i, s) = open_camera env p (i\<lparr>transfer_format := IMAGE_H264\<rparr>) s in
         if di_handle i = None then Some (AVDK_ERR_INVAL, s)
         else do {
           (ret, s) \<leftarrow> (if cam_type i = UVC_CAMERA then doorbell_h264_encode_turn_on env p s else Some (AVDK_ERR_OK, s));
           (if ret \<noteq> AVDK_ERR_OK then Some (ret, s)
            else if display_ctlr_handle i \<noteq> None then mjpeg_decode_open env HW_ROTATE (ucast (cam_rotate p)) s
            else Some (AVDK_ERR_OK, s))
         }))
   }"

definition doorbell_camera_close :: "dev_env \<Rightarrow> dev_state \<Rightarrow> (bk_err_t \<times> dev_state) option" where
  "doorbell_camera_close env s = do {
     i \<leftarrow> db_device_info s;
     let s = (case video_pipeline_handle i of None \<Rightarrow> s | Some h \<Rightarrow> dev_emit [Close_h264e h] s);
     (if video_pipeline_handle i \<noteq> None \<and> de_close_h264e env \<noteq> AVDK_ERR_OK then Some (AVDK_ERR_GENERIC, s)
      else
        (let (ret, c) = (if cam_type i = UVC_CAMERA then uvc_camera_turn_off (de_cam env) (di_handle i) (dv_cam s)
                         else dvp_camera_turn_off (de_cam env) (di_handle i) (dv_cam s));
             s = s\<lparr>dv_cam := c\<rparr> in
         if di_lcd_device i = None
         then map_option (Pair ret) (unregister_call IMAGE_MJPEG CONSUMER_DECODER s)
         else Some (ret, s)))
   }"

text \<open>
  The doorviewer transfers MJPEG and has no encoder. Only the picture of a USB camera is sent to a
  display that is already on, always turned by 90 degrees, and the result is not looked at.
\<close>

definition doorviewer_camera_open ::
    "dev_env \<Rightarrow> camera_parameters_t \<Rightarrow> dev_state \<Rightarrow> (bk_err_t \<times> dev_state) option" where
  "doorviewer_camera_open env p s = do {
     i \<leftarrow> db_device_info s;
     (if cam_format p \<noteq> 0 then Some (AVDK_ERR_UNSUPPORTED, s)
      else
        (let (i, s) = open_camera env p (i\<lparr>transfer_format := IMAGE_MJPEG\<rparr>) s in
         if di_handle i = None then Some (AVDK_ERR_INVAL, s)
         else if cam_type i = UVC_CAMERA \<and> display_ctlr_handle i \<noteq> None
         then map_option (\<lambda>(_, s). (AVDK_ERR_OK, s)) (mjpeg_decode_open env HW_ROTATE 90 s)
         else Some (AVDK_ERR_OK, s)))
   }"

definition doorviewer_camera_close :: "dev_env \<Rightarrow> dev_state \<Rightarrow> (bk_err_t \<times> dev_state) option" where
  "doorviewer_camera_close env s =
     (case db_device_info s of
        None \<Rightarrow> Some (AVDK_ERR_OK, s)
      | Some i \<Rightarrow>
          if di_handle i = None then Some (AVDK_ERR_OK, s)
          else
            (let (ret, c) = (if cam_type i = UVC_CAMERA then uvc_camera_turn_off (de_cam env) (di_handle i) (dv_cam s)
                             else dvp_camera_turn_off (de_cam env) (di_handle i) (dv_cam s))
             in Some (ret, s\<lparr>dv_cam := c\<rparr>)))"

definition project_camera_open ::
    "dev_env \<Rightarrow> camera_parameters_t \<Rightarrow> dev_state \<Rightarrow> (bk_err_t \<times> dev_state) option" where
  "project_camera_open env = (if de_doorviewer env then doorviewer_camera_open env else doorbell_camera_open env)"

definition project_camera_close :: "dev_env \<Rightarrow> dev_state \<Rightarrow> (bk_err_t \<times> dev_state) option" where
  "project_camera_close env = (if de_doorviewer env then doorviewer_camera_close env else doorbell_camera_close env)"

definition doorbell_send_flash_op_state_callback :: "u32 \<Rightarrow> dev_state \<Rightarrow> dev_state" where
  "doorbell_send_flash_op_state_callback state s =
     (case Option.bind (db_device_info s) di_handle of
        None \<Rightarrow> s
      | Some h \<Rightarrow> dev_emit [if state \<noteq> 0 then Camera_suspend h else Camera_resume h] s)"

definition doorbell_camera_turn_on ::
    "dev_env \<Rightarrow> camera_parameters_t \<Rightarrow> dev_state \<Rightarrow> (bk_err_t \<times> dev_state) option" where
  "doorbell_camera_turn_on env p s =
     (case db_device_info s of
        None \<Rightarrow> Some (BK_FAIL, s)
      | Some i \<Rightarrow>
          if di_handle i \<noteq> None then Some (BK_OK, s)
          else
            (let s = dev_emit [Bluetooth_deinit] s;
                 (ret, q) = frame_queue_v2_init_all (de_queues env) (dv_fq s);
                 s = set_fq q s in
             if ret \<noteq> BK_OK then Some (ret, s)
             else do {
               (ret, s) \<leftarrow> project_camera_open env p s;
               (if ret \<noteq> BK_OK then Some (ret, s) else Some (BK_OK, dev_emit [Flash_notify True] s))
             }))"

definition doorbell_camera_turn_off :: "dev_env \<Rightarrow> dev_state \<Rightarrow> (bk_err_t \<times> dev_state) option" where
  "doorbell_camera_turn_off env s =
     (case db_device_info s of
        None \<Rightarrow> Some (BK_OK, s)
      | Some i \<Rightarrow>
          if di_handle i = None then Some (BK_OK, s)
          else do {
            (ret, s) \<leftarrow> project_camera_close env s;
            (if ret \<noteq> BK_OK then Some (ret, s)
             else do {
               i \<leftarrow> db_device_info s;
               let s = set_info (i\<lparr>di_handle := None\<rparr>) (dev_emit [Flash_notify False] s);
               (if display_ctlr_handle i = None then map_option (Pair BK_OK) (clear_call s) else Some (BK_OK, s))
             })
          })"

section \<open>The video transfer\<close>

definition doorbell_video_transfer_turn_on :: "dev_env \<Rightarrow> dev_state \<Rightarrow> (bk_err_t \<times> dev_state) option" where
  "doorbell_video_transfer_turn_on env s =
     (case db_device_info s of
        None \<Rightarrow> Some (BK_FAIL, s)
      | Some i \<Rightarrow>
          if di_handle i = None then Some (BK_FAIL, s)
          else do {
            s \<leftarrow> register_call (transfer_format i) CONSUMER_TRANSMISSION s;
            transfer_call env (doorbell_devices_start (de_trans env) (transfer_format i)) s
          })"

definition doorbell_video_transfer_turn_off :: "dev_env \<Rightarrow> dev_state \<Rightarrow> (bk_err_t \<times> dev_state) option" where
  "doorbell_video_transfer_turn_off env s =
     (case db_device_info s of
        None \<Rightarrow> Some (BK_OK, s)
      | Some i \<Rightarrow>
          if di_handle i = None then Some (BK_OK, s)
          else do {
            (ret, s) \<leftarrow> transfer_call env doorbell_devices_stop s;
            map_option (Pair ret) (unregister_call (transfer_format i) CONSUMER_TRANSMISSION s)
          })"

section \<open>The display\<close>

text \<open>What the display calls return: an error code, or one of the status codes of the commands.\<close>

datatype dev_ret = Ret bk_err_t | Evt_ok | Evt_error | Evt_already

definition doorbell_lcd_backlight_open :: "dev_state \<Rightarrow> bk_err_t \<times> dev_state" where
  "doorbell_lcd_backlight_open s = (AVDK_ERR_OK, dev_emit [Lcd_backlight True] s)"

definition doorbell_lcd_backlight_close :: "dev_state \<Rightarrow> bk_err_t \<times> dev_state" where
  "doorbell_lcd_backlight_close s = (AVDK_ERR_OK, dev_emit [Lcd_backlight False] s)"

definition doorbell_lcd_ldo_open :: "dev_state \<Rightarrow> bk_err_t \<times> dev_state" where
  "doorbell_lcd_ldo_open s = (AVDK_ERR_OK, dev_emit [Lcd_ldo True] s)"

definition doorbell_lcd_ldo_close :: "dev_state \<Rightarrow> bk_err_t \<times> dev_state" where
  "doorbell_lcd_ldo_close s = (AVDK_ERR_OK, dev_emit [Lcd_ldo False] s)"

text \<open>
  The controller for the panel; \<^verbatim>\<open>ret\<close> is still \<^verbatim>\<open>BK_FAIL\<close> for a panel of another type.
\<close>

definition new_display :: "dev_env \<Rightarrow> nat \<times> lcd_type_t \<Rightarrow> db_device_info_t \<Rightarrow> dev_state \<Rightarrow> bk_err_t \<times> dev_state" where
  "new_display env device i s =
     (case snd device of
        LCD_TYPE_OTHER \<Rightarrow> (BK_FAIL, s)
      | ty \<Rightarrow>
          (let s = dev_emit [if ty = LCD_TYPE_RGB then Display_new_rgb (fst device) else Display_new_mcu (fst device)] s in
           if de_display_new env \<noteq> BK_OK then (de_display_new env, s)
           else (BK_OK, set_info (i\<lparr>display_ctlr_handle := Some (de_display env)\<rparr>) s)))"

text \<open>What the label \<^verbatim>\<open>error\<close> does.\<close>

definition display_error :: "dev_env \<Rightarrow> dev_state \<Rightarrow> (dev_ret \<times> dev_state) option" where
  "display_error env s = do {
     (_, s) \<leftarrow> mjpeg_decode_close env s;
     i \<leftarrow> db_device_info s;
     Some (Evt_error, set_info (i\<lparr>display_ctlr_handle := None\<rparr>) (dev_emit [Display_delete (display_ctlr_handle i)] s))
   }"

definition doorbell_display_turn_on ::
    "dev_env \<Rightarrow> display_parameters_t \<Rightarrow> dev_state \<Rightarrow> (dev_ret \<times> dev_state) option" where
  "doorbell_display_turn_on env p s =
     (let (ret, q) = frame_queue_v2_init_all (de_queues env) (dv_fq s); s = set_fq q s in
      if ret \<noteq> BK_OK then Some (Evt_error, s)
      else do {
        i \<leftarrow> db_device_info s;
        (if di_lcd_id i \<noteq> 0 \<or> di_lcd_device i \<noteq> None then Some (Evt_already, s)
         else
           (let s = dev_emit [Bluetooth_deinit] s in
            case de_lcd env of
              None \<Rightarrow> Some (Evt_error, s)
            | Some device \<Rightarrow>
                (let s = snd (doorbell_lcd_ldo_open s); (ret, s) = new_display env device i s in
                 if ret \<noteq> BK_OK then Some (Ret ret, s)
                 else do {
                   i \<leftarrow> db_device_info s;
                   let rot_mode = (if lcd_pixel_format p = 0 then HW_ROTATE
                                   else if lcd_pixel_format p = 1 then SW_ROTATE else NONE_ROTATE);
                   let s = dev_emit [Display_open (display_ctlr_handle i)] s;
                   (if de_display_open env \<noteq> BK_OK then display_error env s
                    else do {
                      (ret, s) \<leftarrow> mjpeg_decode_open env rot_mode (ucast (lcd_rotate_angle p)) s;
                      (if ret \<noteq> AVDK_ERR_OK then display_error env s
                       else do {
                         let s = snd (doorbell_lcd_backlight_open s);
                         i \<leftarrow> db_device_info s;
                         Some (Evt_ok, set_info (i\<lparr>di_lcd_id := lcd_id p, di_lcd_device := Some (fst device)\<rparr>) s)
                       })
                    })
                 })))
      })"

definition doorbell_display_turn_off :: "dev_env \<Rightarrow> dev_state \<Rightarrow> (dev_ret \<times> dev_state) option" where
  "doorbell_display_turn_off env s = do {
     i \<leftarrow> db_device_info s;
     (if di_lcd_id i = 0 \<or> di_lcd_device i = None then Some (Evt_already, s)
      else do {
        (ret, s) \<leftarrow> mjpeg_decode_close env (snd (doorbell_lcd_backlight_close s));
        i \<leftarrow> db_device_info s;
        let s = dev_emit [Display_close (display_ctlr_handle i), Display_delete (display_ctlr_handle i)] s;
        let s = set_info (i\<lparr>display_ctlr_handle := None, di_lcd_id := 0, di_lcd_device := None\<rparr>) s;
        let s = snd (doorbell_lcd_ldo_close s);
        (if di_handle i = None then map_option (Pair (Ret ret)) (clear_call s) else Some (Ret ret, s))
      })
   }"

section \<open>Initialisation\<close>

definition device_info_zero :: db_device_info_t where
  "device_info_zero = \<lparr>di_lcd_id = 0, di_lcd_device = None, video_pipeline_handle = None,
     display_ctlr_handle = None, cam_type = CAMERA_OTHER, transfer_format = IMAGE_OTHER 0, di_handle = None\<rparr>"

definition doorbell_devices_init :: "dev_env \<Rightarrow> dev_state \<Rightarrow> bk_err_t \<times> dev_state" where
  "doorbell_devices_init env s =
     (if db_device_info s = None \<and> \<not> de_malloc env then (BK_FAIL, s)
      else (BK_OK, set_info device_info_zero s))"

definition doorbell_devices_deinit :: "dev_state \<Rightarrow> dev_state" where
  "doorbell_devices_deinit s =
     (case db_device_info s of
        None \<Rightarrow> s
      | Some i \<Rightarrow>
          (let s = (case video_pipeline_handle i of None \<Rightarrow> s | Some p \<Rightarrow> dev_emit [Pipeline_delete p] s)
           in s\<lparr>db_device_info := None\<rparr>))"

end
