(* ===== verification/Device_Answers.thy ===== *)
theory Device_Answers
  imports Video_Devices Ap_Commands
begin

text \<open>
  The answers to the queries for cameras, panels and the state of the display in
  \<^verbatim>\<open>components/smart_lock/src/doorbell_devices.c\<close>: events whose payload is a text that
  \<^verbatim>\<open>sprintf\<close> writes behind the event's header.

  Each function returns what it passes to \<^verbatim>\<open>ntwk_trans_ctrl_send\<close>. It is \<open>None\<close> when the buffer could not
  be allocated (the code does not check that), or when the text with its zero byte is longer than
  the buffer. \<open>size\<close> is \<^verbatim>\<open>DEVICE_RESPONSE_SIZE\<close>, the SDK's packet size less the 9 bytes of the header.
\<close>

section \<open>Texts\<close>

fun dec_text :: "nat \<Rightarrow> u8 list" where
  "dec_text n = (if n < 10 then [48 + of_nat n] else dec_text (n div 10) @ [48 + of_nat (n mod 10)])"

declare dec_text.simps [simp del]

definition DQ :: "u8 list" where "DQ = [34]"

text \<open>\<open>quoted s\<close> is \<open>s\<close> between double quotes.\<close>

definition quoted :: "u8 list \<Rightarrow> u8 list" where
  "quoted s = DQ @ s @ DQ"

fun members :: "(u8 list \<times> u8 list) list \<Rightarrow> u8 list" where
  "members [] = []"
| "members [(k, v)] = quoted k @ ascii '': '' @ v"
| "members ((k, v) # ms) = quoted k @ ascii '': '' @ v @ ascii '', '' @ members ms"

definition json :: "(u8 list \<times> u8 list) list \<Rightarrow> u8 list" where
  "json ms = ascii ''{'' @ members ms @ ascii ''}''"

section \<open>The answers\<close>

definition answer :: "nat \<Rightarrow> u32 \<Rightarrow> u16 \<Rightarrow> u8 list \<Rightarrow> u8 list option" where
  "answer sz opcode flags txt =
     (if length txt < sz
      then Some (evt_bytes \<lparr>evt_opcode = opcode, evt_status = EVT_STATUS_OK, evt_flags = flags,
                   evt_length = of_nat (length txt)\<rparr> @ take (unat (of_nat (length txt) :: u16)) txt)
      else None)"

definition EVT_FLAGS_CONTINUE :: u16 where "EVT_FLAGS_CONTINUE = 1"

definition camera_text :: "u8 list" where
  "camera_text = ascii ''{'' @ members [(ascii ''name'', quoted (ascii ''UVC'')),
     (ascii ''id'', quoted (dec_text (unat UVC_DEVICE_ID))), (ascii ''type'', quoted (ascii ''UVC''))] @
     ascii '', '' @ quoted (ascii ''ppi'') @ ascii '':['' @ quoted (dec_text 0 @ ascii ''X'' @ dec_text 0) @ ascii '']}''"

definition doorbell_get_supported_camera_devices :: "bool \<Rightarrow> nat \<Rightarrow> u32 \<Rightarrow> u8 list list option" where
  "doorbell_get_supported_camera_devices malloc_ok sz opcode =
     (if malloc_ok
      then map_option (\<lambda>m. [m]) (answer sz opcode EVT_FLAGS_COMPLETE camera_text)
      else None)"

record lcd_device_t =
  ld_name :: "u8 list"
  ld_id :: u16
  ld_rgb :: bool
  ld_width :: u16
  ld_height :: u16

definition lcd_text :: "lcd_device_t \<Rightarrow> u8 list" where
  "lcd_text d = ascii ''{'' @ members [(ascii ''name'', quoted (ld_name d)),
     (ascii ''id'', quoted (dec_text (unat (ld_id d)))),
     (ascii ''type'', quoted (ascii (if ld_rgb d then ''rgb'' else ''mcu'')))] @
     ascii '', '' @ quoted (ascii ''ppi'') @ ascii '':'' @
     quoted (dec_text (unat (ld_width d)) @ ascii ''X'' @ dec_text (unat (ld_height d))) @ ascii ''}''"

text \<open>The loop over the panels; the flags of the last message end the answer.\<close>

fun lcd_loop :: "nat \<Rightarrow> u32 \<Rightarrow> lcd_device_t list \<Rightarrow> u8 list list option" where
  "lcd_loop sz opcode [] = Some []"
| "lcd_loop sz opcode (d # ds) = do {
     m \<leftarrow> answer sz opcode (if ds = [] then EVT_FLAGS_COMPLETE else EVT_FLAGS_CONTINUE) (lcd_text d);
     ms \<leftarrow> lcd_loop sz opcode ds;
     Some (m # ms)
   }"

text \<open>\<open>devices\<close> is \<open>None\<close> when the SDK's list is \<^verbatim>\<open>NULL\<close> or an error.\<close>

definition doorbell_get_supported_lcd_devices ::
    "bool \<Rightarrow> nat \<Rightarrow> lcd_device_t list option \<Rightarrow> u32 \<Rightarrow> u8 list list option" where
  "doorbell_get_supported_lcd_devices malloc_ok sz devices opcode =
     (if malloc_ok then (case devices of None \<Rightarrow> Some [] | Some ds \<Rightarrow> lcd_loop sz opcode ds) else None)"

definition LCD_STATUS_CLOSE :: nat where "LCD_STATUS_CLOSE = 0"
definition LCD_STATUS_OPEN :: nat where "LCD_STATUS_OPEN = 1"

definition doorbell_get_lcd_status :: "bool \<Rightarrow> nat \<Rightarrow> dev_state \<Rightarrow> u32 \<Rightarrow> u8 list list option" where
  "doorbell_get_lcd_status malloc_ok sz s opcode = do {
     i \<leftarrow> db_device_info s;
     let status = (if display_ctlr_handle i \<noteq> None then LCD_STATUS_OPEN else LCD_STATUS_CLOSE);
     (if malloc_ok
      then map_option (\<lambda>m. [m]) (answer sz opcode EVT_FLAGS_COMPLETE
             (json [(ascii ''status'', quoted (dec_text status))]))
      else None)
   }"

section \<open>The buffer is large enough\<close>

lemma dec_text_short: "n < 100000 \<Longrightarrow> length (dec_text n) \<le> 5"
proof -
  have *: "n < 10 ^ Suc k \<Longrightarrow> length (dec_text n) \<le> Suc k" for k n
  proof (induction k arbitrary: n)
    case 0
    then show ?case by (simp add: dec_text.simps [of n])
  next
    case (Suc k)
    have "n div 10 < 10 ^ Suc k" using Suc.prems by (simp add: less_mult_imp_div_less)
    from Suc.IH [OF this] show ?case by (auto simp: dec_text.simps [of n])
  qed
  from * [of n 4] show "n < 100000 \<Longrightarrow> length (dec_text n) \<le> 5" by simp
qed

lemma dec_text_u16: "length (dec_text (unat (w :: u16))) \<le> 5"
proof -
  have "unat w < 2 ^ LENGTH(16)" by (rule unsigned_less)
  then show ?thesis by (intro dec_text_short) simp
qed

lemma ascii_length [simp]: "length (ascii s) = length s"
  by (simp add: ascii_def)

text \<open>A panel's text is at most 63 bytes and its name.\<close>

lemma lcd_text_length: "length (lcd_text d) \<le> 63 + length (ld_name d)"
  using dec_text_u16 [of "ld_id d"] dec_text_u16 [of "ld_width d"] dec_text_u16 [of "ld_height d"]
  by (simp add: lcd_text_def quoted_def DQ_def)

text \<open>
  With names that leave 64 bytes of the buffer, every panel is answered by one message.
\<close>

lemma lcd_loop_answers:
  "\<forall>d \<in> set ds. length (ld_name d) + 64 \<le> sz \<Longrightarrow>
     \<exists>ms. lcd_loop sz opcode ds = Some ms \<and> length ms = length ds"
proof (induction ds)
  case (Cons d ds)
  then show ?case
    using lcd_text_length [of d] by (auto simp: answer_def)
qed simp

end
