(* ===== verification/Video_Devices_Properties.thy ===== *)
theory Video_Devices_Properties
  imports Video_Devices
begin

text \<open>
  What the camera drivers and the device layer guarantee: the choice of a USB resolution against a
  reference definition, what a camera that could not be turned on leaves behind, and the edges of
  the device layer.
\<close>

section \<open>Resolution and frame rate\<close>

lemma uvc_fps_loop_True:
  "uvc_fps_loop True want fps is fl = (fl \<or> (\<exists>i \<in> set is. fps i = want))"
  by (induction "is" arbitrary: fl) auto

lemma uvc_fps_loop_False: "uvc_fps_loop False want fps is fl = fl"
  by (induction "is") auto

definition has_size :: "bk_cam_uvc_config_t \<Rightarrow> uvc_frame \<Rightarrow> bool" where
  "has_size cfg f = (uf_width f = uc_width cfg \<and> uf_height f = uc_height cfg)"

definition offered_rates :: "uvc_frame \<Rightarrow> u32 set" where
  "offered_rates f = uf_fps f ` {..<uf_fps_num f}"

lemma uvc_rate_found:
  "uvc_fps_loop True want (uf_fps f) [0..<uf_fps_num f] False = (want \<in> offered_rates f)"
  by (auto simp: uvc_fps_loop_True offered_rates_def)

text \<open>
  C40. The four format checks of the USB camera share one loop with two flags. It does what it is
  for: the first resolution of the wanted size is taken, with the wanted frame rate when that
  resolution has it and its first rate otherwise; without such a resolution the configuration is
  refused and unchanged.
\<close>
theorem uvc_check_finds_resolution:
  "uvc_check fs cfg =
     (case List.find (has_size cfg) fs of
        None \<Rightarrow> (AVDK_ERR_UNSUPPORTED, cfg)
      | Some f \<Rightarrow>
          (AVDK_ERR_OK, cfg\<lparr>uc_fps := (if uc_fps cfg \<in> offered_rates f then uc_fps cfg else uf_fps f 0)\<rparr>))"
proof -
  have "uvc_frame_loop fs False False cfg =
      (case List.find (has_size cfg) fs of
         None \<Rightarrow> ((False, False), cfg)
       | Some f \<Rightarrow> ((True, True),
           cfg\<lparr>uc_fps := (if uc_fps cfg \<in> offered_rates f then uc_fps cfg else uf_fps f 0)\<rparr>))"
    by (induction fs)
      (auto simp: has_size_def uvc_rate_found uvc_fps_loop_False)
  then show ?thesis
    by (simp add: uvc_check_def split: option.split)
qed

section \<open>A camera that could not be turned on\<close>

definition calls_of :: "cam_state \<Rightarrow> cam_state \<Rightarrow> cam_call list" where
  "calls_of s s' = drop (length (cam_log s)) (cam_log s')"

text \<open>Where a controller was opened and not deleted again.\<close>

definition open_camera_left :: "cam_call list \<Rightarrow> bool" where
  "open_camera_left cs \<longleftrightarrow> (\<exists>h. Camera_open h \<in> set cs \<and> Camera_delete h \<notin> set cs)"

text \<open>
  C39. Turning a camera on either gives a handle of a controller that was opened, or leaves
  nothing: whatever the SDK answers, the controller is then deleted and the camera powered down,
  with the connect callback taken back.
\<close>
theorem camera_on_or_cleaned_up:
  "(case uvc_camera_turn_on env (Some p) s of (h, s') \<Rightarrow>
      if h = None
      then last (cam_log s') = Uvc_power_down \<and> uvc_callback s' = None \<and> \<not> open_camera_left (calls_of s s')
      else Camera_open (the h) \<in> set (calls_of s s') \<and> Uvc_power_down \<notin> set (calls_of s s')) \<and>
   (case dvp_camera_turn_on env (Some p) s of (h, s') \<Rightarrow>
      if h = None
      then last (cam_log s') = Gpio_down DVP_POWER_GPIO_ID \<and> \<not> open_camera_left (calls_of s s')
      else Camera_open (the h) \<in> set (calls_of s s') \<and> Gpio_down DVP_POWER_GPIO_ID \<notin> set (calls_of s s'))"
  by (auto simp: uvc_camera_turn_on_def uvc_camera_power_on_def uvc_camera_power_off_def
      dvp_camera_turn_on_def cam_emit_def calls_of_def open_camera_left_def
      DVP_POWER_GPIO_ID_def GPIO_INVALID_ID_def Let_def
      split: option.splits prod.splits if_splits)

section \<open>The edges\<close>

text \<open>
  After the camera was powered on its connect callback is still registered, with a semaphore
  that no longer exists: a later connection signals it.
\<close>

lemma stale_connect_callback:
  assumes "ce_sem env = Some sem" and "uvc_camera_power_on env s = (ret, s')"
  shows "uvc_callback s' = Some sem" and "uvc_connect_successful_callback sem s' = None"
  using assms by (auto simp: uvc_camera_power_on_def uvc_connect_successful_callback_def cam_emit_def)

text \<open>An H265 configuration is always refused, and an unknown format always accepted.\<close>

lemma h265_refused: "fst (uvc_check_h265_config d cfg) = AVDK_ERR_UNSUPPORTED"
  by (simp add: uvc_check_h265_config_def uvc_check_def)

lemma unknown_format_accepted:
  "uc_img_format cfg = IMAGE_OTHER n \<Longrightarrow> uvc_checkout_port_info (AVDK_ERR_OK, Some d) cfg = (AVDK_ERR_OK, cfg)"
  by (simp add: uvc_checkout_port_info_def)

text \<open>
  When the camera itself was turned on and the encoder then cannot be opened, the call fails and
  the handle stays: the next call answers \<^verbatim>\<open>BK_OK\<close> and does nothing.
\<close>

lemma info_of_fq [simp]: "db_device_info (set_fq q s) = db_device_info s"
  by (simp add: set_fq_def)

lemma info_of_emit [simp]: "db_device_info (dev_emit cs s) = db_device_info s"
  by (simp add: dev_emit_def)

lemma need_pipeline_info:
  assumes "need_pipeline env i s = Some (ret, s')" and "db_device_info s = Some i"
  shows "\<exists>i'. db_device_info s' = Some i' \<and> di_handle i' = di_handle i"
  using assms
  by (auto simp: need_pipeline_def unregister_call_def set_info_def Let_def split: if_splits)

lemma encoder_failure:
  assumes "doorbell_h264_encode_turn_on env p s = Some (ret, s')"
    and "db_device_info s = Some i" and "de_open_h264e env \<noteq> BK_OK"
  shows "ret \<noteq> BK_OK \<and> (\<exists>i'. db_device_info s' = Some i' \<and> di_handle i' = di_handle i)"
proof -
  from assms(1,2) obtain s1 ret1 s2 where
    1: "register_call IMAGE_MJPEG CONSUMER_DECODER s = Some s1" "need_pipeline env i s1 = Some (ret1, s2)"
    and r: "(if ret1 \<noteq> BK_OK then ret = ret1 \<and> s' = s2
      else ret = de_open_h264e env \<and> db_device_info s' = db_device_info s2)"
    by (auto simp: doorbell_h264_encode_turn_on_def Let_def split: Option.bind_splits if_splits)
  from 1(1) assms(2) have "db_device_info s1 = Some i"
    by (auto simp: register_call_def)
  from need_pipeline_info [OF 1(2) this] r assms(3) show ?thesis
    by (auto split: if_splits)
qed

lemma failed_encoder_keeps_camera:
  assumes "db_device_info s = Some i" and "cam_format p \<noteq> 0" and "cam_id p = UVC_DEVICE_ID"
    and on: "uvc_camera_turn_on (de_cam env) (Some p) (dv_cam s) = (Some h, c)"
    and enc: "de_open_h264e env \<noteq> BK_OK"
    and res: "doorbell_camera_open env p s = Some (ret, s')"
  shows "ret \<noteq> BK_OK" and "doorbell_camera_turn_on env' p' s' = Some (BK_OK, s')"
proof -
  let ?i = "i\<lparr>transfer_format := IMAGE_H264, cam_type := UVC_CAMERA, di_handle := Some h\<rparr>"
  let ?s = "set_info ?i (s\<lparr>dv_cam := c\<rparr>)"
  have i: "db_device_info ?s = Some ?i" by (simp add: set_info_def)
  from res assms(1-4) obtain ret1 s1 where
    1: "doorbell_h264_encode_turn_on env p ?s = Some (ret1, s1)"
    and r: "ret1 \<noteq> BK_OK \<longrightarrow> ret = ret1 \<and> s' = s1"
    by (auto simp: doorbell_camera_open_def open_camera_def Let_def split: Option.bind_splits if_splits)
  from encoder_failure [OF 1 i enc] obtain i' where
    "ret1 \<noteq> BK_OK" "db_device_info s1 = Some i'" "di_handle i' = Some h" by auto
  with r show "ret \<noteq> BK_OK" and "doorbell_camera_turn_on env' p' s' = Some (BK_OK, s')"
    by (auto simp: doorbell_camera_turn_on_def)
qed

end
