(* ===== verification/Device_Session.thy ===== *)
theory Device_Session
  imports Video_Devices_Properties Frame_Queue_Properties
begin

text \<open>
  The devices under any sequence of commands: camera, transfer and display turned on and off in any
  order, in the doorbell and in the doorviewer project, whatever the SDK answers. \<open>dev_inv\<close> is the
  invariant of the device record: what is open and powered is what the record says.
\<close>

section \<open>Commands\<close>

datatype dev_op =
    Camera_on camera_parameters_t | Camera_off | Transfer_on | Transfer_off
  | Display_on display_parameters_t | Display_off

fun dev_do :: "dev_env \<Rightarrow> dev_op \<Rightarrow> dev_state \<Rightarrow> dev_state option" where
  "dev_do env (Camera_on p) s = map_option snd (doorbell_camera_turn_on env p s)"
| "dev_do env Camera_off s = map_option snd (doorbell_camera_turn_off env s)"
| "dev_do env Transfer_on s = map_option snd (doorbell_video_transfer_turn_on env s)"
| "dev_do env Transfer_off s = map_option snd (doorbell_video_transfer_turn_off env s)"
| "dev_do env (Display_on p) s = map_option snd (doorbell_display_turn_on env p s)"
| "dev_do env Display_off s = map_option snd (doorbell_display_turn_off env s)"

fun dev_run :: "(dev_env \<times> dev_op) list \<Rightarrow> dev_state \<Rightarrow> dev_state option" where
  "dev_run [] s = Some s"
| "dev_run ((env, a) # as) s = Option.bind (dev_do env a s) (dev_run as)"

section \<open>What is open\<close>

text \<open>The controllers that were opened and not deleted since, and which cameras have power.\<close>

fun cam_replay :: "cam_call list \<Rightarrow> nat set \<times> bool \<times> bool \<Rightarrow> nat set \<times> bool \<times> bool" where
  "cam_replay [] v = v"
| "cam_replay (Camera_open h # cs) (L, u, d) = cam_replay cs (insert h L, u, d)"
| "cam_replay (Camera_delete h # cs) (L, u, d) = cam_replay cs (L - {h}, u, d)"
| "cam_replay (Uvc_power_on # cs) (L, u, d) = cam_replay cs (L, True, d)"
| "cam_replay (Uvc_power_down # cs) (L, u, d) = cam_replay cs (L, False, d)"
| "cam_replay (Gpio_up p # cs) (L, u, d) = cam_replay cs (L, u, True)"
| "cam_replay (Gpio_down p # cs) (L, u, d) = cam_replay cs (L, u, False)"
| "cam_replay (c # cs) v = cam_replay cs v"

lemma cam_replay_append: "cam_replay (xs @ ys) v = cam_replay ys (cam_replay xs v)"
  by (induction xs v rule: cam_replay.induct) auto

definition cam_view :: "cam_state \<Rightarrow> nat set \<times> bool \<times> bool" where
  "cam_view c = cam_replay (cam_log c) ({}, False, False)"

lemma cam_view_emit [simp]: "cam_view (cam_emit cs c) = cam_replay cs (cam_view c)"
  by (simp add: cam_view_def cam_emit_def cam_replay_append)

lemma cam_view_fields [simp]:
  "cam_view (c\<lparr>uvc_sems := x\<rparr>) = cam_view c" "cam_view (c\<lparr>uvc_callback := y\<rparr>) = cam_view c"
  by (simp_all add: cam_view_def)

text \<open>The displays that were opened and not deleted since, the backlight, and the callback for flash writes.\<close>

fun disp_replay :: "dev_call list \<Rightarrow> nat set \<times> bool \<times> bool \<Rightarrow> nat set \<times> bool \<times> bool" where
  "disp_replay [] v = v"
| "disp_replay (Display_open (Some h) # cs) (D, bl, fl) = disp_replay cs (insert h D, bl, fl)"
| "disp_replay (Display_delete (Some h) # cs) (D, bl, fl) = disp_replay cs (D - {h}, bl, fl)"
| "disp_replay (Lcd_backlight b # cs) (D, bl, fl) = disp_replay cs (D, b, fl)"
| "disp_replay (Flash_notify b # cs) (D, bl, fl) = disp_replay cs (D, bl, b)"
| "disp_replay (c # cs) v = disp_replay cs v"

lemma disp_replay_append: "disp_replay (xs @ ys) v = disp_replay ys (disp_replay xs v)"
  by (induction xs v rule: disp_replay.induct) auto

definition disp_view :: "dev_state \<Rightarrow> nat set \<times> bool \<times> bool" where
  "disp_view s = disp_replay (dv_log s) ({}, False, False)"

definition info_view :: "dev_state \<Rightarrow> (nat option \<times> camera_type_t \<times> nat option \<times> nat option) option" where
  "info_view s = map_option (\<lambda>i. (di_handle i, cam_type i, display_ctlr_handle i, di_lcd_device i)) (db_device_info s)"

definition dev_view :: "dev_state \<Rightarrow> (nat option \<times> camera_type_t \<times> nat option \<times> nat option) option \<times>
    (nat set \<times> bool \<times> bool) \<times> (nat set \<times> bool \<times> bool)" where
  "dev_view s = (info_view s, cam_view (dv_cam s), disp_view s)"

text \<open>
  What the record says: the camera's controller is the only one that may be open, the other camera
  is without power; without a camera in use there is none of that and no callback. The display's
  controller is exactly the one that is open, with the backlight.
\<close>

fun cam_ok :: "nat option \<Rightarrow> camera_type_t \<Rightarrow> nat set \<times> bool \<times> bool \<Rightarrow> bool \<Rightarrow> bool" where
  "cam_ok h ty (L, u, d) fl \<longleftrightarrow>
     (case h of None \<Rightarrow> L = {} \<and> \<not> u \<and> \<not> d \<and> \<not> fl
              | Some x \<Rightarrow> L \<subseteq> {x} \<and> (if ty = UVC_CAMERA then \<not> d else \<not> u))"

fun view_ok :: "(nat option \<times> camera_type_t \<times> nat option \<times> nat option) option \<times>
    (nat set \<times> bool \<times> bool) \<times> (nat set \<times> bool \<times> bool) \<Rightarrow> bool" where
  "view_ok (Some (h, ty, dh, ld), v, (D, bl, fl)) \<longleftrightarrow>
     cam_ok h ty v fl \<and> D = set_option dh \<and> (dh = None \<longleftrightarrow> ld = None) \<and> (bl \<longleftrightarrow> dh \<noteq> None)"
| "view_ok (None, _, _) \<longleftrightarrow> False"

definition dev_inv :: "dev_state \<Rightarrow> bool" where
  "dev_inv s \<longleftrightarrow> view_ok (dev_view s)"

section \<open>What leaves the view alone\<close>

lemma disp_view_emit [simp]: "disp_view (dev_emit cs s) = disp_replay cs (disp_view s)"
  by (simp add: disp_view_def dev_emit_def disp_replay_append)

lemma view_fields [simp]:
  "dv_cam (dev_emit cs s) = dv_cam s" "info_view (dev_emit cs s) = info_view s"
  "dv_cam (set_fq q s) = dv_cam s" "info_view (set_fq q s) = info_view s" "disp_view (set_fq q s) = disp_view s"
  "dv_cam (set_info i s) = dv_cam s" "disp_view (set_info i s) = disp_view s"
  "info_view (set_info i s) = Some (di_handle i, cam_type i, display_ctlr_handle i, di_lcd_device i)"
  "info_view (s\<lparr>dv_yuv := y\<rparr>) = info_view s" "disp_view (s\<lparr>dv_yuv := y\<rparr>) = disp_view s"
  "info_view (s\<lparr>dv_trans := t\<rparr>) = info_view s" "disp_view (s\<lparr>dv_trans := t\<rparr>) = disp_view s"
  "info_view (s\<lparr>dv_cam := c\<rparr>) = info_view s" "disp_view (s\<lparr>dv_cam := c\<rparr>) = disp_view s"
  by (simp_all add: dev_emit_def set_fq_def set_info_def info_view_def disp_view_def)

lemma neutral_calls [simp]:
  "dev_view (dev_emit [Bluetooth_deinit] s) = dev_view s"
  "dev_view (dev_emit [Pipeline_new] s) = dev_view s"
  "dev_view (dev_emit [Open_h264e p w h a] s) = dev_view s"
  "dev_view (dev_emit [Close_h264e p] s) = dev_view s"
  "dev_view (dev_emit [Open_rotate p m a] s) = dev_view s"
  "dev_view (dev_emit [Close_rotate p] s) = dev_view s"
  "dev_view (dev_emit [Lcd_ldo b] s) = dev_view s"
  "dev_view (dev_emit [Display_new_rgb x] s) = dev_view s"
  "dev_view (dev_emit [Display_new_mcu x] s) = dev_view s"
  "dev_view (set_fq q s) = dev_view s"
  by (simp_all add: dev_view_def)

lemma info_view_Some:
  "db_device_info s = Some i \<Longrightarrow> info_view s = Some (di_handle i, cam_type i, display_ctlr_handle i, di_lcd_device i)"
  by (simp add: info_view_def)

text \<open>Calls of the queues, the display task and the transfer task.\<close>

lemma register_view:
  "register_call f c s = Some s' \<Longrightarrow> dev_view s' = dev_view s \<and> db_device_info s' = db_device_info s"
  by (auto simp: register_call_def)

lemma unregister_view: "unregister_call f c s = Some s' \<Longrightarrow> dev_view s' = dev_view s"
  by (auto simp: unregister_call_def)

lemma clear_view: "clear_call s = Some s' \<Longrightarrow> dev_view s' = dev_view s"
  by (auto simp: clear_call_def)

lemma transfer_view: "transfer_call env call s = Some (r, s') \<Longrightarrow> dev_view s' = dev_view s"
  by (auto simp: transfer_call_def dev_view_def split: prod.splits option.splits bind_splits if_splits)

lemma yuv_open_view: "yuv_open_call env h a s = Some (r, s') \<Longrightarrow> dev_view s' = dev_view s"
  by (auto simp: yuv_open_call_def dev_view_def split: prod.splits option.splits bind_splits if_splits)

lemma yuv_close_view: "yuv_close_call env s = Some (r, s') \<Longrightarrow> dev_view s' = dev_view s"
  by (auto simp: yuv_close_call_def dev_view_def split: prod.splits option.splits bind_splits if_splits)

lemma pipeline_view:
  assumes "need_pipeline env i s = Some (r, s')" and "db_device_info s = Some i"
  shows "dev_view s' = dev_view s"
proof (cases "video_pipeline_handle i = None \<and> de_pipeline_new env = BK_OK")
  case True
  with assms show ?thesis by (auto simp: need_pipeline_def dev_view_def info_view_Some)
next
  case False
  with assms show ?thesis by (auto simp: need_pipeline_def dest!: unregister_view split: if_splits)
qed

lemmas call_views = register_view unregister_view clear_view transfer_view yuv_open_view yuv_close_view pipeline_view

lemma decode_open_view: "mjpeg_decode_open env rot a s = Some (r, s') \<Longrightarrow> dev_view s' = dev_view s"
  by (auto simp: mjpeg_decode_open_def Let_def dest!: call_views split: bind_splits if_splits camera_type_t.splits)

lemma decode_close_view: "mjpeg_decode_close env s = Some (r, s') \<Longrightarrow> dev_view s' = dev_view s"
  by (auto simp: mjpeg_decode_close_def Let_def dest!: call_views split: bind_splits if_splits option.splits)

lemma encoder_view: "doorbell_h264_encode_turn_on env p s = Some (r, s') \<Longrightarrow> dev_view s' = dev_view s"
  by (auto simp: doorbell_h264_encode_turn_on_def Let_def dest!: call_views split: bind_splits if_splits)

section \<open>Cameras\<close>

lemma uvc_on_view:
  assumes "uvc_camera_turn_on env (Some p) c = (h, c')" and "cam_view c = ({}, False, False)"
  shows "cam_view c' = (case h of None \<Rightarrow> ({}, False, False) | Some x \<Rightarrow> ({x}, True, False))"
  using assms
  by (auto simp: uvc_camera_turn_on_def uvc_camera_power_on_def uvc_camera_power_off_def Let_def
      split: option.splits prod.splits if_splits)

lemma dvp_on_view:
  assumes "dvp_camera_turn_on env (Some p) c = (h, c')" and "cam_view c = ({}, False, False)"
  shows "cam_view c' = (case h of None \<Rightarrow> ({}, False, False) | Some x \<Rightarrow> ({x}, False, True))"
  using assms
  by (auto simp: dvp_camera_turn_on_def DVP_POWER_GPIO_ID_def GPIO_INVALID_ID_def Let_def
      split: option.splits prod.splits if_splits)

lemma uvc_off_view:
  assumes "uvc_camera_turn_off env (Some x) c = (r, c')" and "cam_view c = (L, u, False)" and "L \<subseteq> {x}"
  shows "if r = AVDK_ERR_OK then cam_view c' = ({}, False, False) else \<exists>L'. L' \<subseteq> {x} \<and> cam_view c' = (L', u, False)"
  using assms
  by (auto simp: uvc_camera_turn_off_def uvc_camera_power_off_def Let_def split: if_splits)

lemma dvp_off_view:
  assumes "dvp_camera_turn_off env (Some x) c = (r, c')" and "cam_view c = (L, False, d)" and "L \<subseteq> {x}"
  shows "if r = AVDK_ERR_OK then cam_view c' = ({}, False, False) else \<exists>L'. L' \<subseteq> {x} \<and> cam_view c' = (L', False, d)"
  using assms
  by (auto simp: dvp_camera_turn_off_def DVP_POWER_GPIO_ID_def GPIO_INVALID_ID_def Let_def split: if_splits)

text \<open>The view of a state whose record is known.\<close>

lemma dev_inv_info:
  assumes "db_device_info s = Some i"
  shows "dev_inv s \<longleftrightarrow>
    view_ok (Some (di_handle i, cam_type i, display_ctlr_handle i, di_lcd_device i), cam_view (dv_cam s), disp_view s)"
  using assms by (simp add: dev_inv_def dev_view_def info_view_Some)

lemma view_inv: "dev_view s' = dev_view s \<Longrightarrow> dev_inv s' = dev_inv s"
  by (simp add: dev_inv_def)

lemma open_camera_inv:
  assumes "dev_inv s" and "db_device_info s = Some i0" and "di_handle i0 = None"
    and "open_camera env p (i0\<lparr>transfer_format := f\<rparr>) s = (i, s')"
  shows "dev_inv s' \<and> db_device_info s' = Some i"
proof -
  have c: "cam_view (dv_cam s) = ({}, False, False)"
    using assms(1,3) dev_inv_info [OF assms(2)] by (cases "cam_view (dv_cam s)"; cases "disp_view s") auto
  show ?thesis
    using assms(1,3,4) dev_inv_info [OF assms(2)] uvc_on_view [OF _ c] dvp_on_view [OF _ c] c
    by (cases "disp_view s")
      (auto simp: open_camera_def Let_def dev_inv_def dev_view_def set_info_def info_view_def disp_view_def
        split: if_splits prod.splits option.splits)
qed

definition camera_in_use :: "dev_state \<Rightarrow> bool" where
  "camera_in_use s \<longleftrightarrow> (\<exists>x v. info_view s = Some (Some x, v))"

lemma in_use_info: "db_device_info s = Some i \<Longrightarrow> camera_in_use s \<longleftrightarrow> di_handle i \<noteq> None"
  by (auto simp: camera_in_use_def info_view_Some)

lemma view_in_use: "dev_view s' = dev_view s \<Longrightarrow> camera_in_use s' = camera_in_use s"
  by (simp add: dev_view_def camera_in_use_def)

lemma after_open:
  assumes "di_handle i \<noteq> None" and "dev_inv s" and "db_device_info s = Some i" and "dev_view s' = dev_view s"
  shows "dev_inv s' \<and> camera_in_use s'"
  using assms view_inv [OF assms(4)] view_in_use [OF assms(4)] in_use_info [OF assms(3)] by simp

lemma doorbell_open_inv:
  assumes "dev_inv s" and "db_device_info s = Some i" and "di_handle i = None"
    and "doorbell_camera_open env p s = Some (r, s')"
  shows "dev_inv s' \<and> (r = AVDK_ERR_OK \<longrightarrow> camera_in_use s')"
proof (cases "cam_format p = 0")
  case False
  obtain i1 s1 where o: "open_camera env p (i\<lparr>transfer_format := IMAGE_H264\<rparr>) s = (i1, s1)" by fastforce
  note inv = open_camera_inv [OF assms(1-3) o]
  show ?thesis
  proof (cases "di_handle i1")
    case None
    with assms(2,4) False o inv show ?thesis by (auto simp: doorbell_camera_open_def)
  next
    case (Some h)
    from assms(2,4) False o Some obtain r2 s2 where
      enc: "(if cam_type i1 = UVC_CAMERA then doorbell_h264_encode_turn_on env p s1 else Some (AVDK_ERR_OK, s1)) = Some (r2, s2)"
      and dec: "(if r2 \<noteq> AVDK_ERR_OK then Some (r2, s2)
        else if display_ctlr_handle i1 \<noteq> None then mjpeg_decode_open env HW_ROTATE (ucast (cam_rotate p)) s2
        else Some (AVDK_ERR_OK, s2)) = Some (r, s')"
      by (simp add: doorbell_camera_open_def split: bind_splits prod.splits)
    have "dev_view s2 = dev_view s1" using enc encoder_view [of env p s1 r2 s2] by (simp split: if_splits)
    moreover have "dev_view s' = dev_view s2" using dec decode_open_view [of env _ _ s2 r s'] by (simp split: if_splits)
    ultimately have "dev_view s' = dev_view s1" by simp
    with inv Some after_open [of i1 s1 s'] show ?thesis by simp
  qed
qed (use assms in \<open>auto simp: doorbell_camera_open_def\<close>)

lemma doorviewer_open_inv:
  assumes "dev_inv s" and "db_device_info s = Some i" and "di_handle i = None"
    and "doorviewer_camera_open env p s = Some (r, s')"
  shows "dev_inv s' \<and> (r = AVDK_ERR_OK \<longrightarrow> camera_in_use s')"
proof (cases "cam_format p = 0")
  case True
  obtain i1 s1 where o: "open_camera env p (i\<lparr>transfer_format := IMAGE_MJPEG\<rparr>) s = (i1, s1)" by fastforce
  note inv = open_camera_inv [OF assms(1-3) o]
  show ?thesis
  proof (cases "di_handle i1")
    case None
    with assms(2,4) True o inv show ?thesis by (auto simp: doorviewer_camera_open_def)
  next
    case (Some h)
    from assms(2,4) True o Some have
      dec: "(if cam_type i1 = UVC_CAMERA \<and> display_ctlr_handle i1 \<noteq> None
        then map_option (\<lambda>(_, s). (AVDK_ERR_OK, s)) (mjpeg_decode_open env HW_ROTATE 90 s1)
        else Some (AVDK_ERR_OK, s1)) = Some (r, s')"
      by (simp add: doorviewer_camera_open_def)
    have "dev_view s' = dev_view s1"
      using dec decode_open_view [of env HW_ROTATE 90 s1 _ s'] by (auto split: if_splits)
    with inv Some after_open [of i1 s1 s'] show ?thesis by simp
  qed
qed (use assms in \<open>auto simp: doorviewer_camera_open_def\<close>)

lemma flash_on_inv: "dev_inv s \<Longrightarrow> camera_in_use s \<Longrightarrow> dev_inv (dev_emit [Flash_notify True] s)"
  by (cases "dev_view s" rule: view_ok.cases; cases "cam_view (dv_cam s)")
    (auto simp: dev_inv_def dev_view_def camera_in_use_def)

lemma camera_on_inv:
  assumes "dev_inv s" and "doorbell_camera_turn_on env p s = Some (r, s')"
  shows "dev_inv s'"
proof -
  obtain i where i: "db_device_info s = Some i"
    using assms(1) by (cases "db_device_info s") (auto simp: dev_inv_def dev_view_def info_view_def)
  show ?thesis
  proof (cases "di_handle i")
    case (Some h)
    then show ?thesis using assms i by (simp add: doorbell_camera_turn_on_def)
  next
    case None
    obtain r1 q where q: "frame_queue_v2_init_all (de_queues env) (dv_fq (dev_emit [Bluetooth_deinit] s)) = (r1, q)"
      by fastforce
    define s1 where "s1 = set_fq q (dev_emit [Bluetooth_deinit] s)"
    have "dev_view s1 = dev_view s" by (simp add: s1_def)
    then have s1: "dev_inv s1" "db_device_info s1 = Some i"
      using assms(1) i view_inv [of s1 s] by (simp_all add: s1_def)
    show ?thesis
    proof (cases "r1 = BK_OK")
      case False
      then show ?thesis using assms(2) i None q s1 by (auto simp: doorbell_camera_turn_on_def s1_def)
    next
      case True
      with assms(2) i None q obtain r2 s2 where o: "project_camera_open env p s1 = Some (r2, s2)"
        and s': "s' = (if r2 \<noteq> BK_OK then s2 else dev_emit [Flash_notify True] s2)"
        by (auto simp: doorbell_camera_turn_on_def s1_def split: bind_splits if_splits)
      have "dev_inv s2 \<and> (r2 = AVDK_ERR_OK \<longrightarrow> camera_in_use s2)"
        using o doorbell_open_inv [OF s1 None] doorviewer_open_inv [OF s1 None]
        by (auto simp: project_camera_open_def split: if_splits)
      with s' flash_on_inv show ?thesis by simp
    qed
  qed
qed

lemma close_inv:
  assumes "dev_inv s" and "db_device_info s = Some i" and "di_handle i = Some x"
    and "(if cam_type i = UVC_CAMERA then uvc_camera_turn_off (de_cam env) (Some x) (dv_cam s)
      else dvp_camera_turn_off (de_cam env) (Some x) (dv_cam s)) = (r, c)"
  shows "dev_inv (s\<lparr>dv_cam := c\<rparr>) \<and> (r = AVDK_ERR_OK \<longrightarrow> cam_view c = ({}, False, False))"
proof -
  obtain L u d where v: "cam_view (dv_cam s) = (L, u, d)" by (cases "cam_view (dv_cam s)")
  have inv: "L \<subseteq> {x}" "if cam_type i = UVC_CAMERA then \<not> d else \<not> u"
    using assms(1,3) dev_inv_info [OF assms(2)] v by (cases "disp_view s"; auto)+
  have c: "if r = AVDK_ERR_OK then cam_view c = ({}, False, False)
      else \<exists>L'. L' \<subseteq> {x} \<and> cam_view c = (L', u, d)"
    using assms(4) inv v uvc_off_view [of "de_cam env" x "dv_cam s" r c L u] dvp_off_view [of "de_cam env" x "dv_cam s" r c L d]
    by (auto split: if_splits)
  have "db_device_info (s\<lparr>dv_cam := c\<rparr>) = Some i" using assms(2) by simp
  from dev_inv_info [OF this] assms(1,3) dev_inv_info [OF assms(2)] c v inv show ?thesis
    by (cases "disp_view s") (auto split: if_splits)
qed

lemma off_inv:
  assumes "dev_inv s" and "db_device_info s = Some i" and "cam_view (dv_cam s) = ({}, False, False)"
  shows "dev_inv (set_info (i\<lparr>di_handle := None\<rparr>) (dev_emit [Flash_notify False] s))"
  using assms dev_inv_info [OF assms(2)]
  by (cases "disp_view s") (auto simp: dev_inv_def dev_view_def)

lemma view_parts:
  "dev_view s' = dev_view s \<Longrightarrow> cam_view (dv_cam s') = cam_view (dv_cam s) \<and> info_view s' = info_view s"
  by (simp add: dev_view_def)

lemma project_close_inv:
  assumes "dev_inv s" and "db_device_info s = Some i" and "di_handle i = Some x"
    and "project_camera_close env s = Some (r, s')"
  shows "dev_inv s' \<and> (r = AVDK_ERR_OK \<longrightarrow> cam_view (dv_cam s') = ({}, False, False))"
proof -
  define close where "close = (\<lambda>t :: dev_state. if cam_type i = UVC_CAMERA then uvc_camera_turn_off (de_cam env) (Some x) (dv_cam t)
      else dvp_camera_turn_off (de_cam env) (Some x) (dv_cam t))"
  define s1 where "s1 = (case video_pipeline_handle i of None \<Rightarrow> s | Some h \<Rightarrow> dev_emit [Close_h264e h] s)"
  have v1: "dev_view s1 = dev_view s" "db_device_info s1 = Some i" "dv_cam s1 = dv_cam s"
    using assms(2) by (auto simp: s1_def split: option.split)
  have inv1: "dev_inv s1" using assms(1) view_inv [OF v1(1)] by simp
  show ?thesis
  proof (cases "de_doorviewer env")
    case True
    obtain c where c: "close s = (r, c)" and s': "s' = s\<lparr>dv_cam := c\<rparr>"
      using assms(2-4) True
      by (auto simp: project_camera_close_def doorviewer_camera_close_def close_def split: prod.splits if_splits)
    from close_inv [OF assms(1-3) c [unfolded close_def]] s' show ?thesis by simp
  next
    case False
    obtain r1 c where c: "close s1 = (r1, c)" by fastforce
    note inv2 = close_inv [OF inv1 v1(2) assms(3) c [unfolded close_def]]
    have "(r = AVDK_ERR_GENERIC \<and> s' = s1) \<or> (r = r1 \<and> dev_view s' = dev_view (s1\<lparr>dv_cam := c\<rparr>))"
      using assms(2-4) False c
      by (auto simp: project_camera_close_def doorbell_camera_close_def s1_def close_def Let_def
          dest!: unregister_view split: prod.splits if_splits option.splits)
    then show ?thesis
    proof (elim disjE conjE)
      assume "r = r1" and v: "dev_view s' = dev_view (s1\<lparr>dv_cam := c\<rparr>)"
      with inv2 view_inv [OF v] view_parts [OF v] show ?thesis by simp
    qed (use inv1 in \<open>simp\<close>)
  qed
qed

lemma camera_off_inv:
  assumes "dev_inv s" and "doorbell_camera_turn_off env s = Some (r, s')"
  shows "dev_inv s'"
proof -
  obtain i where i: "db_device_info s = Some i"
    using assms(1) by (cases "db_device_info s") (auto simp: dev_inv_def dev_view_def info_view_def)
  show ?thesis
  proof (cases "di_handle i")
    case None
    then show ?thesis using assms i by (simp add: doorbell_camera_turn_off_def)
  next
    case (Some x)
    with assms(2) i obtain r1 s1 where cl: "project_camera_close env s = Some (r1, s1)"
      by (auto simp: doorbell_camera_turn_off_def split: bind_splits)
    note inv = project_close_inv [OF assms(1) i Some cl]
    show ?thesis
    proof (cases "r1 = BK_OK")
      case False
      with assms(2) i Some cl inv show ?thesis by (simp add: doorbell_camera_turn_off_def)
    next
      case True
      with assms(2) i Some cl obtain i1 where i1: "db_device_info s1 = Some i1"
        and s': "dev_view s' = dev_view (set_info (i1\<lparr>di_handle := None\<rparr>) (dev_emit [Flash_notify False] s1))"
        by (auto simp: doorbell_camera_turn_off_def Let_def dest!: clear_view split: bind_splits if_splits)
      have "cam_view (dv_cam s1) = ({}, False, False)" using inv True by simp
      from off_inv [OF conjunct1 [OF inv] i1 this] view_inv [OF s'] show ?thesis by simp
    qed
  qed
qed

section \<open>Transfer and display\<close>

lemma transfer_on_view: "doorbell_video_transfer_turn_on env s = Some (r, s') \<Longrightarrow> dev_view s' = dev_view s"
  by (auto simp: doorbell_video_transfer_turn_on_def dest!: register_view transfer_view
      split: option.splits bind_splits if_splits)

lemma transfer_off_view: "doorbell_video_transfer_turn_off env s = Some (r, s') \<Longrightarrow> dev_view s' = dev_view s"
  by (auto simp: doorbell_video_transfer_turn_off_def dest!: unregister_view transfer_view
      split: option.splits bind_splits if_splits)

text \<open>A display that is being turned on: its controller is open, the record has no panel yet.\<close>

definition half_on :: "nat \<Rightarrow> dev_state \<Rightarrow> bool" where
  "half_on x s \<longleftrightarrow> (\<exists>h ty v fl. dev_view s = (Some (h, ty, Some x, None), v, ({x}, False, fl)) \<and>
     view_ok (Some (h, ty, None, None), v, ({}, False, fl)))"

lemma half_on_view: "dev_view s' = dev_view s \<Longrightarrow> half_on x s' = half_on x s"
  by (simp add: half_on_def)

lemma half_on_info: "half_on x s \<Longrightarrow> db_device_info s = Some i \<Longrightarrow> display_ctlr_handle i = Some x"
  by (auto simp: half_on_def dev_view_def info_view_Some)

lemma display_error_inv:
  assumes "half_on x s" and "display_error env s = Some (r, s')"
  shows "dev_inv s'"
proof -
  from assms(2) obtain r1 s1 i where cl: "mjpeg_decode_close env s = Some (r1, s1)" and i: "db_device_info s1 = Some i"
    and s': "s' = set_info (i\<lparr>display_ctlr_handle := None\<rparr>) (dev_emit [Display_delete (display_ctlr_handle i)] s1)"
    by (auto simp: display_error_def split: bind_splits)
  have h: "half_on x s1" using assms(1) half_on_view [OF decode_close_view [OF cl]] by simp
  with s' half_on_info [OF h i] show ?thesis
    by (auto simp: half_on_def dev_inv_def dev_view_def info_view_Some [OF i])
qed

lemma display_done_inv:
  assumes "half_on x s" and "db_device_info (snd (doorbell_lcd_backlight_open s)) = Some i"
  shows "dev_inv (set_info (i\<lparr>di_lcd_id := k, di_lcd_device := Some y\<rparr>) (snd (doorbell_lcd_backlight_open s)))"
proof -
  have i: "db_device_info s = Some i" using assms(2) by (simp add: doorbell_lcd_backlight_open_def dev_emit_def)
  show ?thesis using assms(1)
    by (auto simp: half_on_def dev_inv_def dev_view_def info_view_Some [OF i] doorbell_lcd_backlight_open_def
        split: option.splits)
qed

lemma new_display_half_on:
  assumes "dev_inv s" and "db_device_info s = Some i" and "di_lcd_device i = None"
    and "new_display env device i s = (r, s')"
  shows "if r = BK_OK then half_on (de_display env) (dev_emit [Display_open (Some (de_display env))] s') \<and>
      (\<exists>i'. db_device_info s' = Some i' \<and> display_ctlr_handle i' = Some (de_display env))
    else dev_view s' = dev_view s"
proof -
  obtain v fl where v: "dev_view s = (Some (di_handle i, cam_type i, None, None), v, ({}, False, fl))"
    and ok: "view_ok (Some (di_handle i, cam_type i, None, None), v, ({}, False, fl))"
    using assms(1-3)
    by (cases "dev_view s" rule: view_ok.cases) (auto simp: dev_inv_def dev_view_def info_view_Some)
  have "info_view s = Some (di_handle i, cam_type i, None, None)" "cam_view (dv_cam s) = v" "disp_view s = ({}, False, fl)"
    using v by (simp_all add: dev_view_def)
  with ok assms(2-4) show ?thesis
    by (auto simp: new_display_def half_on_def dev_view_def set_info_def info_view_def disp_view_def dev_emit_def
        disp_replay_append Let_def split: lcd_type_t.splits if_splits)
qed

text \<open>Turning the display on, from the call that opens the new controller.\<close>

abbreviation display_rest where
  "display_rest env p rot k s \<equiv>
     (if de_display_open env \<noteq> BK_OK then display_error env s
      else do {
        (ret, t) \<leftarrow> mjpeg_decode_open env rot (ucast (lcd_rotate_angle p)) s;
        (if ret \<noteq> AVDK_ERR_OK then display_error env t
         else do {
           i \<leftarrow> db_device_info (snd (doorbell_lcd_backlight_open t));
           Some (Evt_ok, set_info (i\<lparr>di_lcd_id := lcd_id p, di_lcd_device := Some k\<rparr>)
             (snd (doorbell_lcd_backlight_open t)))
         })
      })"

lemma display_rest_inv:
  assumes half: "half_on x s" and rest: "display_rest env p rot k s = Some (r, s')"
  shows "dev_inv s'"
proof -
  have dec: "half_on x t" if "mjpeg_decode_open env rot a s = Some (ret, t)" for a ret t
    using half half_on_view [OF decode_open_view [OF that]] by simp
  consider
      (err) t where "half_on x t" "display_error env t = Some (r, s')"
    | (ok) ret t i where "mjpeg_decode_open env rot (ucast (lcd_rotate_angle p)) s = Some (ret, t)"
      "db_device_info (snd (doorbell_lcd_backlight_open t)) = Some i"
      "s' = set_info (i\<lparr>di_lcd_id := lcd_id p, di_lcd_device := Some k\<rparr>) (snd (doorbell_lcd_backlight_open t))"
    using rest half dec that
    by (cases "de_display_open env = BK_OK") (fastforce split: bind_splits if_splits)+
  then show ?thesis
  proof cases
    case err
    then show ?thesis by (rule display_error_inv)
  next
    case ok
    from display_done_inv [OF dec [OF ok(1)] ok(2)] ok(3) show ?thesis by simp
  qed
qed

lemma display_made_inv:
  assumes inv: "dev_inv s" and info: "db_device_info s = Some i" "di_lcd_device i = None"
    and new: "new_display env device i s = (ret, t)"
    and rest: "(if ret \<noteq> BK_OK then Some (Ret ret, t)
      else do {
        i \<leftarrow> db_device_info t;
        display_rest env p rot k (dev_emit [Display_open (display_ctlr_handle i)] t)
      }) = Some (r, s')"
  shows "dev_inv s'"
proof -
  note half = new_display_half_on [OF inv info new]
  show ?thesis
  proof (cases "ret = BK_OK")
    case False
    with half view_inv [of t s] inv rest show ?thesis by simp
  next
    case True
    with half obtain i' where h: "half_on (de_display env) (dev_emit [Display_open (Some (de_display env))] t)"
      and i': "db_device_info t = Some i'" "display_ctlr_handle i' = Some (de_display env)"
      by auto
    have "display_rest env p rot k (dev_emit [Display_open (Some (de_display env))] t) = Some (r, s')"
      using rest True by (simp add: i' cong: if_cong)
    with h show ?thesis by (rule display_rest_inv)
  qed
qed

lemma display_on_inv:
  assumes "dev_inv s" and on: "doorbell_display_turn_on env p s = Some (r, s')"
  shows "dev_inv s'"
proof -
  obtain r0 q where q: "frame_queue_v2_init_all (de_queues env) (dv_fq s) = (r0, q)" by fastforce
  have inv: "dev_inv (set_fq q s)" using assms(1) view_inv [of "set_fq q s" s] by simp
  obtain i where i: "db_device_info (set_fq q s) = Some i"
    using inv by (cases "db_device_info (set_fq q s)") (auto simp: dev_inv_def dev_view_def info_view_def)
  show ?thesis
  proof (cases "r0 \<noteq> BK_OK \<or> di_lcd_id i \<noteq> 0 \<or> di_lcd_device i \<noteq> None")
    case True
    then show ?thesis using on q i inv by (auto simp: doorbell_display_turn_on_def Let_def split: if_splits)
  next
    case False
    let ?s = "dev_emit [Bluetooth_deinit] (set_fq q s)" and ?t = "\<lambda>s. snd (doorbell_lcd_ldo_open s)"
    have s: "dev_inv ?s" "dev_inv (?t ?s)" "db_device_info (?t ?s) = Some i"
      using inv view_inv [of ?s "set_fq q s"] view_inv [of "?t ?s" ?s] i
      by (simp_all add: doorbell_lcd_ldo_open_def)
    show ?thesis
    proof (cases "de_lcd env")
      case None
      then show ?thesis using on q i False s by (simp add: doorbell_display_turn_on_def)
    next
      case (Some device)
      obtain ret t where new: "new_display env device i (?t ?s) = (ret, t)" by fastforce
      show ?thesis
        by (rule display_made_inv [OF s(2,3) _ new, where k = "fst device"])
          (use on q i False Some new in \<open>simp_all add: doorbell_display_turn_on_def Let_def cong: if_cong\<close>)
    qed
  qed
qed

lemma display_off_inv:
  assumes "dev_inv s" and "doorbell_display_turn_off env s = Some (r, s')"
  shows "dev_inv s'"
proof -
  obtain i where i: "db_device_info s = Some i"
    using assms(1) by (cases "db_device_info s") (auto simp: dev_inv_def dev_view_def info_view_def)
  show ?thesis
  proof (cases "di_lcd_id i = 0 \<or> di_lcd_device i = None")
    case True
    then show ?thesis using assms i by (auto simp: doorbell_display_turn_off_def)
  next
    case False
    let ?b = "snd (doorbell_lcd_backlight_close s)"
    from assms(2) False i obtain r1 s1 i1 where cl: "mjpeg_decode_close env ?b = Some (r1, s1)"
      and i1: "db_device_info s1 = Some i1"
      and v: "dev_view s' = dev_view (set_info (i1\<lparr>display_ctlr_handle := None, di_lcd_id := 0, di_lcd_device := None\<rparr>)
        (dev_emit [Display_close (display_ctlr_handle i1), Display_delete (display_ctlr_handle i1)] s1))"
      by (auto simp: doorbell_display_turn_off_def doorbell_lcd_ldo_close_def Let_def
          dest!: clear_view split: bind_splits if_splits)
    have "dev_view s1 = dev_view ?b" by (rule decode_close_view [OF cl])
    moreover have "dev_view ?b = (info_view s, cam_view (dv_cam s), disp_replay [Lcd_backlight False] (disp_view s))"
      by (simp add: dev_view_def doorbell_lcd_backlight_close_def)
    ultimately have "info_view s1 = info_view s" "cam_view (dv_cam s1) = cam_view (dv_cam s)"
      "disp_view s1 = disp_replay [Lcd_backlight False] (disp_view s)"
      by (simp_all add: dev_view_def)
    with assms(1) i i1 view_inv [OF v] False show ?thesis
      by (cases "disp_view s"; cases "display_ctlr_handle i1")
        (auto simp: dev_inv_def dev_view_def info_view_Some)
  qed
qed

section \<open>All commands\<close>

lemma transfer_on_inv: "dev_inv s \<Longrightarrow> doorbell_video_transfer_turn_on env s = Some (r, s') \<Longrightarrow> dev_inv s'"
  by (simp add: view_inv [OF transfer_on_view])

lemma transfer_off_inv: "dev_inv s \<Longrightarrow> doorbell_video_transfer_turn_off env s = Some (r, s') \<Longrightarrow> dev_inv s'"
  by (simp add: view_inv [OF transfer_off_view])

lemma dev_do_inv:
  assumes "dev_inv s" and "dev_do env a s = Some s'"
  shows "dev_inv s'"
  using assms
  by (cases a) (auto dest: camera_on_inv camera_off_inv display_on_inv display_off_inv transfer_on_inv transfer_off_inv)

lemma dev_run_inv: "dev_inv s \<Longrightarrow> dev_run as s = Some s' \<Longrightarrow> dev_inv s'"
proof (induction as arbitrary: s)
  case (Cons ea as)
  obtain env a where ea: "ea = (env, a)" by (cases ea)
  with Cons.prems(2) obtain t where "dev_do env a s = Some t" "dev_run as t = Some s'" by (auto simp: bind_eq_Some_conv)
  with Cons.IH dev_do_inv [OF Cons.prems(1)] show ?case by blast
qed simp

text \<open>
  C19. Whatever commands turn camera, transfer and display on and off, in either project and with any
  answers of the SDK, what is open is what the device record says. Without a camera in the record
  no controller is open and neither camera has power; with one, no other controller is open. The
  open display controllers are the one of the record, and the backlight is on exactly with it.
\<close>
theorem devices_match_record:
  assumes "doorbell_devices_init env0 s0 = (BK_OK, s)" and "cam_log (dv_cam s0) = []" and "dv_log s0 = []"
    and "dev_run as s = Some s'"
  shows "\<exists>i opened uvc_power dvp_power shown backlight flash. db_device_info s' = Some i \<and>
    cam_replay (cam_log (dv_cam s')) ({}, False, False) = (opened, uvc_power, dvp_power) \<and>
    disp_replay (dv_log s') ({}, False, False) = (shown, backlight, flash) \<and>
    opened \<subseteq> set_option (di_handle i) \<and> shown = set_option (display_ctlr_handle i) \<and>
    (di_handle i = None \<longrightarrow> \<not> uvc_power \<and> \<not> dvp_power \<and> \<not> flash) \<and> \<not> (uvc_power \<and> dvp_power) \<and>
    (backlight \<longleftrightarrow> display_ctlr_handle i \<noteq> None)"
proof -
  have "dev_inv s" using assms(1-3)
    by (auto simp: doorbell_devices_init_def set_info_def device_info_zero_def dev_inv_def dev_view_def info_view_def
        cam_view_def disp_view_def split: if_splits)
  from dev_run_inv [OF this assms(4)] have inv: "dev_inv s'" .
  then obtain i where i: "db_device_info s' = Some i"
    by (cases "db_device_info s'") (auto simp: dev_inv_def dev_view_def info_view_def)
  obtain L u d where c: "cam_view (dv_cam s') = (L, u, d)" by (cases "cam_view (dv_cam s')")
  obtain D bl fl where v: "disp_view s' = (D, bl, fl)" by (cases "disp_view s'")
  from inv have "L \<subseteq> set_option (di_handle i) \<and> D = set_option (display_ctlr_handle i) \<and>
    (di_handle i = None \<longrightarrow> \<not> u \<and> \<not> d \<and> \<not> fl) \<and> \<not> (u \<and> d) \<and> (bl \<longleftrightarrow> display_ctlr_handle i \<noteq> None)"
    by (auto simp: dev_inv_info [OF i] c v split: option.splits if_splits)
  with i c v show ?thesis by (simp add: cam_view_def disp_view_def)
qed

definition demo_dev_env :: dev_env where
  "demo_dev_env = \<lparr>de_doorviewer = True, de_malloc = True,
     de_cam = \<lparr>ce_sem = None, ce_check = BK_OK, ce_wait = BK_OK, ce_port = (BK_OK, None),
       ce_default = \<lparr>uc_port = 0, uc_width = 0, uc_height = 0, uc_fps = 0, uc_img_format = IMAGE_MJPEG\<rparr>,
       ce_new = BK_OK, ce_handle = 7, ce_open = BK_OK, ce_close = BK_OK, ce_delete = BK_OK\<rparr>,
     de_yuv = \<lparr>oe_malloc = True, oe_rott = BK_OK, oe_sem = BK_OK, oe_queue = BK_OK, oe_thread = BK_OK\<rparr>, de_yuv_steps = [], de_trans = \<lparr>tre_malloc = True, tre_sem = BK_OK, tre_thread = BK_OK\<rparr>, de_trans_steps = [], de_queues = demo_env,
     de_pipeline_new = BK_OK, de_pipeline = 8, de_open_h264e = BK_OK, de_close_h264e = BK_OK, de_open_rotate = BK_OK,
     de_close_rotate = BK_OK, de_lcd = None, de_display_new = BK_OK, de_display = 9, de_display_open = BK_OK,
     de_flush = BK_OK\<rparr>"

definition demo_dev :: dev_state where
  "demo_dev = \<lparr>db_device_info = None, dv_yuv = yuv_start boot_state, dv_trans = trans_start boot_state,
     dv_cam = \<lparr>uvc_callback = None, uvc_sems = [], cam_log = []\<rparr>, dv_log = []\<rparr>"

theorem devices_match_record_witness:
  "\<exists>s' i. dev_run [(demo_dev_env, Camera_on \<lparr>cam_id = 0, cam_width = 640, cam_height = 480, cam_format = 0,
      cam_protocol = 0, cam_rotate = 0\<rparr>), (demo_dev_env, Display_off)]
      (snd (doorbell_devices_init demo_dev_env demo_dev)) = Some s' \<and>
    db_device_info s' = Some i \<and> di_handle i = Some 7 \<and>
    fst (cam_replay (cam_log (dv_cam s')) ({}, False, False)) \<subseteq> {7}"
proof -
  let ?as = "[(demo_dev_env, Camera_on \<lparr>cam_id = 0, cam_width = 640, cam_height = 480, cam_format = 0,
      cam_protocol = 0, cam_rotate = 0\<rparr>), (demo_dev_env, Display_off)]"
  let ?s = "set_info device_info_zero demo_dev"
  have init: "doorbell_devices_init demo_dev_env demo_dev = (BK_OK, ?s)"
    by (simp add: doorbell_devices_init_def demo_dev_env_def)
  obtain q where q: "frame_queue_v2_init_all demo_env boot_state = (BK_OK, q)"
    using boot_rep [OF demo_boot] by blast
  have boot: "dv_fq (dev_emit [Bluetooth_deinit] ?s) = boot_state"
    by (simp add: dv_fq_def demo_dev_def yuv_start_def dev_emit_def set_info_def)
  obtain s' i where run: "dev_run ?as ?s = Some s'" and i: "db_device_info s' = Some i" "di_handle i = Some 7"
    using q boot
    by (simp add: doorbell_camera_turn_on_def demo_dev_env_def project_camera_open_def doorviewer_camera_open_def
        open_camera_def dvp_camera_turn_on_def doorbell_display_turn_off_def device_info_zero_def demo_dev_def
        set_info_def set_fq_def dev_emit_def cam_emit_def UVC_DEVICE_ID_def Let_def)
  have "cam_log (dv_cam demo_dev) = []" "dv_log demo_dev = []" by (simp_all add: demo_dev_def)
  from devices_match_record [OF init this run] i have "fst (cam_replay (cam_log (dv_cam s')) ({}, False, False)) \<subseteq> {7}"
    by auto
  with run i init show ?thesis by auto
qed

section \<open>The edges\<close>

text \<open>A display turned on with the id 0 cannot be turned off: the record has a panel, but no id.\<close>

lemma display_error_code: "display_error env s = Some (r, s') \<Longrightarrow> r = Evt_error"
  by (auto simp: display_error_def split: bind_splits)

lemma display_id_zero_stays_on:
  assumes "doorbell_display_turn_on env p s = Some (Evt_ok, s')" and "lcd_id p = 0"
  shows "doorbell_display_turn_off env' s' = Some (Evt_already, s')"
  using assms
  by (auto simp: doorbell_display_turn_on_def doorbell_display_turn_off_def set_info_def Let_def
      dest: display_error_code split: bind_splits if_splits option.splits prod.splits)

text \<open>
  The doorviewer does not show the picture of a DVP camera that is turned on after the display. And
  once its decoder was opened for a USB camera, neither turning the display off nor closing the
  camera takes the decoder out of the consumers of the queue, though nothing decodes any more.
\<close>

lemma doorviewer_late_camera_not_shown:
  assumes "doorviewer_camera_open env p s = Some (r, s')" and "cam_id p \<noteq> UVC_DEVICE_ID"
  shows "dv_yuv s' = dv_yuv s"
  using assms
  by (auto simp: doorviewer_camera_open_def open_camera_def set_info_def Let_def split: bind_splits if_splits prod.splits)

lemma doorviewer_decoder_stays:
  assumes "db_device_info s = Some i" and "cam_type i = UVC_CAMERA" and "di_handle i \<noteq> None"
  shows "mjpeg_decode_close env s = Some (r, s') \<Longrightarrow> dv_fq s' = dv_fq s"
    and "doorviewer_camera_close env s = Some (r, s') \<Longrightarrow> dv_fq s' = dv_fq s"
  using assms
  by (auto simp: mjpeg_decode_close_def doorviewer_camera_close_def dv_fq_def dev_emit_def Let_def
      split: bind_splits option.splits prod.splits if_splits)

end
