(* ===== verification/Panels.thy ===== *)
theory Panels
  imports Device_Answers Device_Session
begin

text \<open>
  The two panels of the repository, \<^verbatim>\<open>components/lcd_device/lcd_rgb_st7701sn.c\<close> and
  \<^verbatim>\<open>lcd_i80_st7796s.c\<close>: what is written to them to turn them on and off. The SDK's bus functions are the
  calls of the model; a register is a command byte with its parameters.
\<close>

section \<open>The RGB panel ST7701SN\<close>

datatype panel_call =
    Gpio_reset bool | Delay_ms nat | Spi_command u8 | Spi_data u8 | I80_write u32 "u32 list"

text \<open>Over SPI a register is its command byte and then its parameters, byte by byte.\<close>

definition spi_register :: "u8 \<times> u8 list \<Rightarrow> panel_call list" where
  "spi_register r = Spi_command (fst r) # map Spi_data (snd r)"

definition st7701sn_reset :: "panel_call list" where
  "st7701sn_reset =
     [Gpio_reset False, Delay_ms 10, Gpio_reset True, Delay_ms 120] @ spi_register (0x11, []) @ [Delay_ms 10]"

definition st7701sn_bank0 :: "(u8 \<times> u8 list) list" where
  "st7701sn_bank0 =
    [(0xFF, [0x77, 0x01, 0x00, 0x00, 0x13]), (0xEF, [0x08]), (0xFF, [0x77, 0x01, 0x00, 0x00, 0x10]),
     (0xC0, [0xE9, 0x03]), (0xC1, [0x0C, 0x02]), (0xC2, [0x07, 0x08]), (0xC7, [0x04]), (0xC6, [0x21]),
     (0xCC, [0x10]),
     (0xB0, [0x00, 0x0B, 0x0C, 0x0E, 0x14, 0x06, 0x00, 0x09, 0x08, 0x1E, 0x05, 0x12, 0x10, 0x2B, 0x34, 0x1F]),
     (0xB1, [0x04, 0x07, 0x12, 0x09, 0x0A, 0x04, 0x00, 0x08, 0x08, 0x1F, 0x01, 0x0E, 0x0E, 0x2D, 0x36, 0x1F])]"

definition st7701sn_bank1 :: "(u8 \<times> u8 list) list" where
  "st7701sn_bank1 =
    [(0xFF, [0x77, 0x01, 0x00, 0x00, 0x11]), (0xB0, [0x35]), (0xB1, [0x4C]), (0xB2, [0x87]), (0xB3, [0x80]),
     (0xB5, [0x49]), (0xB7, [0x85]), (0xB8, [0x21]), (0xB9, [0x10]), (0xBC, [0x33]), (0xC0, [0x89]),
     (0xC1, [0x78]), (0xC2, [0x78]), (0xD0, [0x88]), (0xE0, [0x00, 0x00, 0x02]),
     (0xE1, [0x04, 0x00, 0x00, 0x00, 0x05, 0x00, 0x00, 0x00, 0x00, 0x20, 0x20]),
     (0xE2, [0x00, 0x00, 0x00, 0x00, 0x00, 0x00, 0x00, 0x00, 0x00, 0x00, 0x00, 0x00, 0x00]),
     (0xE3, [0x00, 0x00, 0x33, 0x00]), (0xE4, [0x22, 0x00]),
     (0xE5, [0x04, 0x5C, 0xA0, 0xA0, 0x06, 0x5C, 0xA0, 0xA0, 0x00, 0x00, 0x00, 0x00, 0x00, 0x00, 0x00, 0x00]),
     (0xE6, [0x00, 0x00, 0x33, 0x00]), (0xE7, [0x22, 0x00]),
     (0xE8, [0x05, 0x5C, 0xA0, 0xA0, 0x07, 0x5C, 0xA0, 0xA0, 0x00, 0x00, 0x00, 0x00, 0x00, 0x00, 0x00, 0x00]),
     (0xEB, [0x02, 0x00, 0x40, 0x40, 0x00, 0x00, 0x00]), (0xEC, [0x00, 0x00]),
     (0xED, [0xFA, 0x45, 0x0B, 0xFF, 0xFF, 0xFF, 0xFF, 0xFF, 0xFF, 0xFF, 0xFF, 0xFF, 0xFF, 0xB0, 0x54, 0xAF]),
     (0xEF, [0x08, 0x08, 0x08, 0x45, 0x3F, 0x54])]"

definition st7701sn_user :: "(u8 \<times> u8 list) list" where
  "st7701sn_user =
    [(0xFF, [0x77, 0x01, 0x00, 0x00, 0x00]), (0x3A, [0x77]), (0x36, [0x10]), (0x11, []), (0x29, [])]"

definition lcd_st7701sn_config :: "panel_call list" where
  "lcd_st7701sn_config =
     st7701sn_reset @ concat (map spi_register (st7701sn_bank0 @ st7701sn_bank1)) @
     concat (map spi_register [(0xFF, [0x77, 0x01, 0x00, 0x00, 0x00]), (0x11, [])]) @ [Delay_ms 120] @
     concat (map spi_register st7701sn_user)"

definition lcd_st7701sn_init :: "bool \<Rightarrow> bk_err_t \<times> panel_call list" where
  "lcd_st7701sn_init handle = (if \<not> handle then (BK_FAIL, []) else (BK_OK, lcd_st7701sn_config))"

definition lcd_st7701sn_off :: "bool \<Rightarrow> bk_err_t \<times> panel_call list" where
  "lcd_st7701sn_off handle = (if \<not> handle then (BK_FAIL, []) else (BK_OK, [Spi_command 0x28]))"

text \<open>
  The panel as the SDK sees it: its id is not set, which leaves it zero. \<open>rgb565\<close> is whether the SDK's
  \<^verbatim>\<open>LCD_TYPE_RGB\<close>, the panel's type, is the \<^verbatim>\<open>LCD_TYPE_RGB565\<close> that the answer to the app asks for.
\<close>

definition lcd_device_custom_st7701sn :: "bool \<Rightarrow> lcd_device_t" where
  "lcd_device_custom_st7701sn rgb565 =
     \<lparr>ld_name = ascii ''custom_lcd_st7701sn'', ld_id = 0, ld_rgb = rgb565, ld_width = 480, ld_height = 854\<rparr>"

section \<open>The panel ST7796S on the I80 bus\<close>

definition SLEEP_OUT :: u32 where "SLEEP_OUT = 0x11"
definition COMMAND_1 :: u32 where "COMMAND_1 = 0xf0"
definition COMMAND_2 :: u32 where "COMMAND_2 = 0xf0"
definition PLOAR_CONVERT :: u32 where "PLOAR_CONVERT = 0xb4"
definition DISP_OUT_CTRL :: u32 where "DISP_OUT_CTRL = 0xe8"
definition POWER_CTRL1 :: u32 where "POWER_CTRL1 = 0xc1"
definition POWER_CTRL2 :: u32 where "POWER_CTRL2 = 0xc2"
definition VCOM_CTRL :: u32 where "VCOM_CTRL = 0xc5"
definition CATHODE_CTRL :: u32 where "CATHODE_CTRL = 0xe0"
definition ANODE_CTRL :: u32 where "ANODE_CTRL = 0xe1"
definition COLOR_MODE :: u32 where "COLOR_MODE = 0x3a"
definition DISPLAY_ON :: u32 where "DISPLAY_ON = 0x29"
definition DISPLAY_OFF :: u32 where "DISPLAY_OFF = 0x28"
definition ROW_SET :: u32 where "ROW_SET = 0x2b"
definition COLUMN_SET :: u32 where "COLUMN_SET = 0x2a"
definition RAM_WRITE :: u32 where "RAM_WRITE = 0x2c"
definition MEM_ACCESS_CTRL :: u32 where "MEM_ACCESS_CTRL = 0x36"

lemmas st7796s_commands = SLEEP_OUT_def COMMAND_1_def COMMAND_2_def PLOAR_CONVERT_def DISP_OUT_CTRL_def
  POWER_CTRL1_def POWER_CTRL2_def VCOM_CTRL_def CATHODE_CTRL_def ANODE_CTRL_def COLOR_MODE_def DISPLAY_ON_def
  DISPLAY_OFF_def ROW_SET_def COLUMN_SET_def RAM_WRITE_def MEM_ACCESS_CTRL_def

definition param_sleep_out :: "u32 list" where "param_sleep_out = [0x00]"
definition param_command1 :: "u32 list" where "param_command1 = [0xc3]"
definition param_command2 :: "u32 list" where "param_command2 = [0x96]"
definition param_memacess :: "u32 list" where "param_memacess = [0x48]"
definition param_color_md :: "u32 list" where "param_color_md = [0x05]"
definition param_polar_cv :: "u32 list" where "param_polar_cv = [0x01]"
definition param_disp_out :: "u32 list" where "param_disp_out = [0x40, 0x8a, 0x00, 0x00, 0x29, 0x19, 0xa5, 0x33]"
definition param_power_1 :: "u32 list" where "param_power_1 = [0x06]"
definition param_power_2 :: "u32 list" where "param_power_2 = [0xa7]"
definition param_vcom_ctl :: "u32 list" where "param_vcom_ctl = [0x18]"
definition param_cath_ctl1 :: "u32 list" where
  "param_cath_ctl1 = [0xf0, 0x09, 0x0b, 0x06, 0x04, 0x15, 0x2f, 0x54, 0x42, 0x3c, 0x17, 0x14, 0x18, 0x1b]"
definition param_cath_ctl2 :: "u32 list" where
  "param_cath_ctl2 = [0xf0, 0x09, 0x0b, 0x06, 0x04, 0x03, 0x2d, 0x43, 0x42, 0x3b, 0x16, 0x14, 0x17, 0x1b]"
definition param_command12 :: "u32 list" where "param_command12 = [0x3c]"
definition param_command22 :: "u32 list" where "param_command22 = [0x69]"
definition param_display_on :: "u32 list" where "param_display_on = [0x00]"

lemmas st7796s_params = param_sleep_out_def param_command1_def param_command2_def param_memacess_def
  param_color_md_def param_polar_cv_def param_disp_out_def param_power_1_def param_power_2_def param_vcom_ctl_def
  param_cath_ctl1_def param_cath_ctl2_def param_command12_def param_command22_def param_display_on_def

text \<open>\<^verbatim>\<open>write_cmd\<close> writes the command and the first \<open>n\<close> of its parameters.\<close>

definition write_cmd :: "u32 \<Rightarrow> u32 list \<Rightarrow> nat \<Rightarrow> panel_call" where
  "write_cmd cmd params n = I80_write cmd (take n params)"

definition lcd_st7796s_init :: "bool \<Rightarrow> bk_err_t \<times> panel_call list" where
  "lcd_st7796s_init handle =
     (if \<not> handle then (BK_FAIL, [])
      else (BK_OK,
        [Delay_ms 131, Delay_ms 10,
         write_cmd SLEEP_OUT param_sleep_out 0, Delay_ms 120, write_cmd COMMAND_1 param_command1 1,
         write_cmd COMMAND_2 param_command2 1, write_cmd MEM_ACCESS_CTRL param_memacess 1,
         write_cmd COLOR_MODE param_color_md 1, write_cmd PLOAR_CONVERT param_polar_cv 1,
         write_cmd DISP_OUT_CTRL param_disp_out 8, write_cmd POWER_CTRL1 param_power_1 1,
         write_cmd POWER_CTRL2 param_power_2 1, write_cmd VCOM_CTRL param_vcom_ctl 1,
         write_cmd CATHODE_CTRL param_cath_ctl1 14, write_cmd ANODE_CTRL param_cath_ctl2 14,
         write_cmd COMMAND_1 param_command12 1, write_cmd COMMAND_2 param_command22 1, Delay_ms 120,
         write_cmd DISPLAY_ON param_display_on 1]))"

text \<open>Unlike \<^verbatim>\<open>init\<close>, \<^verbatim>\<open>off\<close> uses the handle without a look at it.\<close>

definition st7796s_lcd_off :: "bool \<Rightarrow> (bk_err_t \<times> panel_call list) option" where
  "st7796s_lcd_off handle = (if \<not> handle then None else Some (BK_OK, [write_cmd DISPLAY_OFF [] 0]))"

definition lcd_st7796s_set_display_mem_area :: "u16 \<Rightarrow> u16 \<Rightarrow> u16 \<Rightarrow> u16 \<Rightarrow> panel_call list" where
  "lcd_st7796s_set_display_mem_area xs xe ys ye =
     (let param_clumn = [drop_bit 8 xs AND 0xFF, xs AND 0xFF, drop_bit 8 (xe - 1) AND 0xFF, (xe - 1) AND 0xFF];
          param_row = [drop_bit 8 ys AND 0xFF, ys AND 0xFF, drop_bit 8 (ye - 1) AND 0xFF, (ye - 1) AND 0xFF]
      in [write_cmd COLUMN_SET (map ucast param_clumn) 4, write_cmd ROW_SET (map ucast param_row) 4])"

definition lcd_st7796s_start_transfer :: "panel_call list" where
  "lcd_st7796s_start_transfer = [write_cmd RAM_WRITE [] 0]"

definition lcd_device_custom_st7796s :: lcd_device_t where
  "lcd_device_custom_st7796s =
     \<lparr>ld_name = ascii ''custom_lcd_st7796s'', ld_id = 0, ld_rgb = False, ld_width = 320, ld_height = 480\<rparr>"

section \<open>What the panels are told\<close>

text \<open>The registers in a stream of bytes, behind the data that comes before any command.\<close>

fun spi_read :: "panel_call list \<Rightarrow> u8 list \<times> (u8 \<times> u8 list) list" where
  "spi_read [] = ([], [])"
| "spi_read (Spi_command c # cs) = (case spi_read cs of (ds, rs) \<Rightarrow> ([], (c, ds) # rs))"
| "spi_read (Spi_data d # cs) = (case spi_read cs of (ds, rs) \<Rightarrow> (d # ds, rs))"
| "spi_read (_ # cs) = spi_read cs"

text \<open>
  The register \<open>0xFF\<close> chooses a bank with its last parameter. The user commands (sleep out, pixel
  format, memory access, display on) belong to bank 0, everything else to the other banks.
\<close>

fun banks_ok :: "u8 \<Rightarrow> (u8 \<times> u8 list) list \<Rightarrow> bool" where
  "banks_ok b [] \<longleftrightarrow> b = 0"
| "banks_ok b ((c, ds) # rs) \<longleftrightarrow>
     (if c = 0xFF then length ds = 5 \<and> take 4 ds = [0x77, 1, 0, 0] \<and> banks_ok (last ds) rs
      else (c \<in> {0x11, 0x29, 0x36, 0x3A}) = (b = 0) \<and> banks_ok b rs)"

lemma st7701sn_banks:
  "\<exists>rs. spi_read (snd (lcd_st7701sn_init True)) = ([], rs @ [(0x29, [])]) \<and> banks_ok 0 (rs @ [(0x29, [])])"
proof -
  define rs where "rs = (0x11, []) # st7701sn_bank0 @ st7701sn_bank1 @
    [(0xFF, [0x77, 0x01, 0x00, 0x00, 0x00]), (0x11, [])] @ butlast st7701sn_user"
  have "spi_read lcd_st7701sn_config = ([], rs @ [(0x29, [])])"
    by (simp add: lcd_st7701sn_config_def st7701sn_reset_def spi_register_def st7701sn_bank0_def st7701sn_bank1_def
        st7701sn_user_def rs_def)
  moreover have "banks_ok 0 (rs @ [(0x29, [])])"
    by (simp add: rs_def st7701sn_bank0_def st7701sn_bank1_def st7701sn_user_def)
  ultimately show ?thesis by (auto simp: lcd_st7701sn_init_def)
qed

text \<open>
  On the other panel the commands from \<open>0xB0\<close> on are protected: they are written between the two keys
  that open them (\<open>0xC3\<close>, \<open>0x96\<close> to \<open>0xF0\<close>) and the two that close them (\<open>0x3C\<close>, \<open>0x69\<close>).
\<close>

fun keys_ok :: "u32 list \<Rightarrow> panel_call list \<Rightarrow> bool" where
  "keys_ok ks [] \<longleftrightarrow> ks = [0x69, 0x3C]"
| "keys_ok ks (I80_write c ps # cs) \<longleftrightarrow>
     (if c = 0xF0 then keys_ok (take 2 (ps @ ks)) cs
      else (0xB0 \<le> c \<longrightarrow> ks = [0x96, 0xC3]) \<and> keys_ok ks cs)"
| "keys_ok ks (_ # cs) \<longleftrightarrow> keys_ok ks cs"

lemma st7796s_keys: "keys_ok [] (snd (lcd_st7796s_init True))"
  by (simp add: lcd_st7796s_init_def write_cmd_def st7796s_commands st7796s_params)

text \<open>The window of the picture: the first and the last column and row, the high byte first.\<close>

definition be_word :: "u32 list \<Rightarrow> nat \<Rightarrow> nat" where
  "be_word ps k = 256 * unat (ps ! k) + unat (ps ! Suc k)"

lemma two_bytes: "256 * unat (ucast (drop_bit 8 w AND 0xFF) :: u32) + unat (ucast (w AND 0xFF) :: u32) = unat (w :: u16)"
proof -
  have m: "(0xFF :: u16) = mask 8" by (simp add: mask_eq_exp_minus_1)
  have lo: "unat (w AND 0xFF) = unat w mod 256"
    by (simp add: m take_bit_eq_mask [symmetric] unsigned_take_bit_eq take_bit_eq_mod unat_mod_distrib)
  have hi: "drop_bit 8 w AND 0xFF = drop_bit 8 w" unfolding m
    by (rule bit_word_eqI) (auto simp: bit_simps dest: bit_imp_le_length)
  have "unat (drop_bit 8 w) = unat w div 256" by (simp add: drop_bit_eq_div unat_div_distrib)
  moreover have "unat w < 2 ^ LENGTH(16)" by (rule unsigned_less)
  then have "unat w div 256 < 2 ^ 32" "unat w mod 256 < 2 ^ 32" by simp_all
  ultimately show ?thesis using lo hi by (simp add: unsigned_ucast_eq take_bit_nat_eq_self)
qed

lemma window_columns:
  assumes "lcd_st7796s_set_display_mem_area xs xe ys ye = [I80_write c1 ps1, I80_write c2 ps2]"
  shows "c1 = COLUMN_SET \<and> be_word ps1 0 = unat xs \<and> be_word ps1 2 = unat (xe - 1) \<and>
    c2 = ROW_SET \<and> be_word ps2 0 = unat ys \<and> be_word ps2 2 = unat (ye - 1)"
  using assms
  by (auto simp: lcd_st7796s_set_display_mem_area_def write_cmd_def be_word_def two_bytes)

text \<open>
  Neither panel has an id of its own. A display turned on by the id that the answer to the app
  gives for them cannot be turned off.
\<close>

lemma panels_stay_on:
  assumes "d = lcd_device_custom_st7701sn rgb565 \<or> d = lcd_device_custom_st7796s" and "lcd_id p = ld_id d"
    and "doorbell_display_turn_on env p s = Some (Evt_ok, s')"
  shows "doorbell_display_turn_off env' s' = Some (Evt_already, s')"
  using assms display_id_zero_stays_on [of env p s s' env']
  by (auto simp: lcd_device_custom_st7701sn_def lcd_device_custom_st7796s_def)

end
