(* ===== verification/Boarding.thy ===== *)
theory Boarding
  imports Ap_Core
begin

text \<open>
  Boarding of the doorbell, \<^verbatim>\<open>components/smart_lock/src/doorbell_boarding.c\<close> and the handler of
  customer events in \<^verbatim>\<open>bk_smart_config.c\<close>: over Bluetooth the app gives the doorbell its Wi-Fi, its
  server and its CS2 keys, and asks for a service; the doorbell advertises itself and answers with
  notifications.

  \<open>be_host_only\<close> is \<^verbatim>\<open>CONFIG_BLUETOOTH_HOST_ONLY\<close>: with it, as in every project of the repository, the
  Bluetooth library runs here; without it, it runs on the control core (Cp_Boarding), which
  sends the operations over. \<open>p2p_cs2_key_t\<close> is declared by the SDK; the lengths of its four strings are an
  argument (\<open>cs2_sizes\<close>). A write or a search for a string's end that leaves a buffer has no
  result.
\<close>

section \<open>Strings in buffers\<close>

definition strlen :: "u8 list \<Rightarrow> nat option" where
  "strlen buf = (if 0 \<in> set buf then Some (length (c_string buf)) else None)"

text \<open>\<^verbatim>\<open>strcat\<close> of a string, given without its end, to the string in a buffer.\<close>

definition strcat :: "u8 list \<Rightarrow> u8 list \<Rightarrow> u8 list option" where
  "strcat buf s = do { n \<leftarrow> strlen buf; mem_write buf n (s @ [0]) }"

section \<open>State\<close>

record p2p_cs2_key_t =
  ck_did :: "u8 list"
  ck_apilicense :: "u8 list"
  ck_key :: "u8 list"
  ck_initstring :: "u8 list"
  cs2_started :: bool

record cs2_sizes =
  did_size :: nat
  apilicense_size :: nat
  key_size :: nat
  initstring_size :: nat

text \<open>\<open>bi_wifi\<close> are the SSID and the password that the Bluetooth library has received.\<close>

record doorbell_boarding_info_t =
  bi_wifi :: "(u8 list \<times> u8 list) option"
  bi_channel :: u16
  bi_callback :: bool

record boarding_state =
  bd_ap :: ap_state
  doorbell_boarding_info :: "doorbell_boarding_info_t option"
  p2p_cs2_key :: "p2p_cs2_key_t option"
  bd_sent :: "u8 list list"
  bd_adv :: "u8 list option"

text \<open>What the SDK answers, and the addresses that messages carry.\<close>

record boarding_env =
  be_host_only :: bool
  be_ssid_max :: nat
  be_password_max :: nat
  be_malloc :: bool
  be_sizes :: cs2_sizes
  be_info_addr :: u32
  be_key_addr :: u32
  be_now :: u64
  be_net_info :: "u8 list \<Rightarrow> server_net_info"
  be_net_set :: bool

section \<open>Notifications\<close>

definition doorbell_boarding_event_notify :: "u16 \<Rightarrow> int \<Rightarrow> boarding_state \<Rightarrow> boarding_state" where
  "doorbell_boarding_event_notify opcode status s =
     s\<lparr>bd_sent := bd_sent s @
        [[ucast (opcode AND 0xFF), ucast (drop_bit 8 opcode), of_int status, 0, 0]]\<rparr>"

definition doorbell_boarding_event_notify_with_data ::
    "u16 \<Rightarrow> int \<Rightarrow> u8 list \<Rightarrow> u16 \<Rightarrow> boarding_state \<Rightarrow> boarding_state option" where
  "doorbell_boarding_event_notify_with_data opcode status payload len s =
     (if unat len > 1024 - 5 then Some s
      else if length payload < unat len then None
      else Some (s\<lparr>bd_sent := bd_sent s @
        [[ucast (opcode AND 0xFF), ucast (drop_bit 8 opcode), of_int status, ucast (len AND 0xFF),
          ucast (drop_bit 8 len)] @ take (unat len) payload]\<rparr>))"

definition post :: "u32 \<Rightarrow> u32 \<Rightarrow> boarding_state \<Rightarrow> boarding_state" where
  "post ev param s =
     s\<lparr>bd_ap := snd (doorbell_send_msg \<lparr>msg_event = ev, msg_param = param\<rparr> (bd_ap s))\<rparr>"

definition doorbell_boarding_event_message :: "u16 \<Rightarrow> int \<Rightarrow> boarding_state \<Rightarrow> boarding_state" where
  "doorbell_boarding_event_message opcode status s =
     post DBEVT_START_BOARDING_EVENT (push_bit 16 (of_int status) OR ucast opcode) s"

section \<open>Operations\<close>

definition BOARDING_OP_SOFT_AP_START :: u16 where "BOARDING_OP_SOFT_AP_START = 2"
definition BOARDING_OP_SET_CS2_DID :: u16 where "BOARDING_OP_SET_CS2_DID = 5"
definition BOARDING_OP_SET_CS2_APILICENSE :: u16 where "BOARDING_OP_SET_CS2_APILICENSE = 6"
definition BOARDING_OP_SET_CS2_KEY :: u16 where "BOARDING_OP_SET_CS2_KEY = 7"
definition BOARDING_OP_SET_CS2_INIT_STRING :: u16 where "BOARDING_OP_SET_CS2_INIT_STRING = 8"
definition BOARDING_OP_BLE_DISABLE :: u16 where "BOARDING_OP_BLE_DISABLE = 10"
definition BOARDING_OP_SET_WIFI_CHANNEL :: u16 where "BOARDING_OP_SET_WIFI_CHANNEL = 11"
definition BOARDING_OP_CONNECTION_SERVER_FAILED :: u16 where "BOARDING_OP_CONNECTION_SERVER_FAILED = 18"

lemmas boarding_op_defs = BOARDING_OP_STATION_START_def BOARDING_OP_SOFT_AP_START_def
  BOARDING_OP_SERVICE_UDP_START_def BOARDING_OP_SERVICE_TCP_START_def BOARDING_OP_SET_CS2_DID_def
  BOARDING_OP_SET_CS2_APILICENSE_def BOARDING_OP_SET_CS2_KEY_def BOARDING_OP_SET_CS2_INIT_STRING_def
  BOARDING_OP_SRRVICE_CS2_START_def BOARDING_OP_BLE_DISABLE_def BOARDING_OP_SET_WIFI_CHANNEL_def
  BOARDING_OP_SET_SERVER_NET_INFO_def BOARDING_OP_CONNECTION_SERVER_FAILED_def

definition cs2_zero :: "cs2_sizes \<Rightarrow> p2p_cs2_key_t" where
  "cs2_zero z = \<lparr>ck_did = replicate (did_size z) 0, ck_apilicense = replicate (apilicense_size z) 0,
     ck_key = replicate (key_size z) 0, ck_initstring = replicate (initstring_size z) 0, cs2_started = False\<rparr>"

text \<open>The key record, allocated at the first string.\<close>

definition cs2_record :: "boarding_env \<Rightarrow> boarding_state \<Rightarrow> p2p_cs2_key_t option" where
  "cs2_record env s =
     (case p2p_cs2_key s of
        Some k \<Rightarrow> Some k
      | None \<Rightarrow> if be_malloc env then Some (cs2_zero (be_sizes env)) else None)"

text \<open>
  What the four operations that set a string have in common; \<open>get\<close> and \<open>upd\<close> select the string.
\<close>

definition set_cs2_string ::
    "boarding_env \<Rightarrow> (p2p_cs2_key_t \<Rightarrow> u8 list) \<Rightarrow> ((u8 list \<Rightarrow> u8 list) \<Rightarrow> p2p_cs2_key_t \<Rightarrow> p2p_cs2_key_t) \<Rightarrow>
      u16 \<Rightarrow> u16 \<Rightarrow> u8 list \<Rightarrow> boarding_state \<Rightarrow> boarding_state option" where
  "set_cs2_string env get upd opcode len data s =
     (case cs2_record env s of
        None \<Rightarrow> Some s
      | Some k \<Rightarrow>
          (let s = s\<lparr>p2p_cs2_key := Some k\<rparr> in do {
             n \<leftarrow> strlen (get k);
             (if n \<noteq> 0 then Some s
              else if unat len > length (get k) then Some s
              else if length data < unat len then None
              else do {
                buf \<leftarrow> mem_write (get k) 0 (take (unat len) data);
                Some (doorbell_boarding_event_message opcode 0 (s\<lparr>p2p_cs2_key := Some (upd (\<lambda>_. buf) k)\<rparr>))
              })
           }))"

definition cs2_start :: "boarding_env \<Rightarrow> boarding_state \<Rightarrow> boarding_state option" where
  "cs2_start env s =
     (case p2p_cs2_key s of
        None \<Rightarrow> Some s
      | Some k \<Rightarrow>
          if cs2_started k then Some s
          else do {
            a \<leftarrow> strcat (ck_apilicense k) [58];
            _ \<leftarrow> strlen (ck_key k);
            a \<leftarrow> strcat a (c_string (ck_key k));
            i \<leftarrow> strcat (ck_initstring k) [58];
            i \<leftarrow> strcat i (c_string (ck_key k));
            Some (post DBEVT_P2P_CS2_SERVICE_START_REQUEST (be_key_addr env)
              (s\<lparr>p2p_cs2_key := Some (k\<lparr>ck_apilicense := a, ck_initstring := i, cs2_started := True\<rparr>)\<rparr>))
          })"

definition save_wifi :: "boarding_state \<Rightarrow> boarding_state" where
  "save_wifi s =
     s\<lparr>bd_ap := snd (doorbell_save_wifi_info_to_flash (Option.bind (doorbell_boarding_info s) bi_wifi) (bd_ap s))\<rparr>"

text \<open>
  Without \<^verbatim>\<open>CONFIG_BLUETOOTH_HOST_ONLY\<close> the SSID and the password come in the data, each behind its length.
  One that is too long is replaced by the empty string; where the password starts, the length of
  the SSID is believed in any case. The two blocks are used without a look at the allocation.
\<close>

definition bounded_string :: "nat \<Rightarrow> u8 list \<Rightarrow> nat \<Rightarrow> (u8 list \<times> nat) option" where
  "bounded_string limit data off =
     (if length data < off + 2 then None
      else (let n = unat (get16 data off :: u16) in
        if n < limit
        then (if length data < off + 2 + n then None
              else Some (c_string (take n (drop (off + 2) data)), off + 2 + n))
        else Some ([], off + 2 + n)))"

definition station_from_data :: "boarding_env \<Rightarrow> u8 list \<Rightarrow> boarding_state \<Rightarrow> boarding_state option" where
  "station_from_data env data s =
     (if \<not> be_malloc env then None
      else do {
        (ssid, pw_start) \<leftarrow> bounded_string (be_ssid_max env) data 0;
        (password, _) \<leftarrow> bounded_string (be_password_max env) data pw_start;
        Some (s\<lparr>bd_ap := snd (doorbell_wifi_sta_connect ssid password (bd_ap s))\<rparr>)
      })"

definition set_wifi_channel :: "u8 list \<Rightarrow> boarding_state \<Rightarrow> boarding_state option" where
  "set_wifi_channel data s = do {
     i \<leftarrow> doorbell_boarding_info s;
     (if length data < 2 then None
      else Some (s\<lparr>doorbell_boarding_info := Some (i\<lparr>bi_channel := get16 data 0\<rparr>)\<rparr>))
   }"

definition set_server_net_info :: "ap_config \<Rightarrow> boarding_env \<Rightarrow> u8 list \<Rightarrow> boarding_state \<Rightarrow> boarding_state" where
  "set_server_net_info cfg env data s =
     (if client_service cfg
      then post DBEVT_SET_SERVER_NET_INFO 0
        (s\<lparr>bd_ap := snd (doorbell_save_server_net_info_to_flash (be_net_set env) (Some (be_net_info env data)) (bd_ap s))\<rparr>)
      else s)"

definition doorbell_boarding_operation_handle ::
    "ap_config \<Rightarrow> boarding_env \<Rightarrow> u16 \<Rightarrow> u16 \<Rightarrow> u8 list \<Rightarrow> boarding_state \<Rightarrow> boarding_state option" where
  "doorbell_boarding_operation_handle cfg env opcode len data s =
     (let s = s\<lparr>bd_ap := db_keepalive_update_timestamp cfg (be_now env) (bd_ap s)\<rparr> in
      if opcode = BOARDING_OP_STATION_START then
        (if be_host_only env then Some (post DBEVT_WIFI_STATION_CONNECT (be_info_addr env) (save_wifi s))
         else station_from_data env data s)
      else if opcode = BOARDING_OP_SOFT_AP_START then
        Some (post DBEVT_WIFI_SOFT_AP_TURNING_ON (be_info_addr env) (save_wifi s))
      else if opcode = BOARDING_OP_SERVICE_UDP_START then Some (post DBEVT_LAN_UDP_SERVICE_START_REQUEST 0 s)
      else if opcode = BOARDING_OP_SERVICE_TCP_START then Some (post DBEVT_LAN_TCP_SERVICE_START_REQUEST 0 s)
      else if opcode = BOARDING_OP_SET_CS2_DID then set_cs2_string env ck_did ck_did_update opcode len data s
      else if opcode = BOARDING_OP_SET_CS2_APILICENSE then
        set_cs2_string env ck_apilicense ck_apilicense_update opcode len data s
      else if opcode = BOARDING_OP_SET_CS2_KEY then set_cs2_string env ck_key ck_key_update opcode len data s
      else if opcode = BOARDING_OP_SET_CS2_INIT_STRING then
        set_cs2_string env ck_initstring ck_initstring_update opcode len data s
      else if opcode = BOARDING_OP_SRRVICE_CS2_START then cs2_start env s
      else if opcode = BOARDING_OP_BLE_DISABLE then Some (post DBEVT_BLE_DISABLE 0 s)
      else if opcode = BOARDING_OP_SET_WIFI_CHANNEL then set_wifi_channel data s
      else if opcode = BOARDING_OP_SET_SERVER_NET_INFO then Some (set_server_net_info cfg env data s)
      else Some s)"

section \<open>Advertising\<close>

definition ADV_TYPE_FLAGS :: u8 where "ADV_TYPE_FLAGS = 0x01"
definition ADV_TYPE_LOCAL_NAME :: u8 where "ADV_TYPE_LOCAL_NAME = 0x09"
definition ADV_TYPE_SERVICE_DATA :: u8 where "ADV_TYPE_SERVICE_DATA = 0x16"
definition ADV_TYPE_MANUFACTURER_SPECIFIC :: u8 where "ADV_TYPE_MANUFACTURER_SPECIFIC = 0xFF"
definition ADV_NAME_HEAD :: "u8 list" where "ADV_NAME_HEAD = ascii ''doorbell''"
definition BEKEN_COMPANY_ID :: u16 where "BEKEN_COMPANY_ID = 0x05F0"
definition BOARDING_UUID :: u16 where "BOARDING_UUID = 0xFE01"
definition DOORBELL_VERSION :: u8 where "DOORBELL_VERSION = 1"
definition DOORBELL_LP_VERSION :: u8 where "DOORBELL_LP_VERSION = 2"

lemmas adv_defs = ADV_TYPE_FLAGS_def ADV_TYPE_LOCAL_NAME_def ADV_TYPE_SERVICE_DATA_def
  ADV_TYPE_MANUFACTURER_SPECIFIC_def ADV_NAME_HEAD_def BEKEN_COMPANY_ID_def BOARDING_UUID_def
  DOORBELL_VERSION_def DOORBELL_LP_VERSION_def

definition hex_digit :: "nat \<Rightarrow> u8" where
  "hex_digit n = of_nat (if n < 10 then 48 + n else 55 + n)"

text \<open>\<^verbatim>\<open>%02X\<close>\<close>

definition hex2 :: "u8 \<Rightarrow> u8 list" where
  "hex2 b = [hex_digit (unat b div 16), hex_digit (unat b mod 16)]"

definition adv_name :: "u8 list \<Rightarrow> u8 list" where
  "adv_name mac = ADV_NAME_HEAD @ [95] @ hex2 (mac ! 0) @ hex2 (mac ! 1) @ hex2 (mac ! 2)"

definition adv_data :: "ap_config \<Rightarrow> u8 list \<Rightarrow> u8 list" where
  "adv_data cfg mac =
     [2, ADV_TYPE_FLAGS, 6] @
     [of_nat (length (adv_name mac)) + 1, ADV_TYPE_LOCAL_NAME] @ adv_name mac @
     [3, ADV_TYPE_SERVICE_DATA, ucast (BOARDING_UUID AND 0xFF), ucast (drop_bit 8 BOARDING_UUID)] @
     [4, ADV_TYPE_MANUFACTURER_SPECIFIC, ucast (BEKEN_COMPANY_ID AND 0xFF), ucast (drop_bit 8 BEKEN_COMPANY_ID),
      if client_service cfg then DOORBELL_LP_VERSION else DOORBELL_VERSION]"

text \<open>\<open>mac\<close> are the six bytes of the Bluetooth address.\<close>

definition doorbell_boarding_init :: "ap_config \<Rightarrow> bool \<Rightarrow> u8 list \<Rightarrow> boarding_state \<Rightarrow> bk_err_t \<times> boarding_state" where
  "doorbell_boarding_init cfg malloc_ok mac s =
     (case (case doorbell_boarding_info s of
              Some i \<Rightarrow> Some i
            | None \<Rightarrow> if malloc_ok then Some \<lparr>bi_wifi = None, bi_channel = 0, bi_callback = False\<rparr> else None) of
        None \<Rightarrow> (BK_FAIL, s)
      | Some i \<Rightarrow>
          (BK_OK, s\<lparr>doorbell_boarding_info := Some (i\<lparr>bi_callback := True\<rparr>), bd_adv := Some (adv_data cfg mac)\<rparr>))"

section \<open>Events of the control core\<close>

text \<open>
  \<^verbatim>\<open>bk_rx_handle_customer_event\<close>; the event numbers are the SDK's. \<open>r\<close> and \<open>reason\<close> are what the
  query for the wake-up record returns.
\<close>

datatype cust_event = Ble_data_to_user "u8 list" | Keepalive_disconnected int "u32 option" | Cust_other

definition bk_rx_handle_customer_event ::
    "ap_config \<Rightarrow> boarding_env \<Rightarrow> cust_event \<Rightarrow> boarding_state \<Rightarrow> boarding_state option" where
  "bk_rx_handle_customer_event cfg env ev s =
     (case ev of
        Ble_data_to_user bs \<Rightarrow>
          if length bs < 4 then None
          else doorbell_boarding_operation_handle cfg env (get16 bs 0) (get16 bs 2) (drop 4 bs) s
      | Keepalive_disconnected r reason \<Rightarrow>
          Some (s\<lparr>bd_ap := (if low_power cfg then db_keepalive_handle_wakeup_reason cfg r reason (bd_ap s) else bd_ap s)\<rparr>)
      | Cust_other \<Rightarrow> Some s)"

end
