(* ===== verification/Cp_Boarding.thy ===== *)
theory Cp_Boarding
  imports Boarding
begin

text \<open>
  Boarding on the control core, \<^verbatim>\<open>projects/doorbell_lp/cp/doorbell_service/doorbell_core.c\<close>, for builds in
  which the Bluetooth host runs there (without \<^verbatim>\<open>CONFIG_BTDM_CONTROLLER_ONLY\<close>, which the repository's
  configurations set): the core puts what the Bluetooth library receives into packets, a task sends
  them to the application core, and packets from there go out as notifications.

  The other three projects have the same file; there the events are sent and the commands taken by
  \<^verbatim>\<open>customer_msg/customer_msg.c\<close>, modelled here as well (\<open>cc_low_power\<close> tells the two apart).

  A message owns the block of memory it points to; \<open>cc_live\<close> are the blocks that are allocated.
\<close>

section \<open>State\<close>

definition CP_DBEVT_DATA_TO_USER :: u32 where "CP_DBEVT_DATA_TO_USER = 0x01"
definition CP_DBEVT_DATA_TO_APK :: u32 where "CP_DBEVT_DATA_TO_APK = 0x02"
definition CP_DBEVT_CLOSE_BLUETOOTH :: u32 where "CP_DBEVT_CLOSE_BLUETOOTH = 0x03"
definition CP_DBEVT_EXIT :: u32 where "CP_DBEVT_EXIT = 0xE1"

lemmas cp_dbevt_defs = CP_DBEVT_DATA_TO_USER_def CP_DBEVT_DATA_TO_APK_def CP_DBEVT_CLOSE_BLUETOOTH_def
  CP_DBEVT_EXIT_def

record cp_msg =
  cm_event :: u32
  cm_data :: "(nat \<times> u8 list) option"
  cm_len :: u16

datatype bt_event = Ble_notify "u8 list" | Ble_adv "u8 list" | Bluetooth_off

record cp_station =
  cs_ssid :: "u8 list"
  cs_password :: "u8 list"
  cs_channel :: u16

record cp_core = pl_state +
  cc_low_power :: bool
  cc_info :: bool
  cc_enabled :: bool
  cc_thd :: bool
  cc_queue :: "cp_msg list option"
  cc_station :: "cp_station option"
  cc_live :: "nat list"
  cc_next :: nat
  cc_bt :: "bt_event list"

definition bt_emit :: "bt_event list \<Rightarrow> cp_core \<Rightarrow> cp_core" where
  "bt_emit es s = s\<lparr>cc_bt := cc_bt s @ es\<rparr>"

text \<open>The queue takes 30 messages. A message that finds it full is lost, with its block.\<close>

definition cp_send_msg :: "cp_msg \<Rightarrow> cp_core \<Rightarrow> bk_err_t \<times> cp_core" where
  "cp_send_msg m s =
     (case cc_queue s of
        None \<Rightarrow> (BK_OK, s)
      | Some q \<Rightarrow> if length q < 30 then (BK_OK, s\<lparr>cc_queue := Some (q @ [m])\<rparr>) else (BK_FAIL, s))"

text \<open>A new block with some content, sent in a message.\<close>

definition send_block :: "u32 \<Rightarrow> u8 list \<Rightarrow> u16 \<Rightarrow> cp_core \<Rightarrow> cp_core" where
  "send_block ev bytes len s =
     (let b = cc_next s; s = s\<lparr>cc_next := b + 1, cc_live := b # cc_live s\<rparr>
      in snd (cp_send_msg \<lparr>cm_event = ev, cm_data = Some (b, bytes), cm_len = len\<rparr> s))"

definition free_block :: "nat \<Rightarrow> cp_core \<Rightarrow> cp_core" where
  "free_block b s = s\<lparr>cc_live := remove1 b (cc_live s)\<rparr>"

section \<open>Packets of operations\<close>

definition OPCODE_LEN :: nat where "OPCODE_LEN = 2"
definition DATA_LEN_LEN :: nat where "DATA_LEN_LEN = 2"
definition SSID_LEN_LEN :: nat where "SSID_LEN_LEN = 2"
definition PW_LEN_LEN :: nat where "PW_LEN_LEN = 2"

text \<open>
  Writing \<open>bytes\<close> into a block of \<open>len\<close> bytes just allocated: \<open>None\<close> when they are longer, as when
  the 16 bits of \<^verbatim>\<open>cmd_len\<close> have wrapped.
\<close>

definition packet_out :: "bool \<Rightarrow> u16 \<Rightarrow> u8 list \<Rightarrow> cp_core \<Rightarrow> cp_core option" where
  "packet_out malloc_ok len bytes s =
     (if \<not> malloc_ok then Some s
      else if unat len < length bytes then None
      else Some (send_block CP_DBEVT_DATA_TO_USER bytes len s))"

definition station_packet :: "u16 \<Rightarrow> u16 \<Rightarrow> cp_station \<Rightarrow> u8 list" where
  "station_packet opcode cmd_len i =
     le16 opcode @ le16 (cmd_len - of_nat OPCODE_LEN - of_nat DATA_LEN_LEN) @
     le16 (of_nat (length (cs_ssid i))) @ cs_ssid i @
     le16 (of_nat (length (cs_password i))) @ cs_password i"

definition cp_boarding_operation_handle :: "bool \<Rightarrow> u16 \<Rightarrow> u16 \<Rightarrow> u8 list \<Rightarrow> cp_core \<Rightarrow> cp_core option" where
  "cp_boarding_operation_handle malloc_ok opcode len data s =
     (if opcode = BOARDING_OP_STATION_START then do {
        i \<leftarrow> cc_station s;
        let cmd_len = of_nat (OPCODE_LEN + DATA_LEN_LEN + SSID_LEN_LEN + length (cs_ssid i) + PW_LEN_LEN +
                              length (cs_password i));
        packet_out malloc_ok cmd_len (station_packet opcode cmd_len i) s
      }
      else if opcode = BOARDING_OP_SOFT_AP_START then do {
        i \<leftarrow> cc_station s;
        let cmd_len = of_nat (OPCODE_LEN + DATA_LEN_LEN + SSID_LEN_LEN + length (cs_ssid i) + PW_LEN_LEN +
                              length (cs_password i) + 2);
        packet_out malloc_ok cmd_len (station_packet opcode cmd_len i @ le16 (cs_channel i)) s
      }
      else if opcode = BOARDING_OP_SET_WIFI_CHANNEL then do {
        i \<leftarrow> cc_station s;
        (if length data < 2 then None else Some (s\<lparr>cc_station := Some (i\<lparr>cs_channel := get16 data 0\<rparr>)\<rparr>))
      }
      else if opcode = BOARDING_OP_BLE_DISABLE then
        Some (snd (cp_send_msg \<lparr>cm_event = CP_DBEVT_CLOSE_BLUETOOTH, cm_data = None, cm_len = 0\<rparr> s))
      else if length data < unat len then None
      else packet_out malloc_ok (of_nat (OPCODE_LEN + DATA_LEN_LEN + unat len))
             (le16 opcode @ le16 len @ take (unat len) data) s)"

section \<open>Events and commands\<close>

definition DB_IPC_EVENT_BLE_DATA_TO_USER :: u16 where "DB_IPC_EVENT_BLE_DATA_TO_USER = 0x1001"
definition CIFD_EVENT_BLE_DATA_TO_USER :: u16 where "CIFD_EVENT_BLE_DATA_TO_USER = 0x1001"
definition CIFD_CMD_BLE_DATA_TO_APK :: u16 where "CIFD_CMD_BLE_DATA_TO_APK = 0x0001"
definition CIFD_CUST_PATTERN :: u16 where "CIFD_CUST_PATTERN = 0xA5A6"
definition MAX_CIFD_CUST_SIZE :: nat where "MAX_CIFD_CUST_SIZE = 256"

definition cifd_send_cust_event ::
    "int \<Rightarrow> u16 \<Rightarrow> u8 list option \<Rightarrow> u16 \<Rightarrow> 'a pl_state_scheme \<Rightarrow> int \<times> 'a pl_state_scheme" where
  "cifd_send_cust_event ret event_id data len st =
     (if unat len > MAX_CIFD_CUST_SIZE then (-1, st)
      else
        let bs = (case data of None \<Rightarrow> replicate (unat len) 0 | Some bs \<Rightarrow> take (unat len) bs) in
        (ret, cp_emit [Cif_event (le16 CIFD_CUST_PATTERN @ le16 event_id @ le16 0 @ le16 0 @ le16 0 @
           le16 (of_nat (length bs)) @ bs)] st))"

text \<open>The command of the application core to send a notification: \<^verbatim>\<open>db_ipc_msg_handler\<close> in this build.\<close>

definition cp_data_to_apk :: "bool \<Rightarrow> u8 list \<Rightarrow> cp_core \<Rightarrow> cp_core" where
  "cp_data_to_apk malloc_ok payload s =
     (if malloc_ok then send_block CP_DBEVT_DATA_TO_APK payload (of_nat (length payload)) s else s)"

definition cifd_cust_msg_handler :: "bool \<Rightarrow> int \<Rightarrow> ipc_msg option \<Rightarrow> cp_core \<Rightarrow> int \<times> cp_core" where
  "cifd_cust_msg_handler malloc_ok confirm msg s =
     (case msg of
        None \<Rightarrow> (-1, s)
      | Some m \<Rightarrow>
          let s = (if cmd_id m = CIFD_CMD_BLE_DATA_TO_APK then cp_data_to_apk malloc_ok (ipc_payload m) s else s)
          in (confirm, cp_emit [Cif_confirm []] s))"

section \<open>The task\<close>

text \<open>
  A block is freed once its message was carried out; a message of length 0 keeps it. A message whose
  block is not allocated, or shorter than its length, has no result.
\<close>

definition cp_handle_msg :: "int \<Rightarrow> cp_msg \<Rightarrow> cp_core \<Rightarrow> (bool \<times> cp_core) option" where
  "cp_handle_msg ret m s =
     (if cm_event m = CP_DBEVT_DATA_TO_USER then
        (case cm_data m of
           Some (b, bytes) \<Rightarrow>
             if cm_len m = 0 then Some (True, s)
             else if b \<notin> set (cc_live s) \<or> length bytes < unat (cm_len m) then None
             else Some (True, free_block b (snd
               (if cc_low_power s then db_ipc_send_event ret DB_IPC_EVENT_BLE_DATA_TO_USER (Some bytes) (cm_len m) s
                else cifd_send_cust_event ret CIFD_EVENT_BLE_DATA_TO_USER (Some bytes) (cm_len m) s)))
         | None \<Rightarrow> Some (True, s))
      else if cm_event m = CP_DBEVT_DATA_TO_APK then
        (case cm_data m of
           Some (b, bytes) \<Rightarrow>
             if cm_len m = 0 then Some (True, s)
             else if b \<notin> set (cc_live s) \<or> length bytes < unat (cm_len m) then None
             else Some (True, free_block b (bt_emit [Ble_notify (take (unat (cm_len m)) bytes)] s))
         | None \<Rightarrow> Some (True, s))
      else if cm_event m = CP_DBEVT_CLOSE_BLUETOOTH then Some (True, bt_emit [Bluetooth_off] s)
      else if cm_event m = CP_DBEVT_EXIT then Some (False, s)
      else Some (True, s))"

text \<open>A turn of the task: \<open>None\<close> also when it waits, with nothing in its queue.\<close>

definition cp_core_step :: "int \<Rightarrow> cp_core \<Rightarrow> cp_core option" where
  "cp_core_step ret s =
     (case cc_queue s of
        Some (m # q) \<Rightarrow> do {
          (go, s) \<leftarrow> cp_handle_msg ret m (s\<lparr>cc_queue := Some q\<rparr>);
          Some (if go then s else s\<lparr>cc_queue := None\<rparr>)
        }
      | _ \<Rightarrow> None)"

text \<open>The advertisement of this core has no version byte.\<close>

definition cp_adv_data :: "u8 list \<Rightarrow> u8 list" where
  "cp_adv_data mac =
     [2, ADV_TYPE_FLAGS, 6] @
     [of_nat (length (adv_name mac)) + 1, ADV_TYPE_LOCAL_NAME] @ adv_name mac @
     [3, ADV_TYPE_SERVICE_DATA, ucast (BOARDING_UUID AND 0xFF), ucast (drop_bit 8 BOARDING_UUID)] @
     [3, ADV_TYPE_MANUFACTURER_SPECIFIC, ucast (BEKEN_COMPANY_ID AND 0xFF), ucast (drop_bit 8 BEKEN_COMPANY_ID)]"

definition cp_boarding_init :: "bool \<Rightarrow> u8 list \<Rightarrow> cp_core \<Rightarrow> bk_err_t \<times> cp_core" where
  "cp_boarding_init malloc_ok mac s =
     (if cc_station s = None \<and> \<not> malloc_ok then (BK_FAIL, s)
      else
        let i = (case cc_station s of None \<Rightarrow> \<lparr>cs_ssid = [], cs_password = [], cs_channel = 0\<rparr> | Some i \<Rightarrow> i)
        in (BK_OK, bt_emit [Ble_adv (cp_adv_data mac)] (s\<lparr>cc_station := Some i\<rparr>)))"

definition cp_core_init :: "bool \<Rightarrow> bool \<Rightarrow> bool \<Rightarrow> bool \<Rightarrow> u8 list \<Rightarrow> cp_core \<Rightarrow> cp_core" where
  "cp_core_init alloc queue_ok thread_ok board_ok mac s =
     (if \<not> cc_info s \<and> \<not> alloc then s
      else
        let s = (if cc_info s then s else s\<lparr>cc_info := True, cc_enabled := False, cc_thd := False, cc_queue := None\<rparr>) in
        if cc_queue s \<noteq> None then s
        else if cc_thd s then s
        else if \<not> queue_ok then s
        else
          let s = s\<lparr>cc_queue := Some []\<rparr> in
          if \<not> thread_ok then s
          else (snd (cp_boarding_init board_ok mac (s\<lparr>cc_thd := True\<rparr>)))\<lparr>cc_enabled := True\<rparr>)"

text \<open>The Bluetooth library keeps the SSID and the password it receives in the shared record.\<close>

datatype cp_act =
    Ble_receives "u8 list" "u8 list" | Ble_operation bool u16 u16 "u8 list" | From_ap bool "u8 list" | Core_turn int

fun cp_do :: "cp_act \<Rightarrow> cp_core \<Rightarrow> cp_core option" where
  "cp_do (Ble_receives ssid password) s =
     map_option (\<lambda>i. s\<lparr>cc_station := Some (i\<lparr>cs_ssid := ssid, cs_password := password\<rparr>)\<rparr>) (cc_station s)"
| "cp_do (Ble_operation malloc_ok opcode len data) s = cp_boarding_operation_handle malloc_ok opcode len data s"
| "cp_do (From_ap malloc_ok payload) s = Some (cp_data_to_apk malloc_ok payload s)"
| "cp_do (Core_turn ret) s = cp_core_step ret s"

fun cp_run :: "cp_act list \<Rightarrow> cp_core \<Rightarrow> cp_core option" where
  "cp_run [] s = Some s"
| "cp_run (a # as) s = Option.bind (cp_do a s) (cp_run as)"

end
