(* ===== verification/Boarding_Properties.thy ===== *)
theory Boarding_Properties
  imports Boarding
begin

text \<open>
  The strings of the CS2 service against a specification on plain strings, the advertisement, and
  what boarding does at its edges.
\<close>

section \<open>The specification of the keys\<close>

text \<open>
  In the specification a string has no buffer: the record holds the bytes themselves. The first
  string that is not empty stays, and the start appends the key to two of them.
\<close>

definition cs2_empty :: p2p_cs2_key_t where
  "cs2_empty = \<lparr>ck_did = [], ck_apilicense = [], ck_key = [], ck_initstring = [], cs2_started = False\<rparr>"

definition spec_start :: "p2p_cs2_key_t \<Rightarrow> p2p_cs2_key_t" where
  "spec_start k =
     (if cs2_started k then k
      else k\<lparr>ck_apilicense := ck_apilicense k @ [58] @ ck_key k,
             ck_initstring := ck_initstring k @ [58] @ ck_key k, cs2_started := True\<rparr>)"

definition spec_op :: "u16 \<Rightarrow> u8 list \<Rightarrow> p2p_cs2_key_t option \<Rightarrow> p2p_cs2_key_t option" where
  "spec_op opcode data a =
     (let k = (case a of None \<Rightarrow> cs2_empty | Some k \<Rightarrow> k);
          set_once = (\<lambda>get upd. Some (if get k = [] then upd (\<lambda>_. data) k else k)) in
      if opcode = BOARDING_OP_SET_CS2_DID then set_once ck_did ck_did_update
      else if opcode = BOARDING_OP_SET_CS2_APILICENSE then set_once ck_apilicense ck_apilicense_update
      else if opcode = BOARDING_OP_SET_CS2_KEY then set_once ck_key ck_key_update
      else if opcode = BOARDING_OP_SET_CS2_INIT_STRING then set_once ck_initstring ck_initstring_update
      else if opcode = BOARDING_OP_SRRVICE_CS2_START then map_option spec_start a
      else a)"

fun spec_ops :: "(u16 \<times> u8 list) list \<Rightarrow> p2p_cs2_key_t option \<Rightarrow> p2p_cs2_key_t option" where
  "spec_ops [] a = a"
| "spec_ops ((opcode, data) # ops) a = spec_ops ops (spec_op opcode data a)"

fun boarding_ops ::
    "ap_config \<Rightarrow> boarding_env \<Rightarrow> (u16 \<times> u8 list) list \<Rightarrow> boarding_state \<Rightarrow> boarding_state option" where
  "boarding_ops cfg env [] s = Some s"
| "boarding_ops cfg env ((opcode, data) # ops) s = do {
     s \<leftarrow> doorbell_boarding_operation_handle cfg env opcode (of_nat (length data)) data s;
     boarding_ops cfg env ops s
   }"

section \<open>Buffers\<close>

definition pad :: "nat \<Rightarrow> u8 list \<Rightarrow> u8 list" where
  "pad n s = s @ replicate (n - length s) 0"

lemma c_string_zeros: "c_string (s @ replicate (Suc n) 0) = s" if "0 \<notin> set s"
proof -
  have "takeWhile (\<lambda>b. b \<noteq> 0) (s @ 0 # replicate n 0) = s"
    using that by (subst takeWhile_append2) auto
  then show ?thesis by (simp add: c_string_def)
qed

lemma pad_facts [simp]:
  assumes "0 \<notin> set s" and "length s < n"
  shows "length (pad n s) = n" and "strlen (pad n s) = Some (length s)" and "c_string (pad n s) = s"
proof -
  obtain m where m: "n - length s = Suc m" using assms(2) by (metis Suc_diff_Suc)
  then show "length (pad n s) = n" using assms(2) by (simp add: pad_def)
  show c: "c_string (pad n s) = s" unfolding pad_def m by (rule c_string_zeros [OF assms(1)])
  show "strlen (pad n s) = Some (length s)" using c m by (simp add: strlen_def pad_def)
qed

lemma pad_write:
  assumes "length s < n"
  shows "mem_write (pad n []) 0 s = Some (pad n s)"
  using assms by (simp add: mem_write_def pad_def drop_replicate)

lemma pad_strcat:
  assumes "0 \<notin> set s" and "length s + length t < n"
  shows "strcat (pad n s) t = Some (pad n (s @ t))"
proof -
  have "n - length s = Suc (length t) + (n - Suc (length s + length t))" using assms(2) by simp
  then have "drop (length s + Suc (length t)) (pad n s) = replicate (n - Suc (length s + length t)) 0"
    by (simp add: pad_def drop_replicate)
  moreover have "take (length s) (pad n s) = s" by (simp add: pad_def)
  moreover have "n - (length s + length t) = Suc (n - Suc (length s + length t))" using assms(2) by simp
  then have "pad n (s @ t) = s @ t @ 0 # replicate (n - Suc (length s + length t)) 0" by (simp add: pad_def)
  ultimately show ?thesis
    using assms by (simp add: strcat_def mem_write_def)
qed

definition padded :: "cs2_sizes \<Rightarrow> p2p_cs2_key_t \<Rightarrow> p2p_cs2_key_t" where
  "padded z a = \<lparr>ck_did = pad (did_size z) (ck_did a), ck_apilicense = pad (apilicense_size z) (ck_apilicense a),
     ck_key = pad (key_size z) (ck_key a), ck_initstring = pad (initstring_size z) (ck_initstring a),
     cs2_started = cs2_started a\<rparr>"

lemma padded_sel [simp]:
  "ck_did (padded z a) = pad (did_size z) (ck_did a)"
  "ck_apilicense (padded z a) = pad (apilicense_size z) (ck_apilicense a)"
  "ck_key (padded z a) = pad (key_size z) (ck_key a)"
  "ck_initstring (padded z a) = pad (initstring_size z) (ck_initstring a)"
  "cs2_started (padded z a) = cs2_started a"
  by (simp_all add: padded_def)

lemma padded_empty: "padded z cs2_empty = cs2_zero z"
  by (simp add: padded_def cs2_empty_def cs2_zero_def pad_def)

text \<open>
  A string that leaves room for its end, and for the colon and the longest key where these are
  appended.
\<close>

definition fits :: "cs2_sizes \<Rightarrow> u16 \<Rightarrow> u8 list \<Rightarrow> bool" where
  "fits z opcode data \<longleftrightarrow> 0 \<notin> set data \<and> length data < 2 ^ 16 \<and>
     (opcode = BOARDING_OP_SET_CS2_DID \<longrightarrow> length data < did_size z) \<and>
     (opcode = BOARDING_OP_SET_CS2_APILICENSE \<longrightarrow> length data + key_size z < apilicense_size z) \<and>
     (opcode = BOARDING_OP_SET_CS2_KEY \<longrightarrow> length data < key_size z) \<and>
     (opcode = BOARDING_OP_SET_CS2_INIT_STRING \<longrightarrow> length data + key_size z < initstring_size z) \<and>
     opcode \<noteq> BOARDING_OP_SET_WIFI_CHANNEL"

definition room :: "cs2_sizes \<Rightarrow> p2p_cs2_key_t \<Rightarrow> bool" where
  "room z k \<longleftrightarrow> 0 \<notin> set (ck_did k) \<and> 0 \<notin> set (ck_apilicense k) \<and> 0 \<notin> set (ck_key k) \<and> 0 \<notin> set (ck_initstring k) \<and>
     length (ck_did k) < did_size z \<and> length (ck_key k) < key_size z \<and>
     length (ck_apilicense k) < apilicense_size z \<and> length (ck_initstring k) < initstring_size z \<and>
     (\<not> cs2_started k \<longrightarrow> length (ck_apilicense k) + key_size z < apilicense_size z \<and>
        length (ck_initstring k) + key_size z < initstring_size z)"

definition big_enough :: "cs2_sizes \<Rightarrow> bool" where
  "big_enough z \<longleftrightarrow> 0 < did_size z \<and> 0 < key_size z \<and> key_size z < apilicense_size z \<and> key_size z < initstring_size z"

definition room_opt :: "cs2_sizes \<Rightarrow> p2p_cs2_key_t option \<Rightarrow> bool" where
  "room_opt z a = (case a of None \<Rightarrow> big_enough z | Some k \<Rightarrow> room z k \<and> big_enough z)"

definition key_of :: "p2p_cs2_key_t option \<Rightarrow> p2p_cs2_key_t" where
  "key_of a = (case a of None \<Rightarrow> cs2_empty | Some k \<Rightarrow> k)"

lemma room_key_of: "room_opt z a \<Longrightarrow> room z (key_of a)"
  by (auto simp: room_opt_def key_of_def room_def cs2_empty_def big_enough_def split: option.splits)

lemma record_padded:
  assumes "p2p_cs2_key s = map_option (padded (be_sizes env)) a" and "be_malloc env"
  shows "cs2_record env s = Some (padded (be_sizes env) (key_of a))"
  using assms by (cases a) (simp_all add: cs2_record_def key_of_def padded_empty)

lemma key_of_post [simp]: "p2p_cs2_key (post ev p s) = p2p_cs2_key s"
  by (simp add: post_def)

lemma key_of_message [simp]: "p2p_cs2_key (doorbell_boarding_event_message opcode st s) = p2p_cs2_key s"
  by (simp add: doorbell_boarding_event_message_def)

text \<open>Setting one of the strings, whichever it is.\<close>

lemma set_string_refines:
  assumes "cs2_record env s = Some k" and "get k = pad n str" and "0 \<notin> set str" and "length str < n"
    and "length data < n" and "length data < 2 ^ 16"
  shows "\<exists>s'. set_cs2_string env get upd opcode (of_nat (length data)) data s = Some s' \<and>
    p2p_cs2_key s' = Some (if str = [] then upd (\<lambda>_. pad n data) k else k)"
proof -
  have len: "unat (of_nat (length data) :: u16) = length data"
    using assms(6) by (simp add: unat_of_nat take_bit_nat_eq_self_iff)
  show ?thesis
  proof (cases "str = []")
    case True
    with assms pad_write [OF assms(5)] show ?thesis
      by (simp add: set_cs2_string_def len)
  qed (use assms in \<open>simp add: set_cs2_string_def\<close>)
qed

lemma start_refines:
  assumes "p2p_cs2_key s = map_option (padded z) a" and "room_opt z a"
  shows "\<exists>s'. cs2_start env s = Some s' \<and> p2p_cs2_key s' = map_option (padded z) (map_option spec_start a)"
proof (cases a)
  case None
  with assms show ?thesis by (simp add: cs2_start_def)
next
  case (Some k)
  with assms(2) have r: "room z k" by (simp add: room_opt_def)
  show ?thesis
  proof (cases "cs2_started k")
    case True
    with assms Some show ?thesis by (simp add: cs2_start_def spec_start_def)
  next
    case False
    have *: "strcat (pad n s) [58] = Some (pad n (s @ [58])) \<and>
        strcat (pad n (s @ [58])) (ck_key k) = Some (pad n (s @ [58] @ ck_key k))"
      if "0 \<notin> set s" "length s + key_size z < n" for s n
      using that r pad_strcat [of s "[58]" n] pad_strcat [of "s @ [58]" "ck_key k" n]
      by (auto simp: room_def)
    have key: "strlen (pad (key_size z) (ck_key k)) = Some (length (ck_key k))"
      "c_string (pad (key_size z) (ck_key k)) = ck_key k"
      using r by (auto simp: room_def)
    show ?thesis
      using assms Some False r * [of "ck_apilicense k" "apilicense_size z"]
        * [of "ck_initstring k" "initstring_size z"] key
      by (simp add: cs2_start_def spec_start_def room_def padded_def)
  qed
qed

lemma room_start: "room z k \<Longrightarrow> room z (spec_start k)"
  by (auto simp: room_def spec_start_def)

lemma spec_op_room:
  assumes "room_opt z a" and "fits z opcode data"
  shows "room_opt z (spec_op opcode data a)"
proof -
  note k = room_key_of [OF assms(1)]
  have big: "big_enough z" using assms(1) by (auto simp: room_opt_def split: option.splits)
  note simps = spec_op_def key_of_def [symmetric] boarding_op_defs room_opt_def big Let_def
  consider (did) "opcode = 5" | (api) "opcode = 6" | (key) "opcode = 7" | (init) "opcode = 8" | (start) "opcode = 9"
    | (other) "opcode \<notin> {5, 6, 7, 8, 9}" by blast
  then show ?thesis
  proof cases
    case start
    with assms(1) room_start show ?thesis by (auto simp: simps split: option.splits)
  next
    case other
    with assms(1) show ?thesis by (simp add: simps)
  qed (use k assms(2) in \<open>simp_all add: simps room_def fits_def\<close>)
qed

lemma set_padded:
  assumes "p2p_cs2_key s = map_option (padded z) a" and "be_malloc env" and "z = be_sizes env"
    and "get (padded z (key_of a)) = pad n (get (key_of a))"
    and "upd (\<lambda>_. pad n data) (padded z (key_of a)) = padded z (upd (\<lambda>_. data) (key_of a))"
    and "0 \<notin> set (get (key_of a))" and "length (get (key_of a)) < n"
    and "length data < n" and "length data < 2 ^ 16"
  shows "\<exists>s'. set_cs2_string env get upd opcode (of_nat (length data)) data s = Some s' \<and>
    p2p_cs2_key s' = Some (padded z (if get (key_of a) = [] then upd (\<lambda>_. data) (key_of a) else key_of a))"
  using set_string_refines [OF record_padded [OF _ assms(2)] _ assms(6,7,8,9), of s a get upd opcode] assms(1,3,4,5)
  by auto

lemma op_refines:
  assumes "p2p_cs2_key s = map_option (padded (be_sizes env)) a" and "be_malloc env"
    and "room_opt (be_sizes env) a" and "fits (be_sizes env) opcode data" and "be_host_only env"
  shows "\<exists>s'. doorbell_boarding_operation_handle cfg env opcode (of_nat (length data)) data s = Some s' \<and>
    p2p_cs2_key s' = map_option (padded (be_sizes env)) (spec_op opcode data a)"
proof -
  let ?z = "be_sizes env"
  let ?s = "s\<lparr>bd_ap := db_keepalive_update_timestamp cfg (be_now env) (bd_ap s)\<rparr>"
  have "p2p_cs2_key ?s = map_option (padded ?z) a" using assms(1) by simp
  note set = set_padded [OF this assms(2) refl, where opcode = opcode and data = data]
    and begin_cs2 = start_refines [OF this assms(3), of env]
  note facts = room_key_of [OF assms(3), unfolded room_def] assms(4) [unfolded fits_def]
  note ops = doorbell_boarding_operation_handle_def spec_op_def key_of_def [symmetric] boarding_op_defs
  consider (did) "opcode = 5" | (api) "opcode = 6" | (key) "opcode = 7" | (init) "opcode = 8" | (start) "opcode = 9"
    | (other) "opcode \<notin> {5, 6, 7, 8, 9}" by blast
  then show ?thesis
  proof cases
    case did
    with set [of ck_did "did_size ?z" ck_did_update] facts show ?thesis by (simp add: ops padded_def Let_def)
  next
    case api
    with set [of ck_apilicense "apilicense_size ?z" ck_apilicense_update] facts show ?thesis
      by (simp add: ops padded_def Let_def)
  next
    case key
    with set [of ck_key "key_size ?z" ck_key_update] facts show ?thesis by (simp add: ops padded_def Let_def)
  next
    case init
    with set [of ck_initstring "initstring_size ?z" ck_initstring_update] facts show ?thesis
      by (simp add: ops padded_def Let_def)
  next
    case start
    with begin_cs2 show ?thesis by (simp add: ops Let_def)
  next
    case other
    with assms(1,5) facts show ?thesis
      by (auto simp: ops save_wifi_def set_server_net_info_def Let_def)
  qed
qed


definition demo_boarding_env :: boarding_env where
  "demo_boarding_env = \<lparr>be_host_only = True, be_ssid_max = 33, be_password_max = 65, be_malloc = True, be_sizes = \<lparr>did_size = 8, apilicense_size = 8, key_size = 4, initstring_size = 8\<rparr>,
     be_info_addr = 0, be_key_addr = 0, be_now = 0,
     be_net_info = (\<lambda>_. \<lparr>ip_addr = [], cmd_port = [], video_port = [], audio_port = []\<rparr>), be_net_set = True\<rparr>"

definition demo_boarding :: boarding_state where
  "demo_boarding = \<lparr>bd_ap = ap_boot \<lparr>fl_wifi = None, fl_service = None, fl_interval = None, fl_net = None, fl_writable = True\<rparr>,
     doorbell_boarding_info = None, p2p_cs2_key = None, bd_sent = [], bd_adv = None\<rparr>"

definition demo_ops :: "(u16 \<times> u8 list) list" where
  "demo_ops = [(7, [75]), (5, [68]), (6, [65, 66]), (8, [73]), (6, [90]), (9, []), (9, [])]"

definition demo_boarding_cfg :: ap_config where
  "demo_boarding_cfg = \<lparr>client_service = True, bluetooth_ap = True, cs2 = True, low_power = False,
     chan_no = (\<lambda>_. 0), ENOTCONN = 0\<rparr>"


section \<open>The advertisement\<close>

text \<open>A receiver reads the advertisement as structures of a length, a type and data.\<close>

function ad_structures :: "u8 list \<Rightarrow> (u8 \<times> u8 list) list option" where
  "ad_structures bs =
     (case bs of
        [] \<Rightarrow> Some []
      | [l] \<Rightarrow> None
      | l # ty # rest \<Rightarrow>
          if unat l = 0 \<or> length rest < unat l - 1 then None
          else map_option ((#) (ty, take (unat l - 1) rest)) (ad_structures (drop (unat l - 1) rest)))"
  by pat_completeness auto
termination by (relation "measure length") auto

declare ad_structures.simps [simp del]

lemma hex2_length [simp]: "length (hex2 b) = 2"
  by (simp add: hex2_def)

lemma adv_name_length: "length (adv_name mac) = 15"
  by (simp add: adv_name_def adv_defs ascii_def)

text \<open>
  The advertisement is read back as flags, name, service and manufacturer data, with the version
  of the build, and fits the 31 bytes of a legacy advertisement.
\<close>

lemma adv_data_parsed:
  "ad_structures (adv_data cfg mac) =
     Some [(ADV_TYPE_FLAGS, [6]), (ADV_TYPE_LOCAL_NAME, adv_name mac), (ADV_TYPE_SERVICE_DATA, [0x01, 0xFE]),
       (ADV_TYPE_MANUFACTURER_SPECIFIC,
        [0xF0, 0x05, if client_service cfg then DOORBELL_LP_VERSION else DOORBELL_VERSION])]"
  and "length (adv_data cfg mac) = 29"
proof -
  have d: "adv_data cfg mac = [2, ADV_TYPE_FLAGS, 6] @ (16 # ADV_TYPE_LOCAL_NAME # adv_name mac) @
     [3, ADV_TYPE_SERVICE_DATA, 0x01, 0xFE, 4, ADV_TYPE_MANUFACTURER_SPECIFIC, 0xF0, 0x05,
      if client_service cfg then DOORBELL_LP_VERSION else DOORBELL_VERSION]"
    unfolding adv_data_def adv_name_length by (simp add: adv_defs)
  show "length (adv_data cfg mac) = 29" by (simp add: d adv_name_length)
  show "ad_structures (adv_data cfg mac) =
     Some [(ADV_TYPE_FLAGS, [6]), (ADV_TYPE_LOCAL_NAME, adv_name mac), (ADV_TYPE_SERVICE_DATA, [0x01, 0xFE]),
       (ADV_TYPE_MANUFACTURER_SPECIFIC,
        [0xF0, 0x05, if client_service cfg then DOORBELL_LP_VERSION else DOORBELL_VERSION])]"
    by (simp add: d ad_structures.simps adv_name_length)
qed

section \<open>The edges\<close>

text \<open>
  A string as long as its buffer is accepted without room for its end: every later use of it
  searches beyond the buffer.
\<close>

lemma full_string_loses_end:
  assumes "cs2_record env s = Some k" and "strlen (ck_key k) = Some 0" and "length (ck_key k) < 2 ^ 16"
    and "length data = length (ck_key k)" and "0 \<notin> set data"
  shows "\<exists>s' k'. set_cs2_string env ck_key ck_key_update BOARDING_OP_SET_CS2_KEY (of_nat (length data)) data s =
      Some s' \<and> p2p_cs2_key s' = Some k' \<and> strlen (ck_key k') = None"
proof -
  have "unat (of_nat (length data) :: u16) = length data"
    using assms(3,4) by (simp add: unat_of_nat take_bit_nat_eq_self_iff)
  with assms show ?thesis
    by (simp add: set_cs2_string_def mem_write_def strlen_def)
qed

text \<open>The start appends the key without looking at the room: a long licence overflows its buffer.\<close>

lemma start_overflows:
  assumes "p2p_cs2_key s = Some k" and "\<not> cs2_started k"
    and "length (ck_apilicense k) \<le> length (c_string (ck_apilicense k)) + 1 + length (c_string (ck_key k))"
  shows "cs2_start env s = None"
proof -
  have *: "strcat buf t = None \<or> (\<exists>b. strcat buf t = Some b \<and> length b = length buf \<and>
      c_string b = c_string buf @ t)" if "0 \<notin> set t" for buf t
  proof (cases "0 \<in> set buf \<and> length (c_string buf) + length (t @ [0]) \<le> length buf")
    case True
    then have "take (length (c_string buf)) buf = c_string buf" "0 \<notin> set (c_string buf)"
      by (auto simp: c_string_def takeWhile_eq_take [symmetric] dest: set_takeWhileD)
    with True that show ?thesis
      by (auto simp: strcat_def strlen_def mem_write_def c_string_def takeWhile_append)
  qed (auto simp: strcat_def strlen_def mem_write_def)
  have over: "strcat b t = None" if "length b \<le> length (c_string b) + length t" for b t
    using that by (auto simp: strcat_def strlen_def mem_write_def)
  show ?thesis
  proof (cases "strcat (ck_apilicense k) [58]")
    case (Some b)
    with * [of "[58]" "ck_apilicense k"] have
      "length b = length (ck_apilicense k)" "c_string b = c_string (ck_apilicense k) @ [58]" by auto
    with assms(3) have "strcat b (c_string (ck_key k)) = None" by (intro over) simp
    with Some assms(1,2) show ?thesis by (cases "strlen (ck_key k)") (simp_all add: cs2_start_def)
  qed (use assms(1,2) in \<open>simp add: cs2_start_def\<close>)
qed

text \<open>The length in a packet is believed: a packet shorter than it says is read beyond its end.\<close>

lemma short_packet_overreads:
  assumes "cs2_record env s = Some k" and "strlen (get k) = Some 0" and "unat len \<le> length (get k)"
    and "length data < unat len"
  shows "set_cs2_string env get upd opcode len data s = None"
  using assms by (simp add: set_cs2_string_def)

end
