(* ===== verification/Cp_Boarding_Properties.thy ===== *)
theory Cp_Boarding_Properties
  imports Cp_Boarding Boarding_Properties Hand_Over
begin

text \<open>
  Boarding across the cores, in the build in which the Bluetooth host runs on the control core: what
  the app sends there reaches the application core unchanged.
\<close>

section \<open>Packets\<close>

lemma get16_0 [simp]: "get16 (le16 w @ rest) 0 = w"
  using get16_le16 [of "[]" w rest] by simp

lemma get16_2 [simp]: "get16 (le16 v @ le16 w @ rest) 2 = w"
proof -
  have "length (le16 v) = 2" by (simp add: le16_def)
  then show ?thesis using get16_le16 [of "le16 v" w rest] by (simp only:)
qed

lemma le16_length [simp]: "length (le16 w) = 2"
  by (simp add: le16_def)

lemma u16_of_nat [simp]: "n < 65536 \<Longrightarrow> unat (of_nat n :: u16) = n"
  by (simp add: unat_of_nat take_bit_nat_eq_self_iff)

lemma u16_nonzero: "0 < n \<Longrightarrow> n < 65536 \<Longrightarrow> (of_nat n :: u16) \<noteq> 0"
  by (metis u16_of_nat unat_0 less_irrefl)

lemma whole_c_string: "0 \<notin> set s \<Longrightarrow> c_string s = s"
  by (auto simp: c_string_def takeWhile_eq_all_conv)

text \<open>A string behind its length is read back, and the reader stands behind it.\<close>

lemma bounded_string_back:
  assumes "0 \<notin> set s" and "length s < limit" and "length s < 65536"
  shows "bounded_string limit (pre @ le16 (of_nat (length s)) @ s @ rest) (length pre) =
    Some (s, length pre + 2 + length s)"
  using assms by (simp add: bounded_string_def whole_c_string)

text \<open>The event of the control core has 12 bytes of header before the packet.\<close>

lemma event_payload: "drop 12 (ipc_event_bytes event_id bs) = bs"
  by (simp add: ipc_event_bytes_def le16_def)

definition wifi_bytes :: "u8 list \<Rightarrow> u8 list \<Rightarrow> u8 list" where
  "wifi_bytes ssid password = le16 (of_nat (length ssid)) @ ssid @ le16 (of_nat (length password)) @ password"

lemma station_from_wifi_bytes:
  assumes "0 \<notin> set ssid" and "0 \<notin> set password" and "length ssid < be_ssid_max env"
    and "length password < be_password_max env" and "length ssid < 65536" and "length password < 65536"
    and "be_malloc env"
  shows "station_from_data env (wifi_bytes ssid password) s =
    Some (s\<lparr>bd_ap := snd (doorbell_wifi_sta_connect ssid password (bd_ap s))\<rparr>)"
proof -
  let ?pre = "le16 (of_nat (length ssid)) @ ssid"
  have "bounded_string (be_ssid_max env) (wifi_bytes ssid password) 0 = Some (ssid, 2 + length ssid)"
    using bounded_string_back [of ssid "be_ssid_max env" "[]"] assms by (simp add: wifi_bytes_def)
  moreover have "bounded_string (be_password_max env) (wifi_bytes ssid password) (2 + length ssid) =
      Some (password, 2 + length ssid + 2 + length password)"
    using bounded_string_back [of password "be_password_max env" ?pre "[]"] assms by (simp add: wifi_bytes_def)
  ultimately show ?thesis using assms(7) by (simp add: station_from_data_def)
qed

lemma station_packet_bytes:
  assumes "cmd_len = of_nat (8 + length (cs_ssid i) + length (cs_password i))"
  shows "station_packet opcode cmd_len i =
    le16 opcode @ le16 (of_nat (4 + length (cs_ssid i) + length (cs_password i))) @ wifi_bytes (cs_ssid i) (cs_password i)"
  using assms by (simp add: station_packet_def wifi_bytes_def OPCODE_LEN_def DATA_LEN_LEN_def ac_simps)


definition demo_cp :: cp_core where
  "demo_cp = \<lparr>wakeup_reason = 0, cp_log = [], cc_low_power = True, cc_info = True, cc_enabled = True, cc_thd = True,
     cc_queue = Some [], cc_station = Some \<lparr>cs_ssid = [], cs_password = [], cs_channel = 0\<rparr>, cc_live = [], cc_next = 0, cc_bt = []\<rparr>"

definition demo_ap_boarding :: boarding_env where
  "demo_ap_boarding = demo_boarding_env\<lparr>be_host_only := False\<rparr>"


section \<open>Memory\<close>

text \<open>
  A well-formed message: one that carries a block has one of the two data events and no more length
  than its block, any other closes Bluetooth.
\<close>

definition cp_msg_wf :: "cp_msg \<Rightarrow> bool" where
  "cp_msg_wf m =
     (case cm_data m of
        Some (b, bytes) \<Rightarrow> cm_event m \<in> {CP_DBEVT_DATA_TO_USER, CP_DBEVT_DATA_TO_APK} \<and> unat (cm_len m) \<le> length bytes
      | None \<Rightarrow> cm_event m = CP_DBEVT_CLOSE_BLUETOOTH)"

definition msg_blocks :: "cp_msg list \<Rightarrow> nat list" where
  "msg_blocks q = concat (map (\<lambda>m. case cm_data m of Some (b, _) \<Rightarrow> [b] | None \<Rightarrow> []) q)"

definition queued :: "cp_core \<Rightarrow> cp_msg list" where
  "queued s = (case cc_queue s of None \<Rightarrow> [] | Some q \<Rightarrow> q)"

definition cp_core_wf :: "cp_core \<Rightarrow> bool" where
  "cp_core_wf s \<longleftrightarrow>
     cc_queue s \<noteq> None \<and> list_all cp_msg_wf (queued s) \<and> distinct (msg_blocks (queued s)) \<and>
     set (msg_blocks (queued s)) \<subseteq> set (cc_live s) \<and> distinct (cc_live s) \<and> (\<forall>b \<in> set (cc_live s). b < cc_next s)"

text \<open>The messages that the actions send: a new block, or none.\<close>

lemma msg_blocks_simps [simp]:
  "msg_blocks [] = []"
  "msg_blocks (m # q) = (case cm_data m of Some (b, _) \<Rightarrow> [b] | None \<Rightarrow> []) @ msg_blocks q"
  "msg_blocks (q @ q') = msg_blocks q @ msg_blocks q'"
  by (simp_all add: msg_blocks_def)

lemma send_block_wf:
  assumes "cp_core_wf s" and "ev \<in> {CP_DBEVT_DATA_TO_USER, CP_DBEVT_DATA_TO_APK}" and "unat len \<le> length bs"
  shows "cp_core_wf (send_block ev bs len s)"
proof -
  obtain q where q: "cc_queue s = Some q" using assms(1) by (auto simp: cp_core_wf_def)
  have "cc_next s \<notin> set (cc_live s)" using assms(1) by (auto simp: cp_core_wf_def)
  with assms q show ?thesis
    by (auto simp: cp_core_wf_def queued_def send_block_def cp_send_msg_def Let_def cp_msg_wf_def less_Suc_eq)
qed

lemma packet_out_wf:
  assumes "cp_core_wf s" and "packet_out malloc_ok len bs s = Some s'" and "unat len \<le> length bs"
  shows "cp_core_wf s'"
  using assms send_block_wf [OF assms(1), of CP_DBEVT_DATA_TO_USER len bs]
  by (auto simp: packet_out_def split: if_splits)

lemma close_bluetooth_wf:
  "cp_core_wf s \<Longrightarrow>
    cp_core_wf (snd (cp_send_msg \<lparr>cm_event = CP_DBEVT_CLOSE_BLUETOOTH, cm_data = None, cm_len = l\<rparr> s))"
  by (auto simp: cp_core_wf_def queued_def cp_send_msg_def cp_msg_wf_def split: option.splits)

text \<open>The 16 bits of a length are never more than the length they were made from.\<close>

lemma u16_le: "unat (of_nat n :: u16) \<le> n"
  by (simp add: unat_of_nat take_bit_nat_less_eq_self)

lemma station_packet_length [simp]:
  "length (station_packet opcode l i) = 8 + length (cs_ssid i) + length (cs_password i)"
  by (simp add: station_packet_def)

lemma operation_wf:
  assumes "cp_core_wf s" and "cp_boarding_operation_handle malloc_ok opcode len data s = Some s'"
  shows "cp_core_wf s'"
proof -
  have wf: "cp_core_wf (s\<lparr>cc_station := st\<rparr>)" for st using assms(1) by (simp add: cp_core_wf_def queued_def)
  have out: "cp_core_wf s'" if "packet_out malloc_ok (of_nat n) bs s = Some s'" "length bs = n" for n bs
    using packet_out_wf [OF assms(1) that(1)] u16_le [of n] that(2) by simp
  note lens = OPCODE_LEN_def DATA_LEN_LEN_def SSID_LEN_LEN_def PW_LEN_LEN_def
  consider "opcode = BOARDING_OP_STATION_START" | "opcode = BOARDING_OP_SOFT_AP_START"
    | "opcode \<noteq> BOARDING_OP_STATION_START \<and> opcode \<noteq> BOARDING_OP_SOFT_AP_START" by blast
  then show ?thesis
  proof cases
    case 1
    then show ?thesis using assms(2)
      by (auto simp: cp_boarding_operation_handle_def Let_def lens simp del: of_nat_add split: bind_splits intro!: out)
  next
    case 2
    then show ?thesis using assms(2)
      by (auto simp: cp_boarding_operation_handle_def Let_def lens simp del: of_nat_add split: if_splits bind_splits intro!: out)
  next
    case 3
    then show ?thesis using assms(2) wf close_bluetooth_wf [OF assms(1)]
      by (auto simp: cp_boarding_operation_handle_def Let_def lens simp del: of_nat_add
          split: if_splits bind_splits intro!: out)
  qed
qed

text \<open>Sending an event and a notification leave the memory and the queue alone.\<close>

lemma event_core [simp]:
  "cc_queue (snd (db_ipc_send_event ret ev d len s)) = cc_queue s"
  "cc_live (snd (db_ipc_send_event ret ev d len s)) = cc_live s"
  "cc_next (snd (db_ipc_send_event ret ev d len s)) = cc_next s"
  "cc_queue (snd (cifd_send_cust_event ret ev d len s)) = cc_queue s"
  "cc_live (snd (cifd_send_cust_event ret ev d len s)) = cc_live s"
  "cc_next (snd (cifd_send_cust_event ret ev d len s)) = cc_next s"
  "cc_queue (bt_emit es s) = cc_queue s" "cc_live (bt_emit es s) = cc_live s" "cc_next (bt_emit es s) = cc_next s"
  by (simp_all add: db_ipc_send_event_def cifd_send_cust_event_def cp_emit_def bt_emit_def Let_def)

definition message_done :: "cp_msg \<Rightarrow> cp_core \<Rightarrow> cp_core \<Rightarrow> bool" where
  "message_done m s s' \<longleftrightarrow>
     cc_queue s' = cc_queue s \<and> cc_next s' = cc_next s \<and>
     cc_live s' = (case cm_data m of Some (b, _) \<Rightarrow> if cm_len m = 0 then cc_live s else remove1 b (cc_live s) | None \<Rightarrow> cc_live s)"

text \<open>A well-formed message whose block is allocated is carried out, and its block freed.\<close>

lemma handle_msg_ok:
  assumes "cp_msg_wf m" and "set (msg_blocks [m]) \<subseteq> set (cc_live s)"
  shows "\<exists>s'. cp_handle_msg ret m s = Some (True, s') \<and> message_done m s s'"
  using assms
  by (auto simp: cp_msg_wf_def cp_handle_msg_def message_done_def free_block_def cp_dbevt_defs not_less
      split: option.splits)

lemma core_step_ok:
  assumes "cp_core_wf s" and "cc_queue s = Some (m # q)"
  obtains s' where "cp_core_step ret s = Some s'" and "cp_core_wf s'" and "message_done m (s\<lparr>cc_queue := Some q\<rparr>) s'"
proof -
  have "cp_msg_wf m" "set (msg_blocks [m]) \<subseteq> set (cc_live (s\<lparr>cc_queue := Some q\<rparr>))"
    using assms by (auto simp: cp_core_wf_def queued_def split: option.splits)
  from handle_msg_ok [OF this] obtain s' where
    s': "cp_handle_msg ret m (s\<lparr>cc_queue := Some q\<rparr>) = Some (True, s')" "message_done m (s\<lparr>cc_queue := Some q\<rparr>) s'"
    by blast
  have "cp_core_step ret s = Some s'" using s'(1) assms(2) by (simp add: cp_core_step_def)
  moreover have "cp_core_wf s'"
    using assms s'(2)
    by (auto simp: cp_core_wf_def queued_def message_done_def dest: notin_set_remove1 split: option.splits if_splits)
  ultimately show ?thesis using s'(2) that by blast
qed

lemma cp_do_wf:
  assumes "cp_core_wf s" and "cp_do a s = Some s'"
  shows "cp_core_wf s'"
proof (cases a)
  case (Ble_receives ssid password)
  then show ?thesis using assms by (auto simp: cp_core_wf_def queued_def)
next
  case (Ble_operation malloc_ok opcode len data)
  then show ?thesis using assms operation_wf by simp
next
  case (From_ap malloc_ok payload)
  then show ?thesis
    using assms send_block_wf [OF assms(1), of CP_DBEVT_DATA_TO_APK "of_nat (length payload)" payload]
      u16_le [of "length payload"] by (auto simp: cp_data_to_apk_def split: if_splits)
next
  case (Core_turn ret)
  with assms(2) obtain m q where q: "cc_queue s = Some (m # q)"
    by (auto simp: cp_core_step_def split: option.splits list.splits)
  from core_step_ok [OF assms(1) q, of ret] show ?thesis using Core_turn assms(2) by auto
qed

lemma cp_run_wf: "cp_core_wf s \<Longrightarrow> cp_run as s = Some s' \<Longrightarrow> cp_core_wf s'"
proof (induction as arbitrary: s)
  case (Cons a as)
  then obtain t where "cp_do a s = Some t" "cp_run as t = Some s'" by (auto simp: bind_eq_Some_conv)
  with Cons cp_do_wf show ?case by blast
qed simp

text \<open>
  C17. The messages of the control core stay well formed, and its task never gets stuck on one: it
  only reads inside an allocated block, never frees a block twice and never ends, whatever the
  Bluetooth library and the application core send and whatever allocations fail.
\<close>
theorem control_core_well_formed:
  assumes "cp_core_wf s" and "cp_run as s = Some s'"
  shows "cp_core_wf s' \<and> (\<forall>m q ret. cc_queue s' = Some (m # q) \<longrightarrow> (\<exists>s''. cp_core_step ret s' = Some s''))"
  using cp_run_wf [OF assms] core_step_ok [of s'] by metis

theorem control_core_well_formed_witness:
  "\<exists>s'. cp_run [Ble_receives [1] [2], Ble_operation True BOARDING_OP_STATION_START 0 [], From_ap True [3], Core_turn 0]
      demo_cp = Some s' \<and> cp_core_wf s' \<and> (\<exists>s''. cp_core_step 0 s' = Some s'')"
proof -
  have wf: "cp_core_wf demo_cp" by (simp add: cp_core_wf_def queued_def demo_cp_def)
  obtain s' where s': "cp_run [Ble_receives [1] [2], Ble_operation True BOARDING_OP_STATION_START 0 [], From_ap True [3],
      Core_turn 0] demo_cp = Some s'" and q: "\<exists>m q. cc_queue s' = Some (m # q)"
    by (simp add: demo_cp_def cp_boarding_operation_handle_def packet_out_def send_block_def cp_send_msg_def
        cp_data_to_apk_def cp_core_step_def cp_handle_msg_def Let_def OPCODE_LEN_def DATA_LEN_LEN_def
        SSID_LEN_LEN_def PW_LEN_LEN_def free_block_def)
  from control_core_well_formed [OF wf s'] q s' show ?thesis by blast
qed

text \<open>No leak: every allocated block is in a queued message that will free it.\<close>

definition leak_free :: "cp_core \<Rightarrow> bool" where
  "leak_free s \<longleftrightarrow> cp_core_wf s \<and> set (cc_live s) \<subseteq> set (msg_blocks (queued s)) \<and>
     (\<forall>m \<in> set (queued s). cm_data m \<noteq> None \<longrightarrow> cm_len m \<noteq> 0)"

fun carries_data :: "cp_act \<Rightarrow> bool" where
  "carries_data (From_ap _ payload) \<longleftrightarrow> payload \<noteq> [] \<and> length payload < 65536"
| "carries_data _ \<longleftrightarrow> True"

lemma send_block_leak_free:
  assumes "leak_free s" and "ev \<in> {CP_DBEVT_DATA_TO_USER, CP_DBEVT_DATA_TO_APK}" and "unat len \<le> length bs"
    and "len \<noteq> 0" and "length (queued s) < 30"
  shows "leak_free (send_block ev bs len s)"
proof -
  have "cp_core_wf s" using assms(1) by (simp add: leak_free_def)
  then obtain q where "cc_queue s = Some q" by (auto simp: cp_core_wf_def)
  with assms send_block_wf [OF \<open>cp_core_wf s\<close> assms(2,3)] show ?thesis
    by (auto simp: leak_free_def queued_def send_block_def cp_send_msg_def Let_def)
qed

lemma operation_leak_free:
  assumes "leak_free s" and "cp_boarding_operation_handle malloc_ok opcode len data s = Some s'"
    and "length (queued s) < 30"
  shows "leak_free s'"
proof -
  have core: "cp_core_wf s" using assms(1) by (simp add: leak_free_def)
  have st: "leak_free (s\<lparr>cc_station := st\<rparr>)" for st
    using assms(1) by (simp add: leak_free_def cp_core_wf_def queued_def)
  have cl: "leak_free (snd (cp_send_msg \<lparr>cm_event = CP_DBEVT_CLOSE_BLUETOOTH, cm_data = None, cm_len = l\<rparr> s))" for l
    using assms(1) close_bluetooth_wf [OF core, of l]
    by (auto simp: leak_free_def queued_def cp_send_msg_def split: option.splits)
  have out: "leak_free s'" if "packet_out malloc_ok (of_nat n) bs s = Some s'" "length bs = n" "0 < n" for n bs
  proof (cases malloc_ok)
    case True
    then have "n \<le> unat (of_nat n :: u16)" and s': "s' = send_block CP_DBEVT_DATA_TO_USER bs (of_nat n) s"
      using that by (simp_all add: packet_out_def split: if_splits)
    then have "(of_nat n :: u16) \<noteq> 0" using that(3) by (metis le_zero_eq less_not_refl unat_0)
    with s' u16_le [of n] that(2) assms(1,3) show ?thesis by (auto intro: send_block_leak_free)
  qed (use that assms(1) in \<open>simp add: packet_out_def\<close>)
  note lens = OPCODE_LEN_def DATA_LEN_LEN_def SSID_LEN_LEN_def PW_LEN_LEN_def
  show ?thesis
    using assms(2) st cl
    by (auto simp: cp_boarding_operation_handle_def Let_def lens simp del: of_nat_add
        split: if_splits bind_splits intro!: out)
qed

lemma core_step_leak_free:
  assumes "leak_free s" and "cp_core_step ret s = Some s'"
  shows "leak_free s'"
proof -
  have wf: "cp_core_wf s" using assms(1) by (simp add: leak_free_def)
  from assms(2) obtain m q where q: "cc_queue s = Some (m # q)"
    by (auto simp: cp_core_step_def split: option.splits list.splits)
  obtain t where t: "cp_core_step ret s = Some t" "cp_core_wf t" "message_done m (s\<lparr>cc_queue := Some q\<rparr>) t"
    using core_step_ok [OF wf q] by blast
  have d: "distinct (cc_live s)" using wf by (simp add: cp_core_wf_def)
  have "leak_free t" using assms(1) t(2,3) q d
    by (auto simp: leak_free_def queued_def message_done_def set_remove1_eq split: option.splits)
  with t(1) assms(2) show ?thesis by simp
qed

lemma cp_do_leak_free:
  assumes "leak_free s" and "cp_do a s = Some s'" and "carries_data a" and "length (queued s) < 30"
  shows "leak_free s'"
proof (cases a)
  case (Ble_receives ssid password)
  then show ?thesis using assms by (auto simp: leak_free_def cp_core_wf_def queued_def)
next
  case (Ble_operation malloc_ok opcode len data)
  then show ?thesis using assms operation_leak_free by simp
next
  case (From_ap malloc_ok payload)
  have "(of_nat (length payload) :: u16) \<noteq> 0" if "malloc_ok"
    using From_ap assms(3) u16_nonzero by simp
  with From_ap assms u16_le [of "length payload"] show ?thesis
    by (auto simp: cp_data_to_apk_def intro!: send_block_leak_free split: if_splits)
next
  case (Core_turn ret)
  then show ?thesis using assms core_step_leak_free by simp
qed

lemma cp_run_leak_free:
  assumes "leak_free s" and "cp_run as s = Some s'" and "\<forall>a \<in> set as. carries_data a"
    and "\<forall>n t. cp_run (take n as) s = Some t \<longrightarrow> length (queued t) < 30"
  shows "leak_free s'"
  using assms
proof (induction as arbitrary: s)
  case (Cons a as)
  then obtain t where t: "cp_do a s = Some t" "cp_run as t = Some s'" by (auto simp: bind_eq_Some_conv)
  have "length (queued s) < 30" using spec [OF Cons.prems(4), of 0] by simp
  moreover have "\<forall>n u. cp_run (take n as) t = Some u \<longrightarrow> length (queued u) < 30"
    using Cons.prems(4) t(1) by (metis bind.bind_lunit cp_run.simps(2) take_Suc_Cons)
  ultimately show ?case using Cons.IH [of t] Cons.prems(1,3) t cp_do_leak_free [of s a t] by simp
qed simp

text \<open>The service starts well formed and without a block.\<close>

lemma core_init_leak_free:
  assumes "\<not> cc_info s" and "alloc" and "queue_ok" and "cc_live s = []"
  shows "leak_free (cp_core_init alloc queue_ok thread_ok board_ok mac s)"
  using assms
  by (simp add: cp_core_init_def cp_boarding_init_def leak_free_def cp_core_wf_def queued_def bt_emit_def Let_def)

text \<open>
  C18. As long as the queue of the control core never holds its 30 messages and the application core
  sends no empty notification, no block is lost: once its task has emptied the queue, everything
  that was allocated is freed.
\<close>
theorem control_core_leaks_nothing:
  assumes "leak_free s" and "cp_run as s = Some s'" and "\<forall>a \<in> set as. carries_data a"
    and "\<forall>n t. cp_run (take n as) s = Some t \<longrightarrow> length (queued t) < 30"
  shows "set (cc_live s') = set (msg_blocks (queued s')) \<and> (cc_queue s' = Some [] \<longrightarrow> cc_live s' = [])"
  using cp_run_leak_free [OF assms] by (auto simp: leak_free_def cp_core_wf_def queued_def)

theorem control_core_leaks_nothing_witness:
  "\<exists>s'. cp_run [Ble_receives [1] [2], Ble_operation True BOARDING_OP_STATION_START 0 [], Core_turn 0] demo_cp = Some s' \<and>
     cc_next s' = 1 \<and> cc_live s' = []"
proof -
  let ?as = "[Ble_receives [1] [2], Ble_operation True BOARDING_OP_STATION_START 0 [], Core_turn 0]"
  note run = demo_cp_def cp_boarding_operation_handle_def packet_out_def send_block_def cp_send_msg_def cp_core_step_def
    cp_handle_msg_def Let_def OPCODE_LEN_def DATA_LEN_LEN_def SSID_LEN_LEN_def PW_LEN_LEN_def free_block_def
  have wf: "leak_free demo_cp" by (simp add: leak_free_def cp_core_wf_def queued_def demo_cp_def)
  obtain s' where s': "cp_run ?as demo_cp = Some s'" "cc_queue s' = Some []" "cc_next s' = 1"
    by (simp add: run)
  have "length (queued t) < 30" if "cp_run (take n ?as) demo_cp = Some t" for n t
  proof -
    consider "n = 0" | "n = 1" | "n = 2" | "3 \<le> n" by linarith
    then show ?thesis using that s' by cases (auto simp: run queued_def)
  qed
  with control_core_leaks_nothing [OF wf s'(1)] s' show ?thesis by simp
qed

section \<open>The edges\<close>

text \<open>A message that finds the queue full is lost, and its block stays allocated.\<close>

lemma full_queue_loses_block:
  assumes "cc_queue s = Some q" and "30 \<le> length q"
  shows "cc_queue (send_block ev bs len s) = Some q \<and> cc_live (send_block ev bs len s) = cc_next s # cc_live s"
  using assms by (simp add: send_block_def cp_send_msg_def Let_def)

text \<open>
  An operation of more than 252 bytes is packed and queued, and then not sent: the limit of an
  event is 256 bytes, and nobody looks at the result.
\<close>

lemma long_operation_dropped:
  assumes "cc_queue s = Some (\<lparr>cm_event = CP_DBEVT_DATA_TO_USER, cm_data = Some (b, bs), cm_len = len\<rparr> # q)"
    and "256 < unat len" and "cp_core_step ret s = Some s'"
  shows "cp_log s' = cp_log s \<and> cc_queue s' = Some q"
proof -
  have "len \<noteq> 0" using assms(2) by auto
  with assms show ?thesis
    by (auto simp: cp_core_step_def cp_handle_msg_def cifd_send_cust_event_def db_ipc_send_event_def
        MAX_DB_IPC_MSG_SIZE_def MAX_CIFD_CUST_SIZE_def free_block_def split: if_splits)
qed

end
