(* ===== verification/Audio_Device.thy ===== *)
theory Audio_Device
  imports Ap_Commands
begin

text \<open>
  The audio device, \<^verbatim>\<open>components/smart_lock/src/doorbell_audio_device.c\<close>: a voice engine with a
  reader (microphone to network) and a writer (network to speaker), opened and closed together.

  What the SDK answers is an argument (\<open>audio_env\<close>); the calls that have an effect are logged. The
  configuration has the values the code computes; the SDK's defaults are left out. Speech
  recognition (\<^verbatim>\<open>CONFIG_ASR_SERVICE\<close>) has no code in this file.
\<close>

section \<open>Configuration\<close>

datatype audio_codec = AUDIO_G711A | AUDIO_G711U | AUDIO_PCM

record voice_cfg_t =
  vc_uac :: bool
  vc_mic_rate :: u32
  vc_mic_frame_size :: u32
  vc_out_block_size :: u32
  vc_out_block_num :: u32
  vc_spk_rate :: u32
  vc_spk_frame_size :: u32
  vc_aec_fs :: "u32 option"
  vc_enc_type :: audio_codec
  vc_dec_type :: audio_codec
  vc_enc_buf :: "(u32 \<times> u32) option"
  vc_dec_buf :: "(u32 \<times> u32) option"
  vc_read_pool_size :: u32
  vc_write_pool_size :: u32

definition DB_SAMPLE_RARE_8K :: u32 where "DB_SAMPLE_RARE_8K = 8000"
definition DB_SAMPLE_RARE_16K :: u32 where "DB_SAMPLE_RARE_16K = 16000"
definition CODEC_FORMAT_G711A :: u8 where "CODEC_FORMAT_G711A = 1"
definition CODEC_FORMAT_PCM :: u8 where "CODEC_FORMAT_PCM = 2"
definition CODEC_FORMAT_G711U :: u8 where "CODEC_FORMAT_G711U = 3"

lemmas codec_defs = CODEC_FORMAT_G711A_def CODEC_FORMAT_PCM_def CODEC_FORMAT_G711U_def
  DB_SAMPLE_RARE_8K_def DB_SAMPLE_RARE_16K_def

definition sample_rate :: "u32 \<Rightarrow> u32" where
  "sample_rate r = (if r = DB_SAMPLE_RARE_8K then 8000 else if r = DB_SAMPLE_RARE_16K then 16000 else 8000)"

text \<open>The bytes of 20 ms of 16-bit samples.\<close>

definition frame_20ms :: "u32 \<Rightarrow> u32" where
  "frame_20ms rate = rate * 2 * 20 div 1000"

text \<open>The two buffers of the G711 coders are the buffer and the output block, one half of the other.\<close>

definition voice_config :: "audio_parameters_t \<Rightarrow> voice_cfg_t option" where
  "voice_config p =
     (let mic = sample_rate (aud_recorder_rate p); spk = sample_rate (aud_player_rate p);
          fmt = aud_recoder_fmt p;
          cfg = \<lparr>vc_uac = (aud_uac p = 1), vc_mic_rate = mic, vc_mic_frame_size = frame_20ms mic,
                  vc_out_block_size = frame_20ms mic, vc_out_block_num = 2, vc_spk_rate = spk,
                  vc_spk_frame_size = frame_20ms spk, vc_aec_fs = (if aud_aec p = 1 then Some mic else None),
                  vc_enc_type = AUDIO_PCM, vc_dec_type = AUDIO_PCM, vc_enc_buf = None, vc_dec_buf = None,
                  vc_read_pool_size = frame_20ms mic, vc_write_pool_size = frame_20ms spk\<rparr> in
      if fmt = CODEC_FORMAT_G711A \<or> fmt = CODEC_FORMAT_G711U then
        (let codec = (if fmt = CODEC_FORMAT_G711A then AUDIO_G711A else AUDIO_G711U);
             enc = frame_20ms mic; dec = drop_bit 1 (frame_20ms spk) in
         Some (cfg\<lparr>vc_enc_type := codec, vc_dec_type := codec,
                   vc_enc_buf := Some (enc, drop_bit 1 enc), vc_dec_buf := Some (dec, frame_20ms spk),
                   vc_read_pool_size := drop_bit 1 enc, vc_write_pool_size := dec\<rparr>))
      else if fmt = CODEC_FORMAT_PCM then Some cfg
      else None)"

section \<open>State\<close>

record db_audio_device_info_t =
  audio_enable :: bool
  voice_handle :: "nat option"
  voice_read_handle :: "nat option"
  voice_write_handle :: "nat option"

datatype voice_part = Voice | Voice_read | Voice_write

datatype audio_call =
    Voice_config voice_cfg_t | Part_init voice_part nat | Part_start voice_part nat
  | Part_stop voice_part nat | Part_deinit voice_part nat
  | Audio_chan_start | Audio_chan_stop | Audio_send "u8 list" nat | Audio_write "nat option" "u8 list"

record audio_state =
  gl_db_audio_device_info :: "db_audio_device_info_t option"
  au_log :: "audio_call list"

definition au_emit :: "audio_call list \<Rightarrow> audio_state \<Rightarrow> audio_state" where
  "au_emit cs s = s\<lparr>au_log := au_log s @ cs\<rparr>"

definition set_audio :: "db_audio_device_info_t \<Rightarrow> audio_state \<Rightarrow> audio_state" where
  "set_audio i s = s\<lparr>gl_db_audio_device_info := Some i\<rparr>"

text \<open>\<open>ae_service\<close> is the name of the network service that runs.\<close>

record audio_env =
  ae_voice :: "nat option"
  ae_read :: "nat option"
  ae_write :: "nat option"
  ae_start :: bk_err_t
  ae_read_start :: bk_err_t
  ae_write_start :: bk_err_t
  ae_service :: "u8 list option"

section \<open>Opening and closing\<close>

text \<open>
  What turning off and the label \<^verbatim>\<open>error\<close> share: stop the three parts, release them, forget them.
\<close>

definition part_calls :: "(voice_part \<Rightarrow> nat \<Rightarrow> audio_call) \<Rightarrow> db_audio_device_info_t \<Rightarrow> audio_call list" where
  "part_calls c i =
     (case voice_read_handle i of None \<Rightarrow> [] | Some h \<Rightarrow> [c Voice_read h]) @
     (case voice_write_handle i of None \<Rightarrow> [] | Some h \<Rightarrow> [c Voice_write h]) @
     (case voice_handle i of None \<Rightarrow> [] | Some h \<Rightarrow> [c Voice h])"

definition release_parts :: "db_audio_device_info_t \<Rightarrow> audio_state \<Rightarrow> audio_state" where
  "release_parts i s =
     set_audio (i\<lparr>voice_read_handle := None, voice_write_handle := None, voice_handle := None\<rparr>)
       (au_emit (part_calls Part_stop i @ part_calls Part_deinit i) s)"

text \<open>
  Opening the three parts up to the first that fails: whether all went well, the handles and the
  calls.
\<close>

definition open_parts ::
    "audio_env \<Rightarrow> voice_cfg_t \<Rightarrow> db_audio_device_info_t \<Rightarrow> bool \<times> db_audio_device_info_t \<times> audio_call list" where
  "open_parts env cfg i =
     (let i = i\<lparr>voice_handle := ae_voice env\<rparr> in
      case ae_voice env of
        None \<Rightarrow> (False, i, [Voice_config cfg])
      | Some v \<Rightarrow>
          (let i = i\<lparr>voice_read_handle := ae_read env\<rparr>; cs = [Voice_config cfg, Part_init Voice v] in
           case ae_read env of
             None \<Rightarrow> (False, i, cs)
           | Some r \<Rightarrow>
               (let i = i\<lparr>voice_write_handle := ae_write env\<rparr>; cs = cs @ [Part_init Voice_read r] in
                case ae_write env of
                  None \<Rightarrow> (False, i, cs)
                | Some w \<Rightarrow>
                    (let cs = cs @ [Part_init Voice_write w, Part_start Voice v] in
                     if ae_start env \<noteq> BK_OK then (False, i, cs)
                     else (let cs = cs @ [Part_start Voice_read r] in
                       if ae_read_start env \<noteq> BK_OK then (False, i, cs)
                       else (ae_write_start env = BK_OK, i, cs @ [Part_start Voice_write w]))))))"

definition doorbell_audio_turn_on ::
    "audio_env \<Rightarrow> audio_parameters_t \<Rightarrow> audio_state \<Rightarrow> (bk_err_t \<times> audio_state) option" where
  "doorbell_audio_turn_on env p s = do {
     i \<leftarrow> gl_db_audio_device_info s;
     (if audio_enable i then Some (BK_FAIL, s)
      else (case voice_config p of
         None \<Rightarrow> Some (BK_FAIL, release_parts i s)
       | Some cfg \<Rightarrow>
           (let (ok, i, cs) = open_parts env cfg i; s = au_emit cs (set_audio i s) in
            if \<not> ok then Some (BK_FAIL, release_parts i s)
            else
              (let s = set_audio (i\<lparr>audio_enable := True\<rparr>) s in
               case ae_service env of
                 None \<Rightarrow> Some (BK_FAIL, s)
               | Some name \<Rightarrow>
                   Some (BK_OK, if name = ascii ''cs2_service'' then au_emit [Audio_chan_start] s else s)))))
   }"

definition doorbell_audio_turn_off :: "audio_env \<Rightarrow> audio_state \<Rightarrow> (bk_err_t \<times> audio_state) option" where
  "doorbell_audio_turn_off env s = do {
     i \<leftarrow> gl_db_audio_device_info s;
     (if \<not> audio_enable i then Some (BK_FAIL, s)
      else
        (let i = i\<lparr>audio_enable := False\<rparr>; s = set_audio i s in
         case ae_service env of
           None \<Rightarrow> Some (BK_FAIL, s)
         | Some name \<Rightarrow>
             (let s = (if name = ascii ''cs2_service'' then au_emit [Audio_chan_stop] s else s)
              in Some (BK_OK, release_parts i s))))
   }"

section \<open>Data and events\<close>

text \<open>\<open>args\<close> is the encoding the reader passes, if any.\<close>

definition doorbell_voice_send_callback :: "u8 list \<Rightarrow> nat option \<Rightarrow> audio_state \<Rightarrow> audio_state" where
  "doorbell_voice_send_callback data args s =
     au_emit [Audio_send data (case args of None \<Rightarrow> 0 | Some enc \<Rightarrow> enc)] s"

definition doorbell_audio_data_callback :: "u8 list \<Rightarrow> audio_state \<Rightarrow> audio_state option" where
  "doorbell_audio_data_callback data s = do {
     i \<leftarrow> gl_db_audio_device_info s;
     Some (if audio_enable i then au_emit [Audio_write (voice_write_handle i) data] s else s)
   }"

text \<open>What the network service calls with sound for the speaker.\<close>

definition doorbell_bk_net_audio_recv :: "u8 list \<Rightarrow> audio_state \<Rightarrow> (bk_err_t \<times> audio_state) option" where
  "doorbell_bk_net_audio_recv data s = map_option (Pair BK_OK) (doorbell_audio_data_callback data s)"

definition DBEVT_VOICE_EVENT :: u32 where "DBEVT_VOICE_EVENT = 19"

text \<open>
  \<open>reported\<close> tells whether the event is one of the four that are passed on. The function is not
  registered with the engine.
\<close>

definition doorbell_audio_event_handle :: "bool \<Rightarrow> u32 \<Rightarrow> ap_state \<Rightarrow> bk_err_t \<times> ap_state" where
  "doorbell_audio_event_handle reported event st =
     (BK_OK, if reported then snd (doorbell_send_msg \<lparr>msg_event = DBEVT_VOICE_EVENT, msg_param = event\<rparr> st) else st)"

definition doorbell_audio_acoustics :: "u32 \<Rightarrow> u32 \<Rightarrow> int" where
  "doorbell_audio_acoustics index param = -1"

definition audio_info_zero :: db_audio_device_info_t where
  "audio_info_zero = \<lparr>audio_enable = False, voice_handle = None, voice_read_handle = None, voice_write_handle = None\<rparr>"

definition doorbell_audio_device_init :: "bool \<Rightarrow> audio_state \<Rightarrow> bk_err_t \<times> audio_state" where
  "doorbell_audio_device_init malloc_ok s =
     (if gl_db_audio_device_info s = None \<and> \<not> malloc_ok then (BK_FAIL, s)
      else (BK_OK, set_audio audio_info_zero s))"

definition doorbell_audio_device_deinit :: "audio_state \<Rightarrow> audio_state" where
  "doorbell_audio_device_deinit s = s\<lparr>gl_db_audio_device_info := None\<rparr>"

section \<open>The device as a whole\<close>

datatype audio_act = Turn_on audio_env audio_parameters_t | Turn_off audio_env | Data "u8 list" | Sent "u8 list" "nat option"

fun audio_do :: "audio_act \<Rightarrow> audio_state \<Rightarrow> audio_state option" where
  "audio_do (Turn_on env p) s = map_option snd (doorbell_audio_turn_on env p s)"
| "audio_do (Turn_off env) s = map_option snd (doorbell_audio_turn_off env s)"
| "audio_do (Data bs) s = doorbell_audio_data_callback bs s"
| "audio_do (Sent bs enc) s = Some (doorbell_voice_send_callback bs enc s)"

fun audio_run :: "audio_act list \<Rightarrow> audio_state \<Rightarrow> audio_state option" where
  "audio_run [] s = Some s"
| "audio_run (a # as) s = Option.bind (audio_do a s) (audio_run as)"

end
