(* ===== verification/Audio_Device_Properties.thy ===== *)
theory Audio_Device_Properties
  imports Audio_Device "HOL-Library.Multiset"
begin

text \<open>
  The three parts of the audio device are open together or not at all, and what the device does
  when no network service is known.
\<close>

section \<open>Which parts are open\<close>

text \<open>The parts the SDK has given out and not got back, from the log of calls.\<close>

definition open_step :: "(voice_part \<times> nat) multiset \<Rightarrow> audio_call \<Rightarrow> (voice_part \<times> nat) multiset" where
  "open_step m c = (case c of
     Part_init p h \<Rightarrow> add_mset (p, h) m
   | Part_deinit p h \<Rightarrow> m - {#(p, h)#}
   | _ \<Rightarrow> m)"

definition opened :: "audio_call list \<Rightarrow> (voice_part \<times> nat) multiset" where
  "opened cs = foldl open_step {#} cs"

definition part :: "voice_part \<Rightarrow> nat option \<Rightarrow> (voice_part \<times> nat) multiset" where
  "part p h = (case h of None \<Rightarrow> {#} | Some h \<Rightarrow> {#(p, h)#})"

definition handles :: "db_audio_device_info_t \<Rightarrow> (voice_part \<times> nat) multiset" where
  "handles i = part Voice (voice_handle i) + part Voice_read (voice_read_handle i) + part Voice_write (voice_write_handle i)"

definition audio_inv :: "audio_state \<Rightarrow> bool" where
  "audio_inv s \<longleftrightarrow> (\<exists>i. gl_db_audio_device_info s = Some i \<and> opened (au_log s) = handles i \<and>
     (if audio_enable i
      then voice_handle i \<noteq> None \<and> voice_read_handle i \<noteq> None \<and> voice_write_handle i \<noteq> None
      else voice_handle i = None \<and> voice_read_handle i = None \<and> voice_write_handle i = None))"

lemma handles_enable [simp]: "handles (i\<lparr>audio_enable := b\<rparr>) = handles i"
  by (simp add: handles_def)

lemma opened_append: "opened (as @ bs) = foldl open_step (opened as) bs"
  by (simp add: opened_def)

lemma opened_release:
  assumes "m = handles i"
  shows "foldl open_step m (part_calls Part_stop i @ part_calls Part_deinit i) = {#}"
  using assms
  by (auto simp: part_calls_def handles_def part_def open_step_def split: option.splits)

lemma release_parts_inv:
  assumes "opened (au_log s) = handles i" and "\<not> audio_enable i"
  shows "audio_inv (release_parts i s)"
  using opened_release [OF assms(1)] assms(2)
  by (simp add: audio_inv_def release_parts_def set_audio_def au_emit_def opened_append handles_def part_def)

lemma open_parts_handles:
  assumes "open_parts env cfg i = (ok, i', cs)"
    and "voice_handle i = None" "voice_read_handle i = None" "voice_write_handle i = None"
  shows "foldl open_step {#} cs = handles i' \<and> audio_enable i' = audio_enable i \<and>
    (ok \<longrightarrow> voice_handle i' \<noteq> None \<and> voice_read_handle i' \<noteq> None \<and> voice_write_handle i' \<noteq> None)"
  using assms
  by (auto simp: open_parts_def handles_def part_def open_step_def Let_def split: option.splits if_splits)

definition service_known :: "audio_act \<Rightarrow> bool" where
  "service_known a = (case a of Turn_off env \<Rightarrow> ae_service env \<noteq> None | _ \<Rightarrow> True)"

lemma turn_on_inv:
  assumes "audio_inv s" and "doorbell_audio_turn_on env p s = Some (ret, s')"
  shows "audio_inv s'"
proof -
  from assms(1) obtain i where i: "gl_db_audio_device_info s = Some i" "opened (au_log s) = handles i"
    by (auto simp: audio_inv_def)
  show ?thesis
  proof (cases "audio_enable i")
    case True
    with assms i show ?thesis by (simp add: doorbell_audio_turn_on_def)
  next
    case False
    with assms(1) i have none: "voice_handle i = None" "voice_read_handle i = None" "voice_write_handle i = None"
      by (auto simp: audio_inv_def)
    show ?thesis
    proof (cases "voice_config p")
      case None
      with assms(2) i False release_parts_inv [OF i(2) False] show ?thesis
        by (simp add: doorbell_audio_turn_on_def)
    next
      case (Some cfg)
      obtain ok i' cs where op: "open_parts env cfg i = (ok, i', cs)" by (cases "open_parts env cfg i")
      note h = open_parts_handles [OF op none]
      let ?s = "au_emit cs (set_audio i' s)"
      have open_now: "opened (au_log ?s) = handles i'"
        using h i(2) none by (simp add: au_emit_def set_audio_def opened_append handles_def part_def)
      show ?thesis
      proof (cases ok)
        case True
        let ?on = "set_audio (i'\<lparr>audio_enable := True\<rparr>) ?s"
        have "s' = ?on \<or> s' = au_emit [Audio_chan_start] ?on"
          using assms(2) i(1) False Some op True
          by (auto simp: doorbell_audio_turn_on_def Let_def split: option.splits if_splits)
        moreover have inv: "audio_inv t" if "gl_db_audio_device_info t = Some (i'\<lparr>audio_enable := True\<rparr>)"
          "opened (au_log t) = handles i'" for t
          using that h True by (simp add: audio_inv_def)
        have "audio_inv ?on"
          by (rule inv) (use open_now in \<open>simp_all add: set_audio_def\<close>)
        moreover have "audio_inv (au_emit [Audio_chan_start] ?on)"
          by (rule inv) (use open_now in \<open>simp_all add: set_audio_def au_emit_def opened_append open_step_def\<close>)
        ultimately show ?thesis by auto
      next
        case fail: False
        with release_parts_inv [OF open_now] assms(2) i(1) False Some op h show ?thesis
          by (simp add: doorbell_audio_turn_on_def)
      qed
    qed
  qed
qed

lemma turn_off_inv:
  assumes "audio_inv s" and "doorbell_audio_turn_off env s = Some (ret, s')" and "ae_service env \<noteq> None"
  shows "audio_inv s'"
proof -
  from assms(1) obtain i where i: "gl_db_audio_device_info s = Some i" "opened (au_log s) = handles i"
    by (auto simp: audio_inv_def)
  show ?thesis
  proof (cases "audio_enable i")
    case False
    with assms i show ?thesis by (simp add: doorbell_audio_turn_off_def)
  next
    case True
    let ?i = "i\<lparr>audio_enable := False\<rparr>"
    have "opened (au_log (set_audio ?i s)) = handles ?i" "opened (au_log (au_emit [Audio_chan_stop] (set_audio ?i s))) = handles ?i"
      using i by (simp_all add: set_audio_def au_emit_def opened_append open_step_def handles_def)
    then have "audio_inv (release_parts ?i (set_audio ?i s))"
      "audio_inv (release_parts ?i (au_emit [Audio_chan_stop] (set_audio ?i s)))"
      by (auto intro: release_parts_inv)
    with assms(2,3) True i show ?thesis
      by (auto simp: doorbell_audio_turn_off_def Let_def split: if_splits)
  qed
qed

lemma audio_do_inv:
  assumes "audio_inv s" and "audio_do a s = Some s'" and "service_known a"
  shows "audio_inv s'"
proof (cases a)
  case (Turn_on env p)
  with assms turn_on_inv show ?thesis by auto
next
  case (Turn_off env)
  with assms turn_off_inv show ?thesis by (auto simp: service_known_def)
qed (use assms in \<open>auto simp: doorbell_audio_data_callback_def doorbell_voice_send_callback_def audio_inv_def
      au_emit_def opened_append open_step_def split: Option.bind_splits if_splits\<close>)


definition demo_audio_env :: "nat option \<Rightarrow> audio_env" where
  "demo_audio_env w = \<lparr>ae_voice = Some 1, ae_read = Some 2, ae_write = w, ae_start = BK_OK, ae_read_start = BK_OK,
     ae_write_start = BK_OK, ae_service = Some (ascii ''tcp_service'')\<rparr>"

definition demo_audio_params :: audio_parameters_t where
  "demo_audio_params = \<lparr>aud_aec = 1, aud_uac = 0, aud_recorder_rate = 8000, aud_player_rate = 8000,
     aud_recoder_fmt = 1, aud_player_fmt = 1\<rparr>"


section \<open>The edges\<close>

text \<open>
  Turned off while no network service is known, the device calls itself off and leaves its three
  parts running; turned on again, it opens three more and loses the first.
\<close>

lemma off_without_service_leaks:
  assumes "gl_db_audio_device_info s = Some i" and "audio_enable i" and "ae_service env = None"
  shows "\<exists>s'. doorbell_audio_turn_off env s = Some (BK_FAIL, s') \<and> au_log s' = au_log s \<and>
    gl_db_audio_device_info s' = Some (i\<lparr>audio_enable := False\<rparr>)"
  using assms by (simp add: doorbell_audio_turn_off_def set_audio_def)

text \<open>
  Turned on while no network service is known, the device answers a failure and is on.
\<close>

lemma on_without_service_runs:
  assumes "gl_db_audio_device_info s = Some i" and "\<not> audio_enable i" and "ae_service env = None"
    and "voice_config p = Some cfg" and "open_parts env cfg i = (True, i', cs)"
  shows "\<exists>s'. doorbell_audio_turn_on env p s = Some (BK_FAIL, s') \<and>
    gl_db_audio_device_info s' = Some (i'\<lparr>audio_enable := True\<rparr>)"
  using assms by (simp add: doorbell_audio_turn_on_def set_audio_def au_emit_def)

text \<open>The format of the player is never read: the decoder follows the recorder's.\<close>

lemma player_format_ignored: "voice_config (p\<lparr>aud_player_fmt := f\<rparr>) = voice_config p"
  by (simp add: voice_config_def)

end
