(* ===== verification/Command_Session.thy ===== *)
theory Command_Session
  imports Device_Session Audio_Device_Properties Ap_Devices
begin

text \<open>
  The application core with its devices: Ap_Core logs the calls of devices it makes and is told
  what they answer; here the calls are carried out on the models of the devices, and the answers are
  theirs. What ties them together are the votes: a device that is on has to keep the core from
  being powered down.
\<close>

section \<open>State\<close>

record session =
  ss_ap :: ap_state
  ss_dev :: dev_state
  ss_audio :: audio_state
  ss_calls :: "(ap_event \<times> bool) list"

record session_env =
  se_dev :: dev_env
  se_audio :: audio_env

text \<open>The display calls answer \<^verbatim>\<open>BK_OK\<close> or the status of a command, and both are zero.\<close>

definition dev_ret_ok :: "dev_ret \<Rightarrow> bool" where
  "dev_ret_ok r \<longleftrightarrow> r = Evt_ok \<or> r = Ret BK_OK"

section \<open>Carrying out a call\<close>

text \<open>The result is whether the call answers zero; the other numbers are the SDK's.\<close>

fun device_call ::
    "session_env \<Rightarrow> ap_event \<Rightarrow> dev_state \<times> audio_state \<Rightarrow> (bool \<times> dev_state \<times> audio_state) option" where
  "device_call e (Ap_Platform.Camera_on p) (d, u) =
     map_option (\<lambda>(r, d). (r = BK_OK, d, u)) (doorbell_camera_turn_on (se_dev e) p d)"
| "device_call e Ap_Platform.Camera_off (d, u) =
     map_option (\<lambda>(r, d). (r = BK_OK, d, u)) (doorbell_camera_turn_off (se_dev e) d)"
| "device_call e Video_transfer_on (d, u) =
     map_option (\<lambda>(r, d). (r = BK_OK, d, u)) (doorbell_video_transfer_turn_on (se_dev e) d)"
| "device_call e Video_transfer_off (d, u) =
     map_option (\<lambda>(r, d). (r = BK_OK, d, u)) (doorbell_video_transfer_turn_off (se_dev e) d)"
| "device_call e (Ap_Platform.Display_on p) (d, u) =
     map_option (\<lambda>(r, d). (dev_ret_ok r, d, u)) (doorbell_display_turn_on (se_dev e) p d)"
| "device_call e Ap_Platform.Display_off (d, u) =
     map_option (\<lambda>(r, d). (dev_ret_ok r, d, u)) (doorbell_display_turn_off (se_dev e) d)"
| "device_call e (Audio_on p) (d, u) =
     map_option (\<lambda>(r, u). (r = BK_OK, d, u)) (doorbell_audio_turn_on (se_audio e) p u)"
| "device_call e Audio_off (d, u) =
     map_option (\<lambda>(r, u). (r = BK_OK, d, u)) (doorbell_audio_turn_off (se_audio e) u)"
| "device_call e c v = Some (True, v)"

fun device_calls ::
    "session_env \<Rightarrow> ap_event list \<Rightarrow> dev_state \<times> audio_state \<Rightarrow> (bool list \<times> dev_state \<times> audio_state) option" where
  "device_calls e [] v = Some ([], v)"
| "device_calls e (c # cs) v = do {
     (r, v) \<leftarrow> device_call e c v;
     (rs, v) \<leftarrow> device_calls e cs v;
     Some (r # rs, v)
   }"

text \<open>
  What a \<open>dev_answer\<close> says about a call, and when it says what the devices answered. The answers of
  the transfer are not looked at.
\<close>

fun claims :: "dev_answer \<Rightarrow> ap_event \<Rightarrow> bool \<Rightarrow> bool" where
  "claims an (Ap_Platform.Camera_on p) ok = (ret_ok (dv_camera_on an) = ok)"
| "claims an Ap_Platform.Camera_off ok = (ret_ok (dv_camera_off an) = ok)"
| "claims an (Audio_on p) ok = (ret_ok (dv_audio_on an) = ok)"
| "claims an Audio_off ok = (ret_ok (dv_audio_off an) = ok)"
| "claims an (Ap_Platform.Display_on p) ok = (ret_ok (dv_display_on an) = ok)"
| "claims an Ap_Platform.Display_off ok = (ret_ok (dv_display_off an) = ok)"
| "claims an _ ok = True"

fun truthful :: "dev_answer option \<Rightarrow> ap_event list \<Rightarrow> bool list \<Rightarrow> bool" where
  "truthful None cs rs = True"
| "truthful (Some an) cs rs = list_all2 (claims an) cs rs"

section \<open>Actions\<close>

text \<open>
  An action of the core with what it makes the devices do, a message from another part of the program,
  a turn of the tasks of the display and the transfer, and sound from and to the network. An action whose answers are not those of the devices has
  no result.
\<close>

datatype session_act =
    Core ap_act
  | Post doorbell_msg_t
  | Tasks "yuv_action list" "trans_action list"
  | Sound_in "u8 list"
  | Sound_out "u8 list" "nat option"

definition run_tasks :: "yuv_action list \<Rightarrow> trans_action list \<Rightarrow> dev_state \<Rightarrow> dev_state option" where
  "run_tasks ys ts d = do {
     y \<leftarrow> yuv_run ys (dv_yuv d);
     let d = d\<lparr>dv_yuv := y\<rparr>;
     t \<leftarrow> trans_run ts ((dv_trans d)\<lparr>vt_fq := dv_fq d\<rparr>);
     Some (set_fq (vt_fq t) (d\<lparr>dv_trans := t\<rparr>))
   }"

definition core_do :: "ap_config \<Rightarrow> session_env \<Rightarrow> ap_act \<Rightarrow> session \<Rightarrow> session option" where
  "core_do cfg e a s = do {
     st \<leftarrow> ap_do cfg a (ss_ap s);
     let cs = new_calls (ss_ap s) st;
     (rs, d, u) \<leftarrow> device_calls e cs (ss_dev s, ss_audio s);
     (if truthful (answers_of a) cs rs
      then Some \<lparr>ss_ap = st, ss_dev = d, ss_audio = u, ss_calls = ss_calls s @ zip cs rs\<rparr>
      else None)
   }"

fun session_do :: "ap_config \<Rightarrow> session_env \<Rightarrow> session_act \<Rightarrow> session \<Rightarrow> session option" where
  "session_do cfg e (Core a) s = core_do cfg e a s"
| "session_do cfg e (Post m) s = Some (s\<lparr>ss_ap := snd (doorbell_send_msg m (ss_ap s))\<rparr>)"
| "session_do cfg e (Tasks ys ts) s = map_option (\<lambda>d. s\<lparr>ss_dev := d\<rparr>) (run_tasks ys ts (ss_dev s))"
| "session_do cfg e (Sound_in bs) s =
     map_option (\<lambda>(_, u). s\<lparr>ss_audio := u\<rparr>) (doorbell_bk_net_audio_recv bs (ss_audio s))"
| "session_do cfg e (Sound_out bs enc) s = Some (s\<lparr>ss_audio := doorbell_voice_send_callback bs enc (ss_audio s)\<rparr>)"

fun session_run :: "ap_config \<Rightarrow> (session_env \<times> session_act) list \<Rightarrow> session \<Rightarrow> session option" where
  "session_run cfg [] s = Some s"
| "session_run cfg ((e, a) # as) s = Option.bind (session_do cfg e a s) (session_run cfg as)"

text \<open>After the core and its devices are initialised.\<close>

definition session_start :: "flash \<Rightarrow> dev_state \<Rightarrow> audio_state \<Rightarrow> session" where
  "session_start f d u = \<lparr>ss_ap = ap_boot f, ss_dev = d, ss_audio = u, ss_calls = []\<rparr>"

end
