(* ===== verification/Command_Session_Properties.thy ===== *)
theory Command_Session_Properties
  imports Command_Session
begin

text \<open>
  What is on has its vote: over any actions of the core, with its devices answering, the votes
  say at least what is on, so that the core asks to be powered down only with its devices off. The
  one exception is a camera whose turning on was answered with an error; the last section has it, and
  votes that stay without a device.
\<close>

section \<open>What is in use\<close>

definition shown :: "dev_state \<Rightarrow> bool" where
  "shown d \<longleftrightarrow> (\<exists>h t x l. info_view d = Some (h, t, Some x, l))"

lemma shown_info: "db_device_info d = Some i \<Longrightarrow> shown d \<longleftrightarrow> display_ctlr_handle i \<noteq> None"
  by (auto simp: shown_def info_view_Some)

lemma view_shown: "dev_view d' = dev_view d \<Longrightarrow> shown d' = shown d"
  by (simp add: dev_view_def shown_def)

lemma inv_info: "dev_inv d \<Longrightarrow> \<exists>i. db_device_info d = Some i"
  by (cases "db_device_info d") (auto simp: dev_inv_def dev_view_def info_view_def)

subsection \<open>Camera\<close>

lemma open_camera_shown:
  assumes "open_camera env p (i0\<lparr>transfer_format := f\<rparr>) d = (i, d')" and "db_device_info d = Some i0"
  shows "display_ctlr_handle i = display_ctlr_handle i0 \<and> db_device_info d' = Some i \<and> shown d' = shown d"
  using assms
  by (auto simp: open_camera_def set_info_def shown_def info_view_def Let_def split: if_splits prod.splits)

lemma project_open_shown:
  assumes "project_camera_open env p d = Some (r, d')" and "db_device_info d = Some i"
  shows "shown d' = shown d"
  using assms
  by (auto simp: project_camera_open_def doorbell_camera_open_def doorviewer_camera_open_def
      split: if_splits bind_splits prod.splits dest!: encoder_view decode_open_view view_shown
      dest: open_camera_shown)

lemma camera_on_use:
  assumes "dev_inv d" and "doorbell_camera_turn_on env p d = Some (r, d')"
  shows "shown d' = shown d \<and> (r = BK_OK \<longrightarrow> camera_in_use d') \<and> (camera_in_use d \<longrightarrow> r = BK_OK)"
proof -
  obtain i where i: "db_device_info d = Some i" using inv_info [OF assms(1)] by blast
  show ?thesis
  proof (cases "di_handle i")
    case (Some h)
    then show ?thesis using assms(2) i in_use_info [OF i] by (simp add: doorbell_camera_turn_on_def)
  next
    case None
    obtain r1 q where q: "frame_queue_v2_init_all (de_queues env) (dv_fq (dev_emit [Bluetooth_deinit] d)) = (r1, q)"
      by fastforce
    define d1 where "d1 = set_fq q (dev_emit [Bluetooth_deinit] d)"
    have v: "dev_view d1 = dev_view d" "db_device_info d1 = Some i" "dev_inv d1"
      using i assms(1) view_inv [of d1 d] by (simp_all add: d1_def)
    show ?thesis
    proof (cases "r1 = BK_OK")
      case False
      then show ?thesis using assms(2) i None q v view_shown [of d1 d] in_use_info [OF i]
        by (auto simp: doorbell_camera_turn_on_def d1_def)
    next
      case True
      with assms(2) i None q obtain r2 d2 where o: "project_camera_open env p d1 = Some (r2, d2)"
        and d': "d' = (if r2 \<noteq> BK_OK then d2 else dev_emit [Flash_notify True] d2)" and r: "r = r2"
        by (auto simp: doorbell_camera_turn_on_def d1_def split: bind_splits if_splits)
      have "r2 = BK_OK \<longrightarrow> camera_in_use d2"
        using o doorbell_open_inv [OF v(3,2) None] doorviewer_open_inv [OF v(3,2) None]
        by (auto simp: project_camera_open_def split: if_splits)
      moreover have "shown d2 = shown d" using project_open_shown [OF o v(2)] view_shown [OF v(1)] by simp
      ultimately show ?thesis using d' r None in_use_info [OF i]
        by (simp add: shown_def camera_in_use_def)
    qed
  qed
qed

lemma camera_off_use:
  assumes "dev_inv d" and "doorbell_camera_turn_off env d = Some (r, d')"
  shows "shown d' = shown d \<and> camera_in_use d' = (r \<noteq> BK_OK) \<and> (camera_in_use d' \<longrightarrow> camera_in_use d)"
proof -
  obtain i where i: "db_device_info d = Some i" using inv_info [OF assms(1)] by blast
  show ?thesis
  proof (cases "di_handle i = None")
    case True
    then show ?thesis using assms(2) i in_use_info [OF i] by (simp add: doorbell_camera_turn_off_def)
  next
    case False
    with assms(2) i obtain r1 d1 where c: "project_camera_close env d = Some (r1, d1)"
      by (auto simp: doorbell_camera_turn_off_def split: bind_splits)
    have v1: "info_view d1 = info_view d"
      using c by (auto simp: project_camera_close_def doorbell_camera_close_def doorviewer_camera_close_def Let_def
          dest!: unregister_view view_parts split: if_splits bind_splits option.splits prod.splits)
    show ?thesis
    proof (cases "r1 = BK_OK")
      case r1: False
      then show ?thesis using assms(2) i False c v1 in_use_info [OF i]
        by (auto simp: doorbell_camera_turn_off_def shown_def camera_in_use_def)
    next
      case r1: True
      from assms(2) i False c r1 obtain i1 where i1: "db_device_info d1 = Some i1" and r: "r = BK_OK"
        and v: "info_view d' = info_view (set_info (i1\<lparr>di_handle := None\<rparr>) (dev_emit [Flash_notify False] d1))"
        by (auto simp: doorbell_camera_turn_off_def Let_def dest!: clear_view view_parts split: bind_splits if_splits)
      from v1 have "display_ctlr_handle i1 = display_ctlr_handle i" using i i1 by (simp add: info_view_Some)
      with v r show ?thesis by (simp add: shown_def camera_in_use_def info_view_Some [OF i])
    qed
  qed
qed

lemma transfer_use:
  "doorbell_video_transfer_turn_on env d = Some (r, d') \<Longrightarrow> shown d' = shown d \<and> camera_in_use d' = camera_in_use d"
  "doorbell_video_transfer_turn_off env d = Some (r, d') \<Longrightarrow> shown d' = shown d \<and> camera_in_use d' = camera_in_use d"
  using transfer_on_view transfer_off_view view_shown view_in_use by metis+

subsection \<open>Display\<close>

lemma new_display_use:
  assumes "new_display env device i d = (r, d')" and "db_device_info d = Some i"
  shows "camera_in_use d' = camera_in_use d \<and> (r \<noteq> BK_OK \<longrightarrow> shown d' = shown d)"
  using assms
  by (auto simp: new_display_def set_info_def camera_in_use_def info_view_def shown_def dev_emit_def Let_def
      split: lcd_type_t.splits if_splits)

lemma display_error_use:
  assumes "display_error env d = Some (r, d')"
  shows "r = Evt_error \<and> \<not> shown d' \<and> camera_in_use d' = camera_in_use d"
proof -
  from assms obtain r1 d1 i where cl: "mjpeg_decode_close env d = Some (r1, d1)" and i: "db_device_info d1 = Some i"
    and d': "r = Evt_error" "d' = set_info (i\<lparr>display_ctlr_handle := None\<rparr>)
      (dev_emit [Display_delete (display_ctlr_handle i)] d1)"
    by (auto simp: display_error_def split: bind_splits)
  have "camera_in_use d1 = camera_in_use d" by (rule view_in_use [OF decode_close_view [OF cl]])
  with d' in_use_info [OF i] show ?thesis by (auto simp: shown_def camera_in_use_def)
qed

lemma use_simps:
  "camera_in_use (dev_emit cs d) = camera_in_use d" "shown (dev_emit cs d) = shown d"
  "camera_in_use (set_fq q d) = camera_in_use d" "shown (set_fq q d) = shown d"
  "camera_in_use (set_info i d) = (di_handle i \<noteq> None)" "shown (set_info i d) = (display_ctlr_handle i \<noteq> None)"
  by (auto simp: camera_in_use_def shown_def)

lemma decode_open_use: "mjpeg_decode_open env a w d = Some (r, d') \<Longrightarrow> camera_in_use d' = camera_in_use d"
  by (rule view_in_use [OF decode_open_view])

lemma display_on_use:
  assumes "doorbell_display_turn_on env p d = Some (r, d')"
  shows "camera_in_use d' = camera_in_use d \<and> (\<not> dev_ret_ok r \<longrightarrow> shown d' \<longrightarrow> shown d)"
proof -
  define rot where "rot = (if lcd_pixel_format p = 0 then HW_ROTATE
    else if lcd_pixel_format p = 1 then SW_ROTATE else NONE_ROTATE)"
  note assms [unfolded doorbell_display_turn_on_def, folded rot_def]
  then show ?thesis
    by (auto simp: doorbell_lcd_backlight_open_def doorbell_lcd_ldo_open_def use_simps dev_ret_ok_def in_use_info Let_def
        split: bind_splits if_splits prod.splits option.splits dest!: new_display_use display_error_use decode_open_use)
qed

lemma display_off_use:
  assumes "dev_inv d" and "doorbell_display_turn_off env d = Some (r, d')"
  shows "camera_in_use d' = camera_in_use d \<and> (shown d' \<longrightarrow> \<not> dev_ret_ok r \<and> shown d)"
proof -
  obtain i where i: "db_device_info d = Some i" using inv_info [OF assms(1)] by blast
  show ?thesis
  proof (cases "di_lcd_id i = 0 \<or> di_lcd_device i = None")
    case True
    then show ?thesis using assms(2) i by (auto simp: doorbell_display_turn_off_def dev_ret_ok_def)
  next
    case False
    with assms(2) i show ?thesis
      by (auto simp: doorbell_display_turn_off_def doorbell_lcd_backlight_close_def doorbell_lcd_ldo_close_def
          shown_def camera_in_use_def info_view_Some Let_def dest!: clear_view decode_close_view view_parts
          split: bind_splits if_splits)
  qed
qed

subsection \<open>Audio\<close>

definition audio_running :: "audio_state \<Rightarrow> bool" where
  "audio_running u \<longleftrightarrow> (\<exists>i. gl_db_audio_device_info u = Some i \<and> audio_enable i)"

lemma audio_on_use:
  assumes "doorbell_audio_turn_on env p u = Some (r, u')" and "ae_service env \<noteq> None"
  shows "r \<noteq> BK_OK \<longrightarrow> audio_running u' \<longrightarrow> audio_running u"
  using assms
  by (auto simp: doorbell_audio_turn_on_def audio_running_def release_parts_def set_audio_def au_emit_def open_parts_def Let_def
      split: bind_splits if_splits option.splits prod.splits)

lemma audio_off_use:
  "doorbell_audio_turn_off env u = Some (r, u') \<Longrightarrow> \<not> audio_running u'"
  by (auto simp: doorbell_audio_turn_off_def audio_running_def release_parts_def set_audio_def au_emit_def Let_def
      split: bind_splits if_splits option.splits)

section \<open>Votes and devices\<close>

lemma voted_bits [simp]:
  "bit (m OR MM_STATUS_CAMERA_MASK) MM_STATUS_CAMERA_BIT"
  "bit (m OR MM_STATUS_CAMERA_MASK) MM_STATUS_AUDIO_BIT = bit m MM_STATUS_AUDIO_BIT"
  "bit (m OR MM_STATUS_CAMERA_MASK) MM_STATUS_LCD_BIT = bit m MM_STATUS_LCD_BIT"
  "bit (m OR MM_STATUS_AUDIO_MASK) MM_STATUS_CAMERA_BIT = bit m MM_STATUS_CAMERA_BIT"
  "bit (m OR MM_STATUS_AUDIO_MASK) MM_STATUS_AUDIO_BIT"
  "bit (m OR MM_STATUS_AUDIO_MASK) MM_STATUS_LCD_BIT = bit m MM_STATUS_LCD_BIT"
  "bit (m OR MM_STATUS_LCD_MASK) MM_STATUS_CAMERA_BIT = bit m MM_STATUS_CAMERA_BIT"
  "bit (m OR MM_STATUS_LCD_MASK) MM_STATUS_AUDIO_BIT = bit m MM_STATUS_AUDIO_BIT"
  "bit (m OR MM_STATUS_LCD_MASK) MM_STATUS_LCD_BIT"
  for m :: u32
  by (simp_all add: mm_defs bit_simps)

lemma unvoted_bits [simp]:
  "\<not> bit (m AND NOT MM_STATUS_CAMERA_MASK) MM_STATUS_CAMERA_BIT"
  "bit (m AND NOT MM_STATUS_CAMERA_MASK) MM_STATUS_AUDIO_BIT = bit m MM_STATUS_AUDIO_BIT"
  "bit (m AND NOT MM_STATUS_CAMERA_MASK) MM_STATUS_LCD_BIT = bit m MM_STATUS_LCD_BIT"
  "bit (m AND NOT MM_STATUS_AUDIO_MASK) MM_STATUS_CAMERA_BIT = bit m MM_STATUS_CAMERA_BIT"
  "\<not> bit (m AND NOT MM_STATUS_AUDIO_MASK) MM_STATUS_AUDIO_BIT"
  "bit (m AND NOT MM_STATUS_AUDIO_MASK) MM_STATUS_LCD_BIT = bit m MM_STATUS_LCD_BIT"
  "bit (m AND NOT MM_STATUS_LCD_MASK) MM_STATUS_CAMERA_BIT = bit m MM_STATUS_CAMERA_BIT"
  "bit (m AND NOT MM_STATUS_LCD_MASK) MM_STATUS_AUDIO_BIT = bit m MM_STATUS_AUDIO_BIT"
  "\<not> bit (m AND NOT MM_STATUS_LCD_MASK) MM_STATUS_LCD_BIT"
  for m :: u32
  by (auto simp add: mm_defs bit_simps)

text \<open>The last call that turned a camera on was answered with an error.\<close>

fun turns_camera_on :: "ap_event \<times> bool \<Rightarrow> bool" where
  "turns_camera_on (Ap_Platform.Camera_on p, ok) = True"
| "turns_camera_on _ = False"

definition camera_refused :: "(ap_event \<times> bool) list \<Rightarrow> bool" where
  "camera_refused cs \<longleftrightarrow> (\<exists>p. List.find turns_camera_on (rev cs) = Some (Ap_Platform.Camera_on p, False))"

lemma camera_refused_append [simp]:
  "camera_refused (cs @ [(Ap_Platform.Camera_on p, ok), (Video_transfer_on, ok')]) = (\<not> ok)"
  "camera_refused (cs @ [(Video_transfer_off, ok), (Ap_Platform.Camera_off, ok')]) = camera_refused cs"
  "camera_refused (cs @ [(Video_transfer_off, ok)]) = camera_refused cs"
  "camera_refused (cs @ [(Video_transfer_off, ok), (Audio_off, ok')]) = camera_refused cs"
  "camera_refused (cs @ [(Audio_on a, ok)]) = camera_refused cs"
  "camera_refused (cs @ [(Audio_off, ok)]) = camera_refused cs"
  "camera_refused (cs @ [(Ap_Platform.Display_on b, ok)]) = camera_refused cs"
  "camera_refused (cs @ [(Ap_Platform.Display_off, ok)]) = camera_refused cs"
  by (simp_all add: camera_refused_def)

definition voted :: "u32 \<Rightarrow> dev_state \<Rightarrow> audio_state \<Rightarrow> (ap_event \<times> bool) list \<Rightarrow> bool" where
  "voted m d u cs \<longleftrightarrow> dev_inv d \<and> audio_inv u \<and>
     (bit m MM_STATUS_CAMERA_BIT \<longrightarrow> camera_in_use d) \<and>
     (camera_in_use d \<longrightarrow> bit m MM_STATUS_CAMERA_BIT \<or> camera_refused cs) \<and>
     (shown d \<longrightarrow> bit m MM_STATUS_LCD_BIT) \<and> (audio_running u \<longrightarrow> bit m MM_STATUS_AUDIO_BIT)"

lemma calls_voted:
  assumes "request an cs m m'" and "device_calls e cs (d, u) = Some (rs, d', u')" and "list_all2 (claims an) cs rs"
    and "voted m d u h" and "ae_service (se_audio e) \<noteq> None"
  shows "voted m' d' u' (h @ zip cs rs)"
  using assms(1)
proof cases
  case no_call
  then show ?thesis using assms by simp
next
  case image_gone
  then obtain r where "doorbell_video_transfer_turn_off (se_dev e) d = Some (r, d')" "u' = u" "rs = [r = BK_OK]"
    using assms(2) by (auto split: bind_splits)
  with image_gone assms(4) transfer_use transfer_off_inv show ?thesis by (auto simp: voted_def)
next
  case app_gone
  then obtain r1 r2 where "doorbell_video_transfer_turn_off (se_dev e) d = Some (r1, d')"
    "doorbell_audio_turn_off (se_audio e) u = Some (r2, u')" "rs = [r1 = BK_OK, r2 = BK_OK]"
    using assms(2) by (auto split: bind_splits)
  with app_gone assms(4,5) transfer_use transfer_off_inv audio_off_use turn_off_inv show ?thesis
    by (auto simp: voted_def)
next
  case (camera_on p)
  then obtain r1 d1 r2 where "doorbell_camera_turn_on (se_dev e) p d = Some (r1, d1)"
    "doorbell_video_transfer_turn_on (se_dev e) d1 = Some (r2, d')" "u' = u" "rs = [r1 = BK_OK, r2 = BK_OK]"
    using assms(2) by (auto split: bind_splits)
  with camera_on assms(3,4) camera_on_use [of d "se_dev e" p r1 d1] camera_on_inv [of d "se_dev e" p r1 d1]
    transfer_use [of "se_dev e" d1 r2 d'] transfer_on_inv [of d1 "se_dev e" r2 d'] show ?thesis
    by (auto simp: voted_def)
next
  case camera_off
  then obtain r1 d1 r2 where "doorbell_video_transfer_turn_off (se_dev e) d = Some (r1, d1)"
    "doorbell_camera_turn_off (se_dev e) d1 = Some (r2, d')" "u' = u" "rs = [r1 = BK_OK, r2 = BK_OK]"
    using assms(2) by (auto split: bind_splits)
  with camera_off assms(3,4) camera_off_use [of d1 "se_dev e" r2 d'] camera_off_inv [of d1 "se_dev e" r2 d']
    transfer_use [of "se_dev e" d r1 d1] transfer_off_inv [of d "se_dev e" r1 d1] show ?thesis
    by (auto simp: voted_def)
next
  case (audio_on p)
  then obtain r where "doorbell_audio_turn_on (se_audio e) p u = Some (r, u')" "d' = d" "rs = [r = BK_OK]"
    using assms(2) by (auto split: bind_splits)
  with audio_on assms(3-5) audio_on_use [of "se_audio e" p u r u'] turn_on_inv [of u "se_audio e" p r u']
  show ?thesis by (auto simp: voted_def)
next
  case audio_off
  then obtain r where "doorbell_audio_turn_off (se_audio e) u = Some (r, u')" "d' = d" "rs = [r = BK_OK]"
    using assms(2) by (auto split: bind_splits)
  with audio_off assms(3-5) audio_off_use [of "se_audio e" u r u'] turn_off_inv [of u "se_audio e" r u']
  show ?thesis by (auto simp: voted_def)
next
  case (display_on p)
  then obtain r where "doorbell_display_turn_on (se_dev e) p d = Some (r, d')" "u' = u" "rs = [dev_ret_ok r]"
    using assms(2) by (auto split: bind_splits)
  with display_on assms(3,4) display_on_use [of "se_dev e" p d r d'] display_on_inv [of d "se_dev e" p r d']
  show ?thesis by (auto simp: voted_def)
next
  case display_off
  then obtain r where "doorbell_display_turn_off (se_dev e) d = Some (r, d')" "u' = u" "rs = [dev_ret_ok r]"
    using assms(2) by (auto split: bind_splits)
  with display_off assms(3,4) display_off_use [of d "se_dev e" r d'] display_off_inv [of d "se_dev e" r d']
  show ?thesis by (auto simp: voted_def)
qed

definition session_inv :: "session \<Rightarrow> bool" where
  "session_inv s \<longleftrightarrow> voted (mm_service_status (ss_ap s)) (ss_dev s) (ss_audio s) (ss_calls s)"

lemma core_do_inv:
  assumes "session_inv s" and "core_do cfg e a s = Some s'" and "ae_service (se_audio e) \<noteq> None"
  shows "session_inv s'"
proof -
  from assms(2) obtain st rs d u where st: "ap_do cfg a (ss_ap s) = Some st"
    and dc: "device_calls e (new_calls (ss_ap s) st) (ss_dev s, ss_audio s) = Some (rs, d, u)"
    and tr: "truthful (answers_of a) (new_calls (ss_ap s) st) rs"
    and s': "s' = \<lparr>ss_ap = st, ss_dev = d, ss_audio = u, ss_calls = ss_calls s @ zip (new_calls (ss_ap s) st) rs\<rparr>"
    by (auto simp: core_do_def Let_def split: bind_splits if_splits)
  from action_calls [OF st] show ?thesis
  proof (elim disjE exE conjE)
    fix an
    assume an: "answers_of a = Some an"
      and rq: "request an (new_calls (ss_ap s) st) (mm_service_status (ss_ap s)) (mm_service_status st)"
    from an tr have "list_all2 (claims an) (new_calls (ss_ap s) st) rs" by simp
    from calls_voted [OF rq dc this _ assms(3)] assms(1) s' show ?thesis by (simp add: session_inv_def)
  next
    assume "new_calls (ss_ap s) st = []" and "mm_service_status st = mm_service_status (ss_ap s)"
    with dc s' assms(1) show ?thesis by (simp add: session_inv_def)
  qed
qed

lemma tasks_view: "run_tasks ys ts d = Some d' \<Longrightarrow> dev_view d' = dev_view d"
  by (auto simp: run_tasks_def dev_view_def Let_def split: bind_splits)

lemma sound_in:
  assumes "doorbell_bk_net_audio_recv bs u = Some (r, u')" and "audio_inv u"
  shows "audio_inv u' \<and> audio_running u' = audio_running u"
proof
  show "audio_inv u'"
    by (rule audio_do_inv [OF assms(2), of "Data bs"])
      (use assms(1) in \<open>auto simp: doorbell_bk_net_audio_recv_def service_known_def\<close>)
  show "audio_running u' = audio_running u" using assms(1)
    by (auto simp: doorbell_bk_net_audio_recv_def doorbell_audio_data_callback_def audio_running_def au_emit_def
        split: bind_splits if_splits)
qed

lemma sound_out:
  assumes "audio_inv u"
  shows "audio_inv (doorbell_voice_send_callback bs enc u) \<and>
    audio_running (doorbell_voice_send_callback bs enc u) = audio_running u"
proof
  show "audio_inv (doorbell_voice_send_callback bs enc u)"
    by (rule audio_do_inv [OF assms, of "Sent bs enc"]) (simp_all add: service_known_def)
  show "audio_running (doorbell_voice_send_callback bs enc u) = audio_running u"
    by (simp add: doorbell_voice_send_callback_def audio_running_def au_emit_def)
qed

lemma session_do_inv:
  assumes "session_inv s" and "session_do cfg e a s = Some s'" and "ae_service (se_audio e) \<noteq> None"
  shows "session_inv s'"
proof (cases a)
  case (Core b)
  with assms core_do_inv show ?thesis by simp
next
  case (Post m)
  with assms(1,2) show ?thesis
    by (auto simp: session_inv_def doorbell_send_msg_def split: option.split)
next
  case (Tasks ys ts)
  with assms obtain d where d: "run_tasks ys ts (ss_dev s) = Some d" "s' = s\<lparr>ss_dev := d\<rparr>" by auto
  with assms(1) view_inv [OF tasks_view [OF d(1)]] view_shown [OF tasks_view [OF d(1)]]
    view_in_use [OF tasks_view [OF d(1)]] show ?thesis
    by (simp add: session_inv_def voted_def)
next
  case (Sound_in bs)
  with assms(1,2) sound_in show ?thesis by (auto simp: session_inv_def voted_def)
next
  case (Sound_out bs enc)
  with assms(1,2) sound_out show ?thesis by (auto simp: session_inv_def voted_def)
qed

lemma session_run_inv:
  "session_inv s \<Longrightarrow> session_run cfg as s = Some s' \<Longrightarrow> \<forall>(e, a) \<in> set as. ae_service (se_audio e) \<noteq> None \<Longrightarrow>
     session_inv s'"
proof (induction as arbitrary: s)
  case (Cons ea as)
  obtain e a where ea: "ea = (e, a)" by (cases ea)
  with Cons.prems(2) obtain t where "session_do cfg e a s = Some t" "session_run cfg as t = Some s'"
    by (auto split: bind_splits)
  moreover have "ae_service (se_audio e) \<noteq> None" "\<forall>(e, a) \<in> set as. ae_service (se_audio e) \<noteq> None"
    using Cons.prems(3) ea by auto
  ultimately show ?case using Cons.IH session_do_inv [OF Cons.prems(1)] by blast
qed simp

lemma devices_start_inv:
  assumes "doorbell_devices_init env d0 = (BK_OK, d)" and "cam_log (dv_cam d0) = []" and "dv_log d0 = []"
  shows "dev_inv d \<and> \<not> camera_in_use d \<and> \<not> shown d"
  using assms
  by (auto simp: doorbell_devices_init_def device_info_zero_def dev_inv_def dev_view_def
      cam_view_def disp_view_def set_info_def info_view_def camera_in_use_def shown_def split: if_splits)

lemma audio_start_inv:
  assumes "doorbell_audio_device_init ok u0 = (BK_OK, u)" and "au_log u0 = []"
  shows "audio_inv u \<and> \<not> audio_running u"
  using assms
  by (auto simp: doorbell_audio_device_init_def audio_inv_def set_audio_def audio_info_zero_def opened_def
      handles_def part_def audio_running_def split: if_splits)

lemma session_start_inv:
  assumes "doorbell_devices_init env d0 = (BK_OK, d)" and "cam_log (dv_cam d0) = []" and "dv_log d0 = []"
    and "doorbell_audio_device_init ok u0 = (BK_OK, u)" and "au_log u0 = []"
  shows "session_inv (session_start f d u)"
proof -
  have "mm_service_status (ap_boot f) = 0" by (simp add: ap_boot_def ap_power_on_def doorbell_core_init_def Let_def)
  with devices_start_inv [OF assms(1-3)] audio_start_inv [OF assms(4,5)] show ?thesis
    by (simp add: session_inv_def voted_def session_start_def)
qed


text \<open>A run for the witness: the app connects, turns the audio on, sends sound and turns it off.\<close>

definition sound_on :: "u8 list" where
  "sound_on = [10, 0, 0, 0, 0, 0, 0, 0, 12, 0, 1, 0, 0x40, 0x1F, 0, 0, 0x40, 0x1F, 0, 0, 1, 1]"

definition sound_off :: "u8 list" where
  "sound_off = [11, 0, 0, 0, 0, 0, 0, 0, 0, 0]"

lemma sound_cmds: "read_cmd sound_on = \<lparr>cmd_opcode = DBCMD_SET_AUDIO_TURN_ON, cmd_param = 0, cmd_length = 12\<rparr>"
  "read_cmd sound_off = \<lparr>cmd_opcode = DBCMD_SET_AUDIO_TURN_OFF, cmd_param = 0, cmd_length = 0\<rparr>"
  "length sound_on = 22" "length sound_off = 10"
  "read_audio (drop CMD_HEAD_SIZE sound_on) = Some demo_audio_params"
  by (simp_all add: sound_on_def sound_off_def read_cmd_def get32_def get16_def ap_cmd_defs CMD_HEAD_SIZE_def
      read_audio_def rd8_def rd32_def demo_audio_params_def)

definition demo_session_env :: session_env where
  "demo_session_env = \<lparr>se_dev = demo_dev_env, se_audio = demo_audio_env (Some 3)\<rparr>"

definition demo_session_acts :: "(session_env \<times> session_act) list" where
  "demo_session_acts = map (Pair demo_session_env)
     [Post \<lparr>msg_event = DBEVT_REMOTE_DEVICE_CONNECTED, msg_param = 0\<rparr>, Core (Core_task core_ok),
      Core (Command dev_ok sound_on), Sound_in [1, 2], Core (Command dev_ok sound_off)]"

definition silent_audio :: audio_state where
  "silent_audio = \<lparr>gl_db_audio_device_info = Some audio_info_zero, au_log = []\<rparr>"

lemma core_do_command:
  assumes "dispatch an (read_cmd bs) (drop CMD_HEAD_SIZE bs) (db_keepalive_update_timestamp cfg (dv_time an) (ss_ap s)) = Some st"
    and "CMD_HEAD_SIZE \<le> length bs" and "length bs < 65536"
    and "new_calls (ss_ap s) st = cs" and "device_calls e cs (ss_dev s, ss_audio s) = Some (rs, d, u)"
    and "list_all2 (claims an) cs rs"
  shows "session_do cfg e (Core (Command an bs)) s =
    Some \<lparr>ss_ap = st, ss_dev = d, ss_audio = u, ss_calls = ss_calls s @ zip cs rs\<rparr>"
  using assms
  by (simp add: core_do_def doorbell_bk_net_cntrl_recv_def doorbell_transmission_cmd_recive_callback_def
      unat_of_nat take_bit_nat_eq_self Let_def)

lemma audio_opens:
  "\<exists>u. doorbell_audio_turn_on (demo_audio_env (Some 3)) demo_audio_params silent_audio = Some (BK_OK, u) \<and>
     (\<exists>i. gl_db_audio_device_info u = Some i \<and> audio_enable i)"
  by (simp add: doorbell_audio_turn_on_def open_parts_def set_audio_def au_emit_def silent_audio_def
      voice_config_def demo_audio_params_def demo_audio_env_def audio_info_zero_def codec_defs ascii_def Let_def)

lemma audio_closes:
  assumes "gl_db_audio_device_info u = Some i" and "audio_enable i"
  shows "\<exists>u'. doorbell_audio_turn_off (demo_audio_env (Some 3)) u = Some (BK_OK, u')"
  using assms by (simp add: doorbell_audio_turn_off_def demo_audio_env_def Let_def)

lemma sound_on_step:
  assumes "ss_audio s = silent_audio"
  shows "\<exists>s'. session_do lp_config demo_session_env (Core (Command dev_ok sound_on)) s = Some s' \<and>
    (\<exists>i. gl_db_audio_device_info (ss_audio s') = Some i \<and> audio_enable i) \<and>
    ss_calls s' = ss_calls s @ [(Audio_on demo_audio_params, True)] \<and>
    mm_service_status (ss_ap s') = mm_service_status (ss_ap s) OR MM_STATUS_AUDIO_MASK \<and>
    s_last_update_timestamp (ss_ap s') = 1000 \<and>
    s_timer_started (ss_ap s') = s_timer_started (ss_ap s) \<and> ap_flash (ss_ap s') = ap_flash (ss_ap s) \<and>
    s_pending_keepalive_after_service_stop (ss_ap s') = s_pending_keepalive_after_service_stop (ss_ap s) \<and>
    db_queue (ss_ap s') = db_queue (ss_ap s)"
proof -
  let ?t = "db_keepalive_update_timestamp lp_config 1000 (ss_ap s)"
  let ?st = "ap_event_report DBCMD_SET_AUDIO_TURN_ON 0 EVT_FLAGS_COMPLETE
    (vote_if True MM_STATUS_AUDIO_BIT True (ap_emit [Audio_on demo_audio_params] ?t))"
  obtain u where u: "doorbell_audio_turn_on (demo_audio_env (Some 3)) demo_audio_params silent_audio = Some (BK_OK, u)"
    "\<exists>i. gl_db_audio_device_info u = Some i \<and> audio_enable i"
    using audio_opens by blast
  have "dispatch dev_ok (read_cmd sound_on) (drop CMD_HEAD_SIZE sound_on) ?t = Some ?st"
    by (simp add: dispatch_def sound_cmds ap_cmd_defs cmd_audio_on_def dev_ok_def ret_ok_def ret_status_def Let_def)
  then have "session_do lp_config demo_session_env (Core (Command dev_ok sound_on)) s =
      Some \<lparr>ss_ap = ?st, ss_dev = ss_dev s, ss_audio = u, ss_calls = ss_calls s @ zip [Audio_on demo_audio_params] [True]\<rparr>"
    by (intro core_do_command)
      (simp_all add: u(1) assms demo_session_env_def sound_cmds CMD_HEAD_SIZE_def new_calls_def dev_ok_def ret_ok_def
        db_keepalive_update_timestamp_def)
  with u(2) show ?thesis
    by (simp add: ap_event_report_def vote_if_def doorbell_mm_service_vote_def mm_mask_def mm_bits db_keepalive_update_timestamp_def lp_config_def Let_def)
qed

lemma sound_off_step:
  assumes "gl_db_audio_device_info (ss_audio s) = Some i" and "audio_enable i"
  shows "\<exists>s'. session_do lp_config demo_session_env (Core (Command dev_ok sound_off)) s = Some s' \<and>
    ss_calls s' = ss_calls s @ [(Audio_off, True)] \<and>
    mm_service_status (ss_ap s') = mm_service_status (ss_ap s) AND NOT MM_STATUS_AUDIO_MASK \<and>
    s_last_update_timestamp (ss_ap s') = 1000 \<and>
    s_timer_started (ss_ap s') = s_timer_started (ss_ap s) \<and> ap_flash (ss_ap s') = ap_flash (ss_ap s) \<and>
    s_pending_keepalive_after_service_stop (ss_ap s') = s_pending_keepalive_after_service_stop (ss_ap s) \<and>
    db_queue (ss_ap s') = db_queue (ss_ap s)"
proof -
  let ?t = "db_keepalive_update_timestamp lp_config 1000 (ss_ap s)"
  let ?st = "vote_if True MM_STATUS_AUDIO_BIT False
    (ap_event_report DBCMD_SET_AUDIO_TURN_OFF 0 EVT_FLAGS_COMPLETE (ap_emit [Audio_off] ?t))"
  obtain u where u: "doorbell_audio_turn_off (demo_audio_env (Some 3)) (ss_audio s) = Some (BK_OK, u)"
    using audio_closes [OF assms] by blast
  have "dispatch dev_ok (read_cmd sound_off) (drop CMD_HEAD_SIZE sound_off) ?t = Some ?st"
    by (simp add: dispatch_def sound_cmds ap_cmd_defs cmd_audio_off_def dev_ok_def ret_ok_def ret_status_def Let_def)
  then have "session_do lp_config demo_session_env (Core (Command dev_ok sound_off)) s =
      Some \<lparr>ss_ap = ?st, ss_dev = ss_dev s, ss_audio = u, ss_calls = ss_calls s @ zip [Audio_off] [True]\<rparr>"
    by (intro core_do_command)
      (simp_all add: u demo_session_env_def sound_cmds CMD_HEAD_SIZE_def new_calls_def dev_ok_def ret_ok_def
        db_keepalive_update_timestamp_def)
  then show ?thesis
    by (simp add: ap_event_report_def vote_if_def doorbell_mm_service_vote_def mm_mask_def mm_bits
        db_keepalive_update_timestamp_def lp_config_def Let_def)
qed

text \<open>The app connects: the status timer is started.\<close>

lemma connect_steps:
  "\<exists>s. session_run lp_config (map (Pair demo_session_env)
       [Post \<lparr>msg_event = DBEVT_REMOTE_DEVICE_CONNECTED, msg_param = 0\<rparr>, Core (Core_task core_ok)])
       (session_start demo_flash d u) = Some s \<and>
     ss_dev s = d \<and> ss_audio s = u \<and> ss_calls s = [] \<and> s_timer_started (ss_ap s) \<and> ap_flash (ss_ap s) = demo_flash \<and>
     mm_service_status (ss_ap s) = 0 \<and> \<not> s_pending_keepalive_after_service_stop (ss_ap s) \<and> db_queue (ss_ap s) = Some []"
proof -
  let ?m = "\<lparr>msg_event = DBEVT_REMOTE_DEVICE_CONNECTED, msg_param = 0\<rparr>"
  let ?q = "(ap_boot demo_flash)\<lparr>db_queue := Some [?m]\<rparr>"
  let ?st = "snd (db_keepalive_start_mm_status_check timer_ok (?q\<lparr>db_queue := Some []\<rparr>))"
  have b: "db_queue (ap_boot demo_flash) = Some []" "s_pending_wakeup_cmd (ap_boot demo_flash) = 0"
    "\<not> s_timer_started (ap_boot demo_flash)" "ap_flash (ap_boot demo_flash) = demo_flash"
    "mm_service_status (ap_boot demo_flash) = 0" "\<not> s_pending_keepalive_after_service_stop (ap_boot demo_flash)"
    by (simp_all add: ap_boot_def ap_power_on_def doorbell_core_init_def Let_def)
  have 1: "session_do lp_config demo_session_env (Post ?m) (session_start demo_flash d u) =
      Some ((session_start demo_flash d u)\<lparr>ss_ap := ?q\<rparr>)"
    by (simp add: session_start_def b doorbell_send_msg_def QUEUE_SIZE_def)
  have st: "ap_do lp_config (Core_task core_ok) ?q = Some ?st"
    using connected_message [of ?q lp_config core_ok] b by (simp add: lp_simps del: ap_do.simps)
  have "still ?q ?st" by (rule still_keepalive(4)) (simp add: still_def)
  then have "new_calls ?q ?st = []" using silent_calls by blast
  with st have 2: "session_do lp_config demo_session_env (Core (Core_task core_ok))
      ((session_start demo_flash d u)\<lparr>ss_ap := ?q\<rparr>) = Some ((session_start demo_flash d u)\<lparr>ss_ap := ?st\<rparr>)"
    by (simp add: core_do_def session_start_def lp_simps del: ap_do.simps)
  have t: "\<not> s_timer_started (?q\<lparr>db_queue := Some []\<rparr>)" using b by simp
  show ?thesis
    using 1 2 check_starts [OF t] b by (simp add: session_start_def del: ap_do.simps session_do.simps)
qed


section \<open>The edges\<close>

text \<open>
  Votes that stay. When the app is gone the core turns the audio off and leaves its vote; turning it
  off again is an error and leaves the vote, too.
\<close>

lemma app_gone_keeps_votes:
  assumes "core_do cfg e (Core_task an) s = Some s'"
    and "db_queue (ss_ap s) = Some (\<lparr>msg_event = DBEVT_REMOTE_DEVICE_DISCONNECTED, msg_param = p\<rparr> # q)"
  shows "mm_service_status (ss_ap s') = mm_service_status (ss_ap s) \<and> \<not> audio_running (ss_audio s')"
proof -
  have c: "new_calls st (device_disconnected cfg (st\<lparr>db_queue := Some q\<rparr>)) = [Video_transfer_off, Audio_off] \<and>
      mm_service_status (device_disconnected cfg (st\<lparr>db_queue := Some q\<rparr>)) = mm_service_status st" for st
    by (simp add: device_disconnected_def sdp_restart_def new_calls_def Let_def)
  show ?thesis
    using assms c [of "ss_ap s"] audio_off_use
    by (auto simp: core_do_def core_step_def handle_msg_def dbevt_defs Let_def split: bind_splits if_splits)
qed

lemma stuck_audio_vote:
  assumes "session_do cfg e (Core (Command an bs)) s = Some s'" and "\<not> audio_running (ss_audio s)"
    and "cmd_opcode (read_cmd bs) = DBCMD_SET_AUDIO_TURN_OFF"
  shows "mm_service_status (ss_ap s') = mm_service_status (ss_ap s)"
proof -
  have r: "r \<noteq> BK_OK" if "doorbell_audio_turn_off env (ss_audio s) = Some (r, u)" for env r u
    using that assms(2) by (auto simp: doorbell_audio_turn_off_def audio_running_def split: bind_splits if_splits)
  let ?t = "db_keepalive_update_timestamp cfg (dv_time an) (ss_ap s)"
  have c: "new_calls (ss_ap s) (cmd_audio_off an opc ?t) = [Audio_off]" 
    "mm_service_status (cmd_audio_off an opc ?t) =
       (if ret_ok (dv_audio_off an) then mm_service_status (ss_ap s) AND NOT MM_STATUS_AUDIO_MASK else mm_service_status (ss_ap s))" for opc
    by (simp_all add: cmd_audio_off_def new_calls_def db_keepalive_update_timestamp_def Let_def)
  show ?thesis
    using assms(1,3) r c
    by (auto simp: core_do_def doorbell_bk_net_cntrl_recv_def doorbell_transmission_cmd_recive_callback_def
        dispatch_def ap_cmd_defs db_keepalive_update_timestamp_def Let_def split: bind_splits if_splits)
qed

text \<open>
  A display whose decoder cannot be closed is off and answers an error, so its vote stays; turning it off
  again answers that it is off already, which leaves the vote as well.
\<close>

lemma failed_display_off:
  assumes "doorbell_display_turn_off env d = Some (Ret r, d')" and "r \<noteq> BK_OK"
  shows "\<not> shown d' \<and> doorbell_display_turn_off env' d' = Some (Evt_already, d')"
  using assms
  by (auto simp: doorbell_display_turn_off_def doorbell_lcd_ldo_close_def clear_call_def set_info_def set_fq_def
      shown_def info_view_def dev_emit_def Let_def split: bind_splits if_splits)

text \<open>
  Votes that come too late. Once a tick has asked for the stop of the service, the hand-over goes on
  whatever is voted for before the core task gets to it.
\<close>

lemma late_vote_not_seen:
  assumes "s_pending_keepalive_after_service_stop st"
    and "db_queue st = Some [\<lparr>msg_event = DBEVT_LAN_TCP_SERVICE_STOP, msg_param = 0\<rparr>]"
    and "fl_net (ap_flash st) = Some info" and "c_string (ip_addr info) \<noteq> []" and "c_string (cmd_port info) \<noteq> []"
    and "low_power cfg" and "ca_ipc an = 0"
  shows "\<exists>st'. ap_do cfg (Core_task an) (snd (doorbell_mm_service_vote b True st)) = Some st' \<and>
    Ipc_start (hand_over_request info) \<in> set (ap_log st')"
proof -
  let ?st = "snd (doorbell_mm_service_vote b True st)"
  have "s_pending_keepalive_after_service_stop ?st = s_pending_keepalive_after_service_stop st"
    "db_queue ?st = db_queue st" "ap_flash ?st = ap_flash st"
    by (simp_all add: doorbell_mm_service_vote_def Let_def split: option.split)
  with idle_hands_over [of ?st info cfg an] assms show ?thesis
    by (fastforce simp del: ap_do.simps)
qed

text \<open>
  The exception: a USB camera whose encoder cannot be opened answers an error, but it runs, and it has
  no vote.
\<close>

lemma refused_camera_runs:
  assumes "doorbell_camera_open env p d = Some (r, d')" and "db_device_info d = Some i"
    and "open_camera env p (i\<lparr>transfer_format := IMAGE_H264\<rparr>) d = (i1, d1)" and "di_handle i1 = Some h"
    and "cam_format p \<noteq> 0" and "cam_type i1 = UVC_CAMERA" and "video_pipeline_handle i1 = None"
    and "de_pipeline_new env \<noteq> BK_OK"
  shows "r \<noteq> BK_OK \<and> camera_in_use d'"
proof -
  have i1: "db_device_info d1 = Some i1" using open_camera_shown [OF assms(3,2)] by simp
  from assms(1,2) obtain r2 d2 where enc: "doorbell_h264_encode_turn_on env p d1 = Some (r2, d2)"
    and r: "r2 \<noteq> BK_OK \<Longrightarrow> r = r2 \<and> d' = d2"
    using assms(3-6) by (auto simp: doorbell_camera_open_def split: bind_splits prod.splits if_splits)
  have "r2 \<noteq> BK_OK"
    using enc i1 assms(7,8)
    by (auto simp: doorbell_h264_encode_turn_on_def need_pipeline_def dest!: register_view split: bind_splits if_splits)
  moreover have "camera_in_use d2"
    using view_in_use [OF encoder_view [OF enc]] in_use_info [OF i1] assms(4) by simp
  ultimately show ?thesis using r by simp
qed

end
