(* ===== verification/Spec2Isabelle.thy ===== *)
theory Spec2Isabelle
  imports Two_Cores_Properties Frame_Queue_Properties Yuv_Display_Properties Video_Transfer_Properties Panels
    Cp_Boarding_Properties Command_Session_Properties
begin

text \<open>
  The firmware of a battery doorbell on the BK7258. The application core (AP) runs the camera,
  the display, the audio and the network services; the control core (CP) keeps a connection to
  the server alive at low power while the AP is switched off, and switches it on again when the
  server asks. This development models the program's own logic on both cores; the SDK (operating
  system, network stack, drivers, Wi-Fi, Bluetooth) is not part of the repository, and what it
  answers is an argument of the definitions that call it. Paths below are relative to
  \<^verbatim>\<open>components/smart_lock\<close> for the AP's services and to \<^verbatim>\<open>projects/doorbell_lp\<close> for the low-power
  project.

  Parts, and the theories that model them:

  \<^item> The frame queue (\<^verbatim>\<open>src/frame/frame_que_v2.c\<close>): three queues of video frames, each with a free
  and a ready list of nodes with a reference count and the masks of the consumers. Frame_List has
  the doubly linked lists on an explicit store of nodes; Frame_Queue has one definition per
  function and per critical section, on a record \<open>fq_state\<close> of the node store, the three queues,
  the frame headers and the calls made to the allocator and the semaphores. A walk along a list is
  a \<open>partial_function\<close>: \<open>None\<close> is a walk that never ends. Frame_Queue_Spec is the specification on
  plain lists, Frame_Queue_Lists the interfaces (\<open>frame_lists\<close>, \<open>sweep\<close>, \<open>list_walk\<close>) between lists
  and operations with their interpretations on the code's definitions, Frame_Queue_Refine and
  Frame_Queue_System the refinement, operation by operation and for whole runs.
  Frame_Queue_Clients adds what producers and consumers hold as an inductive step relation with
  its invariant, Frame_Queue_Protocol lifts it back to the pointer code, Frame_Queue_Properties
  has the properties.

  \<^item> The packing layer (\<^verbatim>\<open>cp/db_pack/db_pack.c\<close>): packets with a 16-byte header, and their
  reassembly from a stream cut anywhere. Db_Pack models it on byte lists; a write outside a buffer
  has no result (\<open>None\<close>).

  \<^item> Power control and events to the AP (\<^verbatim>\<open>cp/powerctrl/powerctrl.c\<close>, \<^verbatim>\<open>db_ipc_send_event\<close>):
  Power_Ctrl.

  \<^item> The keep-alive client of the CP (\<^verbatim>\<open>cp/keepalive/db_keepalive.c\<close>, \<^verbatim>\<open>cp/db_ipc_msg\<close>): Keepalive_CP
  has its record, the transmit and the receive thread cut where they block, the timers, the
  messages of the AP, and \<open>ka_do\<close>, one atomic action of one of them. Interrupts between two
  statements of an action are not modelled. Keepalive_CP_Safety has the invariant \<open>ka_inv\<close>,
  Keepalive_CP_Properties the properties.

  \<^item> The AP: Ap_Platform (state, message queue, flash records and Wi-Fi of
  \<^verbatim>\<open>src/doorbell_network.c\<close>), Ap_Commands (\<^verbatim>\<open>src/doorbell_cmd.c\<close>), Ap_Network
  (\<^verbatim>\<open>src/doorbell_network_transfer.c\<close>), Ap_Keepalive (\<^verbatim>\<open>ap/keepalive/db_keepalive.c\<close>,
  \<^verbatim>\<open>ap/db_ipc_msg\<close>), Ap_Core (\<^verbatim>\<open>src/doorbell_core.c\<close> and \<open>ap_do\<close>, one action of any of its
  callers), Ap_Properties.

  \<^item> The users of the frame queue. Frame_Client states once, as the locale \<open>frame_client\<close>, what a
  consumer gets from the queue: a component that calls it by the rules owns its frames whatever the
  other tasks do. Yuv_Display (\<^verbatim>\<open>src/yuv_display/yuv_display.c\<close>) is the display of a camera picture
  with its task, its caller, the rotation engine and the display; Video_Transfer the transfer task
  of \<^verbatim>\<open>src/doorbell_devices.c\<close>. Both are cut into steps where they block, and interpret the locale
  (Yuv_Display_Safety, Video_Transfer_Properties); Yuv_Display_Properties has the properties of
  the display.

  \<^item> The devices: Cameras (\<^verbatim>\<open>src/camera/uvc.c\<close>, \<^verbatim>\<open>dvp.c\<close>), Video_Devices (the rest of
  \<^verbatim>\<open>src/doorbell_devices.c\<close>, \<^verbatim>\<open>src/camera/doorbell_camera.c\<close>, \<^verbatim>\<open>doorviewer_camera.c\<close>, \<^verbatim>\<open>src/decoder/mjpeg_decoder.c\<close>): what
  the commands to turn camera, transfer and display on and off do, on one state \<open>dev_state\<close> that has
  the states of the parts; Device_Answers has the texts sent for queries, Video_Devices_Properties
  the properties of the drivers, Device_Session the invariant of the device record over any commands,
  Panels the two panels of \<^verbatim>\<open>components/lcd_device\<close>. A call that waits for a task takes a schedule of steps of that part.

  \<^item> Boarding (\<^verbatim>\<open>src/doorbell_boarding.c\<close>, \<^verbatim>\<open>src/bk_smart_config.c\<close>): what the app sends over Bluetooth,
  on a record with the state of the AP; Boarding_Properties refines its strings in buffers to plain
  strings. Cp_Boarding is the other half where the Bluetooth library runs on the CP
  (\<^verbatim>\<open>cp/doorbell_service/doorbell_core.c\<close>, \<^verbatim>\<open>cp/customer_msg\<close>): operations become packets, in blocks that
  the messages of a task own; Cp_Boarding_Properties has its memory and the way to the AP. Audio_Device (\<^verbatim>\<open>src/doorbell_audio_device.c\<close>) and Audio_Device_Properties: the voice
  engine with its reader and writer.

  \<^item> The core with its devices. Ap_Devices: which calls of devices an action of the AP makes, and what the
  answers do to the votes. Command_Session: one state \<open>session\<close> of the core and its devices, in which the
  calls the core logs are carried out by Video_Devices and Audio_Device and an action is only possible with
  the answers they give. Command_Session_Properties: the votes cover what is on, and where they do not.

  \<^item> The two cores together. Hand_Over: the bytes one core writes are what the other reads. Start_Up: the
  main programs of both cores. Two_Cores: one state \<open>two_cores\<close> of both, in which the power requests of
  the CP switch the AP off and on, with its flash kept, and the requests of the AP are handled by the CP;
  \<open>tc_do\<close> is one action of either, \<open>breaks\<close> says which lose the connection. Two_Cores_Safety has the
  invariant \<open>tc_inv\<close>, Two_Cores_Properties the hand-over and the way back as runs of both, the property that
  the AP is off only with a running keep-alive, and what happens when the connection is lost. This theory has
  the two end-to-end properties.

  How the parts interact: the AP's status timer finds no service in use, the core task stops the
  network service and sends the server's address to the CP; the CP connects, powers the AP down,
  sends heartbeats through the packing layer, and powers the AP up when a wake-up request comes,
  the server falls silent or the client cannot start; the AP reads the reason, stops the
  keep-alive, starts the service again and answers the request.

  What the lemmas show: the refinement of the frame queue to its specification with termination
  of every walk; that a held frame is never reused or freed; delivery of each frame once and
  without getting stuck; reassembly and round trip of packets; release of every block and socket
  of the keep-alive; when the AP is woken and when it is powered down, and that it is off only while something can wake it;
  the hand-over from end to end in both directions; one answer per command; ranges of counters and intervals; that frames
  in use by the display, the rotation engine and the transfer stay in the queue, that closing the
  display returns, that a camera is either
  on or cleaned up, that what is open is what the device record says, that the AP asks to be
  powered down only with its devices off, that the parts of the audio
  device are open together, and who owns the blocks of the CP's messages. The last sections of the
  property theories hold what the code does at its edges where that is not what it means to do.

  Loops: lists of the frame queue are walked by \<open>partial_function\<close>s whose results are proved to
  exist on reachable states; the connection loop has its own bounds of 5 tries and 17 binds; the
  reassembly loop has a measure; a waiting consumer is given the list of its waits, and is
  \<open>Waiting\<close> when it ends. Closing the display takes at most nine steps of its task (three to end
  the turn under way, four for a message ahead of the stop message, two to read that and end) and
  nine of its caller (the wait, and eight to drain a queue of three nodes). There is no other fuel.

  Not modelled: the Bluetooth library; the copies that the other three projects have of the CP's
  boarding and of the main programs (the same code but for the function that sends an event, which
  is modelled); the test of the frame queue; the statistics in \<^verbatim>\<open>media_debug\<close>; the print functions;
  socket timeouts; the timing of the RGB bus.
\<close>

section \<open>Across the cores\<close>

text \<open>
  C5. The hand-over, from end to end: when the status timer of an idle application core finds no
  service in use, the core task stops the network service and asks the control core to take over;
  the control core reads the host and the port the application was given (the port in decimal on one side, 16 bits
  on the other), connects to them, powers the application core down and waits for its next heartbeat, with its
  receive thread listening. The flash is as it was.
\<close>
theorem hand_over_completes:
  assumes "ka_inv (tc_cp s)" and "ka_tx (tc_cp s) = Tx_none" and "ka_rx (tc_cp s) = Rx_none"
    and "\<not> keepalive_ongoing (s_keepalive_env (tc_cp s))" and "answers_ok an"
    and "tc_ap s = Ap_running st" and "\<not> busy now st" and "s_timer_started st"
    and "\<not> s_pending_keepalive_after_service_stop st" and "db_queue st = Some []"
    and "fl_service (ap_flash st) = Some DOORBELL_SERVICE_LAN_TCP" and "fl_net (ap_flash st) = Some info"
    and "c_string (ip_addr info) \<noteq> []" and "length (c_string (ip_addr info)) \<le> 31"
    and "c_string (cmd_port info) = decimal p" and "p < 65536"
    and "low_power cfg" and "ca_ipc ca = 0"
    and "an_socket (ans 0) \<ge> 0" and "an_bind (ans 0) 0" and "an_connect (ans 0)"
  shows "\<exists>s' sm. tc_run cfg sdk co addr ([Ap_act (Status_timer now) True an, Ap_act (Core_task ca) True an] @
      map Cp_act [Tx_connect ans r, Tx_create_rx True r, Tx_sleep True True ms sent, Tx_next]) s = Some s' \<and>
    tc_ap s' = Ap_off (ap_flash st) \<and> ka_tx (tc_cp s') = Tx_wait sm \<and> ka_rx (tc_cp s') = Rx_loop \<and>
    keepalive_ongoing (s_keepalive_env (tc_cp s')) \<and> open_socks (tc_cp s') = {an_socket (ans 0)} \<and>
    server (s_keepalive_env (tc_cp s')) = c_string (ip_addr info) \<and> unat (port (s_keepalive_env (tc_cp s'))) = p"
  using hand_over [of s an st now info p cfg ca ans sdk co addr r ms sent, OF assms] by blast

theorem hand_over_completes_witness:
  "\<exists>s s' f. tc_unbroken lp_config demo_sdk True 0x28000000 demo_flash s \<and>
     tc_run lp_config demo_sdk True 0x28000000 demo_off_acts s = Some s' \<and> tc_ap s' = Ap_off f \<and>
     server (s_keepalive_env (tc_cp s')) = ascii ''10.0.0.9'' \<and> unat (port (s_keepalive_env (tc_cp s'))) = 7180"
proof -
  obtain s st where s: "tc_unbroken lp_config demo_sdk True 0x28000000 demo_flash s" "ka_inv (tc_cp s)"
     "ka_tx (tc_cp s) = Tx_none" "ka_rx (tc_cp s) = Rx_none" "\<not> keepalive_ongoing (s_keepalive_env (tc_cp s))"
     "tc_ap s = Ap_running st" "\<not> busy 5000 st" "s_timer_started st" "\<not> s_pending_keepalive_after_service_stop st"
     "db_queue st = Some []" "fl_service (ap_flash st) = Some DOORBELL_SERVICE_LAN_TCP" "fl_net (ap_flash st) = Some demo_net"
    using demo_idle_cores by blast
  have ip: "length (c_string (ip_addr demo_net)) \<le> 31" by (simp add: demo_strings ascii_def)
  have conn: "an_socket (demo_conn_answer 0) \<ge> 0" "an_bind (demo_conn_answer 0) 0" "an_connect (demo_conn_answer 0)"
    by (simp_all add: demo_conn_answer_def)
  have port: "(7180::nat) < 65536" by simp
  have "\<exists>s'. tc_run lp_config demo_sdk True 0x28000000 demo_off_acts s = Some s' \<and> tc_ap s' = Ap_off (ap_flash st) \<and>
     server (s_keepalive_env (tc_cp s')) = c_string (ip_addr demo_net) \<and> unat (port (s_keepalive_env (tc_cp s'))) = 7180"
    unfolding demo_off_acts_def
    using hand_over_completes [of s demo_answer st 5000 demo_net 7180 lp_config core_ok demo_conn_answer,
        OF s(2-5) demo_answers_ok s(6-12) demo_strings(4) ip demo_net_port port lp_simps(1,2) conn] by blast
  with s(1) show ?thesis unfolding demo_strings(1) by blast
qed

text \<open>
  C6. A request of the server, from end to end: when bytes complete a wake-up request while the
  application core is off, the control core powers it up; its \<open>main\<close> reads why from the other core's memory, stops
  the keep-alive, and puts the service of the flash in its queue; the core task switches Bluetooth off and
  starts the service; and once the three channels are connected the server gets its answer, exactly once.
\<close>
theorem request_answered:
  assumes "tc_unbroken cfg sdk co addr g s" and "tc_ap s = Ap_off f" and "ka_tx (tc_cp s) = Tx_wait sm" and "ka_rx (tc_cp s) = Rx_recv n b"
    and "s_db_pack_chan (ka_pack (tc_cp s)) = Some ch" and "chan_ok 1460 ch"
    and "good_stream 1460 (pending ch @ bs)" and "bs \<noteq> []" and "length bs \<le> 1460"
    and "d \<in> set (fst (deframe (pending ch @ bs)))" and "wake_request d"
    and "fl_service f = Some DOORBELL_SERVICE_LAN_TCP" and "fl_net f = Some info" and "addr \<noteq> 0"
    and "client_service cfg" and "bluetooth_ap cfg" and "low_power cfg" and "chans_ok cfg" and "dv_malloc (ca_dev c)"
  shows "\<exists>s' st es. tc_run cfg sdk co addr
      ([Cp_act (Rx_get [Received bs] ms sent), Ap_main True True True 0 0 True an] @
       map (\<lambda>x. Ap_act x True an) (answer_acts a a' c)) s = Some s' \<and>
    tc_ap s' = Ap_running st \<and>
    ap_log st = [Ipc_stop (replicate CFG_SIZE 0), ap_event.Bluetooth_deinit, Net_info_set info, Trans_service_init Tcp_service,
      Trans_chan_start Chan_ctrl, Trans_chan_start Chan_video, Trans_chan_start Chan_audio, wake_answer] @ es \<and>
    wake_answer \<notin> set es \<and> \<not> keepalive_ongoing (s_keepalive_env (tc_cp s'))"
  using request_reaches_answer [OF assms] .

theorem request_answered_witness:
  "\<exists>s f acts s' st. tc_unbroken lp_config demo_sdk True 0x28000000 demo_flash s \<and> tc_ap s = Ap_off f \<and>
     tc_run lp_config demo_sdk True 0x28000000 acts s = Some s' \<and> tc_ap s' = Ap_running st \<and> wake_answer \<in> set (ap_log st)"
proof -
  obtain s f sm n b ch where s: "tc_unbroken lp_config demo_sdk True 0x28000000 demo_flash s" "tc_ap s = Ap_off f"
     "ka_tx (tc_cp s) = Tx_wait sm" "ka_rx (tc_cp s) = Rx_recv n b" "fl_service f = Some DOORBELL_SERVICE_LAN_TCP"
     "fl_net f = Some demo_net" "s_db_pack_chan (ka_pack (tc_cp s)) = Some ch" "chan_ok 1460 ch" "pending ch = []"
    using demo_off by blast
  have p: "good_stream 1460 (pending ch @ wake_packet)" "length wake_packet \<le> 1460"
    "[19, 0, 0, 0, 0, 0, 0, 0, 0, 0] \<in> set (fst (deframe (pending ch @ wake_packet)))"
    by (simp_all add: s(9) wake_packet)
  have addr: "(0x28000000 :: u32) \<noteq> 0" by simp
  have dev: "dv_malloc (ca_dev core_ok)" by (simp add: lp_simps)
  from request_answered [OF s(1-4,7,8) p(1) wake_packet(1) p(2,3) wake_packet(5) s(5,6) addr lp_simps(3,4,1) lp_chans dev,
      of 0 True demo_answer core_ok core_ok] s(1,2)
  show ?thesis by fastforce
qed

end
